(* ===== verification/Py_Prelude.thy ===== *)
theory Py_Prelude
  imports Main "HOL-Library.Char_ord" "HOL-Library.List_Lexorder" "HOL-Library.AList"
begin

text \<open>
  The fragment of Python the agent core is written in, shared by every component.

  \<^item> Exceptions: a class with its superclasses and a message; a fallible function returns
    \<open>exc + 'a\<close>, an effectful one maps a world to such a result and the new world.
  \<^item> Values that cross a JSON boundary: \<open>pyval\<close>, with Python's truth value, \<open>==\<close>, \<open>str\<close>,
    \<open>int\<close> and iteration. Numbers are Python's integers: floats do not occur in the model.
    A dictionary is an association list in insertion order with distinct keys.
  \<^item> Strings: \<open>string\<close>, one \<open>char\<close> per code point, so the strings of the model are those
    over U+0000..U+00FF; \<open>strip\<close> and \<open>lower\<close> are exact on that range.
\<close>

section \<open>Collections of facts\<close>

named_theorems res_simps \<open>equations and inversions of the result and effect monads\<close>

section \<open>Exceptions\<close>

datatype exc_class =
    BaseException | Exception | KeyboardInterrupt | SystemExit
  | ValueError | KeyError | TypeError | AttributeError | AssertionError | RuntimeError
  | BlockedAction | SafeActionError
  | CredentialProviderError | CredentialScopeError | CredentialLifetimeError
  | CredentialRevokedError | CredentialAuthBlocked | CredentialRefreshInProgress
  | SecretStoreError | SecretStoreConflict | SecretStoreAmbiguousWrite
  | RefreshExchangeRejected | RefreshExchangeAmbiguous
  | DurableSecretBackendError | DurableSecretBackendConflict
  | DurableSecretBackendAmbiguousWrite | DurableSecretBackendUnavailable
  | HostedQueueError | HostedQueueConflict | HostedQueueIntegrityError
  | HostedActivityError | HostedActivityIntegrityError
  | HostedCheckpointError | HostedCheckpointConflict | HostedCheckpointNotFound
  | HostedCheckpointIntegrityError
  | HostedRecoveryIntegrityError | HostedExecutionNotAuthorized
  | HostedTransportError | HostedRunInterrupted
  | OtherError string \<comment> \<open>any other subclass of \<open>Exception\<close>, by its name\<close>

datatype exc = Exc (exc_cls: exc_class) (exc_msg: string)

text \<open>The proper superclasses of a class, as the source's class statements give them.\<close>

fun exc_supers :: "exc_class \<Rightarrow> exc_class list" where
  "exc_supers BaseException = []"
| "exc_supers Exception = [BaseException]"
| "exc_supers KeyboardInterrupt = [BaseException]"
| "exc_supers SystemExit = [BaseException]"
| "exc_supers HostedRunInterrupted = [BaseException]"
| "exc_supers CredentialProviderError = [RuntimeError, Exception, BaseException]"
| "exc_supers CredentialScopeError = [CredentialProviderError, RuntimeError, Exception, BaseException]"
| "exc_supers CredentialLifetimeError = [CredentialProviderError, RuntimeError, Exception, BaseException]"
| "exc_supers CredentialRevokedError = [CredentialProviderError, RuntimeError, Exception, BaseException]"
| "exc_supers CredentialAuthBlocked = [CredentialProviderError, RuntimeError, Exception, BaseException]"
| "exc_supers CredentialRefreshInProgress = [CredentialProviderError, RuntimeError, Exception, BaseException]"
| "exc_supers SecretStoreConflict = [SecretStoreError, RuntimeError, Exception, BaseException]"
| "exc_supers SecretStoreAmbiguousWrite = [SecretStoreError, RuntimeError, Exception, BaseException]"
| "exc_supers DurableSecretBackendConflict = [DurableSecretBackendError, RuntimeError, Exception, BaseException]"
| "exc_supers DurableSecretBackendAmbiguousWrite = [DurableSecretBackendError, RuntimeError, Exception, BaseException]"
| "exc_supers DurableSecretBackendUnavailable = [DurableSecretBackendError, RuntimeError, Exception, BaseException]"
| "exc_supers HostedQueueConflict = [HostedQueueError, RuntimeError, Exception, BaseException]"
| "exc_supers HostedQueueIntegrityError = [HostedQueueError, RuntimeError, Exception, BaseException]"
| "exc_supers HostedActivityIntegrityError = [HostedActivityError, RuntimeError, Exception, BaseException]"
| "exc_supers HostedCheckpointConflict = [HostedCheckpointError, RuntimeError, Exception, BaseException]"
| "exc_supers HostedCheckpointNotFound = [HostedCheckpointError, RuntimeError, Exception, BaseException]"
| "exc_supers HostedCheckpointIntegrityError = [HostedCheckpointError, RuntimeError, Exception, BaseException]"
| "exc_supers ValueError = [Exception, BaseException]"
| "exc_supers KeyError = [Exception, BaseException]"
| "exc_supers TypeError = [Exception, BaseException]"
| "exc_supers AttributeError = [Exception, BaseException]"
| "exc_supers AssertionError = [Exception, BaseException]"
| "exc_supers RuntimeError = [Exception, BaseException]"
| "exc_supers (OtherError _) = [Exception, BaseException]"
| "exc_supers _ = [RuntimeError, Exception, BaseException]"

text \<open>\<open>except C\<close> catches an exception whose class is \<open>C\<close> or a subclass of it.\<close>

definition catches :: "exc_class \<Rightarrow> exc \<Rightarrow> bool" where
  "catches c e \<longleftrightarrow> c = exc_cls e \<or> c \<in> set (exc_supers (exc_cls e))"

abbreviation value_error :: "string \<Rightarrow> exc + 'a" where
  "value_error m \<equiv> Inl (Exc ValueError m)"

section \<open>Results and effects\<close>

type_synonym 'a res = "exc + 'a"
type_synonym ('w, 'a) eff = "'w \<Rightarrow> (exc + 'a) \<times> 'w"

definition bindR :: "'a res \<Rightarrow> ('a \<Rightarrow> 'b res) \<Rightarrow> 'b res" where
  "bindR m f = (case m of Inl e \<Rightarrow> Inl e | Inr x \<Rightarrow> f x)"

fun mapR :: "('a \<Rightarrow> 'b res) \<Rightarrow> 'a list \<Rightarrow> 'b list res" where
  "mapR f [] = Inr []"
| "mapR f (x # xs) = bindR (f x) (\<lambda>y. bindR (mapR f xs) (\<lambda>ys. Inr (y # ys)))"

definition retE :: "'a \<Rightarrow> ('w, 'a) eff" where
  "retE x = (\<lambda>w. (Inr x, w))"

definition raiseE :: "exc \<Rightarrow> ('w, 'a) eff" where
  "raiseE e = (\<lambda>w. (Inl e, w))"

definition liftE :: "'a res \<Rightarrow> ('w, 'a) eff" where
  "liftE r = (\<lambda>w. (r, w))"

definition bindE :: "('w, 'a) eff \<Rightarrow> ('a \<Rightarrow> ('w, 'b) eff) \<Rightarrow> ('w, 'b) eff" where
  "bindE m f = (\<lambda>w. case m w of (Inl e, w') \<Rightarrow> (Inl e, w') | (Inr x, w') \<Rightarrow> f x w')"

text \<open>\<open>tryE m h\<close>: the handler decides for every exception; one it does not catch it raises again.\<close>

definition tryE :: "('w, 'a) eff \<Rightarrow> (exc \<Rightarrow> ('w, 'a) eff) \<Rightarrow> ('w, 'a) eff" where
  "tryE m h = (\<lambda>w. case m w of (Inl e, w') \<Rightarrow> h e w' | (Inr x, w') \<Rightarrow> (Inr x, w'))"

lemma bindR_simps [simp, res_simps]:
  "bindR (Inl e) f = Inl e" "bindR (Inr x) f = f x"
  by (simp_all add: bindR_def)

lemma bindR_eq_Inr [res_simps]: "bindR m f = Inr y \<longleftrightarrow> (\<exists>x. m = Inr x \<and> f x = Inr y)"
  by (cases m) simp_all

lemma bindR_eq_Inl [res_simps]:
  "bindR m f = Inl e \<longleftrightarrow> m = Inl e \<or> (\<exists>x. m = Inr x \<and> f x = Inl e)"
  by (cases m) simp_all

lemma mapR_eq_Inr: "mapR f xs = Inr ys \<longleftrightarrow> list_all2 (\<lambda>x y. f x = Inr y) xs ys"
proof (induction xs arbitrary: ys)
  case Nil
  then show ?case by auto
next
  case (Cons x xs)
  then show ?case by (cases ys) (auto simp: bindR_eq_Inr)
qed

lemma mapR_total: "(\<And>x. x \<in> set xs \<Longrightarrow> f x = Inr (g x)) \<Longrightarrow> mapR f xs = Inr (map g xs)"
  by (induction xs) auto

lemma eff_apply [simp, res_simps]:
  "retE x w = (Inr x, w)" "raiseE e w = (Inl e, w)" "liftE r w = (r, w)"
  by (simp_all add: retE_def raiseE_def liftE_def)

lemma bindE_apply [res_simps]:
  "bindE m f w = (case m w of (Inl e, w') \<Rightarrow> (Inl e, w') | (Inr x, w') \<Rightarrow> f x w')"
  by (simp add: bindE_def)

lemma bindE_ret [simp]: "bindE (retE x) f = f x" "bindE (raiseE e) f = raiseE e"
  by (simp_all add: fun_eq_iff bindE_apply)

lemma bindE_lift [simp]: "bindE (liftE (Inr x)) f = f x" "bindE (liftE (Inl e)) f = raiseE e"
  by (simp_all add: fun_eq_iff bindE_apply)

lemma bindE_eqs:
  "m w = (Inr x, w') \<Longrightarrow> bindE m f w = f x w'"
  "m w = (Inl e, w') \<Longrightarrow> bindE m f w = (Inl e, w')"
  by (simp_all add: bindE_apply)

lemma bindE_eq_Inr:
  "bindE m f w = (Inr y, w'') \<longleftrightarrow> (\<exists>x w'. m w = (Inr x, w') \<and> f x w' = (Inr y, w''))"
  by (cases "m w"; cases "fst (m w)") (auto simp: bindE_apply)

lemma bindE_cong_Inr:
  assumes "\<And>x w'. m w = (Inr x, w') \<Longrightarrow> f x w' = g x w'"
  shows "bindE m f w = bindE m g w"
  using assms by (cases "m w"; cases "fst (m w)") (auto simp: bindE_apply)

lemma liftE_cong_Inr: "(\<And>x. r = Inr x \<Longrightarrow> f x = g x) \<Longrightarrow> bindE (liftE r) f = bindE (liftE r) g"
  by (cases r) simp_all

lemma tryE_apply [res_simps]:
  "tryE m h w = (case m w of (Inl e, w') \<Rightarrow> h e w' | (Inr x, w') \<Rightarrow> (Inr x, w'))"
  by (simp add: tryE_def)

section \<open>Pre- and postconditions of effects\<close>

text \<open>
  \<open>triple P m Q E\<close>: from a world with \<open>P\<close>, a result of \<open>m\<close> satisfies \<open>Q\<close> and an exception of \<open>m\<close>
  satisfies \<open>E\<close>, each in the world it leaves.
\<close>

definition triple ::
  "('w \<Rightarrow> bool) \<Rightarrow> ('w, 'a) eff \<Rightarrow> ('a \<Rightarrow> 'w \<Rightarrow> bool) \<Rightarrow> (exc \<Rightarrow> 'w \<Rightarrow> bool) \<Rightarrow> bool" where
  "triple P m Q E \<longleftrightarrow>
     (\<forall>w. P w \<longrightarrow> (case m w of (Inr x, w') \<Rightarrow> Q x w' | (Inl e, w') \<Rightarrow> E e w'))"

named_theorems triple_rules \<open>rules that decompose a triple along the program\<close>

lemma tripleD_Inr: "triple P m Q E \<Longrightarrow> P w \<Longrightarrow> m w = (Inr x, w') \<Longrightarrow> Q x w'"
  by (fastforce simp: triple_def)

lemma tripleD_Inl: "triple P m Q E \<Longrightarrow> P w \<Longrightarrow> m w = (Inl e, w') \<Longrightarrow> E e w'"
  by (fastforce simp: triple_def)

lemma tripleI:
  assumes "\<And>w x w'. P w \<Longrightarrow> m w = (Inr x, w') \<Longrightarrow> Q x w'"
    and "\<And>w e w'. P w \<Longrightarrow> m w = (Inl e, w') \<Longrightarrow> E e w'"
  shows "triple P m Q E"
  using assms by (auto simp: triple_def split: prod.splits sum.splits)

lemma triple_conseq:
  assumes "triple P' m Q' E'" and "\<And>w. P w \<Longrightarrow> P' w"
    and "\<And>x w. Q' x w \<Longrightarrow> Q x w" and "\<And>e w. E' e w \<Longrightarrow> E e w"
  shows "triple P m Q E"
  using assms by (fastforce simp: triple_def split: prod.splits sum.splits)

lemma triple_bind [triple_rules]:
  assumes "triple P m R E" and "\<And>x. triple (R x) (f x) Q E"
  shows "triple P (bindE m f) Q E"
  using assms by (fastforce simp: triple_def bindE_apply split: prod.splits sum.splits)

lemma triple_ret [triple_rules]: "(\<And>w. P w \<Longrightarrow> Q x w) \<Longrightarrow> triple P (retE x) Q E"
  by (simp add: triple_def)

lemma triple_raise [triple_rules]: "(\<And>w. P w \<Longrightarrow> E e w) \<Longrightarrow> triple P (raiseE e) Q E"
  by (simp add: triple_def)

lemma triple_lift [triple_rules]:
  assumes "\<And>w x. P w \<Longrightarrow> r = Inr x \<Longrightarrow> Q x w" and "\<And>w e. P w \<Longrightarrow> r = Inl e \<Longrightarrow> E e w"
  shows "triple P (liftE r) Q E"
  using assms by (cases r) (simp_all add: triple_def)

lemma triple_if [triple_rules]:
  assumes "c \<Longrightarrow> triple P m Q E" and "\<not> c \<Longrightarrow> triple P n Q E"
  shows "triple P (if c then m else n) Q E"
  using assms by simp

lemma triple_frame:
  assumes "triple P m Q (\<lambda>_ _. True)"
  shows "triple (\<lambda>w. P w \<and> A) m (\<lambda>x w. Q x w \<and> A) (\<lambda>_ _. True)"
  using assms by (auto simp: triple_def split: prod.splits sum.splits)

lemma triple_post:
  assumes "triple P m Q' (\<lambda>_ _. True)" and "\<And>x w. Q' x w \<Longrightarrow> Q x w"
  shows "triple P m Q (\<lambda>_ _. True)"
  using assms by (auto intro: triple_conseq)

text \<open>A condition on the arguments alone, carried in a precondition.\<close>

lemma triple_pure: "(A \<Longrightarrow> triple P m Q E) \<Longrightarrow> triple (\<lambda>w. P w \<and> A) m Q E"
  by (auto simp: triple_def)

lemma triple_pre: "triple P' m Q E \<Longrightarrow> (\<And>w. P w \<Longrightarrow> P' w) \<Longrightarrow> triple P m Q E"
  by (auto intro: triple_conseq)

end
