(* ===== verification/Py_Values.thy ===== *)
theory Py_Values
  imports Py_Prelude
begin

text \<open>
  Python strings and JSON-borne values: the operations of the language and its standard
  library that the agent core uses on them (\<open>str.strip\<close>, \<open>str.lower\<close>, \<open>repr\<close>, \<open>str\<close>, \<open>int\<close>,
  \<open>dict\<close>, truth values, \<open>==\<close>, set membership, \<open>sorted\<close>, \<open>",".join\<close>).
\<close>

section \<open>Strings\<close>

definition code :: "char \<Rightarrow> nat" where
  "code c = of_char c"

text \<open>\<open>str.isspace\<close> on U+0000..U+00FF.\<close>

definition is_space :: "char \<Rightarrow> bool" where
  "is_space c \<longleftrightarrow> (let n = code c in (9 \<le> n \<and> n \<le> 13) \<or> (28 \<le> n \<and> n \<le> 32) \<or> n = 133 \<or> n = 160)"

definition strip :: "string \<Rightarrow> string" where
  "strip s = rev (dropWhile is_space (rev (dropWhile is_space s)))"

abbreviation blank :: "string \<Rightarrow> bool" where
  "blank s \<equiv> strip s = []"

definition is_digit :: "char \<Rightarrow> bool" where
  "is_digit c \<longleftrightarrow> 48 \<le> code c \<and> code c \<le> 57"

definition is_lower :: "char \<Rightarrow> bool" where
  "is_lower c \<longleftrightarrow> 97 \<le> code c \<and> code c \<le> 122"

definition is_upper :: "char \<Rightarrow> bool" where
  "is_upper c \<longleftrightarrow> 65 \<le> code c \<and> code c \<le> 90"

definition ascii_alnum :: "char \<Rightarrow> bool" where
  "ascii_alnum c \<longleftrightarrow> is_digit c \<or> is_lower c \<or> is_upper c"

text \<open>\<open>str.lower\<close> on U+0000..U+00FF: the ASCII and the Latin-1 capitals move by 32.\<close>

definition lower_char :: "char \<Rightarrow> char" where
  "lower_char c = (if is_upper c \<or> (192 \<le> code c \<and> code c \<le> 222 \<and> code c \<noteq> 215)
                   then char_of (code c + 32) else c)"

definition lower :: "string \<Rightarrow> string" where
  "lower s = map lower_char s"

text \<open>
  A pattern \<^verbatim>\<open>^[first][rest]{0,n}$\<close> used with \<open>fullmatch\<close>.
\<close>

fun ident_match :: "(char \<Rightarrow> bool) \<Rightarrow> (char \<Rightarrow> bool) \<Rightarrow> nat \<Rightarrow> string \<Rightarrow> bool" where
  "ident_match first rest n [] = False"
| "ident_match first rest n (c # cs) = (first c \<and> list_all rest cs \<and> length cs \<le> n)"

fun join :: "string \<Rightarrow> string list \<Rightarrow> string" where
  "join sep [] = []"
| "join sep [x] = x"
| "join sep (x # y # ys) = x @ sep @ join sep (y # ys)"

text \<open>\<open>needle in hay\<close> on strings.\<close>

fun substring :: "string \<Rightarrow> string \<Rightarrow> bool" where
  "substring n [] = (n = [])"
| "substring n (c # cs) = (take (length n) (c # cs) = n \<or> substring n cs)"

definition starts_with :: "string \<Rightarrow> string \<Rightarrow> bool" where
  "starts_with p s \<longleftrightarrow> take (length p) s = p"

text \<open>Decimal text of an integer.\<close>

definition digit_char :: "nat \<Rightarrow> char" where
  "digit_char n = char_of (48 + n)"

fun nat_str :: "nat \<Rightarrow> string" where
  "nat_str n = (if n < 10 then [digit_char n] else nat_str (n div 10) @ [digit_char (n mod 10)])"

declare nat_str.simps [simp del]

definition int_str :: "int \<Rightarrow> string" where
  "int_str i = (if i < 0 then ''-'' @ nat_str (nat (- i)) else nat_str (nat i))"

text \<open>
  \<open>int(text)\<close>: surrounding white space, an optional sign, digits with single underscores
  between them.
\<close>

fun digits_val :: "nat \<Rightarrow> bool \<Rightarrow> string \<Rightarrow> nat option" where
  "digits_val acc prev [] = (if prev then Some acc else None)"
| "digits_val acc prev (c # cs) =
     (if is_digit c then digits_val (10 * acc + (code c - 48)) True cs
      else if c = CHR ''_'' \<and> prev then digits_val acc False cs else None)"

definition parse_int :: "string \<Rightarrow> int option" where
  "parse_int s = (case strip s of
       [] \<Rightarrow> None
     | c # cs \<Rightarrow> if c = CHR ''-'' then map_option (\<lambda>n. - int n) (digits_val 0 False cs)
                 else if c = CHR ''+'' then map_option int (digits_val 0 False cs)
                 else map_option int (digits_val 0 False (c # cs)))"

definition hex_char :: "nat \<Rightarrow> char" where
  "hex_char n = (if n < 10 then char_of (48 + n) else char_of (87 + n))"

text \<open>\<open>repr\<close> of a string: the quote it chooses and its escapes on U+0000..U+00FF.\<close>

definition repr_char :: "char \<Rightarrow> char \<Rightarrow> string" where
  "repr_char q c =
     (let n = code c in
      if c = q \<or> n = 92 then [CHR 0x5C, c]
      else if n = 9 then [CHR 0x5C, CHR ''t'']
      else if n = 10 then [CHR 0x5C, CHR ''n'']
      else if n = 13 then [CHR 0x5C, CHR ''r'']
      else if n < 32 \<or> (127 \<le> n \<and> n \<le> 160) \<or> n = 173
      then [CHR 0x5C, CHR ''x'', hex_char (n div 16), hex_char (n mod 16)]
      else [c])"

definition repr_str :: "string \<Rightarrow> string" where
  "repr_str s =
     (let q = (if CHR 0x27 \<in> set s \<and> CHR 0x22 \<notin> set s then CHR 0x22 else CHR 0x27)
      in [q] @ concat (map (repr_char q) s) @ [q])"

section \<open>Values\<close>

datatype pyval =
    PNone
  | PBool bool
  | PInt int
  | PStr string
  | PList "pyval list"
  | PDict "(string \<times> pyval) list"

type_synonym pydict = "(string \<times> pyval) list"

text \<open>Well-formed values: the keys of every dictionary are distinct.\<close>

fun wf_val :: "pyval \<Rightarrow> bool" where
  "wf_val (PList xs) = list_all wf_val xs"
| "wf_val (PDict d) = (distinct (map fst d) \<and> list_all (\<lambda>p. wf_val (snd p)) d)"
| "wf_val _ = True"

text \<open>\<open>bool(x)\<close>.\<close>

fun truthy :: "pyval \<Rightarrow> bool" where
  "truthy PNone = False"
| "truthy (PBool b) = b"
| "truthy (PInt i) = (i \<noteq> 0)"
| "truthy (PStr s) = (s \<noteq> [])"
| "truthy (PList xs) = (xs \<noteq> [])"
| "truthy (PDict d) = (d \<noteq> [])"

text \<open>\<open>isinstance(x, int)\<close> holds of booleans; \<open>type(x) is int\<close> does not.\<close>

fun is_int_instance :: "pyval \<Rightarrow> bool" where
  "is_int_instance (PInt _) = True"
| "is_int_instance (PBool _) = True"
| "is_int_instance _ = False"

fun is_dict :: "pyval \<Rightarrow> bool" where
  "is_dict (PDict _) = True"
| "is_dict _ = False"

text \<open>\<open>x or default\<close>.\<close>

definition py_or :: "pyval \<Rightarrow> pyval \<Rightarrow> pyval" where
  "py_or v d = (if truthy v then v else d)"

text \<open>\<open>d.get(k)\<close> and \<open>d.get(k, default)\<close>.\<close>

definition dict_get :: "pydict \<Rightarrow> string \<Rightarrow> pyval" where
  "dict_get d k = (case map_of d k of None \<Rightarrow> PNone | Some v \<Rightarrow> v)"

definition dict_get_or :: "pydict \<Rightarrow> string \<Rightarrow> pyval \<Rightarrow> pyval" where
  "dict_get_or d k dflt = (case map_of d k of None \<Rightarrow> dflt | Some v \<Rightarrow> v)"

text \<open>\<open>d[k]\<close>, with \<open>KeyError\<close>.\<close>

definition dict_item :: "pydict \<Rightarrow> string \<Rightarrow> pyval res" where
  "dict_item d k = (case map_of d k of None \<Rightarrow> Inl (Exc KeyError k) | Some v \<Rightarrow> Inr v)"

text \<open>\<open>d.update(e)\<close>.\<close>

definition dict_update :: "('k \<times> 'v) list \<Rightarrow> ('k \<times> 'v) list \<Rightarrow> ('k \<times> 'v) list" where
  "dict_update d e = fold (\<lambda>(k, v). AList.update k v) e d"

text \<open>
  \<open>a == b\<close>: booleans compare as the integers 0 and 1, dictionaries without regard to order.
\<close>

fun py_eq :: "pyval \<Rightarrow> pyval \<Rightarrow> bool" where
  "py_eq PNone PNone = True"
| "py_eq (PBool a) (PBool b) = (a = b)"
| "py_eq (PBool a) (PInt j) = (of_bool a = j)"
| "py_eq (PInt i) (PBool b) = (i = of_bool b)"
| "py_eq (PInt i) (PInt j) = (i = j)"
| "py_eq (PStr s) (PStr t) = (s = t)"
| "py_eq (PList xs) (PList ys) = list_all2 py_eq xs ys"
| "py_eq (PDict d) (PDict e) =
     (length d = length e \<and>
      list_all (\<lambda>(k, v). case map_of e k of None \<Rightarrow> False | Some w \<Rightarrow> py_eq v w) d)"
| "py_eq _ _ = False"

text \<open>
  \<open>str(x)\<close> and \<open>repr(x)\<close>.
\<close>

fun py_repr :: "pyval \<Rightarrow> string" where
  "py_repr PNone = ''None''"
| "py_repr (PBool b) = (if b then ''True'' else ''False'')"
| "py_repr (PInt i) = int_str i"
| "py_repr (PStr s) = repr_str s"
| "py_repr (PList xs) = ''['' @ join '', '' (map py_repr xs) @ '']''"
| "py_repr (PDict d) =
     ''{'' @ join '', '' (map (\<lambda>p. repr_str (fst p) @ '': '' @ py_repr (snd p)) d) @ ''}''"

fun py_str :: "pyval \<Rightarrow> string" where
  "py_str (PStr s) = s"
| "py_str v = py_repr v"

text \<open>\<open>int(x)\<close>.\<close>

fun py_int :: "pyval \<Rightarrow> int res" where
  "py_int (PInt i) = Inr i"
| "py_int (PBool b) = Inr (of_bool b)"
| "py_int (PStr s) = (case parse_int s of
       None \<Rightarrow> value_error ''invalid literal for int() with base 10'' | Some i \<Rightarrow> Inr i)"
| "py_int _ = Inl (Exc TypeError ''int() argument must be a string, a bytes-like object or a real number'')"

text \<open>Iteration: lists, the characters of a string, the keys of a dictionary.\<close>

fun py_iter :: "pyval \<Rightarrow> pyval list res" where
  "py_iter (PList xs) = Inr xs"
| "py_iter (PStr s) = Inr (map (\<lambda>c. PStr [c]) s)"
| "py_iter (PDict d) = Inr (map (\<lambda>p. PStr (fst p)) d)"
| "py_iter _ = Inl (Exc TypeError ''object is not iterable'')"

text \<open>
  \<open>dict(x)\<close>. A sequence of pairs, which Python also accepts, does not occur; a non-empty
  string or list is refused as Python refuses one whose elements are not pairs.
\<close>

fun py_dict :: "pyval \<Rightarrow> pydict res" where
  "py_dict (PDict d) = Inr d"
| "py_dict (PStr s) = (if s = [] then Inr [] else value_error ''dictionary update sequence element has wrong length'')"
| "py_dict (PList xs) = (if xs = [] then Inr [] else value_error ''dictionary update sequence element has wrong length'')"
| "py_dict _ = Inl (Exc TypeError ''object is not iterable'')"

text \<open>
  \<open>x in {...}\<close> for a set of strings: a list or dictionary on the left is unhashable.
\<close>

fun in_str_set :: "pyval \<Rightarrow> string list \<Rightarrow> bool res" where
  "in_str_set (PStr s) xs = Inr (s \<in> set xs)"
| "in_str_set (PList _) xs = Inl (Exc TypeError ''unhashable type: list'')"
| "in_str_set (PDict _) xs = Inl (Exc TypeError ''unhashable type: dict'')"
| "in_str_set _ xs = Inr False"

text \<open>\<open>sorted({...})\<close> of a collection of strings.\<close>

definition sorted_set :: "string list \<Rightarrow> string list" where
  "sorted_set xs = sort (remdups xs)"

text \<open>A result that keeps only strings (\<open>x if isinstance(x, str) else None\<close>).\<close>

fun as_str :: "pyval \<Rightarrow> string option" where
  "as_str (PStr s) = Some s"
| "as_str _ = None"

definition opt_str :: "string option \<Rightarrow> pyval" where
  "opt_str x = (case x of None \<Rightarrow> PNone | Some s \<Rightarrow> PStr s)"

section \<open>Lemmas\<close>

lemma strip_Nil [simp]: "strip [] = []"
  by (simp add: strip_def)

lemma ball_dropWhile: "(\<forall>x\<in>set (dropWhile P xs). P x) \<longleftrightarrow> (\<forall>x\<in>set xs. P x)"
  by (induction xs) auto

lemma strip_is_Nil: "strip s = [] \<longleftrightarrow> list_all is_space s"
  by (simp add: strip_def list_all_iff ball_dropWhile)

lemma dropWhile_idem: "dropWhile P (dropWhile P xs) = dropWhile P xs"
  by (induction xs) auto

lemma dropWhile_rev_start:
  assumes "\<not> P x"
  shows "\<exists>zs. dropWhile P (rev (x # ys)) = zs @ [x]"
  using assms by (induction ys rule: rev_induct) auto

lemma strip_idem [simp]: "strip (strip s) = strip s"
proof (cases "dropWhile is_space s")
  case Nil
  then have "strip s = []" by (simp add: strip_is_Nil list_all_iff)
  then show ?thesis by simp
next
  case (Cons x ys)
  then have x: "\<not> is_space x" by (metis hd_dropWhile list.distinct(1) list.sel(1))
  obtain zs where zs: "dropWhile is_space (rev (x # ys)) = zs @ [x]"
    using dropWhile_rev_start [of is_space, OF x] by blast
  then have s: "strip s = x # rev zs"
    unfolding strip_def Cons by simp
  have "dropWhile is_space (zs @ [x]) = zs @ [x]"
    using zs dropWhile_idem [of is_space "rev (x # ys)"] by simp
  with x show ?thesis unfolding s by (simp add: strip_def)
qed

lemma dict_update_map_of: "map_of (dict_update d e) = map_of d ++ map_of (rev e)"
proof (induction e arbitrary: d)
  case Nil
  then show ?case by (simp add: dict_update_def)
next
  case (Cons p e)
  obtain k v where p: "p = (k, v)" by (cases p)
  have "map_of (dict_update d (p # e)) = map_of (dict_update (AList.update k v d) e)"
    by (simp add: dict_update_def p)
  also have "\<dots> = (map_of d)(k \<mapsto> v) ++ map_of (rev e)"
    by (simp only: Cons.IH update_conv')
  also have "\<dots> = map_of d ++ map_of (rev (p # e))"
    by (auto simp: p map_add_def fun_eq_iff split: option.splits)
  finally show ?case .
qed

lemma distinct_dict_update: "distinct (map fst d) \<Longrightarrow> distinct (map fst (dict_update d e))"
  by (induction e arbitrary: d) (auto simp: dict_update_def distinct_update)

lemma py_eq_refl: "wf_val v \<Longrightarrow> py_eq v v"
proof (induction v)
  case (PList xs)
  then show ?case by (auto simp: list_all_iff list_all2_same)
next
  case (PDict d)
  then show ?case
    by (fastforce simp: list_all_iff)
qed auto

lemma py_eq_str [simp]:
  "py_eq v (PStr s) \<longleftrightarrow> v = PStr s" "py_eq (PStr s) v \<longleftrightarrow> v = PStr s"
  by (cases v; auto)+

lemma dict_get_Cons [simp]:
  "dict_get ((k, v) # d) k' = (if k' = k then v else dict_get d k')"
  "dict_get [] k' = PNone"
  by (auto simp: dict_get_def)

lemma sorted_set_set [simp]: "set (sorted_set xs) = set xs"
  by (simp add: sorted_set_def)

lemma sorted_set_distinct [simp]: "distinct (sorted_set xs)"
  by (simp add: sorted_set_def)

lemma sorted_set_sorted [simp]: "sorted (sorted_set xs)"
  by (simp add: sorted_set_def)

lemma sorted_set_idem [simp]: "sorted_set (sorted_set xs) = sorted_set xs"
  by (simp add: sorted_set_def distinct_remdups_id sort_key_id_if_sorted)

lemma sorted_set_unique: "sorted xs \<Longrightarrow> distinct xs \<Longrightarrow> sorted_set xs = xs"
  by (simp add: sorted_set_def distinct_remdups_id sort_key_id_if_sorted)

end
