(* ===== verification/Json_Digest.thy ===== *)
theory Json_Digest
  imports Py_Values "HOL-Library.Word"
begin

text \<open>
  The canonical JSON text (\<open>json.dumps(..., sort_keys=True, separators=(",", ":"),
  ensure_ascii=False)\<close>), its UTF-8 bytes and \<open>hashlib.sha256(...).hexdigest()\<close>: what the task
  fingerprint and the secret-store key are computed from.
\<close>

unbundle bit_operations_syntax

section \<open>Canonical JSON\<close>

definition json_char :: "char \<Rightarrow> string" where
  "json_char c =
     (let n = code c in
      if n = 34 then [CHR 0x5C, CHR 0x22]
      else if n = 92 then [CHR 0x5C, CHR 0x5C]
      else if n = 10 then [CHR 0x5C, CHR ''n'']
      else if n = 13 then [CHR 0x5C, CHR ''r'']
      else if n = 9 then [CHR 0x5C, CHR ''t'']
      else if n = 12 then [CHR 0x5C, CHR ''f'']
      else if n = 8 then [CHR 0x5C, CHR ''b'']
      else if n < 32 then [CHR 0x5C, CHR ''u'', CHR ''0'', CHR ''0'', hex_char (n div 16), hex_char (n mod 16)]
      else [c])"

definition json_string :: "string \<Rightarrow> string" where
  "json_string s = [CHR 0x22] @ concat (map json_char s) @ [CHR 0x22]"

fun json_dumps :: "pyval \<Rightarrow> string" where
  "json_dumps PNone = ''null''"
| "json_dumps (PBool b) = (if b then ''true'' else ''false'')"
| "json_dumps (PInt i) = int_str i"
| "json_dumps (PStr s) = json_string s"
| "json_dumps (PList xs) = ''['' @ join '','' (map json_dumps xs) @ '']''"
| "json_dumps (PDict d) =
     ''{'' @ join '','' (map (\<lambda>(k, t). json_string k @ '':'' @ t)
        (sort_key fst (map (\<lambda>p. (fst p, json_dumps (snd p))) d))) @ ''}''"

section \<open>UTF-8\<close>

definition utf8_char :: "char \<Rightarrow> nat list" where
  "utf8_char c = (let n = code c in if n < 128 then [n] else [192 + n div 64, 128 + n mod 64])"

definition utf8 :: "string \<Rightarrow> nat list" where
  "utf8 s = concat (map utf8_char s)"

section \<open>SHA-256\<close>

type_synonym w32 = "32 word"

definition sha_k :: "w32 list" where
  "sha_k =
   [1116352408, 1899447441, 3049323471, 3921009573, 961987163, 1508970993, 2453635748, 2870763221,
    3624381080, 310598401, 607225278, 1426881987, 1925078388, 2162078206, 2614888103, 3248222580,
    3835390401, 4022224774, 264347078, 604807628, 770255983, 1249150122, 1555081692, 1996064986,
    2554220882, 2821834349, 2952996808, 3210313671, 3336571891, 3584528711, 113926993, 338241895,
    666307205, 773529912, 1294757372, 1396182291, 1695183700, 1986661051, 2177026350, 2456956037,
    2730485921, 2820302411, 3259730800, 3345764771, 3516065817, 3600352804, 4094571909, 275423344,
    430227734, 506948616, 659060556, 883997877, 958139571, 1322822218, 1537002063, 1747873779,
    1955562222, 2024104815, 2227730452, 2361852424, 2428436474, 2756734187, 3204031479, 3329325298]"

definition sha_h0 :: "w32 list" where
  "sha_h0 = [1779033703, 3144134277, 1013904242, 2773480762, 1359893119, 2600822924, 528734635, 1541459225]"

definition rotr :: "nat \<Rightarrow> w32 \<Rightarrow> w32" where
  "rotr n x = (drop_bit n x) OR (push_bit (32 - n) x)"

definition word_of_bytes :: "nat list \<Rightarrow> w32" where
  "word_of_bytes bs = foldl (\<lambda>a b. a * 256 + of_nat b) 0 bs"

text \<open>The message schedule, newest word first: from the last sixteen words the next one.\<close>

definition sha_next :: "w32 list \<Rightarrow> w32" where
  "sha_next ws =
     (let w2 = ws ! 1; w7 = ws ! 6; w15 = ws ! 14; w16 = ws ! 15;
          s0 = rotr 7 w15 XOR rotr 18 w15 XOR drop_bit 3 w15;
          s1 = rotr 17 w2 XOR rotr 19 w2 XOR drop_bit 10 w2
      in w16 + s0 + w7 + s1)"

fun sha_extend :: "nat \<Rightarrow> w32 list \<Rightarrow> w32 list" where
  "sha_extend 0 ws = ws"
| "sha_extend (Suc n) ws = sha_extend n (sha_next ws # ws)"

fun sha_round :: "w32 \<times> w32 \<Rightarrow> w32 list \<Rightarrow> w32 list" where
  "sha_round (k, w) [a, b, c, d, e, f, g, h] =
     (let s1 = rotr 6 e XOR rotr 11 e XOR rotr 25 e;
          ch = (e AND f) XOR (NOT e AND g);
          t1 = h + s1 + ch + k + w;
          s0 = rotr 2 a XOR rotr 13 a XOR rotr 22 a;
          maj = (a AND b) XOR (a AND c) XOR (b AND c);
          t2 = s0 + maj
      in [t1 + t2, a, b, c, d + t1, e, f, g])"
| "sha_round _ st = st"

fun sha_block_words :: "nat \<Rightarrow> nat list \<Rightarrow> w32 list" where
  "sha_block_words 0 bs = []"
| "sha_block_words (Suc n) bs = word_of_bytes (take 4 bs) # sha_block_words n (drop 4 bs)"

definition sha_block :: "w32 list \<Rightarrow> nat list \<Rightarrow> w32 list" where
  "sha_block hs bs =
     (let ws = rev (sha_extend 48 (rev (sha_block_words 16 bs)))
      in map2 (+) hs (fold sha_round (zip sha_k ws) hs))"

definition sha_pad :: "nat list \<Rightarrow> nat list" where
  "sha_pad bs =
     (let n = length bs; z = (119 - n mod 64) mod 64; bits = 8 * int n
      in bs @ [128] @ replicate z 0 @ map (\<lambda>i. nat (bits div 256 ^ (7 - i) mod 256)) [0..<8])"

fun sha_blocks :: "nat \<Rightarrow> w32 list \<Rightarrow> nat list \<Rightarrow> w32 list" where
  "sha_blocks 0 hs bs = hs"
| "sha_blocks (Suc n) hs bs = sha_blocks n (sha_block hs (take 64 bs)) (drop 64 bs)"

definition hex_word :: "w32 \<Rightarrow> string" where
  "hex_word x = map (\<lambda>i. hex_char (nat (uint x div 16 ^ (7 - i) mod 16))) [0..<8]"

definition sha256_hex :: "nat list \<Rightarrow> string" where
  "sha256_hex bs =
     (let p = sha_pad bs in concat (map hex_word (sha_blocks (length p div 64) sha_h0 p)))"

text \<open>The digest of canonical JSON, as the sources compute it.\<close>

definition json_sha256 :: "pyval \<Rightarrow> string" where
  "json_sha256 v = sha256_hex (utf8 (json_dumps v))"

lemma length_hex_word [simp]: "length (hex_word x) = 8"
  by (simp add: hex_word_def)

lemma length_sha_round [simp]: "length (sha_round kw hs) = length hs"
  by (induction kw hs rule: sha_round.induct) (simp_all add: Let_def)

lemma length_sha_rounds [simp]: "length (fold sha_round kws hs) = length hs"
  by (induction kws arbitrary: hs) simp_all

lemma length_sha_blocks [simp]: "length (sha_blocks n hs bs) = length hs"
  by (induction n hs bs rule: sha_blocks.induct) (simp_all add: sha_block_def Let_def)

text \<open>A digest is 64 hexadecimal characters: in particular it is never empty.\<close>

lemma length_sha256_hex [simp]: "length (sha256_hex bs) = 64"
proof -
  have *: "length (concat (map hex_word xs)) = 8 * length xs" for xs
    by (induction xs) auto
  have "length sha_h0 = 8" by (simp add: sha_h0_def)
  with * show ?thesis by (simp add: sha256_hex_def Let_def)
qed

end
