(* ===== verification/Task_Model.thy ===== *)
theory Task_Model
  imports Json_Digest
begin

text \<open>
  The data model of the agent core, \<^verbatim>\<open>src/agent_core/model.py\<close>: task specifications
  (\<open>StepSpec\<close>, \<open>TaskSpec\<close>), artifacts (\<open>ArtifactState\<close>, \<open>ArtifactUpdate\<close>, \<open>ActionResult\<close>) and the
  durable task state (\<open>TaskState\<close>), with their \<open>validate\<close>, \<open>to_dict\<close>, \<open>from_dict\<close>, \<open>fingerprint\<close> and
  \<open>merge\<close> operations. A field that the source never checks keeps the dynamic type \<open>pyval\<close>; a
  field that \<open>from_dict\<close> coerces has the type it is coerced to. The clock reading that
  \<open>utc_now_iso\<close> returns is an argument.

  Main facts: \<open>from_dict\<close> after \<open>to_dict\<close> is validation (specifications) and the identity
  (states); validation confines every step to the allow list.
\<close>

abbreviation TASK_SCHEMA_VERSION :: string where
  "TASK_SCHEMA_VERSION \<equiv> ''agent-task-v1''"

abbreviation STATE_SCHEMA_VERSION :: string where
  "STATE_SCHEMA_VERSION \<equiv> ''agent-task-state-v1''"

abbreviation ARTIFACT_SCHEMA_VERSION :: string where
  "ARTIFACT_SCHEMA_VERSION \<equiv> ''agent-artifact-state-v1''"

section \<open>Task specifications\<close>

record step_spec =
  ss_step_id :: string
  ss_action :: string
  ss_args :: pydict
  ss_verify_action :: "string option"
  ss_retry_safe :: bool
  ss_max_attempts :: int

definition StepSpec_validate :: "step_spec \<Rightarrow> unit res" where
  "StepSpec_validate s =
     (if blank (ss_step_id s) then value_error ''step_id_required''
      else if blank (ss_action s) then value_error ''action_required''
      else if ss_max_attempts s < 1 then value_error ''max_attempts_must_be_positive''
      else if \<not> ss_retry_safe s \<and> ss_max_attempts s \<noteq> 1
      then value_error ''unsafe_retry_requires_single_attempt''
      else Inr ())"

definition StepSpec_to_dict :: "step_spec \<Rightarrow> pydict" where
  "StepSpec_to_dict s =
     [(''step_id'', PStr (ss_step_id s)), (''action'', PStr (ss_action s)),
      (''args'', PDict (ss_args s)), (''verify_action'', opt_str (ss_verify_action s)),
      (''retry_safe'', PBool (ss_retry_safe s)), (''max_attempts'', PInt (ss_max_attempts s))]"

definition StepSpec_from_dict :: "pyval \<Rightarrow> step_spec res" where
  "StepSpec_from_dict v =
     (case v of
        PDict p \<Rightarrow>
          bindR (dict_item p ''step_id'') (\<lambda>sid.
          bindR (dict_item p ''action'') (\<lambda>act.
          bindR (py_dict (py_or (dict_get p ''args'') (PDict []))) (\<lambda>args.
          bindR (py_int (dict_get_or p ''max_attempts'' (PInt 1))) (\<lambda>n.
          Inr \<lparr>ss_step_id = py_str sid, ss_action = py_str act, ss_args = args,
               ss_verify_action = (if dict_get p ''verify_action'' = PNone then None
                                   else Some (py_str (dict_get p ''verify_action''))),
               ss_retry_safe = truthy (dict_get_or p ''retry_safe'' (PBool False)),
               ss_max_attempts = n\<rparr>))))
      | _ \<Rightarrow> Inl (Exc TypeError ''step payload is not subscriptable by a string''))"

record task_spec =
  sp_task_id :: string
  sp_title :: string
  sp_goal :: string
  sp_allowed_actions :: "string list"
  sp_steps :: "step_spec list"
  sp_inputs :: pydict
  sp_completion_conditions :: "string list"
  sp_schema_version :: string

definition TaskSpec_to_dict :: "task_spec \<Rightarrow> pydict" where
  "TaskSpec_to_dict s =
     [(''schema_version'', PStr (sp_schema_version s)), (''task_id'', PStr (sp_task_id s)),
      (''title'', PStr (sp_title s)), (''goal'', PStr (sp_goal s)),
      (''allowed_actions'', PList (map PStr (sp_allowed_actions s))),
      (''steps'', PList (map (\<lambda>st. PDict (StepSpec_to_dict st)) (sp_steps s))),
      (''inputs'', PDict (sp_inputs s)),
      (''completion_conditions'', PList (map PStr (sp_completion_conditions s)))]"

definition fingerprint :: "task_spec \<Rightarrow> string" where
  "fingerprint s = ''sha256-v1:'' @ json_sha256 (PDict (TaskSpec_to_dict s))"

text \<open>The loop of \<open>TaskSpec.validate\<close> over the steps, with its set \<open>seen\<close>.\<close>

fun validate_steps :: "string list \<Rightarrow> string list \<Rightarrow> step_spec list \<Rightarrow> unit res" where
  "validate_steps allowed seen [] = Inr ()"
| "validate_steps allowed seen (s # ss) =
     bindR (StepSpec_validate s) (\<lambda>_.
       if ss_step_id s \<in> set seen then value_error ''duplicate_step_id''
       else if ss_action s \<notin> set allowed then value_error (''action_not_allowed:'' @ ss_action s)
       else (case ss_verify_action s of
               Some v \<Rightarrow>
                 if v \<noteq> [] \<and> v \<notin> set allowed
                 then value_error (''verification_action_not_allowed:'' @ v)
                 else validate_steps allowed (ss_step_id s # seen) ss
             | None \<Rightarrow> validate_steps allowed (ss_step_id s # seen) ss))"

definition TaskSpec_validate :: "task_spec \<Rightarrow> unit res" where
  "TaskSpec_validate s =
     (if sp_schema_version s \<noteq> TASK_SCHEMA_VERSION then value_error ''task_schema_mismatch''
      else if blank (sp_task_id s) then value_error ''task_id_required''
      else if blank (sp_title s) then value_error ''title_required''
      else if blank (sp_goal s) then value_error ''goal_required''
      else if sp_steps s = [] then value_error ''at_least_one_step_required''
      else if \<not> distinct (sp_allowed_actions s) then value_error ''duplicate_allowed_action''
      else validate_steps (sp_allowed_actions s) [] (sp_steps s))"

definition TaskSpec_from_dict :: "pydict \<Rightarrow> task_spec res" where
  "TaskSpec_from_dict p =
     bindR (dict_item p ''task_id'') (\<lambda>tid.
     bindR (dict_item p ''title'') (\<lambda>title.
     bindR (dict_item p ''goal'') (\<lambda>goal.
     bindR (py_iter (py_or (dict_get p ''allowed_actions'') (PList []))) (\<lambda>allowed.
     bindR (bindR (py_iter (py_or (dict_get p ''steps'') (PList []))) (mapR StepSpec_from_dict)) (\<lambda>steps.
     bindR (py_dict (py_or (dict_get p ''inputs'') (PDict []))) (\<lambda>inputs.
     bindR (py_iter (py_or (dict_get p ''completion_conditions'') (PList []))) (\<lambda>conds.
     let spec = \<lparr>sp_task_id = py_str tid, sp_title = py_str title, sp_goal = py_str goal,
                 sp_allowed_actions = map py_str allowed, sp_steps = steps, sp_inputs = inputs,
                 sp_completion_conditions = map py_str conds,
                 sp_schema_version = py_str (py_or (dict_get p ''schema_version'') (PStr []))\<rparr>
     in bindR (TaskSpec_validate spec) (\<lambda>_. Inr spec))))))))"

section \<open>Artifacts\<close>

record artifact_state =
  ar_artifact_id :: pyval
  ar_kind :: pyval
  ar_locator :: pyval
  ar_created :: pyval
  ar_verified :: pyval
  ar_persistent_saved :: pyval
  ar_device_saved :: pyval
  ar_ui_loaded :: pyval
  ar_metadata :: pyval
  ar_schema_version :: pyval

record artifact_update =
  au_artifact_id :: pyval
  au_kind :: pyval
  au_locator :: pyval
  au_created :: pyval
  au_verified :: pyval
  au_persistent_saved :: pyval
  au_device_saved :: pyval
  au_ui_loaded :: pyval
  au_metadata :: pyval

record action_result =
  rs_message :: string
  rs_artifacts :: "artifact_update list"
  rs_data :: pydict

text \<open>A keyword call \<open>Cls(**d)\<close> refuses unknown and missing keyword arguments.\<close>

definition kwargs_ok :: "string list \<Rightarrow> string list \<Rightarrow> pydict \<Rightarrow> bool" where
  "kwargs_ok names required d \<longleftrightarrow>
     list_all (\<lambda>k. k \<in> set names) (map fst d) \<and> list_all (\<lambda>k. k \<in> set (map fst d)) required"

definition ArtifactState_kwargs :: "pyval \<Rightarrow> artifact_state res" where
  "ArtifactState_kwargs v =
     (case v of
        PDict d \<Rightarrow>
          if kwargs_ok [''artifact_id'', ''kind'', ''locator'', ''created'', ''verified'',
               ''persistent_saved'', ''device_saved'', ''ui_loaded'', ''metadata'', ''schema_version'']
               [''artifact_id'', ''kind''] d
          then Inr \<lparr>ar_artifact_id = dict_get d ''artifact_id'', ar_kind = dict_get d ''kind'',
             ar_locator = dict_get d ''locator'',
             ar_created = dict_get_or d ''created'' (PBool False),
             ar_verified = dict_get_or d ''verified'' (PBool False),
             ar_persistent_saved = dict_get_or d ''persistent_saved'' (PBool False),
             ar_device_saved = dict_get_or d ''device_saved'' (PBool False),
             ar_ui_loaded = dict_get_or d ''ui_loaded'' (PBool False),
             ar_metadata = dict_get_or d ''metadata'' (PDict []),
             ar_schema_version = dict_get_or d ''schema_version'' (PStr ARTIFACT_SCHEMA_VERSION)\<rparr>
          else Inl (Exc TypeError ''ArtifactState keyword arguments'')
      | _ \<Rightarrow> Inl (Exc TypeError ''argument after ** must be a mapping''))"

definition ArtifactUpdate_kwargs :: "pyval \<Rightarrow> artifact_update res" where
  "ArtifactUpdate_kwargs v =
     (case v of
        PDict d \<Rightarrow>
          if kwargs_ok [''artifact_id'', ''kind'', ''locator'', ''created'', ''verified'',
               ''persistent_saved'', ''device_saved'', ''ui_loaded'', ''metadata'']
               [''artifact_id'', ''kind''] d
          then Inr \<lparr>au_artifact_id = dict_get d ''artifact_id'', au_kind = dict_get d ''kind'',
             au_locator = dict_get d ''locator'', au_created = dict_get d ''created'',
             au_verified = dict_get d ''verified'',
             au_persistent_saved = dict_get d ''persistent_saved'',
             au_device_saved = dict_get d ''device_saved'', au_ui_loaded = dict_get d ''ui_loaded'',
             au_metadata = dict_get_or d ''metadata'' (PDict [])\<rparr>
          else Inl (Exc TypeError ''ArtifactUpdate keyword arguments'')
      | _ \<Rightarrow> Inl (Exc TypeError ''argument after ** must be a mapping''))"

definition ArtifactState_to_dict :: "artifact_state \<Rightarrow> pydict" where
  "ArtifactState_to_dict a =
     [(''artifact_id'', ar_artifact_id a), (''kind'', ar_kind a), (''locator'', ar_locator a),
      (''created'', ar_created a), (''verified'', ar_verified a),
      (''persistent_saved'', ar_persistent_saved a), (''device_saved'', ar_device_saved a),
      (''ui_loaded'', ar_ui_loaded a), (''metadata'', ar_metadata a),
      (''schema_version'', ar_schema_version a)]"

text \<open>\<open>self.x = bool(value)\<close> unless the update leaves the flag unset.\<close>

definition merge_flag :: "pyval \<Rightarrow> pyval \<Rightarrow> pyval" where
  "merge_flag old new = (if new = PNone then old else PBool (truthy new))"

definition merge_metadata :: "pyval \<Rightarrow> pyval \<Rightarrow> pyval res" where
  "merge_metadata old new =
     (if \<not> truthy new then Inr old
      else case old of
             PDict d \<Rightarrow> bindR (py_dict new) (\<lambda>e. Inr (PDict (dict_update d e)))
           | _ \<Rightarrow> Inl (Exc AttributeError ''update''))"

definition ArtifactState_merge :: "artifact_state \<Rightarrow> artifact_update \<Rightarrow> artifact_state res" where
  "ArtifactState_merge a u =
     (if truthy (au_kind u) \<and> \<not> py_eq (ar_kind a) (au_kind u)
      then value_error ''artifact_kind_conflict''
      else bindR (merge_metadata (ar_metadata a) (au_metadata u)) (\<lambda>md.
        Inr (a\<lparr>ar_locator := (if au_locator u = PNone then ar_locator a else au_locator u),
               ar_created := merge_flag (ar_created a) (au_created u),
               ar_verified := merge_flag (ar_verified a) (au_verified u),
               ar_persistent_saved := merge_flag (ar_persistent_saved a) (au_persistent_saved u),
               ar_device_saved := merge_flag (ar_device_saved a) (au_device_saved u),
               ar_ui_loaded := merge_flag (ar_ui_loaded a) (au_ui_loaded u),
               ar_metadata := md\<rparr>)))"

text \<open>\<open>x.strip()\<close> on a value that is not a string raises \<open>AttributeError\<close>.\<close>

definition required_text :: "pyval \<Rightarrow> string \<Rightarrow> unit res" where
  "required_text v err =
     (case v of PStr s \<Rightarrow> if blank s then value_error err else Inr ()
      | _ \<Rightarrow> Inl (Exc AttributeError ''strip''))"

definition ArtifactUpdate_validate :: "artifact_update \<Rightarrow> unit res" where
  "ArtifactUpdate_validate u =
     bindR (required_text (au_artifact_id u) ''artifact_id_required'') (\<lambda>_.
     required_text (au_kind u) ''artifact_kind_required'')"

section \<open>Task state\<close>

record task_state =
  st_task_id :: string
  st_status :: pyval
  st_completed_steps :: "pyval list"
  st_attempts :: "(string \<times> int) list"
  st_blocked_reason :: pyval
  st_last_error :: pyval
  st_artifacts :: "(string \<times> artifact_state) list"
  st_reconciliations :: "pyval list"
  st_updated_at :: string
  st_schema_version :: string
  st_spec_fingerprint :: pyval

text \<open>\<open>TaskState(task_id=...)\<close>, created at \<open>now\<close>.\<close>

definition TaskState_new :: "string \<Rightarrow> string \<Rightarrow> task_state" where
  "TaskState_new now tid =
     \<lparr>st_task_id = tid, st_status = PStr ''pending'', st_completed_steps = [], st_attempts = [],
      st_blocked_reason = PNone, st_last_error = PNone, st_artifacts = [],
      st_reconciliations = [], st_updated_at = now, st_schema_version = STATE_SCHEMA_VERSION,
      st_spec_fingerprint = PNone\<rparr>"

definition touch :: "string \<Rightarrow> task_state \<Rightarrow> task_state" where
  "touch now s = s\<lparr>st_updated_at := now\<rparr>"

definition TaskState_to_dict :: "task_state \<Rightarrow> pydict" where
  "TaskState_to_dict s =
     [(''task_id'', PStr (st_task_id s)), (''status'', st_status s),
      (''completed_steps'', PList (st_completed_steps s)),
      (''attempts'', PDict (map (\<lambda>(k, n). (k, PInt n)) (st_attempts s))),
      (''blocked_reason'', st_blocked_reason s), (''last_error'', st_last_error s),
      (''artifacts'', PDict (map (\<lambda>(k, a). (k, PDict (ArtifactState_to_dict a))) (st_artifacts s))),
      (''reconciliations'', PList (st_reconciliations s)),
      (''updated_at'', PStr (st_updated_at s)), (''schema_version'', PStr (st_schema_version s)),
      (''spec_fingerprint'', st_spec_fingerprint s)]"

definition TaskState_from_dict :: "string \<Rightarrow> pydict \<Rightarrow> task_state res" where
  "TaskState_from_dict now p =
     (if \<not> py_eq (dict_get p ''schema_version'') (PStr STATE_SCHEMA_VERSION)
      then value_error ''state_schema_mismatch''
      else
        bindR (bindR (py_dict (py_or (dict_get p ''artifacts'') (PDict [])))
                (mapR (\<lambda>(k, v). bindR (ArtifactState_kwargs v) (\<lambda>a. Inr (k, a))))) (\<lambda>arts.
        bindR (dict_item p ''task_id'') (\<lambda>tid.
        bindR (py_iter (py_or (dict_get p ''completed_steps'') (PList []))) (\<lambda>done.
        bindR (bindR (py_dict (py_or (dict_get p ''attempts'') (PDict [])))
                (mapR (\<lambda>(k, v). bindR (py_int v) (\<lambda>n. Inr (k, n))))) (\<lambda>attempts.
        bindR (py_iter (py_or (dict_get p ''reconciliations'') (PList []))) (\<lambda>recs.
        Inr \<lparr>st_task_id = py_str tid, st_status = dict_get_or p ''status'' (PStr ''pending''),
             st_completed_steps = done, st_attempts = attempts,
             st_blocked_reason = dict_get p ''blocked_reason'',
             st_last_error = dict_get p ''last_error'', st_artifacts = arts,
             st_reconciliations = recs,
             st_updated_at = py_str (py_or (dict_get p ''updated_at'') (PStr now)),
             st_schema_version = py_str (dict_get p ''schema_version''),
             st_spec_fingerprint = dict_get p ''spec_fingerprint''\<rparr>))))))"

section \<open>Round trips\<close>

lemma StepSpec_roundtrip [simp]: "StepSpec_from_dict (PDict (StepSpec_to_dict s)) = Inr s"
  by (cases s) (simp add: StepSpec_from_dict_def StepSpec_to_dict_def dict_item_def dict_get_or_def
      py_or_def opt_str_def split: option.splits)

lemma mapR_StepSpec_roundtrip [simp]:
  "mapR StepSpec_from_dict (map (\<lambda>st. PDict (StepSpec_to_dict st)) ss) = Inr ss"
  by (induction ss) auto

lemma map_py_str_PStr [simp]: "map (py_str \<circ> PStr) xs = xs"
  by (induction xs) auto

lemma py_iter_or [simp]: "py_iter (py_or (PList xs) (PList [])) = Inr xs"
  by (simp add: py_or_def)

lemma py_dict_or [simp]: "py_dict (py_or (PDict d) (PDict [])) = Inr d"
  by (simp add: py_or_def)

lemma py_str_or [simp]: "py_str (py_or (PStr s) (PStr t)) = (if s = [] then t else s)"
  by (simp add: py_or_def)

lemma TaskSpec_roundtrip:
  "TaskSpec_from_dict (TaskSpec_to_dict s) = bindR (TaskSpec_validate s) (\<lambda>_. Inr s)"
  by (cases s) (simp add: TaskSpec_from_dict_def TaskSpec_to_dict_def dict_item_def Let_def)

lemma ArtifactState_roundtrip [simp]:
  "ArtifactState_kwargs (PDict (ArtifactState_to_dict a)) = Inr a"
  by (cases a) (simp add: ArtifactState_kwargs_def ArtifactState_to_dict_def kwargs_ok_def dict_get_or_def)

lemma mapR_ArtifactState_roundtrip [simp]:
  "mapR (\<lambda>(k, v). bindR (ArtifactState_kwargs v) (\<lambda>a. Inr (k, a)))
     (map (\<lambda>(k, a). (k, PDict (ArtifactState_to_dict a))) xs) = Inr xs"
  by (induction xs) auto

lemma mapR_attempts_roundtrip [simp]:
  "mapR (\<lambda>(k, v). bindR (py_int v) (\<lambda>n. Inr (k, n))) (map (\<lambda>(k, n). (k, PInt n)) xs) = Inr xs"
  by (induction xs) auto

lemma TaskState_roundtrip:
  assumes "st_schema_version s = STATE_SCHEMA_VERSION" and "st_updated_at s \<noteq> []"
  shows "TaskState_from_dict now (TaskState_to_dict s) = Inr s"
  using assms
  by (cases s) (simp add: TaskState_from_dict_def TaskState_to_dict_def dict_item_def dict_get_or_def)

text \<open>What \<open>from_dict\<close> returns always carries the current schema version.\<close>

lemma TaskState_from_dict_schema:
  "TaskState_from_dict now p = Inr s \<Longrightarrow> st_schema_version s = STATE_SCHEMA_VERSION"
  by (auto simp: TaskState_from_dict_def bindR_eq_Inr split: if_splits)

lemma TaskSpec_from_dict_valid:
  "TaskSpec_from_dict p = Inr s \<Longrightarrow> TaskSpec_validate s = Inr ()"
  by (auto simp: TaskSpec_from_dict_def Let_def bindR_eq_Inr)

section \<open>Validation\<close>

text \<open>What a valid step and a valid task are, without the order of the checks.\<close>

definition step_valid :: "string list \<Rightarrow> step_spec \<Rightarrow> bool" where
  "step_valid allowed s \<longleftrightarrow>
     \<not> blank (ss_step_id s) \<and> \<not> blank (ss_action s) \<and> 1 \<le> ss_max_attempts s \<and>
     (ss_retry_safe s \<or> ss_max_attempts s = 1) \<and> ss_action s \<in> set allowed \<and>
     (\<forall>v. ss_verify_action s = Some v \<longrightarrow> v = [] \<or> v \<in> set allowed)"

lemma StepSpec_validate_ok:
  "StepSpec_validate s = Inr () \<longleftrightarrow>
     \<not> blank (ss_step_id s) \<and> \<not> blank (ss_action s) \<and> 1 \<le> ss_max_attempts s \<and>
     (ss_retry_safe s \<or> ss_max_attempts s = 1)"
  by (auto simp: StepSpec_validate_def)

lemma validate_steps_ok:
  "validate_steps allowed seen ss = Inr () \<longleftrightarrow>
     list_all (step_valid allowed) ss \<and> distinct (map ss_step_id ss) \<and>
     set (map ss_step_id ss) \<inter> set seen = {}"
proof (induction ss arbitrary: seen)
  case Nil
  then show ?case by simp
next
  case (Cons s ss)
  show ?case
    by (cases "ss_verify_action s")
      (auto simp: bindR_eq_Inr Cons.IH StepSpec_validate_ok step_valid_def)
qed

lemma TaskSpec_validate_ok:
  "TaskSpec_validate s = Inr () \<longleftrightarrow>
     sp_schema_version s = TASK_SCHEMA_VERSION \<and> \<not> blank (sp_task_id s) \<and> \<not> blank (sp_title s) \<and>
     \<not> blank (sp_goal s) \<and> sp_steps s \<noteq> [] \<and> distinct (sp_allowed_actions s) \<and>
     list_all (step_valid (sp_allowed_actions s)) (sp_steps s) \<and>
     distinct (map ss_step_id (sp_steps s))"
  by (auto simp: TaskSpec_validate_def validate_steps_ok)

section \<open>Artifact merging\<close>

lemma ArtifactState_merge_identity:
  "ArtifactState_merge a u = Inr b \<Longrightarrow>
     ar_artifact_id b = ar_artifact_id a \<and> ar_kind b = ar_kind a \<and> ar_schema_version b = ar_schema_version a"
  by (auto simp: ArtifactState_merge_def bindR_eq_Inr split: if_splits)

lemma merge_flag_idem [simp]: "merge_flag (merge_flag old new) new = merge_flag old new"
  by (simp add: merge_flag_def)

lemma dict_update_absorb:
  assumes "\<And>k v. (k, v) \<in> set e \<Longrightarrow> map_of d k = Some v"
  shows "dict_update d e = d"
  using assms by (induction e) (auto simp: dict_update_def update_triv)

lemma dict_update_idem:
  assumes "distinct (map fst e)"
  shows "dict_update (dict_update d e) e = dict_update d e"
proof (rule dict_update_absorb)
  fix k v
  assume "(k, v) \<in> set e"
  then have "map_of (rev e) k = Some v"
    using assms by (simp add: rev_map [symmetric])
  then show "map_of (dict_update d e) k = Some v"
    by (simp add: dict_update_map_of)
qed

lemma merge_metadata_idem:
  assumes "merge_metadata old new = Inr md" and "wf_val new"
  shows "merge_metadata md new = Inr md"
  using assms
  by (cases new) (auto simp: merge_metadata_def bindR_eq_Inr dict_update_idem
      split: if_splits pyval.splits)

lemma ArtifactState_merge_idem:
  assumes "ArtifactState_merge a u = Inr b" and "wf_val (au_metadata u)"
  shows "ArtifactState_merge b u = Inr b"
proof -
  obtain md where md: "merge_metadata (ar_metadata a) (au_metadata u) = Inr md"
    and b: "ar_kind b = ar_kind a" "ar_metadata b = md"
    and kind: "\<not> (truthy (au_kind u) \<and> \<not> py_eq (ar_kind a) (au_kind u))"
    using assms(1) by (auto simp: ArtifactState_merge_def bindR_eq_Inr split: if_splits)
  from merge_metadata_idem [OF md assms(2)] kind b assms(1) show ?thesis
    by (auto simp: ArtifactState_merge_def bindR_eq_Inr split: if_splits)
qed

end
