(* ===== verification/Task_Store.thy ===== *)
theory Task_Store
  imports Task_Model
begin

text \<open>
  The store a runner works on, as an interface. \<open>AgentRunner\<close> is duck typed: it runs on
  \<open>FileStateStore\<close> (\<^verbatim>\<open>src/agent_core/store.py\<close>) and on \<open>HostedLeaseStateStore\<close>
  (\<^verbatim>\<open>src/agent_core/hosted_readonly_worker.py\<close>), so the operations it calls are a record of
  functions over a world. The locale \<open>task_store\<close> is the contract of such a store: a save that
  returns has made the state durable, events do not touch states, and a state that is durable
  is what a load returns.
\<close>

text \<open>
  \<open>save_state\<close> first touches the state; the operation returns the time stamp it set, and the
  caller's state object carries it afterwards.
\<close>

record 'w store_ops =
  so_lock :: "string \<Rightarrow> ('w, unit) eff"
  so_unlock :: "string \<Rightarrow> 'w \<Rightarrow> 'w"
  so_exists :: "string \<Rightarrow> 'w \<Rightarrow> bool res"
  so_load :: "string \<Rightarrow> 'w \<Rightarrow> task_state res"
  so_save :: "task_state \<Rightarrow> ('w, string) eff"
  so_event :: "string \<Rightarrow> string option \<Rightarrow> string \<Rightarrow> string \<Rightarrow> pydict \<Rightarrow> ('w, unit) eff"

text \<open>
  \<open>store.apply_artifact_update\<close>: the same code in both stores; it changes the state in memory
  only.
\<close>

definition apply_artifact_update :: "task_state \<Rightarrow> artifact_update \<Rightarrow> task_state res" where
  "apply_artifact_update st u =
     bindR (ArtifactUpdate_validate u) (\<lambda>_.
       let aid = py_str (au_artifact_id u);
           existing = (case map_of (st_artifacts st) aid of
                         Some a \<Rightarrow> a
                       | None \<Rightarrow> \<lparr>ar_artifact_id = au_artifact_id u, ar_kind = au_kind u, ar_locator = PNone,
                             ar_created = PBool False, ar_verified = PBool False,
                             ar_persistent_saved = PBool False, ar_device_saved = PBool False,
                             ar_ui_loaded = PBool False, ar_metadata = PDict [],
                             ar_schema_version = PStr ARTIFACT_SCHEMA_VERSION\<rparr>)
       in bindR (ArtifactState_merge existing u) (\<lambda>a.
            Inr (st\<lparr>st_artifacts := AList.update aid a (st_artifacts st)\<rparr>)))"

fun apply_artifact_updates :: "task_state \<Rightarrow> artifact_update list \<Rightarrow> task_state res" where
  "apply_artifact_updates st [] = Inr st"
| "apply_artifact_updates st (u # us) =
     bindR (apply_artifact_update st u) (\<lambda>st'. apply_artifact_updates st' us)"

text \<open>Everything but the artifacts of a state.\<close>

definition control :: "task_state \<Rightarrow> task_state" where
  "control st = st\<lparr>st_artifacts := []\<rparr>"

lemma apply_artifact_update_control:
  "apply_artifact_update st u = Inr st' \<Longrightarrow> \<exists>arts. st' = st\<lparr>st_artifacts := arts\<rparr>"
  by (auto simp: apply_artifact_update_def bindR_eq_Inr Let_def)

lemma apply_artifact_updates_control:
  "apply_artifact_updates st us = Inr st' \<Longrightarrow> \<exists>arts. st' = st\<lparr>st_artifacts := arts\<rparr>"
proof (induction us arbitrary: st)
  case Nil
  then show ?case by (intro exI [of _ "st_artifacts st"]) simp
next
  case (Cons u us)
  then show ?case
    by (fastforce simp: bindR_eq_Inr dest: apply_artifact_update_control)
qed

section \<open>The contract\<close>

text \<open>
  \<open>durable w tid\<close> is the state of a task that survives the process. \<open>inv\<close> is what the store
  needs of a world for its operations to keep their promises.
\<close>

locale task_store =
  fixes ops :: "'w store_ops"
    and inv :: "'w \<Rightarrow> bool"
    and durable :: "'w \<Rightarrow> string \<Rightarrow> task_state option"
  assumes load_durable: "inv w \<Longrightarrow> durable w tid = Some st \<Longrightarrow> so_load ops tid w = Inr st"
    and exists_durable: "inv w \<Longrightarrow> durable w tid = Some st \<Longrightarrow> so_exists ops tid w = Inr True"
    and load_not_existing: "inv w \<Longrightarrow> so_exists ops tid w = Inr False \<Longrightarrow> so_load ops tid w = Inr st \<Longrightarrow>
      \<exists>now. st = TaskState_new now tid"
    and load_existing: "inv w \<Longrightarrow> so_exists ops tid w = Inr True \<Longrightarrow> so_load ops tid w = Inr st \<Longrightarrow>
      st_schema_version st = STATE_SCHEMA_VERSION"
    and save_durable: "inv w \<Longrightarrow> st_schema_version st = STATE_SCHEMA_VERSION \<Longrightarrow>
      so_save ops st w = (Inr now, w') \<Longrightarrow> durable w' (st_task_id st) = Some (touch now st)"
    and save_inv: "inv w \<Longrightarrow> so_save ops st w = (Inr now, w') \<Longrightarrow> inv w'"
    and event_durable: "inv w \<Longrightarrow> so_event ops tid sid ty msg data w = (Inr u, w') \<Longrightarrow> durable w' = durable w"
    and event_inv: "inv w \<Longrightarrow> so_event ops tid sid ty msg data w = (Inr u, w') \<Longrightarrow> inv w'"
    and lock_durable: "inv w \<Longrightarrow> so_lock ops tid w = (Inr u, w') \<Longrightarrow>
      durable w' = durable w \<and> inv w' \<and> so_exists ops tid w' = so_exists ops tid w"
    and unlock_durable: "inv w \<Longrightarrow> durable (so_unlock ops tid w) = durable w \<and> inv (so_unlock ops tid w)"

end
