(* ===== verification/State_Store.thy ===== *)
theory State_Store
  imports Task_Store
begin

text \<open>
  \<open>FileStateStore\<close> of \<^verbatim>\<open>src/agent_core/store.py\<close>. The world holds the state files as the JSON
  values they contain (text layout and key order are not modelled), the append-only activity
  ledger, the task locks held on this host, and the wall clock: the text of its n-th reading
  and how many readings were stored so far. Further fields (the record is extensible) stand
  for everything the actions act on. A state write is atomic: the source writes a temporary
  file and renames it.

  \<open>FileStateStore\<close> meets the contract \<open>task_store\<close>; reconciliation is the only operation that
  takes a task out of the \<open>blocked\<close> status.
\<close>

record file_store =
  fs_states :: "string \<Rightarrow> pyval option"
  fs_ledger :: "pyval list"
  fs_locks :: "string list"
  fs_clock :: "nat \<Rightarrow> string"
  fs_tick :: nat

section \<open>Operations\<close>

definition safe_task_id_char :: "char \<Rightarrow> bool" where
  "safe_task_id_char c \<longleftrightarrow> ascii_alnum c \<or> c \<in> set ''._-''"

definition safe_task_id :: "string \<Rightarrow> string res" where
  "safe_task_id tid =
     (if ident_match ascii_alnum safe_task_id_char 127 tid then Inr tid
      else value_error ''unsafe_task_id'')"

definition fs_exists :: "string \<Rightarrow> 'x file_store_scheme \<Rightarrow> bool res" where
  "fs_exists tid w = bindR (safe_task_id tid) (\<lambda>t. Inr (fs_states w t \<noteq> None))"

definition fs_lock :: "string \<Rightarrow> ('x file_store_scheme, unit) eff" where
  "fs_lock tid w =
     (case safe_task_id tid of
        Inl e \<Rightarrow> (Inl e, w)
      | Inr t \<Rightarrow> if t \<in> set (fs_locks w) then (Inl (Exc RuntimeError ''task_already_running''), w)
                else (Inr (), w\<lparr>fs_locks := t # fs_locks w\<rparr>))"

definition fs_unlock :: "string \<Rightarrow> 'x file_store_scheme \<Rightarrow> 'x file_store_scheme" where
  "fs_unlock tid w = w\<lparr>fs_locks := remove1 tid (fs_locks w)\<rparr>"

definition utc_now_iso :: "('x file_store_scheme, string) eff" where
  "utc_now_iso w = (Inr (fs_clock w (fs_tick w)), w\<lparr>fs_tick := Suc (fs_tick w)\<rparr>)"

definition fs_load_state :: "string \<Rightarrow> 'x file_store_scheme \<Rightarrow> task_state res" where
  "fs_load_state tid w =
     bindR (safe_task_id tid) (\<lambda>t.
       case fs_states w t of
         None \<Rightarrow> Inr (TaskState_new (fs_clock w (fs_tick w)) tid)
       | Some (PDict p) \<Rightarrow>
           bindR (TaskState_from_dict (fs_clock w (fs_tick w)) p) (\<lambda>st.
             if st_task_id st \<noteq> tid then value_error ''task_state_id_mismatch'' else Inr st)
       | Some _ \<Rightarrow> Inl (Exc AttributeError ''get''))"

definition fs_save_state :: "task_state \<Rightarrow> ('x file_store_scheme, string) eff" where
  "fs_save_state st =
     bindE (liftE (safe_task_id (st_task_id st))) (\<lambda>t.
     bindE utc_now_iso (\<lambda>now w.
       (Inr now, w\<lparr>fs_states := (fs_states w)(t \<mapsto> PDict (TaskState_to_dict (touch now st)))\<rparr>)))"

definition fs_append_event ::
  "string \<Rightarrow> string option \<Rightarrow> string \<Rightarrow> string \<Rightarrow> pydict \<Rightarrow> ('x file_store_scheme, unit) eff" where
  "fs_append_event tid sid ty msg data =
     bindE (liftE (safe_task_id tid)) (\<lambda>_.
     bindE utc_now_iso (\<lambda>now w.
       (Inr (), w\<lparr>fs_ledger := fs_ledger w @
          [PDict [(''timestamp'', PStr now), (''task_id'', PStr tid), (''step_id'', opt_str sid),
                  (''event_type'', PStr ty), (''message'', PStr msg), (''data'', PDict data)]]\<rparr>)))"

text \<open>\<open>load_events\<close>: a line that is not a JSON object has no \<open>get\<close>.\<close>

fun events_of :: "string option \<Rightarrow> pyval list \<Rightarrow> pyval list res" where
  "events_of sel [] = Inr []"
| "events_of None (e # es) = bindR (events_of None es) (\<lambda>r. Inr (e # r))"
| "events_of (Some tid) (PDict d # es) =
     bindR (events_of (Some tid) es) (\<lambda>r.
       if py_eq (dict_get d ''task_id'') (PStr tid) then Inr (PDict d # r) else Inr r)"
| "events_of (Some tid) (_ # es) = Inl (Exc AttributeError ''get'')"

definition fs_load_events :: "string option \<Rightarrow> 'x file_store_scheme \<Rightarrow> pyval list res" where
  "fs_load_events sel w = events_of sel (fs_ledger w)"

definition fs_ops :: "'x file_store_scheme store_ops" where
  "fs_ops = \<lparr>so_lock = fs_lock, so_unlock = fs_unlock, so_exists = fs_exists,
             so_load = fs_load_state, so_save = fs_save_state, so_event = fs_append_event\<rparr>"

section \<open>Reconciliation\<close>

definition reconcile_resolve :: "string \<Rightarrow> string \<Rightarrow> task_state \<Rightarrow> task_state" where
  "reconcile_resolve resolution sid st =
     (if resolution = ''not_applied''
      then st\<lparr>st_status := PStr ''pending'', st_blocked_reason := PNone, st_last_error := PNone,
              st_attempts := AList.delete sid (st_attempts st)\<rparr>
      else if resolution = ''applied_and_verified''
      then st\<lparr>st_completed_steps :=
                (if PStr sid \<in> set (st_completed_steps st) then st_completed_steps st
                 else st_completed_steps st @ [PStr sid]),
              st_status := PStr ''pending'', st_blocked_reason := PNone, st_last_error := PNone\<rparr>
      else st\<lparr>st_status := PStr ''blocked''\<rparr>)"

definition reconcile_record :: "string \<Rightarrow> string \<Rightarrow> string \<Rightarrow> string \<Rightarrow> task_state \<Rightarrow> pyval" where
  "reconcile_record now sid resolution note st =
     PDict [(''timestamp'', PStr now), (''step_id'', PStr sid), (''resolution'', PStr resolution),
            (''note'', PStr note), (''previous_blocked_reason'', st_blocked_reason st),
            (''previous_last_error'', st_last_error st)]"

definition reconcile_blocked_step_locked ::
  "string \<Rightarrow> string \<Rightarrow> string \<Rightarrow> string \<Rightarrow> artifact_update list \<Rightarrow> ('x file_store_scheme, task_state) eff" where
  "reconcile_blocked_step_locked tid sid resolution note updates =
     (if resolution \<notin> {''not_applied'', ''applied_and_verified'', ''needs_manual_action''}
      then raiseE (Exc ValueError ''invalid_reconciliation_resolution'')
      else if blank sid then raiseE (Exc ValueError ''step_id_required'')
      else if blank note then raiseE (Exc ValueError ''reconciliation_note_required'')
      else
        bindE (\<lambda>w. (fs_load_state tid w, w)) (\<lambda>st.
        if \<not> py_eq (st_status st) (PStr ''blocked'') then raiseE (Exc ValueError ''task_not_blocked'')
        else
          bindE (liftE (apply_artifact_updates st updates)) (\<lambda>st1.
          bindE utc_now_iso (\<lambda>now.
          let st2 = reconcile_resolve resolution sid
                (st1\<lparr>st_reconciliations := st_reconciliations st1 @
                        [reconcile_record now sid resolution note st1]\<rparr>)
          in bindE (fs_save_state st2) (\<lambda>t.
             bindE (fs_append_event tid (Some sid) ''step_reconciled'' resolution [(''note'', PStr note)]) (\<lambda>_.
             retE (touch t st2)))))))"

definition reconcile_blocked_step ::
  "string \<Rightarrow> string \<Rightarrow> string \<Rightarrow> string \<Rightarrow> artifact_update list \<Rightarrow> ('x file_store_scheme, task_state) eff" where
  "reconcile_blocked_step tid sid resolution note updates =
     bindE (fs_lock tid) (\<lambda>_ w.
       let (r, w') = reconcile_blocked_step_locked tid sid resolution note updates w
       in (r, fs_unlock tid w'))"

section \<open>The contract holds\<close>

text \<open>The clock prints a text at every reading, and the state files hold what the store wrote.\<close>

definition fs_inv :: "'x file_store_scheme \<Rightarrow> bool" where
  "fs_inv w \<longleftrightarrow> (\<forall>n. fs_clock w n \<noteq> [])"

definition fs_durable :: "'x file_store_scheme \<Rightarrow> string \<Rightarrow> task_state option" where
  "fs_durable w tid =
     (case fs_states w tid of
        Some (PDict p) \<Rightarrow>
          (case TaskState_from_dict [] p of
             Inr st \<Rightarrow> if st_updated_at st \<noteq> [] \<and> st_task_id st = tid \<and> safe_task_id tid = Inr tid
                       then Some st else None
           | Inl _ \<Rightarrow> None)
      | _ \<Rightarrow> None)"

abbreviation safe_id :: "string \<Rightarrow> bool" where
  "safe_id tid \<equiv> ident_match ascii_alnum safe_task_id_char 127 tid"

lemma safe_task_id_Inr [simp]: "safe_task_id tid = Inr t \<longleftrightarrow> t = tid \<and> safe_id tid"
  by (auto simp: safe_task_id_def)

lemma fs_save_state_eq:
  "fs_save_state st w = (Inr now, w') \<longleftrightarrow>
     safe_id (st_task_id st) \<and> now = fs_clock w (fs_tick w) \<and>
     w' = w\<lparr>fs_tick := Suc (fs_tick w),
             fs_states := (fs_states w)(st_task_id st \<mapsto> PDict (TaskState_to_dict (touch now st)))\<rparr>"
  by (auto simp: fs_save_state_def bindE_apply utc_now_iso_def safe_task_id_def)

lemma fs_append_event_eq:
  "fs_append_event tid sid ty msg data w = (Inr u, w') \<Longrightarrow>
     safe_id tid \<and> (\<exists>e. w' = w\<lparr>fs_tick := Suc (fs_tick w), fs_ledger := fs_ledger w @ [e]\<rparr>)"
  by (auto simp: fs_append_event_def bindE_apply utc_now_iso_def safe_task_id_def split: if_splits)

lemma touch_simps [simp]:
  "st_task_id (touch t s) = st_task_id s" "st_status (touch t s) = st_status s"
  "st_completed_steps (touch t s) = st_completed_steps s" "st_attempts (touch t s) = st_attempts s"
  "st_blocked_reason (touch t s) = st_blocked_reason s" "st_last_error (touch t s) = st_last_error s"
  "st_artifacts (touch t s) = st_artifacts s" "st_reconciliations (touch t s) = st_reconciliations s"
  "st_updated_at (touch t s) = t" "st_schema_version (touch t s) = st_schema_version s"
  "st_spec_fingerprint (touch t s) = st_spec_fingerprint s"
  by (simp_all add: touch_def)

text \<open>The clock matters for loading only where a file has no time stamp.\<close>

lemma fs_load_after_save:
  assumes "fs_inv w" and "st_schema_version st = STATE_SCHEMA_VERSION"
    and "fs_save_state st w = (Inr now, w')"
  shows "fs_load_state (st_task_id st) w' = Inr (touch now st)"
proof -
  have "now \<noteq> []" using assms by (simp add: fs_save_state_eq fs_inv_def)
  then have "TaskState_from_dict t (TaskState_to_dict (touch now st)) = Inr (touch now st)" for t
    using assms(2) by (intro TaskState_roundtrip) simp_all
  then show ?thesis
    using assms by (simp add: fs_load_state_def fs_save_state_eq safe_task_id_def)
qed

lemma TaskState_from_dict_clock:
  assumes "TaskState_from_dict [] p = Inr st" and "st_updated_at st \<noteq> []"
  shows "TaskState_from_dict now p = Inr st"
  using assms by (auto simp: TaskState_from_dict_def bindR_eq_Inr py_or_def split: if_splits)

lemma fs_durable_SomeD:
  assumes "fs_durable w tid = Some st"
  obtains p where "fs_states w tid = Some (PDict p)" and "TaskState_from_dict [] p = Inr st"
    and "st_updated_at st \<noteq> []" and "st_task_id st = tid" and "safe_id tid"
  using assms by (auto simp: fs_durable_def split: option.splits pyval.splits sum.splits if_splits)

lemma fs_durable_cong: "fs_states w' = fs_states w \<Longrightarrow> fs_durable w' = fs_durable w"
  by (simp add: fs_durable_def fun_eq_iff)

lemma fs_durable_save:
  assumes "fs_inv w" and "st_schema_version st = STATE_SCHEMA_VERSION"
    and "fs_save_state st w = (Inr now, w')"
  shows "fs_durable w' (st_task_id st) = Some (touch now st)"
proof -
  have "now \<noteq> []" using assms by (simp add: fs_save_state_eq fs_inv_def)
  then have "TaskState_from_dict [] (TaskState_to_dict (touch now st)) = Inr (touch now st)"
    using assms(2) by (intro TaskState_roundtrip) simp_all
  with \<open>now \<noteq> []\<close> show ?thesis using assms(3) by (simp add: fs_durable_def fs_save_state_eq)
qed

lemma fs_load_schema:
  assumes "fs_load_state tid w = Inr st"
  shows "st_schema_version st = STATE_SCHEMA_VERSION \<and> st_task_id st = tid"
proof (cases "fs_states w tid")
  case None
  with assms show ?thesis by (auto simp: fs_load_state_def bindR_eq_Inr TaskState_new_def)
next
  case (Some v)
  with assms obtain p where "v = PDict p"
    by (cases v) (simp_all add: fs_load_state_def bindR_eq_Inr)
  with assms Some have "bindR (TaskState_from_dict (fs_clock w (fs_tick w)) p) (\<lambda>st.
      if st_task_id st \<noteq> tid then value_error ''task_state_id_mismatch'' else Inr st) = Inr st"
    by (simp add: fs_load_state_def safe_task_id_def split: if_splits)
  then obtain x where x: "TaskState_from_dict (fs_clock w (fs_tick w)) p = Inr x"
    and "(if st_task_id x \<noteq> tid then value_error ''task_state_id_mismatch'' else Inr x) = Inr st"
    unfolding bindR_eq_Inr by blast
  then have "x = st" and "st_task_id st = tid" by (simp_all split: if_splits)
  with x show ?thesis by (simp add: TaskState_from_dict_schema)
qed

lemma fs_load_durable:
  assumes "fs_durable w tid = Some st"
  shows "fs_load_state tid w = Inr st"
  using assms
proof (rule fs_durable_SomeD)
  fix p
  assume p: "fs_states w tid = Some (PDict p)" and st: "TaskState_from_dict [] p = Inr st"
    and u: "st_updated_at st \<noteq> []" and tid: "st_task_id st = tid" and safe: "safe_id tid"
  have "TaskState_from_dict (fs_clock w (fs_tick w)) p = Inr st"
    using st u by (rule TaskState_from_dict_clock)
  with p tid safe show ?thesis by (simp add: fs_load_state_def safe_task_id_def)
qed

interpretation fs: task_store fs_ops fs_inv fs_durable
proof (unfold_locales, goal_cases)
  case (1 w tid st)
  then show ?case by (simp add: fs_ops_def fs_load_durable)
next
  case (2 w tid st)
  then show ?case by (auto simp: fs_ops_def fs_exists_def safe_task_id_def elim!: fs_durable_SomeD)
next
  case (3 w tid st)
  then show ?case
    by (auto simp: fs_ops_def fs_exists_def fs_load_state_def bindR_eq_Inr)
next
  case (4 w tid st)
  then show ?case by (auto simp: fs_ops_def dest: fs_load_schema)
next
  case (5 w st now w')
  then show ?case by (auto simp: fs_ops_def intro: fs_durable_save)
next
  case (6 w st now w')
  then show ?case by (auto simp: fs_ops_def fs_save_state_eq fs_inv_def)
next
  case (7 w tid sid ty msg data u w')
  then show ?case by (auto simp: fs_ops_def dest!: fs_append_event_eq intro!: fs_durable_cong)
next
  case (8 w tid sid ty msg data u w')
  then show ?case by (auto simp: fs_ops_def fs_inv_def dest!: fs_append_event_eq)
next
  case (9 w tid u w')
  then show ?case
    by (auto simp: fs_ops_def fs_lock_def fs_inv_def fs_exists_def intro!: fs_durable_cong
        split: sum.splits if_splits)
next
  case (10 w tid)
  then show ?case by (auto simp: fs_ops_def fs_unlock_def fs_inv_def intro!: fs_durable_cong)
qed

end
