(* ===== verification/Agent_Runner.thy ===== *)
theory Agent_Runner
  imports State_Store
begin

text \<open>
  \<open>AgentRunner\<close> of \<^verbatim>\<open>src/agent_core/runner.py\<close> with the diagnostic events of
  \<^verbatim>\<open>src/agent_core/diagnostics.py\<close>. The runner is a function of its store (a record of
  operations), its actions and an optional diagnostic sink; an action is a function of its
  arguments, its context and the world, and may raise.

  \<open>attempt_loop\<close> is the \<open>while True\<close> loop of one step, \<open>verify_step\<close> the verification after it,
  \<open>run_steps\<close> the loop over the steps, \<open>run_locked\<close> and \<open>run\<close> the methods of these names.
\<close>

section \<open>Diagnostics\<close>

definition safe_name_rest :: "char \<Rightarrow> bool" where
  "safe_name_rest c \<longleftrightarrow> ascii_alnum c \<or> c \<in> set ''_.:-''"

definition safe_name :: "string \<Rightarrow> bool" where
  "safe_name s = ident_match (\<lambda>c. is_lower c \<or> is_upper c \<or> c = CHR ''_'') safe_name_rest 127 s"

definition safe_code :: "string \<Rightarrow> bool" where
  "safe_code s = ident_match is_lower (\<lambda>c. is_lower c \<or> is_digit c \<or> c \<in> set ''_.:-'') 127 s"

text \<open>\<open>type(error).__name__\<close>.\<close>

fun exc_name :: "exc_class \<Rightarrow> string" where
  "exc_name (OtherError n) = n"
| "exc_name Exception = ''Exception''"
| "exc_name BaseException = ''BaseException''"
| "exc_name KeyboardInterrupt = ''KeyboardInterrupt''"
| "exc_name SystemExit = ''SystemExit''"
| "exc_name ValueError = ''ValueError''"
| "exc_name KeyError = ''KeyError''"
| "exc_name TypeError = ''TypeError''"
| "exc_name AttributeError = ''AttributeError''"
| "exc_name AssertionError = ''AssertionError''"
| "exc_name RuntimeError = ''RuntimeError''"
| "exc_name BlockedAction = ''BlockedAction''"
| "exc_name SafeActionError = ''SafeActionError''"
| "exc_name CredentialProviderError = ''CredentialProviderError''"
| "exc_name CredentialScopeError = ''CredentialScopeError''"
| "exc_name CredentialLifetimeError = ''CredentialLifetimeError''"
| "exc_name CredentialRevokedError = ''CredentialRevokedError''"
| "exc_name CredentialAuthBlocked = ''CredentialAuthBlocked''"
| "exc_name CredentialRefreshInProgress = ''CredentialRefreshInProgress''"
| "exc_name SecretStoreError = ''SecretStoreError''"
| "exc_name SecretStoreConflict = ''SecretStoreConflict''"
| "exc_name SecretStoreAmbiguousWrite = ''SecretStoreAmbiguousWrite''"
| "exc_name RefreshExchangeRejected = ''RefreshExchangeRejected''"
| "exc_name RefreshExchangeAmbiguous = ''RefreshExchangeAmbiguous''"
| "exc_name DurableSecretBackendError = ''DurableSecretBackendError''"
| "exc_name DurableSecretBackendConflict = ''DurableSecretBackendConflict''"
| "exc_name DurableSecretBackendAmbiguousWrite = ''DurableSecretBackendAmbiguousWrite''"
| "exc_name DurableSecretBackendUnavailable = ''DurableSecretBackendUnavailable''"
| "exc_name HostedQueueError = ''HostedQueueError''"
| "exc_name HostedQueueConflict = ''HostedQueueConflict''"
| "exc_name HostedQueueIntegrityError = ''HostedQueueIntegrityError''"
| "exc_name HostedActivityError = ''HostedActivityError''"
| "exc_name HostedActivityIntegrityError = ''HostedActivityIntegrityError''"
| "exc_name HostedCheckpointError = ''HostedCheckpointError''"
| "exc_name HostedCheckpointConflict = ''HostedCheckpointConflict''"
| "exc_name HostedCheckpointNotFound = ''HostedCheckpointNotFound''"
| "exc_name HostedCheckpointIntegrityError = ''HostedCheckpointIntegrityError''"
| "exc_name HostedRecoveryIntegrityError = ''HostedRecoveryIntegrityError''"
| "exc_name HostedExecutionNotAuthorized = ''HostedExecutionNotAuthorized''"
| "exc_name HostedTransportError = ''HostedTransportError''"
| "exc_name HostedRunInterrupted = ''HostedRunInterrupted''"

definition safe_exception_type :: "exc \<Rightarrow> string" where
  "safe_exception_type e =
     (if safe_name (exc_name (exc_cls e)) then exc_name (exc_cls e) else ''Exception'')"

record diagnostic_event =
  de_task_id :: string
  de_step_id :: string
  de_action :: string
  de_phase :: string
  de_attempt :: int
  de_retry_safe :: bool
  de_classification :: string
  de_exception_type :: string

definition ActionDiagnosticEvent :: "diagnostic_event \<Rightarrow> diagnostic_event res" where
  "ActionDiagnosticEvent d =
     (if de_task_id d = [] \<or> length (de_task_id d) > 256 then value_error ''diagnostic_task_id_invalid''
      else if de_step_id d = [] \<or> length (de_step_id d) > 256 then value_error ''diagnostic_step_id_invalid''
      else if de_action d = [] \<or> length (de_action d) > 256 then value_error ''diagnostic_action_invalid''
      else if de_phase d \<notin> {''action'', ''verification''} then value_error ''diagnostic_phase_invalid''
      else if de_attempt d < 1 then value_error ''diagnostic_attempt_invalid''
      else if \<not> safe_code (de_classification d) then value_error ''diagnostic_classification_invalid''
      else if \<not> safe_name (de_exception_type d) then value_error ''diagnostic_exception_type_invalid''
      else Inr d)"

definition diagnostic_to_safe_dict :: "diagnostic_event \<Rightarrow> pydict" where
  "diagnostic_to_safe_dict d =
     [(''task_id'', PStr (de_task_id d)), (''step_id'', PStr (de_step_id d)),
      (''action'', PStr (de_action d)), (''phase'', PStr (de_phase d)),
      (''attempt'', PInt (de_attempt d)), (''retry_safe'', PBool (de_retry_safe d)),
      (''classification'', PStr (de_classification d)),
      (''exception_type'', PStr (de_exception_type d))]"

section \<open>Action results\<close>

text \<open>
  What an action returns: \<open>None\<close>, a boolean, an \<open>ActionResult\<close>, a dictionary (its entry
  \<open>artifacts\<close> apart, which may hold \<open>ArtifactUpdate\<close> objects beside plain values: a list or tuple,
  another iterable such as a generator, or a value that cannot be iterated), or some other
  object.
\<close>

datatype artifacts_value =
    Items "(artifact_update + pyval) list"
  | Iterable "(artifact_update + pyval) list"
  | NotIterable

fun artifacts_items :: "artifacts_value \<Rightarrow> (artifact_update + pyval) list res" where
  "artifacts_items (Items its) = Inr its"
| "artifacts_items (Iterable its) = Inr its"
| "artifacts_items NotIterable = Inl (Exc TypeError ''object is not iterable'')"

datatype action_value =
    AV_None
  | AV_Bool bool
  | AV_Result action_result
  | AV_Dict pydict artifacts_value
  | AV_Other

type_synonym 'w action = "pydict \<Rightarrow> pydict \<Rightarrow> ('w, action_value) eff"

definition artifact_item :: "artifact_update + pyval \<Rightarrow> artifact_update res" where
  "artifact_item it = (case it of Inl u \<Rightarrow> Inr u | Inr v \<Rightarrow> ArtifactUpdate_kwargs v)"

fun normalise_action_result :: "action_value \<Rightarrow> action_result res" where
  "normalise_action_result AV_None = Inr \<lparr>rs_message = [], rs_artifacts = [], rs_data = []\<rparr>"
| "normalise_action_result (AV_Result r) = Inr r"
| "normalise_action_result (AV_Dict d av) =
     bindR (bindR (artifacts_items av) (mapR artifact_item)) (\<lambda>arts.
     bindR (py_dict (py_or (dict_get d ''data'') (PDict []))) (\<lambda>data.
     Inr \<lparr>rs_message = py_str (py_or (dict_get d ''message'') (PStr [])),
          rs_artifacts = arts, rs_data = data\<rparr>))"
| "normalise_action_result _ = Inl (Exc TypeError ''unsupported_action_result'')"

fun verification_passed :: "action_value \<Rightarrow> bool" where
  "verification_passed (AV_Bool b) = b"
| "verification_passed (AV_Result r) = (dict_get (rs_data r) ''verified'' = PBool True)"
| "verification_passed (AV_Dict d _) = (dict_get d ''verified'' = PBool True)"
| "verification_passed _ = False"

section \<open>Errors\<close>

text \<open>The constructor of \<open>SafeActionError\<close> validates its code.\<close>

definition SafeActionError_new :: "string \<Rightarrow> exc res" where
  "SafeActionError_new c =
     (if safe_code c then Inr (Exc SafeActionError c) else value_error ''safe_action_error_code_invalid'')"

definition persistent_error :: "exc \<Rightarrow> bool \<Rightarrow> string" where
  "persistent_error e verification =
     (if catches SafeActionError e then ''SafeActionError:'' @ exc_msg e
      else if verification then ''UntrustedActionError:verification_exception_redacted''
      else ''UntrustedActionError:action_exception_redacted'')"

definition diagnostic_classification :: "exc \<Rightarrow> bool \<Rightarrow> string" where
  "diagnostic_classification e verification =
     (if catches SafeActionError e then exc_msg e
      else if verification then ''verification_exception_redacted'' else ''action_exception_redacted'')"

section \<open>The runner\<close>

record 'w runner =
  rn_store :: "'w store_ops"
  rn_actions :: "(string \<times> 'w action) list"
  rn_sink :: "(diagnostic_event \<Rightarrow> ('w, unit) eff) option"

record run_outcome =
  ro_task_id :: string
  ro_status :: pyval
  ro_completed_steps :: "pyval list"
  ro_blocked_reason :: pyval
  ro_last_error :: pyval
  ro_executed_steps :: "string list"
  ro_skipped_steps :: "string list"

definition outcome :: "task_state \<Rightarrow> string list \<Rightarrow> string list \<Rightarrow> run_outcome" where
  "outcome st executed skipped =
     \<lparr>ro_task_id = st_task_id st, ro_status = st_status st,
      ro_completed_steps = st_completed_steps st, ro_blocked_reason = st_blocked_reason st,
      ro_last_error = st_last_error st, ro_executed_steps = executed, ro_skipped_steps = skipped\<rparr>"

definition emit_diagnostic ::
  "'w runner \<Rightarrow> task_spec \<Rightarrow> step_spec \<Rightarrow> string \<Rightarrow> string \<Rightarrow> int \<Rightarrow> bool \<Rightarrow> exc \<Rightarrow> ('w, unit) eff" where
  "emit_diagnostic rn spec step action phase attempt retry_safe e =
     (case rn_sink rn of
        None \<Rightarrow> retE ()
      | Some emit \<Rightarrow>
          tryE (bindE (liftE (ActionDiagnosticEvent
                  \<lparr>de_task_id = sp_task_id spec, de_step_id = ss_step_id step, de_action = action,
                   de_phase = phase, de_attempt = attempt, de_retry_safe = retry_safe,
                   de_classification = diagnostic_classification e (phase = ''verification''),
                   de_exception_type = safe_exception_type e\<rparr>)) emit)
            (\<lambda>x. if catches Exception x then retE () else raiseE x))"

definition save_state :: "'w runner \<Rightarrow> task_state \<Rightarrow> ('w, task_state) eff" where
  "save_state rn st = bindE (so_save (rn_store rn) st) (\<lambda>now. retE (touch now st))"

definition block ::
  "'w runner \<Rightarrow> task_state \<Rightarrow> string \<Rightarrow> step_spec option \<Rightarrow> string option \<Rightarrow> ('w, task_state) eff" where
  "block rn st reason step err =
     bindE (save_state rn (st\<lparr>st_status := PStr ''blocked'', st_blocked_reason := PStr reason,
                              st_last_error := opt_str err\<rparr>)) (\<lambda>st'.
     bindE (so_event (rn_store rn) (st_task_id st') (map_option ss_step_id step) ''task_blocked'' reason
              (case err of None \<Rightarrow> [] | Some x \<Rightarrow> if x = [] then [] else [(''error'', PStr x)])) (\<lambda>_.
     retE st'))"

definition attempt_count :: "task_state \<Rightarrow> string \<Rightarrow> int" where
  "attempt_count st sid = (case map_of (st_attempts st) sid of None \<Rightarrow> 0 | Some n \<Rightarrow> n)"

definition begin_attempt :: "task_state \<Rightarrow> string \<Rightarrow> task_state" where
  "begin_attempt st sid = st\<lparr>st_attempts := AList.update sid (attempt_count st sid + 1) (st_attempts st)\<rparr>"

lemma attempt_count_begin [simp]:
  "attempt_count (begin_attempt st sid) sid' =
     (if sid' = sid then attempt_count st sid + 1 else attempt_count st sid')"
  by (simp add: attempt_count_def begin_attempt_def update_conv')

lemma attempt_count_cong: "st_attempts st' = st_attempts st \<Longrightarrow> attempt_count st' = attempt_count st"
  by (simp add: attempt_count_def fun_eq_iff)

lemma attempt_count_touch [simp]:
  "attempt_count (touch t st) = attempt_count st" "attempt_count (st\<lparr>st_last_error := e\<rparr>) = attempt_count st"
  "attempt_count (st\<lparr>st_status := v\<rparr>) = attempt_count st"
  "attempt_count (st\<lparr>st_blocked_reason := v\<rparr>) = attempt_count st"
  "attempt_count (st\<lparr>st_artifacts := a\<rparr>) = attempt_count st"
  "attempt_count (st\<lparr>st_completed_steps := c\<rparr>) = attempt_count st"
  by (simp_all add: attempt_count_def fun_eq_iff)

text \<open>How a step's action ended: the run stops in a state, or there is a result.\<close>

datatype attempt_out = Stop task_state | Got action_result task_state

text \<open>The action with its result normalised, inside the same \<open>try\<close>.\<close>

definition invoke_action :: "'w action \<Rightarrow> pydict \<Rightarrow> pydict \<Rightarrow> ('w, action_result) eff" where
  "invoke_action act args ctx = bindE (act args ctx) (\<lambda>v. liftE (normalise_action_result v))"

definition fail_task :: "'w runner \<Rightarrow> task_spec \<Rightarrow> step_spec \<Rightarrow> task_state \<Rightarrow> string \<Rightarrow> int \<Rightarrow> ('w, attempt_out) eff" where
  "fail_task rn spec step st err attempt =
     bindE (save_state rn (st\<lparr>st_status := PStr ''failed'', st_blocked_reason := PNone\<rparr>)) (\<lambda>st'.
     bindE (so_event (rn_store rn) (sp_task_id spec) (Some (ss_step_id step)) ''task_failed''
              ''retry-safe action exhausted configured attempts''
              [(''error'', PStr err), (''attempts'', PInt attempt)]) (\<lambda>_.
     retE (Stop st')))"

text \<open>
  The loop of one step. It stops: every round counts an attempt, and an attempt at or beyond
  \<open>max_attempts\<close> does not go round again.
\<close>

function attempt_loop ::
  "'w runner \<Rightarrow> task_spec \<Rightarrow> step_spec \<Rightarrow> 'w action \<Rightarrow> pydict \<Rightarrow> task_state \<Rightarrow> ('w, attempt_out) eff" where
  "attempt_loop rn spec step act ctx st =
     bindE (so_save (rn_store rn) (begin_attempt st (ss_step_id step))) (\<lambda>now.
     let st1 = touch now (begin_attempt st (ss_step_id step));
         attempt = attempt_count st (ss_step_id step) + 1
     in bindE (so_event (rn_store rn) (sp_task_id spec) (Some (ss_step_id step)) ''step_started''
                 (ss_action step)
                 [(''attempt'', PInt attempt), (''retry_safe'', PBool (ss_retry_safe step))]) (\<lambda>_ w.
     case invoke_action act (ss_args step) ctx w of
       (Inr r, w') \<Rightarrow> (Inr (Got r st1), w')
     | (Inl e, w') \<Rightarrow>
         if catches BlockedAction e
         then bindE (block rn st1 (''action_blocked:'' @ exc_msg e) (Some step) None) (\<lambda>st2. retE (Stop st2)) w'
         else if catches Exception e
         then bindE (emit_diagnostic rn spec step (ss_action step) ''action'' attempt (ss_retry_safe step) e) (\<lambda>_.
              let err = persistent_error e False; st2 = st1\<lparr>st_last_error := PStr err\<rparr>
              in bindE (so_event (rn_store rn) (sp_task_id spec) (Some (ss_step_id step)) ''step_error'' err
                          [(''attempt'', PInt attempt)]) (\<lambda>_.
                 if \<not> ss_retry_safe step
                 then bindE (block rn st2 ''action_error_requires_reconciliation'' (Some step) (Some err))
                        (\<lambda>st3. retE (Stop st3))
                 else if attempt \<ge> ss_max_attempts step
                 then fail_task rn spec step st2 err attempt
                 else attempt_loop rn spec step act ctx st2)) w'
         else (Inl e, w')))"
  by pat_completeness auto
termination
  by (relation "measure (\<lambda>(rn, spec, step, act, ctx, st).
        nat (ss_max_attempts step - attempt_count st (ss_step_id step)))") auto

declare attempt_loop.simps [simp del]

definition artifact_dict :: "artifact_update \<Rightarrow> pyval" where
  "artifact_dict u =
     PDict [(''artifact_id'', au_artifact_id u), (''kind'', au_kind u), (''locator'', au_locator u),
            (''created'', au_created u), (''verified'', au_verified u),
            (''persistent_saved'', au_persistent_saved u), (''device_saved'', au_device_saved u),
            (''ui_loaded'', au_ui_loaded u), (''metadata'', au_metadata u)]"

definition verify_args :: "step_spec \<Rightarrow> action_result \<Rightarrow> pydict" where
  "verify_args step r =
     [(''step_action'', PStr (ss_action step)), (''step_args'', PDict (ss_args step)),
      (''action_result'', PDict [(''message'', PStr (rs_message r)), (''data'', PDict (rs_data r)),
         (''artifacts'', PList (map artifact_dict (rs_artifacts r)))])]"

text \<open>Verification of a step: \<open>Inl\<close> is a blocked state that ends the run.\<close>

definition verify_step ::
  "'w runner \<Rightarrow> task_spec \<Rightarrow> step_spec \<Rightarrow> pydict \<Rightarrow> action_result \<Rightarrow> task_state \<Rightarrow> ('w, task_state + unit) eff" where
  "verify_step rn spec step ctx r st =
     (case ss_verify_action step of
        None \<Rightarrow> retE (Inr ())
      | Some va \<Rightarrow>
          if va = [] then retE (Inr ())
          else case map_of (rn_actions rn) va of
            None \<Rightarrow> bindE (block rn st (''verification_action_unavailable:'' @ va) (Some step) None)
                      (\<lambda>st'. retE (Inl st'))
          | Some verifier \<Rightarrow> (\<lambda>w.
              case verifier (verify_args step r) ctx w of
                (Inl e, w') \<Rightarrow>
                  if catches Exception e
                  then bindE (emit_diagnostic rn spec step va ''verification''
                                (case map_of (st_attempts st) (ss_step_id step) of None \<Rightarrow> 1 | Some n \<Rightarrow> n)
                                False e) (\<lambda>_.
                       bindE (block rn st ''verification_error_requires_reconciliation'' (Some step)
                                (Some (persistent_error e True))) (\<lambda>st'. retE (Inl st'))) w'
                  else (Inl e, w')
              | (Inr v, w') \<Rightarrow>
                  if \<not> verification_passed v
                  then bindE (block rn st (''verification_failed:'' @ va) (Some step) None)
                         (\<lambda>st'. retE (Inl st')) w'
                  else bindE (so_event (rn_store rn) (sp_task_id spec) (Some (ss_step_id step))
                                ''step_verified'' va []) (\<lambda>_. retE (Inr ())) w'))"

definition step_context :: "task_spec \<Rightarrow> pydict \<Rightarrow> step_spec \<Rightarrow> pydict" where
  "step_context spec base step =
     dict_update base
       [(''task_inputs'', PDict (sp_inputs spec)), (''step_id'', PStr (ss_step_id step)),
        (''idempotency_key'', PStr (sp_task_id spec @ '':'' @ ss_step_id step))]"

text \<open>The step is done: it is recorded as completed.\<close>

definition complete_step ::
  "'w runner \<Rightarrow> task_spec \<Rightarrow> step_spec \<Rightarrow> action_result \<Rightarrow> task_state \<Rightarrow> ('w, task_state) eff" where
  "complete_step rn spec step r st =
     bindE (save_state rn (st\<lparr>st_completed_steps := st_completed_steps st @ [PStr (ss_step_id step)],
                              st_last_error := PNone\<rparr>)) (\<lambda>st'.
     bindE (so_event (rn_store rn) (sp_task_id spec) (Some (ss_step_id step))
              ''step_completed'' (rs_message r) []) (\<lambda>_.
     retE st'))"

text \<open>After the action: artifacts, save, verification, completion. \<open>Inl\<close> ends the run.\<close>

definition settle_step ::
  "'w runner \<Rightarrow> task_spec \<Rightarrow> step_spec \<Rightarrow> pydict \<Rightarrow> action_result \<Rightarrow> task_state \<Rightarrow> ('w, task_state + task_state) eff" where
  "settle_step rn spec step ctx r st =
     bindE (liftE (apply_artifact_updates st (rs_artifacts r))) (\<lambda>st1.
     bindE (save_state rn st1) (\<lambda>st2.
     bindE (verify_step rn spec step ctx r st2) (\<lambda>v.
     case v of
       Inl st' \<Rightarrow> retE (Inl st')
     | Inr _ \<Rightarrow> bindE (complete_step rn spec step r st2) (\<lambda>st'. retE (Inr st')))))"

text \<open>A step that is not yet completed: \<open>Inl\<close> ends the run.\<close>

definition run_step ::
  "'w runner \<Rightarrow> task_spec \<Rightarrow> pydict \<Rightarrow> step_spec \<Rightarrow> task_state \<Rightarrow> ('w, task_state + task_state) eff" where
  "run_step rn spec base step st =
     (case map_of (rn_actions rn) (ss_action step) of
        None \<Rightarrow> bindE (block rn st (''action_unavailable:'' @ ss_action step) (Some step) None)
                  (\<lambda>st'. retE (Inl st'))
      | Some act \<Rightarrow>
          bindE (attempt_loop rn spec step act (step_context spec base step) st) (\<lambda>out.
          case out of
            Stop st' \<Rightarrow> retE (Inl st')
          | Got r st1 \<Rightarrow> settle_step rn spec step (step_context spec base step) r st1))"

definition finish_run :: "'w runner \<Rightarrow> task_spec \<Rightarrow> task_state \<Rightarrow> ('w, task_state) eff" where
  "finish_run rn spec st =
     bindE (save_state rn (st\<lparr>st_status := PStr ''completed'', st_blocked_reason := PNone,
                              st_last_error := PNone\<rparr>)) (\<lambda>st'.
     bindE (so_event (rn_store rn) (sp_task_id spec) None ''task_completed''
              ''all configured steps completed and required verifications passed''
              [(''completion_conditions'', PList (map PStr (sp_completion_conditions spec)))]) (\<lambda>_.
     retE st'))"

fun run_steps ::
  "'w runner \<Rightarrow> task_spec \<Rightarrow> pydict \<Rightarrow> step_spec list \<Rightarrow> task_state \<Rightarrow> string list \<Rightarrow> string list \<Rightarrow> ('w, run_outcome) eff" where
  "run_steps rn spec base [] st executed skipped =
     bindE (finish_run rn spec st) (\<lambda>st'. retE (outcome st' executed skipped))"
| "run_steps rn spec base (step # steps) st executed skipped =
     (if PStr (ss_step_id step) \<in> set (st_completed_steps st)
      then bindE (so_event (rn_store rn) (sp_task_id spec) (Some (ss_step_id step))
                    ''step_skipped_completed'' ''completed step was not repeated'' []) (\<lambda>_.
             run_steps rn spec base steps st executed (skipped @ [ss_step_id step]))
      else bindE (run_step rn spec base step st) (\<lambda>r.
             case r of
               Inl st' \<Rightarrow> retE (outcome st' executed skipped)
             | Inr st' \<Rightarrow> run_steps rn spec base steps st' (executed @ [ss_step_id step]) skipped))"

definition unresolved_steps :: "task_state \<Rightarrow> string list" where
  "unresolved_steps st =
     sort (map fst (filter (\<lambda>(sid, n). n > 0 \<and> PStr sid \<notin> set (st_completed_steps st)) (st_attempts st)))"

definition TERMINAL :: "string list" where
  "TERMINAL = [''completed'', ''blocked'', ''failed'']"

definition base_context :: "task_spec \<Rightarrow> pydict \<Rightarrow> pydict" where
  "base_context spec context =
     dict_update context [(''task_id'', PStr (sp_task_id spec)), (''task_inputs'', PDict (sp_inputs spec))]"

text \<open>The body of a run once the state is bound to the specification.\<close>

definition run_bound :: "'w runner \<Rightarrow> task_spec \<Rightarrow> pydict \<Rightarrow> task_state \<Rightarrow> ('w, run_outcome) eff" where
  "run_bound rn spec context st =
     bindE (liftE (in_str_set (st_status st) TERMINAL)) (\<lambda>terminal.
     if terminal
     then bindE (so_event (rn_store rn) (sp_task_id spec) None ''terminal_resume_skipped''
                   (''task already '' @ py_str (st_status st) @ ''; no action repeated'') []) (\<lambda>_.
          retE (outcome st [] []))
     else if unresolved_steps st \<noteq> []
     then bindE (block rn st (''interrupted_step_requires_reconciliation:'' @ join '','' (unresolved_steps st))
                   None None) (\<lambda>st'. retE (outcome st' [] []))
     else
       bindE (save_state rn (st\<lparr>st_status := PStr ''running'', st_blocked_reason := PNone,
                                st_last_error := PNone\<rparr>)) (\<lambda>st'.
       bindE (so_event (rn_store rn) (sp_task_id spec) None ''task_started'' (sp_title spec) []) (\<lambda>_.
       run_steps rn spec (base_context spec context) (sp_steps spec) st' [] [])))"

definition run_locked :: "'w runner \<Rightarrow> task_spec \<Rightarrow> pydict \<Rightarrow> ('w, run_outcome) eff" where
  "run_locked rn spec context =
     bindE (\<lambda>w. (so_exists (rn_store rn) (sp_task_id spec) w, w)) (\<lambda>existed.
     bindE (\<lambda>w. (so_load (rn_store rn) (sp_task_id spec) w, w)) (\<lambda>st.
     if st_task_id st \<noteq> sp_task_id spec then raiseE (Exc ValueError ''task_state_id_mismatch'')
     else if existed \<and> st_spec_fingerprint st = PNone
     then raiseE (Exc ValueError ''legacy_task_spec_requires_review'')
     else if st_spec_fingerprint st \<noteq> PNone \<and> \<not> py_eq (st_spec_fingerprint st) (PStr (fingerprint spec))
     then raiseE (Exc ValueError ''task_spec_changed'')
     else if \<not> existed
     then bindE (save_state rn (st\<lparr>st_spec_fingerprint := PStr (fingerprint spec)\<rparr>)) (run_bound rn spec context)
     else run_bound rn spec context st))"

definition run :: "'w runner \<Rightarrow> task_spec \<Rightarrow> pydict \<Rightarrow> ('w, run_outcome) eff" where
  "run rn spec context =
     bindE (liftE (TaskSpec_from_dict (TaskSpec_to_dict spec))) (\<lambda>spec'.
     bindE (liftE (TaskSpec_validate spec')) (\<lambda>_.
     bindE (so_lock (rn_store rn) (sp_task_id spec')) (\<lambda>_ w.
       let (r, w') = run_locked rn spec' context w
       in (r, so_unlock (rn_store rn) (sp_task_id spec') w'))))"

end
