(* ===== verification/Runner_Safety.thy ===== *)
theory Runner_Safety
  imports Agent_Runner
begin

text \<open>
  What makes the runner safe, proved once for every store that meets the contract
  \<open>task_store\<close> and used on \<open>FileStateStore\<close>:
  \<^item> the text of an untrusted exception influences nothing that a run leaves behind;
  \<^item> a run that returns leaves a durable terminal state, \<open>completed\<close> only with every step done;
  \<^item> an action is invoked only in a world whose durable state already records the attempt;
  \<^item> a task in a terminal state, or with an interrupted attempt, runs no action at all;
  \<^item> attempts never exceed the configured maximum.
\<close>

section \<open>Redaction of untrusted exceptions\<close>

text \<open>
  \<open>redact\<close> drops the text of every exception but the two kinds whose text is meant to be
  kept (\<open>BlockedAction\<close>, \<open>SafeActionError\<close>) and those that are not an \<open>Exception\<close>, which end the
  process.
\<close>

definition redact :: "exc \<Rightarrow> exc" where
  "redact e =
     (if catches BlockedAction e \<or> catches SafeActionError e \<or> \<not> catches Exception e then e
      else Exc (exc_cls e) [])"

definition redact_action :: "'w action \<Rightarrow> 'w action" where
  "redact_action act = (\<lambda>args ctx w.
     case act args ctx w of (Inl e, w') \<Rightarrow> (Inl (redact e), w') | (Inr v, w') \<Rightarrow> (Inr v, w'))"

definition redact_runner :: "'w runner \<Rightarrow> 'w runner" where
  "redact_runner rn = rn\<lparr>rn_actions := map (\<lambda>(n, a). (n, redact_action a)) (rn_actions rn)\<rparr>"

lemma redact_cls [simp]: "exc_cls (redact e) = exc_cls e"
  by (simp add: redact_def)

lemma catches_redact [simp]: "catches c (redact e) = catches c e"
  by (simp add: catches_def)

lemma redact_kept [simp]:
  "catches BlockedAction e \<Longrightarrow> redact e = e" "catches SafeActionError e \<Longrightarrow> redact e = e"
  "\<not> catches Exception e \<Longrightarrow> redact e = e"
  by (simp_all add: redact_def)

lemma persistent_error_redact [simp]: "persistent_error (redact e) v = persistent_error e v"
  by (simp add: persistent_error_def)

lemma diagnostic_redact [simp]:
  "diagnostic_classification (redact e) v = diagnostic_classification e v"
  "safe_exception_type (redact e) = safe_exception_type e"
  by (simp_all add: diagnostic_classification_def safe_exception_type_def)

lemma redact_runner_simps [simp]:
  "rn_store (redact_runner rn) = rn_store rn" "rn_sink (redact_runner rn) = rn_sink rn"
  "map_of (rn_actions (redact_runner rn)) n = map_option redact_action (map_of (rn_actions rn) n)"
  by (simp_all add: redact_runner_def map_of_map)

lemma redact_runner_ops [simp]:
  "save_state (redact_runner rn) = save_state rn" "block (redact_runner rn) = block rn"
  "fail_task (redact_runner rn) = fail_task rn" "emit_diagnostic (redact_runner rn) = emit_diagnostic rn"
  "finish_run (redact_runner rn) = finish_run rn" "complete_step (redact_runner rn) = complete_step rn"
  by (simp_all add: fun_eq_iff save_state_def block_def fail_task_def emit_diagnostic_def
      finish_run_def complete_step_def)

lemma emit_diagnostic_redact [simp]:
  "emit_diagnostic rn spec step a p n s (redact e) = emit_diagnostic rn spec step a p n s e"
  by (simp add: emit_diagnostic_def split: option.splits)

text \<open>Results that agree up to redaction, as the runner's handlers see them.\<close>

lemma invoke_redact:
  "invoke_action (redact_action act) args ctx w =
     (case act args ctx w of
        (Inl e, w') \<Rightarrow> (Inl (redact e), w')
      | (Inr v, w') \<Rightarrow> (normalise_action_result v, w'))"
  by (auto simp: invoke_action_def redact_action_def bindE_apply split: prod.splits sum.splits)

lemma invoke_plain:
  "invoke_action act args ctx w =
     (case act args ctx w of (Inl e, w') \<Rightarrow> (Inl e, w') | (Inr v, w') \<Rightarrow> (normalise_action_result v, w'))"
  by (auto simp: invoke_action_def bindE_apply split: prod.splits sum.splits)

lemma bindE_cong2: "(\<And>x. f x = g x) \<Longrightarrow> bindE m f = bindE m g"
  by presburger

section \<open>The attempt loop, one round at a time\<close>

text \<open>What one round does with a caught error; \<open>again\<close> is the next round.\<close>

definition after_error ::
  "'w runner \<Rightarrow> task_spec \<Rightarrow> step_spec \<Rightarrow> task_state \<Rightarrow> int \<Rightarrow> exc \<Rightarrow> ('w, attempt_out) eff \<Rightarrow> ('w, attempt_out) eff" where
  "after_error rn spec step st attempt e again =
     (if catches BlockedAction e
      then bindE (block rn st (''action_blocked:'' @ exc_msg e) (Some step) None) (\<lambda>st2. retE (Stop st2))
      else if catches Exception e
      then bindE (emit_diagnostic rn spec step (ss_action step) ''action'' attempt (ss_retry_safe step) e) (\<lambda>_.
           bindE (so_event (rn_store rn) (sp_task_id spec) (Some (ss_step_id step)) ''step_error''
                    (persistent_error e False) [(''attempt'', PInt attempt)]) (\<lambda>_.
           if \<not> ss_retry_safe step
           then bindE (block rn (st\<lparr>st_last_error := PStr (persistent_error e False)\<rparr>)
                         ''action_error_requires_reconciliation'' (Some step)
                         (Some (persistent_error e False))) (\<lambda>st3. retE (Stop st3))
           else if attempt \<ge> ss_max_attempts step
           then fail_task rn spec step (st\<lparr>st_last_error := PStr (persistent_error e False)\<rparr>)
                  (persistent_error e False) attempt
           else again))
      else raiseE e)"

abbreviation next_round :: "step_spec \<Rightarrow> task_state \<Rightarrow> string \<Rightarrow> exc \<Rightarrow> task_state" where
  "next_round step st now e \<equiv>
     (touch now (begin_attempt st (ss_step_id step)))\<lparr>st_last_error := PStr (persistent_error e False)\<rparr>"

definition attempt_body ::
  "'w runner \<Rightarrow> task_spec \<Rightarrow> step_spec \<Rightarrow> 'w action \<Rightarrow> pydict \<Rightarrow> task_state \<Rightarrow> int \<Rightarrow>
   (exc \<Rightarrow> ('w, attempt_out) eff) \<Rightarrow> ('w, attempt_out) eff" where
  "attempt_body rn spec step act ctx st attempt again = (\<lambda>w.
     case invoke_action act (ss_args step) ctx w of
       (Inr r, w') \<Rightarrow> (Inr (Got r st), w')
     | (Inl e, w') \<Rightarrow> after_error rn spec step st attempt e (again e) w')"

abbreviation start_data :: "step_spec \<Rightarrow> task_state \<Rightarrow> pydict" where
  "start_data step st \<equiv> [(''attempt'', PInt (attempt_count st (ss_step_id step) + 1)),
                         (''retry_safe'', PBool (ss_retry_safe step))]"

lemma attempt_loop_round:
  "attempt_loop rn spec step act ctx st =
     bindE (so_save (rn_store rn) (begin_attempt st (ss_step_id step))) (\<lambda>now.
     bindE (so_event (rn_store rn) (sp_task_id spec) (Some (ss_step_id step)) ''step_started''
              (ss_action step) (start_data step st)) (\<lambda>_.
     attempt_body rn spec step act ctx (touch now (begin_attempt st (ss_step_id step)))
       (attempt_count st (ss_step_id step) + 1)
       (\<lambda>e. attempt_loop rn spec step act ctx (next_round step st now e))))"
  by (subst attempt_loop.simps, unfold Let_def, rule bindE_cong2, rule bindE_cong2, rule ext)
    (auto simp: after_error_def attempt_body_def split: prod.splits sum.splits)

lemma attempt_induct [case_names Round]:
  assumes "\<And>st. (\<And>now e. ss_retry_safe step \<Longrightarrow> attempt_count st (ss_step_id step) + 1 < ss_max_attempts step
      \<Longrightarrow> P (next_round step st now e)) \<Longrightarrow> P st"
  shows "P st"
proof (induction "nat (ss_max_attempts step - attempt_count st (ss_step_id step))" arbitrary: st
    rule: less_induct)
  case less
  show ?case
  proof (rule assms)
    fix now e
    assume "attempt_count st (ss_step_id step) + 1 < ss_max_attempts step"
    then show "P (next_round step st now e)" by (intro less) simp
  qed
qed

lemma after_error_again_cong:
  assumes "ss_retry_safe step \<Longrightarrow> attempt < ss_max_attempts step \<Longrightarrow> again = again'"
  shows "after_error rn spec step st attempt e again = after_error rn spec step st attempt e again'"
  using assms by (simp add: after_error_def)

lemma after_error_redact [simp]:
  "after_error (redact_runner rn) = after_error rn"
  "after_error rn spec step st attempt (redact e) again = after_error rn spec step st attempt e again"
  by (simp_all add: after_error_def fun_eq_iff)

lemma attempt_loop_redact:
  "attempt_loop (redact_runner rn) spec step (redact_action act) ctx st = attempt_loop rn spec step act ctx st"
proof (induction st rule: attempt_induct [where step = step])
  case (Round st)
  have again: "after_error rn spec step s (attempt_count st (ss_step_id step) + 1) e
        (attempt_loop (redact_runner rn) spec step (redact_action act) ctx (next_round step st now e)) =
      after_error rn spec step s (attempt_count st (ss_step_id step) + 1) e
        (attempt_loop rn spec step act ctx (next_round step st now e))" for s now e
    by (rule after_error_again_cong) (rule Round)
  show ?case
    unfolding attempt_loop_round [of _ spec step _ ctx st] redact_runner_simps
    by (rule bindE_cong2, rule bindE_cong2)
      (auto simp: attempt_body_def invoke_redact invoke_plain [of act] again fun_eq_iff
        split: prod.splits sum.splits)
qed

lemma verify_step_redact: "verify_step (redact_runner rn) = verify_step rn"
proof (intro ext)
  fix spec step ctx r st w
  show "verify_step (redact_runner rn) spec step ctx r st w = verify_step rn spec step ctx r st w"
    by (cases "ss_verify_action step")
      (auto simp: verify_step_def redact_action_def split: option.splits prod.splits sum.splits)
qed

lemma settle_step_redact: "settle_step (redact_runner rn) = settle_step rn"
  by (intro ext) (simp only: settle_step_def verify_step_redact redact_runner_ops)

lemma run_step_redact: "run_step (redact_runner rn) = run_step rn"
  by (auto simp: run_step_def fun_eq_iff attempt_loop_redact settle_step_redact split: option.splits)

lemma run_steps_redact: "run_steps (redact_runner rn) spec base steps st ex sk = run_steps rn spec base steps st ex sk"
  by (induction steps arbitrary: st ex sk)
    (auto simp: run_step_redact intro!: bindE_cong2 split: sum.splits)

lemma run_redact_runner: "run (redact_runner rn) spec context = run rn spec context"
proof -
  have "run_bound (redact_runner rn) = run_bound rn"
    by (intro ext) (simp add: run_bound_def run_steps_redact cong: if_cong)
  then have "run_locked (redact_runner rn) = run_locked rn"
    by (intro ext) (simp add: run_locked_def cong: if_cong)
  then show ?thesis by (simp add: run_def)
qed

section \<open>Runs on a store that keeps its contract\<close>

text \<open>The actions and the sink leave the store's invariant alone.\<close>

definition runner_keeps :: "('w \<Rightarrow> bool) \<Rightarrow> 'w runner \<Rightarrow> bool" where
  "runner_keeps I rn \<longleftrightarrow>
     (\<forall>n act args ctx w. map_of (rn_actions rn) n = Some act \<longrightarrow> I w \<longrightarrow> I (snd (act args ctx w))) \<and>
     (\<forall>emit d w. rn_sink rn = Some emit \<longrightarrow> I w \<longrightarrow> I (snd (emit d w)))"

text \<open>The state of a task while its steps run.\<close>

definition running :: "task_spec \<Rightarrow> task_state \<Rightarrow> bool" where
  "running spec st \<longleftrightarrow> st_status st = PStr ''running'' \<and> st_schema_version st = STATE_SCHEMA_VERSION \<and>
     st_task_id st = sp_task_id spec"

definition halted :: "task_spec \<Rightarrow> task_state \<Rightarrow> bool" where
  "halted spec st \<longleftrightarrow> st_status st \<in> {PStr ''blocked'', PStr ''failed''} \<and> st_task_id st = sp_task_id spec"

lemma running_simps [simp]:
  "running spec (touch t st) = running spec st" "running spec (begin_attempt st sid) = running spec st"
  "running spec (st\<lparr>st_last_error := e\<rparr>) = running spec st"
  "running spec (st\<lparr>st_artifacts := a\<rparr>) = running spec st"
  "running spec (st\<lparr>st_completed_steps := c\<rparr>) = running spec st"
  by (simp_all add: running_def begin_attempt_def)

lemma begin_attempt_simps [simp]:
  "st_completed_steps (begin_attempt st sid) = st_completed_steps st"
  "st_task_id (begin_attempt st sid) = st_task_id st"
  "st_schema_version (begin_attempt st sid) = st_schema_version st"
  "st_status (begin_attempt st sid) = st_status st"
  by (simp_all add: begin_attempt_def)

text \<open>
  What a step may do to the attempt counters: only its own moves, and not beyond the maximum.
\<close>

definition counted :: "step_spec \<Rightarrow> task_state \<Rightarrow> task_state \<Rightarrow> bool" where
  "counted step st st' \<longleftrightarrow>
     (\<forall>sid. sid \<noteq> ss_step_id step \<longrightarrow> attempt_count st' sid = attempt_count st sid) \<and>
     attempt_count st (ss_step_id step) < attempt_count st' (ss_step_id step) \<and>
     (attempt_count st (ss_step_id step) < ss_max_attempts step \<longrightarrow>
        attempt_count st' (ss_step_id step) \<le> ss_max_attempts step)"

text \<open>A positive count of an unfinished step marks an interrupted attempt; a run starts without one.\<close>

definition resolved :: "task_state \<Rightarrow> bool" where
  "resolved st \<longleftrightarrow> (\<forall>sid. 0 < attempt_count st sid \<longrightarrow> PStr sid \<in> set (st_completed_steps st))"

definition bounded :: "task_spec \<Rightarrow> task_state \<Rightarrow> bool" where
  "bounded spec st \<longleftrightarrow>
     (\<forall>step \<in> set (sp_steps spec). 0 \<le> attempt_count st (ss_step_id step) \<and>
        attempt_count st (ss_step_id step) \<le> ss_max_attempts step)"

lemma set_unresolved_steps:
  "set (unresolved_steps st) =
     {sid. \<exists>n. (sid, n) \<in> set (st_attempts st) \<and> 0 < n \<and> PStr sid \<notin> set (st_completed_steps st)}"
  by (force simp: unresolved_steps_def)

lemma unresolved_steps_Nil:
  assumes "unresolved_steps st = []"
  shows "resolved st"
proof -
  have "set (unresolved_steps st) = {}" using assms by simp
  then show ?thesis
    by (auto simp: set_unresolved_steps resolved_def attempt_count_def split: option.splits
        dest!: map_of_SomeD)
qed

lemma counted_bounded:
  assumes "counted step st s" and "bounded spec st" and "step \<in> set (sp_steps spec)"
    and "distinct (map ss_step_id (sp_steps spec))" and "attempt_count st (ss_step_id step) < ss_max_attempts step"
  shows "bounded spec s"
  unfolding bounded_def
proof
  fix step'
  assume step': "step' \<in> set (sp_steps spec)"
  have nonneg: "0 \<le> attempt_count st (ss_step_id step')" using step' assms(2) by (simp add: bounded_def)
  show "0 \<le> attempt_count s (ss_step_id step') \<and> attempt_count s (ss_step_id step') \<le> ss_max_attempts step'"
  proof (cases "ss_step_id step' = ss_step_id step")
    case True
    with step' assms(3,4) have "step' = step" by (auto simp: distinct_map inj_on_def)
    with assms(1,5) nonneg show ?thesis by (simp add: counted_def)
  next
    case False
    with step' assms(1,2) show ?thesis by (simp add: counted_def bounded_def)
  qed
qed

lemma counted_resolved:
  assumes "counted step st s" and "resolved st" and "st_completed_steps s = st_completed_steps st"
  shows "resolved (s\<lparr>st_completed_steps := st_completed_steps s @ [PStr (ss_step_id step)]\<rparr>)"
  using assms by (auto simp: counted_def resolved_def)

lemma bounded_simps [simp]:
  "bounded spec (touch t st) = bounded spec st" "bounded spec (st\<lparr>st_last_error := e\<rparr>) = bounded spec st"
  "bounded spec (st\<lparr>st_artifacts := a\<rparr>) = bounded spec st"
  "bounded spec (st\<lparr>st_completed_steps := c\<rparr>) = bounded spec st"
  by (simp_all add: bounded_def)

lemma bounded_cong: "st_attempts s = st_attempts st \<Longrightarrow> bounded spec s = bounded spec st"
  by (simp add: bounded_def attempt_count_cong [of s st])

lemma resolved_simps [simp]:
  "resolved (touch t st) = resolved st" "resolved (st\<lparr>st_last_error := e\<rparr>) = resolved st"
  by (simp_all add: resolved_def)

text \<open>
  A state a run may start from: its counters respect the specification, and it claims
  completion only of finished tasks. Runs establish it again.
\<close>

definition sound :: "task_spec \<Rightarrow> task_state \<Rightarrow> bool" where
  "sound spec st \<longleftrightarrow> st_task_id st = sp_task_id spec \<and> bounded spec st \<and>
     (st_status st = PStr ''completed'' \<longrightarrow>
        (\<forall>step \<in> set (sp_steps spec). PStr (ss_step_id step) \<in> set (st_completed_steps st)))"

lemma in_TERMINAL:
  "in_str_set v TERMINAL = Inr b \<Longrightarrow> b \<longleftrightarrow> v \<in> {PStr ''completed'', PStr ''blocked'', PStr ''failed''}"
  by (cases v) (auto simp: TERMINAL_def)

context task_store
begin

definition at :: "task_state \<Rightarrow> 'w \<Rightarrow> bool" where
  "at st w \<longleftrightarrow> inv w \<and> durable w (st_task_id st) = Some st"

lemma save_triple:
  assumes "rn_store rn = ops" and "st_schema_version st = STATE_SCHEMA_VERSION"
  shows "triple inv (save_state rn st) (\<lambda>st' w. at st' w \<and> (\<exists>now. st' = touch now st)) (\<lambda>_ _. True)"
  by (rule tripleI)
    (auto simp: save_state_def bindE_eq_Inr at_def assms(1) intro: save_durable [OF _ assms(2)] save_inv)

lemma event_triple:
  assumes "rn_store rn = ops"
  shows "triple (at st) (so_event (rn_store rn) tid sid ty msg data) (\<lambda>_. at st) (\<lambda>_ _. True)"
  by (rule tripleI) (simp_all add: at_def assms, metis event_durable event_inv)

lemma event_triple_inv:
  assumes "rn_store rn = ops"
  shows "triple inv (so_event (rn_store rn) tid sid ty msg data) (\<lambda>_. inv) (\<lambda>_ _. True)"
  by (rule tripleI) (simp_all add: assms, metis event_inv)

lemma block_triple:
  assumes "rn_store rn = ops" and "st_schema_version st = STATE_SCHEMA_VERSION"
  shows "triple inv (block rn st reason step err)
     (\<lambda>st' w. at st' w \<and> (\<exists>now. st' = touch now (st\<lparr>st_status := PStr ''blocked'',
        st_blocked_reason := PStr reason, st_last_error := opt_str err\<rparr>))) (\<lambda>_ _. True)"
  unfolding block_def
  by (rule triple_bind [OF save_triple [OF assms(1)]], simp add: assms(2),
      rule triple_bind [OF triple_frame [OF event_triple [OF assms(1)]]], rule triple_ret) simp

lemma at_inv [dest]: "at st w \<Longrightarrow> inv w"
  by (simp add: at_def)

lemma emit_triple:
  assumes "runner_keeps inv rn"
  shows "triple inv (emit_diagnostic rn spec step a p n r e) (\<lambda>_. inv) (\<lambda>_ _. True)"
proof (cases "rn_sink rn")
  case None
  then show ?thesis by (simp add: emit_diagnostic_def triple_ret)
next
  case (Some emit)
  then have keeps: "inv w \<Longrightarrow> inv (snd (emit d w))" for d w
    using assms by (simp add: runner_keeps_def)
  have "inv (snd (emit_diagnostic rn spec step a p n r e w))" if "inv w" for w
    using that keeps
    by (auto simp: Some emit_diagnostic_def tryE_apply bindE_apply split: prod.splits sum.splits)
      (metis snd_conv)+
  then show ?thesis by (auto intro!: tripleI) (metis snd_conv)
qed

lemma fail_triple:
  assumes "rn_store rn = ops" and "running spec st"
  shows "triple inv (fail_task rn spec step st err n)
     (\<lambda>out w. \<exists>s. out = Stop s \<and> at s w \<and> halted spec s \<and> st_attempts s = st_attempts st) (\<lambda>_ _. True)"
  unfolding fail_task_def
  by (rule triple_bind [OF save_triple [OF assms(1)]], use assms(2) in \<open>simp add: running_def\<close>,
      rule triple_bind [OF triple_frame [OF event_triple [OF assms(1)]]], rule triple_ret)
    (use assms(2) in \<open>auto simp: halted_def running_def\<close>)

lemma block_stops:
  assumes "rn_store rn = ops" and "running spec st"
  shows "triple inv (block rn st reason step err)
     (\<lambda>s w. at s w \<and> halted spec s \<and> st_attempts s = st_attempts st) (\<lambda>_ _. True)"
  by (rule triple_post [OF block_triple [OF assms(1)]])
    (use assms(2) in \<open>auto simp: running_def halted_def\<close>)

text \<open>One round of the attempt loop, and the loop.\<close>

lemma after_error_triple:
  assumes rn: "rn_store rn = ops" "runner_keeps inv rn" and st: "running spec st"
    and again: "ss_retry_safe step \<Longrightarrow> attempt < ss_max_attempts step \<Longrightarrow> triple inv again Q (\<lambda>_ _. True)"
    and stop: "\<And>s w. at s w \<Longrightarrow> halted spec s \<Longrightarrow> st_attempts s = st_attempts st \<Longrightarrow> Q (Stop s) w"
  shows "triple inv (after_error rn spec step st attempt e again) Q (\<lambda>_ _. True)"
  unfolding after_error_def
proof (intro triple_if)
  show "triple inv (bindE (block rn st (''action_blocked:'' @ exc_msg e) (Some step) None)
      (\<lambda>st2. retE (Stop st2))) Q (\<lambda>_ _. True)"
    by (rule triple_bind [OF block_stops [OF rn(1) st]], rule triple_ret) (auto intro: stop)
next
  let ?st = "st\<lparr>st_last_error := PStr (persistent_error e False)\<rparr>"
  have st': "running spec ?st" using st by simp
  show "triple inv (bindE (emit_diagnostic rn spec step (ss_action step) ''action'' attempt (ss_retry_safe step) e)
     (\<lambda>_. bindE (so_event (rn_store rn) (sp_task_id spec) (Some (ss_step_id step)) ''step_error''
            (persistent_error e False) [(''attempt'', PInt attempt)])
     (\<lambda>_. if \<not> ss_retry_safe step
          then bindE (block rn ?st ''action_error_requires_reconciliation'' (Some step)
                 (Some (persistent_error e False))) (\<lambda>st3. retE (Stop st3))
          else if ss_max_attempts step \<le> attempt
          then fail_task rn spec step ?st (persistent_error e False) attempt
          else again))) Q (\<lambda>_ _. True)"
  proof (intro triple_bind [OF emit_triple [OF rn(2)]] triple_bind [OF event_triple_inv [OF rn(1)]] triple_if)
    show "triple inv (bindE (block rn ?st ''action_error_requires_reconciliation'' (Some step)
        (Some (persistent_error e False))) (\<lambda>st3. retE (Stop st3))) Q (\<lambda>_ _. True)"
      by (rule triple_bind [OF block_stops [OF rn(1) st']], rule triple_ret) (auto intro: stop)
  next
    show "triple inv (fail_task rn spec step ?st (persistent_error e False) attempt) Q (\<lambda>_ _. True)"
      by (rule triple_post [OF fail_triple [OF rn(1) st']]) (auto intro: stop)
  next
    assume "\<not> \<not> ss_retry_safe step" and "\<not> ss_max_attempts step \<le> attempt"
    then show "triple inv again Q (\<lambda>_ _. True)" by (intro again) simp_all
  qed
qed (rule triple_raise, simp)

lemma invoke_inv:
  assumes "runner_keeps inv rn" and "map_of (rn_actions rn) n = Some act" and "inv w"
  shows "inv (snd (act args ctx w))" "inv (snd (invoke_action act args ctx w))"
  using assms
  by (auto simp: runner_keeps_def invoke_plain split: prod.splits sum.splits) (metis snd_conv)+

lemma so_save_triple:
  assumes "rn_store rn = ops" and "st_schema_version st = STATE_SCHEMA_VERSION"
  shows "triple inv (so_save (rn_store rn) st) (\<lambda>now. at (touch now st)) (\<lambda>_ _. True)"
  by (rule tripleI)
    (auto simp: at_def assms(1) intro: save_durable [OF _ assms(2)] save_inv)

definition loop_post :: "task_spec \<Rightarrow> step_spec \<Rightarrow> task_state \<Rightarrow> attempt_out \<Rightarrow> 'w \<Rightarrow> bool" where
  "loop_post spec step st out w \<longleftrightarrow>
     (case out of
        Stop s \<Rightarrow> at s w \<and> halted spec s \<and> counted step st s
      | Got r s \<Rightarrow> inv w \<and> running spec s \<and> st_completed_steps s = st_completed_steps st \<and> counted step st s)"

lemma attempt_body_triple:
  assumes rn: "runner_keeps inv rn" and act: "map_of (rn_actions rn) n = Some act"
    and err: "\<And>e. triple inv (after_error rn spec step st attempt e (again e)) Q (\<lambda>_ _. True)"
    and got: "\<And>r w. inv w \<Longrightarrow> Q (Got r st) w"
  shows "triple inv (attempt_body rn spec step act ctx st attempt again) Q (\<lambda>_ _. True)"
proof (rule tripleI)
  fix w x w''
  assume w: "inv w" and eq: "attempt_body rn spec step act ctx st attempt again w = (Inr x, w'')"
  obtain r w' where iv: "invoke_action act (ss_args step) ctx w = (r, w')" by fastforce
  then have "inv w'" using invoke_inv(2) [OF rn act w] by (metis snd_conv)
  then show "Q x w''"
    using eq iv got tripleD_Inr [OF err] by (cases r) (auto simp: attempt_body_def)
qed simp

lemma attempt_loop_triple:
  assumes rn: "rn_store rn = ops" "runner_keeps inv rn" and act: "map_of (rn_actions rn) n = Some act"
    and st: "running spec st"
  shows "triple inv (attempt_loop rn spec step act ctx st) (loop_post spec step st) (\<lambda>_ _. True)"
  using st
proof (induction st rule: attempt_induct [where step = step])
  case (Round st)
  let ?sid = "ss_step_id step"
  let ?b = "begin_attempt st ?sid"
  have counts: "attempt_count st ?sid + 1 \<le> ss_max_attempts step \<or> \<not> attempt_count st ?sid < ss_max_attempts step"
    by linarith
  have got: "loop_post spec step st (Got r (touch now ?b)) w" if "inv w" for r now w
    using that Round.prems counts by (auto simp: loop_post_def counted_def)
  have stop: "loop_post spec step st (Stop s) w"
    if "at s w" "halted spec s" "st_attempts s = st_attempts (touch now ?b)" for s w now
    using that counts attempt_count_cong [of s "touch now ?b"] by (auto simp: loop_post_def counted_def)
  have again: "triple inv (attempt_loop rn spec step act ctx (next_round step st now e))
      (loop_post spec step st) (\<lambda>_ _. True)"
    if "ss_retry_safe step" "attempt_count st ?sid + 1 < ss_max_attempts step" for now e
  proof (rule triple_post)
    show "triple inv (attempt_loop rn spec step act ctx (next_round step st now e))
        (loop_post spec step (next_round step st now e)) (\<lambda>_ _. True)"
      using that Round.prems by (intro Round.IH) simp_all
  qed (use that in \<open>auto simp: loop_post_def counted_def split: attempt_out.splits\<close>)
  have err: "triple inv (after_error rn spec step (touch now ?b) (attempt_count st ?sid + 1) e
      (attempt_loop rn spec step act ctx (next_round step st now e))) (loop_post spec step st) (\<lambda>_ _. True)"
    for now e
    using Round.prems by (intro after_error_triple [OF rn] again) (auto intro: stop)
  have body: "triple inv (attempt_body rn spec step act ctx (touch now ?b) (attempt_count st ?sid + 1)
      (\<lambda>e. attempt_loop rn spec step act ctx (next_round step st now e))) (loop_post spec step st) (\<lambda>_ _. True)"
    for now
    by (rule attempt_body_triple [OF rn(2) act err]) (rule got)
  show ?case
    unfolding attempt_loop_round [of rn spec step act ctx st]
  proof (rule triple_bind [OF so_save_triple [OF rn(1)]])
    show "st_schema_version ?b = STATE_SCHEMA_VERSION" using Round.prems by (simp add: running_def)
  qed (rule triple_bind [OF event_triple [OF rn(1)]], rule triple_conseq [OF body], auto)
qed

text \<open>Verification either lets the run go on in the same durable state, or halts it.\<close>

definition halt_post :: "task_spec \<Rightarrow> task_state \<Rightarrow> task_state \<Rightarrow> 'w \<Rightarrow> bool" where
  "halt_post spec st s w \<longleftrightarrow> at s w \<and> halted spec s \<and> st_attempts s = st_attempts st"

lemma block_halt_Inl:
  assumes "rn_store rn = ops" and "running spec st"
  shows "triple inv (bindE (block rn st reason step err) (\<lambda>s. retE (Inl s)))
     (\<lambda>v w. case v of Inl s \<Rightarrow> halt_post spec st s w | Inr x \<Rightarrow> Q x w) (\<lambda>_ _. True)"
  by (rule triple_bind [OF block_stops [OF assms]], rule triple_ret) (simp add: halt_post_def)

lemma verify_step_triple:
  assumes rn: "rn_store rn = ops" "runner_keeps inv rn" and st: "running spec st"
  shows "triple (at st) (verify_step rn spec step ctx r st)
     (\<lambda>v w. case v of Inl s \<Rightarrow> halt_post spec st s w | Inr _ \<Rightarrow> inv w) (\<lambda>_ _. True)"
proof (cases "ss_verify_action step")
  case None
  then show ?thesis by (auto simp: verify_step_def intro!: triple_ret)
next
  case (Some va)
  note halt = block_halt_Inl [OF rn(1) st]
  show ?thesis
  proof (cases "map_of (rn_actions rn) va")
    case None
    with Some show ?thesis
      by (cases "va = []")
        (auto simp: verify_step_def intro!: triple_ret triple_conseq [OF halt [where Q = "\<lambda>_. inv"]])
  next
    case (Some verifier)
    have inv': "inv w'" if "inv w" "verifier (verify_args step r) ctx w = (x, w')" for w w' x
      using invoke_inv(1) [OF rn(2) Some that(1)] that(2) by (metis snd_conv)
    have ev: "triple inv (bindE (so_event (rn_store rn) (sp_task_id spec) (Some (ss_step_id step)) ''step_verified'' va [])
        (\<lambda>_. retE (Inr ()))) (\<lambda>v w. case v of Inl s \<Rightarrow> halt_post spec st s w | Inr _ \<Rightarrow> inv w) (\<lambda>_ _. True)"
      by (rule triple_bind [OF event_triple_inv [OF rn(1)]], rule triple_ret) simp
    have em: "triple inv (bindE (emit_diagnostic rn spec step va ''verification'' n False e)
        (\<lambda>_. bindE (block rn st reason (Some step) err) (\<lambda>st'. retE (Inl st'))))
        (\<lambda>v w. case v of Inl s \<Rightarrow> halt_post spec st s w | Inr (x :: unit) \<Rightarrow> inv w) (\<lambda>_ _. True)" for n e reason err
      by (rule triple_bind [OF emit_triple [OF rn(2)] halt])
    show ?thesis
    proof (rule tripleI)
      fix w x w''
      assume "at st w" and eq: "verify_step rn spec step ctx r st w = (Inr x, w'')"
      then have w: "inv w" by auto
      obtain v w' where v: "verifier (verify_args step r) ctx w = (v, w')" by fastforce
      have w': "inv w'" using inv' [OF w v] .
      show "case x of Inl s \<Rightarrow> halt_post spec st s w'' | Inr _ \<Rightarrow> inv w''"
        using eq v w w' \<open>ss_verify_action step = Some va\<close> Some
          tripleD_Inr [OF ev w'] tripleD_Inr [OF em w'] tripleD_Inr [OF halt [where Q = "\<lambda>_. inv"] w']
        by (cases v) (auto simp: verify_step_def split: if_splits)
    qed simp
  qed
qed

text \<open>A step, the steps and the whole run.\<close>

definition step_post :: "task_spec \<Rightarrow> step_spec \<Rightarrow> task_state \<Rightarrow> task_state + task_state \<Rightarrow> 'w \<Rightarrow> bool" where
  "step_post spec step st r w \<longleftrightarrow>
     (case r of
        Inl s \<Rightarrow> at s w \<and> halted spec s \<and> bounded spec s
      | Inr s \<Rightarrow> at s w \<and> running spec s \<and> resolved s \<and> bounded spec s \<and>
                 st_completed_steps s = st_completed_steps st @ [PStr (ss_step_id step)])"

lemma halt_post_step:
  "halt_post spec st s w \<Longrightarrow> bounded spec st \<Longrightarrow> step_post spec step st' (Inl s) w"
  using bounded_cong [of s st spec] by (simp add: halt_post_def step_post_def)

lemma complete_step_triple:
  assumes rn: "rn_store rn = ops" and s: "running spec s" "bounded spec s" "counted step st s" "resolved st"
    "st_completed_steps s = st_completed_steps st"
  shows "triple inv (complete_step rn spec step r s) (\<lambda>s'. step_post spec step st (Inr s')) (\<lambda>_ _. True)"
  unfolding complete_step_def
proof (rule triple_bind [OF save_triple [OF rn]])
  show "st_schema_version (s\<lparr>st_completed_steps := st_completed_steps s @ [PStr (ss_step_id step)],
      st_last_error := PNone\<rparr>) = STATE_SCHEMA_VERSION"
    using s(1) by (simp add: running_def)
qed (rule triple_bind [OF triple_frame [OF event_triple [OF rn]]], rule triple_ret,
    use s counted_resolved [OF s(3,4,5)] in \<open>auto simp: step_post_def s(5)\<close>)

lemma settle_step_triple:
  assumes rn: "rn_store rn = ops" "runner_keeps inv rn"
    and s: "running spec s" "bounded spec s" "counted step st s" "resolved st"
    "st_completed_steps s = st_completed_steps st"
  shows "triple inv (settle_step rn spec step ctx r s) (step_post spec step st) (\<lambda>_ _. True)"
  unfolding settle_step_def
proof (rule triple_bind)
  show "triple inv (liftE (apply_artifact_updates s (rs_artifacts r)))
      (\<lambda>s1 w. inv w \<and> (\<exists>arts. s1 = s\<lparr>st_artifacts := arts\<rparr>)) (\<lambda>_ _. True)"
    by (rule triple_lift) (auto dest: apply_artifact_updates_control)
next
  fix s1
  show "triple (\<lambda>w. inv w \<and> (\<exists>arts. s1 = s\<lparr>st_artifacts := arts\<rparr>))
      (bindE (save_state rn s1) (\<lambda>s2. bindE (verify_step rn spec step ctx r s2) (\<lambda>v.
         case v of Inl st' \<Rightarrow> retE (Inl st')
         | Inr _ \<Rightarrow> bindE (complete_step rn spec step r s2) (\<lambda>st'. retE (Inr st')))))
      (step_post spec step st) (\<lambda>_ _. True)"
  proof (rule triple_pure)
    assume "\<exists>arts. s1 = s\<lparr>st_artifacts := arts\<rparr>"
    with s have s1: "running spec s1" "bounded spec s1" "counted step st s1"
      "st_completed_steps s1 = st_completed_steps st"
      by (auto simp: counted_def)
    show "triple inv (bindE (save_state rn s1) (\<lambda>s2. bindE (verify_step rn spec step ctx r s2) (\<lambda>v.
         case v of Inl st' \<Rightarrow> retE (Inl st')
         | Inr _ \<Rightarrow> bindE (complete_step rn spec step r s2) (\<lambda>st'. retE (Inr st')))))
       (step_post spec step st) (\<lambda>_ _. True)"
    proof (rule triple_bind [OF save_triple [OF rn(1)]])
      show "st_schema_version s1 = STATE_SCHEMA_VERSION" using s1(1) by (simp add: running_def)
    next
      fix s2
      show "triple (\<lambda>w. at s2 w \<and> (\<exists>now. s2 = touch now s1)) (bindE (verify_step rn spec step ctx r s2) (\<lambda>v.
           case v of Inl st' \<Rightarrow> retE (Inl st')
           | Inr _ \<Rightarrow> bindE (complete_step rn spec step r s2) (\<lambda>st'. retE (Inr st'))))
         (step_post spec step st) (\<lambda>_ _. True)"
      proof (rule triple_pure)
        assume "\<exists>now. s2 = touch now s1"
        with s1 have s2: "running spec s2" "bounded spec s2" "counted step st s2"
          "st_completed_steps s2 = st_completed_steps st"
          by (auto simp: counted_def)
        note completed = complete_step_triple [OF rn(1) s2(1,2,3) s(4) s2(4)]
        show "triple (at s2) (bindE (verify_step rn spec step ctx r s2) (\<lambda>v.
             case v of Inl st' \<Rightarrow> retE (Inl st')
             | Inr _ \<Rightarrow> bindE (complete_step rn spec step r s2) (\<lambda>st'. retE (Inr st'))))
           (step_post spec step st) (\<lambda>_ _. True)"
          by (rule triple_bind [OF verify_step_triple [OF rn s2(1)]])
            (auto split: sum.split intro!: triple_ret triple_bind [OF completed] dest: halt_post_step [OF _ s2(2)])
      qed
    qed
  qed
qed

lemma run_step_triple:
  assumes rn: "rn_store rn = ops" "runner_keeps inv rn"
    and st: "running spec st" "resolved st" "bounded spec st" "PStr (ss_step_id step) \<notin> set (st_completed_steps st)"
    and spec: "step \<in> set (sp_steps spec)" "distinct (map ss_step_id (sp_steps spec))" "1 \<le> ss_max_attempts step"
  shows "triple inv (run_step rn spec base step st) (step_post spec step st) (\<lambda>_ _. True)"
proof (cases "map_of (rn_actions rn) (ss_action step)")
  case None
  have "triple inv (bindE (block rn st (''action_unavailable:'' @ ss_action step) (Some step) None)
      (\<lambda>s. retE (Inl s))) (step_post spec step st) (\<lambda>_ _. True)"
    by (rule triple_bind [OF block_stops [OF rn(1) st(1)]], rule triple_ret)
      (auto intro: halt_post_step [OF _ st(3)] simp: halt_post_def)
  with None show ?thesis by (simp add: run_step_def)
next
  case (Some act)
  have "\<not> 0 < attempt_count st (ss_step_id step)" using st(2,4) unfolding resolved_def by blast
  with spec(3) have fresh: "attempt_count st (ss_step_id step) < ss_max_attempts step" by linarith
  have bnd: "counted step st s \<Longrightarrow> bounded spec s" for s
    using counted_bounded [OF _ st(3) spec(1,2) fresh] .
  have "triple (loop_post spec step st out) (case out of Stop st' \<Rightarrow> retE (Inl st')
      | Got r st1 \<Rightarrow> settle_step rn spec step (step_context spec base step) r st1) (step_post spec step st) (\<lambda>_ _. True)" for out
  proof (cases out)
    case (Stop s)
    then show ?thesis by (auto simp: loop_post_def step_post_def intro!: triple_ret bnd)
  next
    case (Got r s)
    have "triple (\<lambda>w. inv w \<and> (running spec s \<and> st_completed_steps s = st_completed_steps st \<and> counted step st s))
       (settle_step rn spec step (step_context spec base step) r s) (step_post spec step st) (\<lambda>_ _. True)"
      by (rule triple_pure) (auto intro!: settle_step_triple [OF rn _ _ _ st(2)] bnd)
    with Got show ?thesis by (auto simp: loop_post_def elim!: triple_pre)
  qed
  then show ?thesis
    using Some by (simp add: run_step_def triple_bind [OF attempt_loop_triple [OF rn Some st(1)]])
qed

text \<open>How a run ends: a durable terminal state, which the outcome reports.\<close>

definition run_post :: "task_spec \<Rightarrow> run_outcome \<Rightarrow> 'w \<Rightarrow> bool" where
  "run_post spec out w \<longleftrightarrow>
     (\<exists>s. at s w \<and> sound spec s \<and> ro_status out = st_status s \<and> ro_completed_steps out = st_completed_steps s \<and>
        st_status s \<in> {PStr ''completed'', PStr ''blocked'', PStr ''failed''})"

lemma finish_run_triple:
  assumes rn: "rn_store rn = ops" and st: "running spec st" "bounded spec st"
    and all: "\<forall>step \<in> set (sp_steps spec). PStr (ss_step_id step) \<in> set (st_completed_steps st)"
  shows "triple inv (bindE (finish_run rn spec st) (\<lambda>s. retE (outcome s ex sk))) (run_post spec) (\<lambda>_ _. True)"
  unfolding finish_run_def
proof (intro triple_bind)
  show "triple inv (save_state rn (st\<lparr>st_status := PStr ''completed'', st_blocked_reason := PNone, st_last_error := PNone\<rparr>))
     (\<lambda>s w. at s w \<and> (\<exists>now. s = touch now (st\<lparr>st_status := PStr ''completed'', st_blocked_reason := PNone,
        st_last_error := PNone\<rparr>))) (\<lambda>_ _. True)"
    using st by (intro save_triple [OF rn]) (simp add: running_def)
  show "triple (\<lambda>w. at s w \<and> (\<exists>now. s = touch now (st\<lparr>st_status := PStr ''completed'', st_blocked_reason := PNone,
        st_last_error := PNone\<rparr>))) (so_event (rn_store rn) (sp_task_id spec) None ty msg data)
     (\<lambda>_ w. at s w \<and> (\<exists>now. s = touch now (st\<lparr>st_status := PStr ''completed'', st_blocked_reason := PNone,
        st_last_error := PNone\<rparr>))) (\<lambda>_ _. True)" for s ty msg data
    by (rule triple_frame [OF event_triple [OF rn]])
  show "triple (\<lambda>w. at s w \<and> (\<exists>now. s = touch now (st\<lparr>st_status := PStr ''completed'', st_blocked_reason := PNone,
        st_last_error := PNone\<rparr>))) (retE s) (\<lambda>s w. at s w \<and> (\<exists>now. s = touch now (st\<lparr>st_status := PStr ''completed'',
          st_blocked_reason := PNone, st_last_error := PNone\<rparr>))) (\<lambda>_ _. True)" for s
    by (rule triple_ret)
  show "triple (\<lambda>w. at s w \<and> (\<exists>now. s = touch now (st\<lparr>st_status := PStr ''completed'', st_blocked_reason := PNone,
        st_last_error := PNone\<rparr>))) (retE (outcome s ex sk)) (run_post spec) (\<lambda>_ _. True)" for s
    using st all
    by (intro triple_ret) (auto simp: run_post_def sound_def outcome_def running_def bounded_def attempt_count_def)
qed

lemma halted_outcome:
  "at s w \<Longrightarrow> halted spec s \<Longrightarrow> bounded spec s \<Longrightarrow> run_post spec (outcome s ex sk) w"
  by (auto simp: run_post_def sound_def halted_def outcome_def)

lemma run_steps_triple:
  assumes rn: "rn_store rn = ops" "runner_keeps inv rn" and valid: "TaskSpec_validate spec = Inr ()"
    and st: "running spec st" "resolved st" "bounded spec st"
    and steps: "set steps \<subseteq> set (sp_steps spec)"
      "\<forall>step \<in> set (sp_steps spec). step \<in> set steps \<or> PStr (ss_step_id step) \<in> set (st_completed_steps st)"
  shows "triple inv (run_steps rn spec base steps st ex sk) (run_post spec) (\<lambda>_ _. True)"
  using st steps
proof (induction steps arbitrary: st ex sk)
  case Nil
  then show ?case by (simp add: finish_run_triple [OF rn(1)])
next
  case (Cons step steps)
  show ?case
  proof (cases "PStr (ss_step_id step) \<in> set (st_completed_steps st)")
    case True
    have "triple inv (run_steps rn spec base steps st ex sk') (run_post spec) (\<lambda>_ _. True)" for sk'
      using Cons.prems True by (intro Cons.IH) auto
    with True show ?thesis by (auto intro: triple_bind [OF event_triple_inv [OF rn(1)]])
  next
    case False
    have "step \<in> set (sp_steps spec)" "distinct (map ss_step_id (sp_steps spec))" "1 \<le> ss_max_attempts step"
      using valid Cons.prems by (auto simp: TaskSpec_validate_ok list_all_iff step_valid_def)
    then have one: "triple inv (run_step rn spec base step st) (step_post spec step st) (\<lambda>_ _. True)"
      using Cons.prems False by (intro run_step_triple [OF rn]) auto
    have "triple (step_post spec step st r) (case r of Inl st' \<Rightarrow> retE (outcome st' ex sk)
        | Inr st' \<Rightarrow> run_steps rn spec base steps st' (ex @ [ss_step_id step]) sk) (run_post spec) (\<lambda>_ _. True)" for r
    proof (cases r)
      case (Inl s)
      then show ?thesis by (auto simp: step_post_def intro!: triple_ret halted_outcome)
    next
      case (Inr s)
      have "triple (\<lambda>w. inv w \<and> (running spec s \<and> resolved s \<and> bounded spec s \<and>
          st_completed_steps s = st_completed_steps st @ [PStr (ss_step_id step)]))
        (run_steps rn spec base steps s (ex @ [ss_step_id step]) sk) (run_post spec) (\<lambda>_ _. True)"
        using Cons.prems by (intro triple_pure Cons.IH) auto
      with Inr show ?thesis by (auto simp: step_post_def elim!: triple_pre)
    qed
    with False one show ?thesis by (auto intro: triple_bind)
  qed
qed

lemma run_bound_triple:
  assumes rn: "rn_store rn = ops" "runner_keeps inv rn" and valid: "TaskSpec_validate spec = Inr ()"
    and st: "sound spec st" "st_schema_version st = STATE_SCHEMA_VERSION"
  shows "triple (at st) (run_bound rn spec context st) (run_post spec) (\<lambda>_ _. True)"
  unfolding run_bound_def
proof (rule triple_bind [where R = "\<lambda>b w. at st w \<and> in_str_set (st_status st) TERMINAL = Inr b"])
  show "triple (at st) (liftE (in_str_set (st_status st) TERMINAL))
      (\<lambda>b w. at st w \<and> in_str_set (st_status st) TERMINAL = Inr b) (\<lambda>_ _. True)"
    by (rule triple_lift) auto
next
  fix b
  have bnd: "bounded spec s" if "st_attempts s = st_attempts st" for s
    using st(1) bounded_cong [OF that] by (simp add: sound_def)
  let ?run = "st\<lparr>st_status := PStr ''running'', st_blocked_reason := PNone, st_last_error := PNone\<rparr>"
  have tid: "st_task_id st = sp_task_id spec" using st(1) by (simp add: sound_def)
  show "triple (\<lambda>w. at st w \<and> in_str_set (st_status st) TERMINAL = Inr b)
     (if b then bindE (so_event (rn_store rn) (sp_task_id spec) None ''terminal_resume_skipped''
                   (''task already '' @ py_str (st_status st) @ ''; no action repeated'') [])
                 (\<lambda>_. retE (outcome st [] []))
      else if unresolved_steps st \<noteq> []
      then bindE (block rn st (''interrupted_step_requires_reconciliation:'' @ join '','' (unresolved_steps st)) None None)
             (\<lambda>st'. retE (outcome st' [] []))
      else bindE (save_state rn ?run) (\<lambda>st'.
           bindE (so_event (rn_store rn) (sp_task_id spec) None ''task_started'' (sp_title spec) []) (\<lambda>_.
           run_steps rn spec (base_context spec context) (sp_steps spec) st' [] [])))
     (run_post spec) (\<lambda>_ _. True)"
  proof (rule triple_pure, intro triple_if)
    assume tm: "in_str_set (st_status st) TERMINAL = Inr b" and b
    with in_TERMINAL [OF tm] st(1)
    show "triple (at st) (bindE (so_event (rn_store rn) (sp_task_id spec) None ''terminal_resume_skipped''
        (''task already '' @ py_str (st_status st) @ ''; no action repeated'') []) (\<lambda>_. retE (outcome st [] [])))
        (run_post spec) (\<lambda>_ _. True)"
      by (intro triple_bind [OF event_triple [OF rn(1)]] triple_ret) (auto simp: run_post_def outcome_def)
  next
    show "triple (at st) (bindE (block rn st (''interrupted_step_requires_reconciliation:'' @
        join '','' (unresolved_steps st)) None None) (\<lambda>st'. retE (outcome st' [] []))) (run_post spec) (\<lambda>_ _. True)"
      by (rule triple_bind [OF triple_pre [OF block_triple [OF rn(1) st(2)]]], blast, rule triple_ret)
        (auto intro!: halted_outcome bnd simp: halted_def tid)
  next
    assume "\<not> unresolved_steps st \<noteq> []"
    then have res: "resolved st" using unresolved_steps_Nil by simp
    have go: "triple inv (run_steps rn spec (base_context spec context) (sp_steps spec) (touch now ?run) [] [])
        (run_post spec) (\<lambda>_ _. True)" for now
      using st(2) tid res bnd [of ?run]
      by (intro run_steps_triple [OF rn valid]) (auto simp: running_def resolved_def bounded_def)
    show "triple (at st) (bindE (save_state rn ?run) (\<lambda>st'.
           bindE (so_event (rn_store rn) (sp_task_id spec) None ''task_started'' (sp_title spec) []) (\<lambda>_.
           run_steps rn spec (base_context spec context) (sp_steps spec) st' [] []))) (run_post spec) (\<lambda>_ _. True)"
      by (rule triple_bind [OF triple_pre [OF save_triple [OF rn(1)]]], simp add: st(2), blast,
          rule triple_bind [OF triple_frame [OF event_triple [OF rn(1)]]], rule triple_pure)
        (auto intro: triple_pre [OF go])
  qed
qed

text \<open>The world a run starts in: the task is new, or its durable state is sound.\<close>

definition startable :: "task_spec \<Rightarrow> 'w \<Rightarrow> bool" where
  "startable spec w \<longleftrightarrow> inv w \<and>
     (case durable w (sp_task_id spec) of
        None \<Rightarrow> so_exists ops (sp_task_id spec) w \<noteq> Inr True
      | Some st \<Rightarrow> sound spec st)"

lemma sound_new: "TaskSpec_validate spec = Inr () \<Longrightarrow> sound spec (TaskState_new now (sp_task_id spec))"
  by (auto simp: sound_def TaskState_new_def bounded_def attempt_count_def TaskSpec_validate_ok
      list_all_iff step_valid_def)

lemma run_locked_sound:
  assumes rn: "rn_store rn = ops" "runner_keeps inv rn" and valid: "TaskSpec_validate spec = Inr ()"
    and start: "startable spec w" and eq: "run_locked rn spec context w = (Inr out, w')"
  shows "run_post spec out w'"
proof -
  from start have inv: "inv w" by (simp add: startable_def)
  obtain existed st where ex: "so_exists ops (sp_task_id spec) w = Inr existed"
    and ld: "so_load ops (sp_task_id spec) w = Inr st"
    using eq by (auto simp: run_locked_def bindE_eq_Inr rn(1))
  note run = eq [unfolded run_locked_def, folded rn(1)]
  show ?thesis
  proof (cases existed)
    case True
    with start ex obtain st' where "durable w (sp_task_id spec) = Some st'" and snd: "sound spec st'"
      by (auto simp: startable_def split: option.splits)
    with inv ld have at: "at st w" and st: "sound spec st" and tid: "st_task_id st = sp_task_id spec"
      using load_durable [OF inv] by (auto simp: at_def sound_def)
    have "st_schema_version st = STATE_SCHEMA_VERSION" using load_existing [OF inv _ ld] ex True by simp
    from run_bound_triple [OF rn valid st this] at
    show ?thesis using eq ex ld True
      by (auto simp: run_locked_def bindE_apply rn(1) dest: tripleD_Inr split: if_splits)
  next
    case False
    with ex obtain now where st: "st = TaskState_new now (sp_task_id spec)"
      using load_not_existing [OF inv _ ld] by auto
    let ?st = "st\<lparr>st_spec_fingerprint := PStr (fingerprint spec)\<rparr>"
    have "sound spec ?st" using sound_new [OF valid, of now] by (simp add: sound_def st bounded_def attempt_count_def)
    then have s: "sound spec (touch t ?st)" for t by (simp add: sound_def)
    have sch: "st_schema_version ?st = STATE_SCHEMA_VERSION" by (simp add: st TaskState_new_def)
    have "triple inv (bindE (save_state rn ?st) (run_bound rn spec context)) (run_post spec) (\<lambda>_ _. True)"
      by (rule triple_bind [OF save_triple [OF rn(1) sch]], rule triple_pure)
        (use s sch in \<open>auto intro!: run_bound_triple [OF rn valid]\<close>)
    with inv show ?thesis using eq ex ld False
      by (auto simp: run_locked_def bindE_apply [of "\<lambda>w. (_ w, w)"] rn(1) dest: tripleD_Inr split: if_splits)
  qed
qed

lemma run_sound:
  assumes rn: "rn_store rn = ops" "runner_keeps inv rn" and start: "startable spec w"
    and eq: "run rn spec context w = (Inr out, w')"
  shows "\<exists>s. durable w' (sp_task_id spec) = Some s \<and> sound spec s \<and> ro_status out = st_status s \<and>
           ro_completed_steps out = st_completed_steps s \<and>
           st_status s \<in> {PStr ''completed'', PStr ''blocked'', PStr ''failed''}"
proof -
  obtain u w1 r w2 where valid: "TaskSpec_validate spec = Inr ()"
    and lock: "so_lock ops (sp_task_id spec) w = (Inr u, w1)"
    and body: "run_locked rn spec context w1 = (Inr out, w2)"
    and w': "w' = so_unlock ops (sp_task_id spec) w2"
    using eq by (auto simp: run_def TaskSpec_roundtrip bindE_apply bindR_eq_Inr rn(1)
        split: sum.splits prod.splits)
  have "startable spec w1"
    using start lock_durable [OF _ lock] by (auto simp: startable_def split: option.splits)
  from run_locked_sound [OF rn valid this body] obtain s where s: "at s w2" "sound spec s"
    "ro_status out = st_status s" "ro_completed_steps out = st_completed_steps s"
    "st_status s \<in> {PStr ''completed'', PStr ''blocked'', PStr ''failed''}"
    by (auto simp: run_post_def)
  then have "durable w' (sp_task_id spec) = Some s"
    using unlock_durable [of w2] by (auto simp: w' at_def sound_def)
  with s show ?thesis by blast
qed

end

end
