(* ===== verification/Runner_Guard.thy ===== *)
theory Runner_Guard
  imports Runner_Safety
begin

text \<open>
  The write-ahead discipline of the runner: an action, or a verification, is invoked only in a
  world whose durable state already says that the task is running and that this step has a
  started, unfinished attempt. It is stated by replacing every action by one that first looks
  at the durable state of the task and step named in its context, and ends the process when
  the attempt is not recorded there: no run can tell the difference.
\<close>

section \<open>Agreement of programs on the worlds they are run in\<close>

definition agree :: "('w \<Rightarrow> bool) \<Rightarrow> ('w, 'a) eff \<Rightarrow> ('w, 'a) eff \<Rightarrow> bool" where
  "agree P m n \<longleftrightarrow> (\<forall>w. P w \<longrightarrow> m w = n w)"

lemma agree_refl [simp]: "agree P m m"
  by (simp add: agree_def)

lemma agreeD: "agree P m n \<Longrightarrow> P w \<Longrightarrow> m w = n w"
  by (simp add: agree_def)

lemma agree_pre: "agree P' m n \<Longrightarrow> (\<And>w. P w \<Longrightarrow> P' w) \<Longrightarrow> agree P m n"
  by (simp add: agree_def)

lemma agree_pure: "(A \<Longrightarrow> agree P m n) \<Longrightarrow> agree (\<lambda>w. P w \<and> A) m n"
  by (auto simp: agree_def)

lemma agree_bind:
  assumes "agree P m n" and "triple P n R (\<lambda>_ _. True)" and "\<And>x. agree (R x) (f x) (g x)"
  shows "agree P (bindE m f) (bindE n g)"
  unfolding agree_def
proof (intro allI impI)
  fix w
  assume w: "P w"
  obtain r w' where n: "n w = (r, w')" by fastforce
  show "bindE m f w = bindE n g w"
  proof (cases r)
    case (Inr x)
    then have "R x w'" using tripleD_Inr [OF assms(2) w] n by simp
    then show ?thesis using agreeD [OF assms(1) w] agreeD [OF assms(3)] n Inr by (simp add: bindE_apply)
  qed (use agreeD [OF assms(1) w] n in \<open>simp add: bindE_apply\<close>)
qed

lemmas agree_same = agree_bind [OF agree_refl]

lemma agree_if:
  assumes "c \<Longrightarrow> agree P m n" and "\<not> c \<Longrightarrow> agree P m' n'"
  shows "agree P (if c then m else m') (if c then n else n')"
  using assms by simp

section \<open>Guarded actions\<close>

definition attempt_recorded :: "(string \<Rightarrow> task_state option) \<Rightarrow> pydict \<Rightarrow> bool" where
  "attempt_recorded states ctx =
     (case (dict_get ctx ''task_id'', dict_get ctx ''step_id'') of
        (PStr tid, PStr sid) \<Rightarrow>
          (case states tid of
             None \<Rightarrow> False
           | Some st \<Rightarrow> st_status st = PStr ''running'' \<and> 1 \<le> attempt_count st sid \<and>
                        PStr sid \<notin> set (st_completed_steps st))
      | _ \<Rightarrow> False)"

definition guard_action :: "('w \<Rightarrow> string \<Rightarrow> task_state option) \<Rightarrow> 'w action \<Rightarrow> 'w action" where
  "guard_action states act = (\<lambda>args ctx w.
     if attempt_recorded (states w) ctx then act args ctx w
     else (Inl (Exc SystemExit ''attempt not recorded''), w))"

definition guard_runner :: "('w \<Rightarrow> string \<Rightarrow> task_state option) \<Rightarrow> 'w runner \<Rightarrow> 'w runner" where
  "guard_runner states rn = rn\<lparr>rn_actions := map (\<lambda>(n, a). (n, guard_action states a)) (rn_actions rn)\<rparr>"

lemma guard_runner_simps [simp]:
  "rn_store (guard_runner d rn) = rn_store rn" "rn_sink (guard_runner d rn) = rn_sink rn"
  "map_of (rn_actions (guard_runner d rn)) n = map_option (guard_action d) (map_of (rn_actions rn) n)"
  by (simp_all add: guard_runner_def map_of_map)

lemma guard_runner_ops [simp]:
  "save_state (guard_runner d rn) = save_state rn" "block (guard_runner d rn) = block rn"
  "fail_task (guard_runner d rn) = fail_task rn" "emit_diagnostic (guard_runner d rn) = emit_diagnostic rn"
  "finish_run (guard_runner d rn) = finish_run rn" "complete_step (guard_runner d rn) = complete_step rn"
  by (simp_all add: fun_eq_iff save_state_def block_def fail_task_def emit_diagnostic_def
      finish_run_def complete_step_def)

text \<open>The context an action gets names its task and its step.\<close>

definition names_step :: "task_spec \<Rightarrow> step_spec \<Rightarrow> pydict \<Rightarrow> bool" where
  "names_step spec step ctx \<longleftrightarrow>
     dict_get ctx ''task_id'' = PStr (sp_task_id spec) \<and> dict_get ctx ''step_id'' = PStr (ss_step_id step)"

lemma step_context_names: "names_step spec step (step_context spec (base_context spec context) step)"
  by (simp add: names_step_def step_context_def base_context_def dict_get_def dict_update_map_of)

text \<open>A started, unfinished attempt.\<close>

definition started :: "task_spec \<Rightarrow> step_spec \<Rightarrow> task_state \<Rightarrow> bool" where
  "started spec step st \<longleftrightarrow> running spec st \<and> 1 \<le> attempt_count st (ss_step_id step) \<and>
     PStr (ss_step_id step) \<notin> set (st_completed_steps st)"

context task_store
begin

lemma guard_at:
  assumes "at st w" and "started spec step st" and "names_step spec step ctx"
  shows "guard_action durable act args ctx w = act args ctx w"
  using assms by (simp add: guard_action_def attempt_recorded_def names_step_def at_def started_def running_def)

lemma after_error_agree:
  assumes rn: "rn_store rn = ops" "runner_keeps inv rn"
    and again: "ss_retry_safe step \<Longrightarrow> attempt < ss_max_attempts step \<Longrightarrow> agree inv again again'"
  shows "agree inv (after_error (guard_runner durable rn) spec step st attempt e again)
                   (after_error rn spec step st attempt e again')"
  unfolding after_error_def guard_runner_ops guard_runner_simps
  by (intro agree_if agree_refl agree_same [OF emit_triple [OF rn(2)]]
      agree_same [OF event_triple_inv [OF rn(1)]] again) simp_all

lemma attempt_body_agree:
  assumes rn: "rn_store rn = ops" "runner_keeps inv rn" and act: "map_of (rn_actions rn) n = Some act"
    and st: "started spec step st" and ctx: "names_step spec step ctx"
    and err: "\<And>e. agree inv (after_error (guard_runner durable rn) spec step st attempt e (again e))
                          (after_error rn spec step st attempt e (again' e))"
  shows "agree (at st) (attempt_body (guard_runner durable rn) spec step (guard_action durable act) ctx st attempt again)
                       (attempt_body rn spec step act ctx st attempt again')"
  unfolding agree_def
proof (intro allI impI)
  fix w
  assume w: "at st w"
  obtain r w' where iv: "invoke_action act (ss_args step) ctx w = (r, w')" by fastforce
  have "inv w'" using invoke_inv(2) [OF rn(2) act, of w] w iv by (metis at_inv snd_conv)
  moreover have "invoke_action (guard_action durable act) (ss_args step) ctx w = (r, w')"
    using iv guard_at [OF w st ctx] by (simp add: invoke_plain)
  ultimately show "attempt_body (guard_runner durable rn) spec step (guard_action durable act) ctx st attempt again w =
      attempt_body rn spec step act ctx st attempt again' w"
    using iv agreeD [OF err] by (cases r) (simp_all add: attempt_body_def)
qed

lemma attempt_loop_agree:
  assumes rn: "rn_store rn = ops" "runner_keeps inv rn" and act: "map_of (rn_actions rn) n = Some act"
    and ctx: "names_step spec step ctx"
    and st: "running spec st" "0 \<le> attempt_count st (ss_step_id step)"
      "PStr (ss_step_id step) \<notin> set (st_completed_steps st)"
  shows "agree inv (attempt_loop (guard_runner durable rn) spec step (guard_action durable act) ctx st)
                   (attempt_loop rn spec step act ctx st)"
  using st
proof (induction st rule: attempt_induct [where step = step])
  case (Round st)
  let ?b = "begin_attempt st (ss_step_id step)"
  have s: "started spec step (touch now ?b)" for now
    using Round.prems by (simp add: started_def)
  have err: "agree inv (after_error (guard_runner durable rn) spec step (touch now ?b)
        (attempt_count st (ss_step_id step) + 1) e
        (attempt_loop (guard_runner durable rn) spec step (guard_action durable act) ctx (next_round step st now e)))
      (after_error rn spec step (touch now ?b) (attempt_count st (ss_step_id step) + 1) e
        (attempt_loop rn spec step act ctx (next_round step st now e)))" for now e
    using Round.prems by (intro after_error_agree [OF rn] Round.IH) simp_all
  show ?case
    unfolding attempt_loop_round [of _ spec step _ ctx st] guard_runner_simps
  proof (rule agree_same [OF so_save_triple [OF rn(1)]])
    show "st_schema_version ?b = STATE_SCHEMA_VERSION" using Round.prems by (simp add: running_def)
  qed (rule agree_same [OF event_triple [OF rn(1)]], rule attempt_body_agree [OF rn act s ctx err])
qed

lemma verify_step_agree:
  assumes rn: "rn_store rn = ops" "runner_keeps inv rn" and ctx: "names_step spec step ctx"
    and st: "started spec step st"
  shows "agree (at st) (verify_step (guard_runner durable rn) spec step ctx r st) (verify_step rn spec step ctx r st)"
  unfolding agree_def
proof (intro allI impI)
  fix w
  assume w: "at st w"
  show "verify_step (guard_runner durable rn) spec step ctx r st w = verify_step rn spec step ctx r st w"
    using guard_at [OF w st ctx]
    by (cases "ss_verify_action step") (auto simp: verify_step_def split: option.splits prod.splits sum.splits)
qed

lemma settle_step_agree:
  assumes rn: "rn_store rn = ops" "runner_keeps inv rn" and ctx: "names_step spec step ctx"
    and st: "started spec step st"
  shows "agree inv (settle_step (guard_runner durable rn) spec step ctx r st) (settle_step rn spec step ctx r st)"
  unfolding settle_step_def guard_runner_ops
proof (rule agree_same)
  show "triple inv (liftE (apply_artifact_updates st (rs_artifacts r)))
      (\<lambda>s1 w. inv w \<and> (\<exists>arts. s1 = st\<lparr>st_artifacts := arts\<rparr>)) (\<lambda>_ _. True)"
    by (rule triple_lift) (auto dest: apply_artifact_updates_control)
next
  fix s1
  let ?go = "\<lambda>rn. bindE (save_state rn s1) (\<lambda>s2. bindE (verify_step rn spec step ctx r s2) (\<lambda>v.
         case v of Inl st' \<Rightarrow> retE (Inl st')
         | Inr _ \<Rightarrow> bindE (complete_step rn spec step r s2) (\<lambda>st'. retE (Inr st'))))"
  show "agree (\<lambda>w. inv w \<and> (\<exists>arts. s1 = st\<lparr>st_artifacts := arts\<rparr>))
     (bindE (save_state rn s1) (\<lambda>s2. bindE (verify_step (guard_runner durable rn) spec step ctx r s2) (\<lambda>v.
         case v of Inl st' \<Rightarrow> retE (Inl st')
         | Inr _ \<Rightarrow> bindE (complete_step rn spec step r s2) (\<lambda>st'. retE (Inr st'))))) (?go rn)"
  proof (rule agree_pure)
    assume "\<exists>arts. s1 = st\<lparr>st_artifacts := arts\<rparr>"
    with st have s1: "started spec step s1" by (auto simp: started_def)
    then have sch: "st_schema_version s1 = STATE_SCHEMA_VERSION" by (simp add: started_def running_def)
    have v: "agree (at s2) (bindE (verify_step (guard_runner durable rn) spec step ctx r s2) f)
        (bindE (verify_step rn spec step ctx r s2) f)" if "\<exists>now. s2 = touch now s1" for s2 f
      using that s1 by (intro agree_bind [OF verify_step_agree [OF rn ctx] verify_step_triple [OF rn] agree_refl])
        (auto simp: started_def)
    show "agree inv (bindE (save_state rn s1) (\<lambda>s2. bindE (verify_step (guard_runner durable rn) spec step ctx r s2) (\<lambda>v.
         case v of Inl st' \<Rightarrow> retE (Inl st')
         | Inr _ \<Rightarrow> bindE (complete_step rn spec step r s2) (\<lambda>st'. retE (Inr st'))))) (?go rn)"
      by (rule agree_same [OF save_triple [OF rn(1) sch]], rule agree_pure) (rule v)
  qed
qed

lemma run_step_agree:
  assumes rn: "rn_store rn = ops" "runner_keeps inv rn"
    and st: "running spec st" "0 \<le> attempt_count st (ss_step_id step)"
      "PStr (ss_step_id step) \<notin> set (st_completed_steps st)"
  shows "agree inv (run_step (guard_runner durable rn) spec (base_context spec context) step st)
                   (run_step rn spec (base_context spec context) step st)"
proof (cases "map_of (rn_actions rn) (ss_action step)")
  case None
  then show ?thesis by (simp add: run_step_def)
next
  case (Some act)
  let ?ctx = "step_context spec (base_context spec context) step"
  have settle: "agree (loop_post spec step st out)
      (case out of Stop s \<Rightarrow> retE (Inl s) | Got r s \<Rightarrow> settle_step (guard_runner durable rn) spec step ?ctx r s)
      (case out of Stop s \<Rightarrow> retE (Inl s) | Got r s \<Rightarrow> settle_step rn spec step ?ctx r s)" for out
  proof (cases out)
    case (Got r s)
    have "agree (\<lambda>w. inv w \<and> started spec step s) (settle_step (guard_runner durable rn) spec step ?ctx r s)
        (settle_step rn spec step ?ctx r s)"
      by (rule agree_pure) (rule settle_step_agree [OF rn step_context_names])
    then show ?thesis
      using Got st by (auto simp: loop_post_def started_def counted_def elim!: agree_pre)
  qed simp
  show ?thesis
    using Some by (simp add: run_step_def)
      (rule agree_bind [OF attempt_loop_agree [OF rn Some step_context_names st]
          attempt_loop_triple [OF rn Some st(1)] settle])
qed

lemma run_steps_agree:
  assumes rn: "rn_store rn = ops" "runner_keeps inv rn" and valid: "TaskSpec_validate spec = Inr ()"
    and st: "running spec st" "resolved st" "bounded spec st" and steps: "set steps \<subseteq> set (sp_steps spec)"
  shows "agree inv (run_steps (guard_runner durable rn) spec (base_context spec context) steps st ex sk)
                   (run_steps rn spec (base_context spec context) steps st ex sk)"
  using st steps
proof (induction steps arbitrary: st ex sk)
  case Nil
  then show ?case by simp
next
  case (Cons step steps)
  show ?case
  proof (cases "PStr (ss_step_id step) \<in> set (st_completed_steps st)")
    case True
    with Cons show ?thesis by (auto intro!: agree_same [OF event_triple_inv [OF rn(1)]])
  next
    case False
    have mem: "step \<in> set (sp_steps spec)" "distinct (map ss_step_id (sp_steps spec))" "1 \<le> ss_max_attempts step"
      "0 \<le> attempt_count st (ss_step_id step)"
      using valid Cons.prems by (auto simp: TaskSpec_validate_ok list_all_iff step_valid_def bounded_def)
    note one = run_step_triple [OF rn Cons.prems(1,2,3) False mem(1,2,3)]
    have rest: "agree (step_post spec step st r)
       (case r of Inl s \<Rightarrow> retE (outcome s ex sk)
        | Inr s \<Rightarrow> run_steps (guard_runner durable rn) spec (base_context spec context) steps s (ex @ [ss_step_id step]) sk)
       (case r of Inl s \<Rightarrow> retE (outcome s ex sk)
        | Inr s \<Rightarrow> run_steps rn spec (base_context spec context) steps s (ex @ [ss_step_id step]) sk)" for r
    proof (cases r)
      case (Inr s)
      have "agree (\<lambda>w. inv w \<and> (running spec s \<and> resolved s \<and> bounded spec s))
         (run_steps (guard_runner durable rn) spec (base_context spec context) steps s (ex @ [ss_step_id step]) sk)
         (run_steps rn spec (base_context spec context) steps s (ex @ [ss_step_id step]) sk)"
        using Cons.prems by (intro agree_pure Cons.IH) auto
      with Inr show ?thesis by (auto simp: step_post_def elim!: agree_pre)
    qed simp
    from False show ?thesis
      by (simp add: agree_bind [OF run_step_agree [OF rn Cons.prems(1) mem(4) False] one rest])
  qed
qed

lemma run_bound_agree:
  assumes rn: "rn_store rn = ops" "runner_keeps inv rn" and valid: "TaskSpec_validate spec = Inr ()"
    and st: "sound spec st" "st_schema_version st = STATE_SCHEMA_VERSION"
  shows "agree inv (run_bound (guard_runner durable rn) spec context st) (run_bound rn spec context st)"
proof -
  let ?run = "st\<lparr>st_status := PStr ''running'', st_blocked_reason := PNone, st_last_error := PNone\<rparr>"
  have go: "agree inv (run_steps (guard_runner durable rn) spec (base_context spec context) (sp_steps spec) s [] [])
      (run_steps rn spec (base_context spec context) (sp_steps spec) s [] [])"
    if "unresolved_steps st = []" "\<exists>now. s = touch now ?run" for s
    using st unresolved_steps_Nil [OF that(1)] that(2) bounded_cong [of ?run st spec]
    by (intro run_steps_agree [OF rn valid]) (auto simp: running_def sound_def resolved_def bounded_def)
  have sch: "st_schema_version ?run = STATE_SCHEMA_VERSION" using st(2) by simp
  have body: "agree inv
      (bindE (save_state rn ?run) (\<lambda>s. bindE (so_event (rn_store rn) (sp_task_id spec) None ''task_started'' (sp_title spec) [])
        (\<lambda>_. run_steps (guard_runner durable rn) spec (base_context spec context) (sp_steps spec) s [] [])))
      (bindE (save_state rn ?run) (\<lambda>s. bindE (so_event (rn_store rn) (sp_task_id spec) None ''task_started'' (sp_title spec) [])
        (\<lambda>_. run_steps rn spec (base_context spec context) (sp_steps spec) s [] [])))"
    if "unresolved_steps st = []"
    by (rule agree_same [OF save_triple [OF rn(1) sch]], rule agree_pure, rule agree_pre [where P' = inv],
        rule agree_same [OF event_triple_inv [OF rn(1)]], rule go [OF that]) auto
  show ?thesis
    unfolding run_bound_def guard_runner_ops guard_runner_simps
  proof (rule agree_same [where R = "\<lambda>_. inv"])
    show "triple inv (liftE (in_str_set (st_status st) TERMINAL)) (\<lambda>_. inv) (\<lambda>_ _. True)"
      by (rule triple_lift) auto
  qed (intro agree_if agree_refl body, simp)
qed

lemma run_guarded:
  assumes rn: "rn_store rn = ops" "runner_keeps inv rn" and start: "startable spec w"
  shows "run (guard_runner durable rn) spec context w = run rn spec context w"
proof (cases "TaskSpec_validate spec")
  case (Inl e)
  then show ?thesis by (simp add: run_def TaskSpec_roundtrip)
next
  case (Inr u)
  then have valid: "TaskSpec_validate spec = Inr ()" by simp
  have locked: "run_locked (guard_runner durable rn) spec context w = run_locked rn spec context w"
    if st: "startable spec w" for w
  proof -
    from st have inv: "inv w" by (simp add: startable_def)
    show ?thesis
    proof (cases "so_load ops (sp_task_id spec) w")
      case (Inl e)
      then show ?thesis by (simp add: run_locked_def bindE_apply rn(1) split: sum.splits)
    next
      case (Inr s)
      show ?thesis
      proof (cases "so_exists ops (sp_task_id spec) w")
        case (Inl e)
        then show ?thesis by (simp add: run_locked_def bindE_apply rn(1))
      next
        case ex: (Inr existed)
        let ?s = "s\<lparr>st_spec_fingerprint := PStr (fingerprint spec)\<rparr>"
        have old: "run_bound (guard_runner durable rn) spec context s w = run_bound rn spec context s w" if existed
        proof -
          from that st ex obtain s' where "durable w (sp_task_id spec) = Some s'" "sound spec s'"
            by (auto simp: startable_def split: option.splits)
          then have "sound spec s" using load_durable [OF inv] Inr by auto
          moreover have "st_schema_version s = STATE_SCHEMA_VERSION"
            using load_existing [OF inv _ Inr] ex that by simp
          ultimately show ?thesis using agreeD [OF run_bound_agree [OF rn valid] inv] by simp
        qed
        have new: "bindE (save_state rn ?s) (run_bound (guard_runner durable rn) spec context) w =
            bindE (save_state rn ?s) (run_bound rn spec context) w" if "\<not> existed"
        proof -
          from that ex obtain now where s: "s = TaskState_new now (sp_task_id spec)"
            using load_not_existing [OF inv _ Inr] by auto
          have snd: "sound spec (touch t ?s)" for t
            using sound_new [OF valid, of now] by (simp add: sound_def s bounded_def attempt_count_def)
          have sch: "st_schema_version ?s = STATE_SCHEMA_VERSION" by (simp add: s TaskState_new_def)
          have "agree inv (bindE (save_state rn ?s) (run_bound (guard_runner durable rn) spec context))
              (bindE (save_state rn ?s) (run_bound rn spec context))"
            by (rule agree_same [OF save_triple [OF rn(1) sch]], rule agree_pure, rule agree_pre [where P' = inv])
              (use snd sch in \<open>auto intro!: run_bound_agree [OF rn valid]\<close>)
          with inv show ?thesis by (rule agreeD [rotated])
        qed
        from old new show ?thesis
          by (simp add: run_locked_def bindE_apply [of "\<lambda>w. (_ w, w)"] rn(1) Inr ex)
      qed
    qed
  qed
  have "startable spec w1" if "so_lock ops (sp_task_id spec) w = (Inr u1, w1)" for u1 w1
    using start lock_durable [OF _ that] by (auto simp: startable_def split: option.splits)
  then show ?thesis
    by (auto simp: run_def TaskSpec_roundtrip valid bindE_apply rn(1) locked split: sum.splits prod.splits)
qed

end

end
