(* ===== verification/Runner_Results.thy ===== *)
theory Runner_Results
  imports Runner_Guard
begin

text \<open>
  The runner on \<open>FileStateStore\<close>: the facts of \<open>Runner_Safety\<close> and \<open>Runner_Guard\<close> on the model's own
  store, what a resume of a finished or interrupted task does, and reconciliation, the
  only operation that takes a task out of the \<open>blocked\<close> status.
\<close>

section \<open>Worlds a run starts in\<close>

text \<open>
  The task has no state file, or its file holds a state that is sound for the specification.
\<close>

definition fs_startable :: "task_spec \<Rightarrow> 'x file_store_scheme \<Rightarrow> bool" where
  "fs_startable spec w \<longleftrightarrow> fs_inv w \<and>
     (case fs_durable w (sp_task_id spec) of
        None \<Rightarrow> fs_states w (sp_task_id spec) = None
      | Some st \<Rightarrow> sound spec st)"

lemma fs_ops_sel [simp]:
  "so_lock fs_ops = fs_lock" "so_unlock fs_ops = fs_unlock" "so_exists fs_ops = fs_exists"
  "so_load fs_ops = fs_load_state" "so_save fs_ops = fs_save_state" "so_event fs_ops = fs_append_event"
  by (simp_all add: fs_ops_def)

lemma fs_startable: "fs_startable spec w \<Longrightarrow> fs.startable spec w"
  by (auto simp: fs_startable_def fs.startable_def fs_exists_def bindR_eq_Inr split: option.splits)

section \<open>The shape of a resumed run\<close>

lemma fs_unlock_lock [simp]: "fs_unlock t (w\<lparr>fs_locks := t # ls\<rparr>) = w\<lparr>fs_locks := ls\<rparr>"
  by (simp add: fs_unlock_def)

text \<open>A run whose task has a durable state bound to the same specification.\<close>

lemma run_resume:
  assumes "rn_store rn = fs_ops" and "TaskSpec_validate spec = Inr ()"
    and "sp_task_id spec \<notin> set (fs_locks w)" and dur: "fs_durable w (sp_task_id spec) = Some st"
    and "st_spec_fingerprint st = PStr (fingerprint spec)"
  shows "run rn spec context w =
     (let (r, w') = run_bound rn spec context st (w\<lparr>fs_locks := sp_task_id spec # fs_locks w\<rparr>)
      in (r, fs_unlock (sp_task_id spec) w'))"
proof -
  let ?w = "w\<lparr>fs_locks := sp_task_id spec # fs_locks w\<rparr>"
  have d: "fs_durable ?w (sp_task_id spec) = Some st"
    using dur fs_durable_cong [of ?w w] by simp
  have safe: "safe_id (sp_task_id spec)" and tid: "st_task_id st = sp_task_id spec"
    using dur by (auto elim: fs_durable_SomeD)
  have "fs_exists (sp_task_id spec) ?w = Inr True"
    using d safe by (auto simp: fs_exists_def safe_task_id_def elim!: fs_durable_SomeD)
  moreover have "fs_lock (sp_task_id spec) w = (Inr (), ?w)"
    using assms(3) safe by (simp add: fs_lock_def safe_task_id_def)
  ultimately show ?thesis
    using assms(2,5) tid fs_load_durable [OF d]
    by (simp add: run_def TaskSpec_roundtrip bindE_apply assms(1) run_locked_def)
qed

lemma fs_append_event_returns:
  "safe_id tid \<Longrightarrow> \<exists>w'. fs_append_event tid sid ty msg data w = (Inr (), w') \<and>
     fs_states w' = fs_states w \<and> fs_locks w' = fs_locks w"
  by (simp add: fs_append_event_def bindE_apply utc_now_iso_def safe_task_id_def)

lemma fs_save_state_returns:
  "safe_id (st_task_id st) \<Longrightarrow> \<exists>now w'. fs_save_state st w = (Inr now, w')"
  by (simp add: fs_save_state_eq)

lemma block_returns:
  assumes "rn_store rn = fs_ops" and "safe_id (st_task_id st)" and "fs_inv w"
    and "st_schema_version st = STATE_SCHEMA_VERSION"
  shows "\<exists>st' w'. block rn st reason step err w = (Inr st', w') \<and> fs_durable w' (st_task_id st) = Some st' \<and>
    (\<exists>now. st' = touch now (st\<lparr>st_status := PStr ''blocked'', st_blocked_reason := PStr reason,
                            st_last_error := opt_str err\<rparr>))"
proof -
  let ?st = "st\<lparr>st_status := PStr ''blocked'', st_blocked_reason := PStr reason, st_last_error := opt_str err\<rparr>"
  obtain now w1 where sv: "fs_save_state ?st w = (Inr now, w1)"
    using fs_save_state_returns [of ?st] assms(2) by fastforce
  obtain w2 where ev: "fs_append_event (st_task_id st) (map_option ss_step_id step) ''task_blocked'' reason
      (case err of None \<Rightarrow> [] | Some x \<Rightarrow> if x = [] then [] else [(''error'', PStr x)]) w1 = (Inr (), w2)"
    and same: "fs_states w2 = fs_states w1"
    using fs_append_event_returns [OF assms(2)] by blast
  have "fs_durable w2 (st_task_id st) = Some (touch now ?st)"
    using fs_durable_save [OF assms(3) _ sv] assms(4) fs_durable_cong [OF same] by simp
  then show ?thesis
    using sv ev by (auto simp: block_def save_state_def bindE_apply assms(1))
qed

section \<open>Terminal and interrupted tasks\<close>

text \<open>A terminal status, or an attempt that was started and never finished.\<close>

definition at_rest :: "task_state \<Rightarrow> bool" where
  "at_rest st \<longleftrightarrow> st_status st \<in> {PStr ''completed'', PStr ''blocked'', PStr ''failed''} \<or> unresolved_steps st \<noteq> []"

lemma in_TERMINAL_iff:
  "v \<in> {PStr ''completed'', PStr ''blocked'', PStr ''failed''} \<Longrightarrow> in_str_set v TERMINAL = Inr True"
  by (auto simp: TERMINAL_def)

lemma run_bound_at_rest:
  assumes "at_rest st"
  shows "run_bound (rn\<lparr>rn_actions := acts, rn_sink := sink\<rparr>) spec context st = run_bound rn spec context st"
proof -
  have blk: "block (rn\<lparr>rn_actions := acts, rn_sink := sink\<rparr>) = block rn"
    by (simp add: fun_eq_iff block_def save_state_def)
  show ?thesis
  proof (cases "in_str_set (st_status st) TERMINAL")
    case (Inr b)
    show ?thesis
    proof (cases b)
      case False
      then have "unresolved_steps st \<noteq> []"
        using assms in_TERMINAL [OF Inr] by (simp add: at_rest_def)
      with Inr False show ?thesis by (simp add: run_bound_def blk)
    qed (simp add: run_bound_def Inr)
  qed (simp add: run_bound_def)
qed

text \<open>What a run of an interrupted task leaves: a terminal state as it was, any other one blocked.\<close>

definition put_to_rest :: "task_state \<Rightarrow> task_state \<Rightarrow> bool" where
  "put_to_rest st st' \<longleftrightarrow> st_attempts st' = st_attempts st \<and> st_completed_steps st' = st_completed_steps st \<and>
     (if st_status st \<in> PStr ` set TERMINAL then st' = st
      else st_status st' = PStr ''blocked'' \<and> st_blocked_reason st' =
        PStr (''interrupted_step_requires_reconciliation:'' @ join '','' (unresolved_steps st)))"

lemma run_bound_interrupted:
  assumes "rn_store rn = fs_ops" and "fs_inv w" and dur: "fs_durable w (sp_task_id spec) = Some st"
    and "st_status st = PStr s" and "unresolved_steps st \<noteq> []"
  shows "\<exists>st' w'. run_bound rn spec context st w = (Inr (outcome st' [] []), w') \<and>
     fs_durable w' (sp_task_id spec) = Some st' \<and> put_to_rest st st'"
proof -
  have safe: "safe_id (sp_task_id spec)" and tid: "st_task_id st = sp_task_id spec"
    and sch: "st_schema_version st = STATE_SCHEMA_VERSION"
    using dur fs_load_schema [OF fs_load_durable [OF dur]] by (auto elim: fs_durable_SomeD)
  show ?thesis
  proof (cases "s \<in> set TERMINAL")
    case True
    obtain w' where "fs_append_event (sp_task_id spec) None ''terminal_resume_skipped''
        (''task already '' @ s @ ''; no action repeated'') [] w = (Inr (), w')" and same: "fs_states w' = fs_states w"
      using fs_append_event_returns [OF safe] by blast
    moreover have "in_str_set (PStr s) TERMINAL = Inr True"
      using True by (simp add: TERMINAL_def)
    ultimately have "run_bound rn spec context st w = (Inr (outcome st [] []), w')"
      using assms(4) by (simp add: run_bound_def bindE_apply assms(1))
    moreover have "fs_durable w' (sp_task_id spec) = Some st" using dur fs_durable_cong [OF same] by simp
    moreover have "put_to_rest st st" using True assms(4) by (simp add: put_to_rest_def)
    ultimately show ?thesis by blast
  next
    case False
    let ?reason = "''interrupted_step_requires_reconciliation:'' @ join '','' (unresolved_steps st)"
    obtain st' w' where b: "block rn st ?reason None None w = (Inr st', w')"
      and d: "fs_durable w' (sp_task_id spec) = Some st'"
      and st': "\<exists>now. st' = touch now (st\<lparr>st_status := PStr ''blocked'', st_blocked_reason := PStr ?reason,
                            st_last_error := opt_str None\<rparr>)"
      using block_returns [OF assms(1) _ assms(2) sch] safe tid by metis
    have "in_str_set (PStr s) TERMINAL = Inr False"
      using False by (simp add: TERMINAL_def)
    then have "run_bound rn spec context st w = (Inr (outcome st' [] []), w')"
      using assms(4,5) b by (simp add: run_bound_def bindE_apply)
    moreover have "put_to_rest st st'"
      using st' False assms(4) by (auto simp: put_to_rest_def)
    ultimately show ?thesis using d by blast
  qed
qed

section \<open>Reconciliation\<close>

lemma fs_load_state_locks [simp]: "fs_load_state tid (w\<lparr>fs_locks := ls\<rparr>) = fs_load_state tid w"
proof -
  have "fs_states (w\<lparr>fs_locks := ls\<rparr>) = fs_states w" "fs_clock (w\<lparr>fs_locks := ls\<rparr>) = fs_clock w"
    "fs_tick (w\<lparr>fs_locks := ls\<rparr>) = fs_tick w"
    by simp_all
  then show ?thesis unfolding fs_load_state_def by (simp only:)
qed

lemma reconcile_resolve_schema [simp]:
  "st_schema_version (reconcile_resolve r sid st) = st_schema_version st"
  "st_task_id (reconcile_resolve r sid st) = st_task_id st"
  by (simp_all add: reconcile_resolve_def)

lemma reconcile_locked_cases:
  assumes "reconcile_blocked_step_locked tid sid resolution note updates w = (r, w')"
  shows "(\<exists>e. r = Inl e \<and> fs_states w' = fs_states w) \<or>
    (\<exists>st st1 now t w1 u. r = Inr (touch t (reconcile_resolve resolution sid (st1\<lparr>st_reconciliations :=
          st_reconciliations st1 @ [reconcile_record now sid resolution note st1]\<rparr>))) \<and>
       fs_load_state tid w = Inr st \<and> st_status st = PStr ''blocked'' \<and>
       apply_artifact_updates st updates = Inr st1 \<and>
       fs_save_state (reconcile_resolve resolution sid (st1\<lparr>st_reconciliations :=
          st_reconciliations st1 @ [reconcile_record now sid resolution note st1]\<rparr>))
          (w\<lparr>fs_tick := Suc (fs_tick w)\<rparr>) = (Inr t, w1) \<and>
       fs_append_event tid (Some sid) ''step_reconciled'' resolution [(''note'', PStr note)] w1 = (Inr u, w') \<and>
       resolution \<in> {''not_applied'', ''applied_and_verified'', ''needs_manual_action''})"
proof (cases r)
  case (Inl e)
  show ?thesis
  proof (cases "fs_load_state tid w")
    case (Inr st)
    then have safe: "safe_id tid" and tid: "st_task_id st = tid"
      using fs_load_schema by (auto simp: fs_load_state_def bindR_eq_Inr)
    have "safe_id (st_task_id (reconcile_resolve a b (st1\<lparr>st_reconciliations := c\<rparr>)))"
      if "apply_artifact_updates st updates = Inr st1" for st1 a b c
      using apply_artifact_updates_control [OF that] safe tid by auto
    then show ?thesis
      using assms Inl Inr safe
      by (auto simp: reconcile_blocked_step_locked_def bindE_apply utc_now_iso_def Let_def fs_save_state_def
          fs_append_event_def safe_task_id_def split: if_splits sum.splits prod.splits)
  qed (use assms Inl in \<open>auto simp: reconcile_blocked_step_locked_def bindE_apply split: if_splits\<close>)
next
  case (Inr s)
  then obtain st st1 t w1 u where "fs_load_state tid w = Inr st" "py_eq (st_status st) (PStr ''blocked'')"
    "apply_artifact_updates st updates = Inr st1"
    "fs_save_state (reconcile_resolve resolution sid (st1\<lparr>st_reconciliations := st_reconciliations st1 @
        [reconcile_record (fs_clock w (fs_tick w)) sid resolution note st1]\<rparr>)) (w\<lparr>fs_tick := Suc (fs_tick w)\<rparr>) = (Inr t, w1)"
    "fs_append_event tid (Some sid) ''step_reconciled'' resolution [(''note'', PStr note)] w1 = (Inr u, w')"
    "s = touch t (reconcile_resolve resolution sid (st1\<lparr>st_reconciliations := st_reconciliations st1 @
        [reconcile_record (fs_clock w (fs_tick w)) sid resolution note st1]\<rparr>))"
    "resolution \<in> {''not_applied'', ''applied_and_verified'', ''needs_manual_action''}"
    using assms
    by (auto simp: reconcile_blocked_step_locked_def bindE_eq_Inr utc_now_iso_def Let_def split: if_splits)
  moreover from this(2) have "st_status st = PStr ''blocked''" by (cases "st_status st") auto
  ultimately show ?thesis using Inr by blast
qed

lemma reconcile_effect:
  assumes inv: "fs_inv w" and eq: "reconcile_blocked_step tid sid resolution note updates w = (Inr st', w')"
  obtains st arts now t where "fs_load_state tid w = Inr st" and "st_status st = PStr ''blocked''"
    and "resolution \<in> {''not_applied'', ''applied_and_verified'', ''needs_manual_action''}"
    and "st' = touch t (reconcile_resolve resolution sid (st\<lparr>st_artifacts := arts, st_reconciliations :=
           st_reconciliations st @ [reconcile_record now sid resolution note st]\<rparr>))"
    and "fs_durable w' tid = Some st'"
proof -
  from eq obtain w0 w1 where lock: "fs_lock tid w = (Inr (), w0)"
    and body: "reconcile_blocked_step_locked tid sid resolution note updates w0 = (Inr st', w1)"
    and w': "w' = fs_unlock tid w1"
    by (auto simp: reconcile_blocked_step_def bindE_eq_Inr Let_def case_prod_unfold) (metis prod.collapse)
  have w0: "fs_load_state tid w0 = fs_load_state tid w" "fs_inv w0"
    using lock inv by (auto simp: fs_lock_def fs_inv_def split: sum.splits if_splits)
  from reconcile_locked_cases [OF body] obtain st st1 now t w2 u where
    r: "st' = touch t (reconcile_resolve resolution sid (st1\<lparr>st_reconciliations :=
          st_reconciliations st1 @ [reconcile_record now sid resolution note st1]\<rparr>))"
    and ld: "fs_load_state tid w0 = Inr st" and bl: "st_status st = PStr ''blocked''"
    and arts: "apply_artifact_updates st updates = Inr st1"
    and sv: "fs_save_state (reconcile_resolve resolution sid (st1\<lparr>st_reconciliations :=
          st_reconciliations st1 @ [reconcile_record now sid resolution note st1]\<rparr>))
          (w0\<lparr>fs_tick := Suc (fs_tick w0)\<rparr>) = (Inr t, w2)"
    and ev: "fs_append_event tid (Some sid) ''step_reconciled'' resolution [(''note'', PStr note)] w2 = (Inr u, w1)"
    and res: "resolution \<in> {''not_applied'', ''applied_and_verified'', ''needs_manual_action''}"
    by blast
  from apply_artifact_updates_control [OF arts] obtain as where st1: "st1 = st\<lparr>st_artifacts := as\<rparr>" by blast
  have sch: "st_schema_version st = STATE_SCHEMA_VERSION" "st_task_id st = tid"
    using fs_load_schema [OF ld] by simp_all
  have "fs_durable w2 tid = Some st'"
    using fs_durable_save [OF _ _ sv] w0(2) sch by (simp add: fs_inv_def r st1)
  moreover have "fs_durable w' = fs_durable w2"
    using fs_append_event_eq [OF ev] by (intro fs_durable_cong) (auto simp: w' fs_unlock_def)
  ultimately have "fs_durable w' tid = Some st'" by simp
  moreover have "st' = touch t (reconcile_resolve resolution sid (st\<lparr>st_artifacts := as, st_reconciliations :=
           st_reconciliations st @ [reconcile_record now sid resolution note st]\<rparr>))"
    by (simp add: r st1 reconcile_record_def)
  ultimately show thesis using ld bl res w0(1) by (intro that) auto
qed

lemma unresolved_delete:
  "sid \<notin> set (unresolved_steps (st\<lparr>st_attempts := AList.delete sid as\<rparr>))"
  by (auto simp: set_unresolved_steps AList.delete_eq)

lemma unresolved_touch [simp]: "unresolved_steps (touch t st) = unresolved_steps st"
  by (simp add: unresolved_steps_def)

lemma unresolved_completed: "PStr sid \<in> set (st_completed_steps st) \<Longrightarrow> sid \<notin> set (unresolved_steps st)"
  by (auto simp: set_unresolved_steps)

section \<open>A run of one step\<close>

text \<open>A small task, a runner and a world, on which the properties below are exercised.\<close>

definition demo_step :: step_spec where
  "demo_step = \<lparr>ss_step_id = ''s1'', ss_action = ''fetch'', ss_args = [], ss_verify_action = None,
     ss_retry_safe = True, ss_max_attempts = 2\<rparr>"

definition demo_spec :: task_spec where
  "demo_spec = \<lparr>sp_task_id = ''t1'', sp_title = ''Demo'', sp_goal = ''Demo'',
     sp_allowed_actions = [''fetch''], sp_steps = [demo_step], sp_inputs = [],
     sp_completion_conditions = [''fetched''], sp_schema_version = TASK_SCHEMA_VERSION\<rparr>"

definition demo_runner :: "file_store runner" where
  "demo_runner = \<lparr>rn_store = fs_ops, rn_actions = [(''fetch'', \<lambda>args ctx w. (Inr AV_None, w))], rn_sink = None\<rparr>"

definition demo_world :: "(string \<Rightarrow> pyval option) \<Rightarrow> file_store" where
  "demo_world states = \<lparr>fs_states = states, fs_ledger = [], fs_locks = [], fs_clock = (\<lambda>_. ''now''), fs_tick = 0\<rparr>"

text \<open>The state a crash in the first attempt of the step leaves behind.\<close>

definition demo_crashed :: task_state where
  "demo_crashed = \<lparr>st_task_id = ''t1'', st_status = PStr ''running'', st_completed_steps = [],
     st_attempts = [(''s1'', 1)], st_blocked_reason = PNone, st_last_error = PNone, st_artifacts = [],
     st_reconciliations = [], st_updated_at = ''now'', st_schema_version = STATE_SCHEMA_VERSION,
     st_spec_fingerprint = PStr (fingerprint demo_spec)\<rparr>"

abbreviation demo_disk :: "task_state \<Rightarrow> file_store" where
  "demo_disk st \<equiv> demo_world [''t1'' \<mapsto> PDict (TaskState_to_dict st)]"

lemma demo_valid [simp]: "TaskSpec_validate demo_spec = Inr ()"
  by code_simp

lemma demo_safe [simp]: "safe_id ''t1''"
  by code_simp

lemma demo_fs [simp]: "rn_store demo_runner = fs_ops" "runner_keeps fs_inv demo_runner"
  "fs_inv (demo_world m)" "sp_task_id demo_spec = ''t1''" "fs_locks (demo_world m) = []"
  by (simp_all add: demo_runner_def runner_keeps_def demo_world_def fs_inv_def demo_spec_def)

lemma demo_durable [simp]:
  "fs_durable (demo_world (\<lambda>_. None)) t = None"
  "st_schema_version st = STATE_SCHEMA_VERSION \<Longrightarrow> st_updated_at st \<noteq> [] \<Longrightarrow> st_task_id st = ''t1'' \<Longrightarrow>
     fs_durable (demo_disk st) ''t1'' = Some st"
  by (simp_all add: fs_durable_def demo_world_def TaskState_roundtrip demo_safe del: ident_match.simps)

lemma demo_safe_task_id [simp]: "safe_task_id ''t1'' = Inr ''t1''"
  by (simp del: ident_match.simps)

lemma demo_spec_simps: "sp_steps demo_spec = [demo_step]" "sp_title demo_spec = ''Demo''"
  by (simp_all add: demo_spec_def)

lemmas fs_run_simps = bindE_apply fs_save_state_def utc_now_iso_def fs_append_event_def save_state_def

lemma demo_run_completes:
  "\<exists>out w'. run demo_runner demo_spec [] (demo_world (\<lambda>_. None)) = (Inr out, w') \<and>
     ro_status out = PStr ''completed'' \<and> ro_executed_steps out = [''s1'']"
  by (simp add: fs_run_simps run_def TaskSpec_roundtrip fs_lock_def run_locked_def fs_exists_def fs_load_state_def
      demo_world_def TaskState_new_def run_bound_def TERMINAL_def unresolved_steps_def demo_spec_simps)
    (simp add: fs_run_simps run_step_def demo_runner_def demo_step_def attempt_loop.simps begin_attempt_def
      attempt_count_def touch_def invoke_plain settle_step_def verify_step_def complete_step_def
      finish_run_def outcome_def demo_spec_def)

lemma demo_crashed_simps [simp]:
  "st_schema_version demo_crashed = STATE_SCHEMA_VERSION" "st_updated_at demo_crashed = ''now''"
  "st_task_id demo_crashed = ''t1''" "st_status demo_crashed = PStr ''running''"
  "st_spec_fingerprint demo_crashed = PStr (fingerprint demo_spec)" "unresolved_steps demo_crashed = [''s1'']"
  by (simp_all add: demo_crashed_def unresolved_steps_def)

definition demo_blocked :: task_state where
  "demo_blocked = demo_crashed\<lparr>st_status := PStr ''blocked''\<rparr>"

lemma demo_load:
  "st_schema_version st = STATE_SCHEMA_VERSION \<Longrightarrow> st_updated_at st \<noteq> [] \<Longrightarrow> st_task_id st = ''t1'' \<Longrightarrow>
     fs_load_state ''t1'' (demo_disk st) = Inr st"
  by (simp add: fs_load_durable)

lemma demo_texts: "\<not> blank ''s1''" "\<not> blank ''checked''"
  by code_simp+

lemma demo_reconcile:
  "\<exists>st w'. reconcile_blocked_step ''t1'' ''s1'' ''not_applied'' ''checked'' [] (demo_disk demo_blocked) = (Inr st, w')"
  by (simp add: reconcile_blocked_step_def bindE_apply fs_lock_def reconcile_blocked_step_locked_def demo_texts
      demo_load demo_blocked_def)
    (simp add: fs_run_simps Let_def reconcile_resolve_def)

lemma demo_reconcile_refused:
  "\<exists>w'. reconcile_blocked_step ''t1'' ''s1'' ''not_applied'' ''checked'' [] (demo_disk demo_crashed) =
     (Inl (Exc ValueError ''task_not_blocked''), w')"
  by (simp add: reconcile_blocked_step_def bindE_apply fs_lock_def reconcile_blocked_step_locked_def demo_texts
      demo_load)

section \<open>Properties\<close>

text \<open>C1. A run that returns leaves a durable state of the task in a terminal status, which is the
  status it reports. The status is \<open>completed\<close> only when every step of the specification is
  recorded as completed, and no step has more attempts than its \<open>max_attempts\<close>. The actions are
  arbitrary.\<close>

theorem run_leaves_sound_state:
  assumes "rn_store rn = fs_ops" and "runner_keeps fs_inv rn" and "fs_startable spec w"
    and "run rn spec context w = (Inr out, w')"
  shows "\<exists>st. fs_durable w' (sp_task_id spec) = Some st \<and> sound spec st \<and> ro_status out = st_status st \<and>
           ro_completed_steps out = st_completed_steps st \<and>
           st_status st \<in> {PStr ''completed'', PStr ''blocked'', PStr ''failed''}"
  using fs.run_sound [OF assms(1,2) fs_startable [OF assms(3)] assms(4)] .

lemma demo_startable: "fs_startable demo_spec (demo_world (\<lambda>_. None))"
  by (simp add: fs_startable_def, simp add: demo_world_def)

theorem run_leaves_sound_state_witness:
  "\<exists>out w' st. run demo_runner demo_spec [] (demo_world (\<lambda>_. None)) = (Inr out, w') \<and>
     ro_status out = PStr ''completed'' \<and> fs_durable w' ''t1'' = Some st \<and> st_status st = PStr ''completed'' \<and>
     PStr ''s1'' \<in> set (st_completed_steps st)"
proof -
  obtain out w' where eq: "run demo_runner demo_spec [] (demo_world (\<lambda>_. None)) = (Inr out, w')"
    and out: "ro_status out = PStr ''completed''"
    using demo_run_completes by blast
  from run_leaves_sound_state [OF demo_fs(1,2) demo_startable eq] obtain st where
    "fs_durable w' ''t1'' = Some st" "sound demo_spec st" "ro_status out = st_status st" by auto
  with eq out show ?thesis by (auto simp: sound_def demo_spec_simps demo_step_def)
qed

text \<open>C2. Write-ahead: every action and every verification is invoked in a world where the durable
  state of its task already says \<open>running\<close>, counts at least one attempt of its step and does not
  list the step as completed. Actions that end the process when this is not so behave the same.\<close>

theorem run_write_ahead:
  assumes "rn_store rn = fs_ops" and "runner_keeps fs_inv rn" and "fs_startable spec w"
  shows "run (guard_runner fs_durable rn) spec context w = run rn spec context w"
  using fs.run_guarded [OF assms(1,2) fs_startable [OF assms(3)]] .

theorem run_write_ahead_witness:
  "\<exists>out w'. run (guard_runner fs_durable demo_runner) demo_spec [] (demo_world (\<lambda>_. None)) = (Inr out, w') \<and>
     ro_status out = PStr ''completed'' \<and> ro_executed_steps out = [''s1'']"
  using demo_run_completes run_write_ahead [OF demo_fs(1,2) demo_startable, of "[]"] by simp

text \<open>C11. The text of an exception that is neither a \<open>BlockedAction\<close> nor a \<open>SafeActionError\<close> influences
  nothing: a run whose actions raise the same exceptions with the text dropped ends in the same
  world with the same outcome. So no such text reaches a state file, the ledger, a diagnostic
  event or the outcome.\<close>

theorem run_redacts_untrusted_exceptions: "run (redact_runner rn) spec context w = run rn spec context w"
  by (simp add: run_redact_runner)

text \<open>A task whose durable state is terminal, or has a started and unfinished attempt, is never
  acted on: the run is the same whatever the actions and the diagnostic sink are.\<close>

theorem run_at_rest_acts_on_nothing:
  assumes "rn_store rn = fs_ops" and "fs_durable w (sp_task_id spec) = Some st" and "at_rest st"
  shows "run (rn\<lparr>rn_actions := acts, rn_sink := sink\<rparr>) spec context w = run rn spec context w"
proof -
  have locked: "run_locked (rn\<lparr>rn_actions := acts, rn_sink := sink\<rparr>) spec context w' = run_locked rn spec context w'"
    if "fs_durable w' (sp_task_id spec) = Some st" for w'
  proof -
    have "fs_exists (sp_task_id spec) w' = Inr True"
      using that by (auto simp: fs_exists_def safe_task_id_def elim!: fs_durable_SomeD)
    with fs_load_durable [OF that] show ?thesis
      by (simp add: run_locked_def bindE_apply assms(1) run_bound_at_rest [OF assms(3)])
  qed
  have "fs_durable w' (sp_task_id spec) = Some st" if "fs_lock (sp_task_id spec) w = (Inr u, w')" for u w'
    using that assms(2) fs_durable_cong [of w' w] by (auto simp: fs_lock_def split: sum.splits if_splits)
  then show ?thesis
    by (cases "TaskSpec_validate spec")
      (auto simp: run_def TaskSpec_roundtrip bindE_apply assms(1) locked split: sum.splits prod.splits)
qed

theorem run_at_rest_acts_on_nothing_witness:
  "at_rest demo_crashed \<and>
   run (demo_runner\<lparr>rn_actions := [(''fetch'', \<lambda>args ctx w. (Inl (Exc SystemExit []), w))], rn_sink := None\<rparr>)
     demo_spec [] (demo_disk demo_crashed) = run demo_runner demo_spec [] (demo_disk demo_crashed)"
  using run_at_rest_acts_on_nothing [of demo_runner "demo_disk demo_crashed" demo_spec demo_crashed]
  by (simp add: at_rest_def)

text \<open>C6. A run that finds a durable state with an attempt that was started and never finished (a
  crash) executes nothing, whatever actions and diagnostic sink it is given: it returns the outcome
  of a state that is durable when it ends and has the attempts and completed steps of the one it
  found. A state that is terminal already stays as it is; any other one is blocked, with a reason
  that names the steps to reconcile.\<close>

theorem run_interrupted_blocks:
  assumes "rn_store rn = fs_ops" and "TaskSpec_validate spec = Inr ()" and "fs_inv w"
    and "sp_task_id spec \<notin> set (fs_locks w)"
    and "fs_durable w (sp_task_id spec) = Some st" and "st_spec_fingerprint st = PStr (fingerprint spec)"
    and "st_status st = PStr s" and "unresolved_steps st \<noteq> []"
  shows "\<exists>st' w'. fs_durable w' (sp_task_id spec) = Some st' \<and> put_to_rest st st' \<and>
     (\<forall>acts sink. run (rn\<lparr>rn_actions := acts, rn_sink := sink\<rparr>) spec context w = (Inr (outcome st' [] []), w'))"
proof -
  let ?w = "w\<lparr>fs_locks := sp_task_id spec # fs_locks w\<rparr>"
  have d: "fs_durable ?w (sp_task_id spec) = Some st"
    using assms(5) fs_durable_cong [of ?w w] by simp
  moreover have "fs_inv ?w" using assms(3) by (simp add: fs_inv_def)
  ultimately obtain st' w1 where r: "run_bound rn spec context st ?w = (Inr (outcome st' [] []), w1)"
    and d1: "fs_durable w1 (sp_task_id spec) = Some st'" and p: "put_to_rest st st'"
    using run_bound_interrupted [OF assms(1) _ _ assms(7,8)] by blast
  have "run rn spec context w = (Inr (outcome st' [] []), fs_unlock (sp_task_id spec) w1)"
    unfolding run_resume [OF assms(1,2,4,5,6)] by (simp add: r)
  moreover have "at_rest st" using assms(8) by (simp add: at_rest_def)
  ultimately have "run (rn\<lparr>rn_actions := acts, rn_sink := sink\<rparr>) spec context w =
      (Inr (outcome st' [] []), fs_unlock (sp_task_id spec) w1)" for acts sink
    using run_at_rest_acts_on_nothing [OF assms(1,5)] by simp
  moreover have "fs_durable (fs_unlock (sp_task_id spec) w1) (sp_task_id spec) = Some st'"
    using d1 fs_durable_cong [of "fs_unlock (sp_task_id spec) w1" w1] by (simp add: fs_unlock_def)
  ultimately show ?thesis using p by blast
qed

text \<open>A crash in the middle of an attempt, and a task that failed after an attempt had been left open.\<close>

theorem run_interrupted_blocks_witness:
  "(\<exists>out w'. run demo_runner demo_spec [] (demo_disk demo_crashed) = (Inr out, w') \<and>
     ro_status out = PStr ''blocked'' \<and> ro_executed_steps out = [] \<and>
     ro_blocked_reason out = PStr ''interrupted_step_requires_reconciliation:s1'') \<and>
   (\<exists>out w'. run demo_runner demo_spec [] (demo_disk (demo_crashed\<lparr>st_status := PStr ''failed''\<rparr>)) = (Inr out, w') \<and>
     ro_status out = PStr ''failed'' \<and> ro_executed_steps out = [])"
proof
  have same: "demo_runner\<lparr>rn_actions := rn_actions demo_runner, rn_sink := rn_sink demo_runner\<rparr> = demo_runner" by simp
  obtain st' w' where p: "put_to_rest demo_crashed st'"
    and r: "\<forall>acts sink. run (demo_runner\<lparr>rn_actions := acts, rn_sink := sink\<rparr>) demo_spec [] (demo_disk demo_crashed) =
      (Inr (outcome st' [] []), w')"
    using run_interrupted_blocks [of demo_runner demo_spec "demo_disk demo_crashed" demo_crashed "''running''" "[]"]
    by auto
  have "st_status st' = PStr ''blocked''"
    "st_blocked_reason st' = PStr ''interrupted_step_requires_reconciliation:s1''"
    using p by (simp_all add: put_to_rest_def TERMINAL_def)
  with spec [OF spec [OF r, of "rn_actions demo_runner"], of "rn_sink demo_runner", unfolded same]
  show "\<exists>out w'. run demo_runner demo_spec [] (demo_disk demo_crashed) = (Inr out, w') \<and>
     ro_status out = PStr ''blocked'' \<and> ro_executed_steps out = [] \<and>
     ro_blocked_reason out = PStr ''interrupted_step_requires_reconciliation:s1''"
    by (simp add: outcome_def)
  let ?st = "demo_crashed\<lparr>st_status := PStr ''failed''\<rparr>"
  have "unresolved_steps ?st = unresolved_steps demo_crashed" by (simp add: unresolved_steps_def)
  then obtain st2 w2 where p: "put_to_rest ?st st2"
    and r: "\<forall>acts sink. run (demo_runner\<lparr>rn_actions := acts, rn_sink := sink\<rparr>) demo_spec [] (demo_disk ?st) =
      (Inr (outcome st2 [] []), w2)"
    using run_interrupted_blocks [of demo_runner demo_spec "demo_disk ?st" ?st "''failed''" "[]"] by auto
  have "st_status st2 = PStr ''failed''" using p by (simp add: put_to_rest_def TERMINAL_def)
  with spec [OF spec [OF r, of "rn_actions demo_runner"], of "rn_sink demo_runner", unfolded same]
  show "\<exists>out w'. run demo_runner demo_spec [] (demo_disk ?st) = (Inr out, w') \<and>
     ro_status out = PStr ''failed'' \<and> ro_executed_steps out = []"
    by (simp add: outcome_def)
qed

text \<open>A run of a task that is running already, in this or another process of the host, is refused
  before anything is read or written.\<close>

theorem run_excluded_by_lock:
  assumes "rn_store rn = fs_ops" and "TaskSpec_validate spec = Inr ()" and "safe_id (sp_task_id spec)"
    and "sp_task_id spec \<in> set (fs_locks w)"
  shows "run rn spec context w = (Inl (Exc RuntimeError ''task_already_running''), w)"
  using assms by (simp add: run_def TaskSpec_roundtrip bindE_apply fs_lock_def safe_task_id_def)

theorem run_excluded_by_lock_witness:
  "run demo_runner demo_spec [] ((demo_world (\<lambda>_. None))\<lparr>fs_locks := [''t1'']\<rparr>) =
     (Inl (Exc RuntimeError ''task_already_running''), (demo_world (\<lambda>_. None))\<lparr>fs_locks := [''t1'']\<rparr>)"
  by (rule run_excluded_by_lock) (simp_all del: ident_match.simps)

definition reconciled :: "string \<Rightarrow> string \<Rightarrow> task_state \<Rightarrow> task_state \<Rightarrow> bool" where
  "reconciled resolution sid st st' \<longleftrightarrow>
    (resolution = ''not_applied'' \<and> st_status st' = PStr ''pending'' \<and> sid \<notin> set (unresolved_steps st') \<and>
       st_attempts st' = AList.delete sid (st_attempts st) \<and> st_completed_steps st' = st_completed_steps st \<or>
     resolution = ''applied_and_verified'' \<and> st_status st' = PStr ''pending'' \<and> sid \<notin> set (unresolved_steps st') \<and>
       st_attempts st' = st_attempts st \<and> set (st_completed_steps st') = insert (PStr sid) (set (st_completed_steps st)) \<or>
     resolution = ''needs_manual_action'' \<and> st_status st' = PStr ''blocked'' \<and>
       st_attempts st' = st_attempts st \<and> st_completed_steps st' = st_completed_steps st)"

text \<open>C25. Reconciliation succeeds on a blocked task only, and its three resolutions do what they say to
  the durable state: \<open>not_applied\<close> forgets the attempts of the step, \<open>applied_and_verified\<close> records
  it as completed, both making the task runnable again with the step no longer interrupted;
  \<open>needs_manual_action\<close> keeps it blocked. The decision is appended to the state's record.\<close>

theorem reconcile_takes_effect:
  assumes "fs_inv w" and "reconcile_blocked_step tid sid resolution note updates w = (Inr st', w')"
  shows "\<exists>st. fs_load_state tid w = Inr st \<and> st_status st = PStr ''blocked'' \<and> fs_durable w' tid = Some st' \<and>
    length (st_reconciliations st') = Suc (length (st_reconciliations st)) \<and> reconciled resolution sid st st'"
  using assms
proof (rule reconcile_effect)
  fix st arts now t
  assume "fs_load_state tid w = Inr st" and "st_status st = PStr ''blocked''"
    and r: "resolution \<in> {''not_applied'', ''applied_and_verified'', ''needs_manual_action''}"
    and st': "st' = touch t (reconcile_resolve resolution sid (st\<lparr>st_artifacts := arts, st_reconciliations :=
           st_reconciliations st @ [reconcile_record now sid resolution note st]\<rparr>))"
    and "fs_durable w' tid = Some st'"
  from r consider "resolution = ''not_applied''" | "resolution = ''applied_and_verified''"
    | "resolution = ''needs_manual_action''" by blast
  then have "length (st_reconciliations st') = Suc (length (st_reconciliations st)) \<and> reconciled resolution sid st st'"
  proof cases
    case 1
    then show ?thesis by (simp add: reconciled_def st' reconcile_resolve_def unresolved_touch unresolved_delete)
  next
    case 2
    then have "PStr sid \<in> set (st_completed_steps st')" by (simp add: st' reconcile_resolve_def)
    with 2 show ?thesis unfolding reconciled_def
      by (auto dest: unresolved_completed) (auto simp: st' reconcile_resolve_def split: if_splits)
  qed (simp add: reconciled_def st' reconcile_resolve_def)
  with \<open>fs_load_state tid w = Inr st\<close> \<open>st_status st = PStr ''blocked''\<close> \<open>fs_durable w' tid = Some st'\<close>
  show ?thesis by (intro exI [of _ st]) simp
qed

theorem reconcile_takes_effect_witness:
  "\<exists>st w'. reconcile_blocked_step ''t1'' ''s1'' ''not_applied'' ''checked'' [] (demo_disk demo_blocked) = (Inr st, w') \<and>
     st_status st = PStr ''pending'' \<and> fs_durable w' ''t1'' = Some st"
proof -
  obtain st w' where eq: "reconcile_blocked_step ''t1'' ''s1'' ''not_applied'' ''checked'' [] (demo_disk demo_blocked) = (Inr st, w')"
    using demo_reconcile by blast
  from reconcile_takes_effect [OF _ eq] eq show ?thesis by (auto simp: reconciled_def)
qed

text \<open>A reconciliation that fails changes no state file.\<close>

theorem reconcile_failure_changes_nothing:
  assumes "reconcile_blocked_step tid sid resolution note updates w = (Inl e, w')"
  shows "fs_states w' = fs_states w"
proof -
  consider "w' = w" | w0 w1 where "fs_states w0 = fs_states w"
    "reconcile_blocked_step_locked tid sid resolution note updates w0 = (Inl e, w1)" "w' = fs_unlock tid w1"
  proof (cases "fs_lock tid w")
    case (Pair r w0)
    obtain r1 w1 where b: "reconcile_blocked_step_locked tid sid resolution note updates w0 = (r1, w1)" by fastforce
    have "fs_states w0 = fs_states w"
      using Pair by (auto simp: fs_lock_def split: sum.splits if_splits)
    from that(2) [OF this] that(1) show thesis
      using Pair assms b
      by (cases r) (auto simp: reconcile_blocked_step_def bindE_apply fs_lock_def split: sum.splits if_splits)
  qed
  then show ?thesis
    by cases (auto dest!: reconcile_locked_cases simp: fs_unlock_def)
qed

theorem reconcile_failure_changes_nothing_witness:
  "\<exists>w'. reconcile_blocked_step ''t1'' ''s1'' ''not_applied'' ''checked'' [] (demo_disk demo_crashed) =
     (Inl (Exc ValueError ''task_not_blocked''), w') \<and> fs_states w' = fs_states (demo_disk demo_crashed)"
proof -
  obtain w' where eq: "reconcile_blocked_step ''t1'' ''s1'' ''not_applied'' ''checked'' [] (demo_disk demo_crashed) =
     (Inl (Exc ValueError ''task_not_blocked''), w')"
    using demo_reconcile_refused by blast
  with reconcile_failure_changes_nothing [OF eq] show ?thesis by blast
qed

end
