(* ===== verification/Credential_Provider.thy ===== *)
theory Credential_Provider
  imports Py_Values
begin

text \<open>
  \<^verbatim>\<open>src/agent_core/credential_provider.py\<close>: credential snapshots and the static in-memory
  provider. Arguments that the source checks at run time are values (\<open>pyval\<close>); what it stores
  is typed. \<open>time.time()\<close> is an argument.
\<close>

section \<open>Checks\<close>

fun seconds_arg :: "pyval \<Rightarrow> string \<Rightarrow> int res" where
  "seconds_arg (PInt n) err = (if n < 0 then value_error err else Inr n)"
| "seconds_arg _ err = value_error err"

fun nonblank_str :: "pyval \<Rightarrow> bool" where
  "nonblank_str (PStr s) = (\<not> blank s)"
| "nonblank_str _ = False"

text \<open>A dictionary iterates over its keys; \<open>bytes\<close> do not occur among the values.\<close>

definition capabilities_arg :: "pyval \<Rightarrow> string list res" where
  "capabilities_arg v =
     (case v of
        PStr _ \<Rightarrow> value_error ''credential_capabilities_must_be_collection''
      | _ \<Rightarrow>
         (case py_iter v of
            Inl _ \<Rightarrow> value_error ''credential_capabilities_must_be_collection''
          | Inr items \<Rightarrow>
              if items = [] \<or> \<not> list_all nonblank_str items
              then value_error ''credential_capabilities_required''
              else Inr (sorted_set (map strip (List.map_filter as_str items)))))"

fun copy_secrets :: "pyval \<Rightarrow> (string \<times> string) list res" where
  "copy_secrets (PDict d) =
     (if d = [] \<or> \<not> list_all (\<lambda>(n, v). \<not> blank n \<and> nonblank_str v) d
      then value_error ''non_empty_runtime_secrets_required''
      else Inr (map (\<lambda>(n, v). (n, py_str v)) d))"
| "copy_secrets _ = value_error ''non_empty_runtime_secrets_required''"

definition time_arg :: "pyval \<Rightarrow> string \<Rightarrow> int option res" where
  "time_arg v err = (if v = PNone then Inr None else bindR (seconds_arg v err) (\<lambda>n. Inr (Some n)))"

text \<open>\<open>_validate_times\<close>, returning the two times it accepted.\<close>

definition validate_times :: "pyval \<Rightarrow> pyval \<Rightarrow> (int option \<times> int option) res" where
  "validate_times issued expires =
     bindR (time_arg issued ''credential_issue_time_invalid'') (\<lambda>i.
     bindR (time_arg expires ''credential_expiry_invalid'') (\<lambda>e.
     case (i, e) of
       (Some a, Some b) \<Rightarrow> if b \<le> a then value_error ''credential_expiry_must_follow_issue_time'' else Inr (i, e)
     | _ \<Rightarrow> Inr (i, e)))"

definition opt_int :: "int option \<Rightarrow> pyval" where
  "opt_int x = (case x of None \<Rightarrow> PNone | Some n \<Rightarrow> PInt n)"

section \<open>Snapshots\<close>

record credential_snapshot =
  cs_provider_id :: string
  cs_account_label :: "string option"
  cs_capabilities :: "string list"
  cs_issued_at :: "int option"
  cs_expires_at :: "int option"
  cs_refresh_capable :: bool
  cs_secrets :: "(string \<times> string) list"
  cs_created_at :: int

fun account_label_arg :: "pyval \<Rightarrow> string option" where
  "account_label_arg (PStr s) = (if blank s then None else Some (strip s))"
| "account_label_arg _ = None"

definition CredentialSnapshot ::
  "pyval \<Rightarrow> pyval \<Rightarrow> pyval \<Rightarrow> pyval \<Rightarrow> pyval \<Rightarrow> pyval \<Rightarrow> bool \<Rightarrow> pyval \<Rightarrow> credential_snapshot res" where
  "CredentialSnapshot provider_id account_label caps secrets issued expires refresh created =
     (if \<not> nonblank_str provider_id then value_error ''provider_id_required''
      else bindR (capabilities_arg caps) (\<lambda>cs.
           bindR (copy_secrets secrets) (\<lambda>ss.
           bindR (validate_times issued expires) (\<lambda>(i, e).
           bindR (seconds_arg created ''credential_snapshot_time_invalid'') (\<lambda>t.
           Inr \<lparr>cs_provider_id = strip (py_str provider_id), cs_account_label = account_label_arg account_label,
                cs_capabilities = cs, cs_issued_at = i, cs_expires_at = e, cs_refresh_capable = refresh,
                cs_secrets = ss, cs_created_at = t\<rparr>)))))"

definition secret_names :: "credential_snapshot \<Rightarrow> string list" where
  "secret_names s = sort (map fst (cs_secrets s))"

definition snapshot_secret :: "credential_snapshot \<Rightarrow> pyval \<Rightarrow> string res" where
  "snapshot_secret s name =
     (case name of
        PStr n \<Rightarrow> (case map_of (cs_secrets s) n of
                     None \<Rightarrow> Inl (Exc CredentialProviderError ''credential_secret_not_available'')
                   | Some v \<Rightarrow> Inr v)
      | _ \<Rightarrow> Inl (Exc CredentialProviderError ''credential_secret_not_available''))"

definition snapshot_to_safe_dict :: "credential_snapshot \<Rightarrow> pydict" where
  "snapshot_to_safe_dict s =
     [(''provider_id'', PStr (cs_provider_id s)), (''account_label'', opt_str (cs_account_label s)),
      (''capabilities'', PList (map PStr (cs_capabilities s))), (''issued_at'', opt_int (cs_issued_at s)),
      (''expires_at'', opt_int (cs_expires_at s)),
      (''expires_in_seconds_at_snapshot'', opt_int (map_option (\<lambda>e. e - cs_created_at s) (cs_expires_at s))),
      (''refresh_capable'', PBool (cs_refresh_capable s)), (''secret_names'', PList (map PStr (secret_names s)))]"

text \<open>\<open>repr\<close> of a tuple of strings.\<close>

definition repr_tuple :: "string list \<Rightarrow> string" where
  "repr_tuple xs = ''('' @ join '', '' (map repr_str xs) @ (if length xs = 1 then '','' else []) @ '')''"

definition snapshot_repr :: "credential_snapshot \<Rightarrow> string" where
  "snapshot_repr s =
     ''CredentialSnapshot(provider_id='' @ repr_str (cs_provider_id s) @
     '', account_label='' @ py_repr (opt_str (cs_account_label s)) @
     '', capabilities='' @ repr_tuple (cs_capabilities s) @
     '', expires_at='' @ py_repr (opt_int (cs_expires_at s)) @
     '', refresh_capable='' @ py_repr (PBool (cs_refresh_capable s)) @
     '', secrets='' @ repr_str ''<redacted>'' @ '')''"

section \<open>The static provider\<close>

record static_provider =
  sv_provider_id :: string
  sv_account_label :: "string option"
  sv_capabilities :: "string list"
  sv_secrets :: "(string \<times> string) list"
  sv_issued_at :: "int option"
  sv_expires_at :: "int option"
  sv_revoked :: bool

definition StaticInMemoryCredentialProvider ::
  "pyval \<Rightarrow> pyval \<Rightarrow> pyval \<Rightarrow> pyval \<Rightarrow> pyval \<Rightarrow> pyval \<Rightarrow> static_provider res" where
  "StaticInMemoryCredentialProvider provider_id caps secrets account_label issued expires =
     (if \<not> nonblank_str provider_id then value_error ''provider_id_required''
      else bindR (capabilities_arg caps) (\<lambda>cs.
           bindR (copy_secrets secrets) (\<lambda>ss.
           bindR (validate_times issued expires) (\<lambda>(i, e).
           Inr \<lparr>sv_provider_id = strip (py_str provider_id), sv_account_label = account_label_arg account_label,
                sv_capabilities = cs, sv_secrets = ss, sv_issued_at = i, sv_expires_at = e,
                sv_revoked = False\<rparr>))))"

definition static_revoke :: "static_provider \<Rightarrow> static_provider" where
  "static_revoke p = p\<lparr>sv_revoked := True, sv_secrets := []\<rparr>"

text \<open>The lifetime checks of \<open>snapshot\<close>.\<close>

definition static_lifetime :: "static_provider \<Rightarrow> int \<Rightarrow> bool \<Rightarrow> int \<Rightarrow> unit res" where
  "static_lifetime p minimum known now =
     (if (case sv_issued_at p of None \<Rightarrow> False | Some i \<Rightarrow> i > now) then Inl (Exc CredentialLifetimeError ''credential_not_yet_valid'')
      else case sv_expires_at p of
        None \<Rightarrow> if known then Inl (Exc CredentialLifetimeError ''credential_expiry_unknown'') else Inr ()
      | Some e \<Rightarrow> if e - now \<le> 0 then Inl (Exc CredentialLifetimeError ''credential_expired'')
                  else if e - now < minimum then Inl (Exc CredentialLifetimeError ''credential_ttl_below_minimum'')
                  else Inr ())"

definition static_snapshot ::
  "static_provider \<Rightarrow> pyval \<Rightarrow> pyval \<Rightarrow> pyval \<Rightarrow> pyval \<Rightarrow> int \<Rightarrow> credential_snapshot res" where
  "static_snapshot p required minimum known now_epoch time_now =
     (if sv_revoked p then Inl (Exc CredentialRevokedError ''credential_provider_revoked'')
      else bindR (seconds_arg minimum ''minimum_ttl_seconds_must_be_non_negative_integer'') (\<lambda>ttl.
        case known of
          PBool k \<Rightarrow>
            bindR (capabilities_arg required) (\<lambda>req.
            if \<not> list_all (\<lambda>c. c \<in> set (sv_capabilities p)) req
            then Inl (Exc CredentialScopeError ''credential_capability_mismatch'')
            else bindR (if now_epoch = PNone then Inr time_now else seconds_arg now_epoch ''credential_now_invalid'') (\<lambda>now.
                 bindR (static_lifetime p ttl k now) (\<lambda>_.
                 CredentialSnapshot (PStr (sv_provider_id p)) (opt_str (sv_account_label p))
                   (PList (map PStr (sv_capabilities p))) (PDict (map (\<lambda>(n, v). (n, PStr v)) (sv_secrets p)))
                   (opt_int (sv_issued_at p)) (opt_int (sv_expires_at p)) False (PInt now))))
        | _ \<Rightarrow> value_error ''require_known_expiry_must_be_boolean''))"

section \<open>Lemmas\<close>

lemma seconds_arg_Inr [simp]: "seconds_arg v err = Inr n \<longleftrightarrow> v = PInt n \<and> 0 \<le> n"
  by (cases v) auto

lemma nonblank_str_iff: "nonblank_str v \<longleftrightarrow> (\<exists>s. v = PStr s \<and> \<not> blank s)"
  by (cases v) auto

lemma capabilities_arg_Inr:
  "capabilities_arg v = Inr cs \<longleftrightarrow> (\<exists>items. py_iter v = Inr items \<and> (\<forall>s. v \<noteq> PStr s) \<and> items \<noteq> [] \<and>
     list_all nonblank_str items \<and> cs = sorted_set (map strip (List.map_filter as_str items)))"
  by (cases v) (auto simp: capabilities_arg_def)

lemma map_filter_nonblank:
  "list_all nonblank_str items \<Longrightarrow> set (List.map_filter as_str items) = {s. PStr s \<in> set items}"
  by (induction items) (auto simp: nonblank_str_iff List.map_filter_simps)

text \<open>Normalised capabilities: sorted, distinct, trimmed, not blank, and there is at least one.\<close>

definition caps_ok :: "string list \<Rightarrow> bool" where
  "caps_ok cs \<longleftrightarrow> cs \<noteq> [] \<and> sorted cs \<and> distinct cs \<and> list_all (\<lambda>c. c \<noteq> [] \<and> strip c = c) cs"

lemma capabilities_arg_ok: "capabilities_arg v = Inr cs \<Longrightarrow> caps_ok cs"
  unfolding capabilities_arg_Inr
proof (elim exE conjE)
  fix items
  assume "items \<noteq> []" and nb: "list_all nonblank_str items" and cs: "cs = sorted_set (map strip (List.map_filter as_str items))"
  have mf: "set (List.map_filter as_str items) = {s. PStr s \<in> set items}" using nb by (rule map_filter_nonblank)
  obtain s where "PStr s \<in> set items" using nb \<open>items \<noteq> []\<close> by (cases items) (auto simp: nonblank_str_iff)
  then have "set cs \<noteq> {}" using mf by (auto simp: cs sorted_set_def)
  then have "cs \<noteq> []" by auto
  moreover have "list_all (\<lambda>c. c \<noteq> [] \<and> strip c = c) cs"
    using mf nb by (auto simp: cs sorted_set_def list_all_iff nonblank_str_iff)
  ultimately show ?thesis by (simp add: caps_ok_def, simp add: cs sorted_set_def)
qed

lemma caps_ok_arg: "caps_ok cs \<Longrightarrow> capabilities_arg (PList (map PStr cs)) = Inr cs"
proof -
  assume ok: "caps_ok cs"
  have "List.map_filter as_str (map PStr cs) = cs" by (induction cs) (simp_all add: List.map_filter_simps)
  moreover have "map strip cs = cs" using ok by (auto simp: caps_ok_def list_all_iff intro: map_idI)
  ultimately show ?thesis
    using ok by (auto simp: capabilities_arg_Inr caps_ok_def list_all_iff sorted_set_def sorted_sort_id distinct_remdups_id)
qed

lemma time_arg_Inr [simp]:
  "time_arg v err = Inr t \<longleftrightarrow> (v = PNone \<and> t = None) \<or> (\<exists>n. v = PInt n \<and> 0 \<le> n \<and> t = Some n)"
  by (auto simp: time_arg_def bindR_eq_Inr)

lemma validate_times_Inr:
  "validate_times iv ev = Inr (i, e) \<longleftrightarrow>
     time_arg iv ''credential_issue_time_invalid'' = Inr i \<and> time_arg ev ''credential_expiry_invalid'' = Inr e \<and>
     (\<forall>a b. i = Some a \<longrightarrow> e = Some b \<longrightarrow> a < b)"
  unfolding validate_times_def
  by (cases "time_arg iv ''credential_issue_time_invalid''"; cases "time_arg ev ''credential_expiry_invalid''")
    (auto simp del: time_arg_Inr split: option.splits if_splits)

text \<open>What the constructor of a static provider establishes and every operation keeps.\<close>

definition static_ok :: "static_provider \<Rightarrow> bool" where
  "static_ok p \<longleftrightarrow> sv_provider_id p \<noteq> [] \<and> strip (sv_provider_id p) = sv_provider_id p \<and> caps_ok (sv_capabilities p) \<and>
     (if sv_revoked p then sv_secrets p = []
      else sv_secrets p \<noteq> [] \<and> list_all (\<lambda>(n, v). \<not> blank n \<and> \<not> blank v) (sv_secrets p)) \<and>
     (\<forall>a. sv_issued_at p = Some a \<longrightarrow> 0 \<le> a) \<and> (\<forall>b. sv_expires_at p = Some b \<longrightarrow> 0 \<le> b) \<and>
     (\<forall>a b. sv_issued_at p = Some a \<longrightarrow> sv_expires_at p = Some b \<longrightarrow> a < b)"

lemma copy_secrets_Inr:
  "copy_secrets v = Inr ss \<Longrightarrow> ss \<noteq> [] \<and> list_all (\<lambda>(n, v). \<not> blank n \<and> \<not> blank v) ss"
  by (cases v) (fastforce simp: list_all_iff nonblank_str_iff split: if_splits)+

lemma copy_secrets_typed:
  "ss \<noteq> [] \<Longrightarrow> list_all (\<lambda>(n, v). \<not> blank n \<and> \<not> blank v) ss \<Longrightarrow>
     copy_secrets (PDict (map (\<lambda>(n, v). (n, PStr v)) ss)) = Inr ss"
  by (auto simp: list_all_iff intro!: map_idI)

lemma static_new_ok:
  "StaticInMemoryCredentialProvider pid caps secrets label iv ev = Inr p \<Longrightarrow> static_ok p"
  by (auto simp: StaticInMemoryCredentialProvider_def bindR_eq_Inr static_ok_def nonblank_str_iff validate_times_Inr
      dest: capabilities_arg_ok copy_secrets_Inr split: if_splits)

lemma static_revoke_ok: "static_ok p \<Longrightarrow> static_ok (static_revoke p)"
  by (simp add: static_ok_def static_revoke_def)

lemma static_lifetime_Inr:
  "static_lifetime p ttl k now = Inr () \<longleftrightarrow>
     (\<forall>i. sv_issued_at p = Some i \<longrightarrow> i \<le> now) \<and> (sv_expires_at p = None \<longrightarrow> \<not> k) \<and>
     (\<forall>e. sv_expires_at p = Some e \<longrightarrow> now < e \<and> ttl \<le> e - now)"
  by (auto simp: static_lifetime_def split: option.splits)

lemma opt_int_time [simp]: "\<forall>a. x = Some a \<longrightarrow> 0 \<le> a \<Longrightarrow> time_arg (opt_int x) err = Inr x"
  by (cases x) (simp_all add: opt_int_def)

lemma account_label_opt [simp]: "account_label_arg (opt_str (account_label_arg v)) = account_label_arg v"
  by (cases v) (simp_all add: opt_str_def)

text \<open>The snapshot a valid, live provider builds.\<close>

lemma static_snapshot_build:
  assumes "static_ok p" and "\<not> sv_revoked p" and "0 \<le> now"
  shows "\<exists>s. CredentialSnapshot (PStr (sv_provider_id p)) (opt_str (sv_account_label p))
      (PList (map PStr (sv_capabilities p))) (PDict (map (\<lambda>(n, v). (n, PStr v)) (sv_secrets p)))
      (opt_int (sv_issued_at p)) (opt_int (sv_expires_at p)) False (PInt now) = Inr s \<and>
    cs_provider_id s = sv_provider_id p \<and> cs_capabilities s = sv_capabilities p \<and> cs_secrets s = sv_secrets p \<and>
    cs_issued_at s = sv_issued_at p \<and> cs_expires_at s = sv_expires_at p \<and> cs_created_at s = now"
proof -
  have "validate_times (opt_int (sv_issued_at p)) (opt_int (sv_expires_at p)) = Inr (sv_issued_at p, sv_expires_at p)"
    using assms(1) by (simp add: validate_times_Inr static_ok_def)
  with assms show ?thesis
    by (simp add: CredentialSnapshot_def caps_ok_arg copy_secrets_typed static_ok_def del: copy_secrets.simps)
qed

section \<open>Properties\<close>

text \<open>A static provider built by its constructor hands out a snapshot only while it is not
  revoked, only for capabilities it has, and only while the credential is valid at the given
  time with the requested remaining lifetime; the snapshot carries exactly its secrets,
  capabilities and times.\<close>

theorem static_snapshot_sound:
  assumes "static_ok p" and "static_snapshot p required minimum known now_epoch time_now = Inr s" and "0 \<le> time_now"
  shows "\<exists>ttl now req. minimum = PInt ttl \<and> 0 \<le> ttl \<and> (now_epoch = PNone \<and> now = time_now \<or> now_epoch = PInt now) \<and>
     capabilities_arg required = Inr req \<and> set req \<subseteq> set (cs_capabilities s) \<and>
     \<not> sv_revoked p \<and> (\<forall>i. sv_issued_at p = Some i \<longrightarrow> i \<le> now) \<and>
     (known = PBool True \<longrightarrow> sv_expires_at p \<noteq> None) \<and>
     (\<forall>e. sv_expires_at p = Some e \<longrightarrow> now < e \<and> ttl \<le> e - now) \<and>
     cs_secrets s = sv_secrets p \<and> cs_capabilities s = sv_capabilities p \<and> cs_issued_at s = sv_issued_at p \<and>
     cs_expires_at s = sv_expires_at p \<and> cs_created_at s = now"
proof -
  have live: "\<not> sv_revoked p" using assms(2) by (auto simp: static_snapshot_def)
  then obtain ttl k req now where ttl: "minimum = PInt ttl" "0 \<le> ttl" and k: "known = PBool k"
    and req: "capabilities_arg required = Inr req" "list_all (\<lambda>c. c \<in> set (sv_capabilities p)) req"
    and now: "(if now_epoch = PNone then Inr time_now else seconds_arg now_epoch ''credential_now_invalid'') = Inr now"
    and life: "static_lifetime p ttl k now = Inr ()"
    and snap: "CredentialSnapshot (PStr (sv_provider_id p)) (opt_str (sv_account_label p))
      (PList (map PStr (sv_capabilities p))) (PDict (map (\<lambda>(n, v). (n, PStr v)) (sv_secrets p)))
      (opt_int (sv_issued_at p)) (opt_int (sv_expires_at p)) False (PInt now) = Inr s"
    using assms(2) unfolding static_snapshot_def
    by (cases known) (auto simp: bindR_eq_Inr simp del: seconds_arg_Inr split: if_splits dest!: seconds_arg_Inr [THEN iffD1])
  have n: "now_epoch = PNone \<and> now = time_now \<or> now_epoch = PInt now" and "0 \<le> now"
    using now assms(3) by (auto split: if_splits)
  with static_snapshot_build [OF assms(1) live] snap
  have "cs_capabilities s = sv_capabilities p \<and> cs_secrets s = sv_secrets p \<and>
    cs_issued_at s = sv_issued_at p \<and> cs_expires_at s = sv_expires_at p \<and> cs_created_at s = now" by fastforce
  with life live k req n ttl show ?thesis
    by (intro exI [of _ ttl] exI [of _ now] exI [of _ req]) (auto simp: static_lifetime_Inr list_all_iff)
qed

definition demo_static :: static_provider where
  "demo_static = \<lparr>sv_provider_id = ''git'', sv_account_label = None, sv_capabilities = [''read''],
     sv_secrets = [(''token'', ''abc'')], sv_issued_at = Some 10, sv_expires_at = Some 1000, sv_revoked = False\<rparr>"

theorem static_snapshot_sound_witness:
  "\<exists>s. static_snapshot demo_static (PList [PStr ''read'']) (PInt 300) (PBool True) (PInt 500) 0 = Inr s \<and>
     cs_secrets s = [(''token'', ''abc'')] \<and> cs_created_at s = 500"
proof -
  have ok: "static_ok demo_static"
    by (simp add: static_ok_def demo_static_def) code_simp
  have "(case static_snapshot demo_static (PList [PStr ''read'']) (PInt 300) (PBool True) (PInt 500) 0 of
      Inr s \<Rightarrow> True | Inl _ \<Rightarrow> False)" by code_simp
  then obtain s where s: "static_snapshot demo_static (PList [PStr ''read'']) (PInt 300) (PBool True) (PInt 500) 0 = Inr s"
    by (auto split: sum.splits)
  from static_snapshot_sound [OF ok this] s show ?thesis by (auto simp: demo_static_def)
qed

text \<open>A snapshot's safe dictionary and its \<open>repr\<close> are functions of everything but the secret
  values: two snapshots that differ only in the values of their secrets have the same ones.\<close>

theorem snapshot_output_redacts_secrets:
  assumes "map fst ss = map fst (cs_secrets s)"
  shows "snapshot_to_safe_dict (s\<lparr>cs_secrets := ss\<rparr>) = snapshot_to_safe_dict s \<and>
         snapshot_repr (s\<lparr>cs_secrets := ss\<rparr>) = snapshot_repr s"
  using assms by (simp add: snapshot_to_safe_dict_def snapshot_repr_def secret_names_def)

theorem snapshot_output_redacts_secrets_witness:
  "let s = \<lparr>cs_provider_id = ''git'', cs_account_label = None, cs_capabilities = [''read''], cs_issued_at = None,
     cs_expires_at = None, cs_refresh_capable = False, cs_secrets = [(''token'', ''abc'')], cs_created_at = 5\<rparr>
   in snapshot_to_safe_dict (s\<lparr>cs_secrets := [(''token'', ''xyz'')]\<rparr>) = snapshot_to_safe_dict s"
  unfolding Let_def by (rule snapshot_output_redacts_secrets [THEN conjunct1]) simp

end
