(* ===== verification/Refresh_Safety.thy ===== *)
theory Refresh_Safety
  imports Refresh_Credentials
begin

text \<open>
  What \<open>RefreshingCredentialProvider\<close> guarantees while other threads may revoke it during its
  I/O: a snapshot is issued only from a checked grant and only if nobody revoked the provider,
  \<open>revoked\<close> and \<open>blocked_auth\<close> are terminal, the busy flag is always given back, the exceptions it
  raises are fixed, and the time it works with does not run backwards.
\<close>

section \<open>Interference\<close>

definition interfered :: "refresh_provider \<Rightarrow> refresh_provider \<Rightarrow> bool" where
  "interfered p p' \<longleftrightarrow> p' = p \<or> p' = revoke p"

definition host_ok :: "'x refresh_world_scheme refresh_host \<Rightarrow> bool" where
  "host_ok h \<longleftrightarrow> (\<forall>w.
     interfered (rw_provider w) (rw_provider (snd (rh_clock h w))) \<and>
     interfered (rw_provider w) (rw_provider (snd (rh_monotonic h w))) \<and>
     interfered (rw_provider w) (rw_provider (snd (rh_available h w))) \<and>
     (\<forall>b m. interfered (rw_provider w) (rw_provider (snd (rh_refresh h b m w)))))"

abbreviation marked :: "refresh_provider \<Rightarrow> refresh_provider" where
  "marked p \<equiv> p\<lparr>rp_grant := None, rp_state := ''refreshing''\<rparr>"

lemma revoke_simps [simp]:
  "revoke (revoke p) = revoke p" "revoke (marked p) = revoke p" "rp_state (revoke p) = ''revoked''"
  "rp_grant (revoke p) = None" "rp_binding (revoke p) = rp_binding p" "rp_anchor (revoke p) = rp_anchor p"
  "rp_generation (revoke p) = rp_generation p" "rp_busy (revoke p) = rp_busy p"
  by (simp_all add: revoke_def)

text \<open>The states the provider can be in during the I/O of a snapshot that started in \<open>p\<close>.\<close>

definition during :: "refresh_provider \<Rightarrow> 'x refresh_world_scheme \<Rightarrow> bool" where
  "during p w \<longleftrightarrow> rw_provider w \<in> {p, revoke p, marked p}"

lemma during_interfered: "during p w \<Longrightarrow> interfered (rw_provider w) (rw_provider w') \<Longrightarrow> during p w'"
  by (auto simp: during_def interfered_def)

abbreviation stays :: "('w \<Rightarrow> bool) \<Rightarrow> ('w, 'a) eff \<Rightarrow> bool" where
  "stays J m \<equiv> triple J m (\<lambda>_. J) (\<lambda>_. J)"

lemma staysI: "(\<And>w. J w \<Longrightarrow> J (snd (m w))) \<Longrightarrow> stays J m"
  by (rule tripleI) (metis snd_conv)+

lemma stays_bind: "stays J m \<Longrightarrow> (\<And>x. stays J (f x)) \<Longrightarrow> stays J (bindE m f)"
  by (rule triple_bind)

lemma stays_pure [simp]: "stays J (retE x)" "stays J (raiseE e)" "stays J (liftE r)"
  by (auto intro: triple_ret triple_raise triple_lift)

lemma stays_if: "stays J m \<Longrightarrow> stays J n \<Longrightarrow> stays J (if c then m else n)"
  by simp

text \<open>An invariant that every call of the host and the provider's own step before a refresh keep.\<close>

definition steady :: "('x refresh_world_scheme \<Rightarrow> bool) \<Rightarrow> 'x refresh_world_scheme refresh_host \<Rightarrow> bool" where
  "steady J h \<longleftrightarrow> stays J mark_refreshing \<and> (\<forall>w. J w \<longrightarrow>
     J (snd (rh_clock h w)) \<and> J (snd (rh_monotonic h w)) \<and> J (snd (rh_available h w)) \<and>
     (\<forall>b m. J (snd (rh_refresh h b m w))))"

lemma stays_host:
  assumes "steady J h"
  shows "stays J (rh_clock h)" "stays J (rh_available h)" "stays J (rh_refresh h b m)" "stays J (read_monotonic h)"
    "stays J mark_refreshing"
  using assms
  by (auto simp: steady_def read_monotonic_def case_prod_unfold Let_def intro!: staysI)

lemma stays_parts:
  assumes "steady J h"
  shows "stays J (read_wall h)" "stays J (require_available h)" "stays J (current_time h ep se sm a)"
    "stays J (obtain_grant h b cached now minimum)"
proof -
  note hs = stays_host [OF assms]
  show wall: "stays J (read_wall h)"
    unfolding read_wall_def by (intro stays_bind hs) simp
  show "stays J (require_available h)"
    unfolding require_available_def by (intro stays_bind hs) simp
  show "stays J (current_time h ep se sm a)"
    unfolding current_time_def Let_def
    by (intro stays_bind hs stays_if) (auto split: option.split intro: wall)
  show "stays J (obtain_grant h b cached now minimum)"
    unfolding obtain_grant_def
    by (intro stays_bind hs stays_if) (auto split: option.split intro!: stays_bind simp del: expiry_of.simps)
qed

lemma stays_io: "steady J h \<Longrightarrow> stays J (snapshot_io h b cached minimum ep)"
proof -
  assume h: "steady J h"
  have "stays J (\<lambda>w. (Inr (f (rw_provider w)), w))" for f :: "refresh_provider \<Rightarrow> 'b"
    by (rule staysI) simp
  then show ?thesis
    unfolding snapshot_io_def Let_def
    by (intro stays_bind stays_host [OF h] stays_parts [OF h])
      (auto split: option.split prod.split intro!: stays_bind stays_host [OF h] stays_parts [OF h])
qed

lemma steady_during:
  assumes "host_ok h"
  shows "steady (during p) h"
proof -
  have "stays (during p) mark_refreshing"
    by (rule tripleI) (auto simp: mark_refreshing_def during_def split: if_splits)
  moreover have "during p (snd (rh_clock h w)) \<and> during p (snd (rh_monotonic h w)) \<and>
      during p (snd (rh_available h w)) \<and> (\<forall>b m. during p (snd (rh_refresh h b m w)))" if d: "during p w" for w
    using assms by (intro conjI allI during_interfered [OF d]) (simp_all add: host_ok_def)
  ultimately show ?thesis by (simp add: steady_def)
qed

section \<open>Watching for revocations\<close>

text \<open>
  An observer of the world that only a revocation can switch on: every call of the host either
  leaves it and the provider alone, or revokes the provider and leaves the observer on.
\<close>

definition seen_step :: "('x refresh_world_scheme \<Rightarrow> bool) \<Rightarrow> 'x refresh_world_scheme \<Rightarrow> 'x refresh_world_scheme \<Rightarrow> bool" where
  "seen_step rv w w' \<longleftrightarrow> rv w' = rv w \<and> rw_provider w' = rw_provider w \<or>
     rv w' \<and> rw_provider w' = revoke (rw_provider w)"

definition watched :: "('x refresh_world_scheme \<Rightarrow> bool) \<Rightarrow> 'x refresh_world_scheme refresh_host \<Rightarrow> bool" where
  "watched rv h \<longleftrightarrow> (\<forall>w. (\<forall>p. rv (w\<lparr>rw_provider := p\<rparr>) = rv w) \<and>
     seen_step rv w (snd (rh_clock h w)) \<and> seen_step rv w (snd (rh_monotonic h w)) \<and>
     seen_step rv w (snd (rh_available h w)) \<and> (\<forall>b m. seen_step rv w (snd (rh_refresh h b m w))))"

definition revocation_noted :: "('x refresh_world_scheme \<Rightarrow> bool) \<Rightarrow> 'x refresh_world_scheme \<Rightarrow> bool" where
  "revocation_noted rv w \<longleftrightarrow> (rv w \<longrightarrow> rp_state (rw_provider w) = ''revoked'')"

lemma noted_step: "seen_step rv w w' \<Longrightarrow> revocation_noted rv w \<Longrightarrow> revocation_noted rv w'"
  by (auto simp: seen_step_def revocation_noted_def)

lemma steady_watched:
  assumes "watched rv h"
  shows "steady (revocation_noted rv) h"
proof -
  have "rv (w\<lparr>rw_provider := p\<rparr>) = rv w" for w p using assms by (simp add: watched_def)
  then have "stays (revocation_noted rv) mark_refreshing"
    by (intro tripleI) (auto simp: mark_refreshing_def revocation_noted_def split: if_splits)
  moreover have "revocation_noted rv (snd (rh_clock h w)) \<and> revocation_noted rv (snd (rh_monotonic h w)) \<and>
      revocation_noted rv (snd (rh_available h w)) \<and> (\<forall>b m. revocation_noted rv (snd (rh_refresh h b m w)))"
    if n: "revocation_noted rv w" for w
    using assms noted_step [OF _ n] by (simp add: watched_def)
  ultimately show ?thesis by (simp add: steady_def)
qed

lemma io_during:
  assumes "host_ok h" and "snapshot_io h b cached minimum ep w = (r, w')"
  shows "during (rw_provider w) w'"
proof -
  have "during (rw_provider w) w" by (simp add: during_def)
  with stays_io [OF steady_during [OF assms(1)], of "rw_provider w" b cached minimum ep] assms(2) show ?thesis
    by (cases r) (auto dest: tripleD_Inr tripleD_Inl)
qed

section \<open>Checked grants\<close>

text \<open>A grant that is valid for a binding at a time, with a remaining lifetime.\<close>

definition grant_ok :: "credential_binding \<Rightarrow> access_grant \<Rightarrow> int \<Rightarrow> int \<Rightarrow> bool" where
  "grant_ok b g now minimum \<longleftrightarrow>
     ag_provider_id g = PStr (cb_provider_id b) \<and> ag_account_id g = PStr (cb_account_id b) \<and>
     capabilities_arg (ag_capabilities g) = Inr (cb_capabilities b) \<and>
     (\<exists>tok i e. ag_access_token g = PStr tok \<and> \<not> blank tok \<and> ag_issued_at g = PInt i \<and> ag_expires_at g = PInt e \<and>
        0 \<le> i \<and> i < e \<and> i \<le> now \<and> now < e \<and> minimum \<le> e - now)"

lemma validate_grant_Inr:
  "validate_grant b gv now minimum = Inr g \<longleftrightarrow> gv = Grant g \<and> grant_ok b g now minimum"
proof (cases gv)
  case (Grant h)
  show ?thesis
    by (cases "ag_issued_at h"; cases "ag_expires_at h")
      (auto simp: Grant validate_grant_def bindR_eq_Inr grant_ok_def nonblank_str_iff validate_times_Inr
        split: if_splits)
qed (simp add: validate_grant_def)

lemma current_time_mono:
  assumes "current_time h ep se sm a w = (Inr (t, a'), w')"
  shows "fst a \<le> fst a' \<and> fst a' \<le> t"
proof -
  obtain m w1 wall where "(if wall > fst a + max 0 (trunc (m - snd a)) then retE (wall, wall, m)
      else retE (fst a + max 0 (trunc (m - snd a)), a)) w1 = (Inr (t, a'), w')"
    using assms by (auto simp: current_time_def Let_def bindE_eq_Inr)
  then show ?thesis by (auto split: if_splits)
qed

text \<open>What the part outside the lock returns.\<close>

definition io_post :: "credential_binding \<Rightarrow> int \<Rightarrow> refresh_provider \<Rightarrow> access_grant \<Rightarrow> int \<Rightarrow> int \<times> rat \<Rightarrow> bool" where
  "io_post b minimum p g now anchor \<longleftrightarrow>
     (\<exists>g0. grant_ok b g0 now minimum \<and>
        g = \<lparr>ag_provider_id = PStr (cb_provider_id b), ag_account_id = PStr (cb_account_id b),
             ag_capabilities = PList (map PStr (cb_capabilities b)), ag_access_token = ag_access_token g0,
             ag_issued_at = ag_issued_at g0, ag_expires_at = ag_expires_at g0\<rparr>) \<and>
     fst anchor \<le> now \<and> (\<forall>a. rp_anchor p = Some a \<longrightarrow> fst a \<le> fst anchor)"

lemma anchor_during: "during p w \<Longrightarrow> rp_anchor (rw_provider w) = rp_anchor p"
  by (auto simp: during_def)

lemma snapshot_io_Inr:
  assumes h: "host_ok h" and eq: "snapshot_io h b cached minimum ep w = (Inr (g, now, anchor, refreshed), w')"
  shows "io_post b minimum (rw_provider w) g now anchor"
proof -
  obtain sm w1 se w2 t1 a1 w3 w4 t2 a2 w5 gv w6 w7 t3 g0 where
    s1: "read_monotonic h w = (Inr sm, w1)"
    and s2: "(case ep of None \<Rightarrow> read_wall h | Some n \<Rightarrow> retE n) w1 = (Inr se, w2)"
    and c1: "current_time h ep se sm (case rp_anchor (rw_provider w2) of None \<Rightarrow> (se, sm) | Some a \<Rightarrow> a) w2 = (Inr (t1, a1), w3)"
    and c2: "current_time h ep se sm a1 w4 = (Inr (t2, a2), w5)"
    and c3: "current_time h ep se sm a2 w6 = (Inr (t3, anchor), w7)"
    and now: "now = max (max t1 t2) t3"
    and v: "validate_grant b gv now minimum = Inr g0"
    and g: "g = \<lparr>ag_provider_id = PStr (cb_provider_id b), ag_account_id = PStr (cb_account_id b),
             ag_capabilities = PList (map PStr (cb_capabilities b)), ag_access_token = ag_access_token g0,
             ag_issued_at = ag_issued_at g0, ag_expires_at = ag_expires_at g0\<rparr>"
    using eq unfolding snapshot_io_def Let_def
    by (auto simp: bindE_eq_Inr)
  have "during (rw_provider w) w" by (simp add: during_def)
  then have "during (rw_provider w) w1" using tripleD_Inr [OF stays_host(4) [OF steady_during [OF h]] _ s1] by blast
  then have "during (rw_provider w) w2"
    using s2 tripleD_Inr [OF stays_parts(1) [OF steady_during [OF h]]] by (auto split: option.splits)
  then have "rp_anchor (rw_provider w2) = rp_anchor (rw_provider w)" by (rule anchor_during)
  with current_time_mono [OF c1] current_time_mono [OF c2] current_time_mono [OF c3]
  show ?thesis using v unfolding io_post_def by (auto simp: validate_grant_Inr g now split: option.splits)
qed

section \<open>The provider's invariant and its moves\<close>

definition provider_ok :: "refresh_provider \<Rightarrow> bool" where
  "provider_ok p \<longleftrightarrow> caps_ok (cb_capabilities (rp_binding p)) \<and> \<not> blank (cb_provider_id (rp_binding p)) \<and>
     0 \<le> rp_generation p \<and>
     (rp_state p \<in> {''revoked'', ''blocked_auth'', ''unconfigured''} \<longrightarrow> rp_grant p = None) \<and>
     (\<forall>g. rp_grant p = Some g \<longrightarrow> (\<exists>now. grant_ok (rp_binding p) g now 0))"

lemma new_provider_ok:
  "caps_ok (cb_capabilities b) \<Longrightarrow> \<not> blank (cb_provider_id b) \<Longrightarrow> provider_ok (RefreshingCredentialProvider b src)"
  by (simp add: provider_ok_def RefreshingCredentialProvider_def)

lemma revoke_ok: "provider_ok p \<Longrightarrow> provider_ok (revoke p)"
  by (simp add: provider_ok_def)

lemma grant_ok_norm:
  assumes "grant_ok b g now m" and "caps_ok (cb_capabilities b)" and "0 \<le> m"
  shows "grant_ok b \<lparr>ag_provider_id = PStr (cb_provider_id b), ag_account_id = PStr (cb_account_id b),
             ag_capabilities = PList (map PStr (cb_capabilities b)), ag_access_token = ag_access_token g,
             ag_issued_at = ag_issued_at g, ag_expires_at = ag_expires_at g\<rparr> now m"
  using assms by (auto simp: grant_ok_def caps_ok_arg)

lemma grant_ok_weaken: "grant_ok b g now m \<Longrightarrow> 0 \<le> m \<Longrightarrow> grant_ok b g now 0"
  by (auto simp: grant_ok_def)

text \<open>How a call of \<open>snapshot\<close> ends: refused with nothing changed, or carried out.\<close>

lemma snapshot_cases:
  assumes "host_ok h" and "snapshot h required minimum known now_epoch w = (s, w')"
  obtains (refused) e where "s = Inl e" and "w' = w"
  | (carried) ttl ep req r w2 where "capabilities_arg required = Inr req"
      and "set req \<subseteq> set (cb_capabilities (rp_binding (rw_provider w)))" and "minimum = PInt ttl" and "0 \<le> ttl"
      and "assert_issuance_allowed (rw_provider w) = Inr ()"
      and "snapshot_io h (rp_binding (rw_provider w)) (rp_grant (rw_provider w)) ttl ep
             (w\<lparr>rw_provider := (rw_provider w)\<lparr>rp_busy := True\<rparr>\<rparr>) = (r, w2)"
      and "during ((rw_provider w)\<lparr>rp_busy := True\<rparr>) w2"
      and "(s, rw_provider w') = snapshot_finish r (rw_provider w2)"
proof (cases "snapshot_args (rp_binding (rw_provider w)) required minimum known now_epoch")
  case (Inl e)
  then show thesis using assms(2) by (intro refused) (auto simp: snapshot_def)
next
  case (Inr x)
  obtain ttl ep where x: "x = (ttl, ep)" by fastforce
  show thesis
  proof (cases "assert_issuance_allowed (rw_provider w)")
    case (Inl e)
    then show thesis using assms(2) Inr x by (intro refused) (auto simp: snapshot_def)
  next
    case ok: (Inr u)
    obtain r w2 where io: "snapshot_io h (rp_binding (rw_provider w)) (rp_grant (rw_provider w)) ttl ep
             (w\<lparr>rw_provider := (rw_provider w)\<lparr>rp_busy := True\<rparr>\<rparr>) = (r, w2)" by fastforce
    have "during ((rw_provider w)\<lparr>rp_busy := True\<rparr>) w2" using io_during [OF assms(1) io] by simp
    moreover have "(s, rw_provider w') = snapshot_finish r (rw_provider w2)"
      using assms(2) Inr x ok io by (auto simp: snapshot_def Let_def split: prod.splits)
    moreover obtain req where "capabilities_arg required = Inr req"
      "set req \<subseteq> set (cb_capabilities (rp_binding (rw_provider w)))" "minimum = PInt ttl" "0 \<le> ttl"
      using Inr x by (auto simp: snapshot_args_def bindR_eq_Inr list_all_iff split: if_splits)
    ultimately show thesis using ok io by (intro carried [of req ttl ep r w2]) auto
  qed
qed

lemma allowed_state:
  "assert_issuance_allowed p = Inr () \<longleftrightarrow> rp_state p \<notin> {''revoked'', ''unconfigured'', ''blocked_auth''} \<and> \<not> rp_busy p"
  by (auto simp: assert_issuance_allowed_def split: if_splits)

text \<open>The snapshot the last section builds from a checked grant.\<close>

lemma finish_snapshot:
  assumes b: "caps_ok (cb_capabilities b)" "\<not> blank (cb_provider_id b)" and g: "grant_ok b g now m"
  shows "\<exists>s tok. CredentialSnapshot (PStr (cb_provider_id b)) (PStr (cb_account_id b))
           (PList (map PStr (cb_capabilities b))) (PDict [(''access_token'', ag_access_token g)])
           (ag_issued_at g) (ag_expires_at g) True (PInt now) = Inr s \<and>
         ag_access_token g = PStr tok \<and> cs_secrets s = [(''access_token'', tok)] \<and>
         cs_capabilities s = cb_capabilities b \<and> cs_created_at s = now"
proof -
  from g obtain tok i e where g': "ag_access_token g = PStr tok" "\<not> blank tok" "ag_issued_at g = PInt i" "ag_expires_at g = PInt e"
    "0 \<le> i" "i < e" "i \<le> now" by (auto simp: grant_ok_def)
  then have "validate_times (PInt i) (PInt e) = Inr (Some i, Some e)" by (simp add: validate_times_Inr)
  moreover have "\<not> blank ''access_token''" by code_simp
  ultimately show ?thesis
    using b g' by (simp add: CredentialSnapshot_def caps_ok_arg)
qed

lemma finish_cases:
  assumes "during (p\<lparr>rp_busy := True\<rparr>) w2" and "(s, p') = snapshot_finish r (rw_provider w2)"
  obtains (revoked) "s = Inl (Exc CredentialRevokedError ''credential_source_revoked'')" "rp_state p' = ''revoked''"
      "rp_grant p' = None" "\<not> rp_busy p'" "rp_binding p' = rp_binding p" "rp_generation p' = rp_generation p" "rp_anchor p' = rp_anchor p"
  | (failed) e where "s = Inl e" "rp_state p' = ''blocked_auth''" "rp_grant p' = None" "\<not> rp_busy p'"
      "rp_binding p' = rp_binding p" "rp_generation p' = rp_generation p" "rp_anchor p' = rp_anchor p"
      "e \<in> {Exc KeyboardInterrupt ''credential_refresh_interrupted'', Exc SystemExit ''credential_refresh_interrupted'',
            Exc CredentialAuthBlocked ''credential_refresh_failed''}"
  | (issued) g now anchor refreshed where "r = Inr (g, now, anchor, refreshed)"
      "rp_state p' = (if rp_generation p + of_bool refreshed > 1 then ''ready_rotated'' else ''ready'')"
      "rp_grant p' = Some g" "\<not> rp_busy p'" "rp_binding p' = rp_binding p" "rp_anchor p' = Some anchor"
      "rp_generation p' = rp_generation p + of_bool refreshed"
      "s = CredentialSnapshot (PStr (cb_provider_id (rp_binding p))) (PStr (cb_account_id (rp_binding p)))
                   (PList (map PStr (cb_capabilities (rp_binding p)))) (PDict [(''access_token'', ag_access_token g)])
                   (ag_issued_at g) (ag_expires_at g) True (PInt now)"
proof -
  let ?q = "rw_provider w2"
  have q: "rp_binding ?q = rp_binding p" "rp_generation ?q = rp_generation p" "rp_anchor ?q = rp_anchor p"
    using assms(1) by (auto simp: during_def)
  show thesis
  proof (cases "rp_state ?q = ''revoked'' \<or> (case r of Inl e \<Rightarrow> catches CredentialRevokedError e | Inr _ \<Rightarrow> False)")
    case True
    then have "snapshot_finish r ?q = (Inl (Exc CredentialRevokedError ''credential_source_revoked''),
        ?q\<lparr>rp_busy := False, rp_state := ''revoked'', rp_failure := Some ''credential_source_revoked'', rp_grant := None\<rparr>)"
      unfolding snapshot_finish_def Let_def by simp
    with assms(2) q show thesis by (intro revoked) auto
  next
    case False
    show thesis
    proof (cases r)
      case (Inl e)
      let ?x = "if catches KeyboardInterrupt e then Exc KeyboardInterrupt ''credential_refresh_interrupted''
          else if catches SystemExit e then Exc SystemExit ''credential_refresh_interrupted''
          else Exc CredentialAuthBlocked ''credential_refresh_failed''"
      from Inl False have "snapshot_finish r ?q =
         (Inl ?x,
          ?q\<lparr>rp_busy := False, rp_state := ''blocked_auth'', rp_failure := Some ''credential_refresh_failed'', rp_grant := None\<rparr>)"
        unfolding snapshot_finish_def Let_def by simp
      with assms(2) q show thesis by (intro failed [of ?x]) simp_all
    next
      case (Inr x)
      obtain g now anchor refreshed where x: "x = (g, now, anchor, refreshed)" by (cases x) auto
      have gen: "rp_generation ?q + (if refreshed then 1 else 0) = rp_generation p + of_bool refreshed"
        by (simp add: q)
      from Inr x False have "snapshot_finish r ?q =
        (CredentialSnapshot (PStr (cb_provider_id (rp_binding p))) (PStr (cb_account_id (rp_binding p)))
                   (PList (map PStr (cb_capabilities (rp_binding p)))) (PDict [(''access_token'', ag_access_token g)])
                   (ag_issued_at g) (ag_expires_at g) True (PInt now),
         ?q\<lparr>rp_busy := False, rp_grant := Some g, rp_anchor := Some anchor, rp_generation := rp_generation p + of_bool refreshed,
            rp_state := (if rp_generation p + of_bool refreshed > 1 then ''ready_rotated'' else ''ready''), rp_failure := None\<rparr>)"
        unfolding snapshot_finish_def Let_def by (simp add: gen [symmetric] q(1))
      with assms(2) q Inr x show thesis by (intro issued [of g now anchor refreshed]) auto
    qed
  qed
qed

lemma finish_not_revoked:
  "snapshot_finish r p = (Inr s, p') \<Longrightarrow> rp_state p \<noteq> ''revoked''"
  by (auto simp: snapshot_finish_def Let_def)

text \<open>A snapshot is not issued when the provider was revoked after the call began.\<close>

lemma issued_unrevoked:
  assumes "watched rv h" and "\<not> rv w" and eq: "snapshot h required minimum known now_epoch w = (Inr s, w')"
  shows "\<not> rv w'"
proof -
  have frame: "rv (v\<lparr>rw_provider := p\<rparr>) = rv v" for v p using assms(1) by (simp add: watched_def)
  obtain ttl ep r w2 p where
    io: "snapshot_io h (rp_binding (rw_provider w)) (rp_grant (rw_provider w)) ttl ep
           (w\<lparr>rw_provider := (rw_provider w)\<lparr>rp_busy := True\<rparr>\<rparr>) = (r, w2)"
    and fin: "snapshot_finish r (rw_provider w2) = (Inr s, p)" and w': "w' = w2\<lparr>rw_provider := p\<rparr>"
    using eq by (auto simp: snapshot_def Let_def split: sum.splits prod.splits)
  have "revocation_noted rv (w\<lparr>rw_provider := (rw_provider w)\<lparr>rp_busy := True\<rparr>\<rparr>)"
    using assms(2) by (simp add: revocation_noted_def frame)
  then have "revocation_noted rv w2"
    using io tripleD_Inr [OF stays_io [OF steady_watched [OF assms(1)]]]
      tripleD_Inl [OF stays_io [OF steady_watched [OF assms(1)]]]
    by (cases r) blast+
  with finish_not_revoked [OF fin] show ?thesis by (auto simp: revocation_noted_def w' frame)
qed

text \<open>The moves of a provider: a revocation, or a snapshot in some world of the host.\<close>

inductive provider_step :: "'x refresh_world_scheme refresh_host \<Rightarrow> refresh_provider \<Rightarrow> refresh_provider \<Rightarrow> bool"
  for h :: "'x refresh_world_scheme refresh_host" where
  Revoke: "provider_step h p (revoke p)"
| Snapshot: "host_ok h \<Longrightarrow> snapshot h required minimum known now_epoch w = (s, w') \<Longrightarrow>
     provider_step h (rw_provider w) (rw_provider w')"

lemma provider_step_ok:
  assumes "provider_step h p p'" and "provider_ok p"
  shows "provider_ok p'"
  using assms
proof (induction rule: provider_step.induct)
  case (Revoke p)
  then show ?case by (rule revoke_ok)
next
  case (Snapshot required minimum known now_epoch w s w')
  from Snapshot(1,2) show ?case
  proof (cases rule: snapshot_cases)
    case (refused e)
    with Snapshot show ?thesis by simp
  next
    case (carried ttl ep req r w2)
    from carried(7,8) show ?thesis
    proof (cases rule: finish_cases)
      case (issued g now anchor refreshed)
      let ?b = "rp_binding (rw_provider w)"
      have "io_post ?b ttl ((rw_provider w)\<lparr>rp_busy := True\<rparr>) g now anchor"
        using snapshot_io_Inr [OF Snapshot(1)] carried(6) issued(1) by fastforce
      then have "grant_ok ?b g now ttl"
        using Snapshot(3) carried(4) by (auto simp: io_post_def provider_ok_def intro: grant_ok_norm)
      then have "grant_ok ?b g now 0" using carried(4) by (rule grant_ok_weaken)
      with issued Snapshot(3) show ?thesis by (auto simp: provider_ok_def)
    qed (use Snapshot(3) in \<open>auto simp: provider_ok_def\<close>)
  qed
qed

lemma provider_step_terminal:
  assumes "provider_step h p p'"
  shows "(rp_state p = ''revoked'' \<longrightarrow> rp_state p' = ''revoked'') \<and>
    (rp_state p = ''blocked_auth'' \<longrightarrow> rp_state p' \<in> {''blocked_auth'', ''revoked''}) \<and>
    rp_generation p \<le> rp_generation p' \<and>
    (\<forall>a. rp_anchor p = Some a \<longrightarrow> (\<exists>a'. rp_anchor p' = Some a' \<and> fst a \<le> fst a')) \<and> rp_binding p' = rp_binding p"
  using assms
proof (induction rule: provider_step.induct)
  case (Snapshot required minimum known now_epoch w s w')
  from Snapshot(1,2) show ?case
  proof (cases rule: snapshot_cases)
    case (carried ttl ep req r w2)
    note live = carried(5) [unfolded allowed_state]
    from carried(7,8) show ?thesis
    proof (cases rule: finish_cases)
      case (issued g now anchor refreshed)
      have "io_post (rp_binding (rw_provider w)) ttl ((rw_provider w)\<lparr>rp_busy := True\<rparr>) g now anchor"
        using snapshot_io_Inr [OF Snapshot(1)] carried(6) issued(1) by fastforce
      with issued live show ?thesis by (auto simp: io_post_def)
    qed (use live in auto)
  qed simp
qed simp

section \<open>A host\<close>

text \<open>A host with a stopped clock whose source answers every refresh with the given result.\<close>

definition demo_binding :: credential_binding where
  "demo_binding = \<lparr>cb_provider_id = ''git'', cb_account_id = ''me'', cb_capabilities = [''read'']\<rparr>"

definition demo_grant :: access_grant where
  "demo_grant = \<lparr>ag_provider_id = PStr ''git'', ag_account_id = PStr ''me'', ag_capabilities = PList [PStr ''read''],
     ag_access_token = PStr ''tok'', ag_issued_at = PInt 90, ag_expires_at = PInt 900\<rparr>"

definition demo_host :: "exc + grant_value \<Rightarrow> refresh_world refresh_host" where
  "demo_host r = \<lparr>rh_clock = retE (PInt 100), rh_monotonic = (\<lambda>w. (0, w)), rh_available = retE PNone,
     rh_refresh = (\<lambda>b m. liftE r)\<rparr>"

definition demo_provider :: refresh_world where
  "demo_provider = \<lparr>rw_provider = RefreshingCredentialProvider demo_binding True\<rparr>"

lemma demo_host_ok: "host_ok (demo_host r)" "provider_ok (rw_provider demo_provider)"
proof -
  show "host_ok (demo_host r)" by (simp add: host_ok_def demo_host_def interfered_def)
  have "caps_ok [''read'']" "\<not> blank ''git''" by code_simp+
  then show "provider_ok (rw_provider demo_provider)"
    by (simp add: demo_provider_def new_provider_ok demo_binding_def)
qed

lemmas demo_snapshot_simps = snapshot_def snapshot_args_def capabilities_arg_def sorted_set_def List.map_filter_simps
  epoch_arg_def demo_provider_def RefreshingCredentialProvider_def demo_binding_def
  assert_issuance_allowed_def snapshot_io_def demo_host_def read_monotonic_def read_wall_def bindE_apply current_time_def
  trunc_def require_available_def obtain_grant_def mark_refreshing_def validate_grant_def demo_grant_def
  validate_times_def time_arg_def snapshot_finish_def CredentialSnapshot_def

lemma demo_strip [simp]: "strip ''read'' = ''read''" "strip ''tok'' = ''tok''" "strip ''git'' = ''git''"
  "strip ''access_token'' = ''access_token''"
  by code_simp+

lemma demo_issue:
  "\<exists>s w'. snapshot (demo_host (Inr (Grant demo_grant))) (PList [PStr ''read'']) (PInt 60) (PBool False) PNone demo_provider = (Inr s, w')"
  by (simp add: demo_snapshot_simps)

lemma demo_failure:
  "snd (snapshot (demo_host (Inl (Exc (OtherError ''HTTPError'') ''secret text''))) (PList [PStr ''read'']) (PInt 60)
     (PBool False) PNone demo_provider) \<noteq> demo_provider \<and>
   fst (snapshot (demo_host (Inl (Exc (OtherError ''HTTPError'') ''secret text''))) (PList [PStr ''read'']) (PInt 60)
     (PBool False) PNone demo_provider) = Inl (Exc CredentialAuthBlocked ''credential_refresh_failed'')"
  by (simp add: demo_snapshot_simps catches_def)

text \<open>A world that notes revocations, and a host on which another thread revokes the provider during the
  refresh, or does not.\<close>

record noting_world = refresh_world +
  nw_revoked :: bool

definition noting_host :: "bool \<Rightarrow> noting_world refresh_host" where
  "noting_host late = \<lparr>rh_clock = retE (PInt 100), rh_monotonic = (\<lambda>w. (0, w)), rh_available = retE PNone,
     rh_refresh = (\<lambda>b m w. (Inr (Grant demo_grant),
        if late then w\<lparr>rw_provider := revoke (rw_provider w), nw_revoked := True\<rparr> else w))\<rparr>"

definition noting_start :: noting_world where
  "noting_start = \<lparr>rw_provider = RefreshingCredentialProvider demo_binding True, nw_revoked = False\<rparr>"

lemma noting_host_ok: "host_ok (noting_host late)" "watched nw_revoked (noting_host late)"
  "provider_ok (rw_provider noting_start)"
  using demo_host_ok(2)
  by (auto simp: host_ok_def watched_def seen_step_def noting_host_def interfered_def
      noting_start_def demo_provider_def)

lemma noting_issue:
  "\<exists>s w'. snapshot (noting_host False) (PList [PStr ''read'']) (PInt 60) (PBool False) PNone noting_start = (Inr s, w')"
  by (simp add: demo_snapshot_simps noting_host_def noting_start_def)

text \<open>The revocation during the refresh stops the issue.\<close>

lemma noting_refusal:
  "fst (snapshot (noting_host True) (PList [PStr ''read'']) (PInt 60) (PBool False) PNone noting_start) =
     Inl (Exc CredentialRevokedError ''credential_source_revoked'')"
  by (simp add: demo_snapshot_simps noting_host_def noting_start_def)

section \<open>Properties\<close>

text \<open>C8. A snapshot is issued only from a grant that was checked, at the time the snapshot carries,
  against the provider's binding, its capabilities and the requested lifetime; the provider ends
  ready, not busy, holding that grant. And it is issued only if nobody revoked the provider during
  the call: an observer that every revocation by another thread switches on is still off when the
  call returns.\<close>

theorem snapshot_issues_checked_grant:
  assumes "host_ok h" and "provider_ok (rw_provider w)"
    and "snapshot h required minimum known now_epoch w = (Inr s, w')"
  shows "\<exists>ttl req g tok. minimum = PInt ttl \<and> capabilities_arg required = Inr req \<and>
     set req \<subseteq> set (cs_capabilities s) \<and> cs_capabilities s = cb_capabilities (rp_binding (rw_provider w)) \<and>
     rp_state (rw_provider w') \<in> {''ready'', ''ready_rotated''} \<and> \<not> rp_busy (rw_provider w') \<and>
     rp_grant (rw_provider w') = Some g \<and> grant_ok (rp_binding (rw_provider w)) g (cs_created_at s) ttl \<and>
     ag_access_token g = PStr tok \<and> cs_secrets s = [(''access_token'', tok)] \<and>
     (\<forall>rv. watched rv h \<and> \<not> rv w \<longrightarrow> \<not> rv w')"
  using assms(1,3)
proof (cases rule: snapshot_cases)
  case (carried ttl ep req r w2)
  let ?b = "rp_binding (rw_provider w)"
  have b: "caps_ok (cb_capabilities ?b)" "\<not> blank (cb_provider_id ?b)"
    using assms(2) by (simp_all add: provider_ok_def)
  from carried(7,8) show ?thesis
  proof (cases rule: finish_cases)
    case (issued g now anchor refreshed)
    have "io_post ?b ttl ((rw_provider w)\<lparr>rp_busy := True\<rparr>) g now anchor"
      using snapshot_io_Inr [OF assms(1)] carried(6) issued(1) by fastforce
    then have g: "grant_ok ?b g now ttl"
      using b(1) carried(4) by (auto simp: io_post_def intro: grant_ok_norm)
    with finish_snapshot [OF b g] issued carried have "?thesis" if "\<forall>rv. watched rv h \<and> \<not> rv w \<longrightarrow> \<not> rv w'"
      using that by auto
    moreover have "\<forall>rv. watched rv h \<and> \<not> rv w \<longrightarrow> \<not> rv w'"
      using issued_unrevoked [OF _ _ assms(3)] by blast
    ultimately show ?thesis by blast
  qed simp_all
qed simp

theorem snapshot_issues_checked_grant_witness:
  "\<exists>s w' g. snapshot (noting_host False) (PList [PStr ''read'']) (PInt 60) (PBool False) PNone noting_start = (Inr s, w') \<and>
     rp_grant (rw_provider w') = Some g \<and> grant_ok demo_binding g (cs_created_at s) 60 \<and> \<not> nw_revoked w' \<and>
     watched nw_revoked (noting_host False)"
proof -
  obtain s w' where s: "snapshot (noting_host False) (PList [PStr ''read'']) (PInt 60) (PBool False) PNone
      noting_start = (Inr s, w')"
    using noting_issue by blast
  have "rp_binding (rw_provider noting_start) = demo_binding" "\<not> nw_revoked noting_start"
    by (simp_all add: noting_start_def RefreshingCredentialProvider_def)
  with snapshot_issues_checked_grant [OF noting_host_ok(1,3) s] s noting_host_ok(2) [of False]
  show ?thesis by auto
qed

text \<open>C28. A snapshot that does not return fails closed. Either it was refused before it took the
  provider, with the world unchanged (wrong arguments, revoked, blocked, unconfigured, or
  another snapshot in progress), or it ends with the provider not busy, holding no grant, in
  the state \<open>revoked\<close> or \<open>blocked_auth\<close>, and raises one of four fixed exceptions whatever the
  host raised.\<close>

theorem snapshot_fails_closed:
  assumes "host_ok h" and "provider_ok (rw_provider w)"
    and "snapshot h required minimum known now_epoch w = (Inl e, w')"
  shows "w' = w \<or>
     (\<not> rp_busy (rw_provider w') \<and> rp_grant (rw_provider w') = None \<and>
      (rp_state (rw_provider w') = ''revoked'' \<and> e = Exc CredentialRevokedError ''credential_source_revoked'' \<or>
       rp_state (rw_provider w') = ''blocked_auth'' \<and>
       e \<in> {Exc KeyboardInterrupt ''credential_refresh_interrupted'', Exc SystemExit ''credential_refresh_interrupted'',
            Exc CredentialAuthBlocked ''credential_refresh_failed''}))"
  using assms(1,3)
proof (cases rule: snapshot_cases)
  case (carried ttl ep req r w2)
  let ?b = "rp_binding (rw_provider w)"
  have b: "caps_ok (cb_capabilities ?b)" "\<not> blank (cb_provider_id ?b)"
    using assms(2) by (simp_all add: provider_ok_def)
  from carried(7,8) show ?thesis
  proof (cases rule: finish_cases)
    case (issued g now anchor refreshed)
    have "io_post ?b ttl ((rw_provider w)\<lparr>rp_busy := True\<rparr>) g now anchor"
      using snapshot_io_Inr [OF assms(1)] carried(6) issued(1) by fastforce
    then have g: "grant_ok ?b g now ttl"
      using b(1) carried(4) by (auto simp: io_post_def intro: grant_ok_norm)
    with finish_snapshot [OF b g] issued show ?thesis by auto
  qed auto
qed simp

theorem snapshot_fails_closed_witness:
  "\<exists>w'. snapshot (demo_host (Inl (Exc (OtherError ''HTTPError'') ''secret text''))) (PList [PStr ''read'']) (PInt 60)
     (PBool False) PNone demo_provider = (Inl (Exc CredentialAuthBlocked ''credential_refresh_failed''), w') \<and>
     rp_state (rw_provider w') = ''blocked_auth'' \<and> rp_grant (rw_provider w') = None"
proof -
  obtain w' where s: "snapshot (demo_host (Inl (Exc (OtherError ''HTTPError'') ''secret text''))) (PList [PStr ''read'']) (PInt 60)
     (PBool False) PNone demo_provider = (Inl (Exc CredentialAuthBlocked ''credential_refresh_failed''), w')" "w' \<noteq> demo_provider"
    using demo_failure by (metis prod.collapse)
  from snapshot_fails_closed [OF demo_host_ok s(1)] s show ?thesis by auto
qed

text \<open>Along any sequence of snapshots and revocations of a provider built by its constructor:
  the invariant holds (no grant is kept in a terminal state, a kept grant was checked for the
  binding), \<open>revoked\<close> is never left, \<open>blocked_auth\<close> is left only for \<open>revoked\<close>, and the generation
  and the time anchor never go back.\<close>

theorem provider_history:
  assumes "(provider_step h)\<^sup>*\<^sup>* p q" and "provider_ok p"
  shows "provider_ok q \<and> (rp_state p = ''revoked'' \<longrightarrow> rp_state q = ''revoked'' \<and> rp_grant q = None) \<and>
     (rp_state p = ''blocked_auth'' \<longrightarrow> rp_state q \<in> {''blocked_auth'', ''revoked''} \<and> rp_grant q = None) \<and>
     rp_generation p \<le> rp_generation q \<and>
     (\<forall>a. rp_anchor p = Some a \<longrightarrow> (\<exists>a'. rp_anchor q = Some a' \<and> fst a \<le> fst a'))"
  using assms
proof (induction rule: rtranclp_induct)
  case base
  then show ?case by (auto simp: provider_ok_def)
next
  case (step q r)
  then have r: "provider_ok r" and q: "provider_ok q" using provider_step_ok by blast+
  have one: "(rp_state q = ''revoked'' \<longrightarrow> rp_state r = ''revoked'') \<and>
    (rp_state q = ''blocked_auth'' \<longrightarrow> rp_state r \<in> {''blocked_auth'', ''revoked''}) \<and>
    rp_generation q \<le> rp_generation r \<and>
    (\<forall>a. rp_anchor q = Some a \<longrightarrow> (\<exists>a'. rp_anchor r = Some a' \<and> fst a \<le> fst a'))"
    using provider_step_terminal [OF step(2)] by blast
  have none: "rp_state r \<in> {''blocked_auth'', ''revoked''} \<longrightarrow> rp_grant r = None"
    using r by (simp add: provider_ok_def)
  show ?case
  proof (intro conjI r)
    show "rp_generation p \<le> rp_generation r" using step(3,4) one by linarith
    show "\<forall>a. rp_anchor p = Some a \<longrightarrow> (\<exists>a'. rp_anchor r = Some a' \<and> fst a \<le> fst a')"
      using step(3,4) one by (meson order_trans)
  qed (use step(3,4) one none in blast)+
qed

theorem provider_history_witness:
  "(provider_step (demo_host (Inr (Grant demo_grant))))\<^sup>*\<^sup>* (revoke (rw_provider demo_provider))
     (revoke (rw_provider demo_provider)) \<and> rp_grant (revoke (rw_provider demo_provider)) = None"
proof -
  have "provider_step (demo_host (Inr (Grant demo_grant))) (revoke (rw_provider demo_provider))
      (revoke (revoke (rw_provider demo_provider)))"
    by (rule provider_step.Revoke)
  then have s: "(provider_step (demo_host (Inr (Grant demo_grant))))\<^sup>*\<^sup>* (revoke (rw_provider demo_provider))
     (revoke (rw_provider demo_provider))" by auto
  from provider_history [OF s revoke_ok [OF demo_host_ok(2)]] s show ?thesis by simp
qed

end
