(* ===== verification/Secret_Store.thy ===== *)
theory Secret_Store
  imports Refresh_Credentials
begin

text \<open>
  \<^verbatim>\<open>src/agent_core/versioned_secret_store.py\<close>: the record of a refresh secret, the contract of a
  versioned store, and \<open>VersionedHostCredentialSource\<close> on such a store. The store, the provider's
  refresh exchange and the attempt-id factory are arguments; the world is what they act on.
\<close>

section \<open>Records\<close>

record secret_record =
  sr_binding :: credential_binding
  sr_version :: int
  sr_state :: string
  sr_refresh_secret :: "string option"
  sr_refresh_generation :: int
  sr_active_attempt_id :: "string option"
  sr_last_attempt_id :: "string option"
  sr_failure :: "string option"

definition FAILURE_CODES :: "string list" where
  "FAILURE_CODES = [''refresh_rejected'', ''refresh_outcome_ambiguous'', ''refresh_response_invalid_or_incomplete'',
     ''secret_store_commit_ambiguous'', ''credential_source_revoked'']"

definition RECORD_STATES :: "string list" where
  "RECORD_STATES = [''ready'', ''refreshing'', ''blocked_auth'', ''blocked_ambiguous'', ''revoked'']"

definition attempt_id_ok :: "string \<Rightarrow> bool" where
  "attempt_id_ok s = ident_match ascii_alnum (\<lambda>c. ascii_alnum c \<or> c \<in> set ''._:-'') 127 s"

definition safe_attempt_id :: "pyval \<Rightarrow> string \<Rightarrow> string res" where
  "safe_attempt_id v err =
     (case v of PStr s \<Rightarrow> if attempt_id_ok s then Inr s else value_error err | _ \<Rightarrow> value_error err)"

text \<open>
  The constructor's checks (\<open>__post_init__\<close>), also run by \<open>dataclasses.replace\<close>. The types of the
  fields are those of the record; the value checks remain.
\<close>

definition RefreshSecretRecord :: "secret_record \<Rightarrow> secret_record res" where
  "RefreshSecretRecord r =
     (if sr_version r < 0 then value_error ''secret_store_version_invalid''
      else if sr_refresh_generation r < 0 then value_error ''refresh_generation_invalid''
      else if sr_state r \<notin> set RECORD_STATES then value_error ''secret_store_state_invalid''
      else if sr_state r = ''revoked'' \<and> sr_refresh_secret r \<noteq> None then value_error ''revoked_secret_must_be_cleared''
      else if sr_state r \<noteq> ''revoked'' \<and> (case sr_refresh_secret r of None \<Rightarrow> True | Some s \<Rightarrow> blank s)
      then value_error ''refresh_secret_required''
      else bindR (if sr_state r = ''refreshing''
                  then (case sr_active_attempt_id r of
                          None \<Rightarrow> value_error ''refresh_attempt_required''
                        | Some a \<Rightarrow> bindR (safe_attempt_id (PStr a) ''refresh_attempt_invalid'') (\<lambda>_. Inr ()))
                  else if sr_active_attempt_id r \<noteq> None then value_error ''active_attempt_only_while_refreshing''
                  else Inr ()) (\<lambda>_.
           bindR (case sr_last_attempt_id r of
                    None \<Rightarrow> Inr ()
                  | Some a \<Rightarrow> bindR (safe_attempt_id (PStr a) ''last_attempt_invalid'') (\<lambda>_. Inr ())) (\<lambda>_.
           if (case sr_failure r of None \<Rightarrow> False | Some f \<Rightarrow> f \<notin> set FAILURE_CODES)
           then value_error ''secret_store_failure_invalid''
           else Inr r)))"

definition record_safe_dict :: "secret_record \<Rightarrow> pydict" where
  "record_safe_dict r =
     [(''provider_id'', PStr (cb_provider_id (sr_binding r))), (''account_id'', PStr (cb_account_id (sr_binding r))),
      (''capabilities'', PList (map PStr (cb_capabilities (sr_binding r)))), (''version'', PInt (sr_version r)),
      (''state'', PStr (sr_state r)), (''refresh_generation'', PInt (sr_refresh_generation r)),
      (''active_attempt_id'', opt_str (sr_active_attempt_id r)), (''last_attempt_id'', opt_str (sr_last_attempt_id r)),
      (''failure'', opt_str (sr_failure r)), (''refresh_secret_present'', PBool (sr_refresh_secret r \<noteq> None))]"

definition record_repr :: "secret_record \<Rightarrow> string" where
  "record_repr r = ''RefreshSecretRecord('' @ py_repr (PDict (record_safe_dict r)) @ '', refresh_secret='' @
     repr_str ''<redacted>'' @ '')''"

section \<open>The store interface\<close>

record 'w secret_ops =
  se_read :: "credential_binding \<Rightarrow> ('w, secret_record) eff"
  se_cas :: "credential_binding \<Rightarrow> int \<Rightarrow> secret_record \<Rightarrow> ('w, secret_record) eff"

section \<open>The in-memory store\<close>

type_synonym secret_key = "string \<times> string \<times> string list"

record memory_store =
  ms_records :: "(secret_key \<times> secret_record) list"

definition ms_key :: "credential_binding \<Rightarrow> secret_key" where
  "ms_key b = (cb_provider_id b, cb_account_id b, cb_capabilities b)"

definition ms_seed :: "credential_binding \<Rightarrow> pyval \<Rightarrow> ('x memory_store_scheme, secret_record) eff" where
  "ms_seed b secret w =
     (if \<not> nonblank_str secret then (value_error ''refresh_secret_required'', w)
      else case RefreshSecretRecord \<lparr>sr_binding = b, sr_version = 0, sr_state = ''ready'', sr_refresh_secret = as_str secret,
                  sr_refresh_generation = 0, sr_active_attempt_id = None, sr_last_attempt_id = None, sr_failure = None\<rparr> of
        Inl e \<Rightarrow> (Inl e, w)
      | Inr r \<Rightarrow> if map_of (ms_records w) (ms_key b) \<noteq> None
                then (Inl (Exc SecretStoreConflict ''secret_store_record_already_exists''), w)
                else (Inr r, w\<lparr>ms_records := AList.update (ms_key b) r (ms_records w)\<rparr>))"

definition ms_read :: "credential_binding \<Rightarrow> ('x memory_store_scheme, secret_record) eff" where
  "ms_read b w =
     (case map_of (ms_records w) (ms_key b) of
        None \<Rightarrow> (Inl (Exc CredentialAuthBlocked ''credential_secret_unconfigured''), w)
      | Some r \<Rightarrow> (Inr r, w))"

definition ms_compare_and_swap :: "credential_binding \<Rightarrow> int \<Rightarrow> secret_record \<Rightarrow> ('x memory_store_scheme, secret_record) eff" where
  "ms_compare_and_swap b expected replacement w =
     (if expected < 0 then (value_error ''secret_store_expected_version_invalid'', w)
      else if sr_binding replacement \<noteq> b then (value_error ''secret_store_replacement_binding_mismatch'', w)
      else if sr_version replacement \<noteq> expected + 1 then (value_error ''secret_store_replacement_version_invalid'', w)
      else case map_of (ms_records w) (ms_key b) of
        None \<Rightarrow> (Inl (Exc SecretStoreConflict ''secret_store_version_conflict''), w)
      | Some c \<Rightarrow> if sr_version c \<noteq> expected then (Inl (Exc SecretStoreConflict ''secret_store_version_conflict''), w)
                 else (Inr replacement, w\<lparr>ms_records := AList.update (ms_key b) replacement (ms_records w)\<rparr>))"

definition ms_ops :: "'x memory_store_scheme secret_ops" where
  "ms_ops = \<lparr>se_read = ms_read, se_cas = ms_compare_and_swap\<rparr>"

section \<open>The credential source\<close>

text \<open>What an exchange returns: a result with a grant (or something else) and the rotated secret.\<close>

datatype exchange_value = Exchanged grant_value pyval | NotExchanged

record 'w secret_source =
  sc_binding :: credential_binding
  sc_store :: "'w secret_ops"
  sc_exchange :: "credential_binding \<Rightarrow> string \<Rightarrow> string \<Rightarrow> int \<Rightarrow> ('w, exchange_value) eff"
  sc_attempt_id :: "('w, pyval) eff"

definition source_read :: "'w secret_source \<Rightarrow> ('w, secret_record) eff" where
  "source_read s =
     bindE (tryE (se_read (sc_store s) (sc_binding s))
              (\<lambda>e. if catches SecretStoreError e
                   then raiseE (Exc CredentialAuthBlocked ''credential_secret_store_unavailable'') else raiseE e)) (\<lambda>r.
     if sr_binding r \<noteq> sc_binding s
     then raiseE (Exc CredentialAuthBlocked ''credential_secret_store_integrity_error'') else retE r)"

definition fixed_attempt :: "pyval \<Rightarrow> string res" where
  "fixed_attempt v =
     (case safe_attempt_id v ''credential_refresh_attempt_invalid'' of
        Inl _ \<Rightarrow> Inl (Exc CredentialAuthBlocked ''credential_refresh_attempt_invalid'') | Inr a \<Rightarrow> Inr a)"

definition state_available :: "secret_record \<Rightarrow> unit res" where
  "state_available r =
     (if sr_state r = ''ready'' then Inr ()
      else if sr_state r = ''revoked'' then Inl (Exc CredentialRevokedError ''credential_source_revoked'')
      else if sr_state r = ''refreshing'' then Inl (Exc CredentialRefreshInProgress ''credential_refresh_owned_elsewhere'')
      else if sr_state r = ''blocked_ambiguous'' then Inl (Exc CredentialAuthBlocked ''credential_refresh_outcome_ambiguous'')
      else Inl (Exc CredentialAuthBlocked ''credential_auth_unavailable''))"

definition assert_available :: "'w secret_source \<Rightarrow> ('w, unit) eff" where
  "assert_available s = bindE (source_read s) (\<lambda>r. liftE (state_available r))"

definition source_cas :: "'w secret_source \<Rightarrow> secret_record \<Rightarrow> secret_record \<Rightarrow> ('w, secret_record) eff" where
  "source_cas s current replacement = se_cas (sc_store s) (sc_binding s) (sr_version current) replacement"

definition claimed_record :: "secret_record \<Rightarrow> string \<Rightarrow> secret_record" where
  "claimed_record current attempt =
     current\<lparr>sr_version := sr_version current + 1, sr_state := ''refreshing'', sr_active_attempt_id := Some attempt,
             sr_failure := None\<rparr>"

definition claim :: "'w secret_source \<Rightarrow> secret_record \<Rightarrow> string \<Rightarrow> ('w, secret_record) eff" where
  "claim s current attempt =
     bindE (liftE (RefreshSecretRecord (claimed_record current attempt))) (\<lambda>claimed.
     tryE (source_cas s current claimed)
       (\<lambda>e. if catches SecretStoreAmbiguousWrite e
            then bindE (source_read s) (\<lambda>observed.
                 if sr_state observed = ''refreshing'' \<and> sr_active_attempt_id observed = Some attempt \<and>
                    sr_version observed = sr_version claimed
                 then retE observed
                 else raiseE (Exc CredentialAuthBlocked ''credential_refresh_claim_ambiguous''))
            else if catches SecretStoreConflict e
            then raiseE (Exc CredentialRefreshInProgress ''credential_refresh_owned_elsewhere'')
            else raiseE e))"

definition blocked_record :: "secret_record \<Rightarrow> string \<Rightarrow> string \<Rightarrow> string \<Rightarrow> secret_record" where
  "blocked_record current attempt st failure =
     current\<lparr>sr_version := sr_version current + 1, sr_state := st, sr_active_attempt_id := None,
             sr_last_attempt_id := Some attempt, sr_failure := Some failure\<rparr>"

definition block_source :: "'w secret_source \<Rightarrow> secret_record \<Rightarrow> string \<Rightarrow> string \<Rightarrow> string \<Rightarrow> ('w, secret_record) eff" where
  "block_source s current attempt st failure =
     bindE (liftE (RefreshSecretRecord (blocked_record current attempt st failure))) (\<lambda>blocked.
     tryE (source_cas s current blocked)
       (\<lambda>e. if catches SecretStoreConflict e \<or> catches SecretStoreAmbiguousWrite e
            then bindE (source_read s) (\<lambda>observed.
                 if sr_state observed = st \<and> sr_last_attempt_id observed = Some attempt \<and>
                    sr_failure observed = Some failure
                 then retE observed
                 else raiseE (Exc CredentialAuthBlocked ''credential_refresh_recovery_state_uncertain''))
            else raiseE e))"

definition validate_exchange_result ::
  "credential_binding \<Rightarrow> exchange_value \<Rightarrow> int \<Rightarrow> (access_grant \<times> string) res" where
  "validate_exchange_result b x minimum =
     (case x of
        NotExchanged \<Rightarrow> value_error ''invalid_refresh_exchange_result''
      | Exchanged NotGrant _ \<Rightarrow> value_error ''invalid_access_grant''
      | Exchanged (Grant g) rotated \<Rightarrow>
          if \<not> py_eq (ag_provider_id g) (PStr (cb_provider_id b)) \<or> \<not> py_eq (ag_account_id g) (PStr (cb_account_id b))
          then value_error ''credential_identity_mismatch''
          else bindR (capabilities_arg (ag_capabilities g)) (\<lambda>cs.
            if cs \<noteq> cb_capabilities b then value_error ''credential_scope_changed''
            else if \<not> nonblank_str (ag_access_token g) then value_error ''invalid_access_token''
            else bindR (seconds_arg (ag_issued_at g) ''invalid_issue_time'') (\<lambda>i.
                 bindR (seconds_arg (ag_expires_at g) ''invalid_expiry'') (\<lambda>e.
                 bindR (validate_times (ag_issued_at g) (ag_expires_at g)) (\<lambda>_.
                 if e - i < minimum then value_error ''invalid_access_lifetime''
                 else if \<not> nonblank_str rotated then value_error ''rotated_refresh_secret_required''
                 else Inr (g, py_str rotated))))))"

definition committed_record :: "secret_record \<Rightarrow> string \<Rightarrow> string \<Rightarrow> secret_record" where
  "committed_record current attempt rotated =
     current\<lparr>sr_version := sr_version current + 1, sr_state := ''ready'', sr_refresh_secret := Some rotated,
             sr_refresh_generation := sr_refresh_generation current + 1, sr_active_attempt_id := None,
             sr_last_attempt_id := Some attempt, sr_failure := None\<rparr>"

definition commit_success :: "'w secret_source \<Rightarrow> secret_record \<Rightarrow> string \<Rightarrow> string \<Rightarrow> ('w, secret_record) eff" where
  "commit_success s current attempt rotated =
     bindE (liftE (RefreshSecretRecord (committed_record current attempt rotated))) (\<lambda>committed.
     tryE (source_cas s current committed)
       (\<lambda>e. if catches SecretStoreAmbiguousWrite e
            then bindE (source_read s) (\<lambda>observed.
                 if sr_state observed = ''ready'' \<and> sr_version observed = sr_version committed \<and>
                    sr_refresh_generation observed = sr_refresh_generation committed \<and>
                    sr_last_attempt_id observed = Some attempt \<and> sr_refresh_secret observed = Some rotated
                 then retE observed
                 else bindE (if sr_state observed = ''refreshing'' \<and> sr_active_attempt_id observed = Some attempt
                             then block_source s observed attempt ''blocked_ambiguous'' ''secret_store_commit_ambiguous''
                             else retE observed)
                        (\<lambda>_. raiseE (Exc CredentialAuthBlocked ''credential_refresh_persistence_ambiguous'')))
            else if catches SecretStoreConflict e
            then bindE (source_read s) (\<lambda>observed.
                 if sr_state observed = ''revoked''
                 then raiseE (Exc CredentialRevokedError ''credential_source_revoked'')
                 else raiseE (Exc CredentialAuthBlocked ''credential_refresh_persistence_conflict''))
            else raiseE e))"

text \<open>The refresh once the attempt is claimed.\<close>

definition refresh_claimed :: "'w secret_source \<Rightarrow> secret_record \<Rightarrow> string \<Rightarrow> int \<Rightarrow> ('w, access_grant) eff" where
  "refresh_claimed s claimed attempt minimum = (\<lambda>w.
     case sr_refresh_secret claimed of
       None \<Rightarrow> (Inl (Exc AssertionError []), w)
     | Some secret \<Rightarrow>
         (case sc_exchange s (sc_binding s) secret attempt minimum w of
            (Inl e, w') \<Rightarrow>
              if catches RefreshExchangeRejected e
              then bindE (block_source s claimed attempt ''blocked_auth'' ''refresh_rejected'')
                     (\<lambda>_. raiseE (Exc CredentialAuthBlocked ''credential_refresh_rejected'')) w'
              else bindE (block_source s claimed attempt ''blocked_ambiguous'' ''refresh_outcome_ambiguous'')
                     (\<lambda>_. if catches KeyboardInterrupt e then raiseE (Exc KeyboardInterrupt ''credential_refresh_interrupted'')
                          else if catches SystemExit e then raiseE (Exc SystemExit ''credential_refresh_interrupted'')
                          else raiseE (Exc CredentialAuthBlocked ''credential_refresh_outcome_ambiguous'')) w'
          | (Inr x, w') \<Rightarrow>
              (case validate_exchange_result (sc_binding s) x minimum of
                 Inl _ \<Rightarrow> bindE (block_source s claimed attempt ''blocked_ambiguous'' ''refresh_response_invalid_or_incomplete'')
                            (\<lambda>_. raiseE (Exc CredentialAuthBlocked ''credential_refresh_outcome_ambiguous'')) w'
               | Inr (g, rotated) \<Rightarrow> bindE (commit_success s claimed attempt rotated) (\<lambda>_. retE g) w')))"

definition refresh_access :: "'w secret_source \<Rightarrow> credential_binding \<Rightarrow> pyval \<Rightarrow> ('w, access_grant) eff" where
  "refresh_access s b minimum =
     (if b \<noteq> sc_binding s then raiseE (Exc CredentialAuthBlocked ''credential_binding_mismatch'')
      else bindE (liftE (seconds_arg minimum ''invalid_minimum_ttl'')) (\<lambda>ttl.
           bindE (source_read s) (\<lambda>current.
           bindE (liftE (state_available current)) (\<lambda>_.
           bindE (sc_attempt_id s) (\<lambda>v.
           bindE (liftE (fixed_attempt v)) (\<lambda>attempt.
           bindE (claim s current attempt) (\<lambda>claimed.
           refresh_claimed s claimed attempt ttl)))))))"

section \<open>Recovery and revocation\<close>

definition recover_cas :: "'w secret_source \<Rightarrow> secret_record \<Rightarrow> secret_record \<Rightarrow> ('w, secret_record) eff" where
  "recover_cas s current replacement =
     tryE (source_cas s current replacement)
       (\<lambda>e. if catches SecretStoreAmbiguousWrite e
            then raiseE (Exc CredentialAuthBlocked ''credential_recovery_persistence_ambiguous'')
            else if catches SecretStoreConflict e
            then raiseE (Exc SecretStoreConflict ''secret_store_version_conflict'')
            else raiseE e)"

text \<open>The checks both recoveries start with.\<close>

definition recover_current :: "'w secret_source \<Rightarrow> int \<Rightarrow> string \<Rightarrow> ('w, secret_record) eff" where
  "recover_current s expected attempt =
     bindE (source_read s) (\<lambda>current.
     if sr_version current \<noteq> expected then raiseE (Exc SecretStoreConflict ''secret_store_version_conflict'')
     else if sr_state current \<noteq> ''blocked_ambiguous'' \<or> sr_last_attempt_id current \<noteq> Some attempt
     then raiseE (Exc CredentialAuthBlocked ''ambiguous_recovery_precondition_failed'')
     else retE current)"

definition recover_ambiguous_not_applied :: "'w secret_source \<Rightarrow> pyval \<Rightarrow> pyval \<Rightarrow> ('w, secret_record) eff" where
  "recover_ambiguous_not_applied s expected attempt =
     bindE (liftE (seconds_arg expected ''secret_store_expected_version_invalid'')) (\<lambda>v.
     bindE (liftE (fixed_attempt attempt)) (\<lambda>a.
     bindE (recover_current s v a) (\<lambda>current.
     bindE (liftE (RefreshSecretRecord (current\<lparr>sr_version := sr_version current + 1, sr_state := ''ready'',
              sr_active_attempt_id := None, sr_failure := None\<rparr>))) (\<lambda>replacement.
     recover_cas s current replacement))))"

definition recover_ambiguous_with_rotated_secret ::
  "'w secret_source \<Rightarrow> pyval \<Rightarrow> pyval \<Rightarrow> pyval \<Rightarrow> ('w, secret_record) eff" where
  "recover_ambiguous_with_rotated_secret s expected attempt rotated =
     bindE (liftE (seconds_arg expected ''secret_store_expected_version_invalid'')) (\<lambda>v.
     bindE (liftE (fixed_attempt attempt)) (\<lambda>a.
     if \<not> nonblank_str rotated then raiseE (Exc ValueError ''rotated_refresh_secret_required'')
     else bindE (recover_current s v a) (\<lambda>current.
          bindE (liftE (RefreshSecretRecord (current\<lparr>sr_version := sr_version current + 1, sr_state := ''ready'',
                   sr_refresh_secret := as_str rotated, sr_refresh_generation := sr_refresh_generation current + 1,
                   sr_active_attempt_id := None, sr_failure := None\<rparr>))) (\<lambda>replacement.
          recover_cas s current replacement))))"

definition revoked_record :: "secret_record \<Rightarrow> secret_record" where
  "revoked_record current =
     current\<lparr>sr_version := sr_version current + 1, sr_state := ''revoked'', sr_refresh_secret := None,
             sr_active_attempt_id := None, sr_failure := Some ''credential_source_revoked''\<rparr>"

definition source_revoke :: "'w secret_source \<Rightarrow> ('w, secret_record) eff" where
  "source_revoke s =
     bindE (source_read s) (\<lambda>current.
     if sr_state current = ''revoked'' then retE current
     else bindE (liftE (RefreshSecretRecord (revoked_record current))) (\<lambda>replacement.
          tryE (source_cas s current replacement)
            (\<lambda>e. if catches SecretStoreAmbiguousWrite e \<or> catches SecretStoreConflict e
                 then bindE (source_read s) (\<lambda>observed.
                      if sr_state observed = ''revoked'' \<and> sr_refresh_secret observed = None then retE observed
                      else if catches SecretStoreAmbiguousWrite e
                      then raiseE (Exc CredentialAuthBlocked ''credential_revoke_persistence_ambiguous'')
                      else raiseE (Exc CredentialAuthBlocked ''credential_revoke_persistence_conflict''))
                 else raiseE e)))"

end
