(* ===== verification/Secret_Safety.thy ===== *)
theory Secret_Safety
  imports Secret_Store
begin

text \<open>
  What a versioned store promises (the locale \<open>secret_store\<close>) and what
  \<open>VersionedHostCredentialSource\<close> guarantees on every such store, with other workers active on it
  while the provider's exchange runs:
  \<^item> versions only move forward, a revoked record is final, and stored records stay valid;
  \<^item> the exchange is contacted only after the attempt is durably claimed, and an access grant is
    returned only after the rotated secret is durably committed;
  \<^item> a refresh that fails after the claim leaves no record that would offer the old secret again.
  \<open>InMemoryVersionedSecretStore\<close> meets the contract; \<open>DurableVersionedSecretStore\<close> is treated in
  \<open>Durable_Secrets\<close>.
\<close>

section \<open>Valid records\<close>

lemma safe_attempt_id_Inr [simp]: "safe_attempt_id v err = Inr a \<longleftrightarrow> v = PStr a \<and> attempt_id_ok a"
  by (cases v) (auto simp: safe_attempt_id_def)

lemma RefreshSecretRecord_Inr:
  "RefreshSecretRecord x = Inr r \<longleftrightarrow> r = x \<and> 0 \<le> sr_version x \<and> 0 \<le> sr_refresh_generation x \<and>
     sr_state x \<in> set RECORD_STATES \<and>
     (if sr_state x = ''revoked'' then sr_refresh_secret x = None
      else \<exists>s. sr_refresh_secret x = Some s \<and> \<not> blank s) \<and>
     (if sr_state x = ''refreshing'' then \<exists>a. sr_active_attempt_id x = Some a \<and> attempt_id_ok a
      else sr_active_attempt_id x = None) \<and>
     (\<forall>a. sr_last_attempt_id x = Some a \<longrightarrow> attempt_id_ok a) \<and>
     (\<forall>f. sr_failure x = Some f \<longrightarrow> f \<in> set FAILURE_CODES)"
proof -
  have "(if sr_state x = ''refreshing''
      then (case sr_active_attempt_id x of None \<Rightarrow> value_error ''refresh_attempt_required''
            | Some a \<Rightarrow> bindR (safe_attempt_id (PStr a) ''refresh_attempt_invalid'') (\<lambda>_. Inr ()))
      else if sr_active_attempt_id x \<noteq> None then value_error ''active_attempt_only_while_refreshing'' else Inr ()) = Inr () \<longleftrightarrow>
     (if sr_state x = ''refreshing'' then \<exists>a. sr_active_attempt_id x = Some a \<and> attempt_id_ok a
      else sr_active_attempt_id x = None)"
    by (auto simp: bindR_eq_Inr split: option.splits)
  moreover have "(case sr_last_attempt_id x of None \<Rightarrow> Inr ()
      | Some a \<Rightarrow> bindR (safe_attempt_id (PStr a) ''last_attempt_invalid'') (\<lambda>_. Inr ())) = Inr () \<longleftrightarrow>
     (\<forall>a. sr_last_attempt_id x = Some a \<longrightarrow> attempt_id_ok a)"
    by (auto simp: bindR_eq_Inr split: option.splits)
  ultimately show ?thesis
    unfolding RefreshSecretRecord_def
    by (auto simp: bindR_eq_Inr split: option.splits)
qed

text \<open>A record that is valid and belongs to the binding.\<close>

definition rec_ok :: "credential_binding \<Rightarrow> secret_record \<Rightarrow> bool" where
  "rec_ok b r \<longleftrightarrow> RefreshSecretRecord r = Inr r \<and> sr_binding r = b"

lemma rec_ok_new: "RefreshSecretRecord x = Inr r \<Longrightarrow> sr_binding x = b \<Longrightarrow> rec_ok b r \<and> r = x"
  by (simp add: rec_ok_def RefreshSecretRecord_Inr)

section \<open>How a stored record may move\<close>

definition advances :: "secret_record \<Rightarrow> secret_record \<Rightarrow> bool" where
  "advances r r' \<longleftrightarrow> r' = r \<or> (sr_version r < sr_version r' \<and> sr_state r \<noteq> ''revoked'')"

lemma advances_refl [simp]: "advances r r"
  by (simp add: advances_def)

lemma advances_trans: "advances a b \<Longrightarrow> advances b c \<Longrightarrow> advances a c"
  by (auto simp: advances_def)

lemma advances_version: "advances c r \<Longrightarrow> sr_version r = sr_version c \<Longrightarrow> r = c"
  by (auto simp: advances_def)

section \<open>The contract\<close>

text \<open>
  \<open>stored w b\<close> is the record the store holds for a binding. A write that reports a conflict did not
  happen; any other failing write may have happened, and then against the expected version.
\<close>

locale secret_store =
  fixes ops :: "'w secret_ops"
    and stored :: "'w \<Rightarrow> credential_binding \<Rightarrow> secret_record option"
  assumes read_Inr: "se_read ops b w = (Inr r, w') \<Longrightarrow> stored w b = Some r \<and> stored w' b = stored w b"
    and read_Inl: "se_read ops b w = (Inl e, w') \<Longrightarrow> stored w' b = stored w b"
    and cas_Inr: "se_cas ops b v r w = (Inr x, w') \<Longrightarrow>
      x = r \<and> sr_version r = v + 1 \<and> (\<forall>c. stored w b = Some c \<longrightarrow> sr_version c = v) \<and> stored w' b = Some r"
    and cas_Inl: "rec_ok b r \<Longrightarrow> se_cas ops b v r w = (Inl e, w') \<Longrightarrow>
      stored w' b = stored w b \<or>
      (\<not> catches SecretStoreConflict e \<and> sr_version r = v + 1 \<and>
       (\<forall>c. stored w b = Some c \<longrightarrow> sr_version c = v) \<and> stored w' b = Some r)"

context secret_store
begin

text \<open>The record came from \<open>c\<close> by valid moves.\<close>

definition since :: "credential_binding \<Rightarrow> secret_record \<Rightarrow> 'w \<Rightarrow> bool" where
  "since b c w \<longleftrightarrow> (\<exists>r. stored w b = Some r \<and> advances c r \<and> rec_ok b r)"

text \<open>What other workers, and this one, may do to the record of a binding.\<close>

definition moves :: "credential_binding \<Rightarrow> 'w \<Rightarrow> 'w \<Rightarrow> bool" where
  "moves b w w' \<longleftrightarrow> (\<forall>r. stored w b = Some r \<longrightarrow> rec_ok b r \<longrightarrow> since b r w')"

definition source_on :: "'w secret_source \<Rightarrow> bool" where
  "source_on s \<longleftrightarrow> sc_store s = ops \<and> (\<forall>w. moves (sc_binding s) w (snd (sc_attempt_id s w))) \<and>
     (\<forall>secret a m w. moves (sc_binding s) w (snd (sc_exchange s (sc_binding s) secret a m w)))"

lemma since_moves: "since b c w \<Longrightarrow> moves b w w' \<Longrightarrow> since b c w'"
  by (auto simp: since_def moves_def intro: advances_trans)

lemma since_since: "since b c w \<Longrightarrow> advances a c \<Longrightarrow> since b a w"
  by (auto simp: since_def intro: advances_trans)

lemma since_refl: "stored w b = Some r \<Longrightarrow> rec_ok b r \<Longrightarrow> since b r w"
  by (simp add: since_def)

abbreviation tracks :: "credential_binding \<Rightarrow> secret_record \<Rightarrow> ('w, 'a) eff \<Rightarrow> bool" where
  "tracks b c m \<equiv> triple (since b c) m (\<lambda>_. since b c) (\<lambda>_. since b c)"

lemma tracks_bind: "tracks b c m \<Longrightarrow> (\<And>x. tracks b c (f x)) \<Longrightarrow> tracks b c (bindE m f)"
  by (rule triple_bind)

lemma tracks_pure [simp]: "tracks b c (retE x)" "tracks b c (raiseE e)" "tracks b c (liftE r)"
  by (auto intro: triple_ret triple_raise triple_lift)

lemma tracks_lift: "(\<And>y. r = Inr y \<Longrightarrow> tracks b c (f y)) \<Longrightarrow> tracks b c (bindE (liftE r) f)"
  by (cases r) simp_all

lemma tracks_if: "(P \<Longrightarrow> tracks b c m) \<Longrightarrow> (\<not> P \<Longrightarrow> tracks b c n) \<Longrightarrow> tracks b c (if P then m else n)"
  by simp

lemma tracks_try: "tracks b c m \<Longrightarrow> (\<And>e. tracks b c (h e)) \<Longrightarrow> tracks b c (tryE m h)"
proof (rule tripleI)
  assume m: "tracks b c m" and h: "\<And>e. tracks b c (h e)"
  fix w x w'
  assume w: "since b c w"
  note m1 = tripleD_Inr [OF m w] and m2 = tripleD_Inl [OF m w]
  show "since b c w'" if "tryE m h w = (Inr x, w')"
    using that m1 m2 tripleD_Inr [OF h] by (auto simp: tryE_apply split: prod.splits sum.splits)
  show "since b c w'" if "tryE m h w = (Inl e, w')" for e
    using that m1 m2 tripleD_Inl [OF h] by (auto simp: tryE_apply split: prod.splits sum.splits)
qed

lemma tracks_env: "(\<And>w. moves b w (snd (m w))) \<Longrightarrow> tracks b c m"
  by (rule tripleI) (metis since_moves snd_conv)+

lemma tracks_weaken: "tracks b c m \<Longrightarrow> advances a c \<Longrightarrow> triple (since b c) m (\<lambda>_. since b a) (\<lambda>_. since b a)"
  by (erule triple_conseq) (auto intro: since_since)

text \<open>What a read through the source gives.\<close>

lemma source_read_Inr:
  assumes "sc_store s = ops" and "source_read s w = (Inr r, w')"
  shows "stored w (sc_binding s) = Some r \<and> stored w' (sc_binding s) = Some r \<and> sr_binding r = sc_binding s"
  using assms read_Inr [of "sc_binding s" w]
  by (auto simp: source_read_def bindE_apply tryE_apply split: prod.splits sum.splits if_splits)

lemma source_read_Inl:
  assumes "sc_store s = ops" and "source_read s w = (Inl e, w')"
  shows "stored w' (sc_binding s) = stored w (sc_binding s)"
  using assms read_Inr [of "sc_binding s" w] read_Inl [of "sc_binding s" w]
  by (auto simp: source_read_def bindE_apply tryE_apply split: prod.splits sum.splits if_splits)

lemma tracks_read:
  assumes "sc_store s = ops"
    and f: "\<And>cur. advances c cur \<Longrightarrow> rec_ok (sc_binding s) cur \<Longrightarrow> tracks (sc_binding s) cur (f cur)"
  shows "tracks (sc_binding s) c (bindE (source_read s) f)"
proof (rule triple_bind)
  let ?R = "\<lambda>cur w. stored w (sc_binding s) = Some cur \<and> (advances c cur \<and> rec_ok (sc_binding s) cur)"
  show "triple (since (sc_binding s) c) (source_read s) ?R (\<lambda>_. since (sc_binding s) c)"
    using source_read_Inr [OF assms(1)] source_read_Inl [OF assms(1)]
    by (intro tripleI) (fastforce simp: since_def)+
  fix cur
  show "triple (?R cur) (f cur) (\<lambda>_. since (sc_binding s) c) (\<lambda>_. since (sc_binding s) c)"
    by (rule triple_pure, rule triple_pre [OF tracks_weaken [OF f]]) (auto intro: since_refl)
qed

lemma tracks_read_only: "sc_store s = ops \<Longrightarrow> tracks (sc_binding s) c (source_read s)"
  using source_read_Inr [of s] source_read_Inl [of s]
  by (intro tripleI) (fastforce simp: since_def)+

text \<open>A write of a valid successor of the current record.\<close>

lemma tracks_cas:
  assumes "sc_store s = ops" and "sr_state cur \<noteq> ''revoked''" and "rec_ok (sc_binding s) repl"
  shows "tracks (sc_binding s) cur (source_cas s cur repl)"
proof (rule tripleI)
  fix w x w'
  assume w: "since (sc_binding s) cur w" and eq: "source_cas s cur repl w = (Inr x, w')"
  then have "sr_version repl = sr_version cur + 1" "stored w' (sc_binding s) = Some repl"
    using cas_Inr [of "sc_binding s" "sr_version cur" repl w x w'] assms(1) by (simp_all add: source_cas_def)
  with assms(2,3) show "since (sc_binding s) cur w'" by (simp add: since_def advances_def)
next
  fix w e w'
  assume w: "since (sc_binding s) cur w" and eq: "source_cas s cur repl w = (Inl e, w')"
  then have "stored w' (sc_binding s) = stored w (sc_binding s) \<or>
      (sr_version repl = sr_version cur + 1 \<and> stored w' (sc_binding s) = Some repl)"
    using cas_Inl [OF assms(3), of "sr_version cur" w e w'] assms(1) by (auto simp: source_cas_def)
  then show "since (sc_binding s) cur w'"
  proof
    assume "stored w' (sc_binding s) = stored w (sc_binding s)"
    with w show ?thesis by (simp add: since_def)
  next
    assume "sr_version repl = sr_version cur + 1 \<and> stored w' (sc_binding s) = Some repl"
    with assms(2,3) show ?thesis by (simp add: since_def advances_def)
  qed
qed

lemma tracks_block:
  assumes "sc_store s = ops" and "sr_state cur \<noteq> ''revoked''" and "rec_ok (sc_binding s) cur"
  shows "tracks (sc_binding s) cur (block_source s cur attempt st failure)"
  unfolding block_source_def
proof (rule tracks_lift)
  fix r
  assume "RefreshSecretRecord (blocked_record cur attempt st failure) = Inr r"
  then have "rec_ok (sc_binding s) r"
    using assms(3) by (auto dest!: rec_ok_new [where b = "sc_binding s"] simp: blocked_record_def rec_ok_def)
  then show "tracks (sc_binding s) cur (tryE (source_cas s cur r)
       (\<lambda>e. if catches SecretStoreConflict e \<or> catches SecretStoreAmbiguousWrite e
            then bindE (source_read s) (\<lambda>observed.
                 if sr_state observed = st \<and> sr_last_attempt_id observed = Some attempt \<and>
                    sr_failure observed = Some failure
                 then retE observed
                 else raiseE (Exc CredentialAuthBlocked ''credential_refresh_recovery_state_uncertain''))
            else raiseE e))"
    using assms by (intro tracks_try tracks_cas tracks_if tracks_bind tracks_read_only) simp_all
qed

text \<open>A claim that returned is the stored record.\<close>

definition is_claim :: "credential_binding \<Rightarrow> secret_record \<Rightarrow> string \<Rightarrow> secret_record \<Rightarrow> bool" where
  "is_claim b cur attempt r \<longleftrightarrow> rec_ok b r \<and> sr_state r = ''refreshing'' \<and> sr_active_attempt_id r = Some attempt \<and>
     sr_version r = sr_version cur + 1 \<and> sr_state cur \<noteq> ''revoked''"

lemma is_claim_advances: "is_claim b cur attempt r \<Longrightarrow> advances cur r"
  by (simp add: is_claim_def advances_def)

lemma claim_triple:
  assumes s: "sc_store s = ops" and cur: "sr_state cur = ''ready''" "rec_ok (sc_binding s) cur"
  shows "triple (since (sc_binding s) cur) (claim s cur attempt)
     (\<lambda>r w. stored w (sc_binding s) = Some r \<and> is_claim (sc_binding s) cur attempt r) (\<lambda>_. since (sc_binding s) cur)"
proof -
  let ?b = "sc_binding s"
  let ?Q = "\<lambda>r w. stored w ?b = Some r \<and> is_claim ?b cur attempt r"
  let ?h = "\<lambda>cl e. if catches SecretStoreAmbiguousWrite e
            then bindE (source_read s) (\<lambda>observed.
                 if sr_state observed = ''refreshing'' \<and> sr_active_attempt_id observed = Some attempt \<and>
                    sr_version observed = sr_version cl
                 then retE observed
                 else raiseE (Exc CredentialAuthBlocked ''credential_refresh_claim_ambiguous''))
            else if catches SecretStoreConflict e
            then raiseE (Exc CredentialRefreshInProgress ''credential_refresh_owned_elsewhere'')
            else raiseE e"
  have body: "triple (since ?b cur) (tryE (source_cas s cur cl) (?h cl)) ?Q (\<lambda>_. since ?b cur)"
    if cl: "rec_ok ?b cl" "cl = claimed_record cur attempt" for cl
  proof -
    have c: "is_claim ?b cur attempt cl" using cl cur(1) by (simp add: is_claim_def claimed_record_def)
    have v: "sr_version cl = sr_version cur + 1" by (simp add: cl(2) claimed_record_def)
    have tr: "tracks ?b cur (source_cas s cur cl)" using s cur cl(1) by (intro tracks_cas) auto
    have rd: "tracks ?b cur (source_read s)" using s by (rule tracks_read_only)
    have obs: "?Q r w'" if w: "since ?b cur w" and eq: "?h cl e w = (Inr r, w')" for e r w w'
    proof -
      from eq obtain w1 where "source_read s w = (Inr r, w1)" "w1 = w'" "sr_state r = ''refreshing''"
        "sr_active_attempt_id r = Some attempt" "sr_version r = sr_version cl"
        by (auto simp: bindE_eq_Inr split: if_splits)
      moreover from this w have "stored w' ?b = Some r" "rec_ok ?b r"
        using source_read_Inr [OF s] by (auto simp: since_def)
      ultimately show ?thesis using v cur(1) by (simp add: is_claim_def)
    qed
    have hk: "tracks ?b cur (?h cl e)" for e
      by (intro tracks_if tracks_bind rd) simp_all
    show ?thesis
    proof (rule tripleI)
      fix w r w'
      assume w: "since ?b cur w" and eq: "tryE (source_cas s cur cl) (?h cl) w = (Inr r, w')"
      show "?Q r w'"
      proof (cases "source_cas s cur cl w")
        case (Pair x w1)
        show ?thesis
        proof (cases x)
          case (Inl e)
          with Pair w have "since ?b cur w1" using tripleD_Inl [OF tr w] by simp
          with obs eq Pair Inl show ?thesis by (simp add: tryE_apply)
        next
          case (Inr y)
          with Pair eq s c show ?thesis
            using cas_Inr [of ?b "sr_version cur" cl w y w1] by (simp add: tryE_apply source_cas_def)
        qed
      qed
    next
      fix w e' w'
      assume w: "since ?b cur w" and eq: "tryE (source_cas s cur cl) (?h cl) w = (Inl e', w')"
      obtain x w1 where x: "source_cas s cur cl w = (x, w1)" by fastforce
      with eq obtain e where "x = Inl e" unfolding tryE_apply by (cases x) simp_all
      with x eq have c: "source_cas s cur cl w = (Inl e, w1)" and hd: "?h cl e w1 = (Inl e', w')"
        unfolding tryE_apply by simp_all
      have "since ?b cur w1" by (rule tripleD_Inl [OF tr w c])
      from tripleD_Inl [OF hk [of e] this hd] show "since ?b cur w'" .
    qed
  qed
  show ?thesis
  proof (cases "RefreshSecretRecord (claimed_record cur attempt)")
    case (Inl e)
    then show ?thesis by (simp add: claim_def triple_raise)
  next
    case (Inr r)
    then have r: "rec_ok ?b r" "r = claimed_record cur attempt"
      using cur(2) rec_ok_new [OF Inr, of ?b] by (simp_all add: claimed_record_def rec_ok_def)
    have "claim s cur attempt = tryE (source_cas s cur r) (?h r)"
      unfolding claim_def Inr bindE_lift ..
    with body [OF r] show ?thesis by (simp only:)
  qed
qed

lemma tracks_commit:
  assumes s: "sc_store s = ops" and cur: "sr_state cur \<noteq> ''revoked''" "rec_ok (sc_binding s) cur"
  shows "tracks (sc_binding s) cur (commit_success s cur attempt rotated)"
  unfolding commit_success_def
proof (rule tracks_lift)
  fix r
  assume "RefreshSecretRecord (committed_record cur attempt rotated) = Inr r"
  then have r: "rec_ok (sc_binding s) r"
    using cur(2) by (auto dest!: rec_ok_new [where b = "sc_binding s"] simp: committed_record_def rec_ok_def)
  show "tracks (sc_binding s) cur (tryE (source_cas s cur r)
       (\<lambda>e. if catches SecretStoreAmbiguousWrite e
            then bindE (source_read s) (\<lambda>observed.
                 if sr_state observed = ''ready'' \<and> sr_version observed = sr_version r \<and>
                    sr_refresh_generation observed = sr_refresh_generation r \<and>
                    sr_last_attempt_id observed = Some attempt \<and> sr_refresh_secret observed = Some rotated
                 then retE observed
                 else bindE (if sr_state observed = ''refreshing'' \<and> sr_active_attempt_id observed = Some attempt
                             then block_source s observed attempt ''blocked_ambiguous'' ''secret_store_commit_ambiguous''
                             else retE observed)
                        (\<lambda>_. raiseE (Exc CredentialAuthBlocked ''credential_refresh_persistence_ambiguous'')))
            else if catches SecretStoreConflict e
            then bindE (source_read s) (\<lambda>observed.
                 if sr_state observed = ''revoked''
                 then raiseE (Exc CredentialRevokedError ''credential_source_revoked'')
                 else raiseE (Exc CredentialAuthBlocked ''credential_refresh_persistence_conflict''))
            else raiseE e))"
    by (intro tracks_try tracks_cas tracks_if tracks_read tracks_bind [where m = "if _ then _ else _"] tracks_block)
      (use s cur r in simp_all)
qed

lemma tracks_refresh_claimed:
  assumes s: "source_on s" and cl: "sr_state cl = ''refreshing''" "rec_ok (sc_binding s) cl"
  shows "tracks (sc_binding s) cl (refresh_claimed s cl attempt minimum)"
proof (cases "sr_refresh_secret cl")
  case None
  then have "refresh_claimed s cl attempt minimum = raiseE (Exc AssertionError [])"
    by (simp add: refresh_claimed_def fun_eq_iff)
  then show ?thesis by simp
next
  case (Some secret)
  let ?b = "sc_binding s"
  have st: "sc_store s = ops" using s by (simp add: source_on_def)
  have "sr_state cl \<noteq> ''revoked''" using cl(1) by simp
  note blk = tracks_block [OF st this cl(2)] and cmt = tracks_commit [OF st this cl(2)]
  have after: "tracks ?b cl (bindE (block_source s cl attempt a f) (\<lambda>_. raiseE e))" for a f e
    by (intro tracks_bind blk) simp
  have after2: "tracks ?b cl (bindE (block_source s cl attempt a f) (\<lambda>_. if c then raiseE e else if d then raiseE e' else raiseE e''))"
    for a f c d e e' e''
    by (intro tracks_bind blk tracks_if) simp_all
  have com: "tracks ?b cl (bindE (commit_success s cl attempt rotated) (\<lambda>_. retE g))" for rotated and g :: access_grant
    by (intro tracks_bind cmt) simp
  have ex: "tracks ?b cl (sc_exchange s ?b secret attempt minimum)"
    using s by (intro tracks_env) (simp add: source_on_def)
  define k where "k = (\<lambda>r :: exc + exchange_value. case r of
       Inl e \<Rightarrow> (if catches RefreshExchangeRejected e
              then bindE (block_source s cl attempt ''blocked_auth'' ''refresh_rejected'')
                     (\<lambda>_. raiseE (Exc CredentialAuthBlocked ''credential_refresh_rejected''))
              else bindE (block_source s cl attempt ''blocked_ambiguous'' ''refresh_outcome_ambiguous'')
                     (\<lambda>_. if catches KeyboardInterrupt e then raiseE (Exc KeyboardInterrupt ''credential_refresh_interrupted'')
                          else if catches SystemExit e then raiseE (Exc SystemExit ''credential_refresh_interrupted'')
                          else raiseE (Exc CredentialAuthBlocked ''credential_refresh_outcome_ambiguous'')))
     | Inr x \<Rightarrow> (case validate_exchange_result ?b x minimum of
                 Inl _ \<Rightarrow> bindE (block_source s cl attempt ''blocked_ambiguous'' ''refresh_response_invalid_or_incomplete'')
                            (\<lambda>_. raiseE (Exc CredentialAuthBlocked ''credential_refresh_outcome_ambiguous''))
               | Inr (g, rotated) \<Rightarrow> bindE (commit_success s cl attempt rotated) (\<lambda>_. retE g)))"
  have k: "tracks ?b cl (k r)" for r
    unfolding k_def by (auto split: sum.split prod.split intro!: after after2 com)
  have eq: "refresh_claimed s cl attempt minimum w = k r w'"
    if "sc_exchange s ?b secret attempt minimum w = (r, w')" for r w w'
    using that by (cases r) (auto simp: refresh_claimed_def k_def Some split: sum.split prod.split)
  have "since ?b cl w'" if w: "since ?b cl w" and "sc_exchange s ?b secret attempt minimum w = (r, w')" for r w w'
    using that tripleD_Inr [OF ex w] tripleD_Inl [OF ex w] by (cases r) auto
  note w' = this
  show ?thesis
  proof (rule tripleI)
    fix w x w''
    assume w: "since ?b cl w"
    obtain r w' where x: "sc_exchange s ?b secret attempt minimum w = (r, w')" by fastforce
    note now = w' [OF w x]
    show "since ?b cl w''" if "refresh_claimed s cl attempt minimum w = (Inr x, w'')"
      using that unfolding eq [OF x] by (rule tripleD_Inr [OF k now])
    show "since ?b cl w''" if "refresh_claimed s cl attempt minimum w = (Inl e, w'')" for e
      using that unfolding eq [OF x] by (rule tripleD_Inl [OF k now])
  qed
qed

lemma state_available_Inr [simp]: "state_available r = Inr u \<longleftrightarrow> sr_state r = ''ready''"
  by (auto simp: state_available_def)

lemma state_available_ready [simp]: "sr_state r = ''ready'' \<Longrightarrow> state_available r = Inr ()"
  by (simp add: state_available_def)

lemma tracks_refresh:
  assumes s: "source_on s"
  shows "tracks (sc_binding s) c (refresh_access s b minimum)"
proof -
  have st: "sc_store s = ops" using s by (simp add: source_on_def)
  have go: "tracks (sc_binding s) cur (bindE (claim s cur attempt) (\<lambda>cl. refresh_claimed s cl attempt ttl))"
    if cur: "sr_state cur = ''ready''" "rec_ok (sc_binding s) cur" for cur attempt ttl
  proof (rule triple_bind [OF claim_triple [OF st cur]])
    fix cl
    show "triple (\<lambda>w. stored w (sc_binding s) = Some cl \<and> is_claim (sc_binding s) cur attempt cl)
        (refresh_claimed s cl attempt ttl) (\<lambda>_. since (sc_binding s) cur) (\<lambda>_. since (sc_binding s) cur)"
      by (rule triple_pure, rule triple_pre [OF tracks_weaken [OF tracks_refresh_claimed [OF s]]])
        (auto simp: is_claim_def advances_def intro: since_refl)
  qed
  have env: "tracks (sc_binding s) cur (sc_attempt_id s)" for cur
    using s by (intro tracks_env) (simp add: source_on_def)
  show ?thesis
    unfolding refresh_access_def
    by (intro tracks_if tracks_lift tracks_read [OF st] tracks_bind [OF env] go) simp_all
qed

lemma tracks_recover_cas:
  assumes "sc_store s = ops" and "sr_state cur \<noteq> ''revoked''" and "rec_ok (sc_binding s) repl"
  shows "tracks (sc_binding s) cur (recover_cas s cur repl)"
  unfolding recover_cas_def by (intro tracks_try tracks_cas assms tracks_if) simp_all

lemma recover_current_Inr:
  assumes "sc_store s = ops" and "recover_current s v a w = (Inr cur, w')"
  shows "stored w (sc_binding s) = Some cur \<and> stored w' (sc_binding s) = Some cur \<and> sr_version cur = v \<and>
    sr_state cur = ''blocked_ambiguous'' \<and> sr_last_attempt_id cur = Some a \<and> sr_binding cur = sc_binding s"
  using assms source_read_Inr [OF assms(1)]
  by (auto simp: recover_current_def bindE_eq_Inr split: if_splits)

lemma recover_current_Inl:
  assumes "sc_store s = ops" and "recover_current s v a w = (Inl e, w')"
  shows "stored w' (sc_binding s) = stored w (sc_binding s)"
proof (cases "source_read s w")
  case (Pair r w1)
  then show ?thesis
    using assms source_read_Inr [OF assms(1)] source_read_Inl [OF assms(1)]
    by (cases r) (auto simp: recover_current_def bindE_apply split: if_splits)
qed

lemma tracks_recover:
  assumes st: "sc_store s = ops"
    and f: "\<And>cur. sr_state cur = ''blocked_ambiguous'' \<Longrightarrow> rec_ok (sc_binding s) cur \<Longrightarrow> tracks (sc_binding s) cur (f cur)"
  shows "tracks (sc_binding s) c (bindE (recover_current s v a) f)"
proof (rule triple_bind)
  let ?R = "\<lambda>cur w. stored w (sc_binding s) = Some cur \<and>
      (advances c cur \<and> rec_ok (sc_binding s) cur \<and> sr_state cur = ''blocked_ambiguous'')"
  show "triple (since (sc_binding s) c) (recover_current s v a) ?R (\<lambda>_. since (sc_binding s) c)"
    using recover_current_Inr [OF st] recover_current_Inl [OF st]
    by (intro tripleI) (fastforce simp: since_def)+
  fix cur
  show "triple (?R cur) (f cur) (\<lambda>_. since (sc_binding s) c) (\<lambda>_. since (sc_binding s) c)"
    by (rule triple_pure, rule triple_pre [OF tracks_weaken [OF f]]) (auto intro: since_refl)
qed

lemma tracks_recover_not_applied:
  assumes "sc_store s = ops"
  shows "tracks (sc_binding s) c (recover_ambiguous_not_applied s expected attempt)"
  unfolding recover_ambiguous_not_applied_def
  by (intro tracks_lift tracks_recover tracks_recover_cas assms)
    (auto dest!: rec_ok_new [where b = "sc_binding s"] simp: rec_ok_def)

lemma tracks_recover_rotated:
  assumes "sc_store s = ops"
  shows "tracks (sc_binding s) c (recover_ambiguous_with_rotated_secret s expected attempt rotated)"
  unfolding recover_ambiguous_with_rotated_secret_def
  by (intro tracks_lift tracks_if tracks_recover tracks_recover_cas assms)
    (auto dest!: rec_ok_new [where b = "sc_binding s"] simp: rec_ok_def)

lemma tracks_revoke:
  assumes s: "sc_store s = ops"
  shows "tracks (sc_binding s) c (source_revoke s)"
  unfolding source_revoke_def
  by (intro tracks_read [OF s] tracks_if tracks_lift tracks_try tracks_cas s tracks_bind [OF tracks_read_only [OF s]])
    (auto dest!: rec_ok_new [where b = "sc_binding s"] simp: rec_ok_def revoked_record_def)

text \<open>Every operation of a source moves the stored record forward, whatever its outcome.\<close>

lemma tracks_moves: "(\<And>c. tracks b c m) \<Longrightarrow> moves b w (snd (m w))"
  unfolding moves_def
proof (intro allI impI)
  fix r
  assume m: "\<And>c. tracks b c m" and r: "stored w b = Some r" "rec_ok b r"
  have w: "since b r w" using r by (rule since_refl)
  obtain x w' where x: "m w = (x, w')" by fastforce
  show "since b r (snd (m w))"
    using tripleD_Inr [OF m w] tripleD_Inl [OF m w] x by (cases x) auto
qed

lemma source_moves:
  assumes "source_on s"
  shows "moves (sc_binding s) w (snd (refresh_access s b minimum w))"
    "moves (sc_binding s) w (snd (assert_available s w))"
    "moves (sc_binding s) w (snd (recover_ambiguous_not_applied s expected attempt w))"
    "moves (sc_binding s) w (snd (recover_ambiguous_with_rotated_secret s expected attempt rotated w))"
    "moves (sc_binding s) w (snd (source_revoke s w))"
proof -
  have st: "sc_store s = ops" using assms by (simp add: source_on_def)
  have "tracks (sc_binding s) c (assert_available s)" for c
    unfolding assert_available_def by (intro tracks_bind tracks_read_only st) simp
  then show "moves (sc_binding s) w (snd (assert_available s w))" by (rule tracks_moves)
  show "moves (sc_binding s) w (snd (refresh_access s b minimum w))"
    by (rule tracks_moves) (rule tracks_refresh [OF assms])
  show "moves (sc_binding s) w (snd (recover_ambiguous_not_applied s expected attempt w))"
    by (rule tracks_moves) (rule tracks_recover_not_applied [OF st])
  show "moves (sc_binding s) w (snd (recover_ambiguous_with_rotated_secret s expected attempt rotated w))"
    by (rule tracks_moves) (rule tracks_recover_rotated [OF st])
  show "moves (sc_binding s) w (snd (source_revoke s w))"
    by (rule tracks_moves) (rule tracks_revoke [OF st])
qed

section \<open>Refresh: claim, exchange, commit\<close>

text \<open>A commit that returned left the rotated secret stored.\<close>

lemma commit_success_Inr:
  assumes st: "sc_store s = ops" and eq: "commit_success s cl attempt rotated w = (Inr r, w')"
  shows "stored w' (sc_binding s) = Some r \<and> sr_state r = ''ready'' \<and> sr_refresh_secret r = Some rotated \<and>
    sr_version r = sr_version cl + 1 \<and> sr_refresh_generation r = sr_refresh_generation cl + 1 \<and>
    sr_last_attempt_id r = Some attempt"
proof -
  let ?c = "committed_record cl attempt rotated"
  obtain cm where "RefreshSecretRecord ?c = Inr cm" using eq by (auto simp: commit_success_def bindE_apply split: sum.splits)
  then have ok: "RefreshSecretRecord ?c = Inr ?c" by (simp add: RefreshSecretRecord_Inr)
  show ?thesis
  proof (cases "source_cas s cl ?c w")
    case (Pair x w1)
    show ?thesis
    proof (cases x)
      case (Inr y)
      with Pair eq st show ?thesis
        using cas_Inr [of "sc_binding s" "sr_version cl" ?c w y w1]
        by (simp add: commit_success_def ok tryE_apply source_cas_def) (auto simp: committed_record_def)
    next
      case (Inl e)
      with Pair eq obtain w2 where "source_read s w1 = (Inr r, w2)" "w2 = w'" "sr_state r = ''ready''"
        "sr_version r = sr_version ?c" "sr_refresh_generation r = sr_refresh_generation ?c"
        "sr_last_attempt_id r = Some attempt" "sr_refresh_secret r = Some rotated"
        by (auto simp: commit_success_def ok tryE_apply bindE_eq_Inr split: if_splits)
      with source_read_Inr [OF st] show ?thesis by (auto simp: committed_record_def)
    qed
  qed
qed

lemma claim_Inr_stored:
  assumes st: "sc_store s = ops" and eq: "claim s cur attempt w = (Inr r, w')" and v: "sr_state cur = ''ready''"
  shows "stored w' (sc_binding s) = Some r \<and> sr_state r = ''refreshing'' \<and> sr_active_attempt_id r = Some attempt"
proof -
  let ?c = "claimed_record cur attempt"
  obtain cm where "RefreshSecretRecord ?c = Inr cm" using eq by (auto simp: claim_def bindE_apply split: sum.splits)
  then have ok: "RefreshSecretRecord ?c = Inr ?c" by (simp add: RefreshSecretRecord_Inr)
  show ?thesis
  proof (cases "source_cas s cur ?c w")
    case (Pair x w1)
    show ?thesis
    proof (cases x)
      case (Inr y)
      with Pair eq st show ?thesis
        using cas_Inr [of "sc_binding s" "sr_version cur" ?c w y w1]
        by (simp add: claim_def ok tryE_apply source_cas_def) (auto simp: claimed_record_def)
    next
      case (Inl e)
      with Pair eq obtain w2 where "source_read s w1 = (Inr r, w2)" "w2 = w'" "sr_state r = ''refreshing''"
        "sr_active_attempt_id r = Some attempt"
        by (auto simp: claim_def ok tryE_apply bindE_eq_Inr split: if_splits)
      with source_read_Inr [OF st] show ?thesis by auto
    qed
  qed
qed

lemma refresh_access_Inr:
  assumes st: "sc_store s = ops" and eq: "refresh_access s b minimum w = (Inr g, w')"
  shows "\<exists>ttl attempt secret rotated c x r w1 w2. minimum = PInt ttl \<and> b = sc_binding s \<and>
    stored w1 b = Some c \<and> sr_state c = ''refreshing'' \<and> sr_active_attempt_id c = Some attempt \<and> sr_refresh_secret c = Some secret \<and>
    sc_exchange s b secret attempt ttl w1 = (Inr x, w2) \<and> validate_exchange_result b x ttl = Inr (g, rotated) \<and>
    stored w' b = Some r \<and> sr_state r = ''ready'' \<and> sr_refresh_secret r = Some rotated \<and>
    sr_version r = sr_version c + 1 \<and> sr_refresh_generation r = sr_refresh_generation c + 1 \<and>
    sr_last_attempt_id r = Some attempt"
proof -
  obtain ttl cur w0 attempt wa cl w1 where b: "b = sc_binding s" and ttl: "minimum = PInt ttl"
    and "sr_state cur = ''ready''" and cl: "claim s cur attempt wa = (Inr cl, w1)"
    and rc: "refresh_claimed s cl attempt ttl w1 = (Inr g, w')"
    using eq by (auto simp: refresh_access_def bindE_eq_Inr split: if_splits)
  then have c: "stored w1 b = Some cl \<and> sr_state cl = ''refreshing'' \<and> sr_active_attempt_id cl = Some attempt"
    using claim_Inr_stored [OF st cl] by simp
  obtain secret where sec: "sr_refresh_secret cl = Some secret"
    using rc by (auto simp: refresh_claimed_def split: option.splits)
  obtain x0 w2 where x0: "sc_exchange s b secret attempt ttl w1 = (x0, w2)" by fastforce
  with rc sec b obtain x where x: "x0 = Inr x"
    by (cases x0) (auto simp: refresh_claimed_def bindE_apply split: if_splits prod.splits sum.splits)
  with rc sec x0 b obtain g' rotated where v: "validate_exchange_result b x ttl = Inr (g', rotated)"
    by (auto simp: refresh_claimed_def bindE_apply split: sum.splits prod.splits)
  with rc sec x0 b x obtain r where r: "commit_success s cl attempt rotated w2 = (Inr r, w')" "g' = g"
    by (auto simp: refresh_claimed_def bindE_eq_Inr)
  show ?thesis
    using commit_success_Inr [OF st r(1)] c sec x0 x v r(2) b ttl
    by (intro exI [of _ ttl] exI [of _ attempt] exI [of _ secret] exI [of _ rotated] exI [of _ cl] exI [of _ x]
        exI [of _ r] exI [of _ w1] exI [of _ w2]) simp
qed

text \<open>
  The claim comes first: replace the exchange by one that ends the process unless the store holds
  the claim of this very attempt with this very secret. Nothing changes.
\<close>

definition claim_recorded :: "credential_binding \<Rightarrow> string \<Rightarrow> string \<Rightarrow> 'w \<Rightarrow> bool" where
  "claim_recorded b secret attempt w =
     (case stored w b of None \<Rightarrow> False
      | Some c \<Rightarrow> sr_state c = ''refreshing'' \<and> sr_active_attempt_id c = Some attempt \<and> sr_refresh_secret c = Some secret)"

definition guard_exchange :: "'w secret_source \<Rightarrow> 'w secret_source" where
  "guard_exchange s = s\<lparr>sc_exchange := (\<lambda>b secret attempt m w.
     if claim_recorded b secret attempt w then sc_exchange s b secret attempt m w
     else (Inl (Exc SystemExit ''attempt not claimed''), w))\<rparr>"

lemma guard_exchange_simps [simp]:
  "sc_store (guard_exchange s) = sc_store s" "sc_binding (guard_exchange s) = sc_binding s"
  "sc_attempt_id (guard_exchange s) = sc_attempt_id s" "source_read (guard_exchange s) = source_read s"
  "source_cas (guard_exchange s) = source_cas s"
  by (simp_all add: guard_exchange_def source_read_def source_cas_def fun_eq_iff)

lemma guard_exchange_block: "block_source (guard_exchange s) = block_source s"
  by (intro ext) (simp only: block_source_def guard_exchange_simps)

lemma guard_exchange_ops [simp]:
  "claim (guard_exchange s) = claim s" "block_source (guard_exchange s) = block_source s"
  "commit_success (guard_exchange s) = commit_success s"
  by (intro ext, simp only: claim_def commit_success_def guard_exchange_simps guard_exchange_block)+

lemma refresh_access_guarded:
  assumes st: "sc_store s = ops"
  shows "refresh_access (guard_exchange s) b minimum w = refresh_access s b minimum w"
proof -
  have claimed: "refresh_claimed (guard_exchange s) cl attempt ttl w1 = refresh_claimed s cl attempt ttl w1"
    if "claim s cur attempt w = (Inr cl, w1)" "sr_state cur = ''ready''" for cur attempt ttl w cl w1
  proof (cases "sr_refresh_secret cl")
    case (Some secret)
    then have "claim_recorded (sc_binding s) secret attempt w1"
      using claim_Inr_stored [OF st that] by (simp add: claim_recorded_def)
    then have "sc_exchange (guard_exchange s) (sc_binding s) secret attempt ttl w1 =
        sc_exchange s (sc_binding s) secret attempt ttl w1"
      by (simp add: guard_exchange_def)
    with Some show ?thesis unfolding refresh_claimed_def guard_exchange_simps guard_exchange_ops by simp
  qed (simp add: refresh_claimed_def)
  have "bindE (claim s cur attempt) (\<lambda>cl. refresh_claimed (guard_exchange s) cl attempt ttl) w =
      bindE (claim s cur attempt) (\<lambda>cl. refresh_claimed s cl attempt ttl) w" if "sr_state cur = ''ready''" for cur attempt ttl w
    using claimed [OF _ that] by (auto simp: bindE_apply split: prod.split sum.split)
  then show ?thesis
    unfolding refresh_access_def guard_exchange_simps guard_exchange_ops
    by (auto simp: bindE_apply [of "source_read s"] bindE_apply [of "sc_attempt_id s"] bindE_apply [of "liftE _"]
        split: prod.splits sum.splits)
qed

section \<open>A failing refresh\<close>

text \<open>Without other workers, what a write can leave.\<close>

lemma cas_leaves:
  assumes "sc_store s = ops" and "rec_ok (sc_binding s) repl" and "stored w (sc_binding s) = Some cur"
    and "source_cas s cur repl w = (x, w')"
  shows "stored w' (sc_binding s) \<in> {Some cur, Some repl}"
  using assms cas_Inr [of "sc_binding s" "sr_version cur" repl w] cas_Inl [of "sc_binding s" repl "sr_version cur" w]
  by (cases x) (auto simp: source_cas_def)

lemma read_leaves:
  assumes "sc_store s = ops" and "source_read s w = (x, w')"
  shows "stored w' (sc_binding s) = stored w (sc_binding s)"
  using assms source_read_Inr [OF assms(1)] source_read_Inl [OF assms(1)] by (cases x) auto

lemma block_leaves:
  assumes st: "sc_store s = ops" and ok: "rec_ok (sc_binding s) cur" and w: "stored w (sc_binding s) = Some cur"
    and eq: "block_source s cur attempt a f w = (x, w')"
  shows "stored w' (sc_binding s) \<in> {Some cur, Some (blocked_record cur attempt a f)}"
proof (cases "RefreshSecretRecord (blocked_record cur attempt a f)")
  case (Inl e)
  with eq w show ?thesis by (simp add: block_source_def)
next
  case (Inr r)
  then have r: "r = blocked_record cur attempt a f" by (simp add: RefreshSecretRecord_Inr)
  have rok: "rec_ok (sc_binding s) r"
    using ok Inr rec_ok_new [OF Inr, of "sc_binding s"] by (simp add: blocked_record_def rec_ok_def)
  obtain y w1 where y: "source_cas s cur r w = (y, w1)" by fastforce
  have w1: "stored w1 (sc_binding s) \<in> {Some cur, Some r}" by (rule cas_leaves [OF st rok w y])
  show ?thesis
  proof (cases y)
    case (Inr z)
    with eq y w1 r \<open>RefreshSecretRecord _ = Inr r\<close> show ?thesis by (simp add: block_source_def tryE_apply)
  next
    case (Inl e)
    obtain z w2 where z: "source_read s w1 = (z, w2)" by fastforce
    have "w' = w1 \<or> w' = w2"
      using eq y Inl z \<open>RefreshSecretRecord _ = Inr r\<close>
      by (cases z) (auto simp: block_source_def tryE_apply bindE_apply split: if_splits)
    with w1 read_leaves [OF st z] r show ?thesis by auto
  qed
qed

lemma commit_leaves:
  assumes st: "sc_store s = ops" and ok: "rec_ok (sc_binding s) cl" and w: "stored w (sc_binding s) = Some cl" and rf: "sr_state cl = ''refreshing''"
    and eq: "commit_success s cl attempt rotated w = (x, w')"
  shows "stored w' (sc_binding s) \<in> {Some cl, Some (committed_record cl attempt rotated),
    Some (blocked_record cl attempt ''blocked_ambiguous'' ''secret_store_commit_ambiguous'')}"
proof (cases "RefreshSecretRecord (committed_record cl attempt rotated)")
  case (Inl e)
  with eq w show ?thesis by (simp add: commit_success_def)
next
  case (Inr r)
  then have r: "r = committed_record cl attempt rotated" by (simp add: RefreshSecretRecord_Inr)
  have rok: "rec_ok (sc_binding s) r"
    using ok Inr rec_ok_new [OF Inr, of "sc_binding s"] by (simp add: committed_record_def rec_ok_def)
  obtain y w1 where y: "source_cas s cl r w = (y, w1)" by fastforce
  have w1: "stored w1 (sc_binding s) \<in> {Some cl, Some r}" by (rule cas_leaves [OF st rok w y])
  show ?thesis
  proof (cases y)
    case (Inr z)
    with eq y w1 r \<open>RefreshSecretRecord _ = Inr r\<close> show ?thesis by (auto simp: commit_success_def tryE_apply)
  next
    case (Inl e)
    obtain z w2 where z: "source_read s w1 = (z, w2)" by fastforce
    have w2: "stored w2 (sc_binding s) \<in> {Some cl, Some r}" using w1 read_leaves [OF st z] by simp
    consider "w' = w1 \<or> w' = w2"
      | obs u where "z = Inr obs" "sr_state obs = ''refreshing''"
          "block_source s obs attempt ''blocked_ambiguous'' ''secret_store_commit_ambiguous'' w2 = (u, w')"
      using eq y Inl z \<open>RefreshSecretRecord _ = Inr r\<close>
      by (cases z) (auto simp: commit_success_def tryE_apply bindE_apply split: if_splits prod.splits sum.splits)
    then show ?thesis
    proof cases
      case 1
      with w1 w2 r show ?thesis by auto
    next
      case 2
      have "stored w2 (sc_binding s) = Some obs" using source_read_Inr [OF st] z 2(1) by blast
      then have "obs = cl" using w2 2(2) r by (auto simp: committed_record_def)
      with block_leaves [OF st _ \<open>stored w2 _ = _\<close> 2(3)] ok show ?thesis by auto
    qed
  qed
qed

text \<open>The record a claim leaves without other workers.\<close>

lemma claim_leaves:
  assumes st: "sc_store s = ops" and ok: "rec_ok (sc_binding s) cur" and w: "stored w (sc_binding s) = Some cur" and rd: "sr_state cur = ''ready''"
    and eq: "claim s cur attempt w = (x, w')"
  shows "stored w' (sc_binding s) \<in> {Some cur, Some (claimed_record cur attempt)} \<and>
    (\<forall>cl. x = Inr cl \<longrightarrow> cl = claimed_record cur attempt \<and> stored w' (sc_binding s) = Some cl \<and> rec_ok (sc_binding s) cl)"
proof (cases "RefreshSecretRecord (claimed_record cur attempt)")
  case (Inl e)
  with eq w show ?thesis by (auto simp: claim_def)
next
  case (Inr r)
  then have r: "r = claimed_record cur attempt" by (simp add: RefreshSecretRecord_Inr)
  have rok: "rec_ok (sc_binding s) r"
    using ok Inr rec_ok_new [OF Inr, of "sc_binding s"] by (simp add: claimed_record_def rec_ok_def)
  obtain y w1 where y: "source_cas s cur r w = (y, w1)" by fastforce
  have w1: "stored w1 (sc_binding s) \<in> {Some cur, Some r}" by (rule cas_leaves [OF st rok w y])
  obtain z w2 where z: "source_read s w1 = (z, w2)" by fastforce
  have w2: "stored w2 (sc_binding s) \<in> {Some cur, Some r}" using w1 read_leaves [OF st z] by simp
  have "w' = w1 \<or> w' = w2"
    using eq y z \<open>RefreshSecretRecord _ = Inr r\<close>
    by (cases y; cases z) (auto simp: claim_def tryE_apply bindE_apply split: if_splits)
  then have "stored w' (sc_binding s) \<in> {Some cur, Some r}" using w1 w2 by auto
  moreover have "stored w' (sc_binding s) = Some cl \<and> sr_state cl = ''refreshing''" if "x = Inr cl" for cl
    using claim_Inr_stored [OF st _ rd] eq that by blast
  ultimately show ?thesis using r rd rok by auto
qed

text \<open>What the attempt can leave: a ready record is the untouched one, or one with the new secret.\<close>

definition settled :: "secret_record \<Rightarrow> secret_record \<Rightarrow> bool" where
  "settled cur r \<longleftrightarrow> r = cur \<or> sr_state r \<in> {''refreshing'', ''blocked_auth'', ''blocked_ambiguous''} \<or>
     (sr_state r = ''ready'' \<and> sr_refresh_generation r = sr_refresh_generation cur + 1)"

lemma refresh_claimed_leaves:
  assumes st: "sc_store s = ops"
    and keep: "\<And>secret a m w. stored (snd (sc_exchange s (sc_binding s) secret a m w)) (sc_binding s) = stored w (sc_binding s)"
    and ok: "rec_ok (sc_binding s) (claimed_record cur attempt)"
    and w: "stored w (sc_binding s) = Some (claimed_record cur attempt)"
    and eq: "refresh_claimed s (claimed_record cur attempt) attempt ttl w = (x, w')"
  shows "\<exists>r. stored w' (sc_binding s) = Some r \<and> settled cur r"
proof -
  let ?cl = "claimed_record cur attempt"
  have rf: "sr_state ?cl = ''refreshing''" by (simp add: claimed_record_def)
  note blk = block_leaves [OF st ok] and cmt = commit_leaves [OF st ok _ rf]
  have sb: "settled cur (blocked_record ?cl attempt a f)" if "a \<in> {''blocked_auth'', ''blocked_ambiguous''}" for a f
    using that by (auto simp: settled_def blocked_record_def)
  have scl: "settled cur ?cl" "settled cur (committed_record ?cl attempt rotated)" for rotated
    by (auto simp: settled_def committed_record_def claimed_record_def)
  show ?thesis
  proof (cases "sr_refresh_secret ?cl")
    case None
    with eq w scl show ?thesis by (auto simp: refresh_claimed_def)
  next
    case (Some secret)
    obtain y w1 where y: "sc_exchange s (sc_binding s) secret attempt ttl w = (y, w1)" by fastforce
    have w1: "stored w1 (sc_binding s) = Some ?cl" using keep [of secret attempt ttl w] y w by simp
    consider (block) a f u where "block_source s ?cl attempt a f w1 = (u, w')" "a \<in> {''blocked_auth'', ''blocked_ambiguous''}"
      | (commit) rotated u where "commit_success s ?cl attempt rotated w1 = (u, w')"
      using eq y Some
      by (cases y) (auto simp: refresh_claimed_def bindE_apply split: if_splits prod.splits sum.splits)
    then show ?thesis
    proof cases
      case block
      with blk [OF w1 block(1)] sb scl show ?thesis by auto
    next
      case commit
      with cmt [OF w1 commit] sb scl show ?thesis by auto
    qed
  qed
qed

lemma refresh_access_settles:
  assumes st: "sc_store s = ops"
    and keep: "\<And>secret a m w. stored (snd (sc_exchange s (sc_binding s) secret a m w)) (sc_binding s) = stored w (sc_binding s)"
      "\<And>w. stored (snd (sc_attempt_id s w)) (sc_binding s) = stored w (sc_binding s)"
    and ok: "rec_ok (sc_binding s) cur"
    and w: "stored w (sc_binding s) = Some cur" and eq: "refresh_access s b minimum w = (x, w')"
  shows "\<exists>r. stored w' (sc_binding s) = Some r \<and> settled cur r"
proof -
  have base: "settled cur cur" by (simp add: settled_def)
  obtain y w1 where y: "source_read s w = (y, w1)" by fastforce
  have w1: "stored w1 (sc_binding s) = Some cur" using read_leaves [OF st y] w by simp
  obtain v w2 where v: "sc_attempt_id s w1 = (v, w2)" by fastforce
  have w2: "stored w2 (sc_binding s) = Some cur" using keep(2) [of w1] v w1 by simp
  have cur: "y = Inr c \<Longrightarrow> c = cur" for c using source_read_Inr [OF st] y w by auto
  consider "w' = w \<or> w' = w1 \<or> w' = w2"
    | ttl attempt where "sr_state cur = ''ready''"
        "bindE (claim s cur attempt) (\<lambda>cl. refresh_claimed s cl attempt ttl) w2 = (x, w')"
  proof (cases "b = sc_binding s \<and> (\<exists>ttl. minimum = PInt ttl \<and> 0 \<le> ttl) \<and> y = Inr cur \<and> sr_state cur = ''ready'' \<and>
      (\<exists>v' a. v = Inr v' \<and> fixed_attempt v' = Inr a)")
    case True
    then obtain ttl v' a where t: "b = sc_binding s" "minimum = PInt ttl" "0 \<le> ttl" "y = Inr cur" "sr_state cur = ''ready''"
      "v = Inr v'" "fixed_attempt v' = Inr a" by blast
    then have "bindE (claim s cur a) (\<lambda>cl. refresh_claimed s cl a ttl) w2 = (x, w')"
      using eq y v by (simp add: refresh_access_def bindE_eqs state_available_def)
    with t(5) show thesis by (rule that(2))
  next
    case False
    have "w' = w \<or> w' = w1 \<or> w' = w2"
      using eq False y v cur
      by (cases minimum; cases y; cases v; cases "fixed_attempt (projr v)"; cases "state_available cur")
        (auto simp: refresh_access_def bindE_apply split: if_splits)
    then show thesis by (rule that(1))
  qed
  then show ?thesis
  proof cases
    case 1
    with w w1 w2 base show ?thesis by auto
  next
    case (2 ttl attempt)
    obtain z w3 where z: "claim s cur attempt w2 = (z, w3)" by fastforce
    note cl = claim_leaves [OF st ok w2 2(1) z]
    show ?thesis
    proof (cases z)
      case (Inl e)
      with 2(2) z cl show ?thesis by (auto simp: bindE_apply settled_def claimed_record_def)
    next
      case (Inr c)
      with cl have c: "c = claimed_record cur attempt" "stored w3 (sc_binding s) = Some (claimed_record cur attempt)"
        "rec_ok (sc_binding s) (claimed_record cur attempt)" by auto
      have "refresh_claimed s (claimed_record cur attempt) attempt ttl w3 = (x, w')"
        using 2(2) z Inr c(1) by (simp add: bindE_apply)
      then show ?thesis by (rule refresh_claimed_leaves [OF st keep(1) c(3) c(2)])
    qed
  qed
qed

section \<open>Recovery and revocation\<close>

lemma recover_cas_Inr:
  assumes "sc_store s = ops" and "recover_cas s cur repl w = (Inr r, w')"
  shows "r = repl \<and> stored w' (sc_binding s) = Some repl"
  using assms cas_Inr [of "sc_binding s" "sr_version cur" repl w]
  by (auto simp: recover_cas_def tryE_apply source_cas_def split: prod.splits sum.splits if_splits)

lemma recover_not_applied_Inr:
  assumes st: "sc_store s = ops" and eq: "recover_ambiguous_not_applied s expected attempt w = (Inr r, w')"
  shows "\<exists>cur a. expected = PInt (sr_version cur) \<and> attempt = PStr a \<and> stored w (sc_binding s) = Some cur \<and>
    sr_state cur = ''blocked_ambiguous'' \<and> sr_last_attempt_id cur = Some a \<and> stored w' (sc_binding s) = Some r \<and>
    r = cur\<lparr>sr_version := sr_version cur + 1, sr_state := ''ready'', sr_active_attempt_id := None, sr_failure := None\<rparr>"
proof -
  obtain v a cur w1 repl where v: "expected = PInt v" and a: "fixed_attempt attempt = Inr a"
    and cur: "recover_current s v a w = (Inr cur, w1)"
    and repl: "RefreshSecretRecord (cur\<lparr>sr_version := sr_version cur + 1, sr_state := ''ready'',
              sr_active_attempt_id := None, sr_failure := None\<rparr>) = Inr repl"
    and cas: "recover_cas s cur repl w1 = (Inr r, w')"
    using eq by (auto simp: recover_ambiguous_not_applied_def bindE_eq_Inr)
  have "attempt = PStr a" using a by (auto simp: fixed_attempt_def split: sum.splits)
  moreover have "repl = cur\<lparr>sr_version := sr_version cur + 1, sr_state := ''ready'',
              sr_active_attempt_id := None, sr_failure := None\<rparr>"
    using repl by (simp add: RefreshSecretRecord_Inr)
  ultimately show ?thesis
    using recover_current_Inr [OF st cur] recover_cas_Inr [OF st cas] v by auto
qed

lemma source_revoke_Inr:
  assumes st: "sc_store s = ops" and eq: "source_revoke s w = (Inr r, w')"
    and ok: "\<And>r. stored w (sc_binding s) = Some r \<Longrightarrow> rec_ok (sc_binding s) r"
  shows "stored w' (sc_binding s) = Some r \<and> sr_state r = ''revoked'' \<and> sr_refresh_secret r = None"
proof -
  obtain cur w1 where rd: "source_read s w = (Inr cur, w1)"
    using eq by (auto simp: source_revoke_def bindE_eq_Inr)
  note cur = source_read_Inr [OF st rd]
  have okc: "rec_ok (sc_binding s) cur" using ok cur by blast
  show ?thesis
  proof (cases "sr_state cur = ''revoked''")
    case True
    with eq rd cur okc show ?thesis
      by (auto simp: source_revoke_def bindE_apply rec_ok_def RefreshSecretRecord_Inr)
  next
    case False
    then obtain repl where "RefreshSecretRecord (revoked_record cur) = Inr repl"
      using eq rd by (auto simp: source_revoke_def bindE_apply split: sum.splits)
    then have repl: "RefreshSecretRecord (revoked_record cur) = Inr (revoked_record cur)" by (simp add: RefreshSecretRecord_Inr)
    obtain y w2 where y: "source_cas s cur (revoked_record cur) w1 = (y, w2)" by fastforce
    show ?thesis
    proof (cases y)
      case (Inr z)
      have "r = z" "w' = w2"
        using eq rd False repl y Inr by (simp_all add: source_revoke_def bindE_eqs tryE_apply)
      moreover have "z = revoked_record cur" "stored w2 (sc_binding s) = Some (revoked_record cur)"
        using cas_Inr [of "sc_binding s" "sr_version cur" "revoked_record cur" w1 z w2] y st Inr
        by (simp_all add: source_cas_def)
      ultimately show ?thesis by (simp add: revoked_record_def)
    next
      case (Inl e)
      with y eq rd False repl obtain obs w3 where "source_read s w2 = (Inr obs, w3)" "w3 = w'" "obs = r"
        "sr_state obs = ''revoked''" "sr_refresh_secret obs = None"
        by (auto simp: source_revoke_def bindE_eq_Inr bindE_eqs tryE_apply split: if_splits)
      with source_read_Inr [OF st] show ?thesis by auto
    qed
  qed
qed

lemma refresh_access_refused:
  assumes st: "sc_store s = ops" and w: "stored w (sc_binding s) = Some cur" "sr_state cur \<noteq> ''ready''"
  shows "refresh_access (s\<lparr>sc_exchange := ex\<rparr>) b minimum w = refresh_access s b minimum w \<and>
    (\<exists>e w'. refresh_access s b minimum w = (Inl e, w') \<and> stored w' (sc_binding s) = Some cur)"
proof -
  have rd: "source_read (s\<lparr>sc_exchange := ex\<rparr>) = source_read s" by (simp add: source_read_def)
  obtain x w1 where x: "source_read s w = (x, w1)" by fastforce
  have w1: "stored w1 (sc_binding s) = Some cur" using read_leaves [OF st x] w by simp
  show ?thesis
  proof (cases "b = sc_binding s \<and> (\<exists>n. minimum = PInt n \<and> 0 \<le> n)")
    case True
    then obtain n where t: "b = sc_binding s" "minimum = PInt n" "0 \<le> n" by blast
    show ?thesis
    proof (cases x)
      case (Inl e)
      with x w1 t show ?thesis by (simp add: refresh_access_def rd bindE_eqs)
    next
      case (Inr c)
      then have "c = cur" using source_read_Inr [OF st] x w by auto
      then obtain e where "state_available c = Inl e" using w(2) by (cases "state_available c") auto
      with x w1 t Inr show ?thesis by (simp add: refresh_access_def rd bindE_eqs)
    qed
  next
    case False
    then show ?thesis
      using w by (cases minimum) (auto simp: refresh_access_def)
  qed
qed

end

section \<open>The in-memory store meets the contract\<close>

definition ms_stored :: "'x memory_store_scheme \<Rightarrow> credential_binding \<Rightarrow> secret_record option" where
  "ms_stored w b = map_of (ms_records w) (ms_key b)"

interpretation ms: secret_store ms_ops ms_stored
  by unfold_locales
    (auto simp: ms_ops_def ms_stored_def ms_read_def ms_compare_and_swap_def update_conv'
      split: option.splits if_splits)

end
