(* ===== verification/Durable_Secrets.thy ===== *)
theory Durable_Secrets
  imports Secret_Safety Json_Digest
begin

text \<open>
  \<^verbatim>\<open>src/agent_core/durable_secret_store.py\<close>: \<open>DurableVersionedSecretStore\<close>, a versioned secret store on
  a durable backend with atomic compare-and-swap. The backend is an argument; \<open>backend_ok\<close> is what
  the class \<open>DurableSecretBackend\<close> documents of it.
\<close>

section \<open>Keys and records\<close>

abbreviation SECRET_RECORD_SCHEMA_VERSION :: string where
  "SECRET_RECORD_SCHEMA_VERSION \<equiv> ''credential-refresh-secret-record-v1''"

fun nonnegative_int :: "pyval \<Rightarrow> string \<Rightarrow> int res" where
  "nonnegative_int (PInt n) err = (if n < 0 then value_error err else Inr n)"
| "nonnegative_int _ err = value_error err"

definition binding_key :: "credential_binding \<Rightarrow> string" where
  "binding_key b = ''refresh-secret-v1:'' @ json_sha256 (PDict
     [(''provider_id'', PStr (cb_provider_id b)), (''account_id'', PStr (cb_account_id b)),
      (''capabilities'', PList (map PStr (cb_capabilities b)))])"

definition encode_record :: "secret_record \<Rightarrow> pydict" where
  "encode_record r =
     [(''schema_version'', PStr SECRET_RECORD_SCHEMA_VERSION),
      (''provider_id'', PStr (cb_provider_id (sr_binding r))), (''account_id'', PStr (cb_account_id (sr_binding r))),
      (''capabilities'', PList (map PStr (cb_capabilities (sr_binding r)))), (''version'', PInt (sr_version r)),
      (''state'', PStr (sr_state r)), (''refresh_secret'', opt_str (sr_refresh_secret r)),
      (''refresh_generation'', PInt (sr_refresh_generation r)),
      (''active_attempt_id'', opt_str (sr_active_attempt_id r)),
      (''last_attempt_id'', opt_str (sr_last_attempt_id r)), (''failure'', opt_str (sr_failure r))]"

fun is_str :: "pyval \<Rightarrow> bool" where
  "is_str (PStr _) = True"
| "is_str _ = False"

definition str_or_none :: "pyval \<Rightarrow> string \<Rightarrow> string option res" where
  "str_or_none v err = (case v of PNone \<Rightarrow> Inr None | PStr s \<Rightarrow> Inr (Some s) | _ \<Rightarrow> value_error err)"

definition str_list :: "pyval \<Rightarrow> bool" where
  "str_list v = (case v of PList xs \<Rightarrow> list_all is_str xs | _ \<Rightarrow> False)"

definition decode_record :: "pyval \<Rightarrow> credential_binding \<Rightarrow> secret_record res" where
  "decode_record raw expected =
     (case raw of
        PDict d \<Rightarrow>
          if \<not> py_eq (dict_get d ''schema_version'') (PStr SECRET_RECORD_SCHEMA_VERSION)
          then value_error ''secret_store_record_schema_mismatch''
          else if \<not> is_str (dict_get d ''provider_id'') \<or> \<not> is_str (dict_get d ''account_id'')
          then value_error ''secret_store_record_identity_invalid''
          else if \<not> str_list (dict_get d ''capabilities'') then value_error ''secret_store_record_capabilities_invalid''
          else bindR (CredentialBinding (dict_get d ''provider_id'') (dict_get d ''account_id'') (dict_get d ''capabilities'')) (\<lambda>b.
          if b \<noteq> expected then value_error ''secret_store_record_binding_mismatch''
          else bindR (nonnegative_int (dict_get d ''version'') ''secret_store_record_version_invalid'') (\<lambda>version.
               bindR (nonnegative_int (dict_get d ''refresh_generation'') ''secret_store_record_generation_invalid'') (\<lambda>generation.
               if \<not> is_str (dict_get d ''state'') then value_error ''secret_store_record_state_invalid''
               else bindR (str_or_none (dict_get d ''refresh_secret'') ''secret_store_record_secret_invalid'') (\<lambda>secret.
                    bindR (str_or_none (dict_get d ''active_attempt_id'') ''secret_store_record_active_attempt_invalid'') (\<lambda>active.
                    bindR (str_or_none (dict_get d ''last_attempt_id'') ''secret_store_record_last_attempt_invalid'') (\<lambda>last.
                    bindR (str_or_none (dict_get d ''failure'') ''secret_store_record_failure_invalid'') (\<lambda>failure.
                    RefreshSecretRecord \<lparr>sr_binding = b, sr_version = version, sr_state = py_str (dict_get d ''state''),
                      sr_refresh_secret = secret, sr_refresh_generation = generation, sr_active_attempt_id = active,
                      sr_last_attempt_id = last, sr_failure = failure\<rparr>)))))))
      | _ \<Rightarrow> value_error ''secret_store_record_object_required'')"

section \<open>The store\<close>

text \<open>The backend's operations: \<open>read\<close> gives a mapping or \<open>None\<close>.\<close>

record 'w backend_ops =
  bk_read :: "string \<Rightarrow> ('w, pyval) eff"
  bk_cas :: "string \<Rightarrow> int \<Rightarrow> pydict \<Rightarrow> ('w, pyval) eff"

text \<open>An exception of the backend leaves as a fixed one.\<close>

definition backend_failed :: "exc \<Rightarrow> exc" where
  "backend_failed e =
     (if catches DurableSecretBackendUnavailable e then Exc SecretStoreError ''secret_store_backend_unavailable''
      else if catches KeyboardInterrupt e then Exc KeyboardInterrupt ''secret_store_backend_interrupted''
      else if catches SystemExit e then Exc SystemExit ''secret_store_backend_interrupted''
      else Exc SecretStoreError ''secret_store_backend_unavailable'')"

text \<open>\<open>except (TypeError, ValueError)\<close> around the decoding.\<close>

definition decode_or :: "string \<Rightarrow> pyval \<Rightarrow> credential_binding \<Rightarrow> secret_record res" where
  "decode_or msg raw b =
     (case decode_record raw b of
        Inl e \<Rightarrow> if catches TypeError e \<or> catches ValueError e then Inl (Exc SecretStoreError msg) else Inl e
      | Inr r \<Rightarrow> Inr r)"

definition durable_read :: "'w backend_ops \<Rightarrow> credential_binding \<Rightarrow> ('w, secret_record) eff" where
  "durable_read bk b =
     bindE (tryE (bk_read bk (binding_key b)) (\<lambda>e. raiseE (backend_failed e))) (\<lambda>raw.
     if raw = PNone then raiseE (Exc CredentialAuthBlocked ''credential_secret_unconfigured'')
     else liftE (decode_or ''secret_store_record_invalid'' raw b))"

definition durable_compare_and_swap ::
  "'w backend_ops \<Rightarrow> credential_binding \<Rightarrow> int \<Rightarrow> secret_record \<Rightarrow> ('w, secret_record) eff" where
  "durable_compare_and_swap bk b expected replacement =
     (if expected < 0 then raiseE (Exc ValueError ''secret_store_expected_version_invalid'')
      else if sr_binding replacement \<noteq> b then raiseE (Exc ValueError ''secret_store_replacement_binding_mismatch'')
      else if sr_version replacement \<noteq> expected + 1 then raiseE (Exc ValueError ''secret_store_replacement_version_invalid'')
      else bindE (tryE (bk_cas bk (binding_key b) expected (encode_record replacement))
             (\<lambda>e. if catches DurableSecretBackendConflict e
                  then raiseE (Exc SecretStoreConflict ''secret_store_version_conflict'')
                  else if catches DurableSecretBackendAmbiguousWrite e
                  then raiseE (Exc SecretStoreAmbiguousWrite ''secret_store_write_ambiguous'')
                  else raiseE (backend_failed e))) (\<lambda>raw.
           if raw = PNone then raiseE (Exc SecretStoreError ''secret_store_cas_readback_missing'')
           else bindE (liftE (decode_or ''secret_store_cas_readback_invalid'' raw b)) (\<lambda>stored.
                if stored \<noteq> replacement then raiseE (Exc SecretStoreError ''secret_store_cas_readback_mismatch'')
                else retE stored)))"

definition durable_ops :: "'w backend_ops \<Rightarrow> 'w secret_ops" where
  "durable_ops bk = \<lparr>se_read = durable_read bk, se_cas = durable_compare_and_swap bk\<rparr>"

section \<open>Round trip\<close>

definition binding_ok :: "credential_binding \<Rightarrow> bool" where
  "binding_ok b \<longleftrightarrow> identity_ok (PStr (cb_provider_id b)) \<and> identity_ok (PStr (cb_account_id b)) \<and> caps_ok (cb_capabilities b)"

lemma CredentialBinding_ok: "CredentialBinding p a c = Inr b \<Longrightarrow> binding_ok b"
proof -
  assume "CredentialBinding p a c = Inr b"
  moreover have "identity_ok v \<Longrightarrow> identity_ok (PStr (py_str v))" for v by (cases v) auto
  ultimately show ?thesis
    by (auto simp: CredentialBinding_def binding_ok_def bindR_eq_Inr simp del: identity_ok.simps
        dest: capabilities_arg_ok split: if_splits)
qed

lemma CredentialBinding_typed:
  "binding_ok b \<Longrightarrow>
     CredentialBinding (PStr (cb_provider_id b)) (PStr (cb_account_id b)) (PList (map PStr (cb_capabilities b))) = Inr b"
  by (auto simp: CredentialBinding_def binding_ok_def caps_ok_arg)

lemma nonnegative_int_Inr [simp]: "nonnegative_int v err = Inr n \<longleftrightarrow> v = PInt n \<and> 0 \<le> n"
  by (cases v) auto

lemma str_or_none_opt [simp]: "str_or_none (opt_str x) err = Inr x"
  by (cases x) (simp_all add: str_or_none_def opt_str_def)

lemma decode_encode:
  assumes "rec_ok b r" and "binding_ok b"
  shows "decode_record (PDict (encode_record r)) b = Inr r"
proof -
  have v: "0 \<le> sr_version r" "0 \<le> sr_refresh_generation r" "RefreshSecretRecord r = Inr r" "sr_binding r = b"
    using assms(1) by (auto simp: rec_ok_def RefreshSecretRecord_Inr)
  have "str_list (PList (map PStr (cb_capabilities b)))"
    by (simp add: str_list_def list_all_iff)
  then show ?thesis
    using v CredentialBinding_typed [OF assms(2)] by (cases r) (simp add: decode_record_def encode_record_def)
qed

lemma decode_record_ok: "decode_record raw b = Inr r \<Longrightarrow> rec_ok b r \<and> binding_ok b"
proof (cases raw)
  case (PDict d)
  assume eq: "decode_record raw b = Inr r"
  then obtain b' x where b': "CredentialBinding (dict_get d ''provider_id'') (dict_get d ''account_id'') (dict_get d ''capabilities'') = Inr b'"
    and "b' = b" and x: "RefreshSecretRecord x = Inr r" "sr_binding x = b"
    by (auto simp: decode_record_def PDict bindR_eq_Inr split: if_splits)
  then show ?thesis using CredentialBinding_ok [OF b'] rec_ok_new [OF x] by blast
qed (simp_all add: decode_record_def)

section \<open>The contract of the backend\<close>

text \<open>
  \<open>held w k\<close> is what the backend holds under a key. The version it compares is the payload's; the
  payloads of the store are encoded records.
\<close>

definition held_version :: "pyval \<Rightarrow> pyval" where
  "held_version v = (case v of PDict d \<Rightarrow> dict_get d ''version'' | _ \<Rightarrow> PNone)"

definition backend_ok :: "'w backend_ops \<Rightarrow> ('w \<Rightarrow> string \<Rightarrow> pyval) \<Rightarrow> bool" where
  "backend_ok bk held \<longleftrightarrow>
     (\<forall>k w x w'. bk_read bk k w = (x, w') \<longrightarrow> held w' k = held w k \<and> (\<forall>v. x = Inr v \<longrightarrow> v = held w k)) \<and>
     (\<forall>k n r w x w'. bk_cas bk k n (encode_record r) w = (x, w') \<longrightarrow>
        (case x of
           Inr v \<Rightarrow> held_version (held w k) = PInt n \<and> held w' k = PDict (encode_record r) \<and> v = PDict (encode_record r)
         | Inl e \<Rightarrow> held w' k = held w k \<or>
             (\<not> catches DurableSecretBackendConflict e \<and> held_version (held w k) = PInt n \<and>
              held w' k = PDict (encode_record r))))"

definition durable_stored :: "('w \<Rightarrow> string \<Rightarrow> pyval) \<Rightarrow> 'w \<Rightarrow> credential_binding \<Rightarrow> secret_record option" where
  "durable_stored held w b = (case decode_record (held w (binding_key b)) b of Inr r \<Rightarrow> Some r | Inl _ \<Rightarrow> None)"

lemma decode_or_Inr [simp]: "decode_or msg raw b = Inr r \<longleftrightarrow> decode_record raw b = Inr r"
  by (simp add: decode_or_def split: sum.splits)

lemma decode_version: "decode_record raw b = Inr r \<Longrightarrow> held_version raw = PInt (sr_version r)"
proof (cases raw)
  case (PDict d)
  assume "decode_record raw b = Inr r"
  then obtain n x where "dict_get d ''version'' = PInt n" "RefreshSecretRecord x = Inr r" "sr_version x = n"
    by (auto simp: decode_record_def PDict bindR_eq_Inr split: if_splits)
  then show ?thesis by (auto simp: held_version_def PDict RefreshSecretRecord_Inr)
qed (simp_all add: decode_record_def)

lemma backend_readD:
  assumes "backend_ok bk held" and "bk_read bk k w = (x, w')"
  shows "held w' k = held w k" "x = Inr v \<Longrightarrow> v = held w k"
  using assms unfolding backend_ok_def by blast+

lemma backend_casD:
  assumes "backend_ok bk held" and "bk_cas bk k n (encode_record r) w = (x, w')"
  shows "x = Inr v \<Longrightarrow> held_version (held w k) = PInt n \<and> held w' k = PDict (encode_record r) \<and> v = PDict (encode_record r)"
    and "x = Inl e \<Longrightarrow> held w' k = held w k \<or>
      (\<not> catches DurableSecretBackendConflict e \<and> held_version (held w k) = PInt n \<and> held w' k = PDict (encode_record r))"
  using assms unfolding backend_ok_def by (fastforce split: sum.splits)+

lemma CredentialBinding_class: "CredentialBinding p a c = Inl e \<Longrightarrow> exc_cls e = ValueError"
  by (cases c) (auto simp: CredentialBinding_def bindR_eq_Inl capabilities_arg_def split: if_splits sum.splits)

lemma RefreshSecretRecord_class: "RefreshSecretRecord x = Inl e \<Longrightarrow> exc_cls e = ValueError"
  unfolding RefreshSecretRecord_def
  by (auto simp: bindR_eq_Inl safe_attempt_id_def split: if_splits option.splits)

text \<open>Decoding fails with \<open>ValueError\<close> only, so the store reports an invalid record as such.\<close>

lemma decode_record_class: "decode_record raw b = Inl e \<Longrightarrow> exc_cls e = ValueError"
proof (cases raw)
  case (PDict d)
  have n: "nonnegative_int v err = Inl e \<Longrightarrow> exc_cls e = ValueError" for v err e by (cases v) (auto split: if_splits)
  have s: "str_or_none v err = Inl e \<Longrightarrow> exc_cls e = ValueError" for v err e by (cases v) (auto simp: str_or_none_def)
  assume "decode_record raw b = Inl e"
  then show ?thesis
    unfolding decode_record_def PDict pyval.case
    by (auto simp: bindR_eq_Inl split: if_splits dest: CredentialBinding_class RefreshSecretRecord_class n s)
qed (auto simp: decode_record_def)

lemma decode_or_class: "decode_or msg raw b = Inl e \<Longrightarrow> e = Exc SecretStoreError msg"
  using decode_record_class by (fastforce simp: decode_or_def catches_def split: sum.splits if_splits)

text \<open>Every backend that keeps its contract makes a versioned secret store.\<close>

lemma durable_read_Inr:
  assumes "backend_ok bk held" and "durable_read bk b w = (Inr r, w')"
  shows "durable_stored held w b = Some r \<and> durable_stored held w' b = durable_stored held w b"
proof -
  obtain raw where "bk_read bk (binding_key b) w = (Inr raw, w')" "decode_record raw b = Inr r"
    using assms(2) by (auto simp: durable_read_def bindE_apply tryE_apply split: prod.splits sum.splits if_splits)
  with backend_readD [OF assms(1) this(1)] show ?thesis by (auto simp: durable_stored_def)
qed

lemma durable_read_Inl:
  assumes "backend_ok bk held" and "durable_read bk b w = (Inl e, w')"
  shows "durable_stored held w' b = durable_stored held w b"
proof -
  obtain x where "bk_read bk (binding_key b) w = (x, w')"
    using assms(2) by (auto simp: durable_read_def bindE_apply tryE_apply split: prod.splits sum.splits if_splits)
  with backend_readD(1) [OF assms(1) this] show ?thesis by (simp add: durable_stored_def)
qed

lemma durable_cas_Inr:
  assumes "backend_ok bk held" and "durable_compare_and_swap bk b v r w = (Inr x, w')"
  shows "x = r \<and> sr_version r = v + 1 \<and> (\<forall>c. durable_stored held w b = Some c \<longrightarrow> sr_version c = v) \<and>
    durable_stored held w' b = Some r"
proof -
  obtain raw where raw: "bk_cas bk (binding_key b) v (encode_record r) w = (Inr raw, w')" "decode_record raw b = Inr x"
    and r: "x = r" "sr_version r = v + 1"
    using assms(2)
    by (auto simp: durable_compare_and_swap_def bindE_apply tryE_apply split: prod.splits sum.splits if_splits)
  have "held_version (held w (binding_key b)) = PInt v" "held w' (binding_key b) = raw"
    using backend_casD(1) [OF assms(1) raw(1) refl] by simp_all
  with raw r show ?thesis
    by (auto simp: durable_stored_def dest: decode_version split: sum.splits)
qed

lemma durable_cas_Inl:
  assumes "backend_ok bk held" and ok: "rec_ok b r" and "durable_compare_and_swap bk b v r w = (Inl e, w')"
  shows "durable_stored held w' b = durable_stored held w b \<or>
    (\<not> catches SecretStoreConflict e \<and> sr_version r = v + 1 \<and>
     (\<forall>c. durable_stored held w b = Some c \<longrightarrow> sr_version c = v) \<and> durable_stored held w' b = Some r)"
proof (cases "w' = w")
  case False
  let ?k = "binding_key b"
  have v: "sr_version r = v + 1"
    using assms(3) False by (auto simp: durable_compare_and_swap_def split: if_splits)
  obtain x where x: "bk_cas bk ?k v (encode_record r) w = (x, w')"
    using assms(3) False
    by (auto simp: durable_compare_and_swap_def bindE_apply tryE_apply split: prod.splits sum.splits if_splits)
  have conf: "\<not> catches SecretStoreConflict e" if "\<forall>e'. x = Inl e' \<longrightarrow> \<not> catches DurableSecretBackendConflict e'"
  proof (cases x)
    case (Inl e')
    with that x assms(3) False show ?thesis
      by (auto simp: durable_compare_and_swap_def bindE_apply tryE_apply backend_failed_def catches_def split: if_splits)
  next
    case (Inr raw)
    with x assms(3) False have "e \<in> {Exc SecretStoreError ''secret_store_cas_readback_missing'',
        Exc SecretStoreError ''secret_store_cas_readback_mismatch''} \<or> decode_or ''secret_store_cas_readback_invalid'' raw b = Inl e"
      by (auto simp: durable_compare_and_swap_def bindE_apply tryE_apply split: if_splits sum.splits)
    then show ?thesis by (auto simp: catches_def dest!: decode_or_class)
  qed
  consider "held w' ?k = held w ?k"
    | "\<forall>e'. x = Inl e' \<longrightarrow> \<not> catches DurableSecretBackendConflict e'" "held_version (held w ?k) = PInt v" "held w' ?k = PDict (encode_record r)"
    using backend_casD [OF assms(1) x] by (cases x) auto
  then show ?thesis
  proof cases
    case 1
    then show ?thesis by (simp add: durable_stored_def)
  next
    case 2
    show ?thesis
    proof (cases "binding_ok b")
      case True
      with 2 conf v decode_encode [OF ok True] show ?thesis
        by (auto simp: durable_stored_def dest: decode_version split: sum.splits)
    next
      case False
      then have "durable_stored held u b = None" for u
        using decode_record_ok by (fastforce simp: durable_stored_def split: sum.splits)
      then show ?thesis by simp
    qed
  qed
qed simp

lemma durable_secret_store: "backend_ok bk held \<Longrightarrow> secret_store (durable_ops bk) (durable_stored held)"
  by unfold_locales
    (auto simp: durable_ops_def dest: durable_read_Inr durable_read_Inl durable_cas_Inr durable_cas_Inl)

end
