(* ===== verification/Secret_Results.thy ===== *)
theory Secret_Results
  imports Durable_Secrets
begin

text \<open>
  The properties of the refresh-secret stores and of the credential source on them, stated on
  \<open>InMemoryVersionedSecretStore\<close> and on \<open>DurableVersionedSecretStore\<close> over any backend that keeps its
  documented contract.
\<close>

section \<open>A backend and a source\<close>

text \<open>A table of rows with compare-and-swap on the payload's version.\<close>

record table_world =
  tw_rows :: "string \<Rightarrow> pyval"

definition table_backend :: "table_world backend_ops" where
  "table_backend = \<lparr>bk_read = (\<lambda>k w. (Inr (tw_rows w k), w)),
     bk_cas = (\<lambda>k n p w.
       if held_version (tw_rows w k) = PInt n then (Inr (PDict p), w\<lparr>tw_rows := (tw_rows w)(k := PDict p)\<rparr>)
       else (Inl (Exc DurableSecretBackendConflict ''stale''), w))\<rparr>"

lemma table_backend_ok: "backend_ok table_backend tw_rows"
  by (simp add: backend_ok_def table_backend_def catches_def)

definition the_binding :: credential_binding where
  "the_binding = \<lparr>cb_provider_id = ''git'', cb_account_id = ''me'', cb_capabilities = [''read'']\<rparr>"

definition fresh_record :: secret_record where
  "fresh_record = \<lparr>sr_binding = the_binding, sr_version = 0, sr_state = ''ready'', sr_refresh_secret = Some ''old'',
     sr_refresh_generation = 0, sr_active_attempt_id = None, sr_last_attempt_id = None, sr_failure = None\<rparr>"

definition good_grant :: access_grant where
  "good_grant = \<lparr>ag_provider_id = PStr ''git'', ag_account_id = PStr ''me'', ag_capabilities = PList [PStr ''read''],
     ag_access_token = PStr ''tok'', ag_issued_at = PInt 90, ag_expires_at = PInt 900\<rparr>"

definition demo_source :: "'w secret_ops \<Rightarrow> exc + exchange_value \<Rightarrow> 'w secret_source" where
  "demo_source store r = \<lparr>sc_binding = the_binding, sc_store = store,
     sc_exchange = (\<lambda>b secret attempt m. liftE r), sc_attempt_id = retE (PStr ''a1'')\<rparr>"

definition demo_memory :: memory_store where
  "demo_memory = \<lparr>ms_records = [(ms_key the_binding, fresh_record)]\<rparr>"

definition demo_table :: table_world where
  "demo_table = \<lparr>tw_rows = (\<lambda>k. if k = binding_key the_binding then PDict (encode_record fresh_record) else PNone)\<rparr>"

lemma demo_source_simps [simp]:
  "sc_binding (demo_source store r) = the_binding" "sc_store (demo_source store r) = store"
  "sc_attempt_id (demo_source store r) = retE (PStr ''a1'')"
  "sc_exchange (demo_source store r) b secret a m = liftE r"
  by (simp_all add: demo_source_def)

lemma secret_demo_texts [simp]: "strip ''old'' = ''old''" "strip ''new'' = ''new''" "attempt_id_ok ''a1''"
  "strip ''tok'' = ''tok''" "strip ''read'' = ''read''" "strip ''git'' = ''git''" "strip ''me'' = ''me''"
  by code_simp+

lemma demo_record_ok: "rec_ok the_binding fresh_record" "binding_ok the_binding"
  by (simp_all add: rec_ok_def RefreshSecretRecord_Inr fresh_record_def RECORD_STATES_def binding_ok_def the_binding_def
      caps_ok_def)

lemma demo_memory_stored: "ms_stored demo_memory the_binding = Some fresh_record"
  by (simp add: ms_stored_def demo_memory_def)

lemma demo_source_on: "ms.source_on (demo_source ms_ops r)"
  by (simp add: ms.source_on_def ms.moves_def ms.since_def)

lemmas demo_refresh_simps = refresh_access_def bindE_apply source_read_def tryE_apply ms_ops_def ms_read_def demo_memory_def
  fresh_record_def fixed_attempt_def safe_attempt_id_def claim_def claimed_record_def RefreshSecretRecord_def
  RECORD_STATES_def FAILURE_CODES_def source_cas_def ms_compare_and_swap_def refresh_claimed_def
  validate_exchange_result_def good_grant_def the_binding_def capabilities_arg_def sorted_set_def List.map_filter_simps
  validate_times_def time_arg_def commit_success_def committed_record_def block_source_def blocked_record_def
  state_available_def catches_def ms_key_def

lemma demo_refresh_returns:
  "fst (refresh_access (demo_source ms_ops (Inr (Exchanged (Grant good_grant) (PStr ''new'')))) the_binding (PInt 60) demo_memory)
     = Inr good_grant"
  by (simp add: demo_refresh_simps)

lemma demo_refresh_fails:
  "\<exists>w'. refresh_access (demo_source ms_ops (Inl (Exc (OtherError ''Timeout'') ''x''))) the_binding (PInt 60) demo_memory
     = (Inl (Exc CredentialAuthBlocked ''credential_refresh_outcome_ambiguous''), w')"
  by (simp add: demo_refresh_simps)

lemma demo_table_stored: "durable_stored tw_rows demo_table the_binding = Some fresh_record"
  by (simp add: durable_stored_def demo_table_def decode_encode [OF demo_record_ok])

section \<open>Properties\<close>

text \<open>\<open>DurableVersionedSecretStore\<close> over a backend that keeps its documented contract is a versioned
  secret store: reads report the stored record, a successful swap replaced the expected version by
  the given record, a conflict changed nothing, and any other failing swap either changed nothing
  or applied exactly.\<close>

theorem durable_store_contract:
  assumes "backend_ok bk held"
  shows "secret_store (durable_ops bk) (durable_stored held)"
  using assms by (rule durable_secret_store)

theorem durable_store_contract_witness: "secret_store (durable_ops table_backend) (durable_stored tw_rows)"
  by (rule durable_store_contract) (rule table_backend_ok)

text \<open>C3. Claim before exchange, on the durable store: the provider is contacted only when the store
  holds this attempt's claim with the very secret that is sent. An exchange that ends the process
  otherwise makes no difference.\<close>

theorem refresh_claims_before_exchange:
  assumes "backend_ok bk held" and "sc_store s = durable_ops bk"
  shows "refresh_access (secret_store.guard_exchange (durable_stored held) s) b minimum w = refresh_access s b minimum w"
  by (rule secret_store.refresh_access_guarded [OF durable_secret_store [OF assms(1)] assms(2)])

theorem refresh_claims_before_exchange_witness:
  "refresh_access (secret_store.guard_exchange (durable_stored tw_rows)
       (demo_source (durable_ops table_backend) (Inr (Exchanged (Grant good_grant) (PStr ''new''))))) the_binding (PInt 60) demo_table =
   refresh_access (demo_source (durable_ops table_backend) (Inr (Exchanged (Grant good_grant) (PStr ''new'')))) the_binding
     (PInt 60) demo_table"
  by (rule refresh_claims_before_exchange [OF table_backend_ok]) simp

text \<open>Commit before return: when \<open>refresh_access\<close> returns an access grant, the exchange was made with
  the claimed secret, its result passed validation, and the store holds a \<open>ready\<close> record with the
  rotated secret, one version and one generation after the claim.\<close>

theorem refresh_commits_before_return:
  assumes "sc_store s = ms_ops" and "refresh_access s b minimum w = (Inr g, w')"
  shows "\<exists>ttl attempt secret rotated c x r w1 w2. minimum = PInt ttl \<and> b = sc_binding s \<and>
    ms_stored w1 b = Some c \<and> sr_state c = ''refreshing'' \<and> sr_active_attempt_id c = Some attempt \<and>
    sr_refresh_secret c = Some secret \<and>
    sc_exchange s b secret attempt ttl w1 = (Inr x, w2) \<and> validate_exchange_result b x ttl = Inr (g, rotated) \<and>
    ms_stored w' b = Some r \<and> sr_state r = ''ready'' \<and> sr_refresh_secret r = Some rotated \<and>
    sr_version r = sr_version c + 1 \<and> sr_refresh_generation r = sr_refresh_generation c + 1 \<and>
    sr_last_attempt_id r = Some attempt"
  by (rule ms.refresh_access_Inr [OF assms])

theorem refresh_commits_before_return_witness:
  "\<exists>w' r. refresh_access (demo_source ms_ops (Inr (Exchanged (Grant good_grant) (PStr ''new'')))) the_binding (PInt 60) demo_memory
     = (Inr good_grant, w') \<and> ms_stored w' the_binding = Some r \<and> sr_refresh_secret r = Some ''new''"
proof -
  let ?s = "demo_source ms_ops (Inr (Exchanged (Grant good_grant) (PStr ''new'')))"
  obtain w' where eq: "refresh_access ?s the_binding (PInt 60) demo_memory = (Inr good_grant, w')"
    using demo_refresh_returns by (metis prod.collapse)
  from refresh_commits_before_return [OF _ eq] obtain ttl x rotated r where
    "Exchanged (Grant good_grant) (PStr ''new'') = x" "validate_exchange_result the_binding x ttl = Inr (good_grant, rotated)"
    "ms_stored w' the_binding = Some r" "sr_refresh_secret r = Some rotated"
    by auto
  moreover from this(1,2) have "rotated = ''new''"
    by (auto simp: validate_exchange_result_def bindR_eq_Inr split: if_splits)
  ultimately show ?thesis using eq by auto
qed

text \<open>A refresh that fails leaves no record that would offer the consumed secret again: with no other
  worker on the record, afterwards it is the untouched one (the exchange was never made), or not
  \<open>ready\<close>, or \<open>ready\<close> with the next generation.\<close>

theorem refresh_failure_settles:
  assumes "sc_store s = ms_ops"
    and "\<And>secret a m w. ms_stored (snd (sc_exchange s (sc_binding s) secret a m w)) (sc_binding s) = ms_stored w (sc_binding s)"
    and "\<And>w. ms_stored (snd (sc_attempt_id s w)) (sc_binding s) = ms_stored w (sc_binding s)"
    and "rec_ok (sc_binding s) cur" and "ms_stored w (sc_binding s) = Some cur"
    and "refresh_access s b minimum w = (x, w')"
  shows "\<exists>r. ms_stored w' (sc_binding s) = Some r \<and>
     (r = cur \<or> sr_state r \<in> {''refreshing'', ''blocked_auth'', ''blocked_ambiguous''} \<or>
      (sr_state r = ''ready'' \<and> sr_refresh_generation r = sr_refresh_generation cur + 1))"
  using ms.refresh_access_settles [OF assms] by (simp add: ms.settled_def)

theorem refresh_failure_settles_witness:
  "\<exists>w' r. refresh_access (demo_source ms_ops (Inl (Exc (OtherError ''Timeout'') ''x''))) the_binding (PInt 60) demo_memory
     = (Inl (Exc CredentialAuthBlocked ''credential_refresh_outcome_ambiguous''), w') \<and>
     ms_stored w' the_binding = Some r \<and> sr_refresh_generation r \<le> 1"
proof -
  let ?s = "demo_source ms_ops (Inl (Exc (OtherError ''Timeout'') ''x''))"
  obtain w' where eq: "refresh_access ?s the_binding (PInt 60) demo_memory =
      (Inl (Exc CredentialAuthBlocked ''credential_refresh_outcome_ambiguous''), w')"
    using demo_refresh_fails by blast
  have rec: "ms_stored w' the_binding = Some (blocked_record (claimed_record fresh_record ''a1'') ''a1'' ''blocked_ambiguous''
      ''refresh_outcome_ambiguous'')"
    using eq by (auto simp: demo_refresh_simps ms_stored_def)
  from refresh_failure_settles [OF _ _ _ _ _ eq, of fresh_record] demo_record_ok demo_memory_stored
  obtain r where "ms_stored w' the_binding = Some r" by auto
  with eq rec show ?thesis by (auto simp: blocked_record_def claimed_record_def fresh_record_def)
qed

text \<open>C26. Every operation of a source on the durable store, whatever its outcome and with other workers
  active, keeps the stored record valid and only moves it forward: unchanged, or to a higher
  version, and never away from \<open>revoked\<close>.\<close>

theorem source_moves_forward:
  assumes "backend_ok bk held" and "secret_store.source_on (durable_ops bk) (durable_stored held) s"
    and "durable_stored held w (sc_binding s) = Some r" and "rec_ok (sc_binding s) r"
    and "w' \<in> {snd (refresh_access s b minimum w), snd (source_revoke s w), snd (recover_ambiguous_not_applied s ev a w),
               snd (recover_ambiguous_with_rotated_secret s ev a rotated w), snd (assert_available s w)}"
  shows "\<exists>r'. durable_stored held w' (sc_binding s) = Some r' \<and> rec_ok (sc_binding s) r' \<and>
    (r' = r \<or> (sr_version r < sr_version r' \<and> sr_state r \<noteq> ''revoked''))"
proof -
  have st: "secret_store (durable_ops bk) (durable_stored held)" by (rule durable_secret_store [OF assms(1)])
  have "secret_store.moves (durable_stored held) (sc_binding s) w w'"
    using assms(5) secret_store.source_moves [OF st assms(2)] by auto
  then show ?thesis
    using assms(3,4) by (auto simp: secret_store.moves_def [OF st] secret_store.since_def [OF st] advances_def)
qed

theorem source_moves_forward_witness:
  "\<exists>r'. durable_stored tw_rows (snd (source_revoke (demo_source (durable_ops table_backend) (Inr NotExchanged)) demo_table)) the_binding
     = Some r' \<and> rec_ok the_binding r'"
proof -
  let ?s = "demo_source (durable_ops table_backend) (Inr NotExchanged)"
  have st: "secret_store (durable_ops table_backend) (durable_stored tw_rows)"
    by (rule durable_secret_store [OF table_backend_ok])
  have on: "secret_store.source_on (durable_ops table_backend) (durable_stored tw_rows) ?s"
    by (simp add: secret_store.source_on_def [OF st] secret_store.moves_def [OF st] secret_store.since_def [OF st])
  from source_moves_forward [OF table_backend_ok on _ _ insertI2 [OF insertI1]] demo_table_stored demo_record_ok(1)
  show ?thesis by (auto simp del: insert_iff)
qed

text \<open>C27. Revocation on the durable store, over a backend that keeps its contract: when \<open>revoke\<close> returns, the
  store holds a valid \<open>revoked\<close> record without a secret. A refresh from then on never reaches the
  provider: it raises, whatever the exchange is, and leaves that record.\<close>

theorem revoke_is_final:
  assumes "backend_ok bk held" and "sc_store s = durable_ops bk"
    and "durable_stored held w (sc_binding s) = Some cur" and "source_revoke s w = (Inr r, w')"
  shows "durable_stored held w' (sc_binding s) = Some r \<and> rec_ok (sc_binding s) r \<and>
    sr_state r = ''revoked'' \<and> sr_refresh_secret r = None \<and>
    refresh_access (s\<lparr>sc_exchange := ex\<rparr>) b minimum w' = refresh_access s b minimum w' \<and>
    (\<exists>e w''. refresh_access s b minimum w' = (Inl e, w'') \<and> durable_stored held w'' (sc_binding s) = Some r)"
proof -
  have st: "secret_store (durable_ops bk) (durable_stored held)" by (rule durable_secret_store [OF assms(1)])
  have ok: "rec_ok (sc_binding s) x" if "durable_stored held v (sc_binding s) = Some x" for x v
    using that decode_record_ok by (auto simp: durable_stored_def split: sum.splits)
  from secret_store.source_revoke_Inr [OF st assms(2,4) ok] have
    r: "durable_stored held w' (sc_binding s) = Some r" "sr_state r = ''revoked''" "sr_refresh_secret r = None" by auto
  with secret_store.refresh_access_refused [OF st assms(2) r(1)] ok [OF r(1)] show ?thesis by simp
qed

theorem revoke_is_final_witness:
  "\<exists>r w'. source_revoke (demo_source (durable_ops table_backend) (Inr NotExchanged)) demo_table = (Inr r, w') \<and>
     sr_refresh_secret r = None \<and> durable_stored tw_rows w' the_binding = Some r"
proof -
  let ?s = "demo_source (durable_ops table_backend) (Inr NotExchanged)"
  have dec: "decode_record (PDict (encode_record fresh_record)) the_binding = Inr fresh_record"
    by (rule decode_encode [OF demo_record_ok])
  let ?r = "revoked_record fresh_record"
  have ok: "rec_ok the_binding ?r"
    by (simp add: rec_ok_def RefreshSecretRecord_Inr revoked_record_def fresh_record_def RECORD_STATES_def FAILURE_CODES_def)
  have "RefreshSecretRecord ?r = Inr ?r" using ok by (auto simp: rec_ok_def RefreshSecretRecord_Inr)
  then have "\<exists>r w'. source_revoke ?s demo_table = (Inr r, w')"
    using dec decode_encode [OF ok demo_record_ok(2)] decode_version [OF dec]
    by (simp add: source_revoke_def source_read_def source_cas_def durable_ops_def durable_read_def
        durable_compare_and_swap_def table_backend_def demo_table_def bindE_apply tryE_apply decode_or_def)
      (simp add: fresh_record_def revoked_record_def)
  then obtain r w' where eq: "source_revoke ?s demo_table = (Inr r, w')" by blast
  from revoke_is_final [OF table_backend_ok _ _ eq, of fresh_record] demo_table_stored eq show ?thesis by auto
qed

text \<open>Recovery after proof that the exchange did not apply works only on the ambiguous record of that
  attempt at that version, and turns it into the same record, \<open>ready\<close>, at the next version.\<close>

theorem recovery_needs_the_ambiguous_attempt:
  assumes "sc_store s = ms_ops" and "recover_ambiguous_not_applied s expected attempt w = (Inr r, w')"
  shows "\<exists>cur a. expected = PInt (sr_version cur) \<and> attempt = PStr a \<and> ms_stored w (sc_binding s) = Some cur \<and>
    sr_state cur = ''blocked_ambiguous'' \<and> sr_last_attempt_id cur = Some a \<and> ms_stored w' (sc_binding s) = Some r \<and>
    r = cur\<lparr>sr_version := sr_version cur + 1, sr_state := ''ready'', sr_active_attempt_id := None, sr_failure := None\<rparr>"
  by (rule ms.recover_not_applied_Inr [OF assms])

definition ambiguous_record :: secret_record where
  "ambiguous_record = fresh_record\<lparr>sr_version := 2, sr_state := ''blocked_ambiguous'', sr_last_attempt_id := Some ''a1'',
     sr_failure := Some ''refresh_outcome_ambiguous''\<rparr>"

theorem recovery_needs_the_ambiguous_attempt_witness:
  "\<exists>r w'. recover_ambiguous_not_applied (demo_source ms_ops (Inr NotExchanged)) (PInt 2) (PStr ''a1'')
     \<lparr>ms_records = [(ms_key the_binding, ambiguous_record)]\<rparr> = (Inr r, w') \<and> sr_state r = ''ready'' \<and> sr_version r = 3"
proof -
  let ?w = "\<lparr>ms_records = [(ms_key the_binding, ambiguous_record)]\<rparr>"
  have "\<exists>r w'. recover_ambiguous_not_applied (demo_source ms_ops (Inr NotExchanged)) (PInt 2) (PStr ''a1'') ?w = (Inr r, w')"
    by (simp add: recover_ambiguous_not_applied_def recover_current_def recover_cas_def ambiguous_record_def demo_refresh_simps)
  then obtain r w' where eq: "recover_ambiguous_not_applied (demo_source ms_ops (Inr NotExchanged)) (PInt 2) (PStr ''a1'') ?w = (Inr r, w')"
    by blast
  from recovery_needs_the_ambiguous_attempt [OF _ eq] eq show ?thesis by (auto simp: ms_stored_def)
qed

text \<open>Round trip of the durable form: a valid record of a valid binding is decoded to itself, and what
  decodes is a valid record of the expected binding.\<close>

theorem secret_record_roundtrip:
  assumes "rec_ok b r" and "binding_ok b"
  shows "decode_record (PDict (encode_record r)) b = Inr r \<and>
    (\<forall>raw r'. decode_record raw b = Inr r' \<longrightarrow> rec_ok b r')"
  using decode_encode [OF assms] decode_record_ok by blast

theorem secret_record_roundtrip_witness: "decode_record (PDict (encode_record fresh_record)) the_binding = Inr fresh_record"
  using secret_record_roundtrip [OF demo_record_ok] by blast

end
