(* ===== verification/Tool_Registry.thy ===== *)
theory Tool_Registry
  imports Agent_Runner
begin

text \<open>
  The tool registry and the read-only GitHub adapter, \<^verbatim>\<open>src/agent_core/adapters.py\<close>. A registry
  keeps, for every action, its implementation, its capability and the adapter it came from; the
  three dictionaries always have the same keys (\<open>registry_ok\<close>). The functions of the GitHub adapter
  that read a provider are arguments.
\<close>

section \<open>The registry\<close>

record capability =
  cap_action :: string
  cap_access :: string
  cap_required_permissions :: "string list"
  cap_supports_dry_run :: bool
  cap_description :: string

record 'w adapter =
  ad_name :: string
  ad_capabilities :: "capability list"
  ad_actions :: "(string \<times> 'w action) list"

record 'w registry =
  rg_actions :: "(string \<times> 'w action) list"
  rg_capabilities :: "(string \<times> capability) list"
  rg_adapter_for_action :: "(string \<times> string) list"

definition ToolRegistry :: "'w registry" where
  "ToolRegistry = \<lparr>rg_actions = [], rg_capabilities = [], rg_adapter_for_action = []\<rparr>"

text \<open>\<open>{cap.action: cap for cap in adapter.capabilities()}\<close>: a later entry replaces an earlier one.\<close>

definition capabilities_dict :: "capability list \<Rightarrow> (string \<times> capability) list" where
  "capabilities_dict caps = dict_update [] (map (\<lambda>c. (cap_action c, c)) caps)"

definition same_keys :: "('a \<times> 'b) list \<Rightarrow> ('a \<times> 'c) list \<Rightarrow> bool" where
  "same_keys d e \<longleftrightarrow> list_all (\<lambda>k. k \<in> set (map fst e)) (map fst d) \<and> list_all (\<lambda>k. k \<in> set (map fst d)) (map fst e)"

text \<open>The loop of \<open>register\<close>; \<open>capabilities[action]\<close> exists because the keys agree.\<close>

fun register_actions ::
  "string \<Rightarrow> (string \<times> capability) list \<Rightarrow> (string \<times> 'w action) list \<Rightarrow> 'w registry \<Rightarrow> 'w registry res" where
  "register_actions name caps [] reg = Inr reg"
| "register_actions name caps ((a, impl) # rest) reg =
     (case map_of caps a of
        None \<Rightarrow> Inl (Exc KeyError a)
      | Some c \<Rightarrow> register_actions name caps rest
          (reg\<lparr>rg_actions := AList.update a impl (rg_actions reg),
               rg_capabilities := AList.update a c (rg_capabilities reg),
               rg_adapter_for_action := AList.update a name (rg_adapter_for_action reg)\<rparr>))"

definition register :: "'w adapter \<Rightarrow> 'w registry \<Rightarrow> 'w registry res" where
  "register ad reg =
     (let caps = capabilities_dict (ad_capabilities ad);
          actions = dict_update [] (ad_actions ad);
          collisions = sorted_set (filter (\<lambda>a. a \<in> set (map fst (rg_actions reg))) (map fst actions))
      in if \<not> same_keys caps actions
         then value_error (''adapter_capability_action_mismatch:'' @ ad_name ad)
         else if collisions \<noteq> [] then value_error (''duplicate_registered_action:'' @ join '','' collisions)
         else register_actions (ad_name ad) caps actions reg)"

definition registry_capability :: "'w registry \<Rightarrow> string \<Rightarrow> capability option" where
  "registry_capability reg a = map_of (rg_capabilities reg) a"

definition capability_dict :: "capability \<Rightarrow> pydict" where
  "capability_dict c =
     [(''action'', PStr (cap_action c)), (''access'', PStr (cap_access c)),
      (''required_permissions'', PList (map PStr (cap_required_permissions c))),
      (''supports_dry_run'', PBool (cap_supports_dry_run c)), (''description'', PStr (cap_description c))]"

definition describe_action :: "'w registry \<Rightarrow> string \<Rightarrow> pydict res" where
  "describe_action reg a =
     (case (map_of (rg_capabilities reg) a, map_of (rg_adapter_for_action reg) a) of
        (Some c, Some n) \<Rightarrow> Inr (dict_update (capability_dict c) [(''adapter'', PStr n)])
      | _ \<Rightarrow> Inl (Exc KeyError a))"

definition describe :: "'w registry \<Rightarrow> pydict list res" where
  "describe reg = mapR (describe_action reg) (sort (map fst (rg_actions reg)))"

fun require_read_only :: "'w registry \<Rightarrow> string list \<Rightarrow> unit res" where
  "require_read_only reg [] = Inr ()"
| "require_read_only reg (a # as) =
     (case registry_capability reg a of
        None \<Rightarrow> value_error (''action_not_registered:'' @ a)
      | Some c \<Rightarrow> if cap_access c \<noteq> ''read'' then value_error (''non_read_action_forbidden:'' @ a)
                  else require_read_only reg as)"

section \<open>The read-only GitHub adapter\<close>

record 'w github_adapter =
  ga_file_reader :: "string \<Rightarrow> string \<Rightarrow> string \<Rightarrow> ('w, pyval) eff"
  ga_ci_reader :: "string \<Rightarrow> string \<Rightarrow> ('w, pyval) eff"

definition github_capabilities :: "capability list" where
  "github_capabilities =
     [\<lparr>cap_action = ''github.read_main'', cap_access = ''read'', cap_required_permissions = [''contents:read''],
       cap_supports_dry_run = True, cap_description = ''Read required files from an explicit repository ref.''\<rparr>,
      \<lparr>cap_action = ''github.verify_ci'', cap_access = ''read'', cap_required_permissions = [''actions:read''],
       cap_supports_dry_run = True,
       cap_description = ''Verify an existing CI state without starting or mutating a run.''\<rparr>]"

definition github_repository :: "pydict \<Rightarrow> string res" where
  "github_repository ctx =
     (case py_or (dict_get ctx ''task_inputs'') (PDict []) of
        PDict inputs \<Rightarrow>
          let repository = strip (py_str (py_or (dict_get inputs ''repository'') (PStr [])))
          in if repository = [] \<or> \<not> substring ''/'' repository
             then value_error ''repository_input_required'' else Inr repository
      | _ \<Rightarrow> Inl (Exc AttributeError ''get''))"

definition ref_arg :: "pydict \<Rightarrow> string" where
  "ref_arg args = py_str (py_or (dict_get args ''ref'') (PStr ''main''))"

fun read_files ::
  "'w github_adapter \<Rightarrow> string \<Rightarrow> string \<Rightarrow> string list \<Rightarrow> pydict \<Rightarrow> ('w, pydict) eff" where
  "read_files ga repo ref [] results = retE results"
| "read_files ga repo ref (p # ps) results =
     bindE (ga_file_reader ga repo p ref) (\<lambda>v. read_files ga repo ref ps (AList.update p v results))"

definition read_main :: "'w github_adapter \<Rightarrow> 'w action" where
  "read_main ga args ctx =
     bindE (liftE (github_repository ctx)) (\<lambda>repo.
     bindE (liftE (py_iter (py_or (dict_get args ''required_files'') (PList [])))) (\<lambda>paths.
     if paths = [] then raiseE (Exc ValueError ''required_files_missing'')
     else
       bindE (read_files ga repo (ref_arg args) (map py_str paths) []) (\<lambda>results.
       retE (AV_Result \<lparr>rs_message = ''read '' @ nat_str (length results) @ '' repository files'', rs_artifacts = [],
              rs_data = [(''repository'', PStr repo), (''ref'', PStr (ref_arg args)), (''files'', PDict results)]\<rparr>))))"

fun ci_verified :: "pyval \<Rightarrow> bool" where
  "ci_verified (PBool b) = b"
| "ci_verified (PDict d) =
     (let conclusion = lower (py_str (py_or (dict_get d ''conclusion'') (PStr [])));
          state = lower (py_str (py_or (dict_get d ''status'') (PStr [])))
      in conclusion = ''success'' \<or> (state = ''completed'' \<and> conclusion = ''success''))"
| "ci_verified _ = False"

definition verify_ci :: "'w github_adapter \<Rightarrow> 'w action" where
  "verify_ci ga args ctx =
     bindE (liftE (github_repository ctx)) (\<lambda>repo.
     bindE (ga_ci_reader ga repo (ref_arg args)) (\<lambda>status.
     retE (AV_Dict [(''verified'', PBool (ci_verified status)), (''status'', status)] (Items []))))"

definition CallableReadOnlyGitHubAdapter :: "'w github_adapter \<Rightarrow> 'w adapter" where
  "CallableReadOnlyGitHubAdapter ga =
     \<lparr>ad_name = ''github-readonly'', ad_capabilities = github_capabilities,
      ad_actions = [(''github.read_main'', read_main ga), (''github.verify_ci'', verify_ci ga)]\<rparr>"

section \<open>The registry invariant\<close>

definition registry_ok :: "'w registry \<Rightarrow> bool" where
  "registry_ok reg \<longleftrightarrow>
     distinct (map fst (rg_actions reg)) \<and>
     dom (map_of (rg_capabilities reg)) = dom (map_of (rg_actions reg)) \<and>
     dom (map_of (rg_adapter_for_action reg)) = dom (map_of (rg_actions reg)) \<and>
     (\<forall>a c. map_of (rg_capabilities reg) a = Some c \<longrightarrow> cap_action c = a)"

lemma registry_new: "registry_ok ToolRegistry"
  by (simp add: registry_ok_def ToolRegistry_def)

lemma capabilities_dict_action: "map_of (capabilities_dict caps) a = Some c \<Longrightarrow> cap_action c = a \<and> c \<in> set caps"
  by (auto simp: capabilities_dict_def dict_update_map_of dest!: map_of_SomeD)

lemma same_keys_iff: "same_keys d e \<longleftrightarrow> dom (map_of d) = dom (map_of e)"
  by (auto simp: same_keys_def list_all_iff dom_map_of_conv_image_fst)

lemma register_actions_Inr:
  assumes "register_actions name caps acts reg = Inr reg'"
  shows "map_of (rg_actions reg') = map_of (rg_actions reg) ++ map_of (rev acts) \<and>
    map_of (rg_capabilities reg') = map_of (rg_capabilities reg) ++ (map_of caps |` (fst ` set acts)) \<and>
    map_of (rg_adapter_for_action reg') = map_of (rg_adapter_for_action reg) ++ ((\<lambda>_. Some name) |` (fst ` set acts)) \<and>
    (distinct (map fst (rg_actions reg)) \<longrightarrow> distinct (map fst (rg_actions reg')))"
  using assms
proof (induction acts arbitrary: reg)
  case Nil
  then show ?case by (simp add: restrict_map_def)
next
  case (Cons p acts)
  obtain a impl where p: "p = (a, impl)" by (cases p)
  obtain c where c: "map_of caps a = Some c"
    and rest: "register_actions name caps acts (reg\<lparr>rg_actions := AList.update a impl (rg_actions reg),
        rg_capabilities := AList.update a c (rg_capabilities reg),
        rg_adapter_for_action := AList.update a name (rg_adapter_for_action reg)\<rparr>) = Inr reg'"
    using Cons.prems by (auto simp: p split: option.splits)
  show ?case using Cons.IH [OF rest]
    by (auto simp: p c update_conv' distinct_update map_add_def fun_eq_iff restrict_map_def split: option.splits)
qed

lemma register_Inr:
  assumes "register ad reg = Inr reg'"
  shows "fst ` set (ad_actions ad) \<inter> dom (map_of (rg_actions reg)) = {}"
    and "dom (map_of (capabilities_dict (ad_capabilities ad))) = fst ` set (ad_actions ad)"
    and "map_of (rg_actions reg') = map_of (rg_actions reg) ++ map_of (rev (dict_update [] (ad_actions ad)))"
    and "map_of (rg_capabilities reg') = map_of (rg_capabilities reg) ++ map_of (capabilities_dict (ad_capabilities ad))"
    and "dom (map_of (rg_adapter_for_action reg')) =
           dom (map_of (rg_adapter_for_action reg)) \<union> fst ` set (ad_actions ad)"
    and "distinct (map fst (rg_actions reg)) \<Longrightarrow> distinct (map fst (rg_actions reg'))"
proof -
  let ?caps = "capabilities_dict (ad_capabilities ad)" and ?acts = "dict_update [] (ad_actions ad)"
  have keys: "fst ` set ?acts = fst ` set (ad_actions ad)"
    by (simp add: dom_map_of_conv_image_fst [symmetric] dict_update_map_of)
      (simp add: dom_map_of_conv_image_fst)
  have same: "dom (map_of ?caps) = dom (map_of ?acts)"
    and none: "sorted_set (filter (\<lambda>a. a \<in> set (map fst (rg_actions reg))) (map fst ?acts)) = []"
    and reg: "register_actions (ad_name ad) ?caps ?acts reg = Inr reg'"
    using assms by (auto simp: register_def Let_def same_keys_iff split: if_splits)
  from none have "set (filter (\<lambda>a. a \<in> set (map fst (rg_actions reg))) (map fst ?acts)) = {}"
    by (metis empty_set sorted_set_set)
  then show "fst ` set (ad_actions ad) \<inter> dom (map_of (rg_actions reg)) = {}"
    by (auto simp: keys [symmetric] filter_empty_conv dom_map_of_conv_image_fst)
  have dom: "dom (map_of ?caps) = fst ` set ?acts"
    using same by (simp add: dom_map_of_conv_image_fst)
  then show "dom (map_of ?caps) = fst ` set (ad_actions ad)" by (simp add: keys)
  have restr: "map_of ?caps |` (fst ` set ?acts) = map_of ?caps"
    unfolding dom [symmetric] by (auto simp: restrict_map_def fun_eq_iff dom_def)
  note R = register_actions_Inr [OF reg, unfolded restr]
  from R show "map_of (rg_actions reg') = map_of (rg_actions reg) ++ map_of (rev ?acts)"
    "map_of (rg_capabilities reg') = map_of (rg_capabilities reg) ++ map_of ?caps"
    "distinct (map fst (rg_actions reg)) \<Longrightarrow> distinct (map fst (rg_actions reg'))"
    by blast+
  from R have "map_of (rg_adapter_for_action reg') =
      map_of (rg_adapter_for_action reg) ++ ((\<lambda>_. Some (ad_name ad)) |` (fst ` set ?acts))" by blast
  then show "dom (map_of (rg_adapter_for_action reg')) =
      dom (map_of (rg_adapter_for_action reg)) \<union> fst ` set (ad_actions ad)"
    by (auto simp: keys restrict_map_def dom_def)
qed

lemma dom_rev: "dom (map_of (rev xs)) = dom (map_of xs)"
  by (simp add: dom_map_of_conv_image_fst)

lemma register_keeps_ok:
  assumes "register ad reg = Inr reg'" and "registry_ok reg"
  shows "registry_ok reg'"
proof -
  note R = register_Inr [OF assms(1)]
  have "dom (map_of (dict_update [] (ad_actions ad))) = fst ` set (ad_actions ad)"
    by (simp add: dict_update_map_of dom_rev dom_map_of_conv_image_fst)
  with R(1-5) R(6) assms(2) show ?thesis
    by (auto simp: registry_ok_def dom_rev map_add_Some_iff dest: capabilities_dict_action)
qed

lemma require_read_only_iff:
  "require_read_only reg as = Inr () \<longleftrightarrow>
     list_all (\<lambda>a. \<exists>c. registry_capability reg a = Some c \<and> cap_access c = ''read'') as"
  by (induction as) (auto split: option.splits)

end
