(* ===== verification/Hosted_Activity.thy ===== *)
theory Hosted_Activity
  imports Task_Model
begin

text \<open>
  The client of the hosted activity ledger, \<^verbatim>\<open>src/agent_core/hosted_activity.py\<close>, and what the
  hosted clients share: the transport, and the search for forbidden keys (this module and
  \<^verbatim>\<open>hosted_queue.py\<close> carry the same \<open>_FORBIDDEN_KEYS\<close> and \<open>_forbidden_secret_path\<close>).

  The transport is the host's: a function of the mode, the payload and the world, which may
  raise and may answer anything. A component that only sends payloads without a forbidden key
  behaves the same on a transport that refuses the others (\<open>screened\<close>).
\<close>

section \<open>Transports and forbidden keys\<close>

type_synonym 'w transport = "string \<Rightarrow> pydict \<Rightarrow> ('w, pyval) eff"

definition FORBIDDEN_KEYS :: "string list" where
  "FORBIDDEN_KEYS = [''token'', ''access_token'', ''refresh_token'', ''password'', ''secret'',
     ''service_role'', ''service_role_key'', ''api_key'', ''apikey'', ''authorization'']"

definition forbidden_key :: "string \<Rightarrow> bool" where
  "forbidden_key k \<longleftrightarrow> lower k \<in> set FORBIDDEN_KEYS"

text \<open>
  \<open>_forbidden_secret_path(value, path)\<close>. A path that was found is never the empty string, so
  \<open>if found\<close> asks whether there is one.
\<close>

fun forbidden_secret_path :: "pyval \<Rightarrow> string \<Rightarrow> string option"
  and forbidden_in_items :: "pydict \<Rightarrow> string \<Rightarrow> string option"
  and forbidden_in_elements :: "pyval list \<Rightarrow> nat \<Rightarrow> string \<Rightarrow> string option" where
  "forbidden_secret_path (PDict d) path = forbidden_in_items d path"
| "forbidden_secret_path (PList xs) path = forbidden_in_elements xs 0 path"
| "forbidden_secret_path _ path = None"
| "forbidden_in_items [] path = None"
| "forbidden_in_items ((k, v) # d) path =
     (if forbidden_key k then Some (path @ ''.'' @ k)
      else case forbidden_secret_path v (path @ ''.'' @ k) of
             Some p \<Rightarrow> Some p
           | None \<Rightarrow> forbidden_in_items d path)"
| "forbidden_in_elements [] i path = None"
| "forbidden_in_elements (v # vs) i path =
     (case forbidden_secret_path v (path @ ''['' @ nat_str i @ '']'') of
        Some p \<Rightarrow> Some p
      | None \<Rightarrow> forbidden_in_elements vs (Suc i) path)"

text \<open>The specification: no dictionary at any depth has a forbidden key.\<close>

fun clean_val :: "pyval \<Rightarrow> bool" where
  "clean_val (PDict d) = list_all (\<lambda>p. \<not> forbidden_key (fst p) \<and> clean_val (snd p)) d"
| "clean_val (PList xs) = list_all clean_val xs"
| "clean_val _ = True"

lemma forbidden_secret_path_None:
  "forbidden_secret_path v path = None \<longleftrightarrow> clean_val v"
  "forbidden_in_items d path = None \<longleftrightarrow> clean_val (PDict d)"
  "forbidden_in_elements vs i path = None \<longleftrightarrow> clean_val (PList vs)"
  by (induction v path and d path and vs i path
      rule: forbidden_secret_path_forbidden_in_items_forbidden_in_elements.induct)
    (auto split: option.splits)

lemma clean_get: "clean_val (PDict d) \<Longrightarrow> clean_val (dict_get d k)"
  by (auto simp: dict_get_def list_all_iff split: option.splits dest!: map_of_SomeD)

text \<open>A transport that refuses every payload with a forbidden key.\<close>

definition screened :: "'w transport \<Rightarrow> 'w transport" where
  "screened tr mode payload =
     (if clean_val (PDict payload) then tr mode payload
      else raiseE (Exc AssertionError ''forbidden_secret_sent''))"

lemma screened_clean [simp]: "clean_val (PDict payload) \<Longrightarrow> screened tr mode payload = tr mode payload"
  by (simp add: screened_def)

section \<open>Events\<close>

record activity_event =
  ev_event_id :: int
  ev_task_id :: string
  ev_event_type :: string
  ev_step_id :: "string option"
  ev_payload :: pydict
  ev_created_at :: string

abbreviation activity_integrity :: "string \<Rightarrow> exc + 'a" where
  "activity_integrity m \<equiv> Inl (Exc HostedActivityIntegrityError m)"

definition activity_valid_task_id :: "string \<Rightarrow> bool" where
  "activity_valid_task_id s \<longleftrightarrow>
     s \<noteq> [] \<and> length s \<le> 128 \<and> ascii_alnum (hd s) \<and>
     list_all (\<lambda>c. ascii_alnum c \<or> c \<in> set ''._-'') s"

definition validate_event_type :: "pyval \<Rightarrow> string res" where
  "validate_event_type v =
     (case v of
        PStr s \<Rightarrow> if blank s \<or> length (strip s) > 128 then value_error ''invalid_event_type'' else Inr (strip s)
      | _ \<Rightarrow> value_error ''event_type_required'')"

definition validate_step_id :: "pyval \<Rightarrow> string option res" where
  "validate_step_id v =
     (case v of
        PNone \<Rightarrow> Inr None
      | PStr s \<Rightarrow> if blank s \<or> length (strip s) > 128 then value_error ''invalid_step_id'' else Inr (Some (strip s))
      | _ \<Rightarrow> value_error ''invalid_step_id'')"

definition validate_payload :: "pyval \<Rightarrow> pydict res" where
  "validate_payload v =
     (case v of
        PDict d \<Rightarrow>
          (case forbidden_secret_path (PDict d) ''$'' of
             Some p \<Rightarrow> value_error (''event_payload_contains_forbidden_secret:'' @ p)
           | None \<Rightarrow> Inr d)
      | _ \<Rightarrow> value_error ''event_payload_must_be_object'')"

text \<open>A text field of a row: not blank and at most 128 characters before stripping.\<close>

definition row_text :: "pyval \<Rightarrow> string \<Rightarrow> string res" where
  "row_text v err =
     (case v of
        PStr s \<Rightarrow> if blank s \<or> length s > 128 then activity_integrity err else Inr (strip s)
      | _ \<Rightarrow> activity_integrity err)"

definition parse_event :: "string option \<Rightarrow> pyval \<Rightarrow> activity_event res" where
  "parse_event expected v =
     (case v of
        PDict d \<Rightarrow>
          bindR (case dict_get d ''event_id'' of
                   PInt i \<Rightarrow> if i \<le> 0 then activity_integrity ''invalid_activity_event_id'' else Inr i
                 | _ \<Rightarrow> activity_integrity ''invalid_activity_event_id'') (\<lambda>eid.
          bindR (case dict_get d ''task_id'' of
                   PStr t \<Rightarrow> if activity_valid_task_id t then Inr t
                             else activity_integrity ''invalid_activity_task_id''
                 | _ \<Rightarrow> activity_integrity ''invalid_activity_task_id'') (\<lambda>tid.
          if (case expected of None \<Rightarrow> False | Some t \<Rightarrow> tid \<noteq> t)
          then activity_integrity ''activity_task_id_mismatch''
          else
          bindR (row_text (dict_get d ''event_type'') ''invalid_activity_event_type'') (\<lambda>ty.
          bindR (if dict_get d ''step_id'' = PNone then Inr None
                 else bindR (row_text (dict_get d ''step_id'') ''invalid_activity_step_id'') (\<lambda>s. Inr (Some s))) (\<lambda>sid.
          bindR (case dict_get d ''payload'' of
                   PDict p \<Rightarrow> if forbidden_secret_path (PDict p) ''$'' \<noteq> None
                              then activity_integrity ''activity_payload_contains_forbidden_secret'' else Inr p
                 | _ \<Rightarrow> activity_integrity ''invalid_activity_payload'') (\<lambda>payload.
          bindR (case dict_get d ''created_at'' of
                   PStr c \<Rightarrow> if c = [] then activity_integrity ''invalid_activity_created_at'' else Inr c
                 | _ \<Rightarrow> activity_integrity ''invalid_activity_created_at'') (\<lambda>created.
          Inr \<lparr>ev_event_id = eid, ev_task_id = tid, ev_event_type = ty, ev_step_id = sid,
               ev_payload = payload, ev_created_at = created\<rparr>))))))
      | _ \<Rightarrow> activity_integrity ''activity_event_object_required'')"

section \<open>The client\<close>

definition activity_request :: "'w transport \<Rightarrow> string \<Rightarrow> pydict \<Rightarrow> ('w, pydict) eff" where
  "activity_request tr mode payload =
     bindE (tr mode payload) (\<lambda>v.
       case v of
         PDict r \<Rightarrow>
           if dict_get r ''success'' \<noteq> PBool True
           then raiseE (Exc HostedActivityError
                  (py_str (py_or (dict_get r ''error'') (PStr ''hosted_activity_request_failed''))))
           else retE r
       | _ \<Rightarrow> raiseE (Exc HostedActivityError ''invalid_hosted_activity_response''))"

definition activity_append ::
  "'w transport \<Rightarrow> string \<Rightarrow> pyval \<Rightarrow> pyval \<Rightarrow> pyval \<Rightarrow> ('w, activity_event) eff" where
  "activity_append tr tid event_type step_id payload =
     (if \<not> activity_valid_task_id tid then raiseE (Exc ValueError ''invalid_task_id'')
      else
        bindE (liftE (validate_event_type event_type)) (\<lambda>ty.
        bindE (liftE (validate_step_id step_id)) (\<lambda>sid.
        bindE (liftE (validate_payload (py_or payload (PDict [])))) (\<lambda>clean.
        bindE (activity_request tr ''event_append''
                 [(''task_id'', PStr tid), (''event_type'', PStr ty), (''step_id'', opt_str sid),
                  (''payload'', PDict clean)]) (\<lambda>r.
        liftE (parse_event (Some tid) (dict_get r ''event'')))))))"

definition list_limit_arg :: "pyval \<Rightarrow> int res" where
  "list_limit_arg v =
     (case v of
        PInt n \<Rightarrow> if 1 \<le> n \<and> n \<le> 200 then Inr n else value_error ''activity_list_limit_out_of_range''
      | _ \<Rightarrow> value_error ''activity_list_limit_out_of_range'')"

definition after_event_arg :: "pyval \<Rightarrow> int option res" where
  "after_event_arg v =
     (case v of
        PNone \<Rightarrow> Inr None
      | PInt n \<Rightarrow> if n < 0 then value_error ''invalid_after_event_id'' else Inr (Some n)
      | _ \<Rightarrow> value_error ''invalid_after_event_id'')"

definition check_events :: "int option \<Rightarrow> activity_event list \<Rightarrow> activity_event list res" where
  "check_events after events =
     (let ids = map ev_event_id events in
      if ids \<noteq> sort ids \<or> length ids \<noteq> length (remdups ids)
      then activity_integrity ''activity_event_order_or_duplicate_error''
      else if (case after of None \<Rightarrow> False | Some a \<Rightarrow> list_ex (\<lambda>i. i \<le> a) ids)
      then activity_integrity ''activity_event_cursor_violation''
      else Inr events)"

definition activity_list ::
  "'w transport \<Rightarrow> string \<Rightarrow> pyval \<Rightarrow> pyval \<Rightarrow> ('w, activity_event list) eff" where
  "activity_list tr tid after_event_id limit =
     (if \<not> activity_valid_task_id tid then raiseE (Exc ValueError ''invalid_task_id'')
      else
        bindE (liftE (list_limit_arg limit)) (\<lambda>n.
        bindE (liftE (after_event_arg after_event_id)) (\<lambda>after.
        bindE (activity_request tr ''event_list''
                 ([(''task_id'', PStr tid), (''limit'', PInt n)] @
                  (case after of None \<Rightarrow> [] | Some a \<Rightarrow> [(''after_event_id'', PInt a)]))) (\<lambda>r.
        case dict_get r ''events'' of
          PList rows \<Rightarrow> bindE (liftE (mapR (parse_event (Some tid)) rows)) (\<lambda>evs. liftE (check_events after evs))
        | _ \<Rightarrow> raiseE (Exc HostedActivityIntegrityError ''activity_event_list_required'')))))"

section \<open>What is accepted\<close>

text \<open>The contract of a record of the ledger of a task.\<close>

definition event_ok :: "string \<Rightarrow> activity_event \<Rightarrow> bool" where
  "event_ok tid e \<longleftrightarrow>
     0 < ev_event_id e \<and> ev_task_id e = tid \<and> activity_valid_task_id tid \<and>
     ev_event_type e \<noteq> [] \<and> strip (ev_event_type e) = ev_event_type e \<and>
     (\<forall>s. ev_step_id e = Some s \<longrightarrow> s \<noteq> [] \<and> strip s = s) \<and>
     clean_val (PDict (ev_payload e)) \<and> ev_created_at e \<noteq> []"

lemma row_text_Inr: "row_text v err = Inr s \<Longrightarrow> s \<noteq> [] \<and> strip s = s"
  by (auto simp: row_text_def split: pyval.splits if_splits)

lemma parse_event_ok:
  assumes "parse_event (Some tid) v = Inr e"
  shows "event_ok tid e"
  using assms
  by (cases v) (auto simp: parse_event_def event_ok_def bindR_eq_Inr forbidden_secret_path_None
      split: pyval.splits if_splits dest: row_text_Inr simp del: clean_val.simps)

lemma mapR_parse_event_ok:
  "mapR (parse_event (Some tid)) rows = Inr evs \<Longrightarrow> list_all (event_ok tid) evs"
  by (auto simp: mapR_eq_Inr list_all2_conv_all_nth list_all_length intro: parse_event_ok)

lemma check_events_ok:
  assumes "check_events after evs = Inr evs'"
  shows "evs' = evs \<and> sorted_wrt (<) (map ev_event_id evs) \<and>
    (\<forall>a. after = Some a \<longrightarrow> list_all (\<lambda>e. a < ev_event_id e) evs)"
proof -
  let ?ids = "map ev_event_id evs"
  have *: "evs' = evs" "?ids = sort ?ids" "length (remdups ?ids) = length ?ids"
    using assms by (auto simp: check_events_def Let_def split: if_splits)
  from *(2) have "sorted ?ids" by (metis sorted_sort)
  moreover from *(3) have "distinct ?ids"
    by (metis length_remdups_eq remdups_id_iff_distinct)
  moreover have "\<forall>a. after = Some a \<longrightarrow> list_all (\<lambda>e. a < ev_event_id e) evs"
    using assms by (auto simp: check_events_def Let_def list_all_iff list_ex_iff not_le split: if_splits)
  ultimately show ?thesis
    using *(1) by (simp add: strict_sorted_iff)
qed

lemma activity_request_Inr:
  assumes "activity_request tr mode payload w = (Inr r, w')"
  shows "tr mode payload w = (Inr (PDict r), w') \<and> dict_get r ''success'' = PBool True"
proof -
  obtain v w1 where v: "tr mode payload w = (Inr v, w1)"
    using assms by (auto simp: activity_request_def bindE_eq_Inr)
  with assms show ?thesis
    by (cases v) (auto simp: activity_request_def bindE_apply split: if_splits)
qed

lemma list_case_Inr:
  "(case v of PList xs \<Rightarrow> f xs | _ \<Rightarrow> raiseE e) w = (Inr y, w') \<longleftrightarrow>
     (\<exists>xs. v = PList xs \<and> f xs w = (Inr y, w'))"
  by (cases v) auto

lemma activity_list_Inr:
  assumes "activity_list tr tid after limit w = (Inr events, w')"
  shows "\<exists>cursor. after_event_arg after = Inr cursor \<and> list_all (event_ok tid) events \<and>
    check_events cursor events = Inr events"
proof -
  obtain cursor rows evs where "after_event_arg after = Inr cursor"
    and "mapR (parse_event (Some tid)) rows = Inr evs" and c: "check_events cursor evs = Inr events"
    using assms by (auto simp: activity_list_def bindE_eq_Inr list_case_Inr split: if_split_asm)
  with check_events_ok [OF c] mapR_parse_event_ok show ?thesis by auto
qed

lemma clean_opt_str [simp]: "clean_val (opt_str x)"
  by (cases x) (simp_all add: opt_str_def)

lemma validate_payload_clean: "validate_payload v = Inr d \<Longrightarrow> v = PDict d \<and> clean_val (PDict d)"
  by (auto simp: validate_payload_def forbidden_secret_path_None
      split: pyval.splits option.splits simp del: clean_val.simps)

lemma fixed_keys_allowed:
  "\<not> forbidden_key ''task_id''" "\<not> forbidden_key ''event_type''" "\<not> forbidden_key ''step_id''"
  "\<not> forbidden_key ''payload''" "\<not> forbidden_key ''limit''" "\<not> forbidden_key ''after_event_id''"
  by code_simp+

lemma activity_request_screened:
  "clean_val (PDict payload) \<Longrightarrow> activity_request (screened tr) mode payload = activity_request tr mode payload"
  by (simp add: activity_request_def del: clean_val.simps)

lemma activity_append_screened:
  "activity_append (screened tr) tid ty sid payload = activity_append tr tid ty sid payload"
proof -
  have "bindE (liftE (validate_payload v)) (\<lambda>clean. bindE (activity_request (screened tr) m (f clean)) g) =
        bindE (liftE (validate_payload v)) (\<lambda>clean. bindE (activity_request tr m (f clean)) g)"
    if "\<And>d. clean_val (PDict d) \<Longrightarrow> clean_val (PDict (f d))"
    for v m f and g :: "pydict \<Rightarrow> ('a, activity_event) eff"
    using validate_payload_clean [of v] that
    by (cases "validate_payload v") (auto simp: activity_request_screened simp del: clean_val.simps)
  then show ?thesis
    by (simp add: activity_append_def fixed_keys_allowed)
qed

lemma activity_list_screened:
  "activity_list (screened tr) tid after n = activity_list tr tid after n"
  by (simp add: activity_list_def activity_request_screened fixed_keys_allowed cong: if_cong
      split: option.splits)

text \<open>Dictionaries one entry at a time.\<close>

lemma clean_entries [simp]:
  "clean_val (PDict [])"
  "clean_val (PDict (p # d)) \<longleftrightarrow> \<not> forbidden_key (fst p) \<and> clean_val (snd p) \<and> clean_val (PDict d)"
  by auto

declare clean_val.simps(1) [simp del]

end
