(* ===== verification/Hosted_Queue.thy ===== *)
theory Hosted_Queue
  imports Hosted_Activity
begin

text \<open>
  The client of the hosted queue, \<^verbatim>\<open>src/agent_core/hosted_queue.py\<close>, and its restriction to one
  task, \<^verbatim>\<open>src/agent_core/exact_task_queue.py\<close>. A lease is the row the host reports for a task: its
  checkpoint, its revision and its fencing metadata. The client refuses a row that contradicts
  itself, the task it asked for, or the request it sent.

  The clock is a function of the world; \<open>TaskState.from_dict\<close> reads it for a state without a
  time stamp. Strings that identify a task or a worker have a static type, the other arguments
  are checked dynamically as in the source.
\<close>

section \<open>Leases\<close>

record queue_lease =
  ql_task_id :: string
  ql_status :: string
  ql_revision :: int
  ql_idempotency_key :: string
  ql_spec :: task_spec
  ql_state :: task_state
  ql_attempt_count :: int
  ql_max_attempts :: int
  ql_lease_owner :: "string option"
  ql_lease_generation :: int
  ql_lease_expires_at :: "string option"
  ql_not_before :: string
  ql_created_at :: "string option"
  ql_updated_at :: "string option"

definition fenced :: "queue_lease \<Rightarrow> bool" where
  "fenced l \<longleftrightarrow> ql_status l = ''running'' \<and> ql_lease_owner l \<noteq> None \<and> ql_lease_expires_at l \<noteq> None"

abbreviation queue_integrity :: "string \<Rightarrow> exc + 'a" where
  "queue_integrity m \<equiv> Inl (Exc HostedQueueIntegrityError m)"

definition ROW_STATUSES :: "string list" where
  "ROW_STATUSES = [''queued'', ''running'', ''blocked'', ''completed'', ''failed'']"

definition SAVE_STATUSES :: "string list" where
  "SAVE_STATUSES = [''running'', ''blocked'', ''completed'', ''failed'']"

definition valid_worker_id :: "string \<Rightarrow> bool" where
  "valid_worker_id s \<longleftrightarrow>
     s \<noteq> [] \<and> length s \<le> 128 \<and> ascii_alnum (hd s) \<and>
     list_all (\<lambda>c. ascii_alnum c \<or> c \<in> set ''._:-'') s"

text \<open>\<open>type(value) is int\<close> with a range, or the error.\<close>

definition int_arg :: "pyval \<Rightarrow> (int \<Rightarrow> bool) \<Rightarrow> exc \<Rightarrow> int res" where
  "int_arg v ok e = (case v of PInt n \<Rightarrow> if ok n then Inr n else Inl e | _ \<Rightarrow> Inl e)"

definition lease_seconds_arg :: "pyval \<Rightarrow> int res" where
  "lease_seconds_arg v = int_arg v (\<lambda>n. 15 \<le> n \<and> n \<le> 3600) (Exc ValueError ''invalid_lease_seconds'')"

definition queue_parse_int :: "pyval \<Rightarrow> string \<Rightarrow> int \<Rightarrow> int res" where
  "queue_parse_int v name minimum =
     int_arg v (\<lambda>n. minimum \<le> n) (Exc HostedQueueIntegrityError (''invalid_'' @ name))"

definition clean_state :: "string \<Rightarrow> task_spec \<Rightarrow> task_state \<Rightarrow> task_state res" where
  "clean_state now spec st =
     bindR (TaskState_from_dict now (TaskState_to_dict st)) (\<lambda>detached.
       if st_task_id detached \<noteq> sp_task_id spec then queue_integrity ''task_state_id_mismatch''
       else if \<not> py_eq (st_spec_fingerprint detached) (PStr (fingerprint spec))
       then queue_integrity ''task_spec_changed''
       else case forbidden_secret_path (PDict (TaskState_to_dict detached)) ''$'' of
              Some p \<Rightarrow> queue_integrity (''state_contains_forbidden_secret:'' @ p)
            | None \<Rightarrow> Inr detached)"

text \<open>\<open>spec\<close> and \<open>state\<close> of a row are dictionaries, or the error.\<close>

definition both_dicts :: "pyval \<Rightarrow> pyval \<Rightarrow> exc \<Rightarrow> (pydict \<times> pydict) res" where
  "both_dicts a b e =
     (case a of PDict x \<Rightarrow> (case b of PDict y \<Rightarrow> Inr (x, y) | _ \<Rightarrow> Inl e) | _ \<Rightarrow> Inl e)"

text \<open>The models of a row; an error of either constructor is an integrity error of the row.\<close>

definition row_models :: "string \<Rightarrow> exc \<Rightarrow> pydict \<Rightarrow> pydict \<Rightarrow> (task_spec \<times> task_state) res" where
  "row_models now err raw_spec raw_state =
     (case bindR (TaskSpec_from_dict raw_spec) (\<lambda>spec.
           bindR (TaskState_from_dict now raw_state) (\<lambda>st. Inr (spec, st))) of
        Inr m \<Rightarrow> Inr m
      | Inl e \<Rightarrow> if catches KeyError e \<or> catches TypeError e \<or> catches ValueError e then Inl err else Inl e)"

text \<open>
  The fencing fields of a row: set while it is running, absent otherwise.
\<close>

definition row_fence :: "string \<Rightarrow> int \<Rightarrow> pyval \<Rightarrow> pyval \<Rightarrow> (string option \<times> string option) res" where
  "row_fence status generation owner expires =
     (if status = ''running'' then
        (case owner of
           PStr s \<Rightarrow>
             if \<not> valid_worker_id s then queue_integrity ''invalid_lease_owner''
             else if generation < 1 then queue_integrity ''invalid_lease_generation''
             else (case expires of
                     PStr x \<Rightarrow> if x = [] then queue_integrity ''invalid_lease_expiry'' else Inr (Some s, Some x)
                   | _ \<Rightarrow> queue_integrity ''invalid_lease_expiry'')
         | _ \<Rightarrow> queue_integrity ''invalid_lease_owner'')
      else if owner \<noteq> PNone \<or> expires \<noteq> PNone then queue_integrity ''terminal_or_queued_lease_not_cleared''
      else Inr (None, None))"

text \<open>The search of a row for forbidden keys.\<close>

definition row_screen :: "pydict \<Rightarrow> pydict \<Rightarrow> unit res" where
  "row_screen raw_spec raw_state =
     (case forbidden_secret_path (PDict [(''spec'', PDict raw_spec), (''state'', PDict raw_state)]) ''$'' of
        Some p \<Rightarrow> queue_integrity (''queue_record_contains_forbidden_secret:'' @ p)
      | None \<Rightarrow> Inr ())"

definition nonempty_text :: "pyval \<Rightarrow> string \<Rightarrow> string res" where
  "nonempty_text v err = (case v of PStr s \<Rightarrow> if s = [] then queue_integrity err else Inr s | _ \<Rightarrow> queue_integrity err)"

text \<open>The first half of \<open>_parse_lease\<close>: the task, its status, and the models that belong to it.\<close>

definition parse_identity ::
  "string \<Rightarrow> task_spec option \<Rightarrow> pydict \<Rightarrow> (string \<times> string \<times> task_spec \<times> task_state) res" where
  "parse_identity now expected d =
     bindR (nonempty_text (dict_get d ''task_id'') ''invalid_queue_task_id'') (\<lambda>tid.
     bindR (in_str_set (dict_get d ''status'') ROW_STATUSES) (\<lambda>known.
     if \<not> known then queue_integrity ''invalid_queue_status''
     else
     let status = py_str (dict_get d ''status'') in
     bindR (both_dicts (dict_get d ''spec'') (dict_get d ''state'')
              (Exc HostedQueueIntegrityError ''queue_spec_state_required'')) (\<lambda>(raw_spec, raw_state).
     bindR (row_models now (Exc HostedQueueIntegrityError ''invalid_queue_model'') raw_spec raw_state) (\<lambda>(spec, st).
     if sp_task_id spec \<noteq> tid \<or> st_task_id st \<noteq> tid
     then queue_integrity ''queue_task_identity_mismatch''
     else if (case expected of None \<Rightarrow> False
              | Some x \<Rightarrow> \<not> py_eq (PDict (TaskSpec_to_dict spec)) (PDict (TaskSpec_to_dict x)))
     then queue_integrity ''task_spec_changed''
     else if \<not> py_eq (dict_get d ''spec_fingerprint'') (PStr (fingerprint spec))
           \<or> \<not> py_eq (st_spec_fingerprint st) (PStr (fingerprint spec))
     then queue_integrity ''queue_spec_fingerprint_mismatch''
     else if \<not> py_eq (st_status st) (PStr (if status = ''queued'' then ''pending'' else status))
     then queue_integrity ''queue_state_status_mismatch''
     else bindR (row_screen raw_spec raw_state) (\<lambda>_. Inr (tid, status, spec, st))))))"

definition parse_lease :: "string \<Rightarrow> task_spec option \<Rightarrow> pyval \<Rightarrow> queue_lease res" where
  "parse_lease now expected v =
     (case v of
        PDict d \<Rightarrow>
          bindR (parse_identity now expected d) (\<lambda>(tid, status, spec, st).
          bindR (queue_parse_int (dict_get d ''revision'') ''queue_revision'' 0) (\<lambda>revision.
          bindR (queue_parse_int (dict_get d ''attempt_count'') ''attempt_count'' 0) (\<lambda>attempts.
          bindR (queue_parse_int (dict_get d ''max_attempts'') ''max_attempts'' 1) (\<lambda>max_attempts.
          bindR (queue_parse_int (dict_get d ''lease_generation'') ''lease_generation'' 0) (\<lambda>generation.
          if attempts > max_attempts then queue_integrity ''attempt_budget_exceeded''
          else
          bindR (nonempty_text (dict_get d ''idempotency_key'') ''invalid_queue_idempotency_key'') (\<lambda>key.
          bindR (nonempty_text (dict_get d ''not_before'') ''invalid_not_before'') (\<lambda>not_before.
          bindR (row_fence status generation (dict_get d ''lease_owner'') (dict_get d ''lease_expires_at''))
            (\<lambda>(owner, expires).
          Inr \<lparr>ql_task_id = tid, ql_status = status, ql_revision = revision, ql_idempotency_key = key,
               ql_spec = spec, ql_state = st, ql_attempt_count = attempts, ql_max_attempts = max_attempts,
               ql_lease_owner = owner, ql_lease_generation = generation, ql_lease_expires_at = expires,
               ql_not_before = not_before, ql_created_at = as_str (dict_get d ''created_at''),
               ql_updated_at = as_str (dict_get d ''updated_at'')\<rparr>))))))))
      | _ \<Rightarrow> queue_integrity ''queue_lease_object_required'')"

section \<open>The client\<close>

text \<open>What the client is built on: the host's transport and the process clock.\<close>

record 'w queue_host =
  qh_transport :: "'w transport"
  qh_clock :: "'w \<Rightarrow> string"

definition queue_error_from_response :: "pydict \<Rightarrow> exc" where
  "queue_error_from_response r =
     (let message = py_str (py_or (dict_get r ''error'') (PStr ''hosted_queue_request_failed''));
          backend_code = py_str (py_or (dict_get r ''backend_code'') (PStr []))
      in if backend_code = ''40001'' \<or> substring ''conflict'' message \<or> substring ''expired'' message
         then Exc HostedQueueConflict message else Exc HostedQueueError message)"

definition queue_request :: "'w queue_host \<Rightarrow> string \<Rightarrow> pydict \<Rightarrow> ('w, pydict) eff" where
  "queue_request h mode payload =
     bindE (qh_transport h mode payload) (\<lambda>v.
       case v of
         PDict r \<Rightarrow> if dict_get r ''success'' \<noteq> PBool True then raiseE (queue_error_from_response r) else retE r
       | _ \<Rightarrow> raiseE (Exc HostedQueueError ''invalid_hosted_queue_response''))"

text \<open>\<open>TaskSpec.from_dict(deepcopy(spec.to_dict()))\<close> followed by \<open>validate\<close>.\<close>

definition detached_spec :: "task_spec \<Rightarrow> task_spec res" where
  "detached_spec spec =
     bindR (TaskSpec_from_dict (TaskSpec_to_dict spec)) (\<lambda>s. bindR (TaskSpec_validate s) (\<lambda>_. Inr s))"

text \<open>A step that reads the clock.\<close>

definition at_clock :: "'w queue_host \<Rightarrow> (string \<Rightarrow> 'a res) \<Rightarrow> ('w, 'a) eff" where
  "at_clock h f = (\<lambda>w. (f (qh_clock h w), w))"

definition queue_inspect :: "'w queue_host \<Rightarrow> task_spec \<Rightarrow> ('w, queue_lease) eff" where
  "queue_inspect h spec0 =
     bindE (liftE (detached_spec spec0)) (\<lambda>spec.
     bindE (queue_request h ''checkpoint_get'' [(''task_id'', PStr (sp_task_id spec))]) (\<lambda>r.
     at_clock h (\<lambda>now. parse_lease now (Some spec) (dict_get r ''checkpoint''))))"

text \<open>The part of a claim after the request: \<open>None\<close> when the queue has nothing to claim.\<close>

definition claimed_lease :: "string \<Rightarrow> string \<Rightarrow> task_spec option \<Rightarrow> pydict \<Rightarrow> queue_lease option res" where
  "claimed_lease now worker expected r =
     (if dict_get r ''claimed'' = PBool False \<and> dict_get r ''lease'' = PNone then Inr None
      else if dict_get r ''claimed'' \<noteq> PBool True then queue_integrity ''queue_claim_flag_mismatch''
      else
        bindR (parse_lease now expected (dict_get r ''lease'')) (\<lambda>l.
          if (case expected of None \<Rightarrow> False | Some spec \<Rightarrow> ql_task_id l \<noteq> sp_task_id spec)
          then queue_integrity ''exact_task_claim_identity_mismatch''
          else if ql_status l \<noteq> ''running'' \<or> ql_lease_owner l \<noteq> Some worker
          then queue_integrity ''queue_claim_identity_mismatch''
          else if ql_revision l < 1 \<or> ql_attempt_count l < 1
          then queue_integrity ''queue_claim_counters_not_advanced''
          else Inr (Some l)))"

definition queue_claim :: "'w queue_host \<Rightarrow> string \<Rightarrow> pyval \<Rightarrow> ('w, queue_lease option) eff" where
  "queue_claim h worker lease_seconds =
     (if \<not> valid_worker_id worker then raiseE (Exc ValueError ''invalid_worker_id'')
      else
        bindE (liftE (lease_seconds_arg lease_seconds)) (\<lambda>secs.
        bindE (queue_request h ''queue_claim''
                 [(''worker_id'', PStr worker), (''lease_seconds'', PInt secs)]) (\<lambda>r.
        at_clock h (\<lambda>now. claimed_lease now worker None r))))"

text \<open>\<open>ExactTaskQueueClient.claim_task\<close>.\<close>

definition queue_claim_task ::
  "'w queue_host \<Rightarrow> task_spec \<Rightarrow> string \<Rightarrow> pyval \<Rightarrow> ('w, queue_lease option) eff" where
  "queue_claim_task h spec0 worker lease_seconds =
     bindE (liftE (detached_spec spec0)) (\<lambda>spec.
     if \<not> valid_worker_id worker then raiseE (Exc ValueError ''invalid_worker_id'')
     else
       bindE (liftE (lease_seconds_arg lease_seconds)) (\<lambda>secs.
       bindE (queue_request h ''queue_claim_task''
                [(''task_id'', PStr (sp_task_id spec)), (''worker_id'', PStr worker),
                 (''lease_seconds'', PInt secs)]) (\<lambda>r.
       at_clock h (\<lambda>now. claimed_lease now worker (Some spec) r))))"

text \<open>
  \<open>BoundExactTaskQueueClient\<close>: a client that knows its task. A worker is given one of the two
  kinds of client; the only method they do not share is \<open>claim\<close>.
\<close>

record 'w queue_client =
  qc_host :: "'w queue_host"
  qc_target :: "task_spec option"

definition BoundExactTaskQueueClient :: "'w queue_host \<Rightarrow> task_spec \<Rightarrow> 'w queue_client res" where
  "BoundExactTaskQueueClient h spec0 =
     bindR (detached_spec spec0) (\<lambda>spec. Inr \<lparr>qc_host = h, qc_target = Some spec\<rparr>)"

definition HostedQueueClient :: "'w queue_host \<Rightarrow> 'w queue_client" where
  "HostedQueueClient h = \<lparr>qc_host = h, qc_target = None\<rparr>"

definition client_claim :: "'w queue_client \<Rightarrow> string \<Rightarrow> pyval \<Rightarrow> ('w, queue_lease option) eff" where
  "client_claim c worker lease_seconds =
     (case qc_target c of
        None \<Rightarrow> queue_claim (qc_host c) worker lease_seconds
      | Some spec \<Rightarrow> queue_claim_task (qc_host c) spec worker lease_seconds)"

definition revision_arg :: "pyval \<Rightarrow> int res" where
  "revision_arg v =
     int_arg v (\<lambda>n. 0 \<le> n) (Exc ValueError ''expected_revision_must_be_non_negative_integer'')"

definition generation_arg :: "pyval \<Rightarrow> int res" where
  "generation_arg v = int_arg v (\<lambda>n. 1 \<le> n) (Exc ValueError ''invalid_lease_generation'')"

definition check_saved :: "task_state \<Rightarrow> int \<Rightarrow> string \<Rightarrow> int \<Rightarrow> queue_lease \<Rightarrow> queue_lease res" where
  "check_saved st revision worker generation l =
     (if ql_revision l \<noteq> revision + 1 then queue_integrity ''queue_revision_increment_mismatch''
      else if ql_lease_generation l \<noteq> generation then queue_integrity ''queue_fencing_generation_changed''
      else if py_eq (st_status st) (PStr ''running'') then
        (if ql_lease_owner l \<noteq> Some worker \<or> \<not> fenced l
         then queue_integrity ''running_lease_not_preserved'' else Inr l)
      else if ql_lease_owner l \<noteq> None \<or> ql_lease_expires_at l \<noteq> None
      then queue_integrity ''terminal_lease_not_released''
      else Inr l)"

definition queue_save ::
  "'w queue_host \<Rightarrow> task_spec \<Rightarrow> task_state \<Rightarrow> pyval \<Rightarrow> string \<Rightarrow> pyval \<Rightarrow> pyval \<Rightarrow> ('w, queue_lease) eff" where
  "queue_save h spec0 st0 expected_revision worker lease_generation lease_seconds =
     bindE (liftE (detached_spec spec0)) (\<lambda>spec.
     bindE (at_clock h (\<lambda>now. clean_state now spec st0)) (\<lambda>st.
     bindE (liftE (in_str_set (st_status st) SAVE_STATUSES)) (\<lambda>known.
     if \<not> known then raiseE (Exc ValueError ''invalid_leased_checkpoint_status'')
     else
       bindE (liftE (revision_arg expected_revision)) (\<lambda>revision.
       if \<not> valid_worker_id worker then raiseE (Exc ValueError ''invalid_worker_id'')
       else
         bindE (liftE (generation_arg lease_generation)) (\<lambda>generation.
         bindE (liftE (lease_seconds_arg lease_seconds)) (\<lambda>secs.
         bindE (queue_request h ''queue_save''
                  [(''task_id'', PStr (sp_task_id spec)), (''expected_revision'', PInt revision),
                   (''worker_id'', PStr worker), (''lease_generation'', PInt generation),
                   (''status'', st_status st), (''state'', PDict (TaskState_to_dict st)),
                   (''lease_seconds'', PInt secs)]) (\<lambda>r.
         bindE (at_clock h (\<lambda>now. parse_lease now (Some spec) (dict_get r ''lease''))) (\<lambda>l.
         liftE (check_saved st revision worker generation l)))))))))"

definition check_reconciled :: "int \<Rightarrow> int \<Rightarrow> queue_lease \<Rightarrow> queue_lease res" where
  "check_reconciled revision generation l =
     (if ql_status l \<noteq> ''blocked'' then queue_integrity ''expired_reconciliation_not_blocked''
      else if ql_revision l \<noteq> revision + 1 then queue_integrity ''queue_revision_increment_mismatch''
      else if ql_lease_generation l \<noteq> generation then queue_integrity ''queue_fencing_generation_changed''
      else if ql_lease_owner l \<noteq> None \<or> ql_lease_expires_at l \<noteq> None
      then queue_integrity ''expired_lease_not_cleared''
      else Inr l)"

definition queue_reconcile_expired ::
  "'w queue_host \<Rightarrow> task_spec \<Rightarrow> task_state \<Rightarrow> pyval \<Rightarrow> pyval \<Rightarrow> ('w, queue_lease) eff" where
  "queue_reconcile_expired h spec0 st0 expected_revision lease_generation =
     bindE (liftE (detached_spec spec0)) (\<lambda>spec.
     bindE (at_clock h (\<lambda>now. clean_state now spec st0)) (\<lambda>st.
     if \<not> py_eq (st_status st) (PStr ''blocked'') then raiseE (Exc ValueError ''blocked_state_required'')
     else
       bindE (liftE (revision_arg expected_revision)) (\<lambda>revision.
       bindE (liftE (generation_arg lease_generation)) (\<lambda>generation.
       bindE (queue_request h ''queue_reconcile_expired''
                [(''task_id'', PStr (sp_task_id spec)), (''expected_revision'', PInt revision),
                 (''lease_generation'', PInt generation), (''state'', PDict (TaskState_to_dict st))]) (\<lambda>r.
       bindE (at_clock h (\<lambda>now. parse_lease now (Some spec) (dict_get r ''lease''))) (\<lambda>l.
       liftE (check_reconciled revision generation l)))))))"

end
