(* ===== verification/Hosted_Worker.thy ===== *)
theory Hosted_Worker
  imports Tool_Registry Hosted_Queue
begin

text \<open>
  The two users of a queue lease: the coordinator that inspects a task without executing it
  (\<^verbatim>\<open>src/agent_core/hosted_worker.py\<close>) and the read-only worker
  (\<^verbatim>\<open>src/agent_core/hosted_readonly_worker.py\<close>), which runs an \<open>AgentRunner\<close> on a store that is one
  fenced lease. The world of such a run is the store's current lease beside the outside world.
\<close>

section \<open>The coordinator\<close>

record 'w coordinator =
  co_queue :: "'w queue_client"
  co_activity :: "'w transport"
  co_registry :: "'w registry"

record worker_decision =
  wd_claimed :: bool
  wd_task_id :: "string option"
  wd_revision :: "int option"
  wd_lease_generation :: "int option"
  wd_ready :: bool
  wd_execution_enabled :: bool
  wd_missing_actions :: "string list"
  wd_forbidden_actions :: "string list"
  wd_blocked_reason :: "string option"

abbreviation EXECUTION_BLOCK_REASON :: string where
  "EXECUTION_BLOCK_REASON \<equiv> ''hosted_task_execution_not_activated''"

definition used_actions :: "task_spec \<Rightarrow> string list" where
  "used_actions spec =
     remdups (concat (map (\<lambda>s. filter (\<lambda>a. a \<noteq> [])
       (ss_action s # (case ss_verify_action s of None \<Rightarrow> [] | Some v \<Rightarrow> [v]))) (sp_steps spec)))"

definition registered :: "'w registry \<Rightarrow> string \<Rightarrow> bool" where
  "registered reg a \<longleftrightarrow> a \<in> set (map fst (rg_actions reg))"

definition access_in :: "'w registry \<Rightarrow> string list \<Rightarrow> string \<Rightarrow> bool" where
  "access_in reg allowed a =
     (case registry_capability reg a of None \<Rightarrow> False | Some c \<Rightarrow> cap_access c \<in> set allowed)"

definition worker_preflight ::
  "'w registry \<Rightarrow> string list \<Rightarrow> task_spec \<Rightarrow> (string list \<times> string list) res" where
  "worker_preflight reg allowed spec =
     bindR (TaskSpec_validate spec) (\<lambda>_.
       let used = used_actions spec
       in Inr (sorted_set (filter (\<lambda>a. \<not> registered reg a) used),
               filter (\<lambda>a. \<not> access_in reg allowed a) (sorted_set (filter (registered reg) used))))"

definition blocked_state :: "string \<Rightarrow> queue_lease \<Rightarrow> string \<Rightarrow> task_state res" where
  "blocked_state now l reason =
     bindR (TaskState_from_dict now (TaskState_to_dict (ql_state l))) (\<lambda>st.
       Inr (touch now (st\<lparr>st_status := PStr ''blocked'', st_blocked_reason := PStr reason,
                         st_last_error := PNone\<rparr>)))"

definition preflight_reason :: "string list \<Rightarrow> string list \<Rightarrow> string" where
  "preflight_reason missing forbidden =
     (if missing \<noteq> [] then ''preflight_missing_actions:'' @ join '','' missing
      else if forbidden \<noteq> [] then ''preflight_forbidden_actions:'' @ join '','' forbidden
      else EXECUTION_BLOCK_REASON)"

definition inspect_lease ::
  "'w coordinator \<Rightarrow> string \<Rightarrow> pyval \<Rightarrow> string list \<Rightarrow> queue_lease \<Rightarrow> ('w, worker_decision) eff" where
  "inspect_lease co worker secs allowed l =
     bindE (activity_append (co_activity co) (ql_task_id l) (PStr ''worker_preflight_started'') PNone
              (PDict [(''worker_id'', PStr worker), (''revision'', PInt (ql_revision l)),
                      (''lease_generation'', PInt (ql_lease_generation l))])) (\<lambda>_.
     bindE (liftE (worker_preflight (co_registry co) allowed (ql_spec l))) (\<lambda>(missing, forbidden).
     let reason = preflight_reason missing forbidden in
     bindE (at_clock (qc_host (co_queue co)) (\<lambda>now. blocked_state now l reason)) (\<lambda>st.
     bindE (queue_save (qc_host (co_queue co)) (ql_spec l) st (PInt (ql_revision l)) worker
              (PInt (ql_lease_generation l)) secs) (\<lambda>released.
     if ql_status released \<noteq> ''blocked'' \<or> ql_lease_owner released \<noteq> None
     then raiseE (Exc RuntimeError ''worker_preflight_failed_to_release_lease'')
     else
       bindE (activity_append (co_activity co) (ql_task_id l) (PStr ''worker_preflight_blocked'') PNone
                (PDict [(''worker_id'', PStr worker), (''revision'', PInt (ql_revision released)),
                        (''lease_generation'', PInt (ql_lease_generation released)), (''reason'', PStr reason),
                        (''missing_actions'', PList (map PStr missing)),
                        (''forbidden_actions'', PList (map PStr forbidden)),
                        (''execution_enabled'', PBool False)])) (\<lambda>_.
       retE \<lparr>wd_claimed = True, wd_task_id = Some (ql_task_id l), wd_revision = Some (ql_revision released),
             wd_lease_generation = Some (ql_lease_generation released),
             wd_ready = (missing = [] \<and> forbidden = []), wd_execution_enabled = False,
             wd_missing_actions = missing, wd_forbidden_actions = forbidden,
             wd_blocked_reason = Some reason\<rparr>)))))"

definition inspect_next ::
  "'w coordinator \<Rightarrow> string \<Rightarrow> pyval \<Rightarrow> string list \<Rightarrow> ('w, worker_decision) eff" where
  "inspect_next co worker secs allowed =
     bindE (client_claim (co_queue co) worker secs) (\<lambda>claimed.
       case claimed of
         None \<Rightarrow> retE \<lparr>wd_claimed = False, wd_task_id = None, wd_revision = None, wd_lease_generation = None,
                       wd_ready = False, wd_execution_enabled = False, wd_missing_actions = [],
                       wd_forbidden_actions = [], wd_blocked_reason = Some ''queue_empty''\<rparr>
       | Some l \<Rightarrow> inspect_lease co worker secs allowed l)"

section \<open>A lease as the store of a runner\<close>

text \<open>
  \<open>HostedLeaseStateStore\<close>: its fields but the lease are arguments; the lease is the first
  component of the world.
\<close>

record 'w lease_store =
  ls_host :: "'w queue_host"
  ls_activity :: "'w transport"
  ls_worker_id :: string
  ls_lease_seconds :: pyval

definition hs_lock :: "string \<Rightarrow> (queue_lease \<times> 'w, unit) eff" where
  "hs_lock tid lw =
     (if tid \<noteq> ql_task_id (fst lw) then (value_error ''task_state_id_mismatch'', lw) else (Inr (), lw))"

definition hs_exists :: "string \<Rightarrow> queue_lease \<times> 'w \<Rightarrow> bool res" where
  "hs_exists tid lw =
     (if tid \<noteq> ql_task_id (fst lw) then value_error ''task_state_id_mismatch'' else Inr True)"

definition hs_load :: "'w lease_store \<Rightarrow> string \<Rightarrow> queue_lease \<times> 'w \<Rightarrow> task_state res" where
  "hs_load ls tid lw =
     (if tid \<noteq> ql_task_id (fst lw) then value_error ''task_state_id_mismatch''
      else TaskState_from_dict (qh_clock (ls_host ls) (snd lw)) (TaskState_to_dict (ql_state (fst lw))))"

definition hs_save :: "'w lease_store \<Rightarrow> task_state \<Rightarrow> (queue_lease \<times> 'w, string) eff" where
  "hs_save ls st lw =
     (if st_task_id st \<noteq> ql_task_id (fst lw) then (value_error ''task_state_id_mismatch'', lw)
      else
        let now = qh_clock (ls_host ls) (snd lw) in
        case queue_save (ls_host ls) (ql_spec (fst lw)) (touch now st) (PInt (ql_revision (fst lw)))
               (ls_worker_id ls) (PInt (ql_lease_generation (fst lw))) (ls_lease_seconds ls) (snd lw) of
          (Inl e, w) \<Rightarrow> (Inl e, (fst lw, w))
        | (Inr l, w) \<Rightarrow> (Inr now, (l, w)))"

definition hs_append_event ::
  "'w lease_store \<Rightarrow> string \<Rightarrow> string option \<Rightarrow> string \<Rightarrow> string \<Rightarrow> pydict \<Rightarrow> (queue_lease \<times> 'w, unit) eff" where
  "hs_append_event ls tid sid ty msg data lw =
     (if tid \<noteq> ql_task_id (fst lw) then (value_error ''activity_task_id_mismatch'', lw)
      else case activity_append (ls_activity ls) tid (PStr ty) (opt_str sid)
                  (PDict [(''message'', PStr msg), (''data'', PDict data)]) (snd lw) of
             (Inl e, w) \<Rightarrow> (Inl e, (fst lw, w))
           | (Inr _, w) \<Rightarrow> (Inr (), (fst lw, w)))"

definition hs_ops :: "'w lease_store \<Rightarrow> (queue_lease \<times> 'w) store_ops" where
  "hs_ops ls = \<lparr>so_lock = hs_lock, so_unlock = (\<lambda>_ lw. lw), so_exists = hs_exists, so_load = hs_load ls,
                so_save = hs_save ls, so_event = hs_append_event ls\<rparr>"

section \<open>The read-only worker\<close>

record 'w readonly_worker =
  rw_queue :: "'w queue_client"
  rw_activity :: "'w transport"
  rw_registry :: "'w registry"
  rw_execution_authorized :: pyval

record readonly_result =
  rr_claimed :: bool
  rr_task_id :: "string option"
  rr_execution_enabled :: bool
  rr_outcome :: "run_outcome option"
  rr_blocked_reason :: pyval

definition readonly_preflight :: "'w registry \<Rightarrow> task_spec \<Rightarrow> (string list \<times> string list) res" where
  "readonly_preflight reg spec =
     bindR (TaskSpec_validate spec) (\<lambda>_.
       let used = used_actions spec
       in Inr (sorted_set (filter (\<lambda>a. \<not> registered reg a) used),
               filter (\<lambda>a. case registry_capability reg a of None \<Rightarrow> True | Some c \<Rightarrow> cap_access c \<noteq> ''read'')
                 (sorted_set (filter (registered reg) used))))"

text \<open>\<open>_artifact_updates\<close>: only a list or tuple of a dictionary is looked into.\<close>

fun artifact_updates_of :: "action_value \<Rightarrow> (artifact_update + pyval) list" where
  "artifact_updates_of (AV_Result r) = map Inl (rs_artifacts r)"
| "artifact_updates_of (AV_Dict d (Items its)) = its"
| "artifact_updates_of _ = []"

definition write_flags :: "artifact_update + pyval \<Rightarrow> pyval list res" where
  "write_flags raw =
     (case raw of
        Inl u \<Rightarrow> Inr [au_created u, au_persistent_saved u, au_device_saved u, au_ui_loaded u]
      | Inr (PDict d) \<Rightarrow>
          Inr (map (dict_get d) [''created'', ''persistent_saved'', ''device_saved'', ''ui_loaded''])
      | Inr _ \<Rightarrow> Inl (Exc SafeActionError ''read_only_action_returned_invalid_artifact_update''))"

fun check_read_only :: "(artifact_update + pyval) list \<Rightarrow> unit res" where
  "check_read_only [] = Inr ()"
| "check_read_only (raw # rest) =
     bindR (write_flags raw) (\<lambda>flags.
       if PBool True \<in> set flags then Inl (Exc SafeActionError ''read_only_action_reported_write_artifact'')
       else check_read_only rest)"

definition assert_read_only_result :: "action_value \<Rightarrow> action_value res" where
  "assert_read_only_result v = bindR (check_read_only (artifact_updates_of v)) (\<lambda>_. Inr v)"

definition guarded_action :: "'w action \<Rightarrow> 'w action" where
  "guarded_action impl args ctx = bindE (impl args ctx) (\<lambda>v. liftE (assert_read_only_result v))"

definition guarded_actions :: "'w registry \<Rightarrow> (string \<times> 'w action) list" where
  "guarded_actions reg =
     map (\<lambda>(a, impl). (a, guarded_action impl))
       (filter (\<lambda>(a, impl). case registry_capability reg a of None \<Rightarrow> False | Some c \<Rightarrow> cap_access c = ''read'')
          (rg_actions reg))"

definition release_blocked ::
  "'w readonly_worker \<Rightarrow> queue_lease \<Rightarrow> string \<Rightarrow> pyval \<Rightarrow> string \<Rightarrow> ('w, queue_lease) eff" where
  "release_blocked rw l worker secs reason =
     bindE (at_clock (qc_host (rw_queue rw)) (\<lambda>now. blocked_state now l reason)) (\<lambda>st.
     bindE (queue_save (qc_host (rw_queue rw)) (ql_spec l) st (PInt (ql_revision l)) worker
              (PInt (ql_lease_generation l)) secs) (\<lambda>released.
     if ql_status released \<noteq> ''blocked'' \<or> ql_lease_owner released \<noteq> None
     then raiseE (Exc RuntimeError ''read_only_worker_failed_to_release_lease'')
     else
       bindE (activity_append (rw_activity rw) (ql_task_id l) (PStr ''readonly_worker_blocked'') PNone
                (PDict [(''worker_id'', PStr worker), (''revision'', PInt (ql_revision released)),
                        (''lease_generation'', PInt (ql_lease_generation released)), (''reason'', PStr reason)]))
         (\<lambda>_. retE released)))"

text \<open>An action of the outside world, in the world of a run.\<close>

definition on_world :: "'w action \<Rightarrow> (queue_lease \<times> 'w) action" where
  "on_world act args ctx lw = (case act args ctx (snd lw) of (r, w) \<Rightarrow> (r, (fst lw, w)))"

definition lease_runner ::
  "'w readonly_worker \<Rightarrow> string \<Rightarrow> pyval \<Rightarrow> (string \<times> 'w action) list \<Rightarrow> (queue_lease \<times> 'w) runner" where
  "lease_runner rw worker secs actions =
     \<lparr>rn_store = hs_ops \<lparr>ls_host = qc_host (rw_queue rw), ls_activity = rw_activity rw, ls_worker_id = worker,
                         ls_lease_seconds = secs\<rparr>,
      rn_actions = map (\<lambda>(a, act). (a, on_world act)) actions, rn_sink = None\<rparr>"

definition run_leased ::
  "'w readonly_worker \<Rightarrow> string \<Rightarrow> pyval \<Rightarrow> (string \<times> 'w action) list \<Rightarrow> queue_lease \<Rightarrow> ('w, run_outcome) eff" where
  "run_leased rw worker secs actions l w =
     (case run (lease_runner rw worker secs actions) (ql_spec l) [] (l, w) of (r, (_, w')) \<Rightarrow> (r, w'))"

definition blocked_result :: "queue_lease \<Rightarrow> string \<Rightarrow> readonly_result" where
  "blocked_result l reason =
     \<lparr>rr_claimed = True, rr_task_id = Some (ql_task_id l), rr_execution_enabled = True, rr_outcome = None,
      rr_blocked_reason = PStr reason\<rparr>"

definition run_claimed ::
  "'w readonly_worker \<Rightarrow> (queue_lease \<Rightarrow> string option) \<Rightarrow> (queue_lease \<Rightarrow> ('w, run_outcome) eff) \<Rightarrow>
     string \<Rightarrow> pyval \<Rightarrow> queue_lease \<Rightarrow> ('w, readonly_result) eff" where
  "run_claimed rw scope_failure run_lease worker secs l =
     bindE (activity_append (rw_activity rw) (ql_task_id l) (PStr ''readonly_worker_claimed'') PNone
              (PDict [(''worker_id'', PStr worker), (''revision'', PInt (ql_revision l)),
                      (''lease_generation'', PInt (ql_lease_generation l))])) (\<lambda>_.
     case scope_failure l of
       Some reason \<Rightarrow> bindE (release_blocked rw l worker secs reason) (\<lambda>_. retE (blocked_result l reason))
     | None \<Rightarrow>
         bindE (liftE (readonly_preflight (rw_registry rw) (ql_spec l))) (\<lambda>(missing, non_read).
         if missing \<noteq> [] then
           (let reason = ''preflight_missing_actions:'' @ join '','' missing in
            bindE (release_blocked rw l worker secs reason) (\<lambda>_. retE (blocked_result l reason)))
         else if non_read \<noteq> [] then
           (let reason = ''readonly_worker_forbidden_actions:'' @ join '','' non_read in
            bindE (release_blocked rw l worker secs reason) (\<lambda>_. retE (blocked_result l reason)))
         else
           bindE (run_lease l) (\<lambda>out.
           retE \<lparr>rr_claimed = True, rr_task_id = Some (ql_task_id l), rr_execution_enabled = True,
                 rr_outcome = Some out, rr_blocked_reason = ro_blocked_reason out\<rparr>)))"

text \<open>
  \<open>run_next\<close>; the class is built for extension, so the hook \<open>_scope_failure\<close> and the run of the leased
  task, which uses the hook \<open>_guarded_actions\<close>, are arguments of \<open>run_next_with\<close>.
\<close>

definition run_next_with ::
  "'w readonly_worker \<Rightarrow> (queue_lease \<Rightarrow> string option) \<Rightarrow> (queue_lease \<Rightarrow> ('w, run_outcome) eff) \<Rightarrow>
     string \<Rightarrow> pyval \<Rightarrow> ('w, readonly_result) eff" where
  "run_next_with rw scope_failure run_lease worker secs =
     (if rw_execution_authorized rw \<noteq> PBool True
      then raiseE (Exc HostedExecutionNotAuthorized ''hosted_readonly_execution_not_authorized'')
      else
        bindE (client_claim (rw_queue rw) worker secs) (\<lambda>claimed.
          case claimed of
            None \<Rightarrow> retE \<lparr>rr_claimed = False, rr_task_id = None, rr_execution_enabled = True, rr_outcome = None,
                          rr_blocked_reason = PStr ''queue_empty''\<rparr>
          | Some l \<Rightarrow> run_claimed rw scope_failure run_lease worker secs l))"

definition scope_failure :: "queue_lease \<Rightarrow> string option" where
  "scope_failure l = None"

definition run_next :: "'w readonly_worker \<Rightarrow> string \<Rightarrow> pyval \<Rightarrow> ('w, readonly_result) eff" where
  "run_next rw worker secs =
     run_next_with rw scope_failure (run_leased rw worker secs (guarded_actions (rw_registry rw))) worker secs"

end
