(* ===== verification/Queue_Safety.thy ===== *)
theory Queue_Safety
  imports Hosted_Queue
begin

text \<open>
  What the hosted queue client guarantees of a lease it returns and of a request it sends:
  the contract \<open>lease_ok\<close> of a lease, the effect of a claim, a save and a reconciliation, and
  that no request of the hosted clients carries a forbidden key.
\<close>

section \<open>Forbidden keys and the task model\<close>

lemma state_keys_allowed:
  "\<not> forbidden_key ''status''" "\<not> forbidden_key ''completed_steps''" "\<not> forbidden_key ''attempts''"
  "\<not> forbidden_key ''blocked_reason''" "\<not> forbidden_key ''last_error''" "\<not> forbidden_key ''artifacts''"
  "\<not> forbidden_key ''reconciliations''" "\<not> forbidden_key ''updated_at''"
  "\<not> forbidden_key ''schema_version''" "\<not> forbidden_key ''spec_fingerprint''"
  by code_simp+

lemma artifact_keys_allowed:
  "\<not> forbidden_key ''artifact_id''" "\<not> forbidden_key ''kind''" "\<not> forbidden_key ''locator''"
  "\<not> forbidden_key ''created''" "\<not> forbidden_key ''verified''" "\<not> forbidden_key ''persistent_saved''"
  "\<not> forbidden_key ''device_saved''" "\<not> forbidden_key ''ui_loaded''" "\<not> forbidden_key ''metadata''"
  by code_simp+

lemma request_keys_allowed:
  "\<not> forbidden_key ''expected_revision''" "\<not> forbidden_key ''worker_id''"
  "\<not> forbidden_key ''lease_generation''" "\<not> forbidden_key ''state''" "\<not> forbidden_key ''lease_seconds''"
  "\<not> forbidden_key ''spec''" "\<not> forbidden_key ''message''" "\<not> forbidden_key ''data''"
  "\<not> forbidden_key ''revision''" "\<not> forbidden_key ''reason''"
  by code_simp+

lemmas keys_allowed = fixed_keys_allowed state_keys_allowed artifact_keys_allowed request_keys_allowed

lemma clean_or: "clean_val v \<Longrightarrow> clean_val d \<Longrightarrow> clean_val (py_or v d)"
  by (simp add: py_or_def)

lemma clean_get_or: "clean_val (PDict d) \<Longrightarrow> clean_val x \<Longrightarrow> clean_val (dict_get_or d k x)"
  by (auto simp: dict_get_or_def clean_val.simps(1) list_all_iff split: option.splits dest!: map_of_SomeD)

lemma clean_iter: "py_iter v = Inr xs \<Longrightarrow> clean_val v \<Longrightarrow> clean_val (PList xs)"
  by (cases v) (auto simp: list_all_iff)

lemma clean_dict: "py_dict v = Inr d \<Longrightarrow> clean_val v \<Longrightarrow> clean_val (PDict d)"
  by (cases v) (auto simp: list_all_iff split: if_splits)

lemma clean_artifact:
  assumes "ArtifactState_kwargs v = Inr a" and "clean_val v"
  shows "clean_val (PDict (ArtifactState_to_dict a))"
  using assms
  by (cases v) (auto simp: ArtifactState_kwargs_def ArtifactState_to_dict_def keys_allowed
      clean_get clean_get_or split: if_splits)

lemma clean_artifacts:
  assumes "mapR (\<lambda>(k, v). bindR (ArtifactState_kwargs v) (\<lambda>a. Inr (k, a))) d = Inr arts"
    and "clean_val (PDict d)"
  shows "clean_val (PDict (map (\<lambda>(k, a). (k, PDict (ArtifactState_to_dict a))) arts))"
  using assms
proof (induction d arbitrary: arts)
  case Nil
  then show ?case by simp
next
  case (Cons p d)
  then show ?case
    by (cases p) (auto simp: bindR_eq_Inr intro: clean_artifact)
qed

lemma clean_attempts:
  assumes "mapR (\<lambda>(k, v). bindR (py_int v) (\<lambda>n. Inr (k, n))) d = Inr att" and "clean_val (PDict d)"
  shows "clean_val (PDict (map (\<lambda>(k, n). (k, PInt n)) att))"
  using assms by (induction d arbitrary: att) (auto simp: bindR_eq_Inr)

lemma clean_state_model:
  assumes "TaskState_from_dict now p = Inr st" and p: "clean_val (PDict p)"
  shows "clean_val (PDict (TaskState_to_dict st))"
proof -
  note get = clean_or [OF clean_get [OF p]]
  obtain arts tid comp att recs where
    arts: "bindR (py_dict (py_or (dict_get p ''artifacts'') (PDict [])))
      (mapR (\<lambda>(k, v). bindR (ArtifactState_kwargs v) (\<lambda>a. Inr (k, a)))) = Inr arts"
    and comp: "py_iter (py_or (dict_get p ''completed_steps'') (PList [])) = Inr comp"
    and att: "bindR (py_dict (py_or (dict_get p ''attempts'') (PDict [])))
      (mapR (\<lambda>(k, v). bindR (py_int v) (\<lambda>n. Inr (k, n)))) = Inr att"
    and recs: "py_iter (py_or (dict_get p ''reconciliations'') (PList [])) = Inr recs"
    and st: "st_completed_steps st = comp" "st_attempts st = att" "st_artifacts st = arts"
      "st_reconciliations st = recs" "st_status st = dict_get_or p ''status'' (PStr ''pending'')"
      "st_blocked_reason st = dict_get p ''blocked_reason''" "st_last_error st = dict_get p ''last_error''"
      "st_spec_fingerprint st = dict_get p ''spec_fingerprint''"
    using assms(1) unfolding TaskState_from_dict_def
    by (auto simp: bindR_eq_Inr split: if_splits)
  have "clean_val (PDict (map (\<lambda>(k, a). (k, PDict (ArtifactState_to_dict a))) arts))"
    using arts get [of "PDict []" "''artifacts''"] by (auto simp: bindR_eq_Inr intro: clean_artifacts clean_dict)
  moreover have "clean_val (PDict (map (\<lambda>(k, n). (k, PInt n)) att))"
    using att get [of "PDict []" "''attempts''"] by (auto simp: bindR_eq_Inr intro: clean_attempts clean_dict)
  moreover have "clean_val (PList comp)" "clean_val (PList recs)"
    using clean_iter [OF comp get] clean_iter [OF recs get] by simp_all
  ultimately show ?thesis
    using clean_get [OF p] clean_get_or [OF p]
    by (simp add: TaskState_to_dict_def st keys_allowed)
qed

section \<open>Leases\<close>

text \<open>
  The contract of a lease: its specification is valid, its state belongs to that specification
  and to the row's status, its counters are in range, and it is fenced exactly while it runs.
\<close>

definition lease_ok :: "queue_lease \<Rightarrow> bool" where
  "lease_ok l \<longleftrightarrow>
     TaskSpec_validate (ql_spec l) = Inr () \<and> sp_task_id (ql_spec l) = ql_task_id l \<and>
     st_task_id (ql_state l) = ql_task_id l \<and> ql_task_id l \<noteq> [] \<and>
     st_spec_fingerprint (ql_state l) = PStr (fingerprint (ql_spec l)) \<and>
     st_schema_version (ql_state l) = STATE_SCHEMA_VERSION \<and>
     ql_status l \<in> set ROW_STATUSES \<and>
     st_status (ql_state l) = PStr (if ql_status l = ''queued'' then ''pending'' else ql_status l) \<and>
     clean_val (PDict (TaskState_to_dict (ql_state l))) \<and>
     0 \<le> ql_revision l \<and> 0 \<le> ql_lease_generation l \<and>
     0 \<le> ql_attempt_count l \<and> ql_attempt_count l \<le> ql_max_attempts l \<and> 1 \<le> ql_max_attempts l \<and>
     (if ql_status l = ''running''
      then 1 \<le> ql_lease_generation l \<and> ql_lease_expires_at l \<noteq> None \<and>
           (\<exists>owner. ql_lease_owner l = Some owner \<and> valid_worker_id owner)
      else ql_lease_owner l = None \<and> ql_lease_expires_at l = None)"

text \<open>The specification of a lease is, as a JSON value, the one that was asked for.\<close>

definition same_spec :: "task_spec \<Rightarrow> task_spec \<Rightarrow> bool" where
  "same_spec a b \<longleftrightarrow> py_eq (PDict (TaskSpec_to_dict a)) (PDict (TaskSpec_to_dict b))"

lemma same_spec_task_id: "same_spec a b \<Longrightarrow> sp_task_id a = sp_task_id b"
  by (simp add: same_spec_def TaskSpec_to_dict_def)

lemma int_arg_Inr [simp]: "int_arg v ok e = Inr n \<longleftrightarrow> v = PInt n \<and> ok n"
  by (cases v) (auto simp: int_arg_def)

lemma nonempty_text_Inr [simp]: "nonempty_text v e = Inr s \<longleftrightarrow> v = PStr s \<and> s \<noteq> []"
  by (cases v) (auto simp: nonempty_text_def)

lemma in_str_set_Inr_True [simp]: "in_str_set v xs = Inr True \<longleftrightarrow> (\<exists>s. v = PStr s \<and> s \<in> set xs)"
  by (cases v) auto

lemma row_models_Inr:
  "row_models now err a b = Inr (spec, st) \<Longrightarrow>
     TaskSpec_from_dict a = Inr spec \<and> TaskState_from_dict now b = Inr st"
  by (auto simp: row_models_def bindR_eq_Inr split: sum.splits if_splits)

lemma row_fence_Inr:
  "row_fence status g owner expires = Inr (o', x') \<Longrightarrow>
     (if status = ''running''
      then 1 \<le> g \<and> x' \<noteq> None \<and> (\<exists>w. o' = Some w \<and> valid_worker_id w)
      else o' = None \<and> x' = None)"
  by (auto simp: row_fence_def split: if_splits pyval.splits)

lemma both_dicts_Inr [simp]: "both_dicts a b e = Inr p \<longleftrightarrow> a = PDict (fst p) \<and> b = PDict (snd p)"
  by (cases a; cases b) (auto simp: both_dicts_def)

lemma row_screen_Inr [simp]:
  "row_screen raw_spec raw_state = Inr u \<longleftrightarrow> clean_val (PDict raw_spec) \<and> clean_val (PDict raw_state)"
  unfolding row_screen_def
  using forbidden_secret_path_None(1) [of "PDict [(''spec'', PDict raw_spec), (''state'', PDict raw_state)]" "''$''"]
  by (cases "forbidden_secret_path (PDict [(''spec'', PDict raw_spec), (''state'', PDict raw_state)]) ''$''")
    (simp_all add: keys_allowed del: forbidden_secret_path.simps)

lemma in_str_set_Inr: "in_str_set v xs = Inr b \<Longrightarrow> b \<Longrightarrow> \<exists>s. v = PStr s \<and> s \<in> set xs"
  by (cases v) auto

text \<open>The checks of a row, all passed.\<close>

lemma parse_identity_Inr:
  assumes "parse_identity now expected d = Inr (tid, status, spec, st)"
  obtains raw_spec raw_state where "tid \<noteq> []" and "status \<in> set ROW_STATUSES"
    and "dict_get d ''state'' = PDict raw_state" and "clean_val (PDict raw_state)"
    and "TaskSpec_from_dict raw_spec = Inr spec" and "TaskState_from_dict now raw_state = Inr st"
    and "sp_task_id spec = tid" and "st_task_id st = tid"
    and "\<forall>x. expected = Some x \<longrightarrow> same_spec spec x"
    and "st_spec_fingerprint st = PStr (fingerprint spec)"
    and "st_status st = PStr (if status = ''queued'' then ''pending'' else status)"
proof -
  obtain raw_spec raw_state where row: "dict_get d ''task_id'' = PStr tid" "tid \<noteq> []"
      "in_str_set (dict_get d ''status'') ROW_STATUSES = Inr True" "status = py_str (dict_get d ''status'')"
      "dict_get d ''state'' = PDict raw_state"
      "row_models now (Exc HostedQueueIntegrityError ''invalid_queue_model'') raw_spec raw_state = Inr (spec, st)"
      "clean_val (PDict raw_state)" "\<not> (sp_task_id spec \<noteq> tid \<or> st_task_id st \<noteq> tid)"
      "\<not> (case expected of None \<Rightarrow> False
            | Some x \<Rightarrow> \<not> py_eq (PDict (TaskSpec_to_dict spec)) (PDict (TaskSpec_to_dict x)))"
      "st_spec_fingerprint st = PStr (fingerprint spec)"
      "st_status st = PStr (if status = ''queued'' then ''pending'' else status)"
    using assms unfolding parse_identity_def
    by (auto simp: bindR_eq_Inr Let_def simp del: in_str_set.simps in_str_set_Inr_True split: if_split_asm)
  then show thesis
    using that row_models_Inr [OF row(6)]
    by (auto simp: same_spec_def split: option.splits simp del: py_eq.simps)
qed

lemma parse_lease_Inr:
  assumes "parse_lease now expected v = Inr l"
  obtains d where "v = PDict d"
    and "parse_identity now expected d = Inr (ql_task_id l, ql_status l, ql_spec l, ql_state l)"
    and "0 \<le> ql_revision l" "0 \<le> ql_attempt_count l" "1 \<le> ql_max_attempts l" "0 \<le> ql_lease_generation l"
      "ql_attempt_count l \<le> ql_max_attempts l"
    and "row_fence (ql_status l) (ql_lease_generation l) (dict_get d ''lease_owner'')
           (dict_get d ''lease_expires_at'') = Inr (ql_lease_owner l, ql_lease_expires_at l)"
proof (cases v)
  case (PDict d)
  with assms that show thesis
    by (auto simp: parse_lease_def queue_parse_int_def bindR_eq_Inr split: if_split_asm)
qed (use assms in \<open>simp_all add: parse_lease_def\<close>)

lemma parse_lease_ok:
  assumes "parse_lease now expected v = Inr l"
  shows "lease_ok l \<and> (\<forall>spec. expected = Some spec \<longrightarrow> same_spec (ql_spec l) spec)"
proof -
  from assms obtain d where
    ident: "parse_identity now expected d = Inr (ql_task_id l, ql_status l, ql_spec l, ql_state l)"
    and counters: "0 \<le> ql_revision l" "0 \<le> ql_attempt_count l" "1 \<le> ql_max_attempts l" "0 \<le> ql_lease_generation l"
      "ql_attempt_count l \<le> ql_max_attempts l"
    and fence: "row_fence (ql_status l) (ql_lease_generation l) (dict_get d ''lease_owner'')
           (dict_get d ''lease_expires_at'') = Inr (ql_lease_owner l, ql_lease_expires_at l)"
    by (rule parse_lease_Inr) blast
  from ident show ?thesis
    by (rule parse_identity_Inr)
      (use counters row_fence_Inr [OF fence] in \<open>auto simp: lease_ok_def
        dest: TaskSpec_from_dict_valid TaskState_from_dict_schema clean_state_model\<close>)
qed

section \<open>Operations\<close>

lemma detached_spec_Inr [simp]: "detached_spec spec = Inr s \<longleftrightarrow> TaskSpec_validate spec = Inr () \<and> s = spec"
  by (auto simp: detached_spec_def TaskSpec_roundtrip bindR_eq_Inr)

lemma at_clock_apply: "at_clock h f w = (f (qh_clock h w), w)"
  by (simp add: at_clock_def)

lemma queue_request_Inr:
  assumes "queue_request h mode payload w = (Inr r, w')"
  shows "qh_transport h mode payload w = (Inr (PDict r), w') \<and> dict_get r ''success'' = PBool True"
proof -
  obtain v w1 where v: "qh_transport h mode payload w = (Inr v, w1)"
    using assms by (auto simp: queue_request_def bindE_eq_Inr)
  with assms show ?thesis
    by (cases v) (auto simp: queue_request_def bindE_apply split: if_splits)
qed

lemma clean_state_Inr:
  assumes "clean_state now spec st = Inr st'"
  shows "TaskState_from_dict now (TaskState_to_dict st) = Inr st' \<and> st_task_id st' = sp_task_id spec \<and>
    st_spec_fingerprint st' = PStr (fingerprint spec) \<and> clean_val (PDict (TaskState_to_dict st'))"
  using assms
  by (auto simp: clean_state_def bindR_eq_Inr forbidden_secret_path_None
      simp del: forbidden_secret_path.simps split: if_splits option.splits)

text \<open>A state that was stamped by \<open>touch\<close> is sent as it is.\<close>

lemma clean_state_id:
  assumes "clean_state now spec st = Inr st'"
    and "st_schema_version st = STATE_SCHEMA_VERSION" and "st_updated_at st \<noteq> []"
  shows "st' = st"
  using clean_state_Inr [OF assms(1)] TaskState_roundtrip [OF assms(2,3)] by simp

lemma claimed_lease_Inr:
  assumes "claimed_lease now worker expected r = Inr (Some l)"
  shows "lease_ok l \<and> ql_status l = ''running'' \<and> ql_lease_owner l = Some worker \<and> 1 \<le> ql_revision l \<and>
    1 \<le> ql_attempt_count l \<and> (\<forall>spec. expected = Some spec \<longrightarrow> same_spec (ql_spec l) spec \<and> ql_task_id l = sp_task_id spec)"
  using assms parse_lease_ok [of now expected "dict_get r ''lease''" l]
  by (auto simp: claimed_lease_def bindR_eq_Inr split: if_splits option.splits)

lemma client_claim_Inr:
  assumes "client_claim c worker secs w = (Inr (Some l), w')"
  shows "\<exists>now r. claimed_lease now worker (qc_target c) r = Inr (Some l)"
  using assms
  by (auto simp: client_claim_def queue_claim_def queue_claim_task_def bindE_eq_Inr at_clock_apply
      split: option.splits if_splits)

text \<open>The request of a save, with the arguments it was validated from.\<close>

definition save_request :: "task_spec \<Rightarrow> task_state \<Rightarrow> int \<Rightarrow> string \<Rightarrow> int \<Rightarrow> int \<Rightarrow> pydict" where
  "save_request spec st revision worker generation secs =
     [(''task_id'', PStr (sp_task_id spec)), (''expected_revision'', PInt revision),
      (''worker_id'', PStr worker), (''lease_generation'', PInt generation),
      (''status'', st_status st), (''state'', PDict (TaskState_to_dict st)),
      (''lease_seconds'', PInt secs)]"

lemma queue_save_Inr:
  assumes "queue_save h spec st expected worker gen lease_seconds w = (Inr l, w')"
  obtains st' s r revision generation secs where
    "TaskSpec_validate spec = Inr ()" and "clean_state (qh_clock h w) spec st = Inr st'"
    and "st_status st' = PStr s" and "s \<in> set SAVE_STATUSES"
    and "expected = PInt revision" and "0 \<le> revision" and "valid_worker_id worker"
    and "gen = PInt generation" and "1 \<le> generation"
    and "lease_seconds = PInt secs" and "15 \<le> secs" and "secs \<le> 3600"
    and "qh_transport h ''queue_save'' (save_request spec st' revision worker generation secs) w = (Inr (PDict r), w')"
    and "dict_get r ''success'' = PBool True"
    and "parse_lease (qh_clock h w') (Some spec) (dict_get r ''lease'') = Inr l"
    and "check_saved st' revision worker generation l = Inr l"
proof -
  obtain st' known revision generation secs r l' where
    spec: "TaskSpec_validate spec = Inr ()" "clean_state (qh_clock h w) spec st = Inr st'"
    and known: "in_str_set (st_status st') SAVE_STATUSES = Inr True"
    and args: "revision_arg expected = Inr revision" "valid_worker_id worker" "generation_arg gen = Inr generation"
      "lease_seconds_arg lease_seconds = Inr secs"
    and req: "queue_request h ''queue_save'' (save_request spec st' revision worker generation secs) w = (Inr r, w')"
    and res: "parse_lease (qh_clock h w') (Some spec) (dict_get r ''lease'') = Inr l'"
      "check_saved st' revision worker generation l' = Inr l"
    using assms unfolding queue_save_def save_request_def [symmetric]
    by (auto simp: bindE_eq_Inr at_clock_apply split: if_splits simp del: in_str_set.simps)
  have "l' = l" using res(2) by (auto simp: check_saved_def split: if_splits)
  with that spec known args queue_request_Inr [OF req] res show thesis
    by (auto simp: revision_arg_def generation_arg_def lease_seconds_arg_def)
qed

lemma check_saved_Inr:
  assumes "check_saved st revision worker generation l = Inr l'" and "st_status st = PStr s"
  shows "l' = l \<and> ql_revision l = revision + 1 \<and> ql_lease_generation l = generation \<and>
    (if s = ''running'' then ql_lease_owner l = Some worker \<and> fenced l
     else ql_lease_owner l = None \<and> ql_lease_expires_at l = None)"
  using assms by (auto simp: check_saved_def split: if_splits)

section \<open>No forbidden key leaves\<close>

definition screened_host :: "'w queue_host \<Rightarrow> 'w queue_host" where
  "screened_host h = h\<lparr>qh_transport := screened (qh_transport h)\<rparr>"

lemma screened_request:
  "clean_val (PDict payload) \<Longrightarrow> queue_request (screened_host h) mode payload = queue_request h mode payload"
  by (simp add: queue_request_def screened_host_def)

lemma screened_clock [simp]: "at_clock (screened_host h) = at_clock h"
  by (simp add: at_clock_def screened_host_def fun_eq_iff)

lemma queue_inspect_screened: "queue_inspect (screened_host h) spec = queue_inspect h spec"
  by (simp add: queue_inspect_def screened_request keys_allowed)

lemma queue_claim_screened: "queue_claim (screened_host h) worker secs = queue_claim h worker secs"
  by (simp add: queue_claim_def screened_request keys_allowed)

lemma queue_claim_task_screened:
  "queue_claim_task (screened_host h) spec worker secs = queue_claim_task h spec worker secs"
  by (simp add: queue_claim_task_def screened_request keys_allowed cong: if_cong)

text \<open>A checked state is clean, and so is a request made of it.\<close>

lemma checked_state_cong:
  assumes "\<And>st w'. clean_val (PDict (TaskState_to_dict st)) \<Longrightarrow> f st w' = g st w'"
  shows "bindE (at_clock h (\<lambda>now. clean_state now spec st0)) f = bindE (at_clock h (\<lambda>now. clean_state now spec st0)) g"
proof
  fix w
  show "bindE (at_clock h (\<lambda>now. clean_state now spec st0)) f w =
        bindE (at_clock h (\<lambda>now. clean_state now spec st0)) g w"
    by (rule bindE_cong_Inr) (auto simp: at_clock_apply intro!: assms dest!: clean_state_Inr)
qed

lemma clean_status: "clean_val (PDict (TaskState_to_dict st)) \<Longrightarrow> clean_val (st_status st)"
  by (simp add: TaskState_to_dict_def)

lemma queue_save_screened:
  "queue_save (screened_host h) spec st revn worker gen secs = queue_save h spec st revn worker gen secs"
  unfolding queue_save_def screened_clock
  by (rule arg_cong2 [where f = bindE, OF refl] ext checked_state_cong)+
    (simp add: screened_request keys_allowed clean_status cong: if_cong)

lemma queue_reconcile_screened:
  "queue_reconcile_expired (screened_host h) spec st revn gen = queue_reconcile_expired h spec st revn gen"
  unfolding queue_reconcile_expired_def screened_clock
  by (rule arg_cong2 [where f = bindE, OF refl] ext checked_state_cong)+
    (simp add: screened_request keys_allowed cong: if_cong)

end
