(* ===== verification/Worker_Safety.thy ===== *)
theory Worker_Safety
  imports Hosted_Worker Queue_Safety Runner_Guard
begin

text \<open>
  The hosted workers on a queue: which implementations they may call, and that a run on a lease
  keeps the contract of a runner's store. A lease store meets \<open>task_store\<close> on a backend that
  answers a save with the row it stored (\<open>queue_backend_ok\<close>), so the facts about runs on any store
  hold for runs on a lease.
\<close>

section \<open>Implementations that are not called\<close>

text \<open>A registry whose implementations end the process where a condition on the action holds.\<close>

definition disarm :: "(string \<Rightarrow> bool) \<Rightarrow> 'w registry \<Rightarrow> 'w registry" where
  "disarm P reg = reg\<lparr>rg_actions := map (\<lambda>(a, impl). (a, if P a
      then (\<lambda>args ctx. raiseE (Exc SystemExit ''action_called'')) else impl)) (rg_actions reg)\<rparr>"

lemma disarm_names [simp]: "map fst (rg_actions (disarm P reg)) = map fst (rg_actions reg)"
  by (simp add: disarm_def comp_def split_def)

lemma disarm_simps [simp]:
  "registry_capability (disarm P reg) = registry_capability reg"
  "registered (disarm P reg) = registered reg"
  "access_in (disarm P reg) = access_in reg"
proof -
  show cap: "registry_capability (disarm P reg) = registry_capability reg"
    by (simp add: disarm_def registry_capability_def fun_eq_iff)
  show "registered (disarm P reg) = registered reg"
    unfolding registered_def disarm_names ..
  show "access_in (disarm P reg) = access_in reg"
    unfolding access_in_def cap ..
qed

lemma worker_preflight_disarm [simp]: "worker_preflight (disarm P reg) = worker_preflight reg"
  by (simp add: worker_preflight_def fun_eq_iff)

lemma readonly_preflight_disarm [simp]: "readonly_preflight (disarm P reg) = readonly_preflight reg"
  by (simp add: readonly_preflight_def fun_eq_iff)

lemma inspect_lease_disarm:
  "inspect_lease (co\<lparr>co_registry := disarm P (co_registry co)\<rparr>) = inspect_lease co"
  by (intro ext) (simp add: inspect_lease_def cong: if_cong)

lemma inspect_next_disarm:
  "inspect_next (co\<lparr>co_registry := disarm P (co_registry co)\<rparr>) = inspect_next co"
  by (intro ext) (simp add: inspect_next_def inspect_lease_disarm cong: option.case_cong)

definition not_read :: "'w registry \<Rightarrow> string \<Rightarrow> bool" where
  "not_read reg a \<longleftrightarrow> \<not> (\<exists>c. registry_capability reg a = Some c \<and> cap_access c = ''read'')"

lemma guarded_actions_disarm:
  "guarded_actions (disarm (not_read reg) reg) = guarded_actions reg"
  unfolding guarded_actions_def disarm_simps
proof -
  have "map (\<lambda>(a, impl). (a, guarded_action impl))
      (filter (\<lambda>(a, impl). case registry_capability reg a of None \<Rightarrow> False | Some c \<Rightarrow> cap_access c = ''read'')
        (map (\<lambda>(a, impl). (a, if not_read reg a then X else impl)) xs)) =
     map (\<lambda>(a, impl). (a, guarded_action impl))
      (filter (\<lambda>(a, impl). case registry_capability reg a of None \<Rightarrow> False | Some c \<Rightarrow> cap_access c = ''read'') xs)"
    for xs and X :: "'a action"
    by (induction xs) (auto simp: not_read_def split: option.splits)
  then show "map (\<lambda>(a, impl). (a, guarded_action impl))
      (filter (\<lambda>(a, impl). case registry_capability reg a of None \<Rightarrow> False | Some c \<Rightarrow> cap_access c = ''read'')
        (rg_actions (disarm (not_read reg) reg))) =
     map (\<lambda>(a, impl). (a, guarded_action impl))
      (filter (\<lambda>(a, impl). case registry_capability reg a of None \<Rightarrow> False | Some c \<Rightarrow> cap_access c = ''read'')
        (rg_actions reg))"
    by (simp add: disarm_def)
qed

lemma release_blocked_registry [simp]: "release_blocked (rw\<lparr>rw_registry := r\<rparr>) = release_blocked rw"
  by (intro ext) (simp add: release_blocked_def cong: if_cong)

lemma run_leased_registry [simp]: "run_leased (rw\<lparr>rw_registry := r\<rparr>) = run_leased rw"
  by (intro ext) (simp add: run_leased_def lease_runner_def)

lemma run_claimed_disarm:
  "run_claimed (rw\<lparr>rw_registry := disarm P (rw_registry rw)\<rparr>) = run_claimed rw"
  by (intro ext) (simp add: run_claimed_def cong: if_cong option.case_cong)

lemma run_next_disarm:
  "run_next (rw\<lparr>rw_registry := disarm (not_read (rw_registry rw)) (rw_registry rw)\<rparr>) = run_next rw"
  by (intro ext) (simp add: run_next_def run_next_with_def guarded_actions_disarm run_claimed_disarm
      cong: if_cong option.case_cong)

section \<open>Read-only results\<close>

lemma check_read_only_Inr:
  "check_read_only raws = Inr () \<longleftrightarrow>
     list_all (\<lambda>raw. \<exists>flags. write_flags raw = Inr flags \<and> PBool True \<notin> set flags) raws"
  by (induction raws) (auto simp: bindR_eq_Inr)

lemma assert_read_only_Inr:
  "assert_read_only_result v = Inr v' \<longleftrightarrow> v' = v \<and> check_read_only (artifact_updates_of v) = Inr ()"
  by (auto simp: assert_read_only_result_def bindR_eq_Inr)

section \<open>A lease is a store\<close>

text \<open>
  What the queue backend does, as its schema documents it: the answer to a successful save
  carries the row that was stored, and its state is the state that was sent. The clock prints a
  text.
\<close>

definition queue_backend_ok :: "'w queue_host \<Rightarrow> bool" where
  "queue_backend_ok h \<longleftrightarrow>
     (\<forall>w. qh_clock h w \<noteq> []) \<and>
     (\<forall>payload w r w'. qh_transport h ''queue_save'' payload w = (Inr (PDict r), w') \<longrightarrow>
        dict_get r ''success'' = PBool True \<longrightarrow>
        (\<exists>row. dict_get r ''lease'' = PDict row \<and> dict_get row ''state'' = dict_get payload ''state''))"

text \<open>
  A run keeps the generation \<open>g\<close> of its lease. The durable state is that of the last row the
  backend acknowledged.
\<close>

definition hs_inv :: "int \<Rightarrow> queue_lease \<times> 'w \<Rightarrow> bool" where
  "hs_inv g lw \<longleftrightarrow> lease_ok (fst lw) \<and> ql_lease_generation (fst lw) = g \<and> st_updated_at (ql_state (fst lw)) \<noteq> []"

definition hs_durable :: "int \<Rightarrow> queue_lease \<times> 'w \<Rightarrow> string \<Rightarrow> task_state option" where
  "hs_durable g lw tid =
     (if lease_ok (fst lw) \<and> ql_lease_generation (fst lw) = g \<and> ql_task_id (fst lw) = tid
      then Some (ql_state (fst lw)) else None)"

lemma parse_lease_state:
  assumes "parse_lease now expected (PDict d) = Inr l"
  shows "\<exists>raw. dict_get d ''state'' = PDict raw \<and> TaskState_from_dict now raw = Inr (ql_state l)"
  using assms by (rule parse_lease_Inr) (auto elim: parse_identity_Inr)

lemma save_request_state: "dict_get (save_request spec st r w g s) ''state'' = PDict (TaskState_to_dict st)"
  by (simp add: save_request_def)

text \<open>A save that returns: the backend's row holds the stamped state, one revision later.\<close>

lemma hs_save_Inr:
  assumes ok: "queue_backend_ok (ls_host ls)" and sch: "st_schema_version st = STATE_SCHEMA_VERSION"
    and eq: "hs_save ls st (l, w) = (Inr now, (l', w'))"
  shows "lease_ok l' \<and> ql_lease_generation l' = ql_lease_generation l \<and> ql_task_id l' = ql_task_id l \<and>
    ql_state l' = touch now st \<and> ql_revision l' = ql_revision l + 1 \<and> st_task_id st = ql_task_id l \<and> now \<noteq> []"
proof -
  let ?h = "ls_host ls"
  have tid: "st_task_id st = ql_task_id l" and now: "now = qh_clock ?h w"
    and save: "queue_save ?h (ql_spec l) (touch now st) (PInt (ql_revision l)) (ls_worker_id ls)
      (PInt (ql_lease_generation l)) (ls_lease_seconds ls) w = (Inr l', w')"
    using eq by (auto simp: hs_save_def Let_def split: if_splits prod.splits sum.splits)
  have clock: "qh_clock ?h v \<noteq> []" for v using ok by (simp add: queue_backend_ok_def)
  from save show ?thesis
  proof (rule queue_save_Inr)
    fix st' s r revision generation secs
    assume st': "clean_state (qh_clock ?h w) (ql_spec l) (touch now st) = Inr st'"
      and s: "st_status st' = PStr s"
      and rev: "PInt (ql_revision l) = PInt revision" and gen: "PInt (ql_lease_generation l) = PInt generation"
      and tr: "qh_transport ?h ''queue_save'' (save_request (ql_spec l) st' revision (ls_worker_id ls) generation secs) w =
        (Inr (PDict r), w')"
      and succ: "dict_get r ''success'' = PBool True"
      and parse: "parse_lease (qh_clock ?h w') (Some (ql_spec l)) (dict_get r ''lease'') = Inr l'"
      and check: "check_saved st' revision (ls_worker_id ls) generation l' = Inr l'"
    have eq': "st' = touch now st"
      using clean_state_id [OF st'] sch clock now by (simp add: touch_def)
    from ok tr succ obtain row where row: "dict_get r ''lease'' = PDict row"
      "dict_get row ''state'' = PDict (TaskState_to_dict st')"
      unfolding queue_backend_ok_def by (metis save_request_state)
    have "ql_state l' = st'"
      using parse_lease_state [OF parse [unfolded row(1)]] row(2) TaskState_roundtrip [of st']
        sch clock now by (auto simp: eq' touch_def)
    moreover have "lease_ok l'" using parse_lease_ok [OF parse] by simp
    ultimately show ?thesis
      using check_saved_Inr [OF check s] rev gen tid now clock eq'
      by (auto simp: lease_ok_def touch_def)
  qed
qed

lemma hs_event_Inr:
  "hs_append_event ls tid sid ty msg data lw = (Inr u, lw') \<Longrightarrow> fst lw' = fst lw"
  by (auto simp: hs_append_event_def split: if_splits prod.splits sum.splits)

lemma hs_save_schema:
  assumes "hs_save ls st (l, w) = (Inr now, lw')"
  shows "st_schema_version st = STATE_SCHEMA_VERSION"
proof -
  obtain l' w' where "queue_save (ls_host ls) (ql_spec l) (touch now st) (PInt (ql_revision l)) (ls_worker_id ls)
      (PInt (ql_lease_generation l)) (ls_lease_seconds ls) w = (Inr l', w')"
    using assms by (auto simp: hs_save_def Let_def split: if_splits prod.splits sum.splits)
  then show ?thesis
    by (rule queue_save_Inr)
      (auto dest!: clean_state_Inr simp: TaskState_from_dict_def TaskState_to_dict_def touch_def split: if_splits)
qed

lemma lease_task_store:
  assumes ok: "queue_backend_ok (ls_host ls)"
  shows "task_store (hs_ops ls) (hs_inv g) (hs_durable g)"
proof
  fix w :: "queue_lease \<times> 'a" and tid st
  assume inv: "hs_inv g w" and d: "hs_durable g w tid = Some st"
  then have "ql_task_id (fst w) = tid" "ql_state (fst w) = st" by (auto simp: hs_durable_def split: if_splits)
  with inv show "so_load (hs_ops ls) tid w = Inr st" "so_exists (hs_ops ls) tid w = Inr True"
    using TaskState_roundtrip [of st] by (auto simp: hs_ops_def hs_load_def hs_exists_def hs_inv_def lease_ok_def)
next
  fix w :: "queue_lease \<times> 'a" and st now w'
  assume inv: "hs_inv g w" and save: "so_save (hs_ops ls) st w = (Inr now, w')"
  obtain l v l' v' where w: "w = (l, v)" "w' = (l', v')" by (cases w; cases w')
  have eq: "hs_save ls st (l, v) = (Inr now, (l', v'))" using save w by (simp add: hs_ops_def)
  note saved = hs_save_Inr [OF ok hs_save_schema [OF eq] eq]
  from saved inv show "hs_inv g w'" by (auto simp: hs_inv_def w touch_def)
  show "hs_durable g w' (st_task_id st) = Some (touch now st)"
    using saved inv by (simp add: hs_durable_def w hs_inv_def)
qed (auto simp: hs_ops_def hs_exists_def hs_load_def hs_lock_def hs_inv_def hs_durable_def fun_eq_iff
      dest: TaskState_from_dict_schema hs_event_Inr split: if_splits)

lemma on_world_keeps: "fst (snd (on_world act args ctx lw)) = fst lw"
  by (simp add: on_world_def split: prod.splits)

lemma lease_runner_keeps: "runner_keeps (hs_inv g) (lease_runner rw worker secs actions)"
proof -
  have "hs_inv g (snd (on_world act args ctx lw)) = hs_inv g lw" for act :: "'a action" and args ctx lw
    by (simp add: hs_inv_def on_world_keeps)
  then show ?thesis
    by (auto simp: runner_keeps_def lease_runner_def map_of_map dest!: map_of_SomeD)
qed

section \<open>Inspection\<close>

lemma worker_preflight_Inr:
  assumes "worker_preflight reg allowed spec = Inr (missing, forbidden)"
  shows "set missing = {a \<in> set (used_actions spec). \<not> registered reg a} \<and>
    set forbidden = {a \<in> set (used_actions spec). registered reg a \<and> \<not> access_in reg allowed a}"
  using assms by (auto simp: worker_preflight_def bindR_eq_Inr Let_def)

text \<open>
  What an inspection that returns has done with the lease it claimed: it saved a blocked state
  and the backend acknowledged a blocked row without an owner.
\<close>

definition released_blocked ::
  "'w queue_host \<Rightarrow> string \<Rightarrow> pyval \<Rightarrow> queue_lease \<Rightarrow> queue_lease \<Rightarrow> bool" where
  "released_blocked h worker secs l released \<longleftrightarrow>
     (\<exists>st w w'. queue_save h (ql_spec l) st (PInt (ql_revision l)) worker (PInt (ql_lease_generation l)) secs w =
        (Inr released, w') \<and> st_status st = PStr ''blocked'') \<and>
     lease_ok released \<and> ql_status released = ''blocked'' \<and> ql_lease_owner released = None \<and>
     ql_revision released = ql_revision l + 1 \<and> ql_lease_generation released = ql_lease_generation l"

lemma queue_save_revision:
  assumes "queue_save h spec st (PInt r) worker (PInt g) secs w = (Inr l, w')"
  shows "lease_ok l \<and> ql_revision l = r + 1 \<and> ql_lease_generation l = g"
  using assms
  by (rule queue_save_Inr) (auto dest: parse_lease_ok check_saved_Inr)

lemma released_blockedI:
  assumes "queue_save h (ql_spec l) st (PInt (ql_revision l)) worker (PInt (ql_lease_generation l)) secs w =
      (Inr released, w')"
    and "blocked_state now l reason = Inr st" and "ql_status released = ''blocked''" "ql_lease_owner released = None"
  shows "released_blocked h worker secs l released"
proof -
  have "st_status st = PStr ''blocked''" using assms(2) by (auto simp: blocked_state_def bindR_eq_Inr touch_def)
  with assms(1,3,4) queue_save_revision [OF assms(1)] show ?thesis
    unfolding released_blocked_def by blast
qed

lemma inspect_lease_Inr:
  assumes "inspect_lease co worker secs allowed l w = (Inr d, w')"
  shows "\<exists>released. released_blocked (qc_host (co_queue co)) worker secs l released \<and>
    wd_revision d = Some (ql_revision released) \<and> \<not> wd_execution_enabled d \<and> wd_task_id d = Some (ql_task_id l) \<and>
    (wd_ready d \<longleftrightarrow> (\<forall>a \<in> set (used_actions (ql_spec l)).
       registered (co_registry co) a \<and> access_in (co_registry co) allowed a))"
proof -
  obtain missing forbidden st w1 released w2 where
    pre: "worker_preflight (co_registry co) allowed (ql_spec l) = Inr (missing, forbidden)"
    and st: "blocked_state (qh_clock (qc_host (co_queue co)) w1) l (preflight_reason missing forbidden) = Inr st"
    and save: "queue_save (qc_host (co_queue co)) (ql_spec l) st (PInt (ql_revision l)) worker
      (PInt (ql_lease_generation l)) secs w1 = (Inr released, w2)"
    and rel: "ql_status released = ''blocked''" "ql_lease_owner released = None"
    and d: "wd_revision d = Some (ql_revision released)" "\<not> wd_execution_enabled d"
      "wd_task_id d = Some (ql_task_id l)" "wd_ready d \<longleftrightarrow> missing = [] \<and> forbidden = []"
    using assms by (auto simp: inspect_lease_def bindE_eq_Inr at_clock_apply Let_def split: if_split_asm)
  from worker_preflight_Inr [OF pre] have "wd_ready d \<longleftrightarrow>
      {a \<in> set (used_actions (ql_spec l)). \<not> registered (co_registry co) a} = {} \<and>
      {a \<in> set (used_actions (ql_spec l)). registered (co_registry co) a \<and> \<not> access_in (co_registry co) allowed a} = {}"
    using d(4) by (metis set_empty2)
  with released_blockedI [OF save st rel] d show ?thesis by auto
qed

end
