(* ===== verification/Hosted_Results.thy ===== *)
theory Hosted_Results
  imports Worker_Safety Runner_Results
begin

text \<open>
  Properties of the hosted clients and workers, with a small host on which their hypotheses
  hold: it answers a claim with an interrupted task, a save with the row it was sent, and an
  event with its record.
\<close>

section \<open>A host\<close>

definition demo_row :: "pyval \<Rightarrow> pyval \<Rightarrow> int \<Rightarrow> pyval" where
  "demo_row state status revision =
     PDict [(''task_id'', PStr ''t1''), (''status'', status), (''spec'', PDict (TaskSpec_to_dict demo_spec)),
       (''state'', state), (''spec_fingerprint'', PStr (fingerprint demo_spec)), (''revision'', PInt revision),
       (''attempt_count'', PInt 1), (''max_attempts'', PInt 3), (''lease_generation'', PInt 1),
       (''idempotency_key'', PStr ''t1''), (''not_before'', PStr ''now''),
       (''lease_owner'', if status = PStr ''running'' then PStr ''w1'' else PNone),
       (''lease_expires_at'', if status = PStr ''running'' then PStr ''2024-01-01T00:00:00Z'' else PNone)]"

definition demo_lease :: "task_state \<Rightarrow> string \<Rightarrow> int \<Rightarrow> queue_lease" where
  "demo_lease st status revision =
     \<lparr>ql_task_id = ''t1'', ql_status = status, ql_revision = revision, ql_idempotency_key = ''t1'',
      ql_spec = demo_spec, ql_state = st, ql_attempt_count = 1, ql_max_attempts = 3,
      ql_lease_owner = (if status = ''running'' then Some ''w1'' else None), ql_lease_generation = 1,
      ql_lease_expires_at = (if status = ''running'' then Some ''2024-01-01T00:00:00Z'' else None), ql_not_before = ''now'',
      ql_created_at = None, ql_updated_at = None\<rparr>"

definition demo_event :: "int \<Rightarrow> pydict \<Rightarrow> pyval" where
  "demo_event n p =
     PDict [(''event_id'', PInt n), (''task_id'', dict_get p ''task_id''), (''event_type'', dict_get p ''event_type''),
       (''step_id'', dict_get p ''step_id''), (''payload'', dict_get p ''payload''), (''created_at'', PStr ''now'')]"

definition demo_transport :: "'w transport" where
  "demo_transport mode p w =
     (Inr (PDict ((''success'', PBool True) #
        (if mode = ''queue_claim''
         then [(''claimed'', PBool True), (''lease'', demo_row (PDict (TaskState_to_dict demo_crashed)) (PStr ''running'') 4)]
         else if mode = ''queue_save''
         then [(''lease'', demo_row (dict_get p ''state'') (dict_get p ''status'')
                  (case dict_get p ''expected_revision'' of PInt n \<Rightarrow> n + 1 | _ \<Rightarrow> 0))]
         else if mode = ''checkpoint_get''
         then [(''checkpoint'', demo_row (PDict (TaskState_to_dict demo_crashed)) (PStr ''running'') 4)]
         else if mode = ''event_append'' then [(''event'', demo_event 7 p)]
         else if mode = ''event_list''
         then [(''events'', PList [demo_event 7 [(''task_id'', PStr ''t1''), (''event_type'', PStr ''note''),
                  (''payload'', PDict [])]])]
         else []))), w)"

definition demo_queue :: "'w queue_host" where
  "demo_queue = \<lparr>qh_transport = demo_transport, qh_clock = (\<lambda>_. ''now'')\<rparr>"

lemma demo_queue_simps [simp]: "qh_transport demo_queue = demo_transport" "qh_clock demo_queue w = ''now''"
  by (simp_all add: demo_queue_def)

lemma demo_spec_clean: "clean_val (PDict (TaskSpec_to_dict demo_spec))"
  by code_simp

lemma demo_spec_eq: "py_eq (PDict (TaskSpec_to_dict demo_spec)) (PDict (TaskSpec_to_dict demo_spec))"
  by code_simp

lemma demo_worker_id: "valid_worker_id ''w1''"
  by code_simp

lemma demo_parse:
  assumes "st_schema_version st = STATE_SCHEMA_VERSION" "st_updated_at st \<noteq> []" "st_task_id st = ''t1''"
    "st_spec_fingerprint st = PStr (fingerprint demo_spec)" "st_status st = PStr status"
    "status \<in> {''running'', ''blocked'', ''completed'', ''failed''}" "clean_val (PDict (TaskState_to_dict st))"
    "expected = None \<or> expected = Some demo_spec" "0 \<le> revision"
  shows "parse_lease now expected (demo_row (PDict (TaskState_to_dict st)) (PStr status) revision) =
    Inr (demo_lease st status revision)"
proof -
  have models: "row_models now e (TaskSpec_to_dict demo_spec) (TaskState_to_dict st) = Inr (demo_spec, st)" for e
    using assms(1,2) by (simp add: row_models_def TaskSpec_roundtrip TaskState_roundtrip)
  have screen: "row_screen (TaskSpec_to_dict demo_spec) (TaskState_to_dict st) = Inr ()"
    using assms(7) by (simp add: demo_spec_clean)
  have "parse_identity now expected
      [(''task_id'', PStr ''t1''), (''status'', PStr status), (''spec'', PDict (TaskSpec_to_dict demo_spec)),
       (''state'', PDict (TaskState_to_dict st)), (''spec_fingerprint'', PStr (fingerprint demo_spec)), (''revision'', PInt revision),
       (''attempt_count'', PInt 1), (''max_attempts'', PInt 3), (''lease_generation'', PInt 1),
       (''idempotency_key'', PStr ''t1''), (''not_before'', PStr ''now''),
       (''lease_owner'', if status = ''running'' then PStr ''w1'' else PNone),
       (''lease_expires_at'', if status = ''running'' then PStr ''2024-01-01T00:00:00Z'' else PNone)] = Inr (''t1'', status, demo_spec, st)"
    using assms(3-6,8) demo_spec_eq
    by (auto simp: parse_identity_def nonempty_text_def both_dicts_def ROW_STATUSES_def models screen
        simp del: py_eq.simps split: option.splits)
  then show ?thesis
    using assms(6,9)
    by (auto simp: parse_lease_def demo_row_def queue_parse_int_def int_arg_def nonempty_text_def row_fence_def
        demo_worker_id demo_lease_def)
qed

lemma demo_crashed_clean: "clean_val (PDict (TaskState_to_dict demo_crashed))"
  by (simp add: TaskState_to_dict_def demo_crashed_def keys_allowed) code_simp

lemma demo_claim: "queue_claim demo_queue ''w1'' (PInt 60) () = (Inr (Some (demo_lease demo_crashed ''running'' 4)), ())"
  by (simp add: queue_claim_def demo_worker_id lease_seconds_arg_def int_arg_def queue_request_def bindE_apply
      demo_transport_def at_clock_apply claimed_lease_def demo_parse demo_crashed_clean)
    (simp add: demo_lease_def)

lemma demo_detached: "detached_spec demo_spec = Inr demo_spec"
  by simp

text \<open>A save of a state of the demonstration task is answered with that state, one revision later.\<close>

lemma demo_save:
  assumes "st_schema_version st = STATE_SCHEMA_VERSION" "st_updated_at st \<noteq> []" "st_task_id st = ''t1''"
    "st_spec_fingerprint st = PStr (fingerprint demo_spec)" "st_status st = PStr status"
    "status \<in> {''running'', ''blocked'', ''completed'', ''failed''}" "clean_val (PDict (TaskState_to_dict st))"
    "0 \<le> revision"
  shows "queue_save demo_queue demo_spec st (PInt revision) ''w1'' (PInt 1) (PInt 60) w =
    (Inr (demo_lease st status (revision + 1)), w)"
proof -
  have cs: "clean_state now demo_spec st = Inr st" for now
    using assms(1-4,7)
    by (simp add: clean_state_def TaskState_roundtrip forbidden_secret_path_None(1) [THEN iffD2] del: forbidden_secret_path.simps)
  have known: "in_str_set (PStr status) SAVE_STATUSES = Inr True" using assms(5,6) by (auto simp: SAVE_STATUSES_def)
  have chk: "check_saved st revision ''w1'' 1 (demo_lease st status (revision + 1)) = Inr (demo_lease st status (revision + 1))"
    using assms(5) by (auto simp: check_saved_def demo_lease_def fenced_def)
  note p = demo_parse [OF assms(1-7), of "Some demo_spec" "revision + 1" "''now''"]
  show ?thesis
    using assms(8) p
    by (simp add: queue_save_def demo_detached at_clock_apply bindE_apply cs known revision_arg_def int_arg_def
        demo_worker_id generation_arg_def lease_seconds_arg_def queue_request_def demo_transport_def assms(5) chk
        del: in_str_set.simps)
qed

lemma demo_backend_ok: "queue_backend_ok demo_queue"
  by (auto simp: queue_backend_ok_def demo_transport_def demo_row_def)

section \<open>Leases\<close>

text \<open>Every lease that the queue client returns, from an inspection, a claim, a save or a
  reconciliation, keeps the contract of a lease: a valid specification, a state of that
  specification and of the row's status, counters in range with at most \<open>max_attempts\<close> attempts,
  no forbidden key in the state, and an owner, an expiry and a positive fencing generation
  exactly while it is running. The transport may answer anything.\<close>

theorem queue_leases_keep_contract:
  assumes "queue_inspect h spec w = (Inr l, w') \<or> client_claim c worker secs w = (Inr (Some l), w') \<or>
    queue_save h spec st revision worker generation secs w = (Inr l, w') \<or>
    queue_reconcile_expired h spec st revision generation w = (Inr l, w')"
  shows "lease_ok l"
proof -
  have "\<exists>now expected v. parse_lease now expected v = Inr l"
    if "queue_reconcile_expired h spec st revision generation w = (Inr l, w')"
    using that by (auto simp: queue_reconcile_expired_def bindE_eq_Inr at_clock_apply check_reconciled_def
        split: if_split_asm)
  moreover have "\<exists>now expected v. parse_lease now expected v = Inr l" if "queue_inspect h spec w = (Inr l, w')"
    using that by (auto simp: queue_inspect_def bindE_eq_Inr at_clock_apply)
  ultimately show ?thesis
    using assms by (auto dest: parse_lease_ok client_claim_Inr claimed_lease_Inr elim: queue_save_Inr)
qed

theorem queue_leases_keep_contract_witness:
  "client_claim (HostedQueueClient demo_queue) ''w1'' (PInt 60) () = (Inr (Some (demo_lease demo_crashed ''running'' 4)), ()) \<and>
   lease_ok (demo_lease demo_crashed ''running'' 4)"
proof -
  have "client_claim (HostedQueueClient demo_queue) ''w1'' (PInt 60) () = (Inr (Some (demo_lease demo_crashed ''running'' 4)), ())"
    by (simp add: client_claim_def HostedQueueClient_def demo_claim)
  with queue_leases_keep_contract [of undefined undefined "()" "demo_lease demo_crashed ''running'' 4" "()"]
  show ?thesis by blast
qed

text \<open>A claim that returns a lease returns a running lease of the worker that asked, at a positive
  revision and attempt; a client bound to a task returns a lease of that task only, and of that
  specification.\<close>

theorem claim_returns_own_running_lease:
  assumes "client_claim c worker secs w = (Inr (Some l), w')"
  shows "fenced l \<and> ql_lease_owner l = Some worker \<and> 1 \<le> ql_lease_generation l \<and> 1 \<le> ql_revision l \<and>
    1 \<le> ql_attempt_count l \<and> ql_attempt_count l \<le> ql_max_attempts l \<and>
    (\<forall>spec. qc_target c = Some spec \<longrightarrow> ql_task_id l = sp_task_id spec \<and> same_spec (ql_spec l) spec)"
  using client_claim_Inr [OF assms] by (auto simp: fenced_def lease_ok_def dest!: claimed_lease_Inr)

theorem claim_returns_own_running_lease_witness:
  "\<exists>l. client_claim (HostedQueueClient demo_queue) ''w1'' (PInt 60) () = (Inr (Some l), ()) \<and> fenced l \<and>
     ql_lease_owner l = Some ''w1''"
proof -
  have "client_claim (HostedQueueClient demo_queue) ''w1'' (PInt 60) () = (Inr (Some (demo_lease demo_crashed ''running'' 4)), ())"
    by (simp add: client_claim_def HostedQueueClient_def demo_claim)
  with claim_returns_own_running_lease [OF this] show ?thesis by blast
qed

text \<open>C5. A save that returns has sent one request, with the expected revision, the worker and the
  fencing generation of the caller and a state without forbidden keys; the row it returns is of
  the same specification, exactly one revision later, in the same generation, and is still owned
  by the worker when the state is running and released otherwise.\<close>

theorem queue_save_is_fenced:
  assumes "queue_save h spec st (PInt revision) worker (PInt generation) secs w = (Inr l, w')"
  shows "\<exists>st' n r. qh_transport h ''queue_save'' (save_request spec st' revision worker generation n) w = (Inr (PDict r), w') \<and>
    clean_state (qh_clock h w) spec st = Inr st' \<and> clean_val (PDict (TaskState_to_dict st')) \<and>
    ql_revision l = revision + 1 \<and> ql_lease_generation l = generation \<and> same_spec (ql_spec l) spec \<and>
    (if st_status st' = PStr ''running'' then fenced l \<and> ql_lease_owner l = Some worker
     else ql_lease_owner l = None \<and> ql_lease_expires_at l = None)"
  using assms
proof (rule queue_save_Inr)
  fix st' s r revision' generation' n
  assume st': "clean_state (qh_clock h w) spec st = Inr st'" and s: "st_status st' = PStr s"
    and args: "PInt revision = PInt revision'" "PInt generation = PInt generation'"
    and tr: "qh_transport h ''queue_save'' (save_request spec st' revision' worker generation' n) w = (Inr (PDict r), w')"
    and parse: "parse_lease (qh_clock h w') (Some spec) (dict_get r ''lease'') = Inr l"
    and check: "check_saved st' revision' worker generation' l = Inr l"
  show ?thesis
    using clean_state_Inr [OF st'] parse_lease_ok [OF parse] check_saved_Inr [OF check s] st' tr args s
    by (intro exI [of _ st'] exI [of _ n] exI [of _ r]) (auto split: if_splits)
qed

theorem queue_save_is_fenced_witness:
  "\<exists>l. queue_save demo_queue demo_spec demo_blocked (PInt 4) ''w1'' (PInt 1) (PInt 60) () = (Inr l, ()) \<and>
     ql_revision l = 5 \<and> ql_lease_owner l = None"
proof -
  have save: "queue_save demo_queue demo_spec demo_blocked (PInt 4) ''w1'' (PInt 1) (PInt 60) () =
      (Inr (demo_lease demo_blocked ''blocked'' 5), ())"
    using demo_save [of demo_blocked "''blocked''" 4] demo_crashed_clean
    by (simp add: demo_blocked_def TaskState_to_dict_def)
  show ?thesis
  proof (intro exI conjI)
    show "ql_revision (demo_lease demo_blocked ''blocked'' 5) = 5"
      using queue_save_is_fenced [OF save] by auto
    show "ql_lease_owner (demo_lease demo_blocked ''blocked'' 5) = None"
      by (simp add: demo_lease_def)
  qed (rule save)
qed

text \<open>C12. No request of the hosted queue client and of the hosted activity client carries a forbidden key
  (a token, a password, an API key and so on, in any case and at any depth): on a transport that refuses
  such payloads every operation of these two clients behaves the same. The checkpoint client
  is not one of them: it makes no such check of its own and leaves it to the transport.\<close>

theorem hosted_clients_send_no_secret:
  "queue_inspect (screened_host h) spec w = queue_inspect h spec w \<and>
   queue_claim (screened_host h) worker secs w = queue_claim h worker secs w \<and>
   queue_claim_task (screened_host h) spec worker secs w = queue_claim_task h spec worker secs w \<and>
   queue_save (screened_host h) spec st revision worker generation secs w =
     queue_save h spec st revision worker generation secs w \<and>
   queue_reconcile_expired (screened_host h) spec st revision generation w =
     queue_reconcile_expired h spec st revision generation w \<and>
   activity_append (screened tr) tid ty sid payload w = activity_append tr tid ty sid payload w \<and>
   activity_list (screened tr) tid after limit w = activity_list tr tid after limit w"
  by (simp add: queue_inspect_screened queue_claim_screened queue_claim_task_screened queue_save_screened
      queue_reconcile_screened activity_append_screened activity_list_screened)

text \<open>The events that the activity client lists are records of the task asked for, with positive
  and strictly increasing identifiers, all beyond the cursor, and with payloads free of
  forbidden keys.\<close>

theorem activity_list_is_ordered:
  assumes "activity_list tr tid (PInt cursor) limit w = (Inr events, w')"
  shows "list_all (event_ok tid) events \<and> sorted_wrt (<) (map ev_event_id events) \<and>
    list_all (\<lambda>e. cursor < ev_event_id e) events"
  using activity_list_Inr [OF assms]
  by (auto simp: after_event_arg_def split: if_split_asm dest: check_events_ok)

lemma demo_task_id: "activity_valid_task_id ''t1''" "\<not> blank ''note''" "strip ''note'' = ''note''"
  by code_simp+

theorem activity_list_is_ordered_witness:
  "\<exists>e. activity_list demo_transport ''t1'' (PInt 3) (PInt 100) () = (Inr [e], ()) \<and> 3 < ev_event_id e"
proof -
  obtain e where e: "activity_list demo_transport ''t1'' (PInt 3) (PInt 100) () = (Inr [e], ())"
    by (simp add: activity_list_def demo_task_id list_limit_arg_def after_event_arg_def activity_request_def
        bindE_apply demo_transport_def demo_event_def parse_event_def row_text_def check_events_def)
  with activity_list_is_ordered [OF e] show ?thesis by simp
qed

end
