(* ===== verification/Worker_Results.thy ===== *)
theory Worker_Results
  imports Hosted_Results
begin

text \<open>
  Properties of the hosted workers: the coordinator executes nothing and releases what it
  claims; the read-only worker calls read actions only; a run on a lease ends with a released
  lease in a sound terminal state and records every attempt before it acts.
\<close>

lemma list_all2_set2E:
  assumes "list_all2 P xs ys" and "y \<in> set ys"
  obtains x where "x \<in> set xs" and "P x y"
  using assms by (induction rule: list_all2_induct) auto

section \<open>The coordinator\<close>

text \<open>The coordinator calls no action: an inspection behaves the same when every registered
  implementation would end the process.\<close>

theorem coordinator_executes_nothing:
  "inspect_next (co\<lparr>co_registry := disarm (\<lambda>_. True) (co_registry co)\<rparr>) worker secs allowed w =
   inspect_next co worker secs allowed w"
  by (simp add: inspect_next_disarm)

text \<open>An inspection that returns after claiming a task has released the claim: the backend
  acknowledged a blocked row without an owner, one revision after the claim and in its
  generation. It reports that execution is disabled, and that the task is ready exactly when all
  actions and verifiers of the task are registered with an allowed access.\<close>

theorem inspection_releases_its_claim:
  assumes "inspect_next co worker secs allowed w = (Inr d, w')" and "wd_claimed d"
  shows "\<exists>l released w1. client_claim (co_queue co) worker secs w = (Inr (Some l), w1) \<and>
    released_blocked (qc_host (co_queue co)) worker secs l released \<and>
    wd_revision d = Some (ql_revision released) \<and> \<not> wd_execution_enabled d \<and>
    (wd_ready d \<longleftrightarrow> (\<forall>a \<in> set (used_actions (ql_spec l)).
       registered (co_registry co) a \<and> access_in (co_registry co) allowed a))"
proof -
  obtain l w1 where claim: "client_claim (co_queue co) worker secs w = (Inr (Some l), w1)"
    and insp: "inspect_lease co worker secs allowed l w1 = (Inr d, w')"
    using assms by (auto simp: inspect_next_def bindE_eq_Inr split: option.split_asm)
  from inspect_lease_Inr [OF insp] claim show ?thesis by blast
qed

definition demo_coordinator :: "unit coordinator" where
  "demo_coordinator = \<lparr>co_queue = HostedQueueClient demo_queue, co_activity = demo_transport, co_registry = ToolRegistry\<rparr>"

lemma demo_client_claim:
  "client_claim (HostedQueueClient demo_queue) ''w1'' (PInt 60) () = (Inr (Some (demo_lease demo_crashed ''running'' 4)), ())"
  by (simp add: client_claim_def HostedQueueClient_def demo_claim)

lemma qc_host_plain [simp]: "qc_host (HostedQueueClient h) = h"
  by (simp add: HostedQueueClient_def)

lemma validate_event_type_ok:
  "strip s = s \<Longrightarrow> s \<noteq> [] \<Longrightarrow> length s \<le> 128 \<Longrightarrow> validate_event_type (PStr s) = Inr s"
  by (simp add: validate_event_type_def)

lemma demo_append_step:
  assumes "sid \<in> {PNone, PStr ''s1''}" and "strip ty = ty" "ty \<noteq> []" "length ty \<le> 128" "clean_val (PDict p)" "p \<noteq> []"
  shows "\<exists>e. activity_append demo_transport ''t1'' (PStr ty) sid (PDict p) w = (Inr e, w)"
proof -
  have "strip ''s1'' = ''s1''" by code_simp
  then show ?thesis
    using assms
    by (auto simp: activity_append_def demo_task_id validate_event_type_ok validate_step_id_def validate_payload_def
        py_or_def forbidden_secret_path_None [THEN iffD2] activity_request_def bindE_apply demo_transport_def
        demo_event_def parse_event_def row_text_def opt_str_def simp del: forbidden_secret_path.simps)
qed

lemmas demo_append = demo_append_step [of PNone, simplified]

lemma worker_keys_allowed:
  "\<not> forbidden_key ''missing_actions''" "\<not> forbidden_key ''forbidden_actions''" "\<not> forbidden_key ''execution_enabled''"
  by code_simp+

lemma demo_event_types:
  "strip ''worker_preflight_started'' = ''worker_preflight_started''"
  "strip ''worker_preflight_blocked'' = ''worker_preflight_blocked''" "strip ''task_blocked'' = ''task_blocked''"
  by code_simp+

lemma demo_used: "used_actions demo_spec = [''fetch'']"
  by code_simp

lemma demo_lease_simps [simp]:
  "ql_task_id (demo_lease st s r) = ''t1''" "ql_spec (demo_lease st s r) = demo_spec"
  "ql_state (demo_lease st s r) = st" "ql_revision (demo_lease st s r) = r"
  "ql_lease_generation (demo_lease st s r) = 1" "ql_status (demo_lease st s r) = s"
  "ql_lease_owner (demo_lease st s r) = (if s = ''running'' then Some ''w1'' else None)"
  by (simp_all add: demo_lease_def)

lemma clean_state_update:
  assumes "clean_val (PDict (TaskState_to_dict st))"
  shows "clean_val (PDict (TaskState_to_dict (touch t (st\<lparr>st_status := PStr a, st_blocked_reason := PStr b,
     st_last_error := PNone\<rparr>))))"
  using assms by (simp add: TaskState_to_dict_def touch_def)

lemma demo_release:
  "\<exists>st. blocked_state ''now'' (demo_lease demo_crashed ''running'' 4) reason = Inr st \<and>
     queue_save demo_queue demo_spec st (PInt 4) ''w1'' (PInt 1) (PInt 60) () = (Inr (demo_lease st ''blocked'' 5), ())"
  using demo_save [of "touch ''now'' (demo_crashed\<lparr>st_status := PStr ''blocked'', st_blocked_reason := PStr reason,
      st_last_error := PNone\<rparr>)" "''blocked''" 4] clean_state_update [OF demo_crashed_clean]
  by (simp add: blocked_state_def TaskState_roundtrip touch_def)

theorem inspection_releases_its_claim_witness:
  "\<exists>d. inspect_next demo_coordinator ''w1'' (PInt 60) [''read''] () = (Inr d, ()) \<and> wd_claimed d \<and>
     wd_revision d = Some 5 \<and> \<not> wd_execution_enabled d"
proof -
  obtain st where st: "blocked_state ''now'' (demo_lease demo_crashed ''running'' 4)
        (preflight_reason [''fetch''] []) = Inr st"
      "queue_save demo_queue demo_spec st (PInt 4) ''w1'' (PInt 1) (PInt 60) () = (Inr (demo_lease st ''blocked'' 5), ())"
    using demo_release by blast
  have pre: "worker_preflight ToolRegistry [''read''] demo_spec = Inr ([''fetch''], [])"
    by (simp add: worker_preflight_def demo_used registered_def ToolRegistry_def sorted_set_def)
  note ev = demo_append [OF demo_event_types(1)] demo_append [OF demo_event_types(2)]
  have "\<exists>d. inspect_next demo_coordinator ''w1'' (PInt 60) [''read''] () = (Inr d, ()) \<and> wd_claimed d"
    using ev(1) [of "[(''worker_id'', PStr ''w1''), (''revision'', PInt 4), (''lease_generation'', PInt 1)]" "()"]
      ev(2) [of "[(''worker_id'', PStr ''w1''), (''revision'', PInt 5), (''lease_generation'', PInt 1),
        (''reason'', PStr (preflight_reason [''fetch''] [])), (''missing_actions'', PList [PStr ''fetch'']),
        (''forbidden_actions'', PList []), (''execution_enabled'', PBool False)]" "()"]
    by (auto simp: inspect_next_def demo_coordinator_def bindE_apply demo_client_claim inspect_lease_def pre
        Let_def at_clock_apply st keys_allowed worker_keys_allowed)
  then obtain d where d: "inspect_next demo_coordinator ''w1'' (PInt 60) [''read''] () = (Inr d, ())" "wd_claimed d"
    by blast
  from inspection_releases_its_claim [OF d] show ?thesis
    using d by (auto simp: demo_coordinator_def demo_client_claim released_blocked_def)
qed

section \<open>The read-only worker\<close>

text \<open>C9. The read-only worker acts only when it is authorised, and then calls only actions that are
  registered with read access: without authorisation it raises and touches nothing, not even the
  queue; and it behaves the same when every other implementation would end the process.\<close>

theorem readonly_worker_calls_only_reads:
  "(rw_execution_authorized rw = PBool True \<or>
      run_next rw worker secs w =
        (Inl (Exc HostedExecutionNotAuthorized ''hosted_readonly_execution_not_authorized''), w)) \<and>
   run_next (rw\<lparr>rw_registry := disarm (not_read (rw_registry rw)) (rw_registry rw)\<rparr>) worker secs w =
     run_next rw worker secs w"
  by (simp add: run_next_disarm) (simp add: run_next_def run_next_with_def)

text \<open>A result that the guard of the read-only worker lets through, and that reports its artifacts
  as a list, a tuple or an \<open>ActionResult\<close>, reports no artifact as created, saved or loaded with
  the value \<open>True\<close>.\<close>

theorem guarded_results_report_no_write:
  assumes "guarded_action impl args ctx w = (Inr v, w')" and "\<forall>d its. v \<noteq> AV_Dict d (Iterable its)"
    and "normalise_action_result v = Inr r"
  shows "\<forall>u \<in> set (rs_artifacts r). PBool True \<notin>
    {au_created u, au_persistent_saved u, au_device_saved u, au_ui_loaded u}"
proof -
  have ok: "check_read_only (artifact_updates_of v) = Inr ()"
    using assms(1) by (auto simp: guarded_action_def bindE_eq_Inr assert_read_only_Inr)
  have item: "PBool True \<notin> {au_created u, au_persistent_saved u, au_device_saved u, au_ui_loaded u}"
    if "write_flags raw = Inr flags" "PBool True \<notin> set flags" "artifact_item raw = Inr u" for raw flags u
    using that
    by (auto simp: write_flags_def artifact_item_def ArtifactUpdate_kwargs_def
        split: sum.splits pyval.splits if_splits)
  show ?thesis
  proof (cases v)
    case (AV_Result r')
    with ok assms(3) show ?thesis by (auto simp: check_read_only_Inr list_all_iff write_flags_def)
  next
    case (AV_Dict d av)
    show ?thesis
    proof (cases av)
      case (Items its)
      have "mapR artifact_item its = Inr (rs_artifacts r)"
        using assms(3) by (auto simp: AV_Dict Items bindR_eq_Inr)
      then have "\<exists>raw \<in> set its. artifact_item raw = Inr u" if "u \<in> set (rs_artifacts r)" for u
        using that by (auto simp: mapR_eq_Inr elim!: list_all2_set2E)
      with item ok show ?thesis
        by (fastforce simp: AV_Dict Items check_read_only_Inr list_all_iff)
    qed (use assms(2,3) AV_Dict in auto)
  qed (use assms(3) in auto)
qed

theorem guarded_results_report_no_write_witness:
  "guarded_action (\<lambda>args ctx w. (Inr (AV_Dict [] (Items [Inr (PDict [(''artifact_id'', PStr ''a''), (''kind'', PStr ''k'')])])), w))
     [] [] () = (Inr (AV_Dict [] (Items [Inr (PDict [(''artifact_id'', PStr ''a''), (''kind'', PStr ''k'')])])), ()) \<and>
   (\<exists>r. normalise_action_result (AV_Dict [] (Items [Inr (PDict [(''artifact_id'', PStr ''a''), (''kind'', PStr ''k'')])])) = Inr r \<and>
      (\<forall>u \<in> set (rs_artifacts r). au_created u \<noteq> PBool True))"
proof -
  let ?v = "AV_Dict [] (Items [Inr (PDict [(''artifact_id'', PStr ''a''), (''kind'', PStr ''k'')])])"
  have g: "guarded_action (\<lambda>args ctx w. (Inr ?v, w)) [] [] () = (Inr ?v, ())"
    by (simp add: guarded_action_def bindE_apply assert_read_only_result_def write_flags_def)
  obtain r where r: "normalise_action_result ?v = Inr r"
    by (simp add: artifact_item_def ArtifactUpdate_kwargs_def kwargs_ok_def py_or_def)
  from guarded_results_report_no_write [OF g _ r] g r show ?thesis by auto
qed

text \<open>The guard of the read-only worker compares a flag with \<open>True\<close>, while an artifact is merged
  by the truth value of the flag: a result that reports \<open>created\<close> as 1 passes the guard, and the
  state then records a created artifact.\<close>

theorem guard_misses_truthy_flag:
  "\<exists>v r st. assert_read_only_result v = Inr v \<and> normalise_action_result v = Inr r \<and>
     apply_artifact_updates demo_crashed (rs_artifacts r) = Inr st \<and>
     (\<exists>a. map_of (st_artifacts st) ''a'' = Some a \<and> ar_created a = PBool True)"
proof -
  let ?v = "AV_Dict [] (Items [Inr (PDict [(''artifact_id'', PStr ''a''), (''kind'', PStr ''k''), (''created'', PInt 1)])])"
  have "assert_read_only_result ?v = Inr ?v"
    by (simp add: assert_read_only_result_def write_flags_def)
  moreover have "\<not> blank ''a''" "\<not> blank ''k''" by code_simp+
  ultimately show ?thesis
    by (intro exI [of _ ?v])
      (simp add: artifact_item_def ArtifactUpdate_kwargs_def kwargs_ok_def py_or_def apply_artifact_update_def
        ArtifactUpdate_validate_def required_text_def demo_crashed_def ArtifactState_merge_def merge_metadata_def
        merge_flag_def Let_def dict_get_or_def)
qed

section \<open>Runs on a lease\<close>

lemma lease_startable:
  assumes "queue_backend_ok (ls_host ls)" and "lease_ok l" and "ql_status l = ''running''"
    and "st_updated_at (ql_state l) \<noteq> []" and "bounded (ql_spec l) (ql_state l)"
  shows "task_store.startable (hs_ops ls) (hs_inv (ql_lease_generation l)) (hs_durable (ql_lease_generation l)) (ql_spec l) (l, w)"
proof -
  let ?g = "ql_lease_generation l"
  have store: "task_store (hs_ops ls) (hs_inv ?g :: queue_lease \<times> 'a \<Rightarrow> bool) (hs_durable ?g)"
    by (rule lease_task_store [OF assms(1)])
  show ?thesis
    using assms(2-5) by (auto simp: task_store.startable_def [OF store] hs_inv_def hs_durable_def lease_ok_def sound_def)
qed

text \<open>A run of any runner on a lease store, whose actions keep the lease.\<close>

lemma lease_store_run_released:
  assumes ok: "queue_backend_ok (ls_host ls)" and lease: "lease_ok l" "ql_status l = ''running''"
      "st_updated_at (ql_state l) \<noteq> []" "bounded (ql_spec l) (ql_state l)"
    and rn: "rn_store rn = hs_ops ls" "runner_keeps (hs_inv (ql_lease_generation l)) rn"
    and eq: "run rn (ql_spec l) [] (l, w) = (Inr out, (l', w'))"
  shows "lease_ok l' \<and> ql_status l' \<in> {''completed'', ''blocked'', ''failed''} \<and> ql_lease_owner l' = None \<and>
    ql_lease_generation l' = ql_lease_generation l \<and> ql_task_id l' = ql_task_id l \<and>
    sound (ql_spec l) (ql_state l') \<and> ro_status out = PStr (ql_status l')"
proof -
  let ?g = "ql_lease_generation l"
  have store: "task_store (hs_ops ls) (hs_inv ?g :: queue_lease \<times> 'a \<Rightarrow> bool) (hs_durable ?g)"
    by (rule lease_task_store [OF ok])
  from task_store.run_sound [OF store rn lease_startable [OF ok lease] eq]
  obtain s where "hs_durable ?g (l', w') (sp_task_id (ql_spec l)) = Some s" and s: "sound (ql_spec l) s"
    "ro_status out = st_status s" "st_status s \<in> {PStr ''completed'', PStr ''blocked'', PStr ''failed''}"
    by blast
  then have l': "lease_ok l'" "ql_lease_generation l' = ?g" "ql_task_id l' = ql_task_id l" "ql_state l' = s"
    using lease(1) by (auto simp: hs_durable_def lease_ok_def split: if_splits)
  then have "ql_status l' \<in> {''completed'', ''blocked'', ''failed''} \<and> st_status s = PStr (ql_status l')"
    using s(3) by (auto simp: lease_ok_def split: if_splits)
  with l' s show ?thesis by (auto simp: lease_ok_def split: if_splits)
qed

text \<open>C4. A run on a lease that returns has released it: the last row the backend acknowledged is
  terminal, has no owner, is in the generation of the claim, and its state is sound and has the
  status the run reports (completed only with every step completed, no step beyond its
  \<open>max_attempts\<close>). The backend answers a save with the row it stored.\<close>

theorem leased_run_ends_released:
  assumes "queue_backend_ok (qc_host (rw_queue rw))" and "lease_ok l" and "ql_status l = ''running''"
    and "st_updated_at (ql_state l) \<noteq> []" and "bounded (ql_spec l) (ql_state l)"
    and "run (lease_runner rw worker secs actions) (ql_spec l) [] (l, w) = (Inr out, (l', w'))"
  shows "lease_ok l' \<and> ql_status l' \<in> {''completed'', ''blocked'', ''failed''} \<and> ql_lease_owner l' = None \<and>
    ql_lease_generation l' = ql_lease_generation l \<and> ql_task_id l' = ql_task_id l \<and>
    sound (ql_spec l) (ql_state l') \<and> ro_status out = PStr (ql_status l')"
proof -
  let ?ls = "\<lparr>ls_host = qc_host (rw_queue rw), ls_activity = rw_activity rw, ls_worker_id = worker, ls_lease_seconds = secs\<rparr>"
  show ?thesis
    by (rule lease_store_run_released [of ?ls, OF _ assms(2-5) _ lease_runner_keeps assms(6)])
      (simp_all add: assms(1) lease_runner_def)
qed

definition demo_worker :: "unit readonly_worker" where
  "demo_worker = \<lparr>rw_queue = HostedQueueClient demo_queue, rw_activity = demo_transport, rw_registry = ToolRegistry,
     rw_execution_authorized = PBool True\<rparr>"

abbreviation demo_interrupted :: task_state where
  "demo_interrupted \<equiv> touch ''now'' (demo_crashed\<lparr>st_status := PStr ''blocked'',
     st_blocked_reason := PStr ''interrupted_step_requires_reconciliation:s1'', st_last_error := PNone\<rparr>)"

lemma demo_lease_run:
  "\<exists>out. run (lease_runner demo_worker ''w1'' (PInt 60) []) demo_spec [] (demo_lease demo_crashed ''running'' 4, ()) =
     (Inr out, (demo_lease demo_interrupted ''blocked'' 5, ()))"
proof -
  have save: "queue_save demo_queue demo_spec demo_interrupted (PInt 4) ''w1'' (PInt 1) (PInt 60) () =
      (Inr (demo_lease demo_interrupted ''blocked'' 5), ())"
    using demo_save [of demo_interrupted "''blocked''" 4] clean_state_update [OF demo_crashed_clean]
    by (simp add: touch_def)
  obtain e where ev: "activity_append demo_transport ''t1'' (PStr ''task_blocked'') PNone
      (PDict [(''message'', PStr ''interrupted_step_requires_reconciliation:s1''), (''data'', PDict [])]) () = (Inr e, ())"
    using demo_append [OF demo_event_types(3),
        of "[(''message'', PStr ''interrupted_step_requires_reconciliation:s1''), (''data'', PDict [])]" "()"]
    by (auto simp: keys_allowed)
  show ?thesis
    by (simp add: run_def TaskSpec_roundtrip lease_runner_def hs_ops_def bindE_apply hs_lock_def run_locked_def
        hs_exists_def hs_load_def demo_worker_def TaskState_roundtrip run_bound_def TERMINAL_def block_def
        save_state_def hs_save_def Let_def)
      (simp add: touch_def save [unfolded touch_def, simplified] hs_append_event_def opt_str_def ev bindE_apply)
qed

theorem leased_run_ends_released_witness:
  "\<exists>out l'. run (lease_runner demo_worker ''w1'' (PInt 60) []) demo_spec [] (demo_lease demo_crashed ''running'' 4, ()) =
     (Inr out, (l', ())) \<and> ql_status l' = ''blocked'' \<and> ql_lease_owner l' = None \<and> lease_ok l' \<and>
     ro_status out = PStr ''blocked''"
proof -
  obtain out where run: "run (lease_runner demo_worker ''w1'' (PInt 60) []) demo_spec [] (demo_lease demo_crashed ''running'' 4, ()) =
     (Inr out, (demo_lease demo_interrupted ''blocked'' 5, ()))"
    using demo_lease_run by blast
  have ok: "lease_ok (demo_lease demo_crashed ''running'' 4)"
    using claimed_lease_Inr client_claim_Inr [OF demo_client_claim] by blast
  have "bounded demo_spec demo_crashed"
    by (simp add: bounded_def demo_spec_simps demo_step_def attempt_count_def demo_crashed_def)
  from leased_run_ends_released [of demo_worker "demo_lease demo_crashed ''running'' 4" "''w1''" "PInt 60" "[]" "()"] ok this run
  show ?thesis by (auto simp: demo_worker_def demo_backend_ok)
qed

text \<open>Write-ahead on a lease: every action and verifier of a run on a lease is invoked while the
  last row the backend acknowledged, in the generation of the claim, is running, counts an
  attempt of the step and does not list it as completed.\<close>

theorem leased_run_write_ahead:
  assumes "queue_backend_ok (qc_host (rw_queue rw))" and "lease_ok l" and "ql_status l = ''running''"
    and "st_updated_at (ql_state l) \<noteq> []" and "bounded (ql_spec l) (ql_state l)"
  shows "run (guard_runner (hs_durable (ql_lease_generation l)) (lease_runner rw worker secs actions)) (ql_spec l) [] (l, w) =
    run (lease_runner rw worker secs actions) (ql_spec l) [] (l, w)"
proof -
  let ?g = "ql_lease_generation l"
    and ?ls = "\<lparr>ls_host = qc_host (rw_queue rw), ls_activity = rw_activity rw, ls_worker_id = worker, ls_lease_seconds = secs\<rparr>"
  have ok: "queue_backend_ok (ls_host ?ls)" using assms(1) by simp
  have store: "task_store (hs_ops ?ls) (hs_inv ?g :: queue_lease \<times> 'a \<Rightarrow> bool) (hs_durable ?g)"
    by (rule lease_task_store [OF ok])
  from task_store.run_guarded [OF store _ lease_runner_keeps lease_startable [OF ok assms(2-5)]] show ?thesis
    by (simp add: lease_runner_def)
qed

theorem leased_run_write_ahead_witness:
  "run (guard_runner (hs_durable 1) (lease_runner demo_worker ''w1'' (PInt 60) [])) demo_spec []
     (demo_lease demo_crashed ''running'' 4, ()) =
   run (lease_runner demo_worker ''w1'' (PInt 60) []) demo_spec [] (demo_lease demo_crashed ''running'' 4, ())"
proof -
  have ok: "lease_ok (demo_lease demo_crashed ''running'' 4)"
    using claimed_lease_Inr client_claim_Inr [OF demo_client_claim] by blast
  have "bounded demo_spec demo_crashed"
    by (simp add: bounded_def demo_spec_simps demo_step_def attempt_count_def demo_crashed_def)
  with leased_run_write_ahead [of demo_worker "demo_lease demo_crashed ''running'' 4" "''w1''" "PInt 60" "[]" "()"] ok
  show ?thesis by (simp add: demo_worker_def demo_backend_ok)
qed

end
