(* ===== verification/Py_Datetime.thy ===== *)
theory Py_Datetime
  imports Py_Values
begin

text \<open>
  Python's \<open>datetime\<close> as far as the agent core uses it: a local time in microseconds since
  1970-01-01T00:00 and, for an aware value, its offset from UTC; comparison of aware values is
  comparison of the instants. \<open>fromisoformat\<close> reads the texts that \<open>isoformat\<close> prints
  (\<^verbatim>\<open>YYYY-MM-DD[*HH[:MM[:SS[.fff[fff]]]][+HH:MM[:SS[.ffffff]]]]\<close>); further spellings that later
  versions of Python accept are refused here.
\<close>

record datetime =
  dt_local :: int
  dt_offset :: "int option"

definition aware :: "datetime \<Rightarrow> bool" where
  "aware d \<longleftrightarrow> dt_offset d \<noteq> None"

text \<open>The instant of an aware value, in microseconds since the epoch in UTC.\<close>

definition instant :: "datetime \<Rightarrow> int" where
  "instant d = dt_local d - (case dt_offset d of None \<Rightarrow> 0 | Some z \<Rightarrow> z)"

section \<open>The calendar\<close>

definition leap :: "int \<Rightarrow> bool" where
  "leap y \<longleftrightarrow> y mod 4 = 0 \<and> (y mod 100 \<noteq> 0 \<or> y mod 400 = 0)"

definition days_in_month :: "int \<Rightarrow> int \<Rightarrow> int" where
  "days_in_month y m = (if m = 2 then (if leap y then 29 else 28) else if m \<in> {4, 6, 9, 11} then 30 else 31)"

text \<open>Days before January 1st of a year (year 1 is the first), and before a month of it.\<close>

definition days_before_year :: "int \<Rightarrow> int" where
  "days_before_year y = (let p = y - 1 in p * 365 + p div 4 - p div 100 + p div 400)"

definition days_before_month :: "int \<Rightarrow> int \<Rightarrow> int" where
  "days_before_month y m = sum_list (map (days_in_month y) [1..m - 1])"

definition epoch_day :: "int \<Rightarrow> int \<Rightarrow> int \<Rightarrow> int" where
  "epoch_day y m d = days_before_year y + days_before_month y m + d - 719163"

lemma epoch_day_epoch: "epoch_day 1970 1 1 = 0"
  by code_simp

section \<open>Reading\<close>

fun digits :: "int \<Rightarrow> string \<Rightarrow> int option" where
  "digits acc [] = Some acc"
| "digits acc (c # cs) = (if is_digit c then digits (10 * acc + int (code c) - 48) cs else None)"

text \<open>A field of a fixed width.\<close>

definition field :: "nat \<Rightarrow> string \<Rightarrow> int option" where
  "field n s = (if length s = n then digits 0 s else None)"

text \<open>\<open>HH[:MM[:SS[.fff[fff]]]]\<close> as hour, minute, second and microsecond.\<close>

definition time_fields :: "string \<Rightarrow> (int \<times> int \<times> int \<times> int) option" where
  "time_fields s =
     (let n = length s;
          sep = (\<lambda>i c. n \<le> i \<or> s ! i = c);
          part = (\<lambda>i k. if n \<le> i then Some 0 else field k (take k (drop i s)))
      in if n \<in> {2, 5, 8, 12, 15} \<and> sep 2 (CHR '':'') \<and> sep 5 (CHR '':'') \<and> sep 8 (CHR ''.'')
         then case (part 0 2, part 3 2, part 6 2, part 9 (n - 9)) of
                (Some h, Some m, Some sec, Some f) \<Rightarrow> Some (h, m, sec, if n = 12 then 1000 * f else f)
              | _ \<Rightarrow> None
         else None)"

definition micros :: "int \<times> int \<times> int \<times> int \<Rightarrow> int" where
  "micros t = (case t of (h, m, s, f) \<Rightarrow> ((h * 60 + m) * 60 + s) * 1000000 + f)"

definition clock_ok :: "int \<times> int \<times> int \<times> int \<Rightarrow> bool" where
  "clock_ok t = (case t of (h, m, s, f) \<Rightarrow> h < 24 \<and> m < 60 \<and> s < 60)"

definition parse_date :: "string \<Rightarrow> int option" where
  "parse_date s =
     (if length s = 10 \<and> s ! 4 = CHR ''-'' \<and> s ! 7 = CHR ''-''
      then case (field 4 (take 4 s), field 2 (take 2 (drop 5 s)), field 2 (drop 8 s)) of
             (Some y, Some m, Some d) \<Rightarrow>
               if 1 \<le> y \<and> 1 \<le> m \<and> m \<le> 12 \<and> 1 \<le> d \<and> d \<le> days_in_month y m then Some (epoch_day y m d) else None
           | _ \<Rightarrow> None
      else None)"

text \<open>The offset after the sign: at least hours and minutes, and less than a day.\<close>

definition parse_offset :: "char \<Rightarrow> string \<Rightarrow> int option" where
  "parse_offset sign s =
     (if length s \<in> {5, 8, 15}
      then case time_fields s of
             Some t \<Rightarrow> if micros t < 86400000000 then Some (if sign = CHR ''-'' then - micros t else micros t) else None
           | None \<Rightarrow> None
      else None)"

definition fromisoformat :: "string \<Rightarrow> datetime option" where
  "fromisoformat s =
     (case parse_date (take 10 s) of
        None \<Rightarrow> None
      | Some day \<Rightarrow>
          let rest = drop 11 s;
              time = takeWhile (\<lambda>c. c \<noteq> CHR ''+'' \<and> c \<noteq> CHR ''-'') rest;
              zone = drop (length time) rest
          in if length s = 10 then Some \<lparr>dt_local = day * 86400000000, dt_offset = None\<rparr>
             else case time_fields time of
                    None \<Rightarrow> None
                  | Some t \<Rightarrow>
                      if \<not> clock_ok t then None
                      else case zone of
                             [] \<Rightarrow> Some \<lparr>dt_local = day * 86400000000 + micros t, dt_offset = None\<rparr>
                           | sign # z \<Rightarrow>
                               (case parse_offset sign z of
                                  None \<Rightarrow> None
                                | Some off \<Rightarrow> Some \<lparr>dt_local = day * 86400000000 + micros t, dt_offset = Some off\<rparr>))"

text \<open>Two texts of the same instant.\<close>

lemma fromisoformat_example:
  "map_option instant (fromisoformat ''2024-02-29T23:30:00+00:00'') = Some 1709249400000000"
  "map_option instant (fromisoformat ''2024-03-01T08:30:00.000+09:00'') = Some 1709249400000000"
  "fromisoformat ''2023-02-29'' = None"
  by code_simp+

text \<open>\<open>value.replace("Z", "+00:00")\<close>.\<close>

definition replace_Z :: "string \<Rightarrow> string" where
  "replace_Z s = concat (map (\<lambda>c. if c = CHR ''Z'' then ''+00:00'' else [c]) s)"

end
