(* ===== verification/Hosted_Recovery.thy ===== *)
theory Hosted_Recovery
  imports Queue_Safety Py_Datetime
begin

text \<open>
  The recovery inspector, \<^verbatim>\<open>src/agent_core/hosted_recovery.py\<close>: it reads the queue row and the
  activity ledger of a task after an interruption, classifies what is known, and proposes a next
  step after a stable double read.

  The ledger is read in pages until a page is short; a host that never sends a short page keeps
  it reading, so the loop is a partial function and \<open>None\<close> stands for not returning. A reading
  that returns is an effect with that further possibility.
\<close>

section \<open>Effects that may not return\<close>

type_synonym ('w, 'a) peff = "'w \<Rightarrow> ((exc + 'a) \<times> 'w) option"

definition effP :: "('w, 'a) eff \<Rightarrow> ('w, 'a) peff" where
  "effP m w = Some (m w)"

definition bindP :: "('w, 'a) peff \<Rightarrow> ('a \<Rightarrow> ('w, 'b) peff) \<Rightarrow> ('w, 'b) peff" where
  "bindP m f w =
     (case m w of
        None \<Rightarrow> None
      | Some (Inl e, w') \<Rightarrow> Some (Inl e, w')
      | Some (Inr x, w') \<Rightarrow> f x w')"

lemma effP_apply [simp]: "effP m w = Some (m w)"
  by (simp add: effP_def)

lemma bindP_eq_Inr:
  "bindP m f w = Some (Inr y, w'') \<longleftrightarrow> (\<exists>x w'. m w = Some (Inr x, w') \<and> f x w' = Some (Inr y, w''))"
  by (cases "m w") (auto simp: bindP_def split: sum.splits prod.splits)

lemma bindP_returns:
  "m w = Some (r, w') \<Longrightarrow> (\<And>x. r = Inr x \<Longrightarrow> f x w' \<noteq> None) \<Longrightarrow> bindP m f w \<noteq> None"
  by (cases r) (auto simp: bindP_def)

section \<open>The inspector\<close>

record 'w inspector =
  ri_queue :: "'w queue_host"
  ri_activity :: "'w transport"
  ri_utcnow :: "'w \<Rightarrow> datetime"

record recovery_report =
  rp_task_id :: string
  rp_checkpoint_status :: string
  rp_revision :: int
  rp_attempt_count :: int
  rp_max_attempts :: int
  rp_lease_generation :: int
  rp_lease_owner :: "string option"
  rp_lease_expires_at :: "string option"
  rp_lease_expired :: "bool option"
  rp_observation_events :: nat
  rp_verification_events :: nat
  rp_latest_observation_event_id :: "int option"
  rp_latest_verification_event_id :: "int option"
  rp_verified :: "bool option"
  rp_classification :: string
  rp_may_reconcile_expired_to_blocked :: bool
  rp_reexecution_allowed :: bool

record recovery_proposal =
  pr_task_id :: string
  pr_classification :: string
  pr_proposed_action :: string
  pr_expected_revision :: int
  pr_lease_generation :: int
  pr_reason :: string
  pr_automatic_execution_allowed :: bool
  pr_blocked_state :: "pydict option"

abbreviation recovery_integrity :: "string \<Rightarrow> exc + 'a" where
  "recovery_integrity m \<equiv> Inl (Exc HostedRecoveryIntegrityError m)"

definition parse_timestamp :: "string \<Rightarrow> int res" where
  "parse_timestamp s =
     (case fromisoformat (replace_Z s) of
        None \<Rightarrow> recovery_integrity ''invalid_lease_expiry''
      | Some d \<Rightarrow> if \<not> aware d then recovery_integrity ''lease_expiry_must_be_timezone_aware'' else Inr (instant d))"

definition cursor_arg :: "int option \<Rightarrow> pyval" where
  "cursor_arg c = (case c of None \<Rightarrow> PNone | Some n \<Rightarrow> PInt n)"

text \<open>
  The loop of \<open>_all_events\<close> with its variables \<open>cursor\<close> and \<open>events\<close>, over the call that reads a page
  after a cursor.
\<close>

partial_function (option) read_pages ::
  "(int option \<Rightarrow> ('w, activity_event list) eff) \<Rightarrow> int option \<Rightarrow> activity_event list \<Rightarrow>
     ('w, activity_event list) peff" where
  "read_pages page cursor events w =
     (case page cursor w of
        (Inl e, w') \<Rightarrow> Some (Inl e, w')
      | (Inr batch, w') \<Rightarrow>
          if length batch < 200 then Some (Inr (events @ batch), w')
          else if (case cursor of None \<Rightarrow> False | Some c \<Rightarrow> ev_event_id (last batch) \<le> c)
          then Some (recovery_integrity ''activity_cursor_did_not_advance'', w')
          else read_pages page (Some (ev_event_id (last batch))) (events @ batch) w')"

definition ledger_page :: "'w inspector \<Rightarrow> string \<Rightarrow> int option \<Rightarrow> ('w, activity_event list) eff" where
  "ledger_page ri tid cursor = activity_list (ri_activity ri) tid (cursor_arg cursor) (PInt 200)"

definition all_events :: "'w inspector \<Rightarrow> string \<Rightarrow> ('w, activity_event list) peff" where
  "all_events ri tid = read_pages (ledger_page ri tid) None []"

text \<open>One round of the evidence loop: \<open>None\<close> is \<open>continue\<close>, else which list the event joins.\<close>

definition classify_event :: "queue_lease \<Rightarrow> activity_event \<Rightarrow> string option res" where
  "classify_event l e =
     (if ev_event_type e \<notin> {''github_observation'', ''github_verification''} then Inr None
      else
        let p = ev_payload e in
        if \<not> py_eq (dict_get p ''spec_fingerprint'') (PStr (fingerprint (ql_spec l)))
        then recovery_integrity ''evidence_spec_fingerprint_mismatch''
        else
        bindR (int_arg (dict_get p ''lease_generation'') (\<lambda>n. 1 \<le> n)
                 (Exc HostedRecoveryIntegrityError ''invalid_evidence_lease_generation'')) (\<lambda>generation.
        if generation > ql_lease_generation l then recovery_integrity ''evidence_from_future_lease_generation''
        else
        bindR (int_arg (dict_get p ''revision'') (\<lambda>n. 0 \<le> n)
                 (Exc HostedRecoveryIntegrityError ''invalid_evidence_revision'')) (\<lambda>revision.
        if revision > ql_revision l then recovery_integrity ''evidence_revision_ahead_of_checkpoint''
        else
        case dict_get p ''evidence'' of
          PDict evidence \<Rightarrow>
            if generation \<noteq> ql_lease_generation l then Inr None
            else if ev_event_type e = ''github_observation'' then Inr (Some ''github_observation'')
            else (case dict_get evidence ''verified'' of
                    PBool _ \<Rightarrow> Inr (Some ''github_verification'')
                  | _ \<Rightarrow> recovery_integrity ''verification_evidence_missing_boolean_result'')
        | _ \<Rightarrow> recovery_integrity ''evidence_payload_object_required'')))"

fun current_generation_evidence ::
  "queue_lease \<Rightarrow> activity_event list \<Rightarrow> (activity_event list \<times> activity_event list) res" where
  "current_generation_evidence l [] = Inr ([], [])"
| "current_generation_evidence l (e # es) =
     bindR (classify_event l e) (\<lambda>c.
     bindR (current_generation_evidence l es) (\<lambda>(obs, vers).
     Inr (if c = Some ''github_observation'' then (e # obs, vers)
          else if c = Some ''github_verification'' then (obs, e # vers) else (obs, vers))))"

text \<open>\<open>bool(event.payload["evidence"]["verified"])\<close>, on an event the loop accepted.\<close>

definition event_verified :: "activity_event \<Rightarrow> bool" where
  "event_verified e =
     (case dict_get (ev_payload e) ''evidence'' of PDict d \<Rightarrow> truthy (dict_get d ''verified'') | _ \<Rightarrow> False)"

definition latest :: "'a list \<Rightarrow> 'a option" where
  "latest xs = (if xs = [] then None else Some (last xs))"

definition lease_expiry :: "'w inspector \<Rightarrow> queue_lease \<Rightarrow> 'w \<Rightarrow> bool option res" where
  "lease_expiry ri l w =
     (if ql_status l \<noteq> ''running'' then Inr None
      else case ql_lease_expires_at l of
             None \<Rightarrow> recovery_integrity ''running_checkpoint_missing_lease_expiry''
           | Some x \<Rightarrow>
               if \<not> aware (ri_utcnow ri w) then recovery_integrity ''recovery_clock_must_be_timezone_aware''
               else bindR (parse_timestamp x) (\<lambda>t. Inr (Some (t \<le> instant (ri_utcnow ri w)))))"

text \<open>Classification, \<open>may_reconcile\<close> and \<open>reexecution_allowed\<close>.\<close>

definition classify ::
  "queue_lease \<Rightarrow> bool option \<Rightarrow> activity_event list \<Rightarrow> activity_event list \<Rightarrow> (string \<times> bool \<times> bool) res" where
  "classify l expired obs vers =
     (let verified = map_option event_verified (latest vers) in
      if ql_status l = ''queued'' then
        Inr (if ql_attempt_count l = 0 then ''queued_unstarted'' else ''queued_with_prior_attempt_requires_review'',
             False, ql_attempt_count l = 0 \<and> obs = [] \<and> vers = [])
      else if ql_status l = ''running'' \<and> expired = Some False then Inr (''running_active_do_not_touch'', False, False)
      else if ql_status l = ''running'' then
        Inr (if verified = Some True then ''running_expired_with_verified_evidence''
             else if vers \<noteq> [] then ''running_expired_with_negative_verification''
             else if obs \<noteq> [] then ''running_expired_with_observation_only''
             else ''running_expired_without_provider_evidence'', True, False)
      else if ql_status l = ''completed'' then
        Inr (if verified = Some True then ''completed_verified_no_reexecution''
             else if vers \<noteq> [] then ''completed_with_negative_verification_integrity_review''
             else ''completed_without_verification_evidence_review'', False, False)
      else if ql_status l = ''blocked'' then Inr (''blocked_requires_explicit_reconciliation'', False, False)
      else if ql_status l = ''failed'' then Inr (''failed_requires_explicit_reconciliation'', False, False)
      else recovery_integrity ''unsupported_checkpoint_status'')"

definition report_of ::
  "queue_lease \<Rightarrow> bool option \<Rightarrow> activity_event list \<Rightarrow> activity_event list \<Rightarrow> recovery_report res" where
  "report_of l expired obs vers =
     bindR (classify l expired obs vers) (\<lambda>(classification, may_reconcile, reexecution).
     Inr \<lparr>rp_task_id = ql_task_id l, rp_checkpoint_status = ql_status l, rp_revision = ql_revision l,
          rp_attempt_count = ql_attempt_count l, rp_max_attempts = ql_max_attempts l,
          rp_lease_generation = ql_lease_generation l, rp_lease_owner = ql_lease_owner l,
          rp_lease_expires_at = ql_lease_expires_at l, rp_lease_expired = expired,
          rp_observation_events = length obs, rp_verification_events = length vers,
          rp_latest_observation_event_id = map_option ev_event_id (latest obs),
          rp_latest_verification_event_id = map_option ev_event_id (latest vers),
          rp_verified = map_option event_verified (latest vers),
          rp_classification = classification, rp_may_reconcile_expired_to_blocked = may_reconcile,
          rp_reexecution_allowed = reexecution\<rparr>)"

definition inspect_queue :: "'w inspector \<Rightarrow> task_spec \<Rightarrow> ('w, queue_lease) eff" where
  "inspect_queue ri spec =
     tryE (queue_inspect (ri_queue ri) spec)
       (\<lambda>e. if catches HostedQueueIntegrityError e then raiseE (Exc HostedRecoveryIntegrityError (exc_msg e))
             else raiseE e)"

definition inspect_snapshot :: "'w inspector \<Rightarrow> task_spec \<Rightarrow> ('w, queue_lease \<times> recovery_report) peff" where
  "inspect_snapshot ri spec0 =
     bindP (effP (liftE (detached_spec spec0))) (\<lambda>spec.
     bindP (effP (inspect_queue ri spec)) (\<lambda>l.
     bindP (all_events ri (sp_task_id spec)) (\<lambda>events.
     bindP (effP (liftE (current_generation_evidence l events))) (\<lambda>(obs, vers).
     bindP (effP (\<lambda>w. (lease_expiry ri l w, w))) (\<lambda>expired.
     effP (liftE (bindR (report_of l expired obs vers) (\<lambda>rep. Inr (l, rep)))))))))"

definition recovery_inspect :: "'w inspector \<Rightarrow> task_spec \<Rightarrow> ('w, recovery_report) peff" where
  "recovery_inspect ri spec = bindP (inspect_snapshot ri spec) (\<lambda>(l, rep). effP (retE rep))"

section \<open>Proposals\<close>

text \<open>\<open>_snapshot_identity\<close>: the fields that two reads must agree on.\<close>

definition snapshot_identity :: "queue_lease \<Rightarrow> recovery_report \<Rightarrow> _" where
  "snapshot_identity l rep =
     ((ql_task_id l, ql_status l, ql_revision l, ql_attempt_count l, ql_max_attempts l, ql_lease_generation l,
       ql_lease_owner l, ql_lease_expires_at l),
      (rp_classification rep, rp_observation_events rep, rp_verification_events rep,
       rp_latest_observation_event_id rep, rp_latest_verification_event_id rep, rp_verified rep))"

definition make_proposal :: "queue_lease \<Rightarrow> recovery_report \<Rightarrow> string \<Rightarrow> string \<Rightarrow> pydict option \<Rightarrow> recovery_proposal" where
  "make_proposal l rep action reason blocked =
     \<lparr>pr_task_id = rp_task_id rep, pr_classification = rp_classification rep, pr_proposed_action = action,
      pr_expected_revision = ql_revision l, pr_lease_generation = ql_lease_generation l, pr_reason = reason,
      pr_automatic_execution_allowed = False, pr_blocked_state = blocked\<rparr>"

definition expired_state :: "string \<Rightarrow> queue_lease \<Rightarrow> task_state res" where
  "expired_state now l =
     bindR (TaskState_from_dict now (TaskState_to_dict (ql_state l))) (\<lambda>st.
     Inr (touch now (st\<lparr>st_status := PStr ''blocked'',
       st_blocked_reason := PStr ''expired_lease_requires_reconciliation'',
       st_last_error := py_or (st_last_error st) (PStr ''hosted_run_interrupted_or_expired'')\<rparr>)))"

definition proposal_of :: "string \<Rightarrow> queue_lease \<Rightarrow> recovery_report \<Rightarrow> recovery_proposal res" where
  "proposal_of now l rep =
     (if rp_may_reconcile_expired_to_blocked rep then
        bindR (expired_state now l) (\<lambda>st.
        Inr (make_proposal l rep ''reconcile_expired_to_blocked''
               ''expired running lease must be converted to blocked before any later decision''
               (Some (TaskState_to_dict st))))
      else Inr
        (if rp_classification rep = ''queued_unstarted'' then
           make_proposal l rep ''eligible_for_first_execution''
             ''no prior attempt or provider evidence was observed; separate execution authorization is still required'' None
         else if rp_classification rep = ''running_active_do_not_touch'' then
           make_proposal l rep ''do_not_touch'' ''active lease is still owned; do not reconcile or replay'' None
         else if rp_checkpoint_status rep = ''completed'' then
           make_proposal l rep ''no_reexecution''
             ''completed checkpoint is not a retry signal regardless of evidence completeness'' None
         else if rp_checkpoint_status rep \<in> {''blocked'', ''failed''}
               \<or> rp_classification rep = ''queued_with_prior_attempt_requires_review'' then
           make_proposal l rep ''manual_reconciliation_required''
             ''durable prior-attempt state requires an explicit reconciliation decision'' None
         else make_proposal l rep ''manual_review''
             ''no automatic recovery action is permitted for this durable state'' None))"

definition propose :: "'w inspector \<Rightarrow> task_spec \<Rightarrow> ('w, recovery_proposal) peff" where
  "propose ri spec =
     bindP (inspect_snapshot ri spec) (\<lambda>(l1, rep1).
     bindP (inspect_snapshot ri spec) (\<lambda>(l2, rep2).
     if snapshot_identity l1 rep1 \<noteq> snapshot_identity l2 rep2
     then effP (raiseE (Exc HostedRecoveryIntegrityError ''recovery_snapshot_changed''))
     else effP (at_clock (ri_queue ri) (\<lambda>now. proposal_of now l2 rep2))))"

section \<open>Reading the ledger\<close>

text \<open>The guard against a cursor that does not advance never fires: the client has checked it.\<close>

lemma batch_advances:
  assumes "activity_list tr tid (cursor_arg cursor) n w = (Inr batch, w')" and "batch \<noteq> []"
  shows "list_all (event_ok tid) batch \<and> sorted_wrt (<) (map ev_event_id batch) \<and>
    (\<forall>c. cursor = Some c \<longrightarrow> c < ev_event_id (last batch) \<and> list_all (\<lambda>e. c < ev_event_id e) batch)"
proof -
  obtain c where c: "after_event_arg (cursor_arg cursor) = Inr c" and ok: "list_all (event_ok tid) batch"
    and chk: "check_events c batch = Inr batch"
    using activity_list_Inr [OF assms(1)] by blast
  have "c = cursor" using c by (auto simp: cursor_arg_def after_event_arg_def split: option.splits if_split_asm)
  with check_events_ok [OF chk] ok assms(2) show ?thesis by (auto simp: list_all_iff)
qed

text \<open>
  The loop returns when the identifiers of the ledger are bounded: every full page moves the
  cursor.
\<close>

lemma read_pages_returns:
  assumes bounded: "\<And>c w batch w'. ledger_page ri tid c w = (Inr batch, w') \<Longrightarrow>
      list_all (\<lambda>e. ev_event_id e \<le> N) batch"
  shows "read_pages (ledger_page ri tid) cursor events w \<noteq> None"
proof (induction "nat (N - (case cursor of None \<Rightarrow> -1 | Some c \<Rightarrow> c))" arbitrary: cursor events w rule: less_induct)
  case less
  obtain r w' where step: "ledger_page ri tid cursor w = (r, w')"
    by (cases "ledger_page ri tid cursor w")
  show ?case
  proof (cases r)
    case (Inl e)
    with step show ?thesis by (subst read_pages.simps) simp
  next
    case (Inr batch)
    show ?thesis
    proof (cases "length batch < 200")
      case True
      with step Inr show ?thesis by (subst read_pages.simps) simp
    next
      case False
      then have ne: "batch \<noteq> []" by auto
      note adv = batch_advances [OF step [unfolded Inr ledger_page_def] ne]
      have "ev_event_id (last batch) \<le> N" "0 < ev_event_id (last batch)"
        using bounded [OF step [unfolded Inr]] adv ne by (auto simp: list_all_iff event_ok_def)
      then have "nat (N - ev_event_id (last batch)) < nat (N - (case cursor of None \<Rightarrow> -1 | Some c \<Rightarrow> c))"
        using adv by (cases cursor) auto
      then have "read_pages (ledger_page ri tid) (Some (ev_event_id (last batch))) (events @ batch) w' \<noteq> None"
        by (intro less) simp
      with step Inr False show ?thesis by (subst read_pages.simps) (auto split: option.splits)
    qed
  qed
qed

text \<open>
  A host that serves a ledger: a page is the first 200 events after the cursor, whose
  identifiers are positive, and reading changes nothing.
\<close>

definition after_cursor :: "int option \<Rightarrow> activity_event \<Rightarrow> bool" where
  "after_cursor c e = (case c of None \<Rightarrow> True | Some n \<Rightarrow> n < ev_event_id e)"

definition serves_ledger :: "'w inspector \<Rightarrow> string \<Rightarrow> activity_event list \<Rightarrow> bool" where
  "serves_ledger ri tid ledger \<longleftrightarrow>
     list_all (\<lambda>e. 0 < ev_event_id e) ledger \<and>
     (\<forall>c w. (case c of None \<Rightarrow> True | Some n \<Rightarrow> 0 \<le> n) \<longrightarrow>
        ledger_page ri tid c w = (Inr (take 200 (filter (after_cursor c) ledger)), w))"

lemma filter_after_nth:
  assumes "sorted_wrt (<) (map ev_event_id es)" and "n < length es"
  shows "filter (\<lambda>e. ev_event_id (es ! n) < ev_event_id e) es = drop (Suc n) es"
  using assms
proof (induction es arbitrary: n)
  case (Cons e es)
  show ?case
  proof (cases n)
    case 0
    with Cons.prems show ?thesis by (auto simp: filter_id_conv)
  next
    case (Suc m)
    with Cons.prems have m: "m < length es" by simp
    then have "ev_event_id e < ev_event_id (es ! m)" using Cons.prems(1) by auto
    then have "\<not> ev_event_id (es ! m) < ev_event_id e" by simp
    with Cons.IH [of m] Cons.prems Suc m show ?thesis by simp
  qed
qed simp

lemma read_pages_complete:
  assumes serves: "serves_ledger ri tid ledger" and sorted: "sorted_wrt (<) (map ev_event_id ledger)"
    and "case cursor of None \<Rightarrow> True | Some n \<Rightarrow> 0 \<le> n"
  shows "read_pages (ledger_page ri tid) cursor events w = Some (Inr (events @ filter (after_cursor cursor) ledger), w)"
  using assms(3)
proof (induction "length (filter (after_cursor cursor) ledger)" arbitrary: cursor events rule: less_induct)
  case less
  let ?rest = "filter (after_cursor cursor) ledger"
  have page: "ledger_page ri tid cursor w = (Inr (take 200 ?rest), w)"
    using serves less.prems by (simp add: serves_ledger_def)
  show ?case
  proof (cases "length ?rest < 200")
    case True
    with page show ?thesis by (subst read_pages.simps) simp
  next
    case False
    let ?c = "Some (ev_event_id (?rest ! 199))"
    have last: "last (take 200 ?rest) = ?rest ! 199"
      using False by (subst last_conv_nth) auto
    have member: "?rest ! 199 \<in> set ?rest" using False by (intro nth_mem) simp
    then have adv: "after_cursor cursor (?rest ! 199)" by simp
    have srt: "sorted_wrt (<) (map ev_event_id ?rest)"
      using sorted by (simp add: sorted_wrt_map sorted_wrt_filter)
    have "filter (after_cursor ?c) ledger = filter (after_cursor ?c) ?rest"
      using adv by (auto simp: after_cursor_def intro!: filter_cong split: option.splits)
    also have "\<dots> = drop 200 ?rest"
      using filter_after_nth [OF srt, of 199] False by (simp add: after_cursor_def)
    finally have next_page: "filter (after_cursor ?c) ledger = drop 200 ?rest" .
    then have "length (filter (after_cursor ?c) ledger) < length ?rest" using False by simp
    moreover have "0 < ev_event_id (?rest ! 199)"
      using serves member by (auto simp: serves_ledger_def list_all_iff)
    ultimately have
      "read_pages (ledger_page ri tid) ?c (events @ take 200 ?rest) w = Some (Inr ((events @ take 200 ?rest) @ drop 200 ?rest), w)"
      using less.hyps [of ?c "events @ take 200 ?rest"] next_page by simp
    then have "read_pages (ledger_page ri tid) ?c (events @ take 200 ?rest) w = Some (Inr (events @ ?rest), w)"
      by simp
    moreover have "\<not> (case cursor of None \<Rightarrow> False | Some c \<Rightarrow> ev_event_id (last (take 200 ?rest)) \<le> c)"
      unfolding last using adv by (auto simp: after_cursor_def split: option.splits)
    ultimately show ?thesis
      using page False last by (subst read_pages.simps) simp
  qed
qed

end
