(* ===== verification/Hosted_Checkpoint.thy ===== *)
theory Hosted_Checkpoint
  imports Queue_Safety
begin

text \<open>
  The client of the hosted checkpoint API, \<^verbatim>\<open>src/agent_core/hosted_checkpoint.py\<close>: creation of a
  checkpoint, reading it for a resume, a compare-and-swap save and a listing. A full record is
  accepted only when it belongs to the specification that was asked for. The transport and the
  clock are those of the queue client.

  \<open>json.loads(json.dumps(...))\<close> is the identity on the values of the model.
\<close>

section \<open>Records\<close>

record checkpoint_record =
  cr_task_id :: string
  cr_status :: string
  cr_revision :: int
  cr_idempotency_key :: string
  cr_spec :: task_spec
  cr_state :: task_state
  cr_created_at :: "string option"
  cr_updated_at :: "string option"

record checkpoint_summary =
  cs_task_id :: string
  cs_status :: string
  cs_revision :: int
  cs_idempotency_key :: string
  cs_blocked_reason :: "string option"
  cs_last_error :: "string option"
  cs_created_at :: "string option"
  cs_updated_at :: "string option"

abbreviation checkpoint_integrity :: "string \<Rightarrow> exc + 'a" where
  "checkpoint_integrity m \<equiv> Inl (Exc HostedCheckpointIntegrityError m)"

definition checkpoint_error_from_response :: "pydict \<Rightarrow> exc" where
  "checkpoint_error_from_response r =
     (let message = py_str (py_or (dict_get r ''error'') (PStr ''hosted_checkpoint_request_failed''));
          backend_code = py_str (py_or (dict_get r ''backend_code'') (PStr []))
      in if py_eq (dict_get r ''backend_status'') (PInt 404) \<or> message = ''Checkpoint not found''
         then Exc HostedCheckpointNotFound message
         else if backend_code \<in> {''40001'', ''23505''} \<or> substring ''checkpoint_conflict'' message \<or> message = ''duplicate''
         then Exc HostedCheckpointConflict message
         else Exc HostedCheckpointError message)"

definition checkpoint_request :: "'w queue_host \<Rightarrow> string \<Rightarrow> pydict \<Rightarrow> ('w, pydict) eff" where
  "checkpoint_request h mode payload =
     bindE (qh_transport h mode payload) (\<lambda>v.
       case v of
         PDict r \<Rightarrow> if dict_get r ''success'' \<noteq> PBool True then raiseE (checkpoint_error_from_response r) else retE r
       | _ \<Rightarrow> raiseE (Exc HostedCheckpointError ''invalid_hosted_checkpoint_response''))"

definition validate_state_for_spec :: "string \<Rightarrow> task_spec \<Rightarrow> task_state \<Rightarrow> bool \<Rightarrow> task_state res" where
  "validate_state_for_spec now spec st initial =
     bindR (TaskState_from_dict now (TaskState_to_dict st)) (\<lambda>detached.
       if st_task_id detached \<noteq> sp_task_id spec then checkpoint_integrity ''task_state_id_mismatch''
       else if st_spec_fingerprint detached \<noteq> PNone \<and> \<not> py_eq (st_spec_fingerprint detached) (PStr (fingerprint spec))
       then checkpoint_integrity ''task_spec_changed''
       else
         let bound = (if st_spec_fingerprint detached = PNone
                      then detached\<lparr>st_spec_fingerprint := PStr (fingerprint spec)\<rparr> else detached)
         in if initial \<and> \<not> py_eq (st_status bound) (PStr ''pending'')
            then checkpoint_integrity ''initial_state_must_be_pending''
            else Inr bound)"

definition parse_revision :: "pyval \<Rightarrow> int res" where
  "parse_revision v = int_arg v (\<lambda>n. 0 \<le> n) (Exc HostedCheckpointIntegrityError ''invalid_checkpoint_revision'')"

definition checkpoint_text :: "pyval \<Rightarrow> string \<Rightarrow> string res" where
  "checkpoint_text v err =
     (case v of PStr s \<Rightarrow> if s = [] then checkpoint_integrity err else Inr s | _ \<Rightarrow> checkpoint_integrity err)"

definition parse_full_record :: "string \<Rightarrow> task_spec \<Rightarrow> pyval \<Rightarrow> checkpoint_record res" where
  "parse_full_record now expected v =
     (case v of
        PDict d \<Rightarrow>
          if \<not> py_eq (dict_get d ''task_id'') (PStr (sp_task_id expected))
          then checkpoint_integrity ''checkpoint_task_id_mismatch''
          else
          bindR (in_str_set (dict_get d ''status'') ROW_STATUSES) (\<lambda>known.
          if \<not> known then checkpoint_integrity ''invalid_checkpoint_status''
          else
          let status = py_str (dict_get d ''status'') in
          bindR (parse_revision (dict_get d ''revision'')) (\<lambda>revision.
          bindR (checkpoint_text (dict_get d ''idempotency_key'') ''invalid_checkpoint_idempotency_key'') (\<lambda>key.
          bindR (both_dicts (dict_get d ''spec'') (dict_get d ''state'')
                   (Exc HostedCheckpointIntegrityError ''checkpoint_spec_state_required'')) (\<lambda>(raw_spec, raw_state).
          bindR (row_models now (Exc HostedCheckpointIntegrityError ''invalid_checkpoint_model'') raw_spec raw_state)
            (\<lambda>(spec, st).
          if \<not> py_eq (PDict (TaskSpec_to_dict spec)) (PDict (TaskSpec_to_dict expected))
          then checkpoint_integrity ''task_spec_changed''
          else if \<not> py_eq (dict_get d ''spec_fingerprint'') (PStr (fingerprint expected))
          then checkpoint_integrity ''checkpoint_spec_fingerprint_mismatch''
          else if \<not> py_eq (st_spec_fingerprint st) (PStr (fingerprint expected))
          then checkpoint_integrity ''state_spec_fingerprint_mismatch''
          else if st_task_id st \<noteq> sp_task_id expected then checkpoint_integrity ''task_state_id_mismatch''
          else if \<not> py_eq (st_status st) (PStr (if status = ''queued'' then ''pending'' else status))
          then checkpoint_integrity ''checkpoint_state_status_mismatch''
          else
            Inr \<lparr>cr_task_id = sp_task_id expected, cr_status = status, cr_revision = revision,
                 cr_idempotency_key = key, cr_spec = spec, cr_state = st,
                 cr_created_at = as_str (dict_get d ''created_at''),
                 cr_updated_at = as_str (dict_get d ''updated_at'')\<rparr>)))))
      | _ \<Rightarrow> checkpoint_integrity ''checkpoint_object_required'')"

section \<open>Operations\<close>

text \<open>\<open>state or TaskState(task_id=...)\<close>: a state object is always true.\<close>

definition checkpoint_create ::
  "'w queue_host \<Rightarrow> task_spec \<Rightarrow> task_state option \<Rightarrow> string option \<Rightarrow> ('w, checkpoint_record) eff" where
  "checkpoint_create h spec0 state idempotency_key =
     bindE (liftE (detached_spec spec0)) (\<lambda>spec.
     bindE (at_clock h (\<lambda>now. validate_state_for_spec now spec
              (case state of Some st \<Rightarrow> st | None \<Rightarrow> TaskState_new now (sp_task_id spec)) True)) (\<lambda>st.
     let key = strip (case idempotency_key of None \<Rightarrow> sp_task_id spec | Some k \<Rightarrow> if k = [] then sp_task_id spec else k)
     in if key = [] then raiseE (Exc ValueError ''idempotency_key_required'')
        else
          bindE (checkpoint_request h ''checkpoint_create''
                   [(''task'', PDict (TaskSpec_to_dict spec)), (''state'', PDict (TaskState_to_dict st)),
                    (''idempotency_key'', PStr key)]) (\<lambda>r.
          at_clock h (\<lambda>now. parse_full_record now spec (dict_get r ''checkpoint'')))))"

definition checkpoint_get :: "'w queue_host \<Rightarrow> task_spec \<Rightarrow> ('w, checkpoint_record) eff" where
  "checkpoint_get h spec0 =
     bindE (liftE (detached_spec spec0)) (\<lambda>spec.
     bindE (checkpoint_request h ''checkpoint_get'' [(''task_id'', PStr (sp_task_id spec))]) (\<lambda>r.
     at_clock h (\<lambda>now. parse_full_record now spec (dict_get r ''checkpoint''))))"

definition checkpoint_load_state :: "'w queue_host \<Rightarrow> task_spec \<Rightarrow> ('w, task_state) eff" where
  "checkpoint_load_state h spec = bindE (checkpoint_get h spec) (\<lambda>rec. retE (cr_state rec))"

definition checkpoint_save ::
  "'w queue_host \<Rightarrow> task_spec \<Rightarrow> task_state \<Rightarrow> pyval \<Rightarrow> ('w, checkpoint_record) eff" where
  "checkpoint_save h spec0 st0 expected_revision =
     bindE (liftE (detached_spec spec0)) (\<lambda>spec.
     bindE (liftE (revision_arg expected_revision)) (\<lambda>revision.
     bindE (at_clock h (\<lambda>now. validate_state_for_spec now spec st0 False)) (\<lambda>st.
     if py_eq (st_status st) (PStr ''pending'')
     then raiseE (Exc ValueError ''pending_state_cannot_be_saved_after_creation'')
     else
       bindE (checkpoint_request h ''checkpoint_save''
                [(''task_id'', PStr (sp_task_id spec)), (''expected_revision'', PInt revision),
                 (''status'', st_status st), (''state'', PDict (TaskState_to_dict st))]) (\<lambda>r.
       bindE (at_clock h (\<lambda>now. parse_full_record now spec (dict_get r ''checkpoint''))) (\<lambda>rec.
       if cr_revision rec \<noteq> revision + 1
       then raiseE (Exc HostedCheckpointIntegrityError ''checkpoint_revision_increment_mismatch'')
       else retE rec)))))"

fun parse_summaries :: "string list \<Rightarrow> pyval list \<Rightarrow> checkpoint_summary list res" where
  "parse_summaries seen [] = Inr []"
| "parse_summaries seen (PDict row # rows) =
     bindR (case dict_get row ''task_id'' of
              PStr t \<Rightarrow> if t = [] \<or> t \<in> set seen
                        then checkpoint_integrity ''invalid_or_duplicate_checkpoint_task_id'' else Inr t
            | _ \<Rightarrow> checkpoint_integrity ''invalid_or_duplicate_checkpoint_task_id'') (\<lambda>tid.
     bindR (in_str_set (dict_get row ''status'') ROW_STATUSES) (\<lambda>known.
     if \<not> known then checkpoint_integrity ''invalid_checkpoint_status''
     else
     bindR (checkpoint_text (dict_get row ''idempotency_key'') ''invalid_checkpoint_idempotency_key'') (\<lambda>key.
     bindR (parse_revision (dict_get row ''revision'')) (\<lambda>revision.
     bindR (parse_summaries (tid # seen) rows) (\<lambda>rest.
     Inr (\<lparr>cs_task_id = tid, cs_status = py_str (dict_get row ''status''), cs_revision = revision,
           cs_idempotency_key = key, cs_blocked_reason = as_str (dict_get row ''blocked_reason''),
           cs_last_error = as_str (dict_get row ''last_error''),
           cs_created_at = as_str (dict_get row ''created_at''),
           cs_updated_at = as_str (dict_get row ''updated_at'')\<rparr> # rest))))))"
| "parse_summaries seen (_ # rows) = checkpoint_integrity ''invalid_checkpoint_summary''"

definition checkpoint_list ::
  "'w queue_host \<Rightarrow> string option \<Rightarrow> pyval \<Rightarrow> ('w, checkpoint_summary list) eff" where
  "checkpoint_list h status limit =
     (if (case status of None \<Rightarrow> False | Some s \<Rightarrow> s \<notin> set ROW_STATUSES)
      then raiseE (Exc ValueError ''invalid_checkpoint_status'')
      else
        bindE (liftE (int_arg limit (\<lambda>n. 1 \<le> n \<and> n \<le> 100)
                 (Exc ValueError ''checkpoint_list_limit_out_of_range''))) (\<lambda>n.
        bindE (checkpoint_request h ''checkpoint_list''
                 ((''limit'', PInt n) # (case status of None \<Rightarrow> [] | Some s \<Rightarrow> [(''status'', PStr s)]))) (\<lambda>r.
        case dict_get r ''checkpoints'' of
          PList rows \<Rightarrow> liftE (parse_summaries [] rows)
        | _ \<Rightarrow> raiseE (Exc HostedCheckpointIntegrityError ''checkpoint_list_required''))))"

section \<open>What is accepted for a resume\<close>

text \<open>A record belongs to a specification.\<close>

definition record_ok :: "task_spec \<Rightarrow> checkpoint_record \<Rightarrow> bool" where
  "record_ok spec r \<longleftrightarrow>
     cr_task_id r = sp_task_id spec \<and> same_spec (cr_spec r) spec \<and> TaskSpec_validate (cr_spec r) = Inr () \<and>
     st_task_id (cr_state r) = sp_task_id spec \<and> st_spec_fingerprint (cr_state r) = PStr (fingerprint spec) \<and>
     st_schema_version (cr_state r) = STATE_SCHEMA_VERSION \<and> cr_status r \<in> set ROW_STATUSES \<and>
     st_status (cr_state r) = PStr (if cr_status r = ''queued'' then ''pending'' else cr_status r) \<and>
     0 \<le> cr_revision r \<and> cr_idempotency_key r \<noteq> []"

lemma checkpoint_text_Inr [simp]: "checkpoint_text v e = Inr s \<longleftrightarrow> v = PStr s \<and> s \<noteq> []"
  by (cases v) (auto simp: checkpoint_text_def)

lemma parse_full_record_ok:
  assumes "parse_full_record now spec v = Inr r"
  shows "record_ok spec r"
proof (cases v)
  case (PDict d)
  obtain raw_spec raw_state where
    models: "row_models now (Exc HostedCheckpointIntegrityError ''invalid_checkpoint_model'') raw_spec raw_state =
      Inr (cr_spec r, cr_state r)"
    and r: "cr_task_id r = sp_task_id spec" "0 \<le> cr_revision r" "cr_idempotency_key r \<noteq> []"
      "in_str_set (dict_get d ''status'') ROW_STATUSES = Inr True" "cr_status r = py_str (dict_get d ''status'')"
      "same_spec (cr_spec r) spec" "st_spec_fingerprint (cr_state r) = PStr (fingerprint spec)"
      "st_task_id (cr_state r) = sp_task_id spec"
      "st_status (cr_state r) = PStr (if cr_status r = ''queued'' then ''pending'' else cr_status r)"
    using assms unfolding PDict parse_full_record_def same_spec_def parse_revision_def
    by (auto simp: bindR_eq_Inr Let_def simp del: in_str_set.simps in_str_set_Inr_True py_eq.simps
        split: if_split_asm)
  have "TaskSpec_validate (cr_spec r) = Inr ()" "st_schema_version (cr_state r) = STATE_SCHEMA_VERSION"
    using row_models_Inr [OF models] by (auto dest: TaskSpec_from_dict_valid TaskState_from_dict_schema)
  with r show ?thesis by (auto simp: record_ok_def)
qed (use assms in \<open>simp_all add: parse_full_record_def\<close>)

lemma parse_summaries_distinct:
  assumes "parse_summaries seen rows = Inr ss"
  shows "distinct (map cs_task_id ss) \<and> set (map cs_task_id ss) \<inter> set seen = {} \<and>
    list_all (\<lambda>s. cs_task_id s \<noteq> [] \<and> cs_status s \<in> set ROW_STATUSES \<and> 0 \<le> cs_revision s \<and> cs_idempotency_key s \<noteq> []) ss"
  using assms
proof (induction rows arbitrary: seen ss)
  case Nil
  then show ?case by simp
next
  case (Cons v rows)
  show ?case
  proof (cases v)
    case (PDict row)
    obtain tid rest s where tid: "tid \<noteq> []" "tid \<notin> set seen"
      and rest: "parse_summaries (tid # seen) rows = Inr rest" and ss: "ss = s # rest"
      and s: "cs_task_id s = tid" "in_str_set (dict_get row ''status'') ROW_STATUSES = Inr True"
        "cs_status s = py_str (dict_get row ''status'')" "0 \<le> cs_revision s" "cs_idempotency_key s \<noteq> []"
      using Cons.prems
      by (auto simp: PDict bindR_eq_Inr parse_revision_def simp del: in_str_set.simps in_str_set_Inr_True
          split: if_split_asm pyval.split_asm)
    from Cons.IH [OF rest] tid s ss show ?thesis by auto
  qed (use Cons.prems in auto)
qed

end
