(* ===== verification/Recovery_Results.thy ===== *)
theory Recovery_Results
  imports Hosted_Recovery Hosted_Checkpoint Hosted_Results
begin

text \<open>
  Properties of the recovery inspector and of the checkpoint client: inspection only reads, it
  ends on a bounded ledger and then has read all of it, its reports and proposals never invite a
  second execution of work that may have happened, and a state is accepted for a resume only for
  the specification it was made for.
\<close>

section \<open>Reading only\<close>

text \<open>A transport that ends the process on a mode that is not listed.\<close>

definition only_modes :: "string list \<Rightarrow> 'w transport \<Rightarrow> 'w transport" where
  "only_modes modes tr mode payload =
     (if mode \<in> set modes then tr mode payload else raiseE (Exc SystemExit ''mode_not_allowed''))"

definition reading :: "'w inspector \<Rightarrow> 'w inspector" where
  "reading ri = ri\<lparr>ri_queue := (ri_queue ri)\<lparr>qh_transport := only_modes [''checkpoint_get''] (qh_transport (ri_queue ri))\<rparr>,
     ri_activity := only_modes [''event_list''] (ri_activity ri)\<rparr>"

lemma queue_inspect_reading: "queue_inspect (ri_queue (reading ri)) spec = queue_inspect (ri_queue ri) spec"
  by (simp add: queue_inspect_def queue_request_def at_clock_def reading_def only_modes_def)

lemma ledger_page_reading: "ledger_page (reading ri) = ledger_page ri"
  by (intro ext) (simp add: ledger_page_def activity_list_def activity_request_def reading_def only_modes_def cong: if_cong)

lemma lease_expiry_reading: "lease_expiry (reading ri) = lease_expiry ri"
  by (intro ext) (simp add: lease_expiry_def reading_def cong: option.case_cong if_cong)

lemma inspect_snapshot_reading: "inspect_snapshot (reading ri) = inspect_snapshot ri"
  by (intro ext) (simp only: inspect_snapshot_def inspect_queue_def queue_inspect_reading all_events_def
      ledger_page_reading lease_expiry_reading)

lemma at_clock_reading: "at_clock (ri_queue (reading ri)) = at_clock (ri_queue ri)"
  by (simp add: at_clock_def reading_def fun_eq_iff)

text \<open>Recovery only reads: inspection and proposal behave the same when every request but reading
  the checkpoint row and listing events would end the process. So they claim, save, reconcile and
  append nothing.\<close>

theorem recovery_reads_only:
  "recovery_inspect (reading ri) spec w = recovery_inspect ri spec w \<and> propose (reading ri) spec w = propose ri spec w"
  by (simp only: recovery_inspect_def propose_def inspect_snapshot_reading at_clock_reading)

section \<open>Reading all\<close>

text \<open>C36. Reading the ledger ends: when the identifiers of the events that the host returns are
  bounded, the paging loop returns a result or an exception.\<close>

theorem ledger_reading_ends:
  assumes "\<And>c w batch w'. ledger_page ri tid c w = (Inr batch, w') \<Longrightarrow> list_all (\<lambda>e. ev_event_id e \<le> N) batch"
  shows "\<exists>r w'. all_events ri tid w = Some (r, w')"
  using read_pages_returns [of ri tid N None "[]" w] assms by (auto simp: all_events_def)

definition demo_inspector :: "unit inspector" where
  "demo_inspector = \<lparr>ri_queue = demo_queue, ri_activity = demo_transport, 
     ri_utcnow = (\<lambda>_. \<lparr>dt_local = 2000000000000000, dt_offset = Some 0\<rparr>)\<rparr>"

definition demo_note :: activity_event where
  "demo_note = \<lparr>ev_event_id = 7, ev_task_id = ''t1'', ev_event_type = ''note'', ev_step_id = None, ev_payload = [],
     ev_created_at = ''now''\<rparr>"

lemma demo_page: "ledger_page demo_inspector ''t1'' None () = (Inr [demo_note], ())"
  by (simp add: ledger_page_def cursor_arg_def activity_list_def demo_task_id list_limit_arg_def
      after_event_arg_def activity_request_def bindE_apply demo_transport_def demo_event_def parse_event_def
      row_text_def check_events_def demo_inspector_def demo_note_def)

lemma demo_page_events:
  "ledger_page demo_inspector ''t1'' c () = (Inr batch, w) \<Longrightarrow> batch = [demo_note]"
  by (auto simp: ledger_page_def cursor_arg_def activity_list_def demo_task_id list_limit_arg_def
      after_event_arg_def activity_request_def bindE_apply demo_transport_def demo_event_def parse_event_def
      row_text_def check_events_def demo_inspector_def demo_note_def split: option.splits if_split_asm)

theorem ledger_reading_ends_witness: "\<exists>r w'. all_events demo_inspector ''t1'' () = Some (r, w')"
proof (rule ledger_reading_ends)
  fix c w batch w'
  assume "ledger_page demo_inspector ''t1'' c w = (Inr batch, w')"
  then show "list_all (\<lambda>e. ev_event_id e \<le> 7) batch"
    using demo_page_events [of c batch w'] by (simp add: demo_note_def)
qed

text \<open>Reading the ledger is complete: on a host that serves an ordered ledger in pages, the loop
  returns exactly the ledger, however long it is.\<close>

theorem ledger_reading_is_complete:
  assumes "serves_ledger ri tid ledger" and "sorted_wrt (<) (map ev_event_id ledger)"
  shows "all_events ri tid w = Some (Inr ledger, w)"
proof -
  have "filter (after_cursor None) ledger = ledger" by (simp add: after_cursor_def)
  with read_pages_complete [OF assms, of None "[]" w] show ?thesis by (simp add: all_events_def)
qed

text \<open>A host that serves a ledger with one event.\<close>

definition serving_inspector :: "unit inspector" where
  "serving_inspector = demo_inspector\<lparr>ri_activity := (\<lambda>mode p w.
     (Inr (PDict [(''success'', PBool True), (''events'', PList
        (case dict_get p ''after_event_id'' of
           PInt n \<Rightarrow> if n < 7 then [demo_event 7 [(''task_id'', PStr ''t1''), (''event_type'', PStr ''note''), (''payload'', PDict [])]]
                     else []
         | _ \<Rightarrow> [demo_event 7 [(''task_id'', PStr ''t1''), (''event_type'', PStr ''note''), (''payload'', PDict [])]]))]), w))\<rparr>"

lemma serving: "serves_ledger serving_inspector ''t1'' [demo_note]"
  by (auto simp: serves_ledger_def ledger_page_def cursor_arg_def activity_list_def demo_task_id list_limit_arg_def
      after_event_arg_def activity_request_def bindE_apply demo_event_def parse_event_def after_cursor_def
      row_text_def check_events_def serving_inspector_def demo_note_def split: option.splits)

theorem ledger_reading_is_complete_witness:
  "all_events serving_inspector ''t1'' () = Some (Inr [demo_note], ())"
  by (rule ledger_reading_is_complete [OF serving]) simp

section \<open>Reports and proposals\<close>

lemma inspect_snapshot_Inr:
  assumes "inspect_snapshot ri spec w = Some (Inr (l, rep), w')"
  obtains w1 w2 events obs vers expired where
    "queue_inspect (ri_queue ri) spec w = (Inr l, w1)" and "lease_ok l" and "same_spec (ql_spec l) spec"
    and "all_events ri (sp_task_id spec) w1 = Some (Inr events, w2)"
    and "current_generation_evidence l events = Inr (obs, vers)"
    and "lease_expiry ri l w2 = Inr expired" and "report_of l expired obs vers = Inr rep"
proof -
  obtain w1 w2 events obs vers expired where *: "TaskSpec_validate spec = Inr ()"
    "inspect_queue ri spec w = (Inr l, w1)" "all_events ri (sp_task_id spec) w1 = Some (Inr events, w2)"
    "current_generation_evidence l events = Inr (obs, vers)" "lease_expiry ri l w2 = Inr expired"
    "report_of l expired obs vers = Inr rep"
    using assms unfolding inspect_snapshot_def
    by (auto simp: bindP_eq_Inr bindR_eq_Inr)
  then have insp: "queue_inspect (ri_queue ri) spec w = (Inr l, w1)"
    by (auto simp: inspect_queue_def tryE_apply split: prod.splits sum.splits if_splits)
  then have "\<exists>now v. parse_lease now (Some spec) v = Inr l"
    by (auto simp: queue_inspect_def bindE_eq_Inr at_clock_apply)
  with parse_lease_ok that insp * show thesis by blast
qed

text \<open>What a report may say of the row and the evidence it was made from.\<close>

definition report_sound :: "queue_lease \<Rightarrow> recovery_report \<Rightarrow> bool" where
  "report_sound l rep \<longleftrightarrow>
     rp_task_id rep = ql_task_id l \<and> rp_checkpoint_status rep = ql_status l \<and> rp_revision rep = ql_revision l \<and>
     rp_lease_generation rep = ql_lease_generation l \<and>
     (rp_reexecution_allowed rep \<longleftrightarrow> ql_status l = ''queued'' \<and> ql_attempt_count l = 0 \<and>
        rp_observation_events rep = 0 \<and> rp_verification_events rep = 0) \<and>
     (rp_may_reconcile_expired_to_blocked rep \<longleftrightarrow> ql_status l = ''running'' \<and> rp_lease_expired rep = Some True) \<and>
     (rp_classification rep = ''running_active_do_not_touch'' \<longleftrightarrow>
        ql_status l = ''running'' \<and> rp_lease_expired rep = Some False) \<and>
     (rp_classification rep = ''queued_unstarted'' \<longleftrightarrow> ql_status l = ''queued'' \<and> ql_attempt_count l = 0)"

lemma lease_expiry_running:
  "lease_expiry ri l w = Inr expired \<Longrightarrow> ql_status l = ''running'' \<Longrightarrow> \<exists>b. expired = Some b"
  by (auto simp: lease_expiry_def bindR_eq_Inr split: option.splits if_splits)

lemma classify_meaning:
  assumes cls: "classify l expired obs vers = Inr (c, m, x)"
    and exp: "ql_status l = ''running'' \<Longrightarrow> \<exists>b. expired = Some b"
  shows "(x \<longleftrightarrow> ql_status l = ''queued'' \<and> ql_attempt_count l = 0 \<and> obs = [] \<and> vers = []) \<and>
      (m \<longleftrightarrow> ql_status l = ''running'' \<and> expired = Some True) \<and>
      (c = ''running_active_do_not_touch'' \<longleftrightarrow> ql_status l = ''running'' \<and> expired = Some False) \<and>
      (c = ''queued_unstarted'' \<longleftrightarrow> ql_status l = ''queued'' \<and> ql_attempt_count l = 0)"
proof -
  consider (queued) "ql_status l = ''queued''" | (active) "ql_status l = ''running''" "expired = Some False"
    | (expired) "ql_status l = ''running''" "expired = Some True"
    | (rest) "ql_status l \<noteq> ''queued''" "ql_status l \<noteq> ''running''"
    using exp by fastforce
  then show ?thesis
  proof cases
    case queued
    have "(if ql_attempt_count l = 0 then ''queued_unstarted'' else ''queued_with_prior_attempt_requires_review'',
        False, ql_attempt_count l = 0 \<and> obs = [] \<and> vers = []) = (c, m, x)"
      using cls by (simp add: classify_def Let_def queued)
    then show ?thesis using queued by (auto split: if_split_asm)
  next
    case active
    then show ?thesis using cls by (auto simp: classify_def Let_def)
  next
    case expired
    then have "m" "\<not> x" "c \<noteq> ''running_active_do_not_touch''" "c \<noteq> ''queued_unstarted''"
      using cls by (auto simp: classify_def Let_def split: if_split_asm)
    with expired show ?thesis by simp
  next
    case rest
    then have "\<not> m" "\<not> x" "c \<noteq> ''running_active_do_not_touch''" "c \<noteq> ''queued_unstarted''"
      using cls by (auto simp: classify_def Let_def split: if_split_asm)
    with rest show ?thesis by simp
  qed
qed

lemma report_of_sound:
  assumes "report_of l expired obs vers = Inr rep" and "ql_status l = ''running'' \<Longrightarrow> \<exists>b. expired = Some b"
  shows "report_sound l rep \<and> rp_lease_expired rep = expired"
proof -
  obtain c m x where cls: "classify l expired obs vers = Inr (c, m, x)"
    and rep: "rp_task_id rep = ql_task_id l" "rp_checkpoint_status rep = ql_status l" "rp_revision rep = ql_revision l"
      "rp_lease_generation rep = ql_lease_generation l" "rp_lease_expired rep = expired"
      "rp_observation_events rep = length obs" "rp_verification_events rep = length vers"
      "rp_classification rep = c" "rp_may_reconcile_expired_to_blocked rep = m" "rp_reexecution_allowed rep = x"
    using assms(1) by (auto simp: report_of_def bindR_eq_Inr)
  have "(x \<longleftrightarrow> ql_status l = ''queued'' \<and> ql_attempt_count l = 0 \<and> obs = [] \<and> vers = []) \<and>
      (m \<longleftrightarrow> ql_status l = ''running'' \<and> expired = Some True) \<and>
      (c = ''running_active_do_not_touch'' \<longleftrightarrow> ql_status l = ''running'' \<and> expired = Some False) \<and>
      (c = ''queued_unstarted'' \<longleftrightarrow> ql_status l = ''queued'' \<and> ql_attempt_count l = 0)"
    by (rule classify_meaning [OF cls assms(2)])
  with rep show ?thesis by (simp add: report_sound_def)
qed

lemma inspect_snapshot_sound:
  assumes "inspect_snapshot ri spec w = Some (Inr (l, rep), w')"
  shows "lease_ok l \<and> same_spec (ql_spec l) spec \<and> report_sound l rep \<and>
    (\<exists>w1. queue_inspect (ri_queue ri) spec w = (Inr l, w1))"
  using assms
proof (rule inspect_snapshot_Inr)
  fix w1 w2 events obs vers expired
  assume insp: "queue_inspect (ri_queue ri) spec w = (Inr l, w1)" and ok: "lease_ok l" "same_spec (ql_spec l) spec"
    and exp: "lease_expiry ri l w2 = Inr expired" and rep: "report_of l expired obs vers = Inr rep"
  from report_of_sound [OF rep lease_expiry_running [OF exp]] insp ok show ?thesis by simp
qed

text \<open>A recovery report allows execution exactly for a queued row without a prior attempt and
  without evidence of the current generation, and a reconciliation exactly for a running row
  whose lease has expired; a row whose lease is active is marked as not to be touched. Completed,
  blocked and failed rows allow neither.\<close>

theorem recovery_report_is_cautious:
  assumes "recovery_inspect ri spec w = Some (Inr rep, w')"
  shows "\<exists>l w1. queue_inspect (ri_queue ri) spec w = (Inr l, w1) \<and> lease_ok l \<and> report_sound l rep"
proof -
  obtain l where snap: "inspect_snapshot ri spec w = Some (Inr (l, rep), w')"
    using assms by (auto simp: recovery_inspect_def bindP_eq_Inr)
  from inspect_snapshot_sound [OF this] show ?thesis by blast
qed







lemma demo_snapshot:
  "\<exists>rep. inspect_snapshot demo_inspector demo_spec () = Some (Inr (demo_lease demo_crashed ''running'' 4, rep), ()) \<and>
     rp_may_reconcile_expired_to_blocked rep"
proof -
  have insp: "inspect_queue demo_inspector demo_spec () = (Inr (demo_lease demo_crashed ''running'' 4), ())"
    by (simp add: inspect_queue_def tryE_apply queue_inspect_def demo_detached demo_inspector_def queue_request_def
        bindE_apply demo_transport_def at_clock_apply demo_parse demo_crashed_clean)
  have evs: "all_events demo_inspector ''t1'' () = Some (Inr [demo_note], ())"
    by (simp add: all_events_def read_pages.simps demo_page)
  have none: "current_generation_evidence l [demo_note] = Inr ([], [])" for l
    by (simp add: classify_event_def demo_note_def)
  have ts: "parse_timestamp ''2024-01-01T00:00:00Z'' = Inr 1704067200000000"
    by code_simp
  have exp: "lease_expiry demo_inspector (demo_lease demo_crashed ''running'' 4) () = Inr (Some True)"
    by (simp add: lease_expiry_def demo_lease_def demo_inspector_def aware_def instant_def ts)
  obtain rep where rep: "report_of (demo_lease demo_crashed ''running'' 4) (Some True) [] [] = Inr rep"
      "rp_may_reconcile_expired_to_blocked rep"
    by (simp add: report_of_def classify_def demo_lease_def latest_def)
  then show ?thesis
    by (simp add: inspect_snapshot_def bindP_def demo_detached insp evs none exp del: current_generation_evidence.simps)
qed

theorem recovery_report_is_cautious_witness:
  "\<exists>rep. recovery_inspect demo_inspector demo_spec () = Some (Inr rep, ()) \<and> \<not> rp_reexecution_allowed rep \<and>
     rp_may_reconcile_expired_to_blocked rep"
proof -
  obtain rep where rep: "recovery_inspect demo_inspector demo_spec () = Some (Inr rep, ())"
      "rp_may_reconcile_expired_to_blocked rep"
    using demo_snapshot by (auto simp: recovery_inspect_def bindP_def)
  from recovery_report_is_cautious [OF rep(1)] rep show ?thesis by (auto simp: report_sound_def)
qed


text \<open>
  A queued row without an attempt is called eligible for a first execution, with the reason
  that no evidence was observed, even when the report counts evidence and refuses execution.
\<close>

theorem eligible_despite_evidence:
  assumes "ql_status l = ''queued''" and "ql_attempt_count l = 0" and "obs \<noteq> []"
  shows "\<exists>rep p. report_of l None obs vers = Inr rep \<and> rp_observation_events rep > 0 \<and> \<not> rp_reexecution_allowed rep \<and>
    proposal_of now l rep = Inr p \<and> pr_proposed_action p = ''eligible_for_first_execution''"
  using assms by (simp add: report_of_def classify_def proposal_of_def make_proposal_def)

section \<open>Checkpoints\<close>

lemma checkpoint_save_Inr:
  assumes "checkpoint_save h spec st (PInt revision) w = (Inr r, w')"
  shows "record_ok spec r \<and> cr_revision r = revision + 1"
  using assms
  by (auto simp: checkpoint_save_def bindE_eq_Inr at_clock_apply revision_arg_def split: if_split_asm
      dest: parse_full_record_ok)

text \<open>A checkpoint is accepted for a resume only when it belongs to the specification that was
  asked for: the same task and specification, the fingerprint of the specification in the row and
  in the state, and a state status that matches the row. This holds of creation, of reading and of
  a save, whose record is one revision after the expected one. The transport may answer
  anything.\<close>

theorem checkpoint_belongs_to_spec:
  assumes "checkpoint_create h spec state key w = (Inr r, w') \<or> checkpoint_get h spec w = (Inr r, w') \<or>
    checkpoint_save h spec st (PInt revision) w = (Inr r, w')"
  shows "record_ok spec r \<and> (checkpoint_save h spec st (PInt revision) w = (Inr r, w') \<longrightarrow> cr_revision r = revision + 1)"
proof -
  have "record_ok spec r" if "checkpoint_create h spec state key w = (Inr r, w')"
    using that by (auto simp: checkpoint_create_def Let_def bindE_eq_Inr at_clock_apply split: if_split_asm
        dest: parse_full_record_ok)
  moreover have "record_ok spec r" if "checkpoint_get h spec w = (Inr r, w')"
    using that by (auto simp: checkpoint_get_def bindE_eq_Inr at_clock_apply dest: parse_full_record_ok)
  ultimately show ?thesis using assms checkpoint_save_Inr [of h spec st revision w r w'] by blast
qed

lemma demo_checkpoint:
  "\<exists>r. checkpoint_get demo_queue demo_spec () = (Inr r, ()) \<and> cr_state r = demo_crashed"
proof -
  have models: "row_models now e (TaskSpec_to_dict demo_spec) (TaskState_to_dict demo_crashed) = Inr (demo_spec, demo_crashed)" for now e
    by (simp add: row_models_def TaskSpec_roundtrip TaskState_roundtrip)
  show ?thesis
    using demo_spec_eq
    by (simp add: checkpoint_get_def demo_detached checkpoint_request_def bindE_apply demo_transport_def at_clock_apply
        parse_full_record_def demo_row_def both_dicts_def models ROW_STATUSES_def parse_revision_def int_arg_def
        checkpoint_text_def del: py_eq.simps(8))
qed

theorem checkpoint_belongs_to_spec_witness:
  "\<exists>r. checkpoint_get demo_queue demo_spec () = (Inr r, ()) \<and> record_ok demo_spec r"
proof -
  obtain r where r: "checkpoint_get demo_queue demo_spec () = (Inr r, ())" using demo_checkpoint by blast
  with checkpoint_belongs_to_spec [of demo_queue demo_spec None None "()" r "()" undefined 0] show ?thesis by blast
qed

end
