(* ===== verification/Queue_Planner.thy ===== *)
theory Queue_Planner
  imports Py_Datetime "HOL-Library.Multiset"
begin

text \<open>
  The queue planner, \<^verbatim>\<open>src/agent_core/queue_planner.py\<close>: a pure function from the rows of one
  owner to a decision per row, in order of creation. Counters and identities have static types
  here, so the tests of the source that only fail for values of other types do not occur.

  The plan proposes claims within the capacity that running rows leave, oldest first.
\<close>

record queue_entry =
  qe_owner_id :: string
  qe_task_id :: string
  qe_idempotency_key :: string
  qe_revision :: int
  qe_status :: string
  qe_created_at :: datetime
  qe_not_before :: datetime
  qe_attempts :: int
  qe_max_attempts :: int
  qe_lease_expires_at :: "datetime option"

definition require_aware :: "datetime \<Rightarrow> unit res" where
  "require_aware d = (if aware d then Inr () else value_error ''timezone_aware_timestamp_required'')"

definition entry_validate :: "queue_entry \<Rightarrow> unit res" where
  "entry_validate e =
     (if list_ex blank [qe_owner_id e, qe_task_id e, qe_idempotency_key e] then value_error ''queue_identity_required''
      else if qe_status e \<notin> {''queued'', ''running'', ''blocked'', ''completed'', ''failed''}
      then value_error ''invalid_queue_status''
      else if list_ex (\<lambda>n. n < 0) [qe_revision e, qe_attempts e, qe_max_attempts e]
      then value_error ''invalid_queue_counter''
      else if qe_max_attempts e < 1 \<or> qe_attempts e > qe_max_attempts e then value_error ''invalid_attempt_budget''
      else
        bindR (require_aware (qe_created_at e)) (\<lambda>_.
        bindR (require_aware (qe_not_before e)) (\<lambda>_.
        case qe_lease_expires_at e of
          None \<Rightarrow> Inr ()
        | Some x \<Rightarrow> bindR (require_aware x) (\<lambda>_.
            if qe_status e \<noteq> ''running'' then value_error ''lease_requires_running_status'' else Inr ()))))"

record queue_decision =
  qd_owner_id :: string
  qd_task_id :: string
  qd_expected_revision :: int
  qd_disposition :: string
  qd_reason :: string

text \<open>The loop that checks the rows, with its sets \<open>ids\<close> and \<open>keys\<close>.\<close>

fun check_rows :: "string \<Rightarrow> string list \<Rightarrow> string list \<Rightarrow> queue_entry list \<Rightarrow> unit res" where
  "check_rows owner ids keys [] = Inr ()"
| "check_rows owner ids keys (e # es) =
     bindR (entry_validate e) (\<lambda>_.
       if qe_owner_id e \<noteq> owner then value_error ''queue_owner_scope_mismatch''
       else if qe_task_id e \<in> set ids \<or> qe_idempotency_key e \<in> set keys then value_error ''duplicate_queue_identity''
       else check_rows owner (qe_task_id e # ids) (qe_idempotency_key e # keys) es)"

text \<open>The sort key \<open>(created_at, task_id)\<close>; aware times compare by their instants.\<close>

definition fifo_le :: "queue_entry \<Rightarrow> queue_entry \<Rightarrow> bool" where
  "fifo_le a b \<longleftrightarrow> instant (qe_created_at a) < instant (qe_created_at b) \<or>
     (instant (qe_created_at a) = instant (qe_created_at b) \<and> qe_task_id a \<le> qe_task_id b)"

text \<open>\<open>sorted\<close> with that key: a stable insertion sort.\<close>

fun fifo_insert :: "queue_entry \<Rightarrow> queue_entry list \<Rightarrow> queue_entry list" where
  "fifo_insert e [] = [e]"
| "fifo_insert e (x # xs) = (if fifo_le e x then e # x # xs else x # fifo_insert e xs)"

definition fifo_sort :: "queue_entry list \<Rightarrow> queue_entry list" where
  "fifo_sort es = foldr fifo_insert es []"

text \<open>Disposition and reason of a row when \<open>slots\<close> claims are left.\<close>

definition dispose :: "datetime \<Rightarrow> int \<Rightarrow> queue_entry \<Rightarrow> string \<times> string" where
  "dispose now slots e =
     (if qe_status e \<in> {''completed'', ''blocked'', ''failed''} then (''skip'', ''terminal_state'')
      else if qe_status e = ''running'' then
        (if (case qe_lease_expires_at e of None \<Rightarrow> True | Some x \<Rightarrow> instant x \<le> instant now)
         then (''reconcile'', ''running_outcome_unknown'') else (''wait'', ''active_lease''))
      else if qe_attempts e \<ge> qe_max_attempts e then (''reconcile'', ''attempt_budget_exhausted'')
      else if instant (qe_created_at e) > instant now \<or> instant (qe_not_before e) > instant now
      then (''wait'', ''not_due'')
      else if slots = 0 then (''wait'', ''capacity_exhausted'')
      else (''propose_claim'', ''requires_atomic_claim_and_preflight''))"

fun decide :: "string \<Rightarrow> datetime \<Rightarrow> int \<Rightarrow> queue_entry list \<Rightarrow> queue_decision list" where
  "decide owner now slots [] = []"
| "decide owner now slots (e # es) =
     (let (d, r) = dispose now slots e
      in \<lparr>qd_owner_id = owner, qd_task_id = qe_task_id e, qd_expected_revision = qe_revision e,
          qd_disposition = d, qd_reason = r\<rparr>
         # decide owner now (if d = ''propose_claim'' then slots - 1 else slots) es)"

definition running_rows :: "queue_entry list \<Rightarrow> int" where
  "running_rows es = int (length (filter (\<lambda>e. qe_status e = ''running'') es))"

definition plan_queue :: "queue_entry list \<Rightarrow> string \<Rightarrow> datetime \<Rightarrow> pyval \<Rightarrow> queue_decision list res" where
  "plan_queue entries owner now capacity =
     bindR (require_aware now) (\<lambda>_.
     if blank owner then value_error ''owner_scope_required''
     else
       case capacity of
         PInt c \<Rightarrow>
           if c < 1 then value_error ''positive_capacity_required''
           else
             bindR (check_rows owner [] [] entries) (\<lambda>_.
             Inr (decide owner now (max 0 (c - running_rows entries)) (fifo_sort entries)))
       | _ \<Rightarrow> value_error ''positive_capacity_required'')"

section \<open>Order\<close>

lemma fifo_total: "fifo_le a b \<or> fifo_le b a"
  by (auto simp: fifo_le_def)

lemma fifo_trans: "fifo_le a b \<Longrightarrow> fifo_le b c \<Longrightarrow> fifo_le a c"
  by (auto simp: fifo_le_def)

lemma mset_fifo_insert [simp]: "mset (fifo_insert e es) = add_mset e (mset es)"
  by (induction es) auto

lemma mset_fifo_sort [simp]: "mset (fifo_sort es) = mset es"
  by (induction es) (simp_all add: fifo_sort_def)

lemma set_fifo_sort [simp]: "set (fifo_sort es) = set es"
  by (metis mset_fifo_sort set_mset_mset)

lemma sorted_fifo_insert: "sorted_wrt fifo_le es \<Longrightarrow> sorted_wrt fifo_le (fifo_insert e es)"
proof (induction es)
  case (Cons x xs)
  have "set (fifo_insert e xs) = insert e (set xs)"
    by (metis mset_fifo_insert set_mset_add_mset_insert set_mset_mset)
  with Cons show ?case using fifo_total fifo_trans by auto
qed simp

lemma sorted_fifo_sort: "sorted_wrt fifo_le (fifo_sort es)"
  by (induction es) (simp_all add: fifo_sort_def sorted_fifo_insert)

section \<open>Decisions\<close>

definition proposed :: "queue_decision list \<Rightarrow> queue_decision list" where
  "proposed ds = filter (\<lambda>d. qd_disposition d = ''propose_claim'') ds"

text \<open>A row that may be claimed: queued, due, with attempts left.\<close>

definition claimable :: "datetime \<Rightarrow> queue_entry \<Rightarrow> bool" where
  "claimable now e \<longleftrightarrow> qe_status e = ''queued'' \<and> qe_attempts e < qe_max_attempts e \<and>
     instant (qe_created_at e) \<le> instant now \<and> instant (qe_not_before e) \<le> instant now"

text \<open>The specification of the proposals: the oldest claimable rows, as many as fit.\<close>

definition claim_order :: "datetime \<Rightarrow> queue_entry list \<Rightarrow> queue_entry list" where
  "claim_order now es = filter (claimable now) (fifo_sort es)"

lemma dispose_claim:
  assumes "entry_validate e = Inr ()"
  shows "fst (dispose now slots e) = ''propose_claim'' \<longleftrightarrow> claimable now e \<and> slots \<noteq> 0"
proof -
  have "qe_status e \<in> {''queued'', ''running'', ''blocked'', ''completed'', ''failed''}"
    using assms by (auto simp: entry_validate_def split: if_split_asm)
  then show ?thesis by (auto simp: dispose_def claimable_def split: option.splits)
qed

lemma decide_proposed:
  assumes "0 \<le> slots" and "list_all (\<lambda>e. entry_validate e = Inr ()) es"
  shows "map qd_task_id (proposed (decide owner now slots es)) = map qe_task_id (take (nat slots) (filter (claimable now) es))"
  using assms
proof (induction es arbitrary: slots)
  case Nil
  then show ?case by (simp add: proposed_def)
next
  case (Cons e es)
  obtain d r where dr: "dispose now slots e = (d, r)" by (cases "dispose now slots e")
  have d: "d = ''propose_claim'' \<longleftrightarrow> claimable now e \<and> slots \<noteq> 0"
    using dispose_claim [of e now slots] dr Cons.prems(2) by simp
  show ?case
  proof (cases "claimable now e \<and> slots \<noteq> 0")
    case True
    with Cons.prems(1) have "nat slots = Suc (nat (slots - 1))" by arith
    with True d dr Cons.IH [of "slots - 1"] Cons.prems show ?thesis
      by (simp add: proposed_def)
  next
    case False
    with d dr Cons.IH [of slots] Cons.prems show ?thesis
      by (cases "claimable now e") (auto simp: proposed_def)
  qed
qed

lemma decide_tasks: "map qd_task_id (decide owner now slots es) = map qe_task_id es"
  by (induction es arbitrary: slots) (auto split: prod.splits)

lemma decide_owner: "list_all (\<lambda>d. qd_owner_id d = owner) (decide owner now slots es)"
  by (induction es arbitrary: slots) (auto split: prod.splits)

lemma check_rows_ok:
  assumes "check_rows owner ids keys es = Inr ()"
  shows "list_all (\<lambda>e. entry_validate e = Inr () \<and> qe_owner_id e = owner) es \<and>
    distinct (map qe_task_id es) \<and> set (map qe_task_id es) \<inter> set ids = {} \<and> distinct (map qe_idempotency_key es) \<and>
    set (map qe_idempotency_key es) \<inter> set keys = {}"
  using assms
proof (induction es arbitrary: ids keys)
  case (Cons e es)
  have rest: "check_rows owner (qe_task_id e # ids) (qe_idempotency_key e # keys) es = Inr ()"
    and e: "entry_validate e = Inr ()" "qe_owner_id e = owner" "qe_task_id e \<notin> set ids" "qe_idempotency_key e \<notin> set keys"
    using Cons.prems by (auto simp: bindR_eq_Inr split: if_split_asm)
  from Cons.IH [OF rest] e show ?case by auto
qed simp

lemma plan_queue_Inr:
  assumes "plan_queue es owner now capacity = Inr ds"
  obtains c where "capacity = PInt c" and "1 \<le> c" and "aware now" and "check_rows owner [] [] es = Inr ()"
    and "ds = decide owner now (max 0 (c - running_rows es)) (fifo_sort es)"
  using assms
  by (cases capacity) (auto simp: plan_queue_def bindR_eq_Inr require_aware_def split: if_split_asm)

lemma nat_max_0: "nat (max 0 k) = nat k"
  by (simp add: max_def)

section \<open>Properties\<close>

text \<open>C10. The plan decides every row once, in order of creation and then of task id, for the owner
  asked for; and it proposes to claim exactly the oldest claimable rows (queued, due, with
  attempts left), as many as the capacity leaves beside the running rows.\<close>

theorem plan_claims_oldest_first:
  assumes "plan_queue es owner now (PInt capacity) = Inr ds"
  shows "map qd_task_id ds = map qe_task_id (fifo_sort es) \<and> sorted_wrt fifo_le (fifo_sort es) \<and>
    mset (fifo_sort es) = mset es \<and> distinct (map qd_task_id ds) \<and> list_all (\<lambda>d. qd_owner_id d = owner) ds \<and>
    map qd_task_id (proposed ds) =
      map qe_task_id (take (nat (capacity - running_rows es)) (claim_order now es))"
  using assms
proof (rule plan_queue_Inr)
  fix c
  assume c: "PInt capacity = PInt c" "check_rows owner [] [] es = Inr ()"
    and ds: "ds = decide owner now (max 0 (c - running_rows es)) (fifo_sort es)"
  note rows = check_rows_ok [OF c(2)]
  have "mset (map qe_task_id (fifo_sort es)) = mset (map qe_task_id es)" by simp
  then have "distinct (map qe_task_id (fifo_sort es))"
    using rows mset_eq_imp_distinct_iff by blast
  moreover have "list_all (\<lambda>e. entry_validate e = Inr ()) (fifo_sort es)"
    using rows by (auto simp: list_all_iff)
  ultimately show ?thesis
    using decide_proposed [of "max 0 (c - running_rows es)" "fifo_sort es" owner now] c(1)
      nat_max_0 [of "c - running_rows es"]
    by (simp add: ds decide_tasks decide_owner sorted_fifo_sort claim_order_def)
qed

definition demo_time :: "int \<Rightarrow> datetime" where
  "demo_time n = \<lparr>dt_local = n, dt_offset = Some 0\<rparr>"

definition demo_entry :: "string \<Rightarrow> string \<Rightarrow> int \<Rightarrow> queue_entry" where
  "demo_entry tid status created =
     \<lparr>qe_owner_id = ''o'', qe_task_id = tid, qe_idempotency_key = tid, qe_revision = 1, qe_status = status,
      qe_created_at = demo_time created, qe_not_before = demo_time 0, qe_attempts = 0, qe_max_attempts = 2,
      qe_lease_expires_at = None\<rparr>"

lemma demo_plan:
  "map_option (map (\<lambda>d. (qd_task_id d, qd_disposition d))) (case plan_queue
      [demo_entry ''b'' ''queued'' 5, demo_entry ''r'' ''running'' 1, demo_entry ''a'' ''queued'' 3] ''o'' (demo_time 9) (PInt 2)
     of Inr ds \<Rightarrow> Some ds | Inl e \<Rightarrow> None) =
   Some [(''r'', ''reconcile''), (''a'', ''propose_claim''), (''b'', ''wait'')]"
  by code_simp

theorem plan_claims_oldest_first_witness:
  "\<exists>ds. plan_queue [demo_entry ''b'' ''queued'' 5, demo_entry ''r'' ''running'' 1, demo_entry ''a'' ''queued'' 3]
      ''o'' (demo_time 9) (PInt 2) = Inr ds \<and> map qd_task_id (proposed ds) = [''a'']"
proof -
  let ?es = "[demo_entry ''b'' ''queued'' 5, demo_entry ''r'' ''running'' 1, demo_entry ''a'' ''queued'' 3]"
  obtain ds where ds: "plan_queue ?es ''o'' (demo_time 9) (PInt 2) = Inr ds"
    using demo_plan by (auto split: sum.splits)
  have "map qe_task_id (take (nat (2 - running_rows ?es)) (claim_order (demo_time 9) ?es)) = [''a'']"
    by code_simp
  with plan_claims_oldest_first [OF ds] ds show ?thesis by auto
qed

section \<open>Rounds\<close>

text \<open>
  A round of work: the plan is made, the rows that it proposes are claimed, run and completed.
  Nothing else happens to the rows, the time stands, and rows that run already keep running. The
  rounds are returned with the tasks that they claimed, in order.
\<close>

definition complete_claimed :: "string list \<Rightarrow> queue_entry list \<Rightarrow> queue_entry list" where
  "complete_claimed ids es = map (\<lambda>e. if qe_task_id e \<in> set ids
     then e\<lparr>qe_status := ''completed'', qe_attempts := qe_attempts e + 1, qe_revision := qe_revision e + 1\<rparr> else e) es"

fun rounds :: "string \<Rightarrow> datetime \<Rightarrow> pyval \<Rightarrow> nat \<Rightarrow> queue_entry list \<Rightarrow> (string list \<times> queue_entry list) res" where
  "rounds owner now capacity 0 es = Inr ([], es)"
| "rounds owner now capacity (Suc k) es =
     bindR (plan_queue es owner now capacity) (\<lambda>ds.
     let ids = map qd_task_id (proposed ds) in
     bindR (rounds owner now capacity k (complete_claimed ids es)) (\<lambda>(log, es'). Inr (ids @ log, es')))"

lemma complete_keys [simp]:
  "map qe_task_id (complete_claimed ids es) = map qe_task_id es"
  "map qe_idempotency_key (complete_claimed ids es) = map qe_idempotency_key es"
  by (simp_all add: complete_claimed_def)

lemma fifo_insert_complete:
  "fifo_insert (hd (complete_claimed ids [e])) (complete_claimed ids es) = complete_claimed ids (fifo_insert e es)"
  by (induction es) (auto simp: complete_claimed_def fifo_le_def)

lemma fifo_sort_complete: "fifo_sort (complete_claimed ids es) = complete_claimed ids (fifo_sort es)"
proof (induction es)
  case (Cons e es)
  have "complete_claimed ids (e # es) = hd (complete_claimed ids [e]) # complete_claimed ids es"
    by (simp add: complete_claimed_def)
  then show ?case using Cons fifo_insert_complete by (simp add: fifo_sort_def)
qed (simp add: fifo_sort_def complete_claimed_def)

lemma filter_complete:
  "filter (claimable now) (complete_claimed ids es) = filter (\<lambda>e. claimable now e \<and> qe_task_id e \<notin> set ids) es"
  by (induction es) (auto simp: complete_claimed_def claimable_def)

lemma filter_drop_ids:
  assumes "distinct (map f xs)"
  shows "filter (\<lambda>x. f x \<notin> set (map f (take n xs))) xs = drop n xs"
proof -
  have d: "distinct (map f (take n xs @ drop n xs))" using assms by simp
  then have "f x \<notin> f ` set (take n xs)" if "x \<in> set (drop n xs)" for x
    using that by (auto simp del: append_take_drop_id)
  then have "filter (\<lambda>x. f x \<notin> set (map f (take n xs))) (take n xs @ drop n xs) = drop n xs"
    unfolding filter_append by (simp del: append_take_drop_id)
  then show ?thesis by simp
qed

lemma claim_order_complete:
  assumes "distinct (map qe_task_id es)"
  shows "claim_order now (complete_claimed (map qe_task_id (take n (claim_order now es))) es) = drop n (claim_order now es)"
proof -
  have "mset (map qe_task_id (fifo_sort es)) = mset (map qe_task_id es)" by simp
  then have "distinct (map qe_task_id (fifo_sort es))" using assms mset_eq_imp_distinct_iff by blast
  then have "distinct (map qe_task_id (claim_order now es))"
    unfolding claim_order_def by (rule distinct_map_filter)
  from filter_drop_ids [OF this, of n] show ?thesis
    by (simp add: claim_order_def fifo_sort_complete filter_complete filter_filter conj_commute del: set_map)
qed

text \<open>Claiming keeps the rows valid, and touches no running row.\<close>

definition claims_ok :: "datetime \<Rightarrow> string list \<Rightarrow> queue_entry list \<Rightarrow> bool" where
  "claims_ok now ids es \<longleftrightarrow> list_all (\<lambda>e. qe_task_id e \<in> set ids \<longrightarrow> claimable now e) es"

lemma complete_valid:
  assumes "entry_validate e = Inr ()" and "claimable now e"
  shows "entry_validate (e\<lparr>qe_status := ''completed'', qe_attempts := qe_attempts e + 1, qe_revision := qe_revision e + 1\<rparr>) = Inr ()"
  using assms by (auto simp: entry_validate_def claimable_def bindR_eq_Inr split: if_split_asm option.splits)

lemma check_rows_complete:
  assumes "check_rows owner a b es = Inr ()" and "claims_ok now ids es"
  shows "check_rows owner a b (complete_claimed ids es) = Inr ()"
  using assms
  by (induction es arbitrary: a b)
    (auto simp: complete_claimed_def claims_ok_def bindR_eq_Inr complete_valid split: if_split_asm)

lemma running_complete: "claims_ok now ids es \<Longrightarrow> running_rows (complete_claimed ids es) = running_rows es"
  by (induction es) (auto simp: running_rows_def complete_claimed_def claims_ok_def claimable_def)

lemma plan_claims_ok:
  assumes "distinct (map qe_task_id es)"
  shows "claims_ok now (map qe_task_id (take n (claim_order now es))) es"
proof -
  have "claimable now e" if e: "e \<in> set es" and i: "qe_task_id e \<in> qe_task_id ` set (take n (claim_order now es))" for e
  proof -
    obtain x where x: "qe_task_id x = qe_task_id e" "x \<in> set (claim_order now es)"
      using i by (auto dest: in_set_takeD)
    then have "x \<in> set es" "claimable now x" by (auto simp: claim_order_def)
    with x(1) e assms show ?thesis by (metis distinct_map inj_onD)
  qed
  then show ?thesis by (auto simp: claims_ok_def list_all_iff)
qed

lemma rounds_claim:
  assumes "aware now" and "\<not> blank owner" and "1 \<le> c" and "check_rows owner [] [] es = Inr ()"
  shows "\<exists>es'. rounds owner now (PInt c) k es =
      Inr (map qe_task_id (take (k * nat (c - running_rows es)) (claim_order now es)), es') \<and>
    claim_order now es' = drop (k * nat (c - running_rows es)) (claim_order now es) \<and>
    running_rows es' = running_rows es \<and> map qe_task_id es' = map qe_task_id es"
  using assms(4)
proof (induction k arbitrary: es)
  case (Suc k)
  let ?n = "nat (c - running_rows es)" and ?ids = "map qe_task_id (take (nat (c - running_rows es)) (claim_order now es))"
  let ?es = "complete_claimed ?ids es"
  have rows: "distinct (map qe_task_id es)" "list_all (\<lambda>e. entry_validate e = Inr ()) (fifo_sort es)"
    using check_rows_ok [OF Suc.prems] by (auto simp: list_all_iff)
  note ok = plan_claims_ok [OF rows(1), of now ?n]
  obtain ds where ds: "plan_queue es owner now (PInt c) = Inr ds"
      "ds = decide owner now (max 0 (c - running_rows es)) (fifo_sort es)"
    using assms(1-3) Suc.prems by (simp add: plan_queue_def require_aware_def)
  have ids: "map qd_task_id (proposed ds) = ?ids"
    using decide_proposed [OF _ rows(2), of "max 0 (c - running_rows es)" owner now]
    by (simp add: ds(2) nat_max_0 claim_order_def)
  obtain es' where es': "rounds owner now (PInt c) k ?es =
      Inr (map qe_task_id (take (k * ?n) (claim_order now ?es)), es')"
    "claim_order now es' = drop (k * ?n) (claim_order now ?es)" "running_rows es' = running_rows es"
    "map qe_task_id es' = map qe_task_id es"
    using Suc.IH [OF check_rows_complete [OF Suc.prems ok]] unfolding running_complete [OF ok] by auto
  note after = claim_order_complete [OF rows(1), of now ?n]
  have "take (Suc k * ?n) (claim_order now es) =
      take ?n (claim_order now es) @ take (k * ?n) (drop ?n (claim_order now es))"
    by (simp add: take_add)
  then show ?case
    using es' ds(1) ids unfolding after by (intro exI [of _ es']) (simp add: Let_def add.commute)
qed simp

text \<open>C37. No claimable row starves and none is overtaken. Over any number of rounds, whose proposals are
  claimed and completed, the tasks claimed are exactly the first ones in order of creation, as
  many per round as the capacity leaves beside the running rows, each once; the rows still
  claimable are the others in the same order; so where the capacity leaves one slot, as many rounds
  as there are claimable rows leave none.\<close>

theorem rounds_claim_in_order:
  assumes "aware now" and "\<not> blank owner" and "1 \<le> c" and "check_rows owner [] [] es = Inr ()"
  shows "\<exists>log es'. rounds owner now (PInt c) k es = Inr (log, es') \<and>
    log @ map qe_task_id (claim_order now es') = map qe_task_id (claim_order now es) \<and> distinct log \<and>
    length log = min (k * nat (c - running_rows es)) (length (claim_order now es)) \<and> running_rows es' = running_rows es \<and>
    (running_rows es < c \<and> length (claim_order now es) \<le> k \<longrightarrow> claim_order now es' = [])"
proof -
  let ?m = "k * nat (c - running_rows es)"
  obtain es' where r: "rounds owner now (PInt c) k es = Inr (map qe_task_id (take ?m (claim_order now es)), es')"
    "claim_order now es' = drop ?m (claim_order now es)" "running_rows es' = running_rows es"
    using rounds_claim [OF assms] by blast
  have "mset (map qe_task_id (fifo_sort es)) = mset (map qe_task_id es)" by simp
  then have "distinct (map qe_task_id (fifo_sort es))"
    using check_rows_ok [OF assms(4)] mset_eq_imp_distinct_iff by blast
  then have "distinct (map qe_task_id (claim_order now es))"
    unfolding claim_order_def by (rule distinct_map_filter)
  then have "distinct (map qe_task_id (take ?m (claim_order now es)))"
    unfolding take_map [symmetric] by (rule distinct_take)
  moreover have "length (claim_order now es) \<le> ?m" if "running_rows es < c" "length (claim_order now es) \<le> k"
  proof -
    have "1 \<le> nat (c - running_rows es)" using that(1) by linarith
    then have "k * 1 \<le> ?m" by (rule mult_le_mono2)
    with that(2) show ?thesis by linarith
  qed
  ultimately show ?thesis
    using r
    by (intro exI [of _ "map qe_task_id (take ?m (claim_order now es))"] exI [of _ es'])
      (auto simp: min.commute simp flip: map_append)
qed

theorem rounds_claim_in_order_witness:
  "\<exists>es'. rounds ''o'' (demo_time 9) (PInt 2) 2
      [demo_entry ''b'' ''queued'' 5, demo_entry ''r'' ''running'' 1, demo_entry ''a'' ''queued'' 3] = Inr ([''a'', ''b''], es') \<and>
    claim_order (demo_time 9) es' = []"
proof -
  let ?es = "[demo_entry ''b'' ''queued'' 5, demo_entry ''r'' ''running'' 1, demo_entry ''a'' ''queued'' 3]"
  have "aware (demo_time 9)" "\<not> blank ''o''" "check_rows ''o'' [] [] ?es = Inr ()" "running_rows ?es = 1"
    "map qe_task_id (claim_order (demo_time 9) ?es) = [''a'', ''b'']"
    by code_simp+
  then obtain log es' where "rounds ''o'' (demo_time 9) (PInt 2) 2 ?es = Inr (log, es')"
    "log @ map qe_task_id (claim_order (demo_time 9) es') = [''a'', ''b'']" "claim_order (demo_time 9) es' = []"
    using rounds_claim_in_order [of "demo_time 9" "''o''" 2 ?es 2] arg_cong [where f = length] by fastforce
  then show ?thesis by auto
qed

end
