(* ===== verification/Credential_Adapter.thy ===== *)
theory Credential_Adapter
  imports Tool_Registry Credential_Provider
begin

text \<open>
  The credential gate, \<^verbatim>\<open>src/agent_core/credential_adapter.py\<close>: an adapter whose actions each take a
  credential snapshot before they call the action they wrap, replace every exception by one of a
  fixed list, and refuse a result that holds the snapshot or the text of one of its secrets. The
  credential provider and the wrapped adapter are arguments.
\<close>

section \<open>Requirements\<close>

record credential_requirement =
  rq_action :: string
  rq_capabilities :: "string list"
  rq_minimum_ttl_seconds :: int
  rq_require_known_expiry :: bool

definition CredentialRequirement :: "pyval \<Rightarrow> pyval \<Rightarrow> pyval \<Rightarrow> pyval \<Rightarrow> credential_requirement res" where
  "CredentialRequirement action caps ttl known =
     (case action of
        PStr a \<Rightarrow>
          if blank a \<or> strip a \<noteq> a then value_error ''credential_requirement_action_invalid''
          else bindR (capabilities_arg caps) (\<lambda>cs.
               bindR (seconds_arg ttl ''credential_requirement_ttl_invalid'') (\<lambda>n.
               case known of
                 PBool k \<Rightarrow> Inr \<lparr>rq_action = a, rq_capabilities = cs, rq_minimum_ttl_seconds = n,
                                 rq_require_known_expiry = k\<rparr>
               | _ \<Rightarrow> value_error ''credential_requirement_known_expiry_invalid''))
      | _ \<Rightarrow> value_error ''credential_requirement_action_invalid'')"

section \<open>Objects that an action may return\<close>

text \<open>
  An object as the search for credential material sees it: a snapshot, a string, an \<open>ActionResult\<close>
  (message, artifacts, data), an \<open>ArtifactUpdate\<close> (identifier, kind, locator, metadata), a mapping, a
  list, tuple or set, or anything else. Objects are trees: one that contains itself is not
  modelled, and for trees the set of visited identities of the source changes nothing.
\<close>

datatype obj =
    OSnapshot credential_snapshot
  | OStr string
  | OResult obj obj obj
  | OUpdate obj obj obj obj
  | OMap "(obj \<times> obj) list"
  | OSeq "obj list"
  | OOther

fun contains_credential_material :: "string list \<Rightarrow> obj \<Rightarrow> bool" where
  "contains_credential_material secrets (OSnapshot _) = True"
| "contains_credential_material secrets (OStr s) = list_ex (\<lambda>secret. secret \<noteq> [] \<and> substring secret s) secrets"
| "contains_credential_material secrets (OResult message artifacts data) =
     (contains_credential_material secrets message \<or> contains_credential_material secrets artifacts \<or>
      contains_credential_material secrets data)"
| "contains_credential_material secrets (OUpdate artifact_id kind locator metadata) =
     (contains_credential_material secrets artifact_id \<or> contains_credential_material secrets kind \<or>
      contains_credential_material secrets locator \<or> contains_credential_material secrets metadata)"
| "contains_credential_material secrets (OMap items) =
     list_ex (\<lambda>p. contains_credential_material secrets (fst p) \<or> contains_credential_material secrets (snd p)) items"
| "contains_credential_material secrets (OSeq children) = list_ex (contains_credential_material secrets) children"
| "contains_credential_material secrets OOther = False"

text \<open>The values that the runner's model distinguishes, as objects. A generator is not searched.\<close>

fun obj_of_val :: "pyval \<Rightarrow> obj" where
  "obj_of_val (PStr s) = OStr s"
| "obj_of_val (PList xs) = OSeq (map obj_of_val xs)"
| "obj_of_val (PDict d) = OMap (map (\<lambda>p. (OStr (fst p), obj_of_val (snd p))) d)"
| "obj_of_val _ = OOther"

definition obj_of_update :: "artifact_update \<Rightarrow> obj" where
  "obj_of_update u = OUpdate (obj_of_val (au_artifact_id u)) (obj_of_val (au_kind u))
     (obj_of_val (au_locator u)) (obj_of_val (au_metadata u))"

fun obj_of_item :: "artifact_update + pyval \<Rightarrow> obj" where
  "obj_of_item (Inl u) = obj_of_update u"
| "obj_of_item (Inr v) = obj_of_val v"

text \<open>The entry \<open>artifacts\<close> of a dictionary; an empty list stands for an absent entry.\<close>

fun artifacts_entry :: "artifacts_value \<Rightarrow> (obj \<times> obj) list" where
  "artifacts_entry (Items []) = []"
| "artifacts_entry (Items its) = [(OStr ''artifacts'', OSeq (map obj_of_item its))]"
| "artifacts_entry _ = [(OStr ''artifacts'', OOther)]"

fun obj_of_action_value :: "action_value \<Rightarrow> obj" where
  "obj_of_action_value (AV_Result r) =
     OResult (OStr (rs_message r)) (OSeq (map obj_of_update (rs_artifacts r))) (obj_of_val (PDict (rs_data r)))"
| "obj_of_action_value (AV_Dict d av) =
     OMap (map (\<lambda>p. (OStr (fst p), obj_of_val (snd p))) d @ artifacts_entry av)"
| "obj_of_action_value _ = OOther"

text \<open>What a wrapped action returns: a value of the runner's model, or an object outside it.\<close>

datatype bound_value = Plain action_value | Object obj

fun obj_of_bound :: "bound_value \<Rightarrow> obj" where
  "obj_of_bound (Plain v) = obj_of_action_value v"
| "obj_of_bound (Object ob) = ob"

fun as_action_value :: "bound_value \<Rightarrow> action_value" where
  "as_action_value (Plain v) = v"
| "as_action_value (Object ob) = AV_Other"

section \<open>The gate\<close>

text \<open>
  The context of a wrapped action, with the entry \<open>CREDENTIAL_CONTEXT_KEY\<close> apart, whose value is not
  a plain value.
\<close>

abbreviation CREDENTIAL_CONTEXT_KEY :: string where
  "CREDENTIAL_CONTEXT_KEY \<equiv> ''_agent_credential_snapshot_v1''"

record local_context =
  lc_entries :: pydict
  lc_snapshot :: "credential_snapshot option"

definition with_snapshot :: "pydict \<Rightarrow> credential_snapshot \<Rightarrow> local_context" where
  "with_snapshot ctx snap = \<lparr>lc_entries = AList.delete CREDENTIAL_CONTEXT_KEY ctx, lc_snapshot = Some snap\<rparr>"

definition require_credential_snapshot :: "local_context \<Rightarrow> credential_snapshot res" where
  "require_credential_snapshot lc =
     (case lc_snapshot lc of None \<Rightarrow> Inl (Exc RuntimeError ''credential_context_missing'') | Some s \<Rightarrow> Inr s)"

definition secret_values :: "credential_snapshot \<Rightarrow> string list res" where
  "secret_values snap = mapR (\<lambda>n. snapshot_secret snap (PStr n)) (secret_names snap)"

type_synonym 'w bound_action = "pydict \<Rightarrow> local_context \<Rightarrow> ('w, bound_value) eff"

text \<open>
  \<open>provider.snapshot(capabilities, minimum_ttl_seconds=, require_known_expiry=)\<close>; \<open>None\<close> is an object
  that is not a snapshot.
\<close>

type_synonym 'w credential_source = "string list \<Rightarrow> int \<Rightarrow> bool \<Rightarrow> ('w, credential_snapshot option) eff"

definition credential_failure :: "exc \<Rightarrow> exc" where
  "credential_failure e =
     (if catches CredentialProviderError e then Exc BlockedAction ''credential_unavailable''
      else if catches KeyboardInterrupt e then Exc KeyboardInterrupt ''credential_provider_interrupted''
      else if catches SystemExit e then Exc SystemExit ''credential_provider_interrupted''
      else Exc BlockedAction ''credential_provider_failure'')"

definition provider_failure :: "exc \<Rightarrow> exc" where
  "provider_failure e =
     (if catches BlockedAction e then Exc BlockedAction ''credential_bound_provider_action_blocked''
      else if catches KeyboardInterrupt e then Exc KeyboardInterrupt ''credential_bound_provider_action_interrupted''
      else if catches SystemExit e then Exc SystemExit ''credential_bound_provider_action_interrupted''
      else Exc SafeActionError ''credential_bound_provider_action_failed'')"

definition gate_acquire :: "'w credential_source \<Rightarrow> credential_requirement \<Rightarrow> ('w, credential_snapshot) eff" where
  "gate_acquire source req =
     bindE (tryE (source (rq_capabilities req) (rq_minimum_ttl_seconds req) (rq_require_known_expiry req))
              (\<lambda>e. raiseE (credential_failure e))) (\<lambda>snapshot.
     case snapshot of
       None \<Rightarrow> raiseE (Exc BlockedAction ''credential_provider_invalid_snapshot'')
     | Some snap \<Rightarrow> retE snap)"

definition gate_invoke ::
  "'w credential_source \<Rightarrow> credential_requirement \<Rightarrow> 'w bound_action \<Rightarrow> 'w action" where
  "gate_invoke source req impl args ctx =
     bindE (gate_acquire source req) (\<lambda>snap.
     bindE (liftE (secret_values snap)) (\<lambda>secrets.
     bindE (tryE (impl args (with_snapshot ctx snap)) (\<lambda>e. raiseE (provider_failure e))) (\<lambda>result.
     if contains_credential_material secrets (obj_of_bound result)
     then raiseE (Exc SafeActionError ''credential_material_return_forbidden'')
     else retE (as_action_value result))))"

section \<open>The adapter\<close>

record 'w bound_adapter =
  ba_name :: string
  ba_capabilities :: "capability list"
  ba_actions :: "(string \<times> 'w bound_action) list"

datatype requirement_value = Requirement credential_requirement | NotRequirement

record 'w credential_adapter =
  ca_name :: string
  ca_provider :: "'w credential_source"
  ca_capabilities :: "capability list"
  ca_actions :: "(string \<times> 'w bound_action) list"
  ca_requirements :: "(string \<times> credential_requirement) list"

fun requirement_map ::
  "requirement_value list \<Rightarrow> (string \<times> credential_requirement) list \<Rightarrow> (string \<times> credential_requirement) list res" where
  "requirement_map [] m = Inr m"
| "requirement_map (NotRequirement # rest) m = value_error ''credential_requirement_invalid''"
| "requirement_map (Requirement r # rest) m =
     (if rq_action r \<in> set (map fst m) then value_error ''duplicate_credential_requirement''
      else requirement_map rest (AList.update (rq_action r) r m))"

definition CredentialBoundToolAdapter ::
  "'w bound_adapter option \<Rightarrow> 'w credential_source option \<Rightarrow> requirement_value list \<Rightarrow> 'w credential_adapter res" where
  "CredentialBoundToolAdapter adapter provider requirements =
     (case adapter of
        None \<Rightarrow> value_error ''credential_adapter_required''
      | Some inner \<Rightarrow>
         (case provider of
            None \<Rightarrow> value_error ''credential_provider_required''
          | Some source \<Rightarrow>
              let caps = ba_capabilities inner; actions = dict_update [] (ba_actions inner) in
              if \<not> distinct (map cap_action caps) \<or> set (map cap_action caps) \<noteq> set (map fst actions)
              then value_error ''credential_adapter_action_contract_mismatch''
              else
                bindR (requirement_map requirements []) (\<lambda>rm.
                if \<not> same_keys rm actions then value_error ''credential_requirements_must_cover_all_actions''
                else Inr \<lparr>ca_name = ''credential-gated:'' @ ba_name inner, ca_provider = source, ca_capabilities = caps,
                          ca_actions = actions, ca_requirements = rm\<rparr>)))"

text \<open>\<open>self._requirements[action_name]\<close> exists for every action.\<close>

definition gated_action :: "'w credential_adapter \<Rightarrow> string \<Rightarrow> 'w bound_action \<Rightarrow> 'w action" where
  "gated_action ca a impl =
     (case map_of (ca_requirements ca) a of
        None \<Rightarrow> (\<lambda>args ctx. raiseE (Exc KeyError a))
      | Some req \<Rightarrow> gate_invoke (ca_provider ca) req impl)"

definition credential_adapter_actions :: "'w credential_adapter \<Rightarrow> (string \<times> 'w action) list" where
  "credential_adapter_actions ca = map (\<lambda>(a, impl). (a, gated_action ca a impl)) (ca_actions ca)"

text \<open>The gate as an adapter that a registry takes.\<close>

definition gate_adapter :: "'w credential_adapter \<Rightarrow> 'w adapter" where
  "gate_adapter ca = \<lparr>ad_name = ca_name ca, ad_capabilities = ca_capabilities ca,
     ad_actions = credential_adapter_actions ca\<rparr>"

section \<open>What the search finds\<close>

text \<open>The strings of an object, and whether it holds a snapshot.\<close>

fun obj_strings :: "obj \<Rightarrow> string list" where
  "obj_strings (OStr s) = [s]"
| "obj_strings (OResult a b c) = obj_strings a @ obj_strings b @ obj_strings c"
| "obj_strings (OUpdate a b c d) = obj_strings a @ obj_strings b @ obj_strings c @ obj_strings d"
| "obj_strings (OMap items) = concat (map (\<lambda>p. obj_strings (fst p) @ obj_strings (snd p)) items)"
| "obj_strings (OSeq children) = concat (map obj_strings children)"
| "obj_strings _ = []"

fun holds_snapshot :: "obj \<Rightarrow> bool" where
  "holds_snapshot (OSnapshot _) = True"
| "holds_snapshot (OResult a b c) = (holds_snapshot a \<or> holds_snapshot b \<or> holds_snapshot c)"
| "holds_snapshot (OUpdate a b c d) = (holds_snapshot a \<or> holds_snapshot b \<or> holds_snapshot c \<or> holds_snapshot d)"
| "holds_snapshot (OMap items) = list_ex (\<lambda>p. holds_snapshot (fst p) \<or> holds_snapshot (snd p)) items"
| "holds_snapshot (OSeq children) = list_ex holds_snapshot children"
| "holds_snapshot _ = False"

definition leaks :: "string list \<Rightarrow> obj \<Rightarrow> bool" where
  "leaks secrets ob \<longleftrightarrow> holds_snapshot ob \<or>
     (\<exists>t\<in>set (obj_strings ob). \<exists>s\<in>set secrets. s \<noteq> [] \<and> substring s t)"

lemma leaks_simps:
  "leaks secrets (OSnapshot sn)" "\<not> leaks secrets OOther"
  "leaks secrets (OStr s) \<longleftrightarrow> list_ex (\<lambda>secret. secret \<noteq> [] \<and> substring secret s) secrets"
  "leaks secrets (OResult a b c) \<longleftrightarrow> leaks secrets a \<or> leaks secrets b \<or> leaks secrets c"
  "leaks secrets (OUpdate a b c d) \<longleftrightarrow> leaks secrets a \<or> leaks secrets b \<or> leaks secrets c \<or> leaks secrets d"
  by (simp_all add: leaks_def list_ex_iff bex_Un) blast+

lemma leaks_items:
  "leaks secrets (OSeq xs) \<longleftrightarrow> list_ex (leaks secrets) xs"
  "leaks secrets (OMap items) \<longleftrightarrow> list_ex (\<lambda>p. leaks secrets (fst p) \<or> leaks secrets (snd p)) items"
proof -
  show "leaks secrets (OSeq xs) \<longleftrightarrow> list_ex (leaks secrets) xs"
    by (simp add: leaks_def list_ex_iff) blast
  show "leaks secrets (OMap items) \<longleftrightarrow> list_ex (\<lambda>p. leaks secrets (fst p) \<or> leaks secrets (snd p)) items"
    by (simp add: leaks_def list_ex_iff bex_Un) blast
qed

lemma contains_iff: "contains_credential_material secrets ob \<longleftrightarrow> leaks secrets ob"
  by (induction secrets ob rule: contains_credential_material.induct)
    (simp_all add: leaks_simps leaks_items cong: list_ex_cong)

section \<open>What the gate guarantees\<close>

lemma secret_values_ok: "\<exists>vs. secret_values snap = Inr vs \<and> set vs = {v. \<exists>n. map_of (cs_secrets snap) n = Some v}"
proof -
  let ?at = "\<lambda>n. the (map_of (cs_secrets snap) n)"
  have "secret_values snap = Inr (map ?at (secret_names snap))"
    unfolding secret_values_def
  proof (rule mapR_total)
    fix n assume "n \<in> set (secret_names snap)"
    then have "map_of (cs_secrets snap) n \<noteq> None" by (auto simp: secret_names_def map_of_eq_None_iff)
    then show "snapshot_secret snap (PStr n) = Inr (?at n)" by (auto simp: snapshot_secret_def)
  qed
  moreover have "set (map ?at (secret_names snap)) = {v. \<exists>n. map_of (cs_secrets snap) n = Some v}"
  proof -
    have "set (secret_names snap) = dom (map_of (cs_secrets snap))"
      by (simp add: secret_names_def dom_map_of_conv_image_fst)
    then show ?thesis by (force simp: dom_def)
  qed
  ultimately show ?thesis by blast
qed

text \<open>The exceptions that leave the gate.\<close>

definition gate_errors :: "exc list" where
  "gate_errors =
     [Exc BlockedAction ''credential_unavailable'', Exc BlockedAction ''credential_provider_failure'',
      Exc KeyboardInterrupt ''credential_provider_interrupted'', Exc SystemExit ''credential_provider_interrupted'',
      Exc BlockedAction ''credential_provider_invalid_snapshot'',
      Exc BlockedAction ''credential_bound_provider_action_blocked'',
      Exc SafeActionError ''credential_bound_provider_action_failed'',
      Exc KeyboardInterrupt ''credential_bound_provider_action_interrupted'',
      Exc SystemExit ''credential_bound_provider_action_interrupted'',
      Exc SafeActionError ''credential_material_return_forbidden'']"

lemma failures_listed: "credential_failure e \<in> set gate_errors" "provider_failure e \<in> set gate_errors"
  by (simp_all add: gate_errors_def credential_failure_def provider_failure_def)

text \<open>The same effect with the text of its exceptions erased.\<close>

definition erase :: "('w, 'a) eff \<Rightarrow> ('w, 'a) eff" where
  "erase m = tryE m (\<lambda>e. raiseE (Exc (exc_cls e) []))"

lemma failures_erased:
  "credential_failure (Exc (exc_cls e) t) = credential_failure e" "provider_failure (Exc (exc_cls e) t) = provider_failure e"
  by (simp_all add: credential_failure_def provider_failure_def catches_def)

lemma erase_failure:
  "tryE (erase m) (\<lambda>e. raiseE (credential_failure e)) = tryE m (\<lambda>e. raiseE (credential_failure e))"
  "tryE (erase m) (\<lambda>e. raiseE (provider_failure e)) = tryE m (\<lambda>e. raiseE (provider_failure e))"
  by (auto simp: erase_def tryE_apply fun_eq_iff failures_erased split: prod.splits sum.splits)

lemma gate_invoke_erased:
  "gate_invoke (\<lambda>caps ttl known. erase (source caps ttl known)) req (\<lambda>args lc. erase (impl args lc)) =
     gate_invoke source req impl"
  by (intro ext) (simp only: gate_invoke_def gate_acquire_def erase_failure)

lemma gate_acquire_cases:
  "gate_acquire source req w =
     (case source (rq_capabilities req) (rq_minimum_ttl_seconds req) (rq_require_known_expiry req) w of
        (Inl e, w1) \<Rightarrow> (Inl (credential_failure e), w1)
      | (Inr None, w1) \<Rightarrow> (Inl (Exc BlockedAction ''credential_provider_invalid_snapshot''), w1)
      | (Inr (Some snap), w1) \<Rightarrow> (Inr snap, w1))"
  by (auto simp: gate_acquire_def bindE_apply tryE_apply split: prod.splits sum.splits option.splits)

end
