(* ===== verification/Tool_Runtime.thy ===== *)
theory Tool_Runtime
  imports Hosted_Worker
begin

text \<open>
  Local execution through a host: the bridge adapter (\<^verbatim>\<open>src/agent_core/runtime_bridge.py\<close>) and the
  adapters built on it (\<^verbatim>\<open>src/agent_core/provider_adapters.py\<close>), the orchestrator that checks a task
  before it runs it (\<^verbatim>\<open>src/agent_core/orchestrator.py\<close>), and the runtime that a manifest of
  bindings describes (\<^verbatim>\<open>src/agent_core/runtime.py\<close>). The host's bridge is an argument. A task or
  manifest file is the value that its JSON text denotes.
\<close>

section \<open>The bridge adapter\<close>

record bridge_response =
  br_message :: string
  br_data :: "pydict option"
  br_artifacts :: "artifact_update list"
  br_blocked_reason :: "string option"

text \<open>What a bridge returns; the entry \<open>artifacts\<close> of a dictionary stands apart, as for an action.\<close>

datatype bridge_value =
    BV_None
  | BV_Result action_result
  | BV_Response bridge_response
  | BV_Dict pydict artifacts_value
  | BV_Other

type_synonym 'w bridge = "capability \<Rightarrow> pydict \<Rightarrow> pydict \<Rightarrow> ('w, bridge_value) eff"

fun normalise_response :: "bridge_value \<Rightarrow> action_result res" where
  "normalise_response (BV_Result r) = Inr r"
| "normalise_response (BV_Response b) =
     (if br_blocked_reason b \<notin> {None, Some []} then Inl (Exc BlockedAction ''runtime_bridge_blocked'')
      else Inr \<lparr>rs_message = br_message b, rs_artifacts = br_artifacts b,
                rs_data = (case br_data b of None \<Rightarrow> [] | Some d \<Rightarrow> d)\<rparr>)"
| "normalise_response (BV_Dict d av) =
     (if truthy (dict_get d ''blocked_reason'') then Inl (Exc BlockedAction ''runtime_bridge_blocked'')
      else
        bindR (bindR (artifacts_items av) (mapR artifact_item)) (\<lambda>arts.
        bindR (py_dict (py_or (dict_get d ''data'') (PDict []))) (\<lambda>data.
        Inr \<lparr>rs_message = py_str (py_or (dict_get d ''message'') (PStr [])),
             rs_artifacts = arts, rs_data = data\<rparr>)))"
| "normalise_response BV_None = Inr \<lparr>rs_message = [], rs_artifacts = [], rs_data = []\<rparr>"
| "normalise_response BV_Other = Inl (Exc TypeError ''unsupported_bridge_response'')"

definition bridge_action :: "'w bridge \<Rightarrow> capability \<Rightarrow> 'w action" where
  "bridge_action invoke cap args ctx =
     bindE (invoke cap args ctx) (\<lambda>response.
     bindE (liftE (normalise_response response)) (\<lambda>r. retE (AV_Result r)))"

definition BridgeToolAdapter :: "string \<Rightarrow> 'w bridge \<Rightarrow> capability list \<Rightarrow> 'w adapter res" where
  "BridgeToolAdapter name invoke caps =
     (if blank name then value_error ''adapter_name_required''
      else if caps = [] then value_error ''capabilities_required''
      else if \<not> distinct (map cap_action caps) then value_error ''duplicate_adapter_capability''
      else Inr \<lparr>ad_name = name, ad_capabilities = sort_key cap_action caps,
                ad_actions = map (\<lambda>c. (cap_action c, bridge_action invoke c)) caps\<rparr>)"

section \<open>Adapters on a bridge\<close>

definition supabase_capabilities :: "capability list" where
  "supabase_capabilities =
     [\<lparr>cap_action = ''supabase.project_status'', cap_access = ''read'',
       cap_required_permissions = [''supabase:project:read''], cap_supports_dry_run = True,
       cap_description = ''Read project health/status without changing configuration.''\<rparr>,
      \<lparr>cap_action = ''supabase.function_status'', cap_access = ''read'',
       cap_required_permissions = [''supabase:functions:read''], cap_supports_dry_run = True,
       cap_description = ''Read deployed function metadata/status without deployment.''\<rparr>,
      \<lparr>cap_action = ''supabase.table_count'', cap_access = ''read'',
       cap_required_permissions = [''supabase:database:read''], cap_supports_dry_run = True,
       cap_description = ''Read a table row count through an authorized read-only query path.''\<rparr>]"

definition ReadOnlySupabaseStatusAdapter :: "'w bridge \<Rightarrow> 'w adapter res" where
  "ReadOnlySupabaseStatusAdapter invoke =
     BridgeToolAdapter ''supabase-readonly-status'' invoke supabase_capabilities"

definition file_capabilities :: "capability list" where
  "file_capabilities =
     [\<lparr>cap_action = ''files.read_artifact'', cap_access = ''read'', cap_required_permissions = [''files:read''],
       cap_supports_dry_run = True, cap_description = ''Read an explicitly identified private artifact.''\<rparr>,
      \<lparr>cap_action = ''files.verify_artifact'', cap_access = ''read'', cap_required_permissions = [''files:read''],
       cap_supports_dry_run = True,
       cap_description = ''Verify artifact existence/metadata without modifying it.''\<rparr>,
      \<lparr>cap_action = ''files.write_artifact'', cap_access = ''write'', cap_required_permissions = [''files:write''],
       cap_supports_dry_run = False,
       cap_description = ''Persist a new artifact to an authorized destination.''\<rparr>]"

definition FileArtifactAdapter :: "'w bridge \<Rightarrow> 'w adapter res" where
  "FileArtifactAdapter invoke = BridgeToolAdapter ''file-artifacts'' invoke file_capabilities"

section \<open>The orchestrator\<close>

record 'w orchestrator =
  or_registry :: "'w registry"
  or_store :: "'w store_ops"

record preflight_report =
  pf_ready :: bool
  pf_missing_actions :: "string list"
  pf_forbidden_actions :: "string list"
  pf_registered_capabilities :: "pydict list"

definition preflight_forbidden :: "'w registry \<Rightarrow> string list option \<Rightarrow> string list \<Rightarrow> string list" where
  "preflight_forbidden reg allowed_access used =
     (case allowed_access of
        None \<Rightarrow> []
      | Some allowed \<Rightarrow> filter (\<lambda>a. \<not> access_in reg allowed a) (sorted_set (filter (registered reg) used)))"

definition preflight :: "'w orchestrator \<Rightarrow> task_spec \<Rightarrow> string list option \<Rightarrow> preflight_report res" where
  "preflight orch spec allowed_access =
     bindR (TaskSpec_validate spec) (\<lambda>_.
       let used = used_actions spec;
           missing = sorted_set (filter (\<lambda>a. \<not> registered (or_registry orch) a) used);
           forbidden = preflight_forbidden (or_registry orch) allowed_access used
       in bindR (describe (or_registry orch)) (\<lambda>caps.
          Inr \<lparr>pf_ready = (missing = [] \<and> forbidden = []), pf_missing_actions = missing,
               pf_forbidden_actions = forbidden, pf_registered_capabilities = caps\<rparr>))"

definition orchestrator_run ::
  "'w orchestrator \<Rightarrow> task_spec \<Rightarrow> pydict \<Rightarrow> string list option \<Rightarrow> ('w, run_outcome) eff" where
  "orchestrator_run orch spec context allowed_access =
     bindE (liftE (preflight orch spec allowed_access)) (\<lambda>report.
     if pf_missing_actions report \<noteq> []
     then raiseE (Exc ValueError (''preflight_missing_actions:'' @ join '','' (pf_missing_actions report)))
     else if pf_forbidden_actions report \<noteq> []
     then raiseE (Exc ValueError (''preflight_forbidden_actions:'' @ join '','' (pf_forbidden_actions report)))
     else run \<lparr>rn_store = or_store orch, rn_actions = rg_actions (or_registry orch), rn_sink = None\<rparr> spec context)"

definition orchestrator_run_task_file ::
  "'w orchestrator \<Rightarrow> pydict \<Rightarrow> pydict \<Rightarrow> string list option \<Rightarrow> ('w, run_outcome) eff" where
  "orchestrator_run_task_file orch payload context allowed_access =
     bindE (liftE (TaskSpec_from_dict payload)) (\<lambda>spec. orchestrator_run orch spec context allowed_access)"

section \<open>Runtime manifests\<close>

abbreviation FORBIDDEN_BINDING_KEYS :: "string list" where
  "FORBIDDEN_BINDING_KEYS \<equiv> [''token'', ''access_token'', ''refresh_token'', ''password'', ''secret'',
     ''service_role'', ''api_key'', ''apikey'', ''authorization'']"

abbreviation BINDING_KEYS :: "string list" where
  "BINDING_KEYS \<equiv> [''provider'', ''action'', ''access'', ''required_permissions'', ''supports_dry_run'', ''description'']"

abbreviation MANIFEST_KEYS :: "string list" where
  "MANIFEST_KEYS \<equiv> [''schema_version'', ''bindings'']"

text \<open>The checks on the keys of a binding and of a manifest.\<close>

definition check_keys :: "string \<Rightarrow> string \<Rightarrow> string list \<Rightarrow> string list \<Rightarrow> unit res" where
  "check_keys place kind known keys =
     (let forbidden = sorted_set (filter (\<lambda>k. k \<in> set FORBIDDEN_BINDING_KEYS) (map lower keys));
          unknown = sorted_set (filter (\<lambda>k. k \<notin> set known) keys)
      in if forbidden \<noteq> [] then value_error (''credentials_forbidden_in_'' @ place @ '':'' @ join '','' forbidden)
         else if unknown \<noteq> [] then value_error (''unknown_runtime_'' @ kind @ ''_field:'' @ join '','' unknown)
         else Inr ())"

record runtime_binding =
  rb_provider :: string
  rb_action :: string
  rb_access :: string
  rb_required_permissions :: "string list"
  rb_supports_dry_run :: bool
  rb_description :: string

definition binding_fields :: "pydict \<Rightarrow> runtime_binding res" where
  "binding_fields p =
     (let text_of = (\<lambda>k. strip (py_str (py_or (dict_get p k) (PStr []))));
          provider = text_of ''provider''; action = text_of ''action''; acc = text_of ''access''
      in if provider = [] then value_error ''binding_provider_required''
         else if action = [] then value_error ''binding_action_required''
         else if acc \<notin> set [''read'', ''write'', ''execute''] then value_error ''binding_access_invalid''
         else
           bindR (py_iter (py_or (dict_get p ''required_permissions'') (PList []))) (\<lambda>values.
           let permissions = map (\<lambda>v. strip (py_str v)) values
           in if [] \<in> set permissions then value_error ''empty_required_permission''
              else Inr \<lparr>rb_provider = provider, rb_action = action, rb_access = acc,
                        rb_required_permissions = permissions,
                        rb_supports_dry_run = truthy (dict_get_or p ''supports_dry_run'' (PBool False)),
                        rb_description = py_str (py_or (dict_get p ''description'') (PStr []))\<rparr>))"

definition RuntimeBinding_from_dict :: "pyval \<Rightarrow> runtime_binding res" where
  "RuntimeBinding_from_dict v =
     bindR (py_iter v) (\<lambda>ks.
     bindR (check_keys ''binding'' ''binding'' BINDING_KEYS (map py_str ks)) (\<lambda>_.
     case v of PDict p \<Rightarrow> binding_fields p | _ \<Rightarrow> Inl (Exc AttributeError ''get'')))"

definition binding_capability :: "runtime_binding \<Rightarrow> capability" where
  "binding_capability b =
     \<lparr>cap_action = rb_action b, cap_access = rb_access b, cap_required_permissions = rb_required_permissions b,
      cap_supports_dry_run = rb_supports_dry_run b, cap_description = rb_description b\<rparr>"

record runtime_manifest =
  rm_schema_version :: string
  rm_bindings :: "runtime_binding list"

fun check_bindings :: "string list \<Rightarrow> runtime_binding list \<Rightarrow> unit res" where
  "check_bindings seen [] = Inr ()"
| "check_bindings seen (b # bs) =
     (if rb_action b \<in> set seen then value_error (''duplicate_runtime_binding:'' @ rb_action b)
      else check_bindings (rb_action b # seen) bs)"

text \<open>An empty list is falsy, so \<open>or ()\<close> makes it a tuple, which is not a list.\<close>

definition raw_bindings :: "pydict \<Rightarrow> pyval list res" where
  "raw_bindings p =
     (case dict_get p ''bindings'' of
        PList (x # xs) \<Rightarrow> Inr (x # xs)
      | _ \<Rightarrow> value_error ''runtime_bindings_must_be_list'')"

definition RuntimeManifest_from_dict :: "pydict \<Rightarrow> runtime_manifest res" where
  "RuntimeManifest_from_dict p =
     bindR (check_keys ''manifest'' ''manifest'' MANIFEST_KEYS (map fst p)) (\<lambda>_.
     let schema = py_str (py_or (dict_get p ''schema_version'') (PStr []))
     in if schema \<noteq> ''agent-runtime-bindings-v1'' then value_error ''runtime_manifest_schema_mismatch''
        else
          bindR (raw_bindings p) (\<lambda>items.
          bindR (mapR RuntimeBinding_from_dict items) (\<lambda>bindings.
          if bindings = [] then value_error ''runtime_bindings_required''
          else bindR (check_bindings [] bindings) (\<lambda>_.
               Inr \<lparr>rm_schema_version = schema, rm_bindings = bindings\<rparr>))))"

section \<open>The bound runtime\<close>

text \<open>\<open>grouped.setdefault(binding.provider, []).append(binding.capability())\<close>.\<close>

definition group_binding ::
  "runtime_binding \<Rightarrow> (string \<times> capability list) list \<Rightarrow> (string \<times> capability list) list" where
  "group_binding b grouped =
     (let old = (case map_of grouped (rb_provider b) of None \<Rightarrow> [] | Some cs \<Rightarrow> cs)
      in AList.update (rb_provider b) (old @ [binding_capability b]) grouped)"

definition group_bindings :: "runtime_binding list \<Rightarrow> (string \<times> capability list) list" where
  "group_bindings bs = fold group_binding bs []"

fun register_groups ::
  "'w bridge \<Rightarrow> (string \<times> capability list) list \<Rightarrow> 'w registry \<Rightarrow> 'w registry res" where
  "register_groups invoke [] reg = Inr reg"
| "register_groups invoke ((provider, caps) # rest) reg =
     bindR (BridgeToolAdapter (''bridge:'' @ provider) invoke caps) (\<lambda>ad.
     bindR (register ad reg) (\<lambda>reg'. register_groups invoke rest reg'))"

definition BoundRuntime :: "runtime_manifest \<Rightarrow> 'w bridge \<Rightarrow> 'w store_ops \<Rightarrow> 'w orchestrator res" where
  "BoundRuntime m invoke ops =
     bindR (register_groups invoke (sort_key fst (group_bindings (rm_bindings m))) ToolRegistry) (\<lambda>reg.
     Inr \<lparr>or_registry = reg, or_store = ops\<rparr>)"

definition preflight_task_file :: "'w orchestrator \<Rightarrow> pydict \<Rightarrow> string list option \<Rightarrow> preflight_report res" where
  "preflight_task_file runtime payload allowed_access =
     bindR (TaskSpec_from_dict payload) (\<lambda>spec. preflight runtime spec allowed_access)"

definition run_task_file ::
  "'w orchestrator \<Rightarrow> pydict \<Rightarrow> pydict \<Rightarrow> string list option \<Rightarrow> ('w, run_outcome) eff" where
  "run_task_file runtime = orchestrator_run_task_file runtime"

end
