(* ===== verification/Runtime_Results.thy ===== *)
theory Runtime_Results
  imports Tool_Runtime Worker_Safety
begin

text \<open>
  Properties of local execution: a run calls only the actions its specification uses, the
  orchestrator lets it call only those that were permitted, and the registry of a bound runtime
  holds exactly the bindings of its manifest.
\<close>

section \<open>A run uses the actions of its specification\<close>

definition same_actions :: "string list \<Rightarrow> 'w runner \<Rightarrow> 'w runner \<Rightarrow> bool" where
  "same_actions used rn rn' \<longleftrightarrow> rn_store rn' = rn_store rn \<and> rn_sink rn' = rn_sink rn \<and>
     (\<forall>a\<in>set used. map_of (rn_actions rn') a = map_of (rn_actions rn) a)"

lemma same_actions_simps:
  assumes "same_actions used rn rn'"
  shows "emit_diagnostic rn' = emit_diagnostic rn" "save_state rn' = save_state rn" "block rn' = block rn"
    "fail_task rn' = fail_task rn" "complete_step rn' = complete_step rn" "finish_run rn' = finish_run rn"
    "rn_store rn' = rn_store rn"
  using assms
  by (simp_all add: same_actions_def emit_diagnostic_def save_state_def block_def fail_task_def complete_step_def
      finish_run_def fun_eq_iff cong: option.case_cong)

lemma after_error_same:
  assumes "same_actions used rn rn'"
  shows "after_error rn' = after_error rn"
  by (intro ext) (simp only: after_error_def same_actions_simps [OF assms])

lemma attempt_loop_same:
  assumes "same_actions used rn rn'"
  shows "attempt_loop rn' spec step act ctx st = attempt_loop rn spec step act ctx st"
proof (induction st rule: attempt_induct [where step = step])
  case (Round st)
  have again: "after_error rn spec step s (attempt_count st (ss_step_id step) + 1) e
        (attempt_loop rn' spec step act ctx (next_round step st now e)) =
      after_error rn spec step s (attempt_count st (ss_step_id step) + 1) e
        (attempt_loop rn spec step act ctx (next_round step st now e))" for s now e
    by (rule after_error_again_cong) (rule Round)
  show ?case
    unfolding attempt_loop_round [of _ spec step _ ctx st] attempt_body_def same_actions_simps [OF assms]
      after_error_same [OF assms] again ..
qed

lemma used_actions_step:
  assumes "step \<in> set (sp_steps spec)" and "\<not> blank (ss_action step)"
  shows "ss_action step \<in> set (used_actions spec)"
    and "ss_verify_action step = Some va \<Longrightarrow> va \<noteq> [] \<Longrightarrow> va \<in> set (used_actions spec)"
  using assms by (auto simp: used_actions_def split: option.splits intro!: bexI [of _ step])

lemma verify_step_same:
  assumes same: "same_actions used rn rn'"
    and va: "\<And>va. ss_verify_action step = Some va \<Longrightarrow> va \<noteq> [] \<Longrightarrow> va \<in> set used"
  shows "verify_step rn' spec step = verify_step rn spec step"
proof (intro ext)
  fix ctx r st w
  show "verify_step rn' spec step ctx r st w = verify_step rn spec step ctx r st w"
  proof (cases "ss_verify_action step")
    case (Some v)
    have "v \<noteq> [] \<Longrightarrow> map_of (rn_actions rn') v = map_of (rn_actions rn) v"
      using same va [OF Some] by (simp add: same_actions_def)
    then show ?thesis
      by (cases "v = []") (simp_all only: verify_step_def Some option.case same_actions_simps [OF same] if_True if_False simp_thms)
  qed (simp add: verify_step_def)
qed

lemma run_step_same:
  assumes same: "same_actions (used_actions spec) rn rn'" and step: "step \<in> set (sp_steps spec)" "\<not> blank (ss_action step)"
  shows "run_step rn' spec base step st = run_step rn spec base step st"
proof -
  have act: "map_of (rn_actions rn') (ss_action step) = map_of (rn_actions rn) (ss_action step)"
    using same used_actions_step(1) [OF step] by (simp add: same_actions_def)
  have v: "verify_step rn' spec step = verify_step rn spec step"
    using used_actions_step(2) [OF step] by (rule verify_step_same [OF same])
  show ?thesis
    unfolding run_step_def settle_step_def act v attempt_loop_same [OF same] same_actions_simps [OF same] ..
qed

lemma run_steps_same:
  assumes "same_actions (used_actions spec) rn rn'" and "set steps \<subseteq> set (sp_steps spec)"
    and "list_all (\<lambda>s. \<not> blank (ss_action s)) steps"
  shows "run_steps rn' spec base steps st ex sk = run_steps rn spec base steps st ex sk"
  using assms(2,3)
proof (induction steps arbitrary: st ex sk)
  case (Cons s steps)
  have step: "run_step rn' spec base s st = run_step rn spec base s st"
    using Cons.prems by (intro run_step_same [OF assms(1)]) simp_all
  have "run_steps rn' spec base steps = run_steps rn spec base steps"
    using Cons by (intro ext) simp
  then show ?case by (simp only: run_steps.simps step same_actions_simps [OF assms(1)])
qed (simp add: same_actions_simps [OF assms(1)])

lemma run_same:
  assumes same: "same_actions (used_actions spec) rn rn'"
  shows "run rn' spec = run rn spec"
proof (cases "TaskSpec_validate spec")
  case (Inr u)
  then have "list_all (\<lambda>s. \<not> blank (ss_action s)) (sp_steps spec)"
    by (auto simp: TaskSpec_validate_ok list_all_iff step_valid_def)
  then have steps: "run_steps rn' spec base (sp_steps spec) st ex sk = run_steps rn spec base (sp_steps spec) st ex sk" for base st ex sk
    by (intro run_steps_same [OF same]) simp_all
  have "run_bound rn' spec = run_bound rn spec"
    by (intro ext) (simp only: run_bound_def steps same_actions_simps [OF same])
  then have "run_locked rn' spec = run_locked rn spec"
    by (intro ext) (simp only: run_locked_def same_actions_simps [OF same])
  then show ?thesis
    by (intro ext) (simp add: run_def TaskSpec_roundtrip Inr same_actions_simps [OF same])
qed (intro ext, simp add: run_def TaskSpec_roundtrip)

section \<open>The orchestrator\<close>

text \<open>An action that the specification does not use, or whose access is not among the allowed ones.\<close>

definition not_permitted :: "'w registry \<Rightarrow> task_spec \<Rightarrow> string list option \<Rightarrow> string \<Rightarrow> bool" where
  "not_permitted reg spec allowed_access a \<longleftrightarrow>
     a \<notin> set (used_actions spec) \<or>
     (case allowed_access of None \<Rightarrow> False | Some allowed \<Rightarrow> \<not> access_in reg allowed a)"

lemma describe_disarm [simp]: "describe (disarm P reg) = describe reg"
proof -
  have "describe_action (disarm P reg) = describe_action reg"
    by (intro ext) (simp add: describe_action_def disarm_def)
  then show ?thesis unfolding describe_def disarm_names by simp
qed

lemma preflight_disarm:
  "preflight (orch\<lparr>or_registry := disarm P (or_registry orch)\<rparr>) = preflight orch"
  by (intro ext) (simp add: preflight_def preflight_forbidden_def cong: option.case_cong)

lemma map_of_disarm:
  "map_of (rg_actions (disarm P reg)) a =
     (if P a then map_option (\<lambda>_ args ctx. raiseE (Exc SystemExit ''action_called'')) (map_of (rg_actions reg) a)
      else map_of (rg_actions reg) a)"
proof -
  have "map_of (map (\<lambda>(a, impl). (a, if P a then X else impl)) xs) a =
      (if P a then map_option (\<lambda>_. X) (map_of xs a) else map_of xs a)" for xs and X :: "'a action"
    by (induction xs) auto
  then show ?thesis by (simp add: disarm_def)
qed

lemma registered_iff: "registered reg a \<longleftrightarrow> map_of (rg_actions reg) a \<noteq> None"
  by (auto simp: registered_def map_of_eq_None_iff)

lemma preflight_permits:
  assumes "preflight orch spec allowed = Inr report" and "pf_missing_actions report = []"
    and "pf_forbidden_actions report = []" and "a \<in> set (used_actions spec)"
  shows "\<not> not_permitted (or_registry orch) spec allowed a" "registered (or_registry orch) a"
proof -
  let ?reg = "or_registry orch"
  have missing: "sorted_set (filter (\<lambda>a. \<not> registered ?reg a) (used_actions spec)) = []"
    and forbidden: "preflight_forbidden ?reg allowed (used_actions spec) = []"
    using assms(1-3) by (auto simp: preflight_def bindR_eq_Inr Let_def)
  from missing have "set (filter (\<lambda>a. \<not> registered ?reg a) (used_actions spec)) = {}"
    by (metis empty_set sorted_set_set)
  with assms(4) show reg: "registered ?reg a" by auto
  have "access_in ?reg al a" if "allowed = Some al" for al
    using forbidden reg assms(4) by (simp add: that preflight_forbidden_def filter_empty_conv)
  with assms(4) show "\<not> not_permitted ?reg spec allowed a"
    by (auto simp: not_permitted_def split: option.splits)
qed

lemma orchestrator_run_disarm:
  "orchestrator_run (orch\<lparr>or_registry := disarm (not_permitted (or_registry orch) spec allowed) (or_registry orch)\<rparr>)
     spec context allowed = orchestrator_run orch spec context allowed"
  unfolding orchestrator_run_def preflight_disarm
proof (rule liftE_cong_Inr)
  fix report
  assume report: "preflight orch spec allowed = Inr report"
  let ?reg = "or_registry orch"
  let ?rn = "\<lambda>reg. \<lparr>rn_store = or_store orch, rn_actions = rg_actions reg, rn_sink = None\<rparr>"
  have "run (?rn (disarm (not_permitted ?reg spec allowed) ?reg)) spec = run (?rn ?reg) spec"
    if "pf_missing_actions report = []" "pf_forbidden_actions report = []"
    using preflight_permits [OF report that] by (intro run_same) (simp add: same_actions_def map_of_disarm)
  then show "(if pf_missing_actions report \<noteq> []
      then raiseE (Exc ValueError (''preflight_missing_actions:'' @ join '','' (pf_missing_actions report)))
      else if pf_forbidden_actions report \<noteq> []
      then raiseE (Exc ValueError (''preflight_forbidden_actions:'' @ join '','' (pf_forbidden_actions report)))
      else run \<lparr>rn_store = or_store (orch\<lparr>or_registry := disarm (not_permitted ?reg spec allowed) ?reg\<rparr>),
        rn_actions = rg_actions (or_registry (orch\<lparr>or_registry := disarm (not_permitted ?reg spec allowed) ?reg\<rparr>)),
        rn_sink = None\<rparr> spec context) =
     (if pf_missing_actions report \<noteq> []
      then raiseE (Exc ValueError (''preflight_missing_actions:'' @ join '','' (pf_missing_actions report)))
      else if pf_forbidden_actions report \<noteq> []
      then raiseE (Exc ValueError (''preflight_forbidden_actions:'' @ join '','' (pf_forbidden_actions report)))
      else run (?rn ?reg) spec context)"
    by simp
qed

lemma orchestrator_not_ready:
  assumes "preflight orch spec allowed = Inr report" and "\<not> pf_ready report"
  shows "\<exists>msg. orchestrator_run orch spec context allowed w = (Inl (Exc ValueError msg), w)"
proof -
  have "pf_missing_actions report \<noteq> [] \<or> pf_forbidden_actions report \<noteq> []"
    using assms by (auto simp: preflight_def bindR_eq_Inr Let_def)
  then show ?thesis using assms(1) by (auto simp: orchestrator_run_def)
qed

section \<open>The bound runtime\<close>

lemma check_bindings_Inr:
  "check_bindings seen bs = Inr () \<longleftrightarrow>
     distinct (map rb_action bs) \<and> set (map rb_action bs) \<inter> set seen = {}"
  by (induction bs arbitrary: seen) auto

definition binding_ok :: "runtime_binding \<Rightarrow> bool" where
  "binding_ok b \<longleftrightarrow> rb_provider b \<noteq> [] \<and> rb_action b \<noteq> [] \<and>
     rb_access b \<in> {''read'', ''write'', ''execute''} \<and> [] \<notin> set (rb_required_permissions b)"

lemma RuntimeBinding_ok: "RuntimeBinding_from_dict v = Inr b \<Longrightarrow> binding_ok b"
proof -
  have "binding_ok b" if "binding_fields d = Inr b" for d
    using that by (auto simp: binding_ok_def binding_fields_def Let_def bindR_eq_Inr split: if_split_asm)
  then show "RuntimeBinding_from_dict v = Inr b \<Longrightarrow> binding_ok b"
    by (cases v) (auto simp: RuntimeBinding_from_dict_def bindR_eq_Inr)
qed

lemma manifest_Inr:
  assumes "RuntimeManifest_from_dict p = Inr m"
  shows "distinct (map rb_action (rm_bindings m))" "rm_bindings m \<noteq> []" "list_all binding_ok (rm_bindings m)"
proof -
  obtain items where items: "mapR RuntimeBinding_from_dict items = Inr (rm_bindings m)"
    and checked: "check_bindings [] (rm_bindings m) = Inr ()" and ne: "rm_bindings m \<noteq> []"
    using assms by (auto simp: RuntimeManifest_from_dict_def bindR_eq_Inr Let_def split: if_split_asm)
  from checked ne show "distinct (map rb_action (rm_bindings m))" "rm_bindings m \<noteq> []"
    by (simp_all add: check_bindings_Inr)
  from items show "list_all binding_ok (rm_bindings m)"
    unfolding mapR_eq_Inr list_all2_conv_all_nth list_all_length by (metis RuntimeBinding_ok)
qed

text \<open>The groups: one per provider, each the capabilities of its bindings in order.\<close>

lemma group_bindings_snoc: "group_bindings (bs @ [b]) = group_binding b (group_bindings bs)"
  by (simp add: group_bindings_def)

lemma group_bindings_map_of:
  "map_of (group_bindings bs) p =
     (let cs = map binding_capability (filter (\<lambda>b. rb_provider b = p) bs) in if cs = [] then None else Some cs)"
proof (induction bs arbitrary: p rule: rev_induct)
  case Nil
  then show ?case by (simp add: group_bindings_def)
next
  case (snoc b bs)
  show ?case
    unfolding group_bindings_snoc group_binding_def Let_def update_conv'
    using snoc [of p] snoc [of "rb_provider b"] by (auto simp: Let_def split: if_splits)
qed

lemma group_bindings_distinct: "distinct (map fst (group_bindings bs))"
  by (induction bs rule: rev_induct)
    (simp_all add: group_bindings_snoc group_binding_def distinct_update, simp add: group_bindings_def)

lemma group_bindings_set:
  assumes "(p, cs) \<in> set (group_bindings bs)"
  shows "cs = map binding_capability (filter (\<lambda>b. rb_provider b = p) bs)" "cs \<noteq> []"
  using map_of_is_SomeI [OF group_bindings_distinct assms] by (auto simp: group_bindings_map_of Let_def split: if_split_asm)

lemma group_bindings_covers:
  "b \<in> set bs \<Longrightarrow> (rb_provider b, map binding_capability (filter (\<lambda>b'. rb_provider b' = rb_provider b) bs)) \<in> set (group_bindings bs)"
  by (rule map_of_SomeD) (auto simp: group_bindings_map_of Let_def filter_empty_conv)

text \<open>Registering one adapter on a bridge succeeds when its actions are new.\<close>

lemma register_actions_total:
  "fst ` set acts \<subseteq> dom (map_of caps) \<Longrightarrow> \<exists>reg'. register_actions name caps acts reg = Inr reg'"
  by (induction acts arbitrary: reg) (auto simp: dom_def split: option.splits)

lemma keys_dict_update: "fst ` set (dict_update [] e) = fst ` set e"
  by (simp add: dom_map_of_conv_image_fst [symmetric] dict_update_map_of)
    (simp add: dom_map_of_conv_image_fst)

lemma map_of_rev_distinct: "distinct (map fst xs) \<Longrightarrow> map_of (rev xs) = map_of xs"
  by (intro map_of_inject_set [THEN iffD2]) (simp_all add: rev_map [symmetric])

lemma map_of_rev_update: "map_of (rev (dict_update [] e)) = map_of (rev e)"
  by (subst map_of_rev_distinct) (simp_all add: distinct_dict_update dict_update_map_of)

lemma register_total:
  assumes "cap_action ` set (ad_capabilities ad) = fst ` set (ad_actions ad)"
    and "fst ` set (ad_actions ad) \<inter> dom (map_of (rg_actions reg)) = {}"
  shows "\<exists>reg'. register ad reg = Inr reg'"
proof -
  let ?caps = "capabilities_dict (ad_capabilities ad)" and ?acts = "dict_update [] (ad_actions ad)"
  have caps: "fst ` set ?caps = cap_action ` set (ad_capabilities ad)"
    by (simp add: capabilities_dict_def keys_dict_update image_image)
  have same: "same_keys ?caps ?acts"
    by (simp add: same_keys_iff dom_map_of_conv_image_fst caps keys_dict_update assms(1))
  have "filter (\<lambda>a. a \<in> set (map fst (rg_actions reg))) (map fst ?acts) = []"
    using assms(2) keys_dict_update [of "ad_actions ad"] by (auto simp: filter_empty_conv dom_map_of_conv_image_fst)
  moreover have "\<exists>reg'. register_actions (ad_name ad) ?caps ?acts reg = Inr reg'"
    by (rule register_actions_total) (simp add: dom_map_of_conv_image_fst caps keys_dict_update assms(1))
  ultimately show ?thesis using same by (auto simp: register_def Let_def sorted_set_def)
qed

text \<open>The registry holds exactly the given capabilities, each served by the bridge.\<close>

definition serves :: "'w bridge \<Rightarrow> capability set \<Rightarrow> 'w registry \<Rightarrow> bool" where
  "serves invoke C reg \<longleftrightarrow> registry_ok reg \<and> dom (map_of (rg_actions reg)) = cap_action ` C \<and>
     (\<forall>c\<in>C. map_of (rg_capabilities reg) (cap_action c) = Some c \<and>
            map_of (rg_actions reg) (cap_action c) = Some (bridge_action invoke c))"

lemma serves_new: "serves invoke {} ToolRegistry"
  by (simp add: serves_def registry_new) (simp add: ToolRegistry_def)

lemma map_of_keyed_rev:
  "distinct (map f xs) \<Longrightarrow> x \<in> set xs \<Longrightarrow> map_of (rev (map (\<lambda>x. (f x, g x)) xs)) (f x) = Some (g x)"
  by (rule map_of_is_SomeI) (auto simp: comp_def rev_map [symmetric])

lemma dict_update_keyed:
  assumes "distinct (map f xs)" "x \<in> set xs"
  shows "map_of (dict_update [] (map (\<lambda>x. (f x, g x)) xs)) (f x) = Some (g x)"
  using map_of_keyed_rev [OF assms] by (simp add: dict_update_map_of)

lemma register_serves:
  assumes serves: "serves invoke C reg" and caps: "caps \<noteq> []" "distinct (map cap_action caps)"
    and new: "cap_action ` set caps \<inter> cap_action ` C = {}" and name: "\<not> blank name"
  obtains ad reg' where "BridgeToolAdapter name invoke caps = Inr ad" "register ad reg = Inr reg'"
    "serves invoke (C \<union> set caps) reg'"
proof -
  let ?acts = "map (\<lambda>c. (cap_action c, bridge_action invoke c)) caps"
  let ?ad = "\<lparr>ad_name = name, ad_capabilities = sort_key cap_action caps, ad_actions = ?acts\<rparr>"
  have ad: "BridgeToolAdapter name invoke caps = Inr ?ad"
    using caps name by (simp add: BridgeToolAdapter_def)
  have ok: "registry_ok reg" and dom: "dom (map_of (rg_actions reg)) = cap_action ` C"
    using serves by (simp_all add: serves_def)
  have keys: "fst ` set (ad_actions ?ad) = cap_action ` set caps" by (simp add: image_image)
  obtain reg' where reg': "register ?ad reg = Inr reg'"
    using register_total [of ?ad reg] new by (auto simp: image_image dom)
  note R = register_Inr [OF reg']
  have d: "distinct (map cap_action (sort_key cap_action caps))"
    using caps(2) by (simp add: distinct_map)
  have capm: "map_of (capabilities_dict (ad_capabilities ?ad)) (cap_action c) = Some c" if "c \<in> set caps" for c
    using dict_update_keyed [OF d, of c "\<lambda>c. c"] that by (simp add: capabilities_dict_def)
  have actm: "map_of (rev (dict_update [] ?acts)) (cap_action c) = Some (bridge_action invoke c)" if "c \<in> set caps" for c
    unfolding map_of_rev_update by (rule map_of_keyed_rev [OF caps(2) that])
  have doms: "dom (map_of (rev (dict_update [] ?acts))) = cap_action ` set caps"
    "dom (map_of (capabilities_dict (ad_capabilities ?ad))) = cap_action ` set caps"
    using R(2) keys by (simp_all add: dom_rev) (simp add: dom_map_of_conv_image_fst keys_dict_update image_image)
  have old: "cap_action c \<notin> cap_action ` set caps" if "c \<in> C" for c using new that by auto
  have "serves invoke (C \<union> set caps) reg'"
    unfolding serves_def
  proof (intro conjI ballI)
    show "registry_ok reg'" by (rule register_keeps_ok [OF reg' ok])
    show "dom (map_of (rg_actions reg')) = cap_action ` (C \<union> set caps)"
      using R(3) doms(1) dom by (auto simp: image_Un)
  next
    fix c assume c: "c \<in> C \<union> set caps"
    have "map_of (rg_capabilities reg) (cap_action c) = Some c" "map_of (rg_actions reg) (cap_action c) = Some (bridge_action invoke c)"
      if "c \<in> C" using serves that by (simp_all add: serves_def)
    moreover have "map_of (capabilities_dict (ad_capabilities ?ad)) (cap_action c) = None"
      "map_of (rev (dict_update [] ?acts)) (cap_action c) = None" if "c \<in> C"
      using old [OF that] doms by (auto simp: domIff)
    ultimately show "map_of (rg_capabilities reg') (cap_action c) = Some c"
      "map_of (rg_actions reg') (cap_action c) = Some (bridge_action invoke c)"
      using c R(3,4) capm [of c] actm [of c] by (auto simp: map_add_def)
  qed
  with ad reg' show thesis by (rule that)
qed

text \<open>Groups with distinct actions register one after the other.\<close>

lemma register_groups_serves:
  assumes "serves invoke C reg" and "list_all (\<lambda>(p, cs). cs \<noteq> [] \<and> distinct (map cap_action cs)) gs"
    and "distinct (map fst gs)"
    and "\<And>p cs q ds. (p, cs) \<in> set gs \<Longrightarrow> (q, ds) \<in> set gs \<Longrightarrow> p \<noteq> q \<Longrightarrow> cap_action ` set cs \<inter> cap_action ` set ds = {}"
    and "\<And>p cs. (p, cs) \<in> set gs \<Longrightarrow> cap_action ` set cs \<inter> cap_action ` C = {}"
  shows "\<exists>reg'. register_groups invoke gs reg = Inr reg' \<and> serves invoke (C \<union> (\<Union>(p, cs)\<in>set gs. set cs)) reg'"
  using assms
proof (induction gs arbitrary: C reg)
  case (Cons g gs)
  obtain p cs where g: "g = (p, cs)" by (cases g)
  have name: "\<not> blank (''bridge:'' @ p)" by (simp add: strip_is_Nil is_space_def code_def)
  obtain ad reg1 where ad: "BridgeToolAdapter (''bridge:'' @ p) invoke cs = Inr ad" and reg1: "register ad reg = Inr reg1"
    and s1: "serves invoke (C \<union> set cs) reg1"
  proof (rule register_serves [OF Cons.prems(1) _ _ _ name])
    show "cs \<noteq> []" "distinct (map cap_action cs)" using Cons.prems(2) by (simp_all add: g)
    show "cap_action ` set cs \<inter> cap_action ` C = {}" using Cons.prems(5) [of p cs] by (simp add: g)
  qed
  have new: "cap_action ` set ds \<inter> cap_action ` (C \<union> set cs) = {}" if "(q, ds) \<in> set gs" for q ds
  proof -
    have "q \<noteq> p" using that Cons.prems(3) by (force simp: g)
    then have "cap_action ` set ds \<inter> cap_action ` set cs = {}" using Cons.prems(4) [of q ds p cs] that by (simp add: g)
    then show ?thesis using Cons.prems(5) [of q ds] that by (auto simp: image_Un)
  qed
  have "\<exists>reg'. register_groups invoke gs reg1 = Inr reg' \<and>
      serves invoke (C \<union> set cs \<union> (\<Union>(p, cs)\<in>set gs. set cs)) reg'"
  proof (rule Cons.IH [OF s1 _ _ _ new], goal_cases)
    case 1 then show ?case using Cons.prems(2) by (simp add: g)
  next
    case 2 then show ?case using Cons.prems(3) by (simp add: g)
  next
    case (3 q ds r es) then show ?case using Cons.prems(4) [of q ds r es] by simp
  qed
  then show ?case using ad reg1 by (auto simp: g Un_assoc)
qed simp

lemma bound_runtime_serves:
  assumes "RuntimeManifest_from_dict p = Inr m"
  shows "\<exists>reg. BoundRuntime m invoke ops = Inr \<lparr>or_registry = reg, or_store = ops\<rparr> \<and>
           serves invoke (binding_capability ` set (rm_bindings m)) reg"
proof -
  let ?bs = "rm_bindings m" and ?gs = "sort_key fst (group_bindings (rm_bindings m))"
  note m = manifest_Inr [OF assms]
  have act: "cap_action (binding_capability b) = rb_action b" for b by (simp add: binding_capability_def)
  have inj: "rb_action b = rb_action b' \<longleftrightarrow> b = b'" if "b \<in> set ?bs" "b' \<in> set ?bs" for b b'
    using m(1) that by (auto simp: distinct_map inj_on_def)
  have gs: "cs = map binding_capability (filter (\<lambda>b. rb_provider b = q) ?bs)" "cs \<noteq> []" if "(q, cs) \<in> set ?gs" for q cs
    using group_bindings_set [of q cs ?bs] that by simp_all
  have caps: "list_all (\<lambda>(p, cs). cs \<noteq> [] \<and> distinct (map cap_action cs)) ?gs"
    unfolding list_all_iff
  proof (clarify, intro conjI)
    fix q cs assume "(q, cs) \<in> set ?gs"
    from gs [OF this] m(1) show "cs \<noteq> []" "distinct (map cap_action cs)"
      by (simp_all add: comp_def act distinct_map_filter)
  qed
  have dist: "distinct (map fst ?gs)" using group_bindings_distinct by (simp add: distinct_map)
  have disjoint: "cap_action ` set cs \<inter> cap_action ` set ds = {}"
    if "(q, cs) \<in> set ?gs" "(r, ds) \<in> set ?gs" "q \<noteq> r" for q cs r ds
    using inj that(3) unfolding gs(1) [OF that(1)] gs(1) [OF that(2)] by (auto simp: act)
  have "\<exists>reg. register_groups invoke ?gs ToolRegistry = Inr reg \<and>
      serves invoke ({} \<union> (\<Union>(p, cs)\<in>set ?gs. set cs)) reg"
    by (rule register_groups_serves [OF serves_new caps dist disjoint]) simp_all
  then obtain reg where reg: "register_groups invoke ?gs ToolRegistry = Inr reg"
    and serves: "serves invoke (\<Union>(p, cs)\<in>set ?gs. set cs) reg"
    by auto
  have "(\<Union>(p, cs)\<in>set ?gs. set cs) = binding_capability ` set ?bs"
    using gs(1) group_bindings_covers [of _ ?bs] by fastforce
  with reg serves show ?thesis by (simp add: BoundRuntime_def)
qed

lemma lookup_iff:
  assumes "\<And>x. x \<in> X \<Longrightarrow> m (f x) = Some (g x)" and "dom m = f ` X"
  shows "m a = Some y \<longleftrightarrow> (\<exists>x\<in>X. f x = a \<and> y = g x)"
proof
  assume y: "m a = Some y"
  then obtain x where "x \<in> X" "a = f x" using assms(2) by blast
  with y assms(1) show "\<exists>x\<in>X. f x = a \<and> y = g x" by auto
qed (use assms(1) in auto)

section \<open>Properties\<close>

text \<open>C14. The orchestrator calls only what it permitted: a run behaves the same when every
  registered implementation ends the process that the specification does not use or whose access is
  not among the allowed ones. When the preflight reports a missing or forbidden action, the run
  raises \<open>ValueError\<close> and changes nothing, neither lock nor state nor ledger.\<close>

theorem orchestrator_calls_only_permitted:
  fixes orch :: "'w orchestrator"
  shows "orchestrator_run (orch\<lparr>or_registry := disarm (not_permitted (or_registry orch) spec allowed) (or_registry orch)\<rparr>)
      spec ctx allowed = orchestrator_run orch spec ctx allowed \<and>
    (case preflight orch spec allowed of
       Inl e \<Rightarrow> orchestrator_run orch spec ctx allowed w = (Inl e, w)
     | Inr report \<Rightarrow> pf_ready report \<or> (\<exists>msg. orchestrator_run orch spec ctx allowed w = (Inl (Exc ValueError msg), w)))"
proof -
  have "orchestrator_run orch spec ctx allowed w = (Inl e, w)" if "preflight orch spec allowed = Inl e" for e
    using that by (simp add: orchestrator_run_def)
  then show ?thesis
    using orchestrator_run_disarm [of orch spec allowed ctx] orchestrator_not_ready [of orch spec allowed]
    by (auto split: sum.splits)
qed

text \<open>C38. A manifest that is accepted yields a runtime, and its registry holds exactly the
  capabilities of the manifest's bindings, each implemented by a call of the bridge with that
  capability. Every binding has a provider, an action of its own and one of the three access
  modes.\<close>

theorem runtime_serves_its_manifest:
  assumes "RuntimeManifest_from_dict p = Inr m"
  shows "\<exists>reg. BoundRuntime m invoke ops = Inr \<lparr>or_registry = reg, or_store = ops\<rparr> \<and> registry_ok reg \<and>
      (\<forall>a c. registry_capability reg a = Some c \<longleftrightarrow> (\<exists>b\<in>set (rm_bindings m). rb_action b = a \<and> c = binding_capability b)) \<and>
      (\<forall>a act. map_of (rg_actions reg) a = Some act \<longleftrightarrow>
         (\<exists>b\<in>set (rm_bindings m). rb_action b = a \<and> act = bridge_action invoke (binding_capability b))) \<and>
      distinct (map rb_action (rm_bindings m)) \<and> list_all binding_ok (rm_bindings m)"
proof -
  obtain reg where reg: "BoundRuntime m invoke ops = Inr \<lparr>or_registry = reg, or_store = ops\<rparr>"
    and serves: "serves invoke (binding_capability ` set (rm_bindings m)) reg"
    using bound_runtime_serves [OF assms] by blast
  have act: "cap_action (binding_capability b) = rb_action b" for b by (simp add: binding_capability_def)
  have doms: "dom (map_of (rg_actions reg)) = rb_action ` set (rm_bindings m)"
    "dom (map_of (rg_capabilities reg)) = rb_action ` set (rm_bindings m)" and ok: "registry_ok reg"
    using serves by (auto simp: serves_def registry_ok_def image_image act)
  have served: "map_of (rg_capabilities reg) (rb_action b) = Some (binding_capability b)"
    "map_of (rg_actions reg) (rb_action b) = Some (bridge_action invoke (binding_capability b))"
    if "b \<in> set (rm_bindings m)" for b
    using serves that by (auto simp: serves_def act)
  have "registry_capability reg a = Some c \<longleftrightarrow> (\<exists>b\<in>set (rm_bindings m). rb_action b = a \<and> c = binding_capability b)" for a c
    unfolding registry_capability_def by (rule lookup_iff [OF served(1) doms(2)])
  moreover have "map_of (rg_actions reg) a = Some f \<longleftrightarrow>
      (\<exists>b\<in>set (rm_bindings m). rb_action b = a \<and> f = bridge_action invoke (binding_capability b))" for a f
    by (rule lookup_iff [OF served(2) doms(1)])
  ultimately show ?thesis
    using reg ok manifest_Inr [OF assms] by blast
qed

text \<open>A manifest of two providers.\<close>

definition demo_manifest :: pydict where
  "demo_manifest =
     [(''schema_version'', PStr ''agent-runtime-bindings-v1''),
      (''bindings'', PList
        [PDict [(''provider'', PStr ''web''), (''action'', PStr ''web.read''), (''access'', PStr ''read'')],
         PDict [(''provider'', PStr ''files''), (''action'', PStr ''files.write''), (''access'', PStr ''write''),
                (''required_permissions'', PList [PStr ''files:write''])]])]"

theorem runtime_serves_its_manifest_witness:
  "\<exists>m reg. RuntimeManifest_from_dict demo_manifest = Inr m \<and>
     BoundRuntime m (\<lambda>cap args ctx. retE BV_None) (fs_ops :: file_store store_ops) = Inr \<lparr>or_registry = reg, or_store = fs_ops\<rparr> \<and>
     registry_capability reg ''files.write'' = Some \<lparr>cap_action = ''files.write'', cap_access = ''write'',
       cap_required_permissions = [''files:write''], cap_supports_dry_run = False, cap_description = []\<rparr>"
proof -
  let ?b1 = "\<lparr>rb_provider = ''web'', rb_action = ''web.read'', rb_access = ''read'', rb_required_permissions = [],
    rb_supports_dry_run = False, rb_description = []\<rparr>"
  let ?b2 = "\<lparr>rb_provider = ''files'', rb_action = ''files.write'', rb_access = ''write'',
    rb_required_permissions = [''files:write''], rb_supports_dry_run = False, rb_description = []\<rparr>"
  have m: "RuntimeManifest_from_dict demo_manifest = Inr \<lparr>rm_schema_version = ''agent-runtime-bindings-v1'', rm_bindings = [?b1, ?b2]\<rparr>"
    by code_simp
  show ?thesis
    using m runtime_serves_its_manifest [OF m, of "\<lambda>cap args ctx. retE BV_None" "fs_ops :: file_store store_ops"]
    by (auto simp: binding_capability_def)
qed

end
