(* ===== verification/Gate_Results.thy ===== *)
theory Gate_Results
  imports Credential_Adapter Runtime_Results
begin

text \<open>
  Properties of the credential gate: which exceptions leave it, what its search keeps from being returned, and that
  every action of a gated adapter passes through it.
\<close>

definition secret_free :: "credential_snapshot \<Rightarrow> obj \<Rightarrow> bool" where
  "secret_free snap ob \<longleftrightarrow> \<not> holds_snapshot ob \<and>
     \<not> (\<exists>n s t. map_of (cs_secrets snap) n = Some s \<and> s \<noteq> [] \<and> t \<in> set (obj_strings ob) \<and> substring s t)"

lemma gate_with_snapshot:
  assumes "source (rq_capabilities req) (rq_minimum_ttl_seconds req) (rq_require_known_expiry req) w = (Inr (Some snap), w1)"
  shows "gate_invoke source req impl args ctx w =
    (case impl args (with_snapshot ctx snap) w1 of
       (Inl e, w') \<Rightarrow> (Inl (provider_failure e), w')
     | (Inr result, w') \<Rightarrow> (if secret_free snap (obj_of_bound result) then Inr (as_action_value result)
                           else Inl (Exc SafeActionError ''credential_material_return_forbidden''), w'))"
proof -
  obtain vs where vs: "secret_values snap = Inr vs" "set vs = {v. \<exists>n. map_of (cs_secrets snap) n = Some v}"
    using secret_values_ok by blast
  have free: "contains_credential_material vs ob \<longleftrightarrow> \<not> secret_free snap ob" for ob
    unfolding contains_iff leaks_def secret_free_def vs(2) by blast
  show ?thesis
    by (simp add: gate_invoke_def bindE_apply gate_acquire_cases assms vs(1) tryE_apply free split: prod.split sum.split)
qed

lemma gate_without_snapshot:
  assumes "source (rq_capabilities req) (rq_minimum_ttl_seconds req) (rq_require_known_expiry req) w = (r, w1)"
    and "\<And>snap. r \<noteq> Inr (Some snap)"
  shows "\<exists>e\<in>set gate_errors. gate_invoke source req impl args ctx w = (Inl e, w1)"
proof (cases r)
  case (Inl e)
  then show ?thesis
    using assms(1) failures_listed(1) by (simp add: gate_invoke_def bindE_apply gate_acquire_cases)
next
  case (Inr x)
  then have "x = None" using assms(2) [of "the x"] by (cases x) simp_all
  with Inr show ?thesis
    using assms(1) by (simp add: gate_invoke_def bindE_apply gate_acquire_cases gate_errors_def)
qed

text \<open>C13. The credential gate is tight as far as its search looks. Without a snapshot the wrapped action is
  not called and the gate raises one of ten fixed exceptions. With a snapshot it raises one of them or
  returns what the action returned, and then the result, its fields and the lists, tuples, sets and mappings
  in it hold neither a snapshot nor a string that contains one of the snapshot's secrets. This says
  nothing of generators, bytes and other objects, which the search does not look into: the last
  section shows a secret that leaves in one. The text of the exceptions of the credential provider
  and of the action influences nothing.\<close>

theorem credential_gate_is_tight:
  "(case source (rq_capabilities req) (rq_minimum_ttl_seconds req) (rq_require_known_expiry req) w of
      (Inr (Some snap), w1) \<Rightarrow>
        (case gate_invoke source req impl args ctx w of
           (Inl e, w') \<Rightarrow> e \<in> set gate_errors \<and> w' = snd (impl args (with_snapshot ctx snap) w1)
         | (Inr v, w') \<Rightarrow> \<exists>result. impl args (with_snapshot ctx snap) w1 = (Inr result, w') \<and>
             v = as_action_value result \<and> secret_free snap (obj_of_bound result))
    | (_, w1) \<Rightarrow> \<exists>e\<in>set gate_errors. gate_invoke source req impl args ctx w = (Inl e, w1)) \<and>
   gate_invoke (\<lambda>caps ttl known. erase (source caps ttl known)) req (\<lambda>args lc. erase (impl args lc)) =
     gate_invoke source req impl"
proof -
  obtain r w1 where src: "source (rq_capabilities req) (rq_minimum_ttl_seconds req) (rq_require_known_expiry req) w = (r, w1)"
    by fastforce
  show ?thesis
  proof (cases "\<exists>snap. r = Inr (Some snap)")
    case True
    then obtain snap where r: "r = Inr (Some snap)" by blast
    obtain q w' where q: "impl args (with_snapshot ctx snap) w1 = (q, w')" by fastforce
    show ?thesis
      unfolding gate_invoke_erased using gate_with_snapshot [of source req w snap w1 impl args ctx] failures_listed(2)
      by (cases q) (simp_all add: src r q gate_errors_def)
  next
    case False
    then show ?thesis
      unfolding gate_invoke_erased using gate_without_snapshot [of source req w r w1 impl args ctx]
      by (auto simp: src split: sum.splits option.splits)
  qed
qed

lemma requirement_map_Inr:
  assumes "requirement_map reqs m = Inr rm" and "map_of rm a = Some r"
  shows "map_of m a = Some r \<or> (Requirement r \<in> set reqs \<and> rq_action r = a)"
  using assms
proof (induction reqs m rule: requirement_map.induct)
  case (3 q rest m)
  then have "map_of (AList.update (rq_action q) q m) a = Some r \<or> (Requirement r \<in> set rest \<and> rq_action r = a)"
    by (simp split: if_split_asm)
  then show ?case by (auto simp: update_conv' split: if_split_asm)
qed simp_all

lemma bound_adapter_Inr:
  assumes "CredentialBoundToolAdapter (Some inner) (Some source) reqs = Inr ca"
  obtains "ca_provider ca = source" "ca_capabilities ca = ba_capabilities inner"
    "ca_actions ca = dict_update [] (ba_actions inner)" "requirement_map reqs [] = Inr (ca_requirements ca)"
    "dom (map_of (ca_requirements ca)) = dom (map_of (ca_actions ca))"
    "cap_action ` set (ba_capabilities inner) = dom (map_of (ca_actions ca))"
  using assms
  by (auto simp: CredentialBoundToolAdapter_def Let_def bindR_eq_Inr same_keys_iff dom_map_of_conv_image_fst
      split: if_split_asm)

text \<open>Every action of a gated adapter passes through the gate. A gated adapter that was
  constructed registers on a registry that has none of its actions; the registry then holds, for
  each of its capabilities, the wrapped action behind a requirement that was given for this very
  action, and nothing else is new.\<close>

theorem gate_covers_every_action:
  assumes "CredentialBoundToolAdapter (Some inner) (Some source) reqs = Inr ca" and "registry_ok reg"
    and "cap_action ` set (ba_capabilities inner) \<inter> dom (map_of (rg_actions reg)) = {}"
  shows "\<exists>reg'. register (gate_adapter ca) reg = Inr reg' \<and> registry_ok reg' \<and>
    (\<forall>a. if a \<in> cap_action ` set (ba_capabilities inner)
         then \<exists>req impl. Requirement req \<in> set reqs \<and> rq_action req = a \<and> map_of (rev (ba_actions inner)) a = Some impl \<and>
                map_of (rg_actions reg') a = Some (gate_invoke source req impl)
         else map_of (rg_actions reg') a = map_of (rg_actions reg) a)"
proof (rule bound_adapter_Inr [OF assms(1)])
  let ?A = "cap_action ` set (ba_capabilities inner)"
  assume src: "ca_provider ca = source" and caps: "ca_capabilities ca = ba_capabilities inner"
    and acts: "ca_actions ca = dict_update [] (ba_actions inner)"
    and rm: "requirement_map reqs [] = Inr (ca_requirements ca)"
    and doms: "dom (map_of (ca_requirements ca)) = dom (map_of (ca_actions ca))" "?A = dom (map_of (ca_actions ca))"
  have gated: "map_of (map (\<lambda>(a, impl). (a, gated_action ca a impl)) xs) a = map_option (gated_action ca a) (map_of xs a)" for xs a
    by (induction xs) auto
  have dist: "distinct (map fst (ca_actions ca))" by (simp add: acts distinct_dict_update)
  have "map fst (credential_adapter_actions ca) = map fst (ca_actions ca)"
    by (simp add: credential_adapter_actions_def comp_def split_def)
  then have keys: "fst ` set (credential_adapter_actions ca) = ?A" "distinct (map fst (credential_adapter_actions ca))"
    using dist by (metis doms(2) dom_map_of_conv_image_fst set_map, simp)
  obtain reg' where reg': "register (gate_adapter ca) reg = Inr reg'"
    using register_total [of "gate_adapter ca" reg] assms(3) by (auto simp: gate_adapter_def keys caps)
  have new: "map_of (rg_actions reg') a = (map_of (rg_actions reg) ++ map_of (credential_adapter_actions ca)) a" for a
    using register_Inr(3) [OF reg'] map_of_rev_distinct [OF keys(2)] by (simp add: map_of_rev_update gate_adapter_def)
  have at_action: "\<exists>req impl. Requirement req \<in> set reqs \<and> rq_action req = a \<and> map_of (rev (ba_actions inner)) a = Some impl \<and>
      map_of (rg_actions reg') a = Some (gate_invoke source req impl)" if "a \<in> ?A" for a
  proof -
    have "a \<in> dom (map_of (ca_actions ca))" "a \<in> dom (map_of (ca_requirements ca))" using that by (simp_all only: doms)
    then obtain impl req where impl: "map_of (ca_actions ca) a = Some impl" and req: "map_of (ca_requirements ca) a = Some req"
      by blast
    have "Requirement req \<in> set reqs \<and> rq_action req = a" using requirement_map_Inr [OF rm req] by simp
    moreover have "map_of (rev (ba_actions inner)) a = Some impl" using impl by (simp add: acts dict_update_map_of)
    moreover have "map_of (rg_actions reg') a = Some (gate_invoke source req impl)"
    proof -
      have "gated_action ca a impl = gate_invoke source req impl" by (simp add: gated_action_def req src)
      then show ?thesis by (simp add: new credential_adapter_actions_def gated impl)
    qed
    ultimately show ?thesis by blast
  qed
  have "map_of (rg_actions reg') a = map_of (rg_actions reg) a" if "a \<notin> ?A" for a
  proof -
    have "map_of (credential_adapter_actions ca) a = None" using that by (simp add: map_of_eq_None_iff keys(1))
    then show ?thesis by (simp add: new map_add_def)
  qed
  then show ?thesis
    using at_action reg' register_keeps_ok [OF reg' assms(2)] by (intro exI [of _ reg']) simp
qed

text \<open>An adapter with one action that reads with the token, on the static provider.\<close>

definition static_source :: "static_provider \<Rightarrow> int \<Rightarrow> 'w credential_source" where
  "static_source p now caps ttl known =
     liftE (bindR (static_snapshot p (PList (map PStr caps)) (PInt ttl) (PBool known) PNone now) (\<lambda>s. Inr (Some s)))"

definition demo_inner :: "unit bound_adapter" where
  "demo_inner = \<lparr>ba_name = ''git'',
     ba_capabilities = [\<lparr>cap_action = ''git.read'', cap_access = ''read'', cap_required_permissions = [],
       cap_supports_dry_run = True, cap_description = []\<rparr>],
     ba_actions = [(''git.read'', (\<lambda>args lc. bindE (liftE (require_credential_snapshot lc)) (\<lambda>snap.
       retE (Plain (AV_Result \<lparr>rs_message = cs_provider_id snap, rs_artifacts = [], rs_data = []\<rparr>)))))]\<rparr>"

definition demo_requirement :: credential_requirement where
  "demo_requirement = \<lparr>rq_action = ''git.read'', rq_capabilities = [''read''], rq_minimum_ttl_seconds = 300,
     rq_require_known_expiry = True\<rparr>"

theorem gate_covers_every_action_witness:
  "\<exists>ca reg' req impl. CredentialBoundToolAdapter (Some demo_inner) (Some (static_source demo_static 500)) [Requirement demo_requirement] = Inr ca \<and>
     register (gate_adapter ca) ToolRegistry = Inr reg' \<and>
     map_of (rg_actions reg') ''git.read'' = Some (gate_invoke (static_source demo_static 500) demo_requirement impl)"
proof -
  obtain ca where ca: "CredentialBoundToolAdapter (Some demo_inner) (Some (static_source demo_static 500)) [Requirement demo_requirement] = Inr ca"
    by (simp add: CredentialBoundToolAdapter_def demo_inner_def demo_requirement_def dict_update_def same_keys_def)
  have none: "cap_action ` set (ba_capabilities demo_inner) \<inter> dom (map_of (rg_actions ToolRegistry)) = {}"
    by (simp add: ToolRegistry_def)
  from gate_covers_every_action [OF ca registry_new none] obtain reg' where
    reg': "register (gate_adapter ca) ToolRegistry = Inr reg'"
    and all: "\<And>a. a \<in> cap_action ` set (ba_capabilities demo_inner) \<Longrightarrow>
      \<exists>req impl. Requirement req \<in> set [Requirement demo_requirement] \<and>
        map_of (rg_actions reg') a = Some (gate_invoke (static_source demo_static 500) req impl)"
    by metis
  have "\<exists>req impl. Requirement req \<in> set [Requirement demo_requirement] \<and>
      map_of (rg_actions reg') ''git.read'' = Some (gate_invoke (static_source demo_static 500) req impl)"
    by (rule all) (simp add: demo_inner_def)
  with ca reg' show ?thesis by auto
qed

text \<open>
  The search does not look into a generator, and the runner takes its artifacts from any iterable:
  a result that hides a secret there passes the gate, and the runner reads it.
\<close>

theorem gate_misses_generators:
  "gate_invoke (static_source demo_static 500) demo_requirement
     (\<lambda>args lc. retE (Plain (AV_Dict [] (Iterable [Inr (PDict [(''artifact_id'', PStr ''abc''), (''kind'', PStr ''k'')])])))) [] [] () =
   (Inr (AV_Dict [] (Iterable [Inr (PDict [(''artifact_id'', PStr ''abc''), (''kind'', PStr ''k'')])])), ())"
  by code_simp

end
