(* ===== verification/Trusted_Run.thy ===== *)
theory Trusted_Run
  imports Hosted_Checkpoint Hosted_Recovery Hosted_Worker
begin

text \<open>
  One authorised run of the trusted status task: the committed activation manifest
  (\<^verbatim>\<open>src/agent_core/activation.py\<close>), run instances of the trusted task
  (\<^verbatim>\<open>src/agent_core/trusted_run_instance.py\<close>), their enqueueing
  (\<^verbatim>\<open>src/agent_core/trusted_run_enqueue.py\<close>) and the host of a single run
  (\<^verbatim>\<open>src/agent_core/single_run_host.py\<close>).

  The fingerprint that the source pins (\<open>TRUSTED_TASK_FINGERPRINT\<close>) is an argument, so that the
  facts hold for whatever task is pinned; a file below the repository root is the value of its
  JSON text, or the exception that reading it raises.
\<close>

section \<open>The activation manifest\<close>

abbreviation TRUSTED_REPOSITORY :: string where
  "TRUSTED_REPOSITORY \<equiv> ''bzlove178100/-keirin-ai-web''"

abbreviation TRUSTED_TASK_FILE :: string where
  "TRUSTED_TASK_FILE \<equiv> ''agent_core/examples/keirin_readonly_status_task.json''"

abbreviation TRUSTED_TASK_ID :: string where
  "TRUSTED_TASK_ID \<equiv> ''keirin-readonly-status-check''"

definition TRUSTED_ACTIONS :: "string list" where
  "TRUSTED_ACTIONS = [''github.read_main'', ''github.verify_ci'']"

definition TRUSTED_GITHUB_PERMISSIONS :: "string list" where
  "TRUSTED_GITHUB_PERMISSIONS = [''actions:read'', ''contents:read'']"

record activation_manifest =
  am_activation_enabled :: bool
  am_mode :: string
  am_max_tasks :: int
  am_scheduler_enabled :: bool
  am_recurrence_enabled :: bool
  am_allowed_access :: "string list"
  am_repository :: string
  am_task_file :: string
  am_task_id :: string
  am_task_fingerprint :: string
  am_actions :: "string list"
  am_github_permissions :: "string list"
  am_safety :: pydict

definition live_execution_authorized :: "activation_manifest \<Rightarrow> bool" where
  "live_execution_authorized m = False"

fun bool_field :: "pyval \<Rightarrow> string \<Rightarrow> bool res" where
  "bool_field (PBool b) name = Inr b"
| "bool_field _ name = value_error (name @ ''_must_be_boolean'')"

definition string_tuple :: "pyval \<Rightarrow> string \<Rightarrow> string list res" where
  "string_tuple v name =
     (case v of
        PList items \<Rightarrow>
          if \<not> list_all (\<lambda>i. as_str i \<notin> {None, Some []}) items then value_error (''invalid_'' @ name)
          else
            let result = map py_str items
            in if \<not> distinct result then value_error (''duplicate_'' @ name) else Inr result
      | _ \<Rightarrow> value_error (''invalid_'' @ name))"

definition trusted_task :: "(string \<Rightarrow> pydict res) \<Rightarrow> string \<Rightarrow> task_spec res" where
  "trusted_task repo_file task_file =
     (if task_file \<noteq> TRUSTED_TASK_FILE then value_error ''untrusted_task_file''
      else bindR (repo_file task_file) TaskSpec_from_dict)"

definition required_safety :: pydict where
  "required_safety =
     [(''github_write_enabled'', PBool False), (''production_prediction_enabled'', PBool False),
      (''keirin_prediction_db_write_enabled'', PBool False), (''external_keirin_auto_fetch_enabled'', PBool False),
      (''provider_generation_enabled'', PBool False), (''report_delivery_enabled'', PBool False)]"

text \<open>\<open>tuple(dict.fromkeys(...))\<close>: the actions in the order of their first use.\<close>

definition actions_in_order :: "task_spec \<Rightarrow> string list" where
  "actions_in_order spec =
     rev (remdups (rev (concat (map (\<lambda>s. filter (\<lambda>a. a \<noteq> [])
       (ss_action s # (case ss_verify_action s of None \<Rightarrow> [] | Some v \<Rightarrow> [v]))) (sp_steps spec)))))"

fun safety_inputs :: "pydict \<Rightarrow> string list \<Rightarrow> unit res" where
  "safety_inputs inputs [] = Inr ()"
| "safety_inputs inputs (k # ks) =
     (if dict_get inputs k \<noteq> PBool False then value_error (''trusted_task_safety_input_not_false:'' @ k)
      else safety_inputs inputs ks)"

definition check_task :: "string \<Rightarrow> task_spec \<Rightarrow> string list \<Rightarrow> unit res" where
  "check_task fp spec actions =
     (if sp_task_id spec \<noteq> TRUSTED_TASK_ID then value_error ''manifest_task_id_does_not_match_task''
      else if fingerprint spec \<noteq> fp then value_error ''manifest_task_fingerprint_does_not_match_task''
      else if actions_in_order spec \<noteq> actions \<or> sp_allowed_actions spec \<noteq> actions
      then value_error ''manifest_actions_do_not_match_task''
      else if \<not> py_eq (dict_get (sp_inputs spec) ''repository'') (PStr TRUSTED_REPOSITORY)
      then value_error ''manifest_repository_does_not_match_task''
      else safety_inputs (sp_inputs spec)
             [''production_prediction_enabled'', ''db_write_enabled'', ''external_fetch_enabled''])"

text \<open>The checks of the manifest's own fields up to the safety contract.\<close>

definition manifest_flags :: "pydict \<Rightarrow> unit res" where
  "manifest_flags p =
     (if \<not> py_eq (dict_get p ''schema_version'') (PStr ''agent-host-activation-v1'') then value_error ''activation_schema_mismatch''
      else
        bindR (bool_field (dict_get p ''activation_enabled'') ''activation_enabled'') (\<lambda>activation.
        bindR (bool_field (dict_get p ''scheduler_enabled'') ''scheduler_enabled'') (\<lambda>scheduler.
        bindR (bool_field (dict_get p ''recurrence_enabled'') ''recurrence_enabled'') (\<lambda>recurrence.
        if activation then value_error ''committed_activation_must_be_disabled''
        else if scheduler \<or> recurrence then value_error ''scheduler_or_recurrence_forbidden''
        else if \<not> py_eq (dict_get p ''mode'') (PStr ''single_run'') then value_error ''single_run_mode_required''
        else if dict_get p ''max_tasks'' \<noteq> PInt 1 then value_error ''max_tasks_must_equal_one''
        else Inr ()))))"

definition manifest_scope :: "string \<Rightarrow> pydict \<Rightarrow> (string list \<times> string \<times> string list \<times> string list \<times> pydict) res" where
  "manifest_scope fp p =
     bindR (string_tuple (dict_get p ''allowed_access'') ''allowed_access'') (\<lambda>allowed.
     if allowed \<noteq> [''read''] then value_error ''read_only_access_required''
     else if \<not> py_eq (dict_get p ''repository'') (PStr TRUSTED_REPOSITORY) then value_error ''repository_scope_mismatch''
     else case dict_get p ''task_file'' of
       PStr task_file \<Rightarrow>
         if \<not> py_eq (dict_get p ''task_id'') (PStr TRUSTED_TASK_ID) then value_error ''task_id_scope_mismatch''
         else if \<not> py_eq (dict_get p ''task_fingerprint'') (PStr fp) then value_error ''task_fingerprint_scope_mismatch''
         else
           bindR (string_tuple (dict_get p ''actions'') ''actions'') (\<lambda>actions.
           if actions \<noteq> TRUSTED_ACTIONS then value_error ''action_scope_mismatch''
           else
             bindR (string_tuple (dict_get p ''github_permissions'') ''github_permissions'') (\<lambda>permissions.
             if sort permissions \<noteq> TRUSTED_GITHUB_PERMISSIONS then value_error ''github_permission_scope_mismatch''
             else case dict_get p ''safety'' of
               PDict safety \<Rightarrow>
                 if \<not> py_eq (PDict safety) (PDict required_safety) then value_error ''activation_safety_contract_mismatch''
                 else Inr (allowed, task_file, actions, sort permissions, safety)
             | _ \<Rightarrow> value_error ''activation_safety_contract_mismatch''))
     | _ \<Rightarrow> value_error ''task_file_required'')"

definition validate_hosted_activation_manifest ::
  "string \<Rightarrow> (string \<Rightarrow> pydict res) \<Rightarrow> pyval \<Rightarrow> activation_manifest res" where
  "validate_hosted_activation_manifest fp repo_file payload =
     (case payload of
        PDict p \<Rightarrow>
          bindR (manifest_flags p) (\<lambda>_.
          bindR (manifest_scope fp p) (\<lambda>(allowed, task_file, actions, permissions, safety).
          bindR (trusted_task repo_file task_file) (\<lambda>spec.
          bindR (check_task fp spec actions) (\<lambda>_.
          Inr \<lparr>am_activation_enabled = False, am_mode = ''single_run'', am_max_tasks = 1,
               am_scheduler_enabled = False, am_recurrence_enabled = False, am_allowed_access = allowed,
               am_repository = TRUSTED_REPOSITORY, am_task_file = task_file, am_task_id = TRUSTED_TASK_ID,
               am_task_fingerprint = fp, am_actions = actions, am_github_permissions = permissions,
               am_safety = safety\<rparr>))))
      | _ \<Rightarrow> value_error ''activation_manifest_object_required'')"

section \<open>Run instances\<close>

definition TRUSTED_RUN_ID_PREFIX :: string where
  "TRUSTED_RUN_ID_PREFIX = TRUSTED_TASK_ID @ ''.''"

record run_instance =
  ri_task_id :: string
  ri_instance_token :: string
  ri_instance_fingerprint :: string
  ri_template_fingerprint :: string

text \<open>\<^verbatim>\<open>^[0-9a-f]{16,32}$\<close> with \<open>fullmatch\<close>.\<close>

definition token_ok :: "string \<Rightarrow> bool" where
  "token_ok t \<longleftrightarrow> list_all (\<lambda>c. is_digit c \<or> c \<in> set ''abcdef'') t \<and> 16 \<le> length t \<and> length t \<le> 32"

definition trusted_status_template_spec :: "string \<Rightarrow> pydict res \<Rightarrow> task_spec res" where
  "trusted_status_template_spec fp template_file =
     bindR (bindR template_file TaskSpec_from_dict) (\<lambda>spec.
       if sp_task_id spec \<noteq> TRUSTED_TASK_ID \<or> fingerprint spec \<noteq> fp then value_error ''trusted_status_template_changed''
       else Inr spec)"

definition instance_token :: "string \<Rightarrow> string res" where
  "instance_token tid =
     (if \<not> starts_with TRUSTED_RUN_ID_PREFIX tid then value_error ''trusted_run_instance_id_required''
      else
        let token = drop (length TRUSTED_RUN_ID_PREFIX) tid
        in if \<not> token_ok token then value_error ''invalid_trusted_run_instance_token'' else Inr token)"

definition build_trusted_status_run_spec :: "string \<Rightarrow> pydict res \<Rightarrow> string \<Rightarrow> task_spec res" where
  "build_trusted_status_run_spec fp template_file token =
     (if \<not> token_ok token then value_error ''invalid_trusted_run_instance_token''
      else
        bindR (trusted_status_template_spec fp template_file) (\<lambda>template.
        TaskSpec_from_dict (AList.update ''task_id'' (PStr (TRUSTED_RUN_ID_PREFIX @ token)) (TaskSpec_to_dict template))))"

definition validate_trusted_status_run_spec :: "string \<Rightarrow> pydict res \<Rightarrow> task_spec \<Rightarrow> run_instance res" where
  "validate_trusted_status_run_spec fp template_file spec =
     bindR (TaskSpec_from_dict (TaskSpec_to_dict spec)) (\<lambda>candidate.
     bindR (instance_token (sp_task_id candidate)) (\<lambda>token.
     bindR (trusted_status_template_spec fp template_file) (\<lambda>template.
     bindR (TaskSpec_from_dict (AList.update ''task_id'' (PStr TRUSTED_TASK_ID) (TaskSpec_to_dict candidate))) (\<lambda>canonical.
     if \<not> py_eq (PDict (TaskSpec_to_dict canonical)) (PDict (TaskSpec_to_dict template))
     then value_error ''trusted_run_instance_scope_mismatch''
     else if fingerprint canonical \<noteq> fp then value_error ''trusted_run_instance_template_fingerprint_mismatch''
     else Inr \<lparr>ri_task_id = sp_task_id candidate, ri_instance_token = token,
               ri_instance_fingerprint = fingerprint candidate, ri_template_fingerprint = fingerprint canonical\<rparr>))))"

definition is_trusted_status_run_spec :: "string \<Rightarrow> pydict res \<Rightarrow> task_spec \<Rightarrow> bool res" where
  "is_trusted_status_run_spec fp template_file spec =
     (case validate_trusted_status_run_spec fp template_file spec of
        Inr _ \<Rightarrow> Inr True
      | Inl e \<Rightarrow> if catches KeyError e \<or> catches TypeError e \<or> catches ValueError e then Inr False else Inl e)"

section \<open>Enqueueing a run instance\<close>

abbreviation TrustedRunAlreadyUsed :: "string \<Rightarrow> exc" where
  "TrustedRunAlreadyUsed m \<equiv> Exc (OtherError ''TrustedRunAlreadyUsed'') m"

record enqueue_result =
  eq_record :: checkpoint_record
  eq_created :: bool

definition assert_pristine :: "checkpoint_record \<Rightarrow> task_spec \<Rightarrow> checkpoint_record res" where
  "assert_pristine rec spec =
     (if cr_task_id rec \<noteq> sp_task_id spec \<or> \<not> py_eq (PDict (TaskSpec_to_dict (cr_spec rec))) (PDict (TaskSpec_to_dict spec))
      then Inl (TrustedRunAlreadyUsed ''trusted_run_instance_identity_mismatch'')
      else if cr_idempotency_key rec \<noteq> sp_task_id spec
      then Inl (TrustedRunAlreadyUsed ''trusted_run_instance_idempotency_mismatch'')
      else if cr_status rec \<noteq> ''queued'' \<or> cr_revision rec \<noteq> 0 \<or> \<not> py_eq (st_status (cr_state rec)) (PStr ''pending'')
      then Inl (TrustedRunAlreadyUsed (''trusted_run_instance_already_used:'' @ cr_status rec))
      else if st_attempts (cr_state rec) \<noteq> [] \<or> st_completed_steps (cr_state rec) \<noteq> []
      then Inl (TrustedRunAlreadyUsed ''trusted_run_instance_has_prior_progress'')
      else Inr rec)"

definition pristine_result :: "task_spec \<Rightarrow> bool \<Rightarrow> checkpoint_record \<Rightarrow> ('w, enqueue_result) eff" where
  "pristine_result spec created rec =
     bindE (liftE (assert_pristine rec spec)) (\<lambda>r. retE \<lparr>eq_record = r, eq_created = created\<rparr>)"

text \<open>The inner handler: the conflict is resolved by reading this very identity again.\<close>

definition after_conflict :: "'w queue_host \<Rightarrow> task_spec \<Rightarrow> ('w, enqueue_result) eff" where
  "after_conflict h spec = (\<lambda>w.
     case checkpoint_get h spec w of
       (Inr existing, w') \<Rightarrow> pristine_result spec False existing w'
     | (Inl e, w') \<Rightarrow>
         if catches HostedCheckpointNotFound e
         then (Inl (TrustedRunAlreadyUsed ''another_trusted_run_instance_is_active''), w')
         else (Inl e, w'))"

definition create_queued :: "'w queue_host \<Rightarrow> task_spec \<Rightarrow> ('w, enqueue_result) eff" where
  "create_queued h spec = (\<lambda>w.
     case checkpoint_create h spec None (Some (sp_task_id spec)) w of
       (Inr created, w') \<Rightarrow> pristine_result spec True created w'
     | (Inl e, w') \<Rightarrow> if catches HostedCheckpointConflict e then after_conflict h spec w' else (Inl e, w'))"

definition ensure_queued :: "string \<Rightarrow> pydict res \<Rightarrow> 'w queue_host \<Rightarrow> task_spec \<Rightarrow> ('w, enqueue_result) eff" where
  "ensure_queued fp template_file h spec0 =
     bindE (liftE (TaskSpec_from_dict (TaskSpec_to_dict spec0))) (\<lambda>spec.
     bindE (liftE (validate_trusted_status_run_spec fp template_file spec)) (\<lambda>_ w.
     case checkpoint_get h spec w of
       (Inr existing, w') \<Rightarrow> pristine_result spec False existing w'
     | (Inl e, w') \<Rightarrow> if catches HostedCheckpointNotFound e then create_queued h spec w' else (Inl e, w')))"

section \<open>The host of a single run\<close>

text \<open>
  The parsed command line, and what the host is given: the committed manifest, the files below the
  repository root, and the factories, each taken together with the operation that is called on
  what it makes. The type of the interruption is a condition on exceptions.
\<close>

record run_args =
  ra_execute_once :: bool
  ra_instance_token :: string
  ra_worker_id :: string
  ra_lease_seconds :: int

record 'w run_host =
  rh_fingerprint :: string
  rh_manifest :: pyval
  rh_repo_file :: "string \<Rightarrow> pydict res"
  rh_spec_factory :: "task_spec res option"
  rh_ensure_queued :: "string \<Rightarrow> string \<Rightarrow> string \<Rightarrow> task_spec \<Rightarrow> ('w, enqueue_result) eff"
  rh_run_next :: "string \<Rightarrow> string \<Rightarrow> string \<Rightarrow> string \<Rightarrow> task_spec \<Rightarrow> string \<Rightarrow> int \<Rightarrow> ('w, readonly_result) eff"
  rh_inspect :: "string \<Rightarrow> string \<Rightarrow> string \<Rightarrow> task_spec \<Rightarrow> ('w, recovery_report) peff"
  rh_interrupted :: "exc \<Rightarrow> bool"
  rh_print :: "pydict \<Rightarrow> ('w, unit) eff"

type_synonym env = "(string \<times> string) list"

definition env_get :: "env \<Rightarrow> string \<Rightarrow> string" where
  "env_get env name = (case map_of env name of None \<Rightarrow> [] | Some v \<Rightarrow> v)"

definition required_env :: "env \<Rightarrow> string \<Rightarrow> string res" where
  "required_env env name =
     (if blank (env_get env name) then Inl (Exc RuntimeError (''missing_runtime_secret:'' @ name))
      else Inr (strip (env_get env name)))"

definition opt_bool :: "bool option \<Rightarrow> pyval" where
  "opt_bool x = (case x of None \<Rightarrow> PNone | Some b \<Rightarrow> PBool b)"

definition safe_report :: "readonly_result option \<Rightarrow> recovery_report \<Rightarrow> bool \<Rightarrow> enqueue_result \<Rightarrow> pydict" where
  "safe_report result recovery interrupted enqueued =
     [(''interrupted'', PBool interrupted), (''enqueue_created'', PBool (eq_created enqueued)),
      (''enqueue_revision'', PInt (cr_revision (eq_record enqueued))),
      (''claimed'', case result of None \<Rightarrow> PNone | Some r \<Rightarrow> PBool (rr_claimed r)),
      (''task_id'', case result of None \<Rightarrow> PStr (rp_task_id recovery) | Some r \<Rightarrow> opt_str (rr_task_id r)),
      (''execution_enabled'', case result of None \<Rightarrow> PBool True | Some r \<Rightarrow> PBool (rr_execution_enabled r)),
      (''outcome_status'', case result of None \<Rightarrow> PNone
         | Some r \<Rightarrow> (case rr_outcome r of None \<Rightarrow> PNone | Some out \<Rightarrow> ro_status out)),
      (''blocked_reason'', case result of None \<Rightarrow> PNone | Some r \<Rightarrow> rr_blocked_reason r),
      (''recovery_classification'', PStr (rp_classification recovery)),
      (''checkpoint_status'', PStr (rp_checkpoint_status recovery)),
      (''verified'', opt_bool (rp_verified recovery)), (''reexecution_allowed'', PBool (rp_reexecution_allowed recovery))]"

text \<open>Everything before the first request: the checks, the target and the four secrets.\<close>

definition run_checks :: "'w run_host \<Rightarrow> run_args \<Rightarrow> env \<Rightarrow> (task_spec \<times> string \<times> string \<times> string \<times> string) res" where
  "run_checks h args env =
     (if \<not> ra_execute_once args then Inl (Exc RuntimeError ''single_run_cli_flag_required'')
      else if map_of env ''KEIRIN_AGENT_SINGLE_RUN_AUTHORIZED'' \<noteq> Some ''true''
      then Inl (Exc RuntimeError ''single_run_runtime_authorization_required'')
      else if \<not> (60 \<le> ra_lease_seconds args \<and> ra_lease_seconds args \<le> 3600)
      then Inl (Exc RuntimeError ''lease_seconds_out_of_single_run_range'')
      else
        bindR (validate_hosted_activation_manifest (rh_fingerprint h) (rh_repo_file h) (rh_manifest h)) (\<lambda>m.
        if am_activation_enabled m \<or> am_scheduler_enabled m \<or> am_recurrence_enabled m
        then Inl (Exc RuntimeError ''committed_manifest_must_remain_closed'')
        else if am_mode m \<noteq> ''single_run'' \<or> am_max_tasks m \<noteq> 1 \<or> am_allowed_access m \<noteq> [''read'']
        then Inl (Exc RuntimeError ''single_run_manifest_scope_invalid'')
        else
          bindR (case rh_spec_factory h of
                   None \<Rightarrow> build_trusted_status_run_spec (rh_fingerprint h) (rh_repo_file h TRUSTED_TASK_FILE) (ra_instance_token args)
                 | Some made \<Rightarrow> made) (\<lambda>target.
          bindR (validate_trusted_status_run_spec (rh_fingerprint h) (rh_repo_file h TRUSTED_TASK_FILE) target) (\<lambda>_.
          if strip (env_get env ''KEIRIN_AGENT_SINGLE_RUN_INSTANCE_TOKEN'') \<noteq> ra_instance_token args
          then Inl (Exc RuntimeError ''single_run_instance_authorization_mismatch'')
          else
            bindR (required_env env ''SUPABASE_PROJECT_URL'') (\<lambda>url.
            bindR (required_env env ''SUPABASE_PUBLISHABLE_KEY'') (\<lambda>key.
            bindR (required_env env ''SUPABASE_OWNER_BEARER_TOKEN'') (\<lambda>bearer.
            bindR (required_env env ''GITHUB_TOKEN'') (\<lambda>github.
            Inr (target, url, key, bearer, github)))))))))"

definition exit_code :: "recovery_report \<Rightarrow> int" where
  "exit_code recovery = (if starts_with ''completed_'' (rp_classification recovery) then 0 else 1)"

text \<open>After the run: the recovery report is read and printed.\<close>

definition report_run ::
  "'w run_host \<Rightarrow> string \<Rightarrow> string \<Rightarrow> string \<Rightarrow> task_spec \<Rightarrow> enqueue_result \<Rightarrow> readonly_result option \<Rightarrow> ('w, int) peff" where
  "report_run h url key bearer target enqueued result =
     bindP (rh_inspect h url key bearer target) (\<lambda>recovery.
     bindP (effP (rh_print h (safe_report result recovery (result = None) enqueued))) (\<lambda>_.
     effP (retE (if result = None then 2 else exit_code recovery))))"

definition run_once :: "'w run_host \<Rightarrow> run_args \<Rightarrow> env \<Rightarrow> ('w, int) peff" where
  "run_once h args env =
     bindP (effP (liftE (run_checks h args env))) (\<lambda>(target, url, key, bearer, github).
     bindP (effP (rh_ensure_queued h url key bearer target)) (\<lambda>enqueued w.
     case rh_run_next h url key bearer github target (ra_worker_id args) (ra_lease_seconds args) w of
       (Inr result, w') \<Rightarrow> report_run h url key bearer target enqueued (Some result) w'
     | (Inl e, w') \<Rightarrow> if rh_interrupted h e then report_run h url key bearer target enqueued None w'
                      else Some (Inl e, w')))"

end
