(* ===== verification/Trusted_Results.thy ===== *)
theory Trusted_Results
  imports Trusted_Run Recovery_Results
begin

text \<open>
  Properties of the single authorised run: a run instance is the trusted template under an
  identifier of its own, enqueueing accepts only a pristine record and sends no other request than
  reading and creating it, and the host does nothing before every authorisation is there.
\<close>

section \<open>Run instances\<close>

lemma set_task_id:
  "AList.update ''task_id'' (PStr x) (TaskSpec_to_dict s) = TaskSpec_to_dict (s\<lparr>sp_task_id := x\<rparr>)"
  by (simp add: TaskSpec_to_dict_def)

lemma validate_renamed:
  "TaskSpec_validate s = Inr () \<Longrightarrow> \<not> blank x \<Longrightarrow> TaskSpec_validate (s\<lparr>sp_task_id := x\<rparr>) = Inr ()"
  by (simp add: TaskSpec_validate_ok)

lemma trusted_id_nonblank: "\<not> blank TRUSTED_TASK_ID" "\<not> blank (TRUSTED_RUN_ID_PREFIX @ tok)"
  by (simp_all add: strip_is_Nil is_space_def code_def TRUSTED_RUN_ID_PREFIX_def)

lemma template_Inr:
  assumes "trusted_status_template_spec fp tf = Inr t"
  shows "sp_task_id t = TRUSTED_TASK_ID" "fingerprint t = fp" "TaskSpec_validate t = Inr ()"
  using assms TaskSpec_from_dict_valid
  by (auto simp: trusted_status_template_spec_def bindR_eq_Inr split: if_split_asm)

lemma starts_with_append: "starts_with p s \<longleftrightarrow> (\<exists>t. s = p @ t)"
  unfolding starts_with_def by (metis append_eq_conv_conj append_take_drop_id)

lemma instance_token_Inr: "instance_token tid = Inr tok \<longleftrightarrow> tid = TRUSTED_RUN_ID_PREFIX @ tok \<and> token_ok tok"
  by (auto simp: instance_token_def starts_with_append split: if_split_asm)

lemma build_Inr:
  "build_trusted_status_run_spec fp tf tok = Inr spec \<longleftrightarrow>
     token_ok tok \<and> (\<exists>t. trusted_status_template_spec fp tf = Inr t \<and> spec = t\<lparr>sp_task_id := TRUSTED_RUN_ID_PREFIX @ tok\<rparr>)"
proof -
  have "TaskSpec_from_dict (TaskSpec_to_dict (t\<lparr>sp_task_id := TRUSTED_RUN_ID_PREFIX @ tok\<rparr>)) =
      Inr (t\<lparr>sp_task_id := TRUSTED_RUN_ID_PREFIX @ tok\<rparr>)" if "trusted_status_template_spec fp tf = Inr t" for t
    using validate_renamed [OF template_Inr(3) [OF that] trusted_id_nonblank(2)] by (simp add: TaskSpec_roundtrip)
  then show ?thesis
    by (auto simp: build_trusted_status_run_spec_def bindR_eq_Inr set_task_id)
qed

text \<open>What a validated run instance is.\<close>

definition trusted_instance :: "string \<Rightarrow> task_spec \<Rightarrow> task_spec \<Rightarrow> run_instance \<Rightarrow> bool" where
  "trusted_instance fp t spec ri \<longleftrightarrow>
     TaskSpec_validate spec = Inr () \<and> sp_task_id spec = TRUSTED_RUN_ID_PREFIX @ ri_instance_token ri \<and>
     token_ok (ri_instance_token ri) \<and> same_spec (spec\<lparr>sp_task_id := TRUSTED_TASK_ID\<rparr>) t \<and>
     fingerprint (spec\<lparr>sp_task_id := TRUSTED_TASK_ID\<rparr>) = fp \<and>
     ri_task_id ri = sp_task_id spec \<and> ri_instance_fingerprint ri = fingerprint spec \<and> ri_template_fingerprint ri = fp"

lemma validate_run_spec_Inr:
  "validate_trusted_status_run_spec fp tf spec = Inr ri \<longleftrightarrow>
     (\<exists>t. trusted_status_template_spec fp tf = Inr t \<and> trusted_instance fp t spec ri)"
proof (cases "TaskSpec_validate spec")
  case (Inr u)
  have canonical: "TaskSpec_from_dict (TaskSpec_to_dict (spec\<lparr>sp_task_id := TRUSTED_TASK_ID\<rparr>)) = Inr (spec\<lparr>sp_task_id := TRUSTED_TASK_ID\<rparr>)"
    using validate_renamed [of spec, OF _ trusted_id_nonblank(1)] Inr by (simp only: TaskSpec_roundtrip) simp
  show ?thesis
    unfolding validate_trusted_status_run_spec_def trusted_instance_def same_spec_def
    by (cases ri) (auto simp: TaskSpec_roundtrip [of spec] Inr bindR_eq_Inr instance_token_Inr set_task_id canonical
        simp del: py_eq.simps split: if_split_asm)
qed (simp add: validate_trusted_status_run_spec_def trusted_instance_def TaskSpec_roundtrip)

section \<open>Enqueueing\<close>

definition pristine :: "task_spec \<Rightarrow> checkpoint_record \<Rightarrow> bool" where
  "pristine spec r \<longleftrightarrow> record_ok spec r \<and> cr_status r = ''queued'' \<and> cr_revision r = 0 \<and>
     cr_idempotency_key r = sp_task_id spec \<and> st_status (cr_state r) = PStr ''pending'' \<and>
     st_attempts (cr_state r) = [] \<and> st_completed_steps (cr_state r) = []"

lemma pristine_result_Inr:
  assumes "pristine_result spec created rec w = (Inr res, w')" and "record_ok spec rec"
  shows "pristine spec (eq_record res) \<and> eq_created res = created \<and> w' = w"
  using assms by (auto simp: pristine_result_def bindE_eq_Inr assert_pristine_def pristine_def simp del: py_eq.simps split: if_split_asm)

lemma checkpoint_get_ok: "checkpoint_get h spec w = (Inr r, w') \<Longrightarrow> record_ok spec r"
  by (auto simp: checkpoint_get_def bindE_eq_Inr at_clock_apply dest: parse_full_record_ok)

lemma checkpoint_create_ok: "checkpoint_create h spec st key w = (Inr r, w') \<Longrightarrow> record_ok spec r"
  by (auto simp: checkpoint_create_def Let_def bindE_eq_Inr at_clock_apply split: if_split_asm dest: parse_full_record_ok)

lemma after_conflict_Inr:
  assumes "after_conflict h spec w = (Inr res, w')"
  shows "pristine spec (eq_record res) \<and> \<not> eq_created res"
  using assms unfolding after_conflict_def
  by (auto split: prod.split_asm sum.split_asm if_split_asm dest!: pristine_result_Inr intro: checkpoint_get_ok)

lemma create_queued_Inr:
  assumes "create_queued h spec w = (Inr res, w')"
  shows "pristine spec (eq_record res)"
  using assms unfolding create_queued_def
  by (auto split: prod.split_asm sum.split_asm if_split_asm dest!: pristine_result_Inr after_conflict_Inr intro: checkpoint_create_ok)

lemma ensure_queued_Inr:
  assumes "ensure_queued fp tf h spec w = (Inr res, w')"
  shows "pristine spec (eq_record res)" "\<exists>ri. validate_trusted_status_run_spec fp tf spec = Inr ri"
proof -
  have valid: "TaskSpec_from_dict (TaskSpec_to_dict spec) = Inr spec" "\<exists>ri. validate_trusted_status_run_spec fp tf spec = Inr ri"
    and rest: "(case checkpoint_get h spec w of
       (Inr existing, w') \<Rightarrow> pristine_result spec False existing w'
     | (Inl e, w') \<Rightarrow> if catches HostedCheckpointNotFound e then create_queued h spec w' else (Inl e, w')) = (Inr res, w')"
    using assms by (auto simp: ensure_queued_def bindE_eq_Inr TaskSpec_roundtrip bindR_eq_Inr)
  from rest show "pristine spec (eq_record res)"
    by (auto split: prod.split_asm sum.split_asm if_split_asm dest!: pristine_result_Inr create_queued_Inr intro: checkpoint_get_ok)
  from valid show "\<exists>ri. validate_trusted_status_run_spec fp tf spec = Inr ri" by simp
qed

text \<open>A host whose transport takes two requests only.\<close>

definition get_or_create :: "'w queue_host \<Rightarrow> 'w queue_host" where
  "get_or_create h = h\<lparr>qh_transport := only_modes [''checkpoint_get'', ''checkpoint_create''] (qh_transport h)\<rparr>"

lemma get_or_create_simps:
  "checkpoint_request (get_or_create h) ''checkpoint_get'' = checkpoint_request h ''checkpoint_get''"
  "checkpoint_request (get_or_create h) ''checkpoint_create'' = checkpoint_request h ''checkpoint_create''"
  "at_clock (get_or_create h) f = at_clock h f"
  by (simp_all add: checkpoint_request_def at_clock_def get_or_create_def only_modes_def fun_eq_iff)

lemma checkpoint_get_only: "checkpoint_get (get_or_create h) = checkpoint_get h"
  by (intro ext) (simp only: checkpoint_get_def get_or_create_simps)

lemma checkpoint_create_only: "checkpoint_create (get_or_create h) = checkpoint_create h"
  by (intro ext) (simp only: checkpoint_create_def get_or_create_simps)

lemma ensure_queued_only: "ensure_queued fp tf (get_or_create h) = ensure_queued fp tf h"
  by (intro ext) (simp only: ensure_queued_def create_queued_def after_conflict_def checkpoint_get_only checkpoint_create_only)

section \<open>The single run\<close>

text \<open>Every authorisation that a run needs.\<close>

definition authorised :: "'w run_host \<Rightarrow> run_args \<Rightarrow> env \<Rightarrow> task_spec \<Rightarrow> bool" where
  "authorised h args env target \<longleftrightarrow>
     ra_execute_once args \<and> map_of env ''KEIRIN_AGENT_SINGLE_RUN_AUTHORIZED'' = Some ''true'' \<and>
     60 \<le> ra_lease_seconds args \<and> ra_lease_seconds args \<le> 3600 \<and>
     strip (env_get env ''KEIRIN_AGENT_SINGLE_RUN_INSTANCE_TOKEN'') = ra_instance_token args \<and>
     (\<exists>ri t. trusted_status_template_spec (rh_fingerprint h) (rh_repo_file h TRUSTED_TASK_FILE) = Inr t \<and>
        trusted_instance (rh_fingerprint h) t target ri \<and>
        (rh_spec_factory h = None \<longrightarrow> ri_instance_token ri = ra_instance_token args)) \<and>
     (\<exists>m. validate_hosted_activation_manifest (rh_fingerprint h) (rh_repo_file h) (rh_manifest h) = Inr m)"

lemma run_checks_Inr:
  assumes "run_checks h args env = Inr (target, url, key, bearer, github)"
  shows "authorised h args env target"
proof -
  let ?fp = "rh_fingerprint h" and ?tf = "rh_repo_file h TRUSTED_TASK_FILE"
  obtain ri where flags: "ra_execute_once args" "map_of env ''KEIRIN_AGENT_SINGLE_RUN_AUTHORIZED'' = Some ''true''"
      "60 \<le> ra_lease_seconds args" "ra_lease_seconds args \<le> 3600"
      "strip (env_get env ''KEIRIN_AGENT_SINGLE_RUN_INSTANCE_TOKEN'') = ra_instance_token args"
      "\<exists>m. validate_hosted_activation_manifest ?fp (rh_repo_file h) (rh_manifest h) = Inr m"
    and target: "(case rh_spec_factory h of None \<Rightarrow> build_trusted_status_run_spec ?fp ?tf (ra_instance_token args)
        | Some made \<Rightarrow> made) = Inr target"
    and ri: "validate_trusted_status_run_spec ?fp ?tf target = Inr ri"
    using assms unfolding run_checks_def
    by (auto simp: bindR_eq_Inr split: if_split_asm)
  from ri obtain t where t: "trusted_status_template_spec ?fp ?tf = Inr t" "trusted_instance ?fp t target ri"
    by (auto simp: validate_run_spec_Inr)
  have "ri_instance_token ri = ra_instance_token args" if "rh_spec_factory h = None"
    using target t by (auto simp: that build_Inr trusted_instance_def)
  with flags t show ?thesis by (auto simp: authorised_def)
qed

lemma report_run_Inr:
  assumes "report_run h url key bearer target enq result w = Some (Inr rc, w')"
  shows "\<exists>rec w1. rh_inspect h url key bearer target w = Some (Inr rec, w1) \<and>
    rc = (if result = None then 2 else exit_code rec)"
  using assms by (auto simp: report_run_def bindP_eq_Inr)

lemma run_once_checked:
  assumes "run_checks h args env = Inr (target, url, key, bearer, github)"
  shows "run_once h args env w =
    (case rh_ensure_queued h url key bearer target w of
       (Inl e, w1) \<Rightarrow> Some (Inl e, w1)
     | (Inr enq, w1) \<Rightarrow>
         (case rh_run_next h url key bearer github target (ra_worker_id args) (ra_lease_seconds args) w1 of
            (Inr result, w2) \<Rightarrow> report_run h url key bearer target enq (Some result) w2
          | (Inl e, w2) \<Rightarrow> if rh_interrupted h e then report_run h url key bearer target enq None w2
                           else Some (Inl e, w2)))"
  using assms by (simp add: run_once_def bindP_def split: prod.split sum.split)

lemma run_once_refused: "run_checks h args env = Inl e \<Longrightarrow> run_once h args env w = Some (Inl e, w)"
  by (simp add: run_once_def bindP_def)

section \<open>Properties\<close>

text \<open>Run instances and the trusted template: for every token of 16 to 32 hexadecimal digits the
  instance that is built is the template under the identifier of that token and validates with that
  token; conversely a specification validates exactly when it is, as a JSON value, the pinned
  template under such an identifier, with the pinned fingerprint.\<close>

theorem trusted_run_roundtrip:
  assumes "trusted_status_template_spec fp tf = Inr t" and "wf_val (PDict (TaskSpec_to_dict t))" and "token_ok tok"
  shows "(\<exists>spec ri. build_trusted_status_run_spec fp tf tok = Inr spec \<and> spec = t\<lparr>sp_task_id := TRUSTED_RUN_ID_PREFIX @ tok\<rparr> \<and>
      validate_trusted_status_run_spec fp tf spec = Inr ri \<and> ri_instance_token ri = tok) \<and>
    (\<forall>spec ri. validate_trusted_status_run_spec fp tf spec = Inr ri \<longleftrightarrow> trusted_instance fp t spec ri)"
proof -
  let ?spec = "t\<lparr>sp_task_id := TRUSTED_RUN_ID_PREFIX @ tok\<rparr>"
  let ?ri = "\<lparr>ri_task_id = sp_task_id ?spec, ri_instance_token = tok, ri_instance_fingerprint = fingerprint ?spec,
    ri_template_fingerprint = fp\<rparr>"
  note t = template_Inr [OF assms(1)]
  have restored: "?spec\<lparr>sp_task_id := TRUSTED_TASK_ID\<rparr> = t" using t(1) by (cases t) simp
  have "trusted_instance fp t ?spec ?ri"
    unfolding trusted_instance_def restored
    using validate_renamed [OF t(3) trusted_id_nonblank(2)] assms(3) t(2) py_eq_refl [OF assms(2)] by (simp add: same_spec_def)
  then have "validate_trusted_status_run_spec fp tf ?spec = Inr ?ri"
    using assms(1) by (auto simp: validate_run_spec_Inr)
  moreover have "build_trusted_status_run_spec fp tf tok = Inr ?spec"
    using assms(1,3) by (auto simp: build_Inr)
  ultimately show ?thesis using assms(1) by (auto simp: validate_run_spec_Inr)
qed

text \<open>C16. Enqueueing accepts only a pristine record: whatever the transport answers, success means a
  record of the very specification, which is an instance of the trusted template, queued at revision
  zero under the task's own idempotency key, with a pending state that has neither attempts nor
  completed steps. Enqueueing sends no request but reading and creating the checkpoint.\<close>

theorem enqueue_accepts_only_pristine:
  assumes "ensure_queued fp tf h spec w = (Inr res, w')"
  shows "pristine spec (eq_record res) \<and>
    (\<exists>t ri. trusted_status_template_spec fp tf = Inr t \<and> trusted_instance fp t spec ri) \<and>
    ensure_queued fp tf (get_or_create h) = ensure_queued fp tf h"
  using ensure_queued_Inr [OF assms] ensure_queued_only [of fp tf h] by (auto simp: validate_run_spec_Inr)

text \<open>C15. A single run needs every authorisation: the command-line flag, the runtime signal, the
  authorisation of the exact token, a lease within bounds, the accepted closed manifest and a target
  that is an instance of the trusted template. Otherwise the host raises and nothing has happened.
  With them it enqueues the target, runs it once, and then reads the recovery report; it returns 0
  only when that report says that the task completed.\<close>

theorem single_run_is_authorised:
  assumes "run_once h args env w = Some (r, w')"
  shows "(\<exists>e. r = Inl e \<and> w' = w) \<or>
    (\<exists>target url key bearer github. authorised h args env target \<and>
      (case rh_ensure_queued h url key bearer target w of
         (Inl e, w1) \<Rightarrow> r = Inl e \<and> w' = w1
       | (Inr enq, w1) \<Rightarrow>
           (case rh_run_next h url key bearer github target (ra_worker_id args) (ra_lease_seconds args) w1 of
              (Inr result, w2) \<Rightarrow> report_run h url key bearer target enq (Some result) w2 = Some (r, w') \<and>
                (r = Inr 0 \<longrightarrow> (\<exists>rec w3. rh_inspect h url key bearer target w2 = Some (Inr rec, w3) \<and>
                   starts_with ''completed_'' (rp_classification rec)))
            | (Inl e, w2) \<Rightarrow> r \<noteq> Inr 0 \<and>
                (if rh_interrupted h e then report_run h url key bearer target enq None w2 = Some (r, w')
                 else r = Inl e \<and> w' = w2))))"
proof (cases "run_checks h args env")
  case (Inl e)
  then have "Inl e = r \<and> w = w'" using assms by (simp add: run_once_refused)
  then show ?thesis by blast
next
  case (Inr x)
  obtain target url key bearer github where x: "x = (target, url, key, bearer, github)" by (cases x)
  have auth: "authorised h args env target" by (rule run_checks_Inr) (rule Inr [unfolded x])
  note eq = assms [unfolded run_once_checked [OF Inr [unfolded x]]]
  have zero: "\<exists>rec w3. rh_inspect h url key bearer target w2 = Some (Inr rec, w3) \<and>
      starts_with ''completed_'' (rp_classification rec)"
    if "report_run h url key bearer target enq (Some result) w2 = Some (Inr 0, w')" for enq result w2
    using report_run_Inr [OF that] by (auto simp: exit_code_def split: if_split_asm)
  have two: "report_run h url key bearer target enq None w2 \<noteq> Some (Inr 0, w')" for enq w2
    using report_run_Inr [of h url key bearer target enq None w2 0 w'] by auto
  have traced: "case rh_ensure_queued h url key bearer target w of
         (Inl e, w1) \<Rightarrow> r = Inl e \<and> w' = w1
       | (Inr enq, w1) \<Rightarrow>
           (case rh_run_next h url key bearer github target (ra_worker_id args) (ra_lease_seconds args) w1 of
              (Inr result, w2) \<Rightarrow> report_run h url key bearer target enq (Some result) w2 = Some (r, w') \<and>
                (r = Inr 0 \<longrightarrow> (\<exists>rec w3. rh_inspect h url key bearer target w2 = Some (Inr rec, w3) \<and>
                   starts_with ''completed_'' (rp_classification rec)))
            | (Inl e, w2) \<Rightarrow> r \<noteq> Inr 0 \<and>
                (if rh_interrupted h e then report_run h url key bearer target enq None w2 = Some (r, w')
                 else r = Inl e \<and> w' = w2))"
    using eq by (auto simp: two split: prod.splits sum.splits if_splits dest: zero)
  show ?thesis by (intro disjI2 exI conjI) (rule auth, rule traced)
qed

section \<open>A trusted run\<close>

definition status_template :: task_spec where
  "status_template = \<lparr>sp_task_id = TRUSTED_TASK_ID, sp_title = ''Status'', sp_goal = ''Read the status'',
     sp_allowed_actions = TRUSTED_ACTIONS,
     sp_steps = [\<lparr>ss_step_id = ''read'', ss_action = ''github.read_main'', ss_args = [(''ref'', PStr ''main'')],
       ss_verify_action = Some ''github.verify_ci'', ss_retry_safe = True, ss_max_attempts = 2\<rparr>],
     sp_inputs = [(''repository'', PStr TRUSTED_REPOSITORY), (''production_prediction_enabled'', PBool False),
       (''db_write_enabled'', PBool False), (''external_fetch_enabled'', PBool False)],
     sp_completion_conditions = [''status read''], sp_schema_version = TASK_SCHEMA_VERSION\<rparr>"

abbreviation status_file :: "pydict res" where
  "status_file \<equiv> Inr (TaskSpec_to_dict status_template)"

abbreviation status_token :: string where
  "status_token \<equiv> ''0123456789abcdef''"

definition status_run :: task_spec where
  "status_run = status_template\<lparr>sp_task_id := TRUSTED_RUN_ID_PREFIX @ status_token\<rparr>"

lemma status_template_valid: "TaskSpec_validate status_template = Inr ()"
  by code_simp

lemma status_template_trusted: "trusted_status_template_spec (fingerprint status_template) status_file = Inr status_template"
  using status_template_valid
  by (simp add: trusted_status_template_spec_def TaskSpec_roundtrip) (simp add: status_template_def)

lemma status_wf: "wf_val (PDict (TaskSpec_to_dict status_template))"
  by code_simp

lemma status_token_ok: "token_ok status_token"
  by code_simp

lemma status_run_trusted:
  "\<exists>ri. validate_trusted_status_run_spec (fingerprint status_template) status_file status_run = Inr ri"
proof -
  have "trusted_instance (fingerprint status_template) status_template status_run
      \<lparr>ri_task_id = sp_task_id status_run, ri_instance_token = status_token,
       ri_instance_fingerprint = fingerprint status_run, ri_template_fingerprint = fingerprint status_template\<rparr>"
  proof -
    have restored: "status_run\<lparr>sp_task_id := TRUSTED_TASK_ID\<rparr> = status_template"
      by (simp add: status_run_def status_template_def)
    show ?thesis
      unfolding trusted_instance_def restored same_spec_def
      using py_eq_refl [OF status_wf] validate_renamed [OF status_template_valid trusted_id_nonblank(2)] status_token_ok
      by (simp add: status_run_def)
  qed
  with status_template_trusted show ?thesis unfolding validate_run_spec_Inr by blast
qed

theorem trusted_run_roundtrip_witness:
  "\<exists>ri. build_trusted_status_run_spec (fingerprint status_template) status_file status_token = Inr status_run \<and>
     validate_trusted_status_run_spec (fingerprint status_template) status_file status_run = Inr ri \<and>
     ri_instance_token ri = status_token"
  using trusted_run_roundtrip [OF status_template_trusted status_wf status_token_ok] by (auto simp: status_run_def)

text \<open>A backend that has the pristine record.\<close>

definition status_state :: task_state where
  "status_state = (TaskState_new ''now'' (sp_task_id status_run))\<lparr>st_spec_fingerprint := PStr (fingerprint status_run)\<rparr>"

definition status_host :: "unit queue_host" where
  "status_host = \<lparr>qh_transport = (\<lambda>mode p w. (Inr (PDict [(''success'', PBool True), (''checkpoint'', PDict
     [(''task_id'', PStr (sp_task_id status_run)), (''status'', PStr ''queued''), (''revision'', PInt 0),
      (''idempotency_key'', PStr (sp_task_id status_run)), (''spec'', PDict (TaskSpec_to_dict status_run)),
      (''state'', PDict (TaskState_to_dict status_state)), (''spec_fingerprint'', PStr (fingerprint status_run))])]), w)),
     qh_clock = (\<lambda>_. ''now'')\<rparr>"

lemma status_run_facts:
  "TaskSpec_validate status_run = Inr ()" "wf_val (PDict (TaskSpec_to_dict status_run))" "sp_task_id status_run \<noteq> []"
  by code_simp+

lemma status_get:
  "checkpoint_get status_host status_run () = (Inr \<lparr>cr_task_id = sp_task_id status_run, cr_status = ''queued'', cr_revision = 0,
     cr_idempotency_key = sp_task_id status_run, cr_spec = status_run, cr_state = status_state,
     cr_created_at = None, cr_updated_at = None\<rparr>, ())"
proof -
  have models: "row_models now e (TaskSpec_to_dict status_run) (TaskState_to_dict status_state) = Inr (status_run, status_state)" for now e
    using status_run_facts(1)
    by (simp add: row_models_def TaskSpec_roundtrip TaskState_roundtrip status_state_def TaskState_new_def)
  have detached: "detached_spec status_run = Inr status_run"
    using status_run_facts(1) by (simp add: detached_spec_def TaskSpec_roundtrip)
  have st: "st_spec_fingerprint status_state = PStr (fingerprint status_run)" "st_task_id status_state = sp_task_id status_run"
    "st_status status_state = PStr ''pending''" by (simp_all add: status_state_def TaskState_new_def)
  show ?thesis
    using py_eq_refl [OF status_run_facts(2)] status_run_facts(3)
    by (simp add: checkpoint_get_def detached checkpoint_request_def bindE_apply status_host_def at_clock_apply
        parse_full_record_def both_dicts_def models st ROW_STATUSES_def parse_revision_def int_arg_def checkpoint_text_def
        del: py_eq.simps(8))
qed

lemma status_enqueued:
  "\<exists>res. ensure_queued (fingerprint status_template) status_file status_host status_run () = (Inr res, ())"
proof -
  obtain ri where "validate_trusted_status_run_spec (fingerprint status_template) status_file status_run = Inr ri"
    using status_run_trusted by blast
  then show ?thesis
    using status_run_facts(1) py_eq_refl [OF status_run_facts(2)]
    by (simp add: ensure_queued_def TaskSpec_roundtrip status_get pristine_result_def assert_pristine_def status_state_def
        TaskState_new_def del: py_eq.simps(8))
qed

theorem enqueue_accepts_only_pristine_witness:
  "\<exists>res. ensure_queued (fingerprint status_template) status_file status_host status_run () = (Inr res, ()) \<and>
     pristine status_run (eq_record res)"
proof -
  obtain res where res: "ensure_queued (fingerprint status_template) status_file status_host status_run () = (Inr res, ())"
    using status_enqueued by blast
  with enqueue_accepts_only_pristine [OF res] show ?thesis by blast
qed

text \<open>A host with every authorisation, on which the run completes.\<close>

definition status_manifest :: pyval where
  "status_manifest = PDict
     [(''schema_version'', PStr ''agent-host-activation-v1''), (''activation_enabled'', PBool False), (''mode'', PStr ''single_run''),
      (''max_tasks'', PInt 1), (''scheduler_enabled'', PBool False), (''recurrence_enabled'', PBool False),
      (''allowed_access'', PList [PStr ''read'']), (''repository'', PStr TRUSTED_REPOSITORY),
      (''task_file'', PStr TRUSTED_TASK_FILE), (''task_id'', PStr TRUSTED_TASK_ID),
      (''task_fingerprint'', PStr (fingerprint status_template)), (''actions'', PList (map PStr TRUSTED_ACTIONS)),
      (''github_permissions'', PList [PStr ''contents:read'', PStr ''actions:read'']), (''safety'', PDict required_safety)]"

definition completed_report :: recovery_report where
  "completed_report = \<lparr>rp_task_id = sp_task_id status_run, rp_checkpoint_status = ''completed'', rp_revision = 4,
     rp_attempt_count = 1, rp_max_attempts = 3, rp_lease_generation = 1, rp_lease_owner = None, rp_lease_expires_at = None,
     rp_lease_expired = None, rp_observation_events = 1, rp_verification_events = 1, rp_latest_observation_event_id = Some 1,
     rp_latest_verification_event_id = Some 2, rp_verified = Some True, rp_classification = ''completed_verified'',
     rp_may_reconcile_expired_to_blocked = False, rp_reexecution_allowed = False\<rparr>"

definition status_run_host :: "unit run_host" where
  "status_run_host = \<lparr>rh_fingerprint = fingerprint status_template, rh_manifest = status_manifest,
     rh_repo_file = (\<lambda>_. status_file), rh_spec_factory = None,
     rh_ensure_queued = (\<lambda>url key bearer. ensure_queued (fingerprint status_template) status_file status_host),
     rh_run_next = (\<lambda>url key bearer github target worker secs. retE \<lparr>rr_claimed = True, rr_task_id = Some (sp_task_id target),
        rr_execution_enabled = True, rr_outcome = None, rr_blocked_reason = PNone\<rparr>),
     rh_inspect = (\<lambda>url key bearer target. effP (retE completed_report)), rh_interrupted = (\<lambda>_. False),
     rh_print = (\<lambda>d. retE ())\<rparr>"

definition status_args :: run_args where
  "status_args = \<lparr>ra_execute_once = True, ra_instance_token = status_token, ra_worker_id = ''w1'', ra_lease_seconds = 180\<rparr>"

definition status_env :: env where
  "status_env = [(''KEIRIN_AGENT_SINGLE_RUN_AUTHORIZED'', ''true''), (''KEIRIN_AGENT_SINGLE_RUN_INSTANCE_TOKEN'', status_token),
     (''SUPABASE_PROJECT_URL'', ''u''), (''SUPABASE_PUBLISHABLE_KEY'', ''k''), (''SUPABASE_OWNER_BEARER_TOKEN'', ''b''),
     (''GITHUB_TOKEN'', ''g'')]"

lemma status_manifest_accepted:
  "\<exists>m. validate_hosted_activation_manifest (fingerprint status_template) (\<lambda>_. status_file) status_manifest = Inr m \<and>
     am_allowed_access m = [''read''] \<and> am_mode m = ''single_run'' \<and> am_max_tasks m = 1 \<and>
     \<not> am_activation_enabled m \<and> \<not> am_scheduler_enabled m \<and> \<not> am_recurrence_enabled m"
proof -
  have task: "trusted_task (\<lambda>_. status_file) TRUSTED_TASK_FILE = Inr status_template"
    using status_template_valid by (simp add: trusted_task_def TaskSpec_roundtrip)
  have in_order: "actions_in_order status_template = TRUSTED_ACTIONS" by code_simp
  have "check_task (fingerprint status_template) status_template TRUSTED_ACTIONS = Inr ()"
    unfolding check_task_def in_order by (simp add: status_template_def)
  moreover have "py_eq (PDict required_safety) (PDict required_safety)" by code_simp
  moreover have "sort [''contents:read'', ''actions:read''] = TRUSTED_GITHUB_PERMISSIONS" by code_simp
  ultimately show ?thesis
    by (simp add: validate_hosted_activation_manifest_def status_manifest_def manifest_flags_def manifest_scope_def
        string_tuple_def task comp_def map_idI del: py_eq.simps(8)) (simp add: TRUSTED_ACTIONS_def)
qed

lemma status_checks:
  "run_checks status_run_host status_args status_env = Inr (status_run, ''u'', ''k'', ''b'', ''g'')"
proof -
  have env: "strip (env_get status_env ''KEIRIN_AGENT_SINGLE_RUN_INSTANCE_TOKEN'') = status_token"
    "required_env status_env ''SUPABASE_PROJECT_URL'' = Inr ''u''" "required_env status_env ''SUPABASE_PUBLISHABLE_KEY'' = Inr ''k''"
    "required_env status_env ''SUPABASE_OWNER_BEARER_TOKEN'' = Inr ''b''" "required_env status_env ''GITHUB_TOKEN'' = Inr ''g''"
    "map_of status_env ''KEIRIN_AGENT_SINGLE_RUN_AUTHORIZED'' = Some ''true''"
    by code_simp+
  obtain ri where ri: "validate_trusted_status_run_spec (fingerprint status_template) status_file status_run = Inr ri"
    using status_run_trusted by blast
  have build: "build_trusted_status_run_spec (fingerprint status_template) status_file status_token = Inr status_run"
    using status_template_trusted status_token_ok by (auto simp: build_Inr status_run_def)
  show ?thesis
    using status_manifest_accepted by (auto simp: run_checks_def status_run_host_def status_args_def env ri build)
qed

theorem single_run_is_authorised_witness:
  "run_once status_run_host status_args status_env () = Some (Inr 0, ()) \<and>
   (\<exists>target. authorised status_run_host status_args status_env target)"
proof -
  obtain res where "ensure_queued (fingerprint status_template) status_file status_host status_run () = (Inr res, ())"
    using status_enqueued by blast
  moreover have "exit_code completed_report = 0" by code_simp
  ultimately have run: "run_once status_run_host status_args status_env () = Some (Inr 0, ())"
    unfolding run_once_checked [OF status_checks] by (simp add: status_run_host_def report_run_def bindP_def)
  from single_run_is_authorised [OF run] have "\<exists>target. authorised status_run_host status_args status_env target"
    by auto
  with run show ?thesis by blast
qed

end
