(* ===== verification/Agent_Services.thy ===== *)
theory Agent_Services
  imports Tool_Registry
begin

text \<open>
  The catalogue of capabilities the agent is meant to have (\<^verbatim>\<open>src/agent_core/capability_catalog.py\<close>) and
  the delivery of a rendered report through the host's bridge (\<^verbatim>\<open>src/agent_core/delivery.py\<close>). The
  catalogue enables nothing; a report counts as delivered only when the bridge confirmed it.
\<close>

section \<open>The capability catalogue\<close>

record capability_contract =
  cc_domain :: string
  cc_capability :: capability
  cc_requires_external_provider :: bool
  cc_default_enabled :: bool
  cc_notes :: string

definition GENERAL_AGENT_CAPABILITIES :: "capability_contract list" where
  "GENERAL_AGENT_CAPABILITIES =
     [
      \<lparr>cc_domain = ''research'',
       cc_capability = \<lparr>cap_action = ''research.read_public_sources'', cap_access = ''read'', cap_required_permissions = [''research:read''],
         cap_supports_dry_run = True, cap_description = ''Read public sources through a host-authorized provider.''\<rparr>,
       cc_requires_external_provider = True, cc_default_enabled = False, cc_notes = ''Must not be used as automatic keirin race-data fetching while that feature remains disabled.''\<rparr>,
      \<lparr>cc_domain = ''text'',
       cc_capability = \<lparr>cap_action = ''text.generate'', cap_access = ''execute'', cap_required_permissions = [''text:generate''],
         cap_supports_dry_run = False, cap_description = ''Generate or transform text through a host-authorized model provider.''\<rparr>,
       cc_requires_external_provider = True, cc_default_enabled = False, cc_notes = []\<rparr>,
      \<lparr>cc_domain = ''image'',
       cc_capability = \<lparr>cap_action = ''image.generate'', cap_access = ''execute'', cap_required_permissions = [''image:generate''],
         cap_supports_dry_run = False, cap_description = ''Generate or edit images through a host-authorized image provider.''\<rparr>,
       cc_requires_external_provider = True, cc_default_enabled = False, cc_notes = []\<rparr>,
      \<lparr>cc_domain = ''video'',
       cc_capability = \<lparr>cap_action = ''video.generate'', cap_access = ''execute'', cap_required_permissions = [''video:generate''],
         cap_supports_dry_run = False, cap_description = ''Generate video through a host-authorized video provider.''\<rparr>,
       cc_requires_external_provider = True, cc_default_enabled = False, cc_notes = []\<rparr>,
      \<lparr>cc_domain = ''code'',
       cc_capability = \<lparr>cap_action = ''code.generate'', cap_access = ''execute'', cap_required_permissions = [''code:generate''],
         cap_supports_dry_run = False, cap_description = ''Generate or transform program text without applying repository writes by itself.''\<rparr>,
       cc_requires_external_provider = True, cc_default_enabled = False, cc_notes = []\<rparr>,
      \<lparr>cc_domain = ''learning'',
       cc_capability = \<lparr>cap_action = ''learning.evaluate'', cap_access = ''execute'', cap_required_permissions = [''learning:evaluate''],
         cap_supports_dry_run = True, cap_description = ''Run model or task evaluation using explicit inputs and verification criteria.''\<rparr>,
       cc_requires_external_provider = False, cc_default_enabled = False, cc_notes = []\<rparr>,
      \<lparr>cc_domain = ''reporting'',
       cc_capability = \<lparr>cap_action = ''report.generate'', cap_access = ''execute'', cap_required_permissions = [''report:generate''],
         cap_supports_dry_run = True, cap_description = ''Build a report from already-available task/activity and revenue inputs without delivering it.''\<rparr>,
       cc_requires_external_provider = False, cc_default_enabled = False, cc_notes = []\<rparr>]"

definition capability_catalog :: "capability_contract list" where
  "capability_catalog = GENERAL_AGENT_CAPABILITIES"

fun find_contract :: "string \<Rightarrow> capability_contract list \<Rightarrow> capability_contract res" where
  "find_contract action [] = Inl (Exc KeyError action)"
| "find_contract action (c # cs) = (if cap_action (cc_capability c) = action then Inr c else find_contract action cs)"

definition capability_by_action :: "string \<Rightarrow> capability_contract res" where
  "capability_by_action action = find_contract action GENERAL_AGENT_CAPABILITIES"

lemma find_contract_Inr:
  "distinct (map (\<lambda>c. cap_action (cc_capability c)) cs) \<Longrightarrow>
     find_contract action cs = Inr c \<longleftrightarrow> c \<in> set cs \<and> cap_action (cc_capability c) = action"
  by (induction cs) auto

text \<open>The lookup finds exactly the contracts of the catalogue, none of which is enabled by default.\<close>

lemma capability_by_action_iff:
  "capability_by_action action = Inr c \<longleftrightarrow> c \<in> set capability_catalog \<and> cap_action (cc_capability c) = action"
proof -
  have "distinct (map (\<lambda>c. cap_action (cc_capability c)) GENERAL_AGENT_CAPABILITIES)" by code_simp
  then show ?thesis by (simp add: capability_by_action_def capability_catalog_def find_contract_Inr)
qed

lemma catalog_enables_nothing: "capability_by_action action = Inr c \<Longrightarrow> \<not> cc_default_enabled c"
proof -
  have "list_all (\<lambda>c. \<not> cc_default_enabled c) capability_catalog" by code_simp
  then show "capability_by_action action = Inr c \<Longrightarrow> \<not> cc_default_enabled c"
    by (auto simp: capability_by_action_iff list_all_iff)
qed

section \<open>Report delivery\<close>

record delivery_result =
  dl_delivered :: bool
  dl_destination :: "string option"
  dl_message_id :: "string option"
  dl_detail :: string

datatype delivery_response = DR_Result delivery_result | DR_Dict pydict | DR_Other

type_synonym 'w delivery_bridge = "capability \<Rightarrow> pydict \<Rightarrow> pydict \<Rightarrow> ('w, delivery_response) eff"

record 'w report_delivery =
  rd_bridge :: "'w delivery_bridge"
  rd_capability :: capability

definition BridgeReportDelivery :: "'w delivery_bridge \<Rightarrow> string \<Rightarrow> 'w report_delivery res" where
  "BridgeReportDelivery invoke action =
     (if blank action then value_error ''delivery_action_required''
      else Inr \<lparr>rd_bridge = invoke, rd_capability = \<lparr>cap_action = action, cap_access = ''write'',
             cap_required_permissions = [''report:deliver''], cap_supports_dry_run = False,
             cap_description = ''Deliver a rendered report to a host-configured destination.''\<rparr>\<rparr>)"

fun delivery_receipt :: "delivery_response \<Rightarrow> pydict res" where
  "delivery_receipt (DR_Result d) =
     Inr [(''delivered'', PBool (dl_delivered d)), (''destination'', opt_str (dl_destination d)),
          (''message_id'', opt_str (dl_message_id d)), (''detail'', PStr (dl_detail d))]"
| "delivery_receipt (DR_Dict r) =
     (if dict_get r ''delivered'' \<noteq> PBool True
      then Inr [(''delivered'', PBool False), (''destination'', dict_get r ''destination''),
                (''message_id'', dict_get r ''message_id''),
                (''detail'', PStr (py_str (py_or (py_or (dict_get r ''detail'') (dict_get r ''error'')) (PStr ''delivery not confirmed''))))]
      else Inr [(''delivered'', PBool True), (''destination'', dict_get r ''destination''),
                (''message_id'', dict_get r ''message_id''),
                (''detail'', PStr (py_str (py_or (dict_get r ''detail'') (PStr []))))])"
| "delivery_receipt DR_Other = Inl (Exc TypeError ''unsupported_delivery_response'')"

definition deliver :: "'w report_delivery \<Rightarrow> string \<Rightarrow> pydict \<Rightarrow> ('w, pydict) eff" where
  "deliver rd report_text metadata =
     (if blank report_text then raiseE (Exc ValueError ''report_text_required'')
      else
        bindE (rd_bridge rd (rd_capability rd) [(''report_text'', PStr report_text), (''metadata'', PDict metadata)]
                 [(''operation'', PStr ''report_delivery'')]) (\<lambda>response. liftE (delivery_receipt response)))"

text \<open>A receipt says that the report was delivered only when the bridge was called and confirmed it.\<close>

lemma deliver_confirmed:
  assumes "deliver rd text md w = (Inr receipt, w')" and "dict_get receipt ''delivered'' = PBool True"
  shows "\<not> blank text \<and> (\<exists>response. rd_bridge rd (rd_capability rd) [(''report_text'', PStr text), (''metadata'', PDict md)]
      [(''operation'', PStr ''report_delivery'')] w = (Inr response, w') \<and>
    (case response of DR_Result d \<Rightarrow> dl_delivered d | DR_Dict r \<Rightarrow> dict_get r ''delivered'' = PBool True | DR_Other \<Rightarrow> False))"
proof -
  obtain response where "\<not> blank text" and bridge: "rd_bridge rd (rd_capability rd)
      [(''report_text'', PStr text), (''metadata'', PDict md)] [(''operation'', PStr ''report_delivery'')] w = (Inr response, w')"
    and receipt: "delivery_receipt response = Inr receipt"
    using assms(1) by (auto simp: deliver_def bindE_eq_Inr split: if_split_asm)
  have "case response of DR_Result d \<Rightarrow> dl_delivered d | DR_Dict r \<Rightarrow> dict_get r ''delivered'' = PBool True | DR_Other \<Rightarrow> False"
    using receipt assms(2) by (cases response) (auto split: if_split_asm)
  with \<open>\<not> blank text\<close> bridge show ?thesis by blast
qed

end
