(* ===== verification/Effect_Rules.thy ===== *)
theory Effect_Rules
  imports Py_Prelude
begin

text \<open>
  Invariants of effects: \<open>keeps I m\<close> says that \<open>m\<close> leaves a world with \<open>I\<close>, whether it returns or raises. The
  rules of the collection decompose the claim along the program.
\<close>

definition keeps :: "('w \<Rightarrow> bool) \<Rightarrow> ('w, 'a) eff \<Rightarrow> bool" where
  "keeps I m \<longleftrightarrow> (\<forall>w. I w \<longrightarrow> I (snd (m w)))"

named_theorems keeps_rules \<open>rules that decompose the preservation of an invariant along the program\<close>

lemma keepsD: "keeps I m \<Longrightarrow> I w \<Longrightarrow> m w = (r, w') \<Longrightarrow> I w'"
  unfolding keeps_def by (metis snd_conv)

lemma keeps_basic [keeps_rules]: "keeps I (retE x)" "keeps I (raiseE e)" "keeps I (liftE r)"
  by (simp_all add: keeps_def)

lemma kept_bind [keeps_rules]: "keeps I m \<Longrightarrow> (\<And>x. keeps I (f x)) \<Longrightarrow> keeps I (bindE m f)"
  unfolding keeps_def by (fastforce simp: bindE_apply split: prod.split sum.split dest: arg_cong [where f = snd])

lemma kept_try [keeps_rules]: "keeps I m \<Longrightarrow> (\<And>e. keeps I (h e)) \<Longrightarrow> keeps I (tryE m h)"
  unfolding keeps_def by (fastforce simp: tryE_apply split: prod.split sum.split dest: arg_cong [where f = snd])

lemma kept_if [keeps_rules]: "(c \<Longrightarrow> keeps I m) \<Longrightarrow> (\<not> c \<Longrightarrow> keeps I n) \<Longrightarrow> keeps I (if c then m else n)"
  by simp

lemma keeps_split [keeps_rules]: "(\<And>a b. keeps I (f a b)) \<Longrightarrow> keeps I (case p of (a, b) \<Rightarrow> f a b)"
  by (cases p) simp

lemma keeps_option [keeps_rules]: "keeps I m \<Longrightarrow> (\<And>x. keeps I (f x)) \<Longrightarrow> keeps I (case v of None \<Rightarrow> m | Some x \<Rightarrow> f x)"
  by (cases v) simp_all

end
