(* ===== verification/Json_Text.thy ===== *)
theory Json_Text
  imports Json_Digest
begin

text \<open>
  \<open>json.dumps\<close> with its default options, as the database parameters and the messages between the
  host processes use it, and \<open>json.loads\<close>. The reader covers the values of the model: integers,
  strings over U+0000..U+00FF, \<open>null\<close>, booleans, arrays and objects; a number with a fraction or an
  exponent, \<open>NaN\<close>, \<open>Infinity\<close> and an escape above U+00FF have no value here and are refused. The fuel
  of the reader is twice the length of the text, which \<open>json_loads_dumps\<close> shows to be enough for every
  text the writer gives.
\<close>

section \<open>The writer\<close>

definition ascii_char :: "char \<Rightarrow> string" where
  "ascii_char c =
     (let n = code c in
      if n = 34 then [CHR 0x5C, CHR 0x22]
      else if n = 92 then [CHR 0x5C, CHR 0x5C]
      else if n = 10 then [CHR 0x5C, CHR ''n'']
      else if n = 13 then [CHR 0x5C, CHR ''r'']
      else if n = 9 then [CHR 0x5C, CHR ''t'']
      else if n = 12 then [CHR 0x5C, CHR ''f'']
      else if n = 8 then [CHR 0x5C, CHR ''b'']
      else if n < 32 \<or> 126 < n
      then [CHR 0x5C, CHR ''u'', CHR ''0'', CHR ''0'', hex_char (n div 16), hex_char (n mod 16)]
      else [c])"

definition ascii_string :: "string \<Rightarrow> string" where
  "ascii_string s = [CHR 0x22] @ concat (map ascii_char s) @ [CHR 0x22]"

fun json_text :: "pyval \<Rightarrow> string" where
  "json_text PNone = ''null''"
| "json_text (PBool b) = (if b then ''true'' else ''false'')"
| "json_text (PInt i) = int_str i"
| "json_text (PStr s) = ascii_string s"
| "json_text (PList xs) = ''['' @ join '', '' (map json_text xs) @ '']''"
| "json_text (PDict d) =
     ''{'' @ join '', '' (map (\<lambda>p. ascii_string (fst p) @ '': '' @ json_text (snd p)) d) @ ''}''"

section \<open>The reader\<close>

definition json_space :: "char \<Rightarrow> bool" where
  "json_space c \<longleftrightarrow> code c \<in> {9, 10, 13, 32}"

definition skip_space :: "string \<Rightarrow> string" where
  "skip_space s = dropWhile json_space s"

definition hex_val :: "char \<Rightarrow> nat option" where
  "hex_val c = (let n = code c in
     if is_digit c then Some (n - 48)
     else if 97 \<le> n \<and> n \<le> 102 then Some (n - 87)
     else if 65 \<le> n \<and> n \<le> 70 then Some (n - 55) else None)"

definition unescape :: "char \<Rightarrow> char option" where
  "unescape e = map_of
     [(CHR 0x22, CHR 0x22), (CHR 0x5C, CHR 0x5C), (CHR ''/'', CHR ''/''), (CHR ''n'', char_of (10 :: nat)),
      (CHR ''r'', char_of (13 :: nat)), (CHR ''t'', char_of (9 :: nat)), (CHR ''f'', char_of (12 :: nat)),
      (CHR ''b'', char_of (8 :: nat))] e"

definition hex_escape :: "char \<Rightarrow> char \<Rightarrow> char \<Rightarrow> char \<Rightarrow> char option" where
  "hex_escape a b x y =
     (case (hex_val a, hex_val b, hex_val x, hex_val y) of
        (Some 0, Some 0, Some h, Some l) \<Rightarrow> Some (char_of (16 * h + l))
      | _ \<Rightarrow> None)"

fun json_chars :: "string \<Rightarrow> (string \<times> string) option" where
  "json_chars [] = None"
| "json_chars (c # cs) =
     (if c = CHR 0x22 then Some ([], cs)
      else if c = CHR 0x5C then
        (case cs of
           [] \<Rightarrow> None
         | e # es \<Rightarrow>
             if e = CHR ''u'' then
               (case es of
                  a # b # x # y # rest \<Rightarrow>
                    (case hex_escape a b x y of
                       None \<Rightarrow> None
                     | Some h \<Rightarrow> map_option (apfst ((#) h)) (json_chars rest))
                | _ \<Rightarrow> None)
             else (case unescape e of
                     None \<Rightarrow> None
                   | Some h \<Rightarrow> map_option (apfst ((#) h)) (json_chars es)))
      else if code c < 32 then None
      else map_option (apfst ((#) c)) (json_chars cs))"

definition digits_value :: "string \<Rightarrow> nat" where
  "digits_value ds = foldl (\<lambda>n c. 10 * n + (code c - 48)) 0 ds"

definition json_nat :: "string \<Rightarrow> (nat \<times> string) option" where
  "json_nat s =
     (case s of
        [] \<Rightarrow> None
      | c # cs \<Rightarrow>
          if \<not> is_digit c then None
          else let rest = (if c = CHR ''0'' then cs else dropWhile is_digit s) in
               if rest \<noteq> [] \<and> hd rest \<in> {CHR ''.'', CHR ''e'', CHR ''E''} then None
               else Some (if c = CHR ''0'' then 0 else digits_value (takeWhile is_digit s), rest))"

definition json_number :: "string \<Rightarrow> (pyval \<times> string) option" where
  "json_number s =
     (if s \<noteq> [] \<and> hd s = CHR ''-'' then map_option (apfst (\<lambda>n. PInt (- int n))) (json_nat (tl s))
      else map_option (apfst (\<lambda>n. PInt (int n))) (json_nat s))"

definition json_atom :: "string \<Rightarrow> (pyval \<times> string) option" where
  "json_atom s =
     (if starts_with ''null'' s then Some (PNone, drop 4 s)
      else if starts_with ''true'' s then Some (PBool True, drop 4 s)
      else if starts_with ''false'' s then Some (PBool False, drop 5 s)
      else json_number s)"

fun json_value :: "nat \<Rightarrow> string \<Rightarrow> (pyval \<times> string) option"
  and json_items :: "nat \<Rightarrow> string \<Rightarrow> (pyval list \<times> string) option"
  and json_members :: "nat \<Rightarrow> string \<Rightarrow> (pydict \<times> string) option" where
  "json_value 0 s = None"
| "json_value (Suc n) s =
     (case s of
        [] \<Rightarrow> None
      | c # cs \<Rightarrow>
          let r = skip_space cs in
          if c = CHR 0x22 then map_option (apfst PStr) (json_chars cs)
          else if c = CHR ''['' then
            (if r \<noteq> [] \<and> hd r = CHR '']'' then Some (PList [], tl r) else map_option (apfst PList) (json_items n r))
          else if c = CHR ''{'' then
            (if r \<noteq> [] \<and> hd r = CHR ''}'' then Some (PDict [], tl r)
             else map_option (apfst (\<lambda>d. PDict (dict_update [] d))) (json_members n r))
          else json_atom s)"
| "json_items 0 s = None"
| "json_items (Suc n) s =
     (case json_value n s of
        None \<Rightarrow> None
      | Some (v, r) \<Rightarrow>
          (case skip_space r of
             [] \<Rightarrow> None
           | c # cs \<Rightarrow>
               if c = CHR '']'' then Some ([v], cs)
               else if c = CHR '','' then map_option (apfst ((#) v)) (json_items n (skip_space cs))
               else None))"
| "json_members 0 s = None"
| "json_members (Suc n) s =
     (if s = [] \<or> hd s \<noteq> CHR 0x22 then None
      else case json_chars (tl s) of
        None \<Rightarrow> None
      | Some (k, r) \<Rightarrow>
          (case skip_space r of
             [] \<Rightarrow> None
           | c # cs \<Rightarrow>
               if c \<noteq> CHR '':'' then None
               else case json_value n (skip_space cs) of
                 None \<Rightarrow> None
               | Some (v, r') \<Rightarrow>
                   (case skip_space r' of
                      [] \<Rightarrow> None
                    | c' # cs' \<Rightarrow>
                        if c' = CHR ''}'' then Some ([(k, v)], cs')
                        else if c' = CHR '','' then map_option (apfst ((#) (k, v))) (json_members n (skip_space cs'))
                        else None)))"

declare json_value.simps [simp del] json_items.simps [simp del] json_members.simps [simp del]
declare json_chars.simps [simp del]

definition json_loads :: "string \<Rightarrow> pyval res" where
  "json_loads s =
     (case json_value (2 * length s + 1) (skip_space s) of
        None \<Rightarrow> value_error ''json_invalid''
      | Some (v, r) \<Rightarrow> if skip_space r = [] then Inr v else value_error ''json_invalid'')"

section \<open>Reading back what was written\<close>

lemma code_char_of [simp]: "code (char_of n) = n mod 256"
  by (simp add: code_def)

lemma char_eq_code: "c = d \<longleftrightarrow> code c = code d"
  by (simp add: code_def)

lemma char_of_code [simp]: "char_of (code c) = c"
  by (simp add: code_def)

lemma code_less: "code c < 256"
  by (simp add: code_def)

lemma hex_val_char: "n < 16 \<Longrightarrow> hex_val (hex_char n) = Some n"
  by (auto simp: hex_val_def hex_char_def is_digit_def Let_def)

lemma hex_escape_code:
  "hex_escape (CHR ''0'') (CHR ''0'') (hex_char (code c div 16)) (hex_char (code c mod 16)) = Some c"
proof -
  have "hex_val (CHR ''0'') = Some 0" by code_simp
  moreover have "code c div 16 < 16" using code_less [of c] by simp
  ultimately show ?thesis
    by (simp add: hex_escape_def hex_val_char mult.commute [of 16])
qed

lemma unescape_eqs:
  "unescape (CHR 0x22) = Some (CHR 0x22)" "unescape (CHR 0x5C) = Some (CHR 0x5C)"
  "unescape (CHR ''n'') = Some (char_of (10 :: nat))" "unescape (CHR ''r'') = Some (char_of (13 :: nat))"
  "unescape (CHR ''t'') = Some (char_of (9 :: nat))" "unescape (CHR ''f'') = Some (char_of (12 :: nat))"
  "unescape (CHR ''b'') = Some (char_of (8 :: nat))"
  by (simp_all add: unescape_def)

lemma code_eqs: "code (CHR 0x22) = 34" "code (CHR 0x5C) = 92"
  by (simp_all add: code_def)

lemma json_chars_escape:
  "unescape e = Some h \<Longrightarrow> e \<noteq> CHR ''u'' \<Longrightarrow> json_chars (CHR 0x5C # e # s) = map_option (apfst ((#) h)) (json_chars s)"
  by (simp add: json_chars.simps(2) [of "CHR 0x5C"])

lemma ascii_char_plain: "code c \<notin> {10, 13, 9, 12, 8, 34, 92} \<Longrightarrow> \<not> (code c < 32 \<or> 126 < code c) \<Longrightarrow> ascii_char c = [c]"
  and ascii_char_hex: "code c \<notin> {10, 13, 9, 12, 8, 34, 92} \<Longrightarrow> code c < 32 \<or> 126 < code c \<Longrightarrow>
    ascii_char c = [CHR 0x5C, CHR ''u'', CHR ''0'', CHR ''0'', hex_char (code c div 16), hex_char (code c mod 16)]"
  and ascii_char_short: "code c \<in> {10, 13, 9, 12, 8, 34, 92} \<Longrightarrow>
    \<exists>e. ascii_char c = [CHR 0x5C, e] \<and> e \<noteq> CHR ''u'' \<and> unescape e = Some c"
proof -
  assume c: "code c \<in> {10, 13, 9, 12, 8, 34, 92}"
  have "c = char_of (code c)" by simp
  with c have "c \<in> {char_of (10 :: nat), char_of (13 :: nat), char_of (9 :: nat), char_of (12 :: nat), char_of (8 :: nat),
      CHR 0x22, CHR 0x5C}" by (auto simp: code_eqs char_eq_code)
  then show "\<exists>e. ascii_char c = [CHR 0x5C, e] \<and> e \<noteq> CHR ''u'' \<and> unescape e = Some c"
    by (auto simp: ascii_char_def unescape_eqs code_eqs)
qed (auto simp: ascii_char_def Let_def)

lemma json_chars_char: "json_chars (ascii_char c @ s) = map_option (apfst ((#) c)) (json_chars s)"
proof (cases "code c \<in> {10, 13, 9, 12, 8, 34, 92}")
  case True
  then show ?thesis using ascii_char_short json_chars_escape by fastforce
next
  case False
  then have "c \<noteq> CHR 0x22" "c \<noteq> CHR 0x5C" using code_eqs by auto
  with False show ?thesis
    by (cases "code c < 32 \<or> 126 < code c")
      (simp_all add: ascii_char_plain ascii_char_hex json_chars.simps(2) [of "CHR 0x5C"] json_chars.simps(2) [of c] hex_escape_code)
qed

lemma json_chars_string: "json_chars (concat (map ascii_char s) @ CHR 0x22 # rest) = Some (s, rest)"
  by (induction s) (simp_all add: json_chars_char json_chars.simps)

lemma digits_value_append: "digits_value (xs @ [c]) = 10 * digits_value xs + (code c - 48)"
  by (simp add: digits_value_def)

lemma digit_char_code: "n < 10 \<Longrightarrow> code (digit_char n) = 48 + n"
  by (simp add: digit_char_def)

lemma nat_str_digits: "list_all is_digit (nat_str n) \<and> digits_value (nat_str n) = n"
proof (induction n rule: nat_str.induct)
  case (1 n)
  show ?case
  proof (cases "n < 10")
    case True
    then show ?thesis
      by (simp add: nat_str.simps [of n] digit_char_code digits_value_def is_digit_def)
  next
    case False
    with 1 show ?thesis
      by (simp add: nat_str.simps [of n] digits_value_append digit_char_code is_digit_def)
  qed
qed

lemma code_zero: "code (CHR ''0'') = 48"
  by (simp add: code_def)

lemma nat_str_Cons: "\<exists>c cs. nat_str n = c # cs \<and> is_digit c \<and> (c = CHR ''0'' \<longrightarrow> n = 0 \<and> cs = [])"
proof (induction n rule: nat_str.induct)
  case (1 n)
  show ?case
  proof (cases "n < 10")
    case True
    then have "is_digit (digit_char n)" "digit_char n = CHR ''0'' \<longrightarrow> n = 0"
      using digit_char_code [OF True] code_zero by (auto simp: is_digit_def)
    with True show ?thesis by (simp add: nat_str.simps [of n])
  next
    case False
    with 1 show ?thesis by (fastforce simp: nat_str.simps [of n])
  qed
qed

text \<open>What may follow a value in a text.\<close>

definition delimited :: "string \<Rightarrow> bool" where
  "delimited s \<longleftrightarrow> s = [] \<or> hd s \<in> {CHR '','', CHR '']'', CHR ''}''}"

lemma delimited_digit: "delimited s \<Longrightarrow> dropWhile is_digit s = s \<and> takeWhile is_digit s = []"
  by (cases s) (auto simp: delimited_def is_digit_def code_def)

lemma json_nat_str: "delimited rest \<Longrightarrow> json_nat (nat_str n @ rest) = Some (n, rest)"
proof -
  assume d: "delimited rest"
  obtain c cs where c: "nat_str n = c # cs" "is_digit c" "c = CHR ''0'' \<longrightarrow> n = 0 \<and> cs = []"
    using nat_str_Cons by blast
  have ds: "list_all is_digit (c # cs)" "digits_value (c # cs) = n" using nat_str_digits [of n] c by auto
  have "\<forall>x\<in>set (c # cs). is_digit x" using ds(1) by (simp add: list_all_iff)
  then have tw: "takeWhile is_digit (c # cs @ rest) = c # cs" and dw: "dropWhile is_digit (c # cs @ rest) = rest"
    using delimited_digit [OF d] dropWhile_append2 [of "c # cs" is_digit rest] takeWhile_append2 [of "c # cs" is_digit rest]
    by simp_all
  have nd: "(rest \<noteq> [] \<and> hd rest \<in> {CHR ''.'', CHR ''e'', CHR ''E''}) = False" using d by (auto simp: delimited_def)
  show ?thesis
  proof (cases "c = CHR ''0''")
    case True
    with c nd show ?thesis by (simp add: json_nat_def Let_def)
  next
    case False
    then show ?thesis
      using c ds by (simp only: json_nat_def Let_def list.case append_Cons tw dw nd if_False not_True_eq_False)
  qed
qed

lemma first_char_ne:
  "is_digit c \<Longrightarrow> c \<notin> {CHR ''n'', CHR ''t'', CHR ''f'', CHR ''-'', CHR 0x22, CHR ''['', CHR ''{'', CHR '']'', CHR ''}''}"
  by (auto simp: is_digit_def code_def)

lemma json_atom_int: "delimited rest \<Longrightarrow> json_atom (int_str i @ rest) = Some (PInt i, rest)"
proof -
  assume d: "delimited rest"
  obtain c cs where c: "nat_str (nat i) = c # cs" "is_digit c" using nat_str_Cons by blast
  show ?thesis
    using json_nat_str [OF d, of "nat i"] json_nat_str [OF d, of "nat (- i)"] c first_char_ne [OF c(2)]
    by (auto simp: json_atom_def starts_with_def json_number_def int_str_def)
qed

text \<open>A written value starts with a character that tells its kind and is never white space.\<close>

lemma json_text_first:
  "\<exists>c cs. json_text v = c # cs \<and> \<not> json_space c \<and> c \<notin> {CHR '']'', CHR ''}''}"
proof (cases v)
  case (PInt i)
  obtain c cs where c: "nat_str (nat i) = c # cs" "is_digit c" using nat_str_Cons by blast
  then have "\<not> json_space c" "c \<notin> {CHR '']'', CHR ''}''}"
    using first_char_ne [OF c(2)] by (auto simp: json_space_def is_digit_def)
  with c show ?thesis
    by (auto simp: PInt int_str_def json_space_def code_def)
qed (auto simp: ascii_string_def json_space_def code_def)

lemma skip_text [simp]: "skip_space (json_text v @ r) = json_text v @ r"
  using json_text_first [of v] by (auto simp: skip_space_def)

lemma skip_no_space: "\<not> json_space c \<Longrightarrow> skip_space (c # r) = c # r"
  by (simp add: skip_space_def)

lemma json_space_chars [simp]:
  "json_space (CHR '' '')" "\<not> json_space (CHR '','')" "\<not> json_space (CHR '']'')" "\<not> json_space (CHR ''}'')"
  "\<not> json_space (CHR '':'')" "\<not> json_space (CHR 0x22)"
  by (simp_all add: json_space_def code_def)

lemma skip_blank [simp]: "skip_space (CHR '' '' # r) = skip_space r"
  by (simp add: skip_space_def)

definition member_text :: "string \<times> pyval \<Rightarrow> string" where
  "member_text p = ascii_string (fst p) @ '': '' @ json_text (snd p)"

text \<open>\<open>reads v\<close>: with enough fuel, a text that starts with \<open>v\<close>'s and goes on as one may is read as \<open>v\<close>.\<close>

definition reads :: "pyval \<Rightarrow> bool" where
  "reads v \<longleftrightarrow> (\<forall>n rest. 2 * length (json_text v) < n \<and> delimited rest \<longrightarrow> json_value n (json_text v @ rest) = Some (v, rest))"

lemma readsD: "reads v \<Longrightarrow> 2 * length (json_text v) < n \<Longrightarrow> delimited rest \<Longrightarrow> json_value n (json_text v @ rest) = Some (v, rest)"
  by (simp add: reads_def)

lemma json_items_read:
  assumes "xs \<noteq> []" and "\<forall>x\<in>set xs. reads x" and "2 * length (join '', '' (map json_text xs)) + 1 < n"
  shows "json_items n (join '', '' (map json_text xs) @ CHR '']'' # rest) = Some (xs, rest)"
  using assms
proof (induction xs arbitrary: n)
  case (Cons x xs)
  then obtain m where n: "n = Suc m" by (cases n) auto
  show ?case
  proof (cases xs)
    case Nil
    have "json_value m (json_text x @ CHR '']'' # rest) = Some (x, CHR '']'' # rest)"
      using Cons.prems by (intro readsD) (auto simp: n Nil delimited_def)
    then show ?thesis by (simp add: n Nil json_items.simps skip_no_space)
  next
    case (Cons y ys)
    let ?t = "join '', '' (map json_text xs) @ CHR '']'' # rest"
    have v: "json_value m (json_text x @ CHR '','' # CHR '' '' # ?t) = Some (x, CHR '','' # CHR '' '' # ?t)"
      using Cons.prems by (intro readsD) (auto simp: n Cons delimited_def)
    have skip: "skip_space ?t = ?t" by (cases ys) (simp_all add: Cons)
    have "json_items m ?t = Some (xs, rest)"
      using Cons.prems by (intro Cons.IH) (auto simp: n Cons)
    with v skip show ?thesis by (simp add: n Cons json_items.simps skip_no_space)
  qed
qed simp

lemma json_members_read:
  assumes "d \<noteq> []" and "\<forall>p\<in>set d. reads (snd p)" and "2 * length (join '', '' (map member_text d)) + 1 < n"
  shows "json_members n (join '', '' (map member_text d) @ CHR ''}'' # rest) = Some (d, rest)"
  using assms
proof (induction d arbitrary: n)
  case (Cons p d)
  obtain k v where p: "p = (k, v)" by (cases p)
  from Cons.prems obtain m where n: "n = Suc m" by (cases n) auto
  show ?case
  proof (cases d)
    case Nil
    have "json_value m (json_text v @ CHR ''}'' # rest) = Some (v, CHR ''}'' # rest)"
      using Cons.prems by (intro readsD) (auto simp: n p Nil member_text_def delimited_def)
    then show ?thesis
      by (simp add: n p Nil json_members.simps member_text_def ascii_string_def json_chars_string skip_no_space)
  next
    case (Cons q qs)
    let ?t = "join '', '' (map member_text d) @ CHR ''}'' # rest"
    have v: "json_value m (json_text v @ CHR '','' # CHR '' '' # ?t) = Some (v, CHR '','' # CHR '' '' # ?t)"
      using Cons.prems by (intro readsD) (auto simp: n p Cons member_text_def delimited_def)
    have skip: "skip_space ?t = ?t"
      by (cases qs) (simp_all add: Cons member_text_def ascii_string_def skip_no_space)
    have "json_members m ?t = Some (d, rest)"
      using Cons.prems by (intro Cons.IH) (auto simp: n p Cons)
    with v skip show ?thesis
      by (simp add: n p Cons json_members.simps member_text_def [of "(k, v)"] ascii_string_def json_chars_string skip_no_space)
  qed
qed simp

lemma dict_update_fresh: "distinct (map fst (d @ e)) \<Longrightarrow> dict_update d e = d @ e"
proof (induction e arbitrary: d)
  case Nil
  then show ?case by (simp add: dict_update_def)
next
  case (Cons p e)
  obtain k v where p: "p = (k, v)" by (cases p)
  have "AList.update k v d = d @ [(k, v)]"
    using Cons.prems by (simp add: p update_keys) (induction d; auto simp: p)
  with Cons.IH [of "d @ [(k, v)]"] Cons.prems show ?case by (simp add: dict_update_def p)
qed

lemma readsI:
  assumes "\<And>m rest. 2 * length (json_text v) \<le> m \<Longrightarrow> delimited rest \<Longrightarrow> json_value (Suc m) (json_text v @ rest) = Some (v, rest)"
  shows "reads v"
  unfolding reads_def
proof (intro allI impI)
  fix n rest assume "2 * length (json_text v) < n \<and> delimited rest"
  then show "json_value n (json_text v @ rest) = Some (v, rest)"
    using assms [of "n - 1" rest] by (cases n) auto
qed

lemma json_value_atom:
  "json_text v = c # cs \<Longrightarrow> c \<notin> {CHR 0x22, CHR ''['', CHR ''{''} \<Longrightarrow>
     json_value (Suc m) (json_text v @ rest) = json_atom (json_text v @ rest)"
  by (simp add: json_value.simps)

lemma json_value_open:
  "json_value (Suc m) (CHR 0x22 # cs) = map_option (apfst PStr) (json_chars cs)"
  "skip_space cs = r \<Longrightarrow> r \<noteq> [] \<and> hd r \<noteq> CHR '']'' \<Longrightarrow> json_value (Suc m) (CHR ''['' # cs) = map_option (apfst PList) (json_items m r)"
  "skip_space cs = r \<Longrightarrow> r \<noteq> [] \<and> hd r \<noteq> CHR ''}'' \<Longrightarrow>
     json_value (Suc m) (CHR ''{'' # cs) = map_option (apfst (\<lambda>d. PDict (dict_update [] d))) (json_members m r)"
  by (auto simp: json_value.simps Let_def)

lemma items_first: "xs \<noteq> [] \<Longrightarrow> \<exists>r. join '', '' (map json_text xs) @ t = json_text (hd xs) @ r"
  by (cases xs; cases "tl xs") auto

lemma members_first: "d \<noteq> [] \<Longrightarrow> \<exists>r. join '', '' (map member_text d) @ t = CHR 0x22 # r"
  by (cases d; cases "tl d") (auto simp: member_text_def ascii_string_def)

lemma reads_value: "wf_val v \<Longrightarrow> reads v"
proof (induction v)
  case PNone
  show ?case by (rule readsI) (simp add: json_value_atom json_atom_def starts_with_def json_value.simps)
next
  case (PBool b)
  show ?case by (rule readsI) (simp add: json_value_atom json_atom_def starts_with_def json_value.simps)
next
  case (PInt i)
  obtain c cs where c: "nat_str (nat i) = c # cs" "is_digit c" using nat_str_Cons by blast
  define a where "a = hd (json_text (PInt i))"
  have a: "json_text (PInt i) = a # tl (json_text (PInt i))" "a \<notin> {CHR 0x22, CHR ''['', CHR ''{''}"
    using first_char_ne [OF c(2)] c by (auto simp: a_def int_str_def)
  show ?case
    by (rule readsI, subst json_value_atom [OF a]) (simp add: json_atom_int)
next
  case (PStr s)
  show ?case by (rule readsI) (simp add: ascii_string_def json_value_open json_chars_string)
next
  case (PList xs)
  then have xs: "\<forall>x\<in>set xs. reads x" by (auto simp: list_all_iff)
  show ?case
  proof (cases "xs = []")
    case True
    then show ?thesis by (intro readsI) (simp add: json_value.simps skip_no_space)
  next
    case False
    show ?thesis
    proof (rule readsI)
      fix m :: nat and rest assume "2 * length (json_text (PList xs)) \<le> m"
      then have items: "json_items m (join '', '' (map json_text xs) @ CHR '']'' # rest) = Some (xs, rest)"
        by (intro json_items_read [OF False xs]) simp
      obtain r where r: "join '', '' (map json_text xs) @ CHR '']'' # rest = json_text (hd xs) @ r"
        using items_first [OF False] by blast
      then have "skip_space (join '', '' (map json_text xs) @ CHR '']'' # rest) = join '', '' (map json_text xs) @ CHR '']'' # rest"
        "join '', '' (map json_text xs) @ CHR '']'' # rest \<noteq> [] \<and> hd (join '', '' (map json_text xs) @ CHR '']'' # rest) \<noteq> CHR '']''"
        using json_text_first [of "hd xs"] by auto
      with items show "json_value (Suc m) (json_text (PList xs) @ rest) = Some (PList xs, rest)"
        by (simp add: json_value_open)
    qed
  qed
next
  case (PDict d)
  then have d: "\<forall>p\<in>set d. reads (snd p)" "distinct (map fst d)" by (fastforce simp: list_all_iff)+
  show ?case
  proof (cases "d = []")
    case True
    then show ?thesis by (intro readsI) (simp add: json_value.simps skip_no_space)
  next
    case False
    have out: "json_text (PDict d) = ''{'' @ join '', '' (map member_text d) @ ''}''"
      by (simp add: member_text_def [abs_def])
    show ?thesis
    proof (rule readsI)
      fix m :: nat and rest assume "2 * length (json_text (PDict d)) \<le> m"
      then have members: "json_members m (join '', '' (map member_text d) @ CHR ''}'' # rest) = Some (d, rest)"
        by (intro json_members_read [OF False d(1)]) (simp add: out del: json_text.simps)
      obtain r where r: "join '', '' (map member_text d) @ CHR ''}'' # rest = CHR 0x22 # r"
        using members_first [OF False] by blast
      with members have "json_members m (CHR 0x22 # r) = Some (d, rest)" by simp
      with r d(2) show "json_value (Suc m) (json_text (PDict d) @ rest) = Some (PDict d, rest)"
        by (simp add: out json_value_open skip_no_space dict_update_fresh del: json_text.simps)
    qed
  qed
qed

theorem json_loads_dumps: "wf_val v \<Longrightarrow> json_loads (json_text v) = Inr v"
proof -
  assume "wf_val v"
  from readsD [OF reads_value [OF this], of "2 * length (json_text v) + 1" "[]"] skip_text [of v "[]"]
  show ?thesis by (simp add: json_loads_def delimited_def skip_space_def)
qed

end
