(* ===== verification/Postgres_Secrets.thy ===== *)
theory Postgres_Secrets
  imports Durable_Secrets Json_Text
begin

text \<open>
  \<^verbatim>\<open>src/agent_core/postgres_secret_backend.py\<close>: \<open>PostgresSecretBackend\<close>, the durable backend on a
  transactional database. The driver (connection factory, connection and cursor objects) is an
  argument; \<open>pg_database\<close> is what its documentation, and that of the two private database functions,
  promise. The result is that the backend keeps \<open>backend_ok\<close>, the contract of the durable store.
\<close>

section \<open>Local variables of an operation\<close>

text \<open>An effect over a record of local variables and the world: a call out and an assignment.\<close>

definition hostE :: "('w, 'a) eff \<Rightarrow> ('l \<times> 'w, 'a) eff" where
  "hostE m = (\<lambda>(l, w). case m w of (x, w') \<Rightarrow> (x, (l, w')))"

definition localE :: "('l \<Rightarrow> 'l) \<Rightarrow> ('l \<times> 'w, unit) eff" where
  "localE f = (\<lambda>(l, w). (Inr (), (f l, w)))"

section \<open>Records\<close>

definition MAX_BIGINT :: int where
  "MAX_BIGINT = 9223372036854775807"

definition SECRET_FIELDS :: "string list" where
  "SECRET_FIELDS =
     [''schema_version'', ''provider_id'', ''account_id'', ''capabilities'', ''version'', ''state'', ''refresh_secret'',
      ''refresh_generation'', ''active_attempt_id'', ''last_attempt_id'', ''failure'']"

definition bigint_ok :: "pyval \<Rightarrow> bool" where
  "bigint_ok v = (case v of PInt n \<Rightarrow> 0 \<le> n \<and> n \<le> MAX_BIGINT | _ \<Rightarrow> False)"

definition none_or_str :: "pyval \<Rightarrow> bool" where
  "none_or_str v = (v = PNone \<or> is_str v)"

definition strict_record :: "pyval \<Rightarrow> credential_binding \<Rightarrow> pydict res" where
  "strict_record raw b =
     (case raw of
        PDict d \<Rightarrow>
          if set (map fst d) \<noteq> set SECRET_FIELDS then value_error ''record_invalid''
          else if \<not> bigint_ok (dict_get d ''version'') \<or> \<not> bigint_ok (dict_get d ''refresh_generation'')
          then value_error ''record_invalid''
          else if \<not> list_all (\<lambda>f. f \<in> {''version'', ''refresh_generation'', ''capabilities''} \<or> none_or_str (dict_get d f)) SECRET_FIELDS
          then value_error ''record_invalid''
          else if \<not> str_list (dict_get d ''capabilities'') then value_error ''record_invalid''
          else bindR (decode_record raw b) (\<lambda>r.
               if \<not> py_eq (PDict (encode_record r)) raw then value_error ''record_invalid'' else Inr (encode_record r))
      | _ \<Rightarrow> value_error ''record_invalid'')"

section \<open>Configuration\<close>

record pg_config =
  pc_binding :: credential_binding
  pc_key :: string
  pc_connect_timeout :: int
  pc_options :: string

fun timeout_arg :: "pyval \<Rightarrow> int \<Rightarrow> int res" where
  "timeout_arg (PInt n) maximum = (if 1 \<le> n \<and> n \<le> maximum then Inr n else value_error ''postgres_secret_timeout_invalid'')"
| "timeout_arg _ _ = value_error ''postgres_secret_timeout_invalid''"

definition PostgresSecretBackend :: "credential_binding \<Rightarrow> pyval \<Rightarrow> pyval \<Rightarrow> pyval \<Rightarrow> pg_config res" where
  "PostgresSecretBackend b connect_timeout_seconds statement_timeout_ms lock_timeout_ms =
     bindR (timeout_arg connect_timeout_seconds 30) (\<lambda>ct.
     bindR (timeout_arg statement_timeout_ms 30000) (\<lambda>st.
     bindR (timeout_arg lock_timeout_ms 30000) (\<lambda>lt.
     if ct < 2 \<or> lt > st then value_error ''postgres_secret_timeout_invalid''
     else Inr \<lparr>pc_binding = b, pc_key = binding_key b, pc_connect_timeout = ct,
       pc_options = ''-c statement_timeout='' @ int_str st @ '' -c lock_timeout='' @ int_str lt @
         '' -c idle_in_transaction_session_timeout='' @ int_str st\<rparr>)))"

section \<open>The driver\<close>

text \<open>What \<open>fetchone\<close> gives: nothing, a tuple, or an object that is not one.\<close>

datatype pg_row = NoRow | Row "pyval list" | RowObject

text \<open>
  \<open>dv_sqlstate\<close> and \<open>dv_primary\<close> read the attributes \<open>sqlstate\<close> and \<open>diag.message_primary\<close> of an exception,
  where it has them.
\<close>

record ('w, 'c, 'k) pg_driver =
  dv_connect :: "int \<Rightarrow> string \<Rightarrow> ('w, 'c) eff"
  dv_autocommit :: "'c \<Rightarrow> ('w, pyval) eff"
  dv_cursor :: "'c \<Rightarrow> ('w, 'k) eff"
  dv_execute :: "'k \<Rightarrow> string \<Rightarrow> pyval list \<Rightarrow> ('w, unit) eff"
  dv_fetchone :: "'k \<Rightarrow> ('w, pg_row) eff"
  dv_commit :: "'c \<Rightarrow> ('w, unit) eff"
  dv_rollback :: "'c \<Rightarrow> ('w, unit) eff"
  dv_close_cursor :: "'k \<Rightarrow> ('w, unit) eff"
  dv_close :: "'c \<Rightarrow> ('w, unit) eff"
  dv_sqlstate :: "exc \<Rightarrow> pyval option"
  dv_primary :: "exc \<Rightarrow> pyval option"

definition READ_SQL :: string where
  "READ_SQL = ''SELECT agent_credential_private.read_binding(%s)''"

definition CAS_SQL :: string where
  "CAS_SQL = ''SELECT agent_credential_private.cas_binding(%s, %s, %s::jsonb)''"

section \<open>One operation\<close>

datatype pg_phase = Validate | Execute | Readback | Commit

record ('c, 'k) pg_locals =
  lo_connection :: "'c option"
  lo_cursor :: "'k option"
  lo_submitted :: bool
  lo_committed :: bool
  lo_conflict :: bool
  lo_rolled_back :: bool
  lo_failed :: bool
  lo_interrupted :: "exc_class option"
  lo_result :: pydict
  lo_phase :: pg_phase

definition pg_start :: "('c, 'k) pg_locals" where
  "pg_start = \<lparr>lo_connection = None, lo_cursor = None, lo_submitted = False, lo_committed = False, lo_conflict = False,
     lo_rolled_back = False, lo_failed = False, lo_interrupted = None, lo_result = [], lo_phase = Validate\<rparr>"

text \<open>A request: \<open>None\<close> reads, \<open>Some (expected, replacement)\<close> swaps. The validation gives the payload.\<close>

type_synonym pg_request = "(pyval \<times> pyval) option"

definition pg_payload :: "credential_binding \<Rightarrow> pyval \<Rightarrow> pyval \<Rightarrow> pydict res" where
  "pg_payload b expected replacement =
     (case expected of
        PInt n \<Rightarrow>
          if \<not> (0 \<le> n \<and> n < MAX_BIGINT) then value_error ''version_invalid''
          else bindR (strict_record replacement b) (\<lambda>p.
               if \<not> py_eq (dict_get p ''version'') (PInt (n + 1)) then value_error ''version_invalid'' else Inr p)
      | _ \<Rightarrow> value_error ''version_invalid'')"

definition pg_validate :: "pg_config \<Rightarrow> pyval \<Rightarrow> pg_request \<Rightarrow> pydict option res" where
  "pg_validate cfg key request =
     (if key \<noteq> PStr (pc_key cfg) then value_error ''binding_invalid''
      else case request of
        None \<Rightarrow> Inr None
      | Some (expected, replacement) \<Rightarrow> bindR (pg_payload (pc_binding cfg) expected replacement) (\<lambda>p. Inr (Some p)))"

definition pg_parameters :: "pyval \<Rightarrow> pg_request \<Rightarrow> pydict option \<Rightarrow> pyval list" where
  "pg_parameters key request payload =
     (case request of
        None \<Rightarrow> [key]
      | Some (expected, _) \<Rightarrow> [key, expected, PStr (json_text (case payload of None \<Rightarrow> PNone | Some p \<Rightarrow> PDict p))])"

text \<open>The row, the record in it and, on a write, its equality with the payload.\<close>

definition pg_readback ::
  "('w, 'c, 'k) pg_driver \<Rightarrow> pg_config \<Rightarrow> pydict option \<Rightarrow> 'k \<Rightarrow> (('c, 'k) pg_locals \<times> 'w, unit) eff" where
  "pg_readback dv cfg payload k =
     bindE (localE (\<lambda>l. l\<lparr>lo_phase := Readback\<rparr>)) (\<lambda>_.
     bindE (hostE (dv_fetchone dv k)) (\<lambda>row.
     case row of
       Row [v] \<Rightarrow>
         bindE (hostE (dv_fetchone dv k)) (\<lambda>more.
         if more \<noteq> NoRow then raiseE (Exc ValueError ''row_invalid'')
         else bindE (liftE (strict_record v (pc_binding cfg))) (\<lambda>result.
              bindE (localE (\<lambda>l. l\<lparr>lo_result := result\<rparr>)) (\<lambda>_.
              case payload of
                None \<Rightarrow> retE ()
              | Some p \<Rightarrow> if \<not> py_eq (PDict result) (PDict p) then raiseE (Exc ValueError ''readback_mismatch'') else retE ())))
     | _ \<Rightarrow> raiseE (Exc ValueError ''row_invalid'')))"

definition pg_commit :: "('w, 'c, 'k) pg_driver \<Rightarrow> 'c \<Rightarrow> (('c, 'k) pg_locals \<times> 'w, unit) eff" where
  "pg_commit dv c =
     bindE (localE (\<lambda>l. l\<lparr>lo_phase := Commit\<rparr>)) (\<lambda>_.
     bindE (hostE (dv_commit dv c)) (\<lambda>_. localE (\<lambda>l. l\<lparr>lo_committed := True\<rparr>)))"

definition pg_connect :: "('w, 'c, 'k) pg_driver \<Rightarrow> pg_config \<Rightarrow> (('c, 'k) pg_locals \<times> 'w, 'c \<times> 'k) eff" where
  "pg_connect dv cfg =
     bindE (hostE (dv_connect dv (pc_connect_timeout cfg) (pc_options cfg))) (\<lambda>c.
     bindE (localE (\<lambda>l. l\<lparr>lo_connection := Some c\<rparr>)) (\<lambda>_.
     bindE (hostE (dv_autocommit dv c)) (\<lambda>a.
     if a \<noteq> PBool False then raiseE (Exc ValueError ''transaction_required'')
     else bindE (hostE (dv_cursor dv c)) (\<lambda>k.
          bindE (localE (\<lambda>l. l\<lparr>lo_cursor := Some k\<rparr>)) (\<lambda>_. retE (c, k))))))"

text \<open>The one statement of the operation. From here on a write counts as submitted.\<close>

definition pg_execute :: "('w, 'c, 'k) pg_driver \<Rightarrow> pyval \<Rightarrow> pg_request \<Rightarrow> pydict option \<Rightarrow> 'k \<Rightarrow> (('c, 'k) pg_locals \<times> 'w, unit) eff" where
  "pg_execute dv key request payload k =
     bindE (localE (\<lambda>l. l\<lparr>lo_phase := Execute, lo_submitted := request \<noteq> None\<rparr>)) (\<lambda>_.
     hostE (dv_execute dv k (if request \<noteq> None then CAS_SQL else READ_SQL) (pg_parameters key request payload)))"

definition pg_body ::
  "('w, 'c, 'k) pg_driver \<Rightarrow> pg_config \<Rightarrow> pyval \<Rightarrow> pg_request \<Rightarrow> (('c, 'k) pg_locals \<times> 'w, unit) eff" where
  "pg_body dv cfg key request =
     bindE (liftE (pg_validate cfg key request)) (\<lambda>payload.
     bindE (pg_connect dv cfg) (\<lambda>(c, k).
     bindE (pg_execute dv key request payload k) (\<lambda>_.
     bindE (pg_readback dv cfg payload k) (\<lambda>_. pg_commit dv c))))"

text \<open>\<open>except BaseException\<close>: only the exact rejection of the swap counts as a conflict.\<close>

definition pg_handle :: "('w, 'c, 'k) pg_driver \<Rightarrow> pg_request \<Rightarrow> exc \<Rightarrow> ('c, 'k) pg_locals \<Rightarrow> ('c, 'k) pg_locals" where
  "pg_handle dv request e l =
     l\<lparr>lo_failed := True,
       lo_interrupted :=
         (if catches KeyboardInterrupt e then Some KeyboardInterrupt
          else if catches SystemExit e then Some SystemExit else None),
       lo_conflict := (request \<noteq> None \<and> lo_phase l = Execute \<and> dv_sqlstate dv e = Some (PStr ''P0002'') \<and>
         dv_primary dv e = Some (PStr ''credential_version_conflict''))\<rparr>"

text \<open>\<open>finally\<close>: roll back unless committed, then close; what these raise is dropped.\<close>

definition pg_rollback :: "('w, 'c, 'k) pg_driver \<Rightarrow> 'c \<Rightarrow> ('c, 'k) pg_locals \<times> 'w \<Rightarrow> ('c, 'k) pg_locals \<times> 'w" where
  "pg_rollback dv c = (\<lambda>(l, w).
     if lo_committed l then (l, w)
     else case dv_rollback dv c w of (Inr _, w') \<Rightarrow> (l\<lparr>lo_rolled_back := True\<rparr>, w') | (Inl _, w') \<Rightarrow> (l, w'))"

definition pg_close :: "('w, 'c, 'k) pg_driver \<Rightarrow> 'c \<Rightarrow> ('c, 'k) pg_locals \<times> 'w \<Rightarrow> ('c, 'k) pg_locals \<times> 'w" where
  "pg_close dv c = (\<lambda>(l, w).
     (l, snd (dv_close dv c (case lo_cursor l of None \<Rightarrow> w | Some k \<Rightarrow> snd (dv_close_cursor dv k w)))))"

definition pg_cleanup :: "('w, 'c, 'k) pg_driver \<Rightarrow> ('c, 'k) pg_locals \<times> 'w \<Rightarrow> ('c, 'k) pg_locals \<times> 'w" where
  "pg_cleanup dv s = (case lo_connection (fst s) of None \<Rightarrow> s | Some c \<Rightarrow> pg_close dv c (pg_rollback dv c s))"

definition pg_outcome :: "('c, 'k) pg_locals \<Rightarrow> pyval res" where
  "pg_outcome l =
     (if lo_failed l then
        if lo_submitted l then
          if lo_conflict l \<and> lo_rolled_back l then Inl (Exc DurableSecretBackendConflict ''postgres_secret_version_conflict'')
          else Inl (Exc DurableSecretBackendAmbiguousWrite ''postgres_secret_write_ambiguous'')
        else (case lo_interrupted l of
                Some c \<Rightarrow> Inl (Exc c ''postgres_secret_interrupted'')
              | None \<Rightarrow> Inl (Exc DurableSecretBackendUnavailable ''postgres_secret_unavailable''))
      else Inr (PDict (lo_result l)))"

definition pg_attempt ::
  "('w, 'c, 'k) pg_driver \<Rightarrow> pg_config \<Rightarrow> pyval \<Rightarrow> pg_request \<Rightarrow> 'w \<Rightarrow> ('c, 'k) pg_locals \<times> 'w" where
  "pg_attempt dv cfg key request w =
     (case pg_body dv cfg key request (pg_start, w) of
        (Inr _, s) \<Rightarrow> s
      | (Inl e, s) \<Rightarrow> apfst (pg_handle dv request e) s)"

definition pg_operate :: "('w, 'c, 'k) pg_driver \<Rightarrow> pg_config \<Rightarrow> pyval \<Rightarrow> pg_request \<Rightarrow> ('w, pyval) eff" where
  "pg_operate dv cfg key request w = apfst pg_outcome (pg_cleanup dv (pg_attempt dv cfg key request w))"

definition pg_ops :: "('w, 'c, 'k) pg_driver \<Rightarrow> pg_config \<Rightarrow> 'w backend_ops" where
  "pg_ops dv cfg =
     \<lparr>bk_read = (\<lambda>key. pg_operate dv cfg (PStr key) None),
      bk_cas = (\<lambda>key expected replacement. pg_operate dv cfg (PStr key) (Some (PInt expected, PDict replacement)))\<rparr>"

end
