(* ===== verification/Postgres_Host.thy ===== *)
theory Postgres_Host
  imports Postgres_Secrets
begin

text \<open>
  The host side of the database connection: the endpoint profile
  (\<^verbatim>\<open>src/agent_core/postgres_host_profile.py\<close>), the bootstrap password lease
  (\<^verbatim>\<open>src/agent_core/bootstrap_lease.py\<close>) and the strict connection factory
  (\<^verbatim>\<open>src/agent_core/postgres_host_factory.py\<close>). Arguments are the driver, the password source and the
  test that a lease is current, the clocks (a wall clock reading is a finite number or nothing), the
  certificate snapshot, the environment, and the canonical form of IP addresses.
\<close>

section \<open>Text\<close>

text \<open>\<open>s.split(sep)\<close> for a separator of one character.\<close>

fun split_on :: "char \<Rightarrow> string \<Rightarrow> string list" where
  "split_on c [] = [[]]"
| "split_on c (x # xs) =
     (if x = c then [] # split_on c xs
      else (case split_on c xs of [] \<Rightarrow> [[x]] | y # ys \<Rightarrow> (x # y) # ys))"

definition strip_prefix :: "string \<Rightarrow> string \<Rightarrow> string option" where
  "strip_prefix p s = (if starts_with p s then Some (drop (length p) s) else None)"

text \<open>\<open>str(PurePosixPath(p))\<close> of a path that starts with a slash: two leading slashes are kept, empty
  and \<open>.\<close> parts are dropped.\<close>

definition posix_path :: "string \<Rightarrow> string" where
  "posix_path p =
     (let root = (if starts_with ''//'' p \<and> \<not> starts_with ''///'' p then ''//'' else ''/'') in
      root @ join ''/'' (filter (\<lambda>x. x \<noteq> [] \<and> x \<noteq> ''.'') (split_on (CHR ''/'') p)))"

section \<open>Profile\<close>

record host_profile =
  hp_hostname :: string
  hp_host_address :: string
  hp_port :: int
  hp_database :: string
  hp_login :: string
  hp_root_certificate :: string

definition is_lower_alnum :: "char \<Rightarrow> bool" where
  "is_lower_alnum c \<longleftrightarrow> is_lower c \<or> is_digit c"

definition host_label :: "string \<Rightarrow> bool" where
  "host_label s \<longleftrightarrow> s \<noteq> [] \<and> length s \<le> 63 \<and> is_lower_alnum (hd s) \<and> is_lower_alnum (last s) \<and>
     list_all (\<lambda>c. is_lower_alnum c \<or> c = CHR ''-'') s"

definition db_identifier :: "string \<Rightarrow> bool" where
  "db_identifier s = ident_match (\<lambda>c. is_lower c \<or> c = CHR ''_'') (\<lambda>c. is_lower_alnum c \<or> c = CHR ''_'') 62 s"

definition FORBIDDEN_LOGINS :: "string list" where
  "FORBIDDEN_LOGINS = [''postgres'', ''service_role'', ''supabase_admin'', ''authenticator'', ''anon'', ''authenticated'']"

definition hostname_ok :: "string \<Rightarrow> bool" where
  "hostname_ok s \<longleftrightarrow> length s \<le> 253 \<and> CHR ''.'' \<in> set s \<and> list_all host_label (split_on (CHR ''.'') s)"

definition certificate_ok :: "string \<Rightarrow> bool" where
  "certificate_ok s \<longleftrightarrow> starts_with ''/'' s \<and> length s \<le> 2048 \<and> list_all (\<lambda>c. \<not> (code c < 32 \<or> code c = 127)) s \<and>
     ''..'' \<notin> set (split_on (CHR ''/'') s) \<and> posix_path s = s \<and> s \<noteq> ''/''"

definition PostgresHostProfile ::
  "(string \<Rightarrow> bool) \<Rightarrow> pyval \<Rightarrow> pyval \<Rightarrow> pyval \<Rightarrow> pyval \<Rightarrow> pyval \<Rightarrow> pyval \<Rightarrow> host_profile res" where
  "PostgresHostProfile canonical_ip hostname host_address port database login root_certificate =
     (case (hostname, host_address, port, database, login, root_certificate) of
        (PStr h, PStr a, PInt p, PStr d, PStr l, PStr c) \<Rightarrow>
          if hostname_ok h \<and> canonical_ip a \<and> 1 \<le> p \<and> p \<le> 65535 \<and> db_identifier d \<and> db_identifier l \<and>
             l \<notin> set FORBIDDEN_LOGINS \<and> certificate_ok c
          then Inr \<lparr>hp_hostname = h, hp_host_address = a, hp_port = p, hp_database = d, hp_login = l, hp_root_certificate = c\<rparr>
          else value_error ''postgres_host_profile_invalid''
      | _ \<Rightarrow> value_error ''postgres_host_profile_invalid'')"

definition connection_parameters :: "host_profile \<Rightarrow> pydict" where
  "connection_parameters p =
     [(''host'', PStr (hp_hostname p)), (''hostaddr'', PStr (hp_host_address p)), (''port'', PInt (hp_port p)),
      (''dbname'', PStr (hp_database p)), (''user'', PStr (hp_login p)), (''sslmode'', PStr ''verify-full''),
      (''sslrootcert'', PStr (hp_root_certificate p)), (''gssencmode'', PStr ''disable''),
      (''ssl_min_protocol_version'', PStr ''TLSv1.2''), (''target_session_attrs'', PStr ''read-write'')]"

section \<open>Lease\<close>

record password_lease =
  pw_login :: pyval
  pw_database :: pyval
  pw_version :: pyval
  pw_expires_at :: pyval
  pw_password :: pyval

text \<open>What a password source returns: a lease, or another object.\<close>

datatype lease_value = Lease password_lease | NoLease

definition lease_password_ok :: "pyval \<Rightarrow> bool" where
  "lease_password_ok v = (case v of PStr s \<Rightarrow> s \<noteq> [] \<and> length s \<le> 16384 \<and> CHR 0x00 \<notin> set s | _ \<Rightarrow> False)"

definition validate_lease :: "lease_value \<Rightarrow> host_profile \<Rightarrow> rat \<Rightarrow> password_lease res" where
  "validate_lease v p now =
     (case v of
        Lease l \<Rightarrow>
          (case (pw_version l, pw_expires_at l) of
             (PInt n, PInt expires) \<Rightarrow>
               if pw_login l = PStr (hp_login p) \<and> pw_database l = PStr (hp_database p) \<and> 0 \<le> n \<and> n \<le> MAX_BIGINT \<and>
                  now < of_int expires \<and> lease_password_ok (pw_password l)
               then Inr l else value_error ''bootstrap_lease_invalid''
           | _ \<Rightarrow> value_error ''bootstrap_lease_invalid'')
      | NoLease \<Rightarrow> value_error ''bootstrap_lease_invalid'')"

section \<open>Limits\<close>

text \<open>\<open>[1-9][0-9]{0,4}\<close>.\<close>

definition take_limit :: "string \<Rightarrow> (int \<times> string) option" where
  "take_limit s =
     (let ds = takeWhile is_digit s in
      if ds \<noteq> [] \<and> hd ds \<noteq> CHR ''0'' \<and> length ds \<le> 5 then map_option (\<lambda>n. (int n, drop (length ds) s)) (digits_val 0 False ds)
      else None)"

definition parse_limits :: "string \<Rightarrow> (int \<times> int \<times> int) option" where
  "parse_limits s =
     Option.bind (strip_prefix ''-c statement_timeout='' s) (\<lambda>s1. Option.bind (take_limit s1) (\<lambda>(statement, s2).
     Option.bind (strip_prefix '' -c lock_timeout='' s2) (\<lambda>s3. Option.bind (take_limit s3) (\<lambda>(lock, s4).
     Option.bind (strip_prefix '' -c idle_in_transaction_session_timeout='' s4) (\<lambda>s5. Option.bind (take_limit s5) (\<lambda>(idle, s6).
     if s6 = [] then Some (statement, lock, idle) else None))))))"

definition check_limits :: "pydict \<Rightarrow> (int \<times> int) res" where
  "check_limits limits =
     (if set (map fst limits) \<noteq> {''connect_timeout'', ''options'', ''autocommit'', ''prepare_threshold''}
      then value_error ''connection_limits_invalid''
      else case (dict_get limits ''connect_timeout'', dict_get limits ''options'') of
        (PInt t, PStr options) \<Rightarrow>
          if \<not> (2 \<le> t \<and> t \<le> 30) \<or> dict_get limits ''autocommit'' \<noteq> PBool False \<or> dict_get limits ''prepare_threshold'' \<noteq> PNone
          then value_error ''connection_limits_invalid''
          else (case parse_limits options of
                  None \<Rightarrow> value_error ''connection_limits_invalid''
                | Some (statement, lock, idle) \<Rightarrow>
                    if 1 \<le> lock \<and> lock \<le> statement \<and> statement \<le> 30000 \<and> idle = statement then Inr (statement, lock)
                    else value_error ''connection_limits_invalid'')
      | _ \<Rightarrow> value_error ''connection_limits_invalid'')"

section \<open>The host of the factory\<close>

record ('w, 'c, 't) factory_host =
  fh_environment :: "('w, string list) eff"
  fh_homes :: "('w, string list) eff"
  fh_lexists :: "string \<Rightarrow> ('w, bool) eff"
  fh_snapshot_trust :: "string \<Rightarrow> string \<Rightarrow> ('w, 't) eff"
  fh_trust_path :: "'t \<Rightarrow> ('w, string) eff"
  fh_trust_close :: "'t \<Rightarrow> ('w, unit) eff"
  fh_password_source :: "('w, lease_value) eff"
  fh_lease_is_current :: "pyval \<Rightarrow> ('w, pyval) eff"
  fh_clock :: "('w, rat option) eff"
  fh_monotonic :: "('w, rat) eff"
  fh_connect :: "pydict \<Rightarrow> ('w, 'c) eff"

text \<open>No variable or file of the environment may configure the connection.\<close>

definition ambient_key :: "string \<Rightarrow> bool" where
  "ambient_key key \<longleftrightarrow> starts_with ''PG'' key \<or>
     key \<in> {''OPENSSL_CONF'', ''OPENSSL_MODULES'', ''SSL_CERT_FILE'', ''SSL_CERT_DIR''}"

fun assert_absent :: "('w, 'c, 't) factory_host \<Rightarrow> string list \<Rightarrow> ('w, unit) eff" where
  "assert_absent fh [] = retE ()"
| "assert_absent fh (p # ps) =
     bindE (fh_lexists fh p) (\<lambda>found.
     if found then raiseE (Exc ValueError ''ambient_configuration_rejected'') else assert_absent fh ps)"

definition ambient_files :: "string list \<Rightarrow> string list" where
  "ambient_files homes = concat (map (\<lambda>h. map (\<lambda>f. h @ ''/'' @ f) [''.pgpass'', ''.pg_service.conf'', ''.postgresql'']) homes)"

definition assert_clean_environment :: "('w, 'c, 't) factory_host \<Rightarrow> ('w, unit) eff" where
  "assert_clean_environment fh =
     bindE (fh_environment fh) (\<lambda>keys.
     if list_ex ambient_key keys then raiseE (Exc ValueError ''ambient_configuration_rejected'')
     else bindE (fh_homes fh) (\<lambda>homes. assert_absent fh (ambient_files homes)))"

section \<open>The session\<close>

definition PREFLIGHT_SQL :: string where
  "PREFLIGHT_SQL = join [CHR 0x0A]
     ['''',
      ''SELECT session_user::text, current_user::text, pg_catalog.current_database(),'',
      ''       pg_catalog.pg_is_in_recovery(), pg_catalog.current_setting('' @ [CHR 0x27] @ ''transaction_read_only'' @ [CHR 0x27] @ ''),'',
      ''       (SELECT ssl FROM pg_catalog.pg_stat_ssl WHERE pid=pg_catalog.pg_backend_pid()),'',
      ''       (SELECT rolsuper OR rolcreaterole OR rolcreatedb OR rolreplication OR rolbypassrls OR NOT rolcanlogin'',
      ''          FROM pg_catalog.pg_roles WHERE rolname=session_user),'',
      ''       EXISTS (SELECT 1 FROM pg_catalog.pg_auth_members'',
      ''               WHERE member=(SELECT oid FROM pg_catalog.pg_roles WHERE rolname=session_user)),'',
      ''       (SELECT setting::bigint FROM pg_catalog.pg_settings WHERE name='' @ [CHR 0x27] @ ''statement_timeout'' @ [CHR 0x27] @ ''),'',
      ''       (SELECT setting::bigint FROM pg_catalog.pg_settings WHERE name='' @ [CHR 0x27] @ ''lock_timeout'' @ [CHR 0x27] @ ''),'',
      ''       (SELECT setting::bigint FROM pg_catalog.pg_settings WHERE name='' @ [CHR 0x27] @ ''idle_in_transaction_session_timeout'' @ [CHR 0x27] @ ''),'',
      ''       pg_catalog.current_setting('' @ [CHR 0x27] @ ''log_statement'' @ [CHR 0x27] @ ''),'',
      ''       pg_catalog.current_setting('' @ [CHR 0x27] @ ''log_parameter_max_length_on_error'' @ [CHR 0x27] @ '')::bigint,'',
      ''       pg_catalog.current_setting('' @ [CHR 0x27] @ ''log_duration'' @ [CHR 0x27] @ ''),'',
      ''       pg_catalog.current_setting('' @ [CHR 0x27] @ ''log_min_duration_statement'' @ [CHR 0x27] @ '')::bigint,'',
      ''       pg_catalog.current_setting('' @ [CHR 0x27] @ ''log_min_duration_sample'' @ [CHR 0x27] @ '')::bigint,'',
      ''       pg_catalog.current_setting('' @ [CHR 0x27] @ ''auto_explain.log_min_duration'' @ [CHR 0x27] @ '', true),'',
      ''       pg_catalog.current_setting('' @ [CHR 0x27] @ ''auto_explain.log_parameter_max_length'' @ [CHR 0x27] @ '', true),'',
      ''       pg_catalog.current_setting('' @ [CHR 0x27] @ ''pgaudit.log_parameter'' @ [CHR 0x27] @ '', true)'',
      '''']"

definition extension_log_policy_safe :: "pyval \<Rightarrow> pyval \<Rightarrow> pyval \<Rightarrow> bool" where
  "extension_log_policy_safe auto_duration auto_parameter_length pgaudit_parameter =
     (let auto_safe =
        (case (auto_duration, auto_parameter_length) of
           (PNone, PNone) \<Rightarrow> True
         | (PStr d, PStr n) \<Rightarrow>
             (case (parse_int d, parse_int n) of
                (Some duration, Some parameter_length) \<Rightarrow>
                  duration = -1 \<and> -1 \<le> parameter_length \<and> parameter_length \<le> 2147483647
              | _ \<Rightarrow> False)
         | _ \<Rightarrow> False)
      in auto_safe \<and> (pgaudit_parameter = PNone \<or> pgaudit_parameter = PStr ''off''))"

definition expected_session :: "host_profile \<Rightarrow> int \<Rightarrow> int \<Rightarrow> pyval list" where
  "expected_session p statement lock =
     [PStr (hp_login p), PStr (hp_login p), PStr (hp_database p), PBool False, PStr ''off'', PBool True, PBool False, PBool False,
      PInt statement, PInt lock, PInt statement, PStr ''none'', PInt 0, PStr ''off'', PInt (-1), PInt (-1)]"

definition session_ok :: "host_profile \<Rightarrow> int \<Rightarrow> int \<Rightarrow> pg_row \<Rightarrow> bool" where
  "session_ok p statement lock row =
     (case row of
        Row vs \<Rightarrow>
          let expected = expected_session p statement lock; n = length expected in
          length vs = n + 3 \<and> take n vs = expected \<and>
          extension_log_policy_safe (vs ! n) (vs ! (n + 1)) (vs ! (n + 2))
      | _ \<Rightarrow> False)"

section \<open>The factory\<close>

record connection_factory =
  fc_profile :: host_profile
  fc_trusted_ca_sha256 :: string

definition StrictPostgresConnectionFactory :: "host_profile \<Rightarrow> pyval \<Rightarrow> connection_factory res" where
  "StrictPostgresConnectionFactory p sha =
     (case sha of
        PStr s \<Rightarrow>
          if length s = 64 \<and> list_all (\<lambda>c. is_digit c \<or> (97 \<le> code c \<and> code c \<le> 102)) s
          then Inr \<lparr>fc_profile = p, fc_trusted_ca_sha256 = s\<rparr>
          else value_error ''postgres_host_factory_configuration_invalid''
      | _ \<Rightarrow> value_error ''postgres_host_factory_configuration_invalid'')"

record ('c, 'k, 't) factory_locals =
  fl_connection :: "'c option"
  fl_cursor :: "'k option"
  fl_trust :: "'t option"
  fl_accepted :: bool
  fl_interrupted :: "exc_class option"

definition factory_start :: "('c, 'k, 't) factory_locals" where
  "factory_start = \<lparr>fl_connection = None, fl_cursor = None, fl_trust = None, fl_accepted = False, fl_interrupted = None\<rparr>"

definition assert_current :: "('w, 'c, 't) factory_host \<Rightarrow> password_lease \<Rightarrow> ('w, unit) eff" where
  "assert_current fh lease =
     bindE (fh_lease_is_current fh (pw_version lease)) (\<lambda>current.
     if current \<noteq> PBool True then raiseE (Exc ValueError ''bootstrap_lease_not_current'') else retE ())"

text \<open>The lease, with the wall clock it was checked at and the monotonic anchor.\<close>

definition obtain_lease :: "('w, 'c, 't) factory_host \<Rightarrow> host_profile \<Rightarrow> ('w, password_lease \<times> rat \<times> rat) eff" where
  "obtain_lease fh p =
     bindE (fh_password_source fh) (\<lambda>value.
     bindE (fh_clock fh) (\<lambda>reading.
     case reading of
       None \<Rightarrow> raiseE (Exc ValueError ''bootstrap_clock_invalid'')
     | Some now \<Rightarrow>
         bindE (fh_monotonic fh) (\<lambda>anchor.
         bindE (liftE (validate_lease value p now)) (\<lambda>lease.
         bindE (assert_current fh lease) (\<lambda>_. retE (lease, now, anchor))))))"

definition lease_expires :: "password_lease \<Rightarrow> rat" where
  "lease_expires lease = (case pw_expires_at lease of PInt n \<Rightarrow> of_int n | _ \<Rightarrow> 0)"

definition recheck_lease ::
  "('w, 'c, 't) factory_host \<Rightarrow> host_profile \<Rightarrow> password_lease \<Rightarrow> rat \<Rightarrow> rat \<Rightarrow> ('w, unit) eff" where
  "recheck_lease fh p lease now anchor =
     bindE (fh_clock fh) (\<lambda>reading.
     case reading of
       None \<Rightarrow> raiseE (Exc ValueError ''bootstrap_lease_expired'')
     | Some after \<Rightarrow>
         if after < now then raiseE (Exc ValueError ''bootstrap_lease_expired'')
         else bindE (fh_monotonic fh) (\<lambda>m.
              if m - anchor \<ge> lease_expires lease - now then raiseE (Exc ValueError ''bootstrap_lease_expired'')
              else bindE (liftE (validate_lease (Lease lease) p after)) (\<lambda>_. assert_current fh lease)))"

definition connect_parameters :: "host_profile \<Rightarrow> string \<Rightarrow> pydict \<Rightarrow> pyval \<Rightarrow> pydict" where
  "connect_parameters p ca_path limits password =
     dict_update (connection_parameters p) [(''sslrootcert'', PStr ca_path)] @ limits @
     [(''password'', password), (''passfile'', PStr ''/dev/null''), (''sslcertmode'', PStr ''disable''),
      (''require_auth'', PStr ''scram-sha-256''), (''application_name'', PStr ''agent-secret-host'')]"

definition check_session ::
  "('w, 'c, 'k) pg_driver \<Rightarrow> host_profile \<Rightarrow> int \<Rightarrow> int \<Rightarrow> 'c \<Rightarrow> (('c, 'k, 't) factory_locals \<times> 'w, unit) eff" where
  "check_session dv p statement lock c =
     bindE (hostE (dv_autocommit dv c)) (\<lambda>a.
     if a \<noteq> PBool False then raiseE (Exc ValueError ''transaction_required'')
     else bindE (hostE (dv_cursor dv c)) (\<lambda>k.
          bindE (localE (\<lambda>l. l\<lparr>fl_cursor := Some k\<rparr>)) (\<lambda>_.
          bindE (hostE (dv_execute dv k PREFLIGHT_SQL [])) (\<lambda>_.
          bindE (hostE (dv_fetchone dv k)) (\<lambda>row.
          if \<not> session_ok p statement lock row then raiseE (Exc ValueError ''session_identity_rejected'')
          else bindE (hostE (dv_fetchone dv k)) (\<lambda>more.
               if more \<noteq> NoRow then raiseE (Exc ValueError ''session_identity_rejected'')
               else bindE (hostE (dv_close_cursor dv k)) (\<lambda>_.
                    bindE (localE (\<lambda>l. l\<lparr>fl_cursor := None\<rparr>)) (\<lambda>_. hostE (dv_commit dv c)))))))))"

definition factory_body ::
  "('w, 'c, 't) factory_host \<Rightarrow> ('w, 'c, 'k) pg_driver \<Rightarrow> connection_factory \<Rightarrow> pydict \<Rightarrow>
     (('c, 'k, 't) factory_locals \<times> 'w, unit) eff" where
  "factory_body fh dv fc limits =
     (let p = fc_profile fc in
      bindE (liftE (check_limits limits)) (\<lambda>(statement, lock).
      bindE (hostE (assert_clean_environment fh)) (\<lambda>_.
      bindE (hostE (fh_snapshot_trust fh (hp_root_certificate p) (fc_trusted_ca_sha256 fc))) (\<lambda>t.
      bindE (localE (\<lambda>l. l\<lparr>fl_trust := Some t\<rparr>)) (\<lambda>_.
      bindE (hostE (obtain_lease fh p)) (\<lambda>(lease, now, anchor).
      bindE (hostE (fh_trust_path fh t)) (\<lambda>ca_path.
      bindE (hostE (fh_connect fh (connect_parameters p ca_path limits (pw_password lease)))) (\<lambda>c.
      bindE (localE (\<lambda>l. l\<lparr>fl_connection := Some c\<rparr>)) (\<lambda>_.
      bindE (check_session dv p statement lock c) (\<lambda>_.
      bindE (hostE (recheck_lease fh p lease now anchor)) (\<lambda>_.
      bindE (hostE (fh_trust_close fh t)) (\<lambda>_. localE (\<lambda>l. l\<lparr>fl_trust := None, fl_accepted := True\<rparr>)))))))))))))"

definition factory_handle :: "exc \<Rightarrow> ('c, 'k, 't) factory_locals \<Rightarrow> ('c, 'k, 't) factory_locals" where
  "factory_handle e l = l\<lparr>fl_interrupted :=
     (if catches KeyboardInterrupt e then Some KeyboardInterrupt
      else if catches SystemExit e then Some SystemExit else fl_interrupted l)\<rparr>"

text \<open>\<open>finally\<close>: close the certificate; roll back and close a connection that is not handed over.\<close>

definition factory_cleanup ::
  "('w, 'c, 't) factory_host \<Rightarrow> ('w, 'c, 'k) pg_driver \<Rightarrow> ('c, 'k, 't) factory_locals \<Rightarrow> 'w \<Rightarrow> 'w" where
  "factory_cleanup fh dv l w =
     (let w1 = (case fl_trust l of None \<Rightarrow> w | Some t \<Rightarrow> snd (fh_trust_close fh t w)) in
      case fl_connection l of
        None \<Rightarrow> w1
      | Some c \<Rightarrow>
          if fl_accepted l then w1
          else let w2 = snd (dv_rollback dv c w1);
                   w3 = (case fl_cursor l of None \<Rightarrow> w2 | Some k \<Rightarrow> snd (dv_close_cursor dv k w2))
               in snd (dv_close dv c w3))"

definition factory_outcome :: "('c, 'k, 't) factory_locals \<Rightarrow> 'c res" where
  "factory_outcome l =
     (case (fl_accepted l, fl_connection l) of
        (True, Some c) \<Rightarrow> Inr c
      | _ \<Rightarrow> (case fl_interrupted l of
                Some i \<Rightarrow> Inl (Exc i ''postgres_host_factory_interrupted'')
              | None \<Rightarrow> Inl (Exc DurableSecretBackendUnavailable ''postgres_host_factory_unavailable'')))"

definition strict_connect ::
  "('w, 'c, 't) factory_host \<Rightarrow> ('w, 'c, 'k) pg_driver \<Rightarrow> connection_factory \<Rightarrow> pydict \<Rightarrow> ('w, 'c) eff" where
  "strict_connect fh dv fc limits w =
     (case factory_body fh dv fc limits (factory_start, w) of
        (Inr _, (l, w')) \<Rightarrow> (factory_outcome l, factory_cleanup fh dv l w')
      | (Inl e, (l, w')) \<Rightarrow>
          (let l' = factory_handle e l in (factory_outcome l', factory_cleanup fh dv l' w')))"

text \<open>The factory as the driver of \<open>PostgresSecretBackend\<close>.\<close>

definition connect_limits :: "int \<Rightarrow> string \<Rightarrow> pydict" where
  "connect_limits timeout options =
     [(''connect_timeout'', PInt timeout), (''options'', PStr options), (''autocommit'', PBool False), (''prepare_threshold'', PNone)]"

definition strict_driver ::
  "('w, 'c, 't) factory_host \<Rightarrow> ('w, 'c, 'k) pg_driver \<Rightarrow> connection_factory \<Rightarrow> ('w, 'c, 'k) pg_driver" where
  "strict_driver fh dv fc = dv\<lparr>dv_connect := (\<lambda>timeout options. strict_connect fh dv fc (connect_limits timeout options))\<rparr>"

end
