(* ===== verification/Postgres_Safety.thy ===== *)
theory Postgres_Safety
  imports Postgres_Secrets
begin

text \<open>
  The contract of the database and its driver, and the proof that \<open>PostgresSecretBackend\<close> over it keeps
  the contract of a durable backend: the phases of an operation are followed with pre- and
  postconditions, and the readback makes what the transaction writes the record that was asked for.
\<close>

section \<open>Triples over local variables\<close>

lemma triple_host [triple_rules]:
  assumes "\<And>l. triple (\<lambda>w. P (l, w)) m (\<lambda>x w. Q x (l, w)) (\<lambda>e w. E e (l, w))"
  shows "triple P (hostE m) Q E"
  using assms by (fastforce simp: triple_def hostE_def split: prod.splits sum.splits)

lemma triple_local [triple_rules]: "(\<And>l w. P (l, w) \<Longrightarrow> Q () (f l, w)) \<Longrightarrow> triple P (localE f) Q E"
  by (auto simp: triple_def localE_def)

lemma triple_ex:
  assumes "\<And>v. triple (P v) m Q E"
  shows "triple (\<lambda>s. \<exists>v. P v s) m Q E"
  by (rule tripleI) (use tripleD_Inr [OF assms] tripleD_Inl [OF assms] in blast)+

text \<open>Sequencing with a known triple of the first part.\<close>

lemma triple_seq:
  assumes "triple P' m R E'" and "\<And>s. P s \<Longrightarrow> P' s" and "\<And>e s. E' e s \<Longrightarrow> E e s" and "\<And>x. triple (R x) (f x) Q E"
  shows "triple P (bindE m f) Q E"
  using triple_bind [OF triple_conseq [OF assms(1)], of P R E f Q] assms(2-4) by blast

lemma if_apply: "(if c then f else g) x = (if c then f x else g x)"
  by simp

section \<open>Strict records\<close>

lemma py_eq_opt_str [simp]: "py_eq (opt_str x) (opt_str y) \<longleftrightarrow> x = y"
  by (cases x; cases y) (simp_all add: opt_str_def)

lemma py_eq_str_list [simp]: "list_all2 py_eq (map PStr xs) (map PStr ys) \<longleftrightarrow> xs = ys"
  by (induction xs arbitrary: ys; case_tac ys) auto

lemma wf_encode_record: "wf_val (PDict (encode_record r))"
  by (auto simp: encode_record_def opt_str_def list_all_iff split: option.splits)

lemma encode_record_eq: "py_eq (PDict (encode_record r)) (PDict (encode_record s)) \<longleftrightarrow> r = s"
proof
  show "py_eq (PDict (encode_record r)) (PDict (encode_record s)) \<Longrightarrow> r = s"
    by (cases r; cases s; cases "sr_binding r"; cases "sr_binding s") (simp add: encode_record_def)
next
  assume "r = s"
  with py_eq_refl [OF wf_encode_record] show "py_eq (PDict (encode_record r)) (PDict (encode_record s))" by (simp only:)
qed

lemma strict_record_Inr:
  "strict_record v b = Inr c \<Longrightarrow> \<exists>d r. v = PDict d \<and> decode_record v b = Inr r \<and> c = encode_record r \<and> py_eq (PDict c) v"
  by (auto simp: strict_record_def bindR_eq_Inr split: pyval.splits if_splits)

lemma strict_record_encoded: "strict_record (PDict (encode_record r)) b = Inr c \<Longrightarrow> c = encode_record r"
  by (drule strict_record_Inr) (auto simp only: encode_record_eq)

lemma strict_record_keeps:
  assumes "rec_ok b r" and "binding_ok b" and "sr_version r \<le> MAX_BIGINT" and "sr_refresh_generation r \<le> MAX_BIGINT"
  shows "strict_record (PDict (encode_record r)) b = Inr (encode_record r)"
proof -
  have dec: "decode_record (PDict (encode_record r)) b = Inr r" by (rule decode_encode [OF assms(1,2)])
  have eq: "py_eq (PDict (encode_record r)) (PDict (encode_record r))" by (simp only: encode_record_eq)
  have "0 \<le> sr_version r" "0 \<le> sr_refresh_generation r" using assms(1) by (auto simp: rec_ok_def RefreshSecretRecord_Inr)
  then have n: "bigint_ok (dict_get (encode_record r) ''version'')" "bigint_ok (dict_get (encode_record r) ''refresh_generation'')"
    using assms(3,4) by (simp_all add: encode_record_def bigint_ok_def)
  have o: "none_or_str (opt_str x)" "none_or_str (PStr t)" for x t by (cases x; simp add: none_or_str_def opt_str_def)+
  have f: "list_all (\<lambda>f. f \<in> {''version'', ''refresh_generation'', ''capabilities''} \<or> none_or_str (dict_get (encode_record r) f)) SECRET_FIELDS"
    by (simp add: SECRET_FIELDS_def encode_record_def o)
  have c: "str_list (dict_get (encode_record r) ''capabilities'')"
    by (simp add: encode_record_def str_list_def list_all_iff)
  have "map fst (encode_record r) = SECRET_FIELDS" by (simp add: encode_record_def SECRET_FIELDS_def)
  with n f c dec eq show ?thesis by (simp add: strict_record_def del: py_eq.simps)
qed

text \<open>The strict form of a record is strict.\<close>

lemma strict_record_idem: "strict_record v b = Inr c \<Longrightarrow> strict_record (PDict c) b = Inr c"
proof -
  assume s: "strict_record v b = Inr c"
  then obtain d r where v: "v = PDict d" "decode_record v b = Inr r" "c = encode_record r" "py_eq (PDict c) v"
    using strict_record_Inr by blast
  have ok: "rec_ok b r" "binding_ok b" using decode_record_ok [OF v(2)] by auto
  have "dict_get d ''version'' = PInt (sr_version r)" "dict_get d ''refresh_generation'' = PInt (sr_refresh_generation r)"
    using v(2) by (auto simp: v(1) decode_record_def bindR_eq_Inr RefreshSecretRecord_Inr split: if_splits)
  then have "sr_version r \<le> MAX_BIGINT" "sr_refresh_generation r \<le> MAX_BIGINT"
    using s by (auto simp: strict_record_def v(1) bigint_ok_def split: if_splits)
  with strict_record_keeps [OF ok] v(3) show ?thesis by simp
qed

lemma held_version_encoded: "held_version (PDict (encode_record r)) = PInt (sr_version r)"
  by (simp add: held_version_def encode_record_def)

section \<open>The contract of the database\<close>

text \<open>
  \<open>held w key\<close> is the committed row of a key as \<open>read_binding\<close> gives it; \<open>pending w c\<close> what a commit on
  the connection \<open>c\<close> would write; \<open>fetched w k\<close> what the cursor \<open>k\<close>, which \<open>owner\<close> takes to its connection,
  has left to give. \<open>cas_binding\<close> succeeds on the expected version only, locks the row until the
  transaction ends, and gives back the row it will hold. A commit that fails may have happened;
  nothing else writes.
\<close>

record ('w, 'c, 'k) pg_view =
  pv_held :: "'w \<Rightarrow> string \<Rightarrow> pyval"
  pv_pending :: "'w \<Rightarrow> 'c \<Rightarrow> (string \<times> pyval) option"
  pv_fetched :: "'w \<Rightarrow> 'k \<Rightarrow> pg_row list"
  pv_owner :: "'k \<Rightarrow> 'c"

definition pg_applied :: "('w, 'c, 'k) pg_view \<Rightarrow> 'w \<Rightarrow> 'c \<Rightarrow> string \<Rightarrow> pyval" where
  "pg_applied pv w c = (case pv_pending pv w c of None \<Rightarrow> pv_held pv w | Some (key, v) \<Rightarrow> (pv_held pv w)(key := v))"

definition pg_quiet :: "('w, 'c, 'k) pg_view \<Rightarrow> ('w, 'a) eff \<Rightarrow> bool" where
  "pg_quiet pv m \<longleftrightarrow> (\<forall>w. pv_held pv (snd (m w)) = pv_held pv w)"

definition pg_executes :: "('w, 'c, 'k) pg_driver \<Rightarrow> ('w, 'c, 'k) pg_view \<Rightarrow> bool" where
  "pg_executes dv pv \<longleftrightarrow>
     (\<forall>k sql ps. pg_quiet pv (dv_execute dv k sql ps)) \<and>
     (\<forall>k key w w'. dv_execute dv k READ_SQL [PStr key] w = (Inr (), w') \<longrightarrow>
        pv_fetched pv w' k = [Row [pv_held pv w key]] \<and> pv_pending pv w' (pv_owner pv k) = pv_pending pv w (pv_owner pv k)) \<and>
     (\<forall>k key n t w w'. dv_execute dv k CAS_SQL [PStr key, PInt n, PStr t] w = (Inr (), w') \<longrightarrow>
        held_version (pv_held pv w key) = PInt n \<and>
        (\<exists>v. pv_fetched pv w' k = [Row [v]] \<and> pv_pending pv w' (pv_owner pv k) = Some (key, v)))"

definition pg_fetches :: "('w, 'c, 'k) pg_driver \<Rightarrow> ('w, 'c, 'k) pg_view \<Rightarrow> bool" where
  "pg_fetches dv pv \<longleftrightarrow>
     (\<forall>k w x w'. dv_fetchone dv k w = (x, w') \<longrightarrow>
        pv_held pv w' = pv_held pv w \<and> pv_pending pv w' = pv_pending pv w \<and>
        (\<forall>row. x = Inr row \<longrightarrow>
           (case pv_fetched pv w k of [] \<Rightarrow> row = NoRow \<and> pv_fetched pv w' k = []
            | r # rs \<Rightarrow> row = r \<and> pv_fetched pv w' k = rs)))"

definition pg_commits :: "('w, 'c, 'k) pg_driver \<Rightarrow> ('w, 'c, 'k) pg_view \<Rightarrow> bool" where
  "pg_commits dv pv \<longleftrightarrow>
     (\<forall>c w x w'. dv_commit dv c w = (x, w') \<longrightarrow>
        pv_held pv w' = pg_applied pv w c \<or> (isl x \<and> pv_held pv w' = pv_held pv w))"

definition pg_database :: "('w, 'c, 'k) pg_driver \<Rightarrow> ('w, 'c, 'k) pg_view \<Rightarrow> bool" where
  "pg_database dv pv \<longleftrightarrow>
     (\<forall>t opts. pg_quiet pv (dv_connect dv t opts)) \<and>
     (\<forall>t opts w c w'. dv_connect dv t opts w = (Inr c, w') \<longrightarrow> pv_pending pv w' c = None) \<and>
     (\<forall>c w. pv_held pv (snd (dv_autocommit dv c w)) = pv_held pv w \<and> pv_pending pv (snd (dv_autocommit dv c w)) = pv_pending pv w) \<and>
     (\<forall>c w. pv_held pv (snd (dv_cursor dv c w)) = pv_held pv w \<and> pv_pending pv (snd (dv_cursor dv c w)) = pv_pending pv w) \<and>
     (\<forall>c w k w'. dv_cursor dv c w = (Inr k, w') \<longrightarrow> pv_owner pv k = c) \<and>
     pg_executes dv pv \<and> pg_fetches dv pv \<and> pg_commits dv pv \<and>
     (\<forall>c. pg_quiet pv (dv_rollback dv c)) \<and> (\<forall>k. pg_quiet pv (dv_close_cursor dv k)) \<and> (\<forall>c. pg_quiet pv (dv_close dv c))"

text \<open>What the durable store sees of a row: its record in the writer's own order, where it has one.\<close>

definition pg_held :: "('w, 'c, 'k) pg_view \<Rightarrow> credential_binding \<Rightarrow> 'w \<Rightarrow> string \<Rightarrow> pyval" where
  "pg_held pv b w key = (case strict_record (pv_held pv w key) b of Inr c \<Rightarrow> PDict c | Inl _ \<Rightarrow> pv_held pv w key)"

lemma pg_held_version: "held_version (pg_held pv b w key) = held_version (pv_held pv w key)"
  by (auto simp: pg_held_def held_version_encoded decode_version dest!: strict_record_Inr split: sum.splits)

lemma decode_binding_unique:
  assumes "decode_record v b = Inr r" and "decode_record v b' = Inr r'"
  shows "b = b'"
proof (cases v)
  case (PDict d)
  have "CredentialBinding (dict_get d ''provider_id'') (dict_get d ''account_id'') (dict_get d ''capabilities'') = Inr c"
    if "decode_record v c = Inr q" for c q
    using that by (auto simp: decode_record_def PDict bindR_eq_Inr split: if_splits)
  from this [OF assms(1)] this [OF assms(2)] show ?thesis by simp
qed (use assms in \<open>simp_all add: decode_record_def\<close>)

lemma durable_stored_pg_held: "durable_stored (pg_held pv b) = durable_stored (pv_held pv)"
proof (intro ext)
  fix w b'
  let ?v = "pv_held pv w (binding_key b')"
  show "durable_stored (pg_held pv b) w b' = durable_stored (pv_held pv) w b'"
  proof (cases "strict_record ?v b")
    case (Inr c)
    then obtain r where r: "decode_record ?v b = Inr r" "c = encode_record r" using strict_record_Inr by blast
    have enc: "decode_record (PDict c) b = Inr r"
      unfolding r(2) using decode_record_ok [OF r(1)] by (intro decode_encode) auto
    show ?thesis
    proof (cases "b = b'")
      case True
      then show ?thesis using r enc Inr by (simp add: durable_stored_def pg_held_def)
    next
      case False
      then have "isl (decode_record ?v b')" "isl (decode_record (PDict c) b')"
        using decode_binding_unique r enc by (metis sum.disc(1) sum.collapse(2))+
      then show ?thesis by (auto simp: durable_stored_def pg_held_def Inr isl_def)
    qed
  qed (simp add: durable_stored_def pg_held_def)
qed

section \<open>An operation\<close>

lemmas pg_triples = triple_bind triple_if triple_ret triple_raise triple_lift triple_host triple_local

lemma pg_quietD: "pg_quiet pv m \<Longrightarrow> m w = (x, w') \<Longrightarrow> pv_held pv w' = pv_held pv w"
  unfolding pg_quiet_def by (metis snd_conv)

lemma pg_databaseD:
  assumes "pg_database dv pv"
  shows "dv_connect dv t opts w = (x, w') \<Longrightarrow> pv_held pv w' = pv_held pv w \<and> (\<forall>c. x = Inr c \<longrightarrow> pv_pending pv w' c = None)"
    and "dv_autocommit dv c w = (y, w') \<Longrightarrow> pv_held pv w' = pv_held pv w \<and> pv_pending pv w' = pv_pending pv w"
    and "dv_cursor dv c w = (z, w') \<Longrightarrow>
      pv_held pv w' = pv_held pv w \<and> pv_pending pv w' = pv_pending pv w \<and> (\<forall>k. z = Inr k \<longrightarrow> pv_owner pv k = c)"
    and "pg_executes dv pv" and "pg_fetches dv pv" and "pg_commits dv pv"
    and "dv_rollback dv c w = (u, w') \<Longrightarrow> pv_held pv w' = pv_held pv w"
    and "pv_held pv (snd (dv_close_cursor dv k w)) = pv_held pv w" and "pv_held pv (snd (dv_close dv c w)) = pv_held pv w"
  using assms unfolding pg_database_def pg_quiet_def by (simp_all, (metis snd_conv)+)

text \<open>Between the statement and the commit: nothing is written yet.\<close>

definition pg_fresh :: "('w, 'c, 'k) pg_view \<Rightarrow> (string \<Rightarrow> pyval) \<Rightarrow> ('c, 'k) pg_locals \<times> 'w \<Rightarrow> bool" where
  "pg_fresh pv H s \<longleftrightarrow> pv_held pv (snd s) = H \<and> \<not> lo_submitted (fst s) \<and> \<not> lo_committed (fst s) \<and> \<not> lo_failed (fst s)"

definition pg_at ::
  "('w, 'c, 'k) pg_view \<Rightarrow> (string \<Rightarrow> pyval) \<Rightarrow> (string \<times> pyval) option \<Rightarrow> 'c \<Rightarrow> bool \<Rightarrow> ('c, 'k) pg_locals \<times> 'w \<Rightarrow> bool" where
  "pg_at pv H A c wr s \<longleftrightarrow> pv_held pv (snd s) = H \<and> pv_pending pv (snd s) c = A \<and> lo_submitted (fst s) = wr \<and> \<not> lo_committed (fst s) \<and>
     \<not> lo_failed (fst s)"

definition pg_unwritten :: "('w, 'c, 'k) pg_view \<Rightarrow> (string \<Rightarrow> pyval) \<Rightarrow> ('c, 'k) pg_locals \<times> 'w \<Rightarrow> bool" where
  "pg_unwritten pv H s \<longleftrightarrow> pv_held pv (snd s) = H \<and> \<not> lo_committed (fst s)"

definition pg_written :: "(string \<Rightarrow> pyval) \<Rightarrow> (string \<times> pyval) option \<Rightarrow> string \<Rightarrow> pyval" where
  "pg_written H A = (case A of None \<Rightarrow> H | Some (key, v) \<Rightarrow> H(key := v))"

lemmas pg_stage_defs = pg_fresh_def pg_at_def pg_unwritten_def
lemmas pg_step_simps = bindE_apply hostE_def localE_def if_apply

lemma pg_connect_triple:
  assumes "pg_database dv pv"
  shows "triple (pg_fresh pv H) (pg_connect dv cfg) (\<lambda>ck s. pg_at pv H None (fst ck) False s \<and> pv_owner pv (snd ck) = fst ck)
    (\<lambda>e. pg_unwritten pv H)"
  unfolding pg_connect_def triple_def pg_stage_defs
  by (auto simp: pg_step_simps split: prod.splits sum.splits dest!: pg_databaseD(1-3) [OF assms])

text \<open>The statement: what it may write is pending.\<close>

lemma pg_execute_swap:
  assumes "pg_executes dv pv" and "pv_owner pv k = c"
  shows "triple (pg_at pv H None c False) (pg_execute dv (PStr key) (Some (PInt n, replacement)) (Some p) k)
    (\<lambda>_ s. \<exists>v. (pg_at pv H (Some (key, v)) c True s \<and> pv_fetched pv (snd s) k = [Row [v]]) \<and> held_version (H key) = PInt n)
    (\<lambda>e. pg_unwritten pv H)"
proof -
  have e: "pv_held pv w' = pv_held pv w \<and> (x = Inr () \<longrightarrow> held_version (pv_held pv w key) = PInt n \<and>
      (\<exists>v. pv_fetched pv w' k = [Row [v]] \<and> pv_pending pv w' (pv_owner pv k) = Some (key, v)))"
    if "dv_execute dv k CAS_SQL [PStr key, PInt n, PStr t] w = (x, w')" for t w x w'
    using assms(1) that unfolding pg_executes_def pg_quiet_def by (metis snd_conv)
  show ?thesis
    unfolding pg_execute_def triple_def pg_stage_defs
    by (auto simp: pg_step_simps pg_parameters_def assms(2) split: prod.splits sum.splits dest!: e)
qed

lemma pg_execute_read:
  assumes "pg_executes dv pv" and "pv_owner pv k = c"
  shows "triple (pg_at pv H None c False) (pg_execute dv (PStr key) None None k)
    (\<lambda>_ s. pg_at pv H None c False s \<and> pv_fetched pv (snd s) k = [Row [H key]])
    (\<lambda>e. pg_unwritten pv H)"
proof -
  have e: "pv_held pv w' = pv_held pv w \<and> (x = Inr () \<longrightarrow> pv_fetched pv w' k = [Row [pv_held pv w key]] \<and>
      pv_pending pv w' (pv_owner pv k) = pv_pending pv w (pv_owner pv k))"
    if "dv_execute dv k READ_SQL [PStr key] w = (x, w')" for w x w'
    using assms(1) that unfolding pg_executes_def pg_quiet_def by (metis snd_conv)
  show ?thesis
    unfolding pg_execute_def triple_def pg_stage_defs
    by (auto simp: pg_step_simps pg_parameters_def assms(2) split: prod.splits sum.splits dest!: e)
qed

text \<open>After the row was fetched and checked, the record in it is the result, and on a write the payload.\<close>

lemma pg_readback_triple:
  assumes "pg_fetches dv pv"
  shows "triple (\<lambda>s. pg_at pv H A c wr s \<and> pv_fetched pv (snd s) k = [Row [v]]) (pg_readback dv cfg payload k)
    (\<lambda>_ s. pg_at pv H A c wr s \<and> strict_record v (pc_binding cfg) = Inr (lo_result (fst s)) \<and>
       (\<forall>p. payload = Some p \<longrightarrow> py_eq (PDict (lo_result (fst s))) (PDict p)))
    (\<lambda>e. pg_unwritten pv H)"
proof -
  have f: "pv_held pv w' = pv_held pv w \<and> pv_pending pv w' = pv_pending pv w \<and> (\<forall>row. x = Inr row \<longrightarrow>
      (case pv_fetched pv w k of [] \<Rightarrow> row = NoRow \<and> pv_fetched pv w' k = [] | r # rs \<Rightarrow> row = r \<and> pv_fetched pv w' k = rs))"
    if "dv_fetchone dv k w = (x, w')" for w x w'
    using assms that unfolding pg_fetches_def by blast
  show ?thesis
    unfolding pg_readback_def triple_def pg_stage_defs
    by (auto simp: pg_step_simps simp del: py_eq.simps
        split: prod.splits sum.splits option.splits if_splits dest!: f)
qed

text \<open>The commit: it writes what is pending, and when it fails it may have.\<close>

lemma pg_commit_triple:
  assumes "pg_commits dv pv"
  shows "triple (\<lambda>s. pg_at pv H A c wr s \<and> T (lo_result (fst s))) (pg_commit dv c)
    (\<lambda>_ s. pv_held pv (snd s) = pg_written H A \<and> T (lo_result (fst s)) \<and> \<not> lo_failed (fst s))
    (\<lambda>e s. pg_unwritten pv H s \<or> (pv_held pv (snd s) = pg_written H A \<and> \<not> lo_committed (fst s) \<and> lo_phase (fst s) = Commit \<and>
       lo_submitted (fst s) = wr \<and> T (lo_result (fst s))))"
proof -
  have c: "pv_held pv w' = pg_applied pv w c \<or> (isl x \<and> pv_held pv w' = pv_held pv w)" if "dv_commit dv c w = (x, w')" for w x w'
    using assms that unfolding pg_commits_def by blast
  show ?thesis
    unfolding pg_commit_def triple_def pg_stage_defs pg_written_def
    by (auto simp: pg_step_simps pg_applied_def split: prod.splits sum.splits dest!: c)
qed

lemma pg_cleanup_locals: "fst (pg_cleanup dv s) = fst s \<or> fst (pg_cleanup dv s) = (fst s)\<lparr>lo_rolled_back := True\<rparr>"
  by (cases s) (auto simp: pg_cleanup_def pg_close_def pg_rollback_def split: option.splits prod.splits sum.splits)

lemma pg_cleanup_held:
  assumes "pg_database dv pv"
  shows "pv_held pv (snd (pg_cleanup dv s)) = pv_held pv (snd s)"
proof -
  have "pv_held pv (snd (pg_rollback dv c s)) = pv_held pv (snd s)" for c
    by (cases s) (auto simp: pg_rollback_def split: prod.splits sum.splits dest!: pg_databaseD(7) [OF assms])
  moreover have "pv_held pv (snd (pg_close dv c t)) = pv_held pv (snd t)" for c t
    by (cases t) (simp add: pg_close_def pg_databaseD(8,9) [OF assms] split: option.splits)
  ultimately show ?thesis by (simp add: pg_cleanup_def split: option.splits)
qed

section \<open>The two operations\<close>

lemma pg_validate_Inr:
  "pg_validate cfg key None = Inr payload \<longleftrightarrow> payload = None \<and> key = PStr (pc_key cfg)"
  "pg_validate cfg key (Some (PInt n, PDict (encode_record r))) = Inr payload \<Longrightarrow>
     payload = Some (encode_record r) \<and> key = PStr (pc_key cfg)"
  by (auto simp: pg_validate_def pg_payload_def bindR_eq_Inr split: if_splits dest: strict_record_encoded)

text \<open>From the statement to the commit.\<close>

lemma pg_tail_read:
  assumes db: "pg_database dv pv" and "pv_owner pv k = c"
  shows "triple (pg_at pv H None c False)
    (bindE (pg_execute dv (PStr key) None None k) (\<lambda>_. bindE (pg_readback dv cfg None k) (\<lambda>_. pg_commit dv c)))
    (\<lambda>_ s. pv_held pv (snd s) = H \<and> strict_record (H key) (pc_binding cfg) = Inr (lo_result (fst s)) \<and> \<not> lo_failed (fst s))
    (\<lambda>e s. pv_held pv (snd s) = H)"
proof (rule triple_seq [OF pg_execute_read [OF pg_databaseD(4) [OF db] assms(2)]], assumption)
  show "triple (\<lambda>s. pg_at pv H None c False s \<and> pv_fetched pv (snd s) k = [Row [H key]])
    (bindE (pg_readback dv cfg None k) (\<lambda>_. pg_commit dv c))
    (\<lambda>_ s. pv_held pv (snd s) = H \<and> strict_record (H key) (pc_binding cfg) = Inr (lo_result (fst s)) \<and> \<not> lo_failed (fst s))
    (\<lambda>e s. pv_held pv (snd s) = H)"
    by (rule triple_seq [OF pg_readback_triple [OF pg_databaseD(5) [OF db]]], assumption, simp add: pg_unwritten_def,
        rule triple_conseq [OF pg_commit_triple [OF pg_databaseD(6) [OF db], where T = "\<lambda>r. strict_record (H key) (pc_binding cfg) = Inr r"]])
      (auto simp: pg_written_def pg_unwritten_def)
qed (simp_all add: pg_unwritten_def)

text \<open>The swap took place: the expected version was replaced by the requested record, no other row changed.\<close>

definition pg_swapped :: "('w, 'c, 'k) pg_view \<Rightarrow> (string \<Rightarrow> pyval) \<Rightarrow> string \<Rightarrow> int \<Rightarrow> credential_binding \<Rightarrow> secret_record \<Rightarrow> 'w \<Rightarrow> bool" where
  "pg_swapped pv H key n b r w \<longleftrightarrow> held_version (H key) = PInt n \<and>
     (\<exists>v. pv_held pv w = H(key := v) \<and> strict_record v b = Inr (encode_record r))"

lemma pg_tail_swap:
  assumes db: "pg_database dv pv" and "pv_owner pv k = c"
  shows "triple (pg_at pv H None c False)
    (bindE (pg_execute dv (PStr key) (Some (PInt n, q)) (Some (encode_record r)) k)
      (\<lambda>_. bindE (pg_readback dv cfg (Some (encode_record r)) k) (\<lambda>_. pg_commit dv c)))
    (\<lambda>_ s. pg_swapped pv H key n (pc_binding cfg) r (snd s) \<and> lo_result (fst s) = encode_record r \<and> \<not> lo_failed (fst s))
    (\<lambda>e s. pg_unwritten pv H s \<or> (pg_swapped pv H key n (pc_binding cfg) r (snd s) \<and> \<not> lo_committed (fst s) \<and>
       lo_phase (fst s) = Commit \<and> lo_submitted (fst s)))"
  (is "triple _ _ ?Q ?E")
proof (rule triple_seq [OF pg_execute_swap [OF pg_databaseD(4) [OF db] assms(2)]], assumption)
  fix x :: unit
  show "triple (\<lambda>s. \<exists>v. (pg_at pv H (Some (key, v)) c True s \<and> pv_fetched pv (snd s) k = [Row [v]]) \<and> held_version (H key) = PInt n)
    (bindE (pg_readback dv cfg (Some (encode_record r)) k) (\<lambda>_. pg_commit dv c)) ?Q ?E"
  proof (intro triple_ex triple_pure)
    fix v assume n: "held_version (H key) = PInt n"
    show "triple (\<lambda>s. pg_at pv H (Some (key, v)) c True s \<and> pv_fetched pv (snd s) k = [Row [v]])
      (bindE (pg_readback dv cfg (Some (encode_record r)) k) (\<lambda>_. pg_commit dv c)) ?Q ?E"
      by (rule triple_seq [OF pg_readback_triple [OF pg_databaseD(5) [OF db]]], assumption, blast,
          rule triple_conseq [OF pg_commit_triple [OF pg_databaseD(6) [OF db],
            where T = "\<lambda>res. strict_record v (pc_binding cfg) = Inr res \<and> res = encode_record r"]])
        (auto simp: pg_written_def pg_swapped_def n encode_record_eq simp del: py_eq.simps dest: strict_record_Inr)
  qed
qed simp

text \<open>A whole operation up to its handler.\<close>

lemma pg_body_read:
  assumes "pg_database dv pv"
  shows "triple (pg_fresh pv H) (pg_body dv cfg key None)
    (\<lambda>_ s. pv_held pv (snd s) = H \<and> key = PStr (pc_key cfg) \<and> strict_record (H (pc_key cfg)) (pc_binding cfg) = Inr (lo_result (fst s)) \<and> \<not> lo_failed (fst s))
    (\<lambda>e s. pv_held pv (snd s) = H)"
  unfolding pg_body_def
proof (rule triple_bind [where R = "\<lambda>payload s. pg_fresh pv H s \<and> payload = None \<and> key = PStr (pc_key cfg)"], goal_cases)
  case 1
  show ?case by (rule triple_lift) (auto simp: pg_validate_Inr pg_fresh_def)
next
  case (2 payload)
  show ?case
  proof (intro triple_pure, elim conjE, unfold split_beta, rule triple_seq [OF pg_connect_triple [OF assms]], assumption)
    fix ck assume "payload = None" "key = PStr (pc_key cfg)"
    then show "triple (\<lambda>s. pg_at pv H None (fst ck) False s \<and> pv_owner pv (snd ck) = fst ck)
      (bindE (pg_execute dv key None payload (snd ck)) (\<lambda>_. bindE (pg_readback dv cfg payload (snd ck)) (\<lambda>_. pg_commit dv (fst ck))))
      (\<lambda>_ s. pv_held pv (snd s) = H \<and> key = PStr (pc_key cfg) \<and>
         strict_record (H (pc_key cfg)) (pc_binding cfg) = Inr (lo_result (fst s)) \<and> \<not> lo_failed (fst s))
      (\<lambda>e s. pv_held pv (snd s) = H)"
      using pg_tail_read [OF assms] by (intro triple_pure) simp
  qed (auto simp: pg_unwritten_def)
qed

lemma pg_body_swap:
  assumes "pg_database dv pv"
  shows "triple (pg_fresh pv H) (pg_body dv cfg key (Some (PInt n, PDict (encode_record r))))
    (\<lambda>_ s. pg_swapped pv H (pc_key cfg) n (pc_binding cfg) r (snd s) \<and> key = PStr (pc_key cfg) \<and> lo_result (fst s) = encode_record r \<and> \<not> lo_failed (fst s))
    (\<lambda>e s. pg_unwritten pv H s \<or> (pg_swapped pv H (pc_key cfg) n (pc_binding cfg) r (snd s) \<and> key = PStr (pc_key cfg) \<and>
       \<not> lo_committed (fst s) \<and> lo_phase (fst s) = Commit \<and> lo_submitted (fst s)))"
    (is "triple _ _ ?Q ?E")
  unfolding pg_body_def
proof (rule triple_bind [where R = "\<lambda>payload s. pg_fresh pv H s \<and> payload = Some (encode_record r) \<and> key = PStr (pc_key cfg)"], goal_cases)
  case 1
  show ?case by (rule triple_lift) (auto simp: pg_stage_defs dest: pg_validate_Inr(2))
next
  case (2 payload)
  show ?case
  proof (intro triple_pure, elim conjE, unfold split_beta, rule triple_seq [OF pg_connect_triple [OF assms]], assumption)
    fix ck assume "payload = Some (encode_record r)" "key = PStr (pc_key cfg)"
    then show "triple (\<lambda>s. pg_at pv H None (fst ck) False s \<and> pv_owner pv (snd ck) = fst ck)
      (bindE (pg_execute dv key (Some (PInt n, PDict (encode_record r))) payload (snd ck))
        (\<lambda>_. bindE (pg_readback dv cfg payload (snd ck)) (\<lambda>_. pg_commit dv (fst ck)))) ?Q ?E"
      using pg_tail_swap [OF assms] by (intro triple_pure) simp
  qed (auto simp: pg_unwritten_def)
qed

section \<open>The contract of a durable backend\<close>

text \<open>What the caller gets of an attempt: the result, or one of the fixed errors.\<close>

definition pg_errors :: "exc set" where
  "pg_errors = {Exc DurableSecretBackendConflict ''postgres_secret_version_conflict'',
     Exc DurableSecretBackendAmbiguousWrite ''postgres_secret_write_ambiguous'',
     Exc DurableSecretBackendUnavailable ''postgres_secret_unavailable'',
     Exc KeyboardInterrupt ''postgres_secret_interrupted'', Exc SystemExit ''postgres_secret_interrupted''}"

lemma pg_outcome_handled:
  assumes "l' = pg_handle dv request e l \<or> l' = (pg_handle dv request e l)\<lparr>lo_rolled_back := True\<rparr>"
  shows "\<exists>e'. pg_outcome l' = Inl e' \<and> e' \<in> pg_errors \<and>
    (catches DurableSecretBackendConflict e' \<longrightarrow> lo_phase l = Execute \<and> request \<noteq> None \<and> dv_sqlstate dv e = Some (PStr ''P0002'') \<and>
       dv_primary dv e = Some (PStr ''credential_version_conflict''))"
  using assms by (auto simp: pg_outcome_def pg_handle_def pg_errors_def catches_def)

lemma pg_operate_cases:
  assumes "pg_database dv pv" and "pg_operate dv cfg key request w = (x, w')"
  obtains (Done) s where "pg_body dv cfg key request (pg_start, w) = (Inr (), s)" "pv_held pv w' = pv_held pv (snd s)"
      "\<not> lo_failed (fst s) \<Longrightarrow> x = Inr (PDict (lo_result (fst s)))"
  | (Failed) e s e' where "pg_body dv cfg key request (pg_start, w) = (Inl e, s)" "pv_held pv w' = pv_held pv (snd s)"
      "x = Inl e'" "catches DurableSecretBackendConflict e' \<Longrightarrow> lo_phase (fst s) = Execute"
proof -
  let ?a = "pg_attempt dv cfg key request w"
  have x: "x = pg_outcome (fst (pg_cleanup dv ?a))" and w': "pv_held pv w' = pv_held pv (snd ?a)"
    using assms(2) pg_cleanup_held [OF assms(1), of ?a] by (auto simp: pg_operate_def apfst_def map_prod_def split: prod.splits)
  note c = pg_cleanup_locals [of dv ?a]
  obtain y s where body: "pg_body dv cfg key request (pg_start, w) = (y, s)" by (cases "pg_body dv cfg key request (pg_start, w)")
  show thesis
  proof (cases y)
    case (Inr u)
    then have "?a = s" using body by (simp add: pg_attempt_def)
    with x w' c show thesis using Done [of s] body Inr by (auto simp: pg_outcome_def)
  next
    case (Inl e)
    then have "?a = apfst (pg_handle dv request e) s" using body by (simp add: pg_attempt_def)
    with x w' c pg_outcome_handled [of "fst (pg_cleanup dv ?a)" dv request e "fst s"] obtain e' where
      "x = Inl e'" "catches DurableSecretBackendConflict e' \<longrightarrow> lo_phase (fst s) = Execute" "pv_held pv w' = pv_held pv (snd s)"
      by (cases s) auto
    with Failed [of e s e'] body Inl show thesis by blast
  qed
qed

lemma pg_start_fresh: "pg_fresh pv (pv_held pv w) (pg_start, w)"
  by (simp add: pg_fresh_def pg_start_def)

lemma pg_read_ok:
  assumes db: "pg_database dv pv" and op: "pg_operate dv cfg (PStr k) None w = (x, w')"
  shows "pv_held pv w' = pv_held pv w \<and> (\<forall>v. x = Inr v \<longrightarrow> v = pg_held pv (pc_binding cfg) w k)"
  using db op
proof (cases rule: pg_operate_cases)
  case (Done s)
  from tripleD_Inr [OF pg_body_read [OF db] pg_start_fresh Done(1)] Done(2,3) show ?thesis by (simp add: pg_held_def)
next
  case (Failed e s e')
  from tripleD_Inl [OF pg_body_read [OF db] pg_start_fresh Failed(1)] Failed(2,3) show ?thesis by simp
qed

lemma pg_swap_ok:
  assumes db: "pg_database dv pv" and op: "pg_operate dv cfg (PStr k) (Some (PInt n, PDict (encode_record r))) w = (x, w')"
  shows "case x of
      Inr v \<Rightarrow> k = pc_key cfg \<and> pg_swapped pv (pv_held pv w) k n (pc_binding cfg) r w' \<and> v = PDict (encode_record r)
    | Inl e \<Rightarrow> pv_held pv w' = pv_held pv w \<or> (k = pc_key cfg \<and> \<not> catches DurableSecretBackendConflict e \<and>
        pg_swapped pv (pv_held pv w) k n (pc_binding cfg) r w')"
  using db op
proof (cases rule: pg_operate_cases)
  case (Done s)
  from tripleD_Inr [OF pg_body_swap [OF db] pg_start_fresh Done(1)] Done(2,3) show ?thesis by (simp add: pg_swapped_def)
next
  case (Failed e s e')
  from tripleD_Inl [OF pg_body_swap [OF db] pg_start_fresh Failed(1)] Failed(2-4) show ?thesis
    by (auto simp: pg_unwritten_def pg_swapped_def)
qed

lemma pg_held_same: "pv_held pv w' = pv_held pv w \<Longrightarrow> pg_held pv b w' k = pg_held pv b w k"
  by (simp add: pg_held_def split: sum.split)

lemma pg_backend_ok:
  assumes "pg_database dv pv"
  shows "backend_ok (pg_ops dv cfg) (pg_held pv (pc_binding cfg))"
proof -
  let ?h = "pg_held pv (pc_binding cfg)"
  have rd: "?h w' k = ?h w k \<and> (\<forall>v. x = Inr v \<longrightarrow> v = ?h w k)" if "bk_read (pg_ops dv cfg) k w = (x, w')" for k w x w'
    using pg_read_ok [OF assms that [unfolded pg_ops_def backend_ops.simps]] pg_held_same [of pv w' w] by metis
  have sw: "held_version (?h w k) = PInt n \<and> ?h w' k = PDict (encode_record r)"
    if "pg_swapped pv (pv_held pv w) k n (pc_binding cfg) r w'" for k n r w w'
    using that by (auto simp: pg_swapped_def pg_held_version) (simp add: pg_held_def)
  have cas: "case x of Inr v \<Rightarrow> held_version (?h w k) = PInt n \<and> ?h w' k = PDict (encode_record r) \<and> v = PDict (encode_record r)
      | Inl e \<Rightarrow> ?h w' k = ?h w k \<or> (\<not> catches DurableSecretBackendConflict e \<and> held_version (?h w k) = PInt n \<and>
          ?h w' k = PDict (encode_record r))"
    if "bk_cas (pg_ops dv cfg) k n (encode_record r) w = (x, w')" for k n r w x w'
    using pg_swap_ok [OF assms that [unfolded pg_ops_def backend_ops.simps]] sw [of w k n r w']
    by (auto split: sum.splits dest: pg_held_same [of pv w' w])
  show ?thesis unfolding backend_ok_def using rd cas by blast
qed

lemma postgres_secret_store:
  assumes "pg_database dv pv"
  shows "secret_store (durable_ops (pg_ops dv cfg)) (durable_stored (pv_held pv))"
  using durable_secret_store [OF pg_backend_ok [OF assms]] by (simp only: durable_stored_pg_held)

section \<open>Any driver\<close>

text \<open>Without any assumption on the driver: a result is a strict record, on a swap the requested one.\<close>

lemma triple_any: "(\<And>e s. E e s) \<Longrightarrow> triple P m (\<lambda>_ s. True) E"
  by (rule tripleI) auto

definition pg_good :: "credential_binding \<Rightarrow> pydict option \<Rightarrow> ('c, 'k) pg_locals \<times> 'w \<Rightarrow> bool" where
  "pg_good b payload s \<longleftrightarrow> \<not> lo_failed (fst s) \<and> (\<exists>v. strict_record v b = Inr (lo_result (fst s))) \<and>
     (\<forall>p. payload = Some p \<longrightarrow> py_eq (PDict (lo_result (fst s))) (PDict p))"

abbreviation pg_unfailed :: "('c, 'k) pg_locals \<times> 'w \<Rightarrow> bool" where
  "pg_unfailed s \<equiv> \<not> lo_failed (fst s)"

lemma pg_stages_any:
  "triple pg_unfailed (pg_connect dv cfg) (\<lambda>_. pg_unfailed) (\<lambda>_ _. True)"
  "triple pg_unfailed (pg_execute dv key request payload k) (\<lambda>_. pg_unfailed) (\<lambda>_ _. True)"
  "triple pg_unfailed (pg_readback dv cfg payload k) (\<lambda>_. pg_good (pc_binding cfg) payload) (\<lambda>_ _. True)"
  "triple (pg_good b payload) (pg_commit dv c) (\<lambda>_. pg_good b payload) (\<lambda>_ _. True)"
  unfolding triple_def pg_connect_def pg_execute_def pg_readback_def pg_commit_def pg_good_def
  by (auto simp: pg_step_simps simp del: py_eq.simps split: prod.splits sum.splits option.splits if_splits pg_row.splits list.splits)

lemma pg_body_any:
  "triple pg_unfailed (pg_body dv cfg key request)
     (\<lambda>_ s. \<exists>payload. pg_validate cfg key request = Inr payload \<and> pg_good (pc_binding cfg) payload s) (\<lambda>_ _. True)"
  unfolding pg_body_def
proof (rule triple_bind [where R = "\<lambda>payload s. pg_unfailed s \<and> pg_validate cfg key request = Inr payload"], goal_cases)
  case 1
  show ?case by (rule triple_lift) auto
next
  case (2 payload)
  show ?case
  proof (intro triple_pure, unfold split_beta, rule triple_bind [OF pg_stages_any(1)], rule triple_bind [OF pg_stages_any(2)],
      rule triple_bind [OF pg_stages_any(3)])
    assume "pg_validate cfg key request = Inr payload"
    then show "triple (pg_good (pc_binding cfg) payload) (pg_commit dv (fst ck))
      (\<lambda>_ s. \<exists>payload. pg_validate cfg key request = Inr payload \<and> pg_good (pc_binding cfg) payload s) (\<lambda>_ _. True)" for ck
      by (auto intro: triple_post [OF pg_stages_any(4)])
  qed
qed

lemma pg_operate_any:
  assumes "pg_operate dv cfg key request w = (x, w')"
  shows "case x of Inl e \<Rightarrow> e \<in> pg_errors
    | Inr v \<Rightarrow> \<exists>payload c u. pg_validate cfg key request = Inr payload \<and> v = PDict c \<and> strict_record u (pc_binding cfg) = Inr c \<and>
        (\<forall>p. payload = Some p \<longrightarrow> py_eq (PDict c) (PDict p))"
proof -
  let ?a = "pg_attempt dv cfg key request w"
  have x: "x = pg_outcome (fst (pg_cleanup dv ?a))"
    using assms by (auto simp: pg_operate_def apfst_def map_prod_def split: prod.splits)
  note c = pg_cleanup_locals [of dv ?a]
  obtain y s where body: "pg_body dv cfg key request (pg_start, w) = (y, s)" by (cases "pg_body dv cfg key request (pg_start, w)")
  show ?thesis
  proof (cases y)
    case (Inr u)
    have "pg_unfailed (pg_start, w)" by (simp add: pg_start_def)
    from tripleD_Inr [OF pg_body_any this body [unfolded Inr]] obtain payload where
      "pg_validate cfg key request = Inr payload" "pg_good (pc_binding cfg) payload s" by blast
    with body Inr c show ?thesis by (fastforce simp: x pg_attempt_def pg_outcome_def pg_good_def)
  next
    case (Inl e)
    then have "?a = apfst (pg_handle dv request e) s" using body by (simp add: pg_attempt_def)
    with x c pg_outcome_handled [of "fst (pg_cleanup dv ?a)" dv request e "fst s"] show ?thesis by (cases s) auto
  qed
qed

end
