(* ===== verification/Secret_Process.thy ===== *)
theory Secret_Process
  imports Postgres_Secrets
begin

text \<open>
  \<^verbatim>\<open>src/agent_core/postgres_secret_process.py\<close>: \<open>ProcessDeadlinePostgresSecretBackend\<close>, which runs each
  operation of \<open>PostgresSecretBackend\<close> in a child process with a deadline. The operating system
  (process creation and control, shared memory, the clock, the checks of the environment) is an
  argument; what passes between the processes is JSON text. Times are whole milliseconds.
\<close>

definition MAX_MESSAGE :: nat where
  "MAX_MESSAGE = 65536"

section \<open>The child\<close>

text \<open>The status a child reports: \<open>except\<close> clauses in their order, then any other exception.\<close>

definition child_status :: "bool \<Rightarrow> exc \<Rightarrow> string" where
  "child_status write e =
     (if catches DurableSecretBackendConflict e then ''conflict''
      else if catches DurableSecretBackendAmbiguousWrite e then ''ambiguous''
      else if catches DurableSecretBackendUnavailable e then ''unavailable''
      else if write then ''ambiguous'' else ''unavailable'')"

definition status_message :: "string \<Rightarrow> pyval" where
  "status_message s = PDict [(''status'', PStr s)]"

definition ok_message :: "pyval \<Rightarrow> pyval" where
  "ok_message v = PDict [(''status'', PStr ''ok''), (''record'', v)]"

record process_limits =
  pl_connect :: pyval
  pl_statement :: pyval
  pl_lock :: pyval

definition child_backend :: "credential_binding \<Rightarrow> process_limits \<Rightarrow> pg_config res" where
  "child_backend b lims = PostgresSecretBackend b (pl_connect lims) (pl_statement lims) (pl_lock lims)"

text \<open>The operation that a request asks for.\<close>

definition child_call :: "('w, 'c, 'k) pg_driver \<Rightarrow> pg_config \<Rightarrow> pydict \<Rightarrow> bool \<Rightarrow> ('w, pyval) eff" where
  "child_call dv cfg d write =
     bindE (liftE (dict_item d ''key'')) (\<lambda>key.
     if write then
       bindE (liftE (dict_item d ''expected'')) (\<lambda>expected.
       bindE (liftE (dict_item d ''replacement'')) (\<lambda>replacement. pg_operate dv cfg key (Some (expected, replacement))))
     else pg_operate dv cfg key None)"

text \<open>From the request text to the message: \<open>write\<close> stays false until the request gave it.\<close>

definition child_message ::
  "('w, 'c, 'k) pg_driver \<Rightarrow> credential_binding \<Rightarrow> process_limits \<Rightarrow> string \<Rightarrow> 'w \<Rightarrow> pyval \<times> bool \<times> 'w" where
  "child_message dv b lims request w =
     (case bindR (json_loads request) (\<lambda>v. case v of
             PDict d \<Rightarrow> bindR (dict_item d ''write'') (\<lambda>wr. Inr (d, truthy wr))
           | _ \<Rightarrow> Inl (Exc TypeError ''indices must be integers'')) of
        Inl e \<Rightarrow> (status_message (child_status False e), False, w)
      | Inr (d, write) \<Rightarrow>
          (case bindE (liftE (child_backend b lims)) (\<lambda>cfg. child_call dv cfg d write) w of
             (Inr v, w') \<Rightarrow> (ok_message v, write, w')
           | (Inl e, w') \<Rightarrow> (status_message (child_status write e), write, w')))"

definition child_publish :: "pyval \<Rightarrow> bool \<Rightarrow> string" where
  "child_publish m write =
     (let encoded = json_text m in
      if length encoded > MAX_MESSAGE then
        (if write then ''{\"status\":\"ambiguous\"}'' else ''{\"status\":\"unavailable\"}'')
      else encoded)"

text \<open>The whole child: the text it publishes before it exits with 0, or \<open>None\<close> when it exits with 1.\<close>

definition child ::
  "('w, unit) eff \<Rightarrow> ('w, 'c, 'k) pg_driver \<Rightarrow> credential_binding \<Rightarrow> process_limits \<Rightarrow> string \<Rightarrow> 'w \<Rightarrow> string option \<times> 'w" where
  "child guards dv b lims request w =
     (case guards w of
        (Inl _, w') \<Rightarrow> (None, w')
      | (Inr _, w') \<Rightarrow>
          (case child_message dv b lims request w' of (m, write, w'') \<Rightarrow> (Some (child_publish m write), w'')))"

section \<open>The parent\<close>

record process_backend =
  pb_config :: pg_config
  pb_timeout :: int

definition ProcessDeadlinePostgresSecretBackend ::
  "bool \<Rightarrow> credential_binding \<Rightarrow> pyval \<Rightarrow> process_limits \<Rightarrow> process_backend res" where
  "ProcessDeadlinePostgresSecretBackend plain_function b operation_timeout_ms lims =
     (if \<not> plain_function then value_error ''secret_process_factory_invalid''
      else case operation_timeout_ms of
        PInt n \<Rightarrow>
          if \<not> (100 \<le> n \<and> n \<le> 60000) then value_error ''secret_process_deadline_invalid''
          else bindR (child_backend b lims) (\<lambda>cfg.
               if length (json_text (PList [PStr (cb_provider_id b), PStr (cb_account_id b), PList (map PStr (cb_capabilities b))])) > 4096
               then value_error ''secret_process_binding_invalid''
               else Inr \<lparr>pb_config = cfg, pb_timeout = n\<rparr>)
      | _ \<Rightarrow> value_error ''secret_process_deadline_invalid'')"

text \<open>
  The host. \<open>ph_pid\<close> tells whether the process object has a process; \<open>ph_bytes n\<close> reads the first \<open>n\<close>
  characters of the buffer; \<open>ph_erase\<close> zeroes it.
\<close>

record 'w process_host =
  ph_safe_environment :: "('w, unit) eff"
  ph_array :: "('w, unit) eff"
  ph_value :: "('w, unit) eff"
  ph_process :: "string \<Rightarrow> ('w, unit) eff"
  ph_clock :: "('w, int) eff"
  ph_start :: "('w, unit) eff"
  ph_join :: "int \<Rightarrow> ('w, unit) eff"
  ph_exitcode :: "('w, int option) eff"
  ph_length :: "('w, nat) eff"
  ph_bytes :: "nat \<Rightarrow> ('w, string) eff"
  ph_pid :: "'w \<Rightarrow> bool"
  ph_alive :: "('w, bool) eff"
  ph_terminate :: "('w, unit) eff"
  ph_kill :: "('w, unit) eff"
  ph_close :: "('w, unit) eff"
  ph_erase :: "'w \<Rightarrow> 'w"

record process_locals =
  pr_status :: string
  pr_result :: pydict
  pr_process :: bool
  pr_started :: bool
  pr_buffer :: bool
  pr_length :: bool
  pr_interrupted :: "exc_class option"
  pr_quarantined :: bool

definition process_start :: "bool \<Rightarrow> process_locals" where
  "process_start quarantined = \<lparr>pr_status = ''unavailable'', pr_result = [], pr_process = False, pr_started = False,
     pr_buffer = False, pr_length = False, pr_interrupted = None, pr_quarantined = quarantined\<rparr>"

text \<open>The checks of a request and its text.\<close>

definition process_payload :: "pg_config \<Rightarrow> bool \<Rightarrow> pyval \<Rightarrow> pg_request \<Rightarrow> pydict option res" where
  "process_payload cfg quarantined key request =
     (if quarantined \<or> key \<noteq> PStr (pc_key cfg) then value_error ''secret_process_request_invalid''
      else case request of
        None \<Rightarrow> Inr None
      | Some (expected, replacement) \<Rightarrow> bindR (pg_payload (pc_binding cfg) expected replacement) (\<lambda>p. Inr (Some p)))"

definition request_value :: "pyval \<Rightarrow> pg_request \<Rightarrow> pydict option \<Rightarrow> pyval" where
  "request_value key request payload = PDict
     [(''key'', key), (''expected'', case request of None \<Rightarrow> PNone | Some (expected, _) \<Rightarrow> expected),
      (''replacement'', case payload of None \<Rightarrow> PNone | Some p \<Rightarrow> PDict p), (''write'', PBool (request \<noteq> None))]"

definition process_request :: "pg_config \<Rightarrow> bool \<Rightarrow> pyval \<Rightarrow> pg_request \<Rightarrow> (pydict option \<times> string) res" where
  "process_request cfg quarantined key request =
     bindR (process_payload cfg quarantined key request) (\<lambda>payload.
       let encoded = json_text (request_value key request payload) in
       if length encoded > MAX_MESSAGE then value_error ''secret_process_request_invalid'' else Inr (payload, encoded))"

text \<open>What the parent makes of the text of a child that exited cleanly in time.\<close>

definition process_verdict :: "credential_binding \<Rightarrow> pydict option \<Rightarrow> string \<Rightarrow> (string \<times> pydict) res" where
  "process_verdict b payload message =
     bindR (json_loads message) (\<lambda>m.
     case m of
       PDict d \<Rightarrow>
         let candidate = dict_get d ''status'' in
         if candidate = PStr ''ok'' \<and> set (map fst d) = {''status'', ''record''} then
           bindR (strict_record (dict_get d ''record'') b) (\<lambda>r.
           if (\<exists>p\<in>set_option payload. \<not> py_eq (PDict r) (PDict p)) then value_error ''secret_process_response_invalid''
           else Inr (''ok'', r))
         else if set (map fst d) = {''status''} then
           bindR (in_str_set candidate [''unavailable'', ''conflict'', ''ambiguous'']) (\<lambda>known.
           if \<not> known then value_error ''secret_process_response_invalid''
           else Inr (if payload \<noteq> None then py_str candidate else ''unavailable'', []))
         else value_error ''secret_process_response_invalid''
     | _ \<Rightarrow> value_error ''secret_process_response_invalid'')"

section \<open>One operation\<close>

definition process_read :: "'w process_host \<Rightarrow> credential_binding \<Rightarrow> pydict option \<Rightarrow> (process_locals \<times> 'w, unit) eff" where
  "process_read ph b payload =
     bindE (hostE (ph_length ph)) (\<lambda>n.
     if \<not> (0 < n \<and> n \<le> MAX_MESSAGE) then raiseE (Exc ValueError ''secret_process_response_invalid'')
     else bindE (hostE (ph_bytes ph n)) (\<lambda>message.
          bindE (liftE (process_verdict b payload message)) (\<lambda>(status, r).
          localE (\<lambda>l. l\<lparr>pr_status := status, pr_result := r\<rparr>))))"

definition process_spawn :: "'w process_host \<Rightarrow> string \<Rightarrow> (process_locals \<times> 'w, unit) eff" where
  "process_spawn ph encoded =
     bindE (hostE (ph_array ph)) (\<lambda>_.
     bindE (localE (\<lambda>l. l\<lparr>pr_buffer := True\<rparr>)) (\<lambda>_.
     bindE (hostE (ph_value ph)) (\<lambda>_.
     bindE (localE (\<lambda>l. l\<lparr>pr_length := True\<rparr>)) (\<lambda>_.
     bindE (hostE (ph_process ph encoded)) (\<lambda>_. localE (\<lambda>l. l\<lparr>pr_process := True\<rparr>))))))"

text \<open>From the deadline to the verdict: a child that did not exit cleanly in time gives none.\<close>

definition process_wait ::
  "'w process_host \<Rightarrow> process_backend \<Rightarrow> pg_request \<Rightarrow> pydict option \<Rightarrow> (process_locals \<times> 'w, unit) eff" where
  "process_wait ph pb request payload =
     bindE (hostE (ph_clock ph)) (\<lambda>now.
     let deadline = now + pb_timeout pb in
     bindE (localE (\<lambda>l. l\<lparr>pr_started := True, pr_status := if request \<noteq> None then ''ambiguous'' else ''unavailable''\<rparr>)) (\<lambda>_.
     bindE (hostE (ph_start ph)) (\<lambda>_.
     bindE (hostE (ph_clock ph)) (\<lambda>now'.
     bindE (hostE (ph_join ph (max 0 (deadline - now')))) (\<lambda>_.
     bindE (hostE (ph_exitcode ph)) (\<lambda>exitcode.
     if exitcode \<noteq> Some 0 then retE ()
     else bindE (hostE (ph_clock ph)) (\<lambda>now''.
          if now'' > deadline then retE () else process_read ph (pc_binding (pb_config pb)) payload)))))))"

definition process_body :: "'w process_host \<Rightarrow> process_backend \<Rightarrow> pyval \<Rightarrow> pg_request \<Rightarrow> (process_locals \<times> 'w, unit) eff" where
  "process_body ph pb key request =
     bindE (hostE (ph_safe_environment ph)) (\<lambda>_.
     bindE (\<lambda>(l, w). (process_request (pb_config pb) (pr_quarantined l) key request, (l, w))) (\<lambda>(payload, encoded).
     bindE (process_spawn ph encoded) (\<lambda>_. process_wait ph pb request payload)))"

definition process_handle :: "pg_request \<Rightarrow> exc \<Rightarrow> process_locals \<Rightarrow> process_locals" where
  "process_handle request e l =
     (let unsure = pr_started l \<and> request \<noteq> None in
      l\<lparr>pr_status := if unsure then ''ambiguous'' else ''unavailable'',
        pr_interrupted :=
          (if unsure then pr_interrupted l
           else if catches KeyboardInterrupt e then Some KeyboardInterrupt
           else if catches SystemExit e then Some SystemExit else pr_interrupted l)\<rparr>)"

text \<open>\<open>finally\<close>: stop the process (250 ms each for TERM and KILL), or quarantine the backend.\<close>

definition process_stop :: "'w process_host \<Rightarrow> ('w, bool) eff" where
  "process_stop ph =
     bindE (ph_alive ph) (\<lambda>a.
     bindE (if a then bindE (ph_terminate ph) (\<lambda>_. ph_join ph 250) else retE ()) (\<lambda>_.
     bindE (ph_alive ph) (\<lambda>a'.
     bindE (if a' then bindE (ph_kill ph) (\<lambda>_. ph_join ph 250) else retE ()) (\<lambda>_.
     bindE (ph_alive ph) (\<lambda>a''. if a'' then retE True else bindE (ph_close ph) (\<lambda>_. retE False))))))"

definition process_reap :: "'w process_host \<Rightarrow> process_locals \<times> 'w \<Rightarrow> process_locals \<times> 'w" where
  "process_reap ph = (\<lambda>(l, w).
     if pr_process l \<and> ph_pid ph w then
       (case process_stop ph w of
          (Inr stuck, w') \<Rightarrow> (l\<lparr>pr_quarantined := pr_quarantined l \<or> stuck\<rparr>, w')
        | (Inl _, w') \<Rightarrow> (l\<lparr>pr_quarantined := True\<rparr>, w'))
     else (l, w))"

definition process_settle :: "'w process_host \<Rightarrow> pg_request \<Rightarrow> process_locals \<times> 'w \<Rightarrow> process_locals \<times> 'w" where
  "process_settle ph request s =
     (case process_reap ph s of (l, w) \<Rightarrow>
        if pr_quarantined l
        then (l\<lparr>pr_status := if pr_started l \<and> request \<noteq> None then ''ambiguous'' else ''unavailable''\<rparr>, w)
        else (l, if pr_buffer l then ph_erase ph w else w))"

text \<open>Resetting the length where only the buffer was allocated raises.\<close>

definition process_outcome :: "process_locals \<Rightarrow> pyval res" where
  "process_outcome l =
     (if pr_buffer l \<and> \<not> pr_length l \<and> \<not> pr_quarantined l
      then Inl (Exc AttributeError ''NoneType object has no attribute value'')
      else if pr_status l = ''ok'' then Inr (PDict (pr_result l))
      else if pr_status l = ''conflict'' then Inl (Exc DurableSecretBackendConflict ''secret_process_version_conflict'')
      else if pr_status l = ''ambiguous'' then Inl (Exc DurableSecretBackendAmbiguousWrite ''secret_process_write_ambiguous'')
      else case pr_interrupted l of
        Some c \<Rightarrow> Inl (Exc c ''secret_process_interrupted'')
      | None \<Rightarrow> Inl (Exc DurableSecretBackendUnavailable ''secret_process_unavailable''))"

text \<open>The locals an operation ends with; the world carries the quarantine flag of the backend.\<close>

definition process_attempt ::
  "'w process_host \<Rightarrow> process_backend \<Rightarrow> pyval \<Rightarrow> pg_request \<Rightarrow> bool \<times> 'w \<Rightarrow> process_locals \<times> 'w" where
  "process_attempt ph pb key request = (\<lambda>(q, w).
     process_settle ph request
       (case process_body ph pb key request (process_start q, w) of
          (Inr _, s) \<Rightarrow> s
        | (Inl e, s) \<Rightarrow> apfst (process_handle request e) s))"

definition process_operate ::
  "'w process_host \<Rightarrow> process_backend \<Rightarrow> pyval \<Rightarrow> pg_request \<Rightarrow> (bool \<times> 'w, pyval) eff" where
  "process_operate ph pb key request qw =
     (case process_attempt ph pb key request qw of (l, w') \<Rightarrow> (process_outcome l, (pr_quarantined l, w')))"

definition process_ops :: "'w process_host \<Rightarrow> process_backend \<Rightarrow> (bool \<times> 'w) backend_ops" where
  "process_ops ph pb =
     \<lparr>bk_read = (\<lambda>key. process_operate ph pb (PStr key) None),
      bk_cas = (\<lambda>key expected replacement. process_operate ph pb (PStr key) (Some (PInt expected, PDict replacement)))\<rparr>"

end
