(* ===== verification/Postgres_Results.thy ===== *)
theory Postgres_Results
  imports Postgres_Safety Secret_Process Secret_Results
begin

text \<open>
  The properties of the PostgreSQL backend and of its process wrapper: the durable store over a
  transactional database, the meaning of each outcome, and the child process as a transparent and
  conservative intermediary.
\<close>

section \<open>A database\<close>

text \<open>One connection to a table of rows, as the contract describes it, with the driver's errors.\<close>

record table_db =
  td_rows :: "string \<Rightarrow> pyval"
  td_pending :: "(string \<times> pyval) option"
  td_fetched :: "pg_row list"

definition stale_row :: exc where
  "stale_row = Exc (OtherError ''NoDataFound'') ''credential_version_conflict''"

definition table_execute :: "unit \<Rightarrow> string \<Rightarrow> pyval list \<Rightarrow> (table_db, unit) eff" where
  "table_execute k sql ps w =
     (case ps of
        [PStr key] \<Rightarrow>
          if sql = READ_SQL then (Inr (), w\<lparr>td_fetched := [Row [td_rows w key]]\<rparr>) else (Inl (Exc (OtherError ''SyntaxError'') ''''), w)
      | [PStr key, PInt n, PStr t] \<Rightarrow>
          if sql \<noteq> CAS_SQL then (Inl (Exc (OtherError ''SyntaxError'') ''''), w)
          else if held_version (td_rows w key) \<noteq> PInt n then (Inl stale_row, w)
          else (case json_loads t of
                  Inl e \<Rightarrow> (Inl (Exc (OtherError ''InvalidTextRepresentation'') ''''), w)
                | Inr v \<Rightarrow> (Inr (), w\<lparr>td_pending := Some (key, v), td_fetched := [Row [v]]\<rparr>))
      | _ \<Rightarrow> (Inl (Exc (OtherError ''SyntaxError'') ''''), w))"

definition table_driver :: "(table_db, unit, unit) pg_driver" where
  "table_driver = \<lparr>dv_connect = (\<lambda>t opts w. (Inr (), w\<lparr>td_pending := None, td_fetched := []\<rparr>)),
     dv_autocommit = (\<lambda>c w. (Inr (PBool False), w)), dv_cursor = (\<lambda>c w. (Inr (), w)), dv_execute = table_execute,
     dv_fetchone = (\<lambda>k w. case td_fetched w of [] \<Rightarrow> (Inr NoRow, w) | r # rs \<Rightarrow> (Inr r, w\<lparr>td_fetched := rs\<rparr>)),
     dv_commit = (\<lambda>c w. (Inr (), case td_pending w of None \<Rightarrow> w | Some (key, v) \<Rightarrow> w\<lparr>td_rows := (td_rows w)(key := v)\<rparr>)),
     dv_rollback = (\<lambda>c w. (Inr (), w\<lparr>td_pending := None\<rparr>)), dv_close_cursor = (\<lambda>k w. (Inr (), w)),
     dv_close = (\<lambda>c w. (Inr (), w)),
     dv_sqlstate = (\<lambda>e. if exc_cls e = OtherError ''NoDataFound'' then Some (PStr ''P0002'') else None),
     dv_primary = (\<lambda>e. Some (PStr (exc_msg e)))\<rparr>"

definition table_view :: "(table_db, unit, unit) pg_view" where
  "table_view = \<lparr>pv_held = td_rows, pv_pending = (\<lambda>w c. td_pending w), pv_fetched = (\<lambda>w k. td_fetched w), pv_owner = id\<rparr>"

lemma table_driver_simps [simp]:
  "dv_connect table_driver t opts w = (Inr (), w\<lparr>td_pending := None, td_fetched := []\<rparr>)"
  "dv_autocommit table_driver c w = (Inr (PBool False), w)" "dv_cursor table_driver c w = (Inr (), w)"
  "dv_execute table_driver k sql ps w = table_execute k sql ps w"
  "dv_fetchone table_driver k w = (case td_fetched w of [] \<Rightarrow> (Inr NoRow, w) | r # rs \<Rightarrow> (Inr r, w\<lparr>td_fetched := rs\<rparr>))"
  "dv_commit table_driver c w = (Inr (), case td_pending w of None \<Rightarrow> w | Some (key, v) \<Rightarrow> w\<lparr>td_rows := (td_rows w)(key := v)\<rparr>)"
  "dv_rollback table_driver c w = (Inr (), w\<lparr>td_pending := None\<rparr>)"
  "dv_close_cursor table_driver k w = (Inr (), w)" "dv_close table_driver c w = (Inr (), w)"
  by (simp_all add: table_driver_def)

lemma sql_texts: "READ_SQL \<noteq> CAS_SQL"
  by (simp add: READ_SQL_def CAS_SQL_def)

lemma table_execute_quiet: "td_rows (snd (table_execute k sql ps w)) = td_rows w"
  by (simp add: table_execute_def split: list.split pyval.split sum.split)

lemma table_view_simps [simp]:
  "pv_held table_view = td_rows" "pv_pending table_view w c = td_pending w" "pv_fetched table_view w k = td_fetched w"
  "pv_owner table_view k = k"
  by (simp_all add: table_view_def)

lemma table_pending_eq: "pv_pending table_view w' = pv_pending table_view w \<longleftrightarrow> td_pending w' = td_pending w"
  by (simp add: fun_eq_iff)

lemma table_executes: "pg_executes table_driver table_view"
  unfolding pg_executes_def pg_quiet_def
  using sql_texts by (auto simp: table_execute_quiet) (auto simp: table_execute_def split: if_splits sum.splits)

lemma table_fetches: "pg_fetches table_driver table_view"
  unfolding pg_fetches_def by (auto simp: table_pending_eq split: list.splits)

lemma table_commits: "pg_commits table_driver table_view"
  unfolding pg_commits_def by (auto simp: pg_applied_def split: option.splits)

lemma table_database: "pg_database table_driver table_view"
  unfolding pg_database_def pg_quiet_def
  using table_executes table_fetches table_commits by (auto simp: table_pending_eq)

definition the_config :: pg_config where
  "the_config = \<lparr>pc_binding = the_binding, pc_key = binding_key the_binding, pc_connect_timeout = 5,
     pc_options = ''-c statement_timeout=5000 -c lock_timeout=1000 -c idle_in_transaction_session_timeout=5000''\<rparr>"

lemma the_config_built: "PostgresSecretBackend the_binding (PInt 5) (PInt 5000) (PInt 1000) = Inr the_config"
proof -
  have "int_str 5000 = ''5000''" "int_str 1000 = ''1000''"
    by (simp_all add: int_str_def nat_str.simps digit_char_def char_of_def bit_simps)
  then show ?thesis by (simp add: PostgresSecretBackend_def the_config_def)
qed

definition next_record :: secret_record where
  "next_record = fresh_record\<lparr>sr_version := 1\<rparr>"

definition demo_db :: table_db where
  "demo_db = \<lparr>td_rows = (\<lambda>k. if k = binding_key the_binding then PDict (encode_record fresh_record) else PNone),
     td_pending = None, td_fetched = []\<rparr>"

lemma strict_demo:
  "strict_record (PDict (encode_record fresh_record)) the_binding = Inr (encode_record fresh_record)"
  "strict_record (PDict (encode_record next_record)) the_binding = Inr (encode_record next_record)"
proof -
  have "rec_ok the_binding next_record" using demo_record_ok(1)
    by (auto simp: next_record_def rec_ok_def RefreshSecretRecord_Inr fresh_record_def RECORD_STATES_def)
  with demo_record_ok strict_record_keeps show
    "strict_record (PDict (encode_record fresh_record)) the_binding = Inr (encode_record fresh_record)"
    "strict_record (PDict (encode_record next_record)) the_binding = Inr (encode_record next_record)"
    by (simp_all add: MAX_BIGINT_def next_record_def fresh_record_def)
qed

lemma demo_swap_returns:
  "\<exists>w'. pg_operate table_driver the_config (PStr (binding_key the_binding)) (Some (PInt 0, PDict (encode_record next_record))) demo_db
     = (Inr (PDict (encode_record next_record)), w')"
proof -
  have v: "dict_get (encode_record next_record) ''version'' = PInt 1"
    "held_version (PDict (encode_record fresh_record)) = PInt 0"
    by (simp_all add: encode_record_def next_record_def fresh_record_def held_version_def)
  have eq: "py_eq (PDict (encode_record next_record)) (PDict (encode_record next_record))" by (simp only: encode_record_eq)
  have "pg_validate the_config (PStr (binding_key the_binding)) (Some (PInt 0, PDict (encode_record next_record))) = Inr (Some (encode_record next_record))"
    by (simp add: pg_validate_def pg_payload_def the_config_def strict_demo v MAX_BIGINT_def)
  then show ?thesis
    using sql_texts
    by (simp add: pg_operate_def pg_attempt_def pg_body_def
        pg_connect_def pg_execute_def pg_readback_def pg_commit_def pg_step_simps table_execute_def
        pg_parameters_def demo_db_def pg_start_def json_loads_dumps [OF wf_encode_record] v eq strict_demo pg_cleanup_def pg_rollback_def
        pg_close_def pg_outcome_def the_config_def del: py_eq.simps json_text.simps)
qed

section \<open>A host that runs the child at once\<close>

record 'w prompt_world =
  pw_world :: 'w
  pw_request :: string
  pw_text :: "string option"

definition prompt_host ::
  "('w, 'c, 'k) pg_driver \<Rightarrow> credential_binding \<Rightarrow> process_limits \<Rightarrow> 'w prompt_world process_host" where
  "prompt_host dv b lims = \<lparr>ph_safe_environment = retE (), ph_array = retE (), ph_value = retE (),
     ph_process = (\<lambda>request w. (Inr (), w\<lparr>pw_request := request, pw_text := None\<rparr>)), ph_clock = retE 0,
     ph_start = (\<lambda>w. case child (retE ()) dv b lims (pw_request w) (pw_world w) of (t, w') \<Rightarrow>
       (Inr (), w\<lparr>pw_world := w', pw_text := t\<rparr>)),
     ph_join = (\<lambda>ms. retE ()), ph_exitcode = (\<lambda>w. (Inr (if pw_text w = None then Some 1 else Some 0), w)),
     ph_length = (\<lambda>w. (Inr (case pw_text w of None \<Rightarrow> 0 | Some t \<Rightarrow> length t), w)),
     ph_bytes = (\<lambda>n w. (Inr (case pw_text w of None \<Rightarrow> [] | Some t \<Rightarrow> take n t), w)), ph_pid = (\<lambda>w. True),
     ph_alive = retE False, ph_terminate = retE (), ph_kill = retE (), ph_close = retE (), ph_erase = (\<lambda>w. w\<lparr>pw_text := None\<rparr>)\<rparr>"

text \<open>What the parent's caller gets in place of the outcome of the operation itself.\<close>

definition process_error :: "string \<Rightarrow> exc" where
  "process_error s =
     (if s = ''conflict'' then Exc DurableSecretBackendConflict ''secret_process_version_conflict''
      else if s = ''ambiguous'' then Exc DurableSecretBackendAmbiguousWrite ''secret_process_write_ambiguous''
      else Exc DurableSecretBackendUnavailable ''secret_process_unavailable'')"

definition process_image :: "pg_request \<Rightarrow> pyval res \<Rightarrow> pyval res" where
  "process_image request x =
     (case x of Inr v \<Rightarrow> Inr v | Inl e \<Rightarrow> Inl (process_error (if request \<noteq> None then child_status True e else ''unavailable'')))"

text \<open>The texts of the request and of the result fit the shared buffer.\<close>

definition process_fits :: "pg_config \<Rightarrow> pyval \<Rightarrow> pg_request \<Rightarrow> pyval res \<Rightarrow> bool" where
  "process_fits cfg key request x \<longleftrightarrow>
     (case process_payload cfg False key request of
        Inl _ \<Rightarrow> True | Inr payload \<Rightarrow> length (json_text (request_value key request payload)) \<le> MAX_MESSAGE) \<and>
     (case x of Inl _ \<Rightarrow> True | Inr v \<Rightarrow> length (json_text (ok_message v)) \<le> MAX_MESSAGE)"

definition plain_request :: "pg_request \<Rightarrow> bool" where
  "plain_request request \<longleftrightarrow> request = None \<or> (\<exists>n r. request = Some (PInt n, PDict (encode_record r)))"

lemma process_payload_validate:
  "process_payload cfg False key request = Inr payload \<longleftrightarrow> pg_validate cfg key request = Inr payload"
  by (auto simp: process_payload_def pg_validate_def split: option.split)

lemma request_refused:
  "process_payload cfg False key request = Inl e \<Longrightarrow> exc_cls e = ValueError"
  "pg_validate cfg key request = Inl e \<Longrightarrow> exc_cls e = ValueError"
proof -
  have s: "strict_record v b = Inl e \<Longrightarrow> exc_cls e = ValueError" for v b
    by (auto simp: strict_record_def bindR_eq_Inl dest: decode_record_class split: pyval.splits if_splits)
  show "process_payload cfg False key request = Inl e \<Longrightarrow> exc_cls e = ValueError"
    by (auto simp: process_payload_def pg_payload_def bindR_eq_Inl dest: s split: option.splits pyval.splits if_splits)
  show "pg_validate cfg key request = Inl e \<Longrightarrow> exc_cls e = ValueError"
    by (auto simp: pg_validate_def pg_payload_def bindR_eq_Inl dest: s split: option.splits pyval.splits if_splits)
qed

lemma child_of_request:
  assumes "plain_request request" and "pg_validate cfg key request = Inr payload" and "child_backend b lims = Inr cfg"
    and "pg_operate dv cfg key request w = (x, w')"
  shows "child (retE ()) dv b lims (json_text (request_value key request payload)) w =
    (Some (child_publish (case x of Inr v \<Rightarrow> ok_message v | Inl e \<Rightarrow> status_message (child_status (request \<noteq> None) e)) (request \<noteq> None)), w')"
proof -
  have p: "payload = None \<or> (\<exists>r. payload = Some (encode_record r))" and k: "key = PStr (pc_key cfg)"
    using assms(1,2) by (auto simp: plain_request_def pg_validate_Inr(1) dest: pg_validate_Inr(2))
  have "wf_val (request_value key request payload)"
    using assms(1) p wf_encode_record by (auto simp: request_value_def k plain_request_def)
  then have loads: "json_loads (json_text (request_value key request payload)) = Inr (request_value key request payload)"
    by (rule json_loads_dumps)
  have "request = None \<or> (\<exists>n r. request = Some (PInt n, PDict (encode_record r)) \<and> payload = Some (encode_record r))"
    using assms(1,2) by (auto simp: plain_request_def dest: pg_validate_Inr(2))
  then show ?thesis
    using loads assms(3,4)
    by (auto simp: child_def child_message_def request_value_def dict_item_def child_call_def bindE_apply
        simp del: json_text.simps split: sum.splits)
qed

lemma length_ascii_string: "length (ascii_string s) \<le> 6 * length s + 2"
proof -
  have "length (ascii_char c) \<le> 6" for c by (simp add: ascii_char_def Let_def)
  then have "length (concat (map ascii_char s)) \<le> 6 * length s"
    by (induction s) (auto intro: order_trans [OF add_mono])
  then show ?thesis by (simp add: ascii_string_def)
qed

lemma status_message_short:
  assumes "s \<in> {''conflict'', ''ambiguous'', ''unavailable''}"
  shows "child_publish (status_message s) write = json_text (status_message s)"
    and "0 < length (json_text (status_message s)) \<and> length (json_text (status_message s)) \<le> MAX_MESSAGE"
proof -
  have "length s \<le> 11" using assms by auto
  then show le: "0 < length (json_text (status_message s)) \<and> length (json_text (status_message s)) \<le> MAX_MESSAGE"
    using length_ascii_string [of "''status''"] length_ascii_string [of s] by (simp add: status_message_def MAX_MESSAGE_def)
  then show "child_publish (status_message s) write = json_text (status_message s)"
    by (simp add: child_publish_def Let_def del: json_text.simps)
qed

lemma child_status_known: "child_status write e \<in> {''conflict'', ''ambiguous'', ''unavailable''}"
  by (simp add: child_status_def)

lemma verdict_status:
  assumes "s \<in> {''conflict'', ''ambiguous'', ''unavailable''}"
  shows "process_verdict b payload (json_text (status_message s)) = Inr (if payload \<noteq> None then s else ''unavailable'', [])"
proof -
  have "json_loads (json_text (status_message s)) = Inr (status_message s)"
    by (rule json_loads_dumps) (simp add: status_message_def)
  with assms show ?thesis by (auto simp: process_verdict_def status_message_def simp del: json_text.simps)
qed

lemma wf_strict: "strict_record v b = Inr c \<Longrightarrow> wf_val (PDict c)"
  using strict_record_Inr wf_encode_record by blast

lemma verdict_ok:
  assumes "strict_record v b = Inr c" and "\<forall>p. payload = Some p \<longrightarrow> py_eq (PDict c) (PDict p)"
  shows "process_verdict b payload (json_text (ok_message (PDict c))) = Inr (''ok'', c)"
proof -
  have "json_loads (json_text (ok_message (PDict c))) = Inr (ok_message (PDict c))"
    by (rule json_loads_dumps) (use wf_strict [OF assms(1)] in \<open>simp add: ok_message_def\<close>)
  moreover have "strict_record (PDict c) b = Inr c" by (rule strict_record_idem [OF assms(1)])
  ultimately show ?thesis
    using assms(2) by (cases payload) (simp_all add: process_verdict_def ok_message_def insert_commute del: json_text.simps py_eq.simps)
qed

text \<open>What the parent reads from a child that ran the operation.\<close>

definition read_back :: "pg_request \<Rightarrow> pyval res \<Rightarrow> string \<times> pydict" where
  "read_back request x =
     (case x of Inr v \<Rightarrow> (''ok'', case v of PDict c \<Rightarrow> c | _ \<Rightarrow> [])
      | Inl e \<Rightarrow> (if request \<noteq> None then child_status True e else ''unavailable'', []))"

lemma payload_none_iff: "pg_validate cfg key request = Inr payload \<Longrightarrow> payload = None \<longleftrightarrow> request = None"
  by (auto simp: pg_validate_def bindR_eq_Inr split: if_splits option.splits)

lemma verdict_of_child:
  assumes val: "pg_validate cfg key request = Inr payload" and op: "pg_operate dv cfg key request w = (x, w')"
    and fits: "process_fits cfg key request x"
    and t: "t = child_publish (case x of Inr v \<Rightarrow> ok_message v | Inl e \<Rightarrow> status_message (child_status (request \<noteq> None) e)) (request \<noteq> None)"
  shows "process_verdict (pc_binding cfg) payload t = Inr (read_back request x)" and "0 < length t \<and> length t \<le> MAX_MESSAGE"
proof -
  have "process_verdict (pc_binding cfg) payload t = Inr (read_back request x) \<and> 0 < length t \<and> length t \<le> MAX_MESSAGE"
  proof (cases x)
    case (Inl e)
    let ?s = "child_status (request \<noteq> None) e"
    have "t = json_text (status_message ?s)" using t Inl status_message_short(1) [OF child_status_known] by simp
    then show ?thesis
      using verdict_status [OF child_status_known] status_message_short(2) [OF child_status_known] payload_none_iff [OF val] Inl
      by (auto simp: read_back_def)
  next
    case (Inr v)
    obtain c u where c: "v = PDict c" "strict_record u (pc_binding cfg) = Inr c" "\<forall>p. payload = Some p \<longrightarrow> py_eq (PDict c) (PDict p)"
      using pg_operate_any [OF op] val Inr by auto
    have len: "length (json_text (ok_message v)) \<le> MAX_MESSAGE" using fits Inr by (simp add: process_fits_def)
    then have "t = json_text (ok_message v)" using t Inr by (simp add: child_publish_def Let_def)
    then show ?thesis
      using len verdict_ok [OF c(2,3)] json_text_first [of "ok_message v"] by (auto simp: Inr c(1) read_back_def)
  qed
  then show "process_verdict (pc_binding cfg) payload t = Inr (read_back request x)" "0 < length t \<and> length t \<le> MAX_MESSAGE" by auto
qed

lemma prompt_host_simps [simp]:
  "ph_safe_environment (prompt_host dv b lims) = retE ()" "ph_array (prompt_host dv b lims) = retE ()"
  "ph_value (prompt_host dv b lims) = retE ()" "ph_clock (prompt_host dv b lims) = retE 0"
  "ph_process (prompt_host dv b lims) request u = (Inr (), u\<lparr>pw_request := request, pw_text := None\<rparr>)"
  "ph_start (prompt_host dv b lims) u = (case child (retE ()) dv b lims (pw_request u) (pw_world u) of (t, w') \<Rightarrow>
     (Inr (), u\<lparr>pw_world := w', pw_text := t\<rparr>))"
  "ph_join (prompt_host dv b lims) ms = retE ()"
  "ph_exitcode (prompt_host dv b lims) u = (Inr (if pw_text u = None then Some 1 else Some 0), u)"
  "ph_length (prompt_host dv b lims) u = (Inr (case pw_text u of None \<Rightarrow> 0 | Some t \<Rightarrow> length t), u)"
  "ph_bytes (prompt_host dv b lims) n u = (Inr (case pw_text u of None \<Rightarrow> [] | Some t \<Rightarrow> take n t), u)"
  "ph_pid (prompt_host dv b lims) u = True" "ph_alive (prompt_host dv b lims) = retE False"
  "ph_terminate (prompt_host dv b lims) = retE ()" "ph_kill (prompt_host dv b lims) = retE ()"
  "ph_close (prompt_host dv b lims) = retE ()" "ph_erase (prompt_host dv b lims) u = u\<lparr>pw_text := None\<rparr>"
  by (simp_all add: prompt_host_def)

lemma prompt_stop: "process_stop (prompt_host dv b lims) = retE False"
  by (intro ext) (simp add: process_stop_def bindE_apply)

lemma process_image_read_back:
  assumes "\<And>v. x = Inr v \<Longrightarrow> \<exists>c. v = PDict c"
  shows "process_image request x = (if fst (read_back request x) = ''ok'' then Inr (PDict (snd (read_back request x)))
    else Inl (process_error (fst (read_back request x))))"
proof (cases x)
  case (Inl e)
  then show ?thesis using child_status_known [of True e] by (auto simp: process_image_def read_back_def)
next
  case (Inr v)
  then show ?thesis using assms [OF Inr] by (auto simp: process_image_def read_back_def)
qed

lemma process_operate_prompt:
  assumes "child_backend b lims = Inr (pb_config pb)" and "0 \<le> pb_timeout pb" and "plain_request request"
    and op: "pg_operate dv (pb_config pb) key request (pw_world u) = (x, w')"
    and fits: "process_fits (pb_config pb) key request x"
  shows "\<exists>u'. process_operate (prompt_host dv b lims) pb key request (False, u) = (process_image request x, (False, u')) \<and>
    pw_world u' = w'"
proof (cases "process_payload (pb_config pb) False key request")
  case (Inl e)
  then obtain e' where e': "pg_validate (pb_config pb) key request = Inl e'"
    using process_payload_validate [of "pb_config pb" key request] by (cases "pg_validate (pb_config pb) key request") auto
  with op have "x = Inl (Exc DurableSecretBackendUnavailable ''postgres_secret_unavailable'')" "w' = pw_world u"
    using request_refused(2) [OF e']
    by (auto simp: pg_operate_def pg_attempt_def pg_body_def bindE_apply pg_handle_def catches_def pg_cleanup_def pg_start_def pg_outcome_def)
  with request_refused(1) [OF Inl] Inl show ?thesis
    by (simp add: process_operate_def process_attempt_def process_body_def bindE_apply process_request_def process_start_def
        hostE_def process_handle_def process_settle_def process_reap_def catches_def process_outcome_def process_image_def child_status_def
        process_error_def)
next
  case (Inr payload)
  then have val: "pg_validate (pb_config pb) key request = Inr payload" by (simp add: process_payload_validate)
  define t where "t = child_publish (case x of Inr v \<Rightarrow> ok_message v | Inl e \<Rightarrow> status_message (child_status (request \<noteq> None) e)) (request \<noteq> None)"
  have ch: "child (retE ()) dv b lims (json_text (request_value key request payload)) (pw_world u) = (Some t, w')"
    unfolding t_def by (rule child_of_request [OF assms(3) val assms(1) op])
  note v = verdict_of_child [OF val op fits t_def]
  have enc: "process_request (pb_config pb) False key request = Inr (payload, json_text (request_value key request payload))"
    using fits Inr by (simp add: process_request_def process_fits_def Let_def del: json_text.simps)
  have "\<exists>c. y = PDict c" if "x = Inr y" for y using pg_operate_any [OF op] that by auto
  note img = process_image_read_back [of x request, OF this]
  obtain st r where rb: "read_back request x = (st, r)" by (cases "read_back request x")
  have st: "st \<in> {''ok'', ''conflict'', ''ambiguous'', ''unavailable''}"
    using rb child_status_known [of True] by (auto simp: read_back_def split: sum.splits if_splits)
  show ?thesis
    using v st assms(2) rb
    by (auto simp: process_operate_def process_attempt_def process_body_def bindE_apply enc process_start_def process_spawn_def process_wait_def
        hostE_def localE_def ch process_read_def Let_def process_settle_def process_reap_def prompt_stop process_outcome_def img
        process_error_def simp del: json_text.simps)
qed

section \<open>Any host\<close>

text \<open>A body that returns after the start left the conservative status or one the child's message gave.\<close>

definition process_reported :: "credential_binding \<Rightarrow> process_locals \<Rightarrow> bool" where
  "process_reported b l \<longleftrightarrow> (\<exists>p t. process_verdict b (Some p) t = Inr (pr_status l, pr_result l))"

definition process_sane :: "process_locals \<Rightarrow> bool" where
  "process_sane l \<longleftrightarrow> pr_interrupted l = None \<and> (pr_started l \<longrightarrow> pr_length l)"

lemma process_read_any:
  "triple (\<lambda>s. process_sane (fst s) \<and> pr_started (fst s)) (process_read ph b (Some p))
     (\<lambda>_ s. process_sane (fst s) \<and> process_reported b (fst s)) (\<lambda>_ s. process_sane (fst s))"
  unfolding triple_def process_read_def process_sane_def process_reported_def
  by (auto simp: bindE_apply hostE_def localE_def if_apply split: prod.splits sum.splits if_splits)

lemma process_spawn_any:
  "triple (\<lambda>s. process_sane (fst s) \<and> \<not> pr_started (fst s)) (process_spawn ph encoded)
     (\<lambda>_ s. process_sane (fst s) \<and> pr_length (fst s) \<and> \<not> pr_started (fst s)) (\<lambda>_ s. process_sane (fst s))"
  unfolding triple_def process_spawn_def process_sane_def
  by (auto simp: bindE_apply hostE_def localE_def split: prod.splits sum.splits)

text \<open>A call of the host leaves the local variables alone.\<close>

lemma triple_host_local: "triple (\<lambda>s. P (fst s)) (hostE m) (\<lambda>_ s. P (fst s)) (\<lambda>_ s. P (fst s))"
  by (auto simp: triple_def hostE_def split: prod.splits sum.splits)

definition process_waiting :: "process_locals \<Rightarrow> bool" where
  "process_waiting l \<longleftrightarrow> process_sane l \<and> pr_started l \<and> pr_status l = ''ambiguous''"

lemma process_wait_any:
  "triple (\<lambda>s. process_sane (fst s) \<and> pr_length (fst s)) (process_wait ph pb (Some r) (Some p))
     (\<lambda>_ s. process_sane (fst s) \<and> (pr_status (fst s) = ''ambiguous'' \<or> process_reported (pc_binding (pb_config pb)) (fst s)))
     (\<lambda>_ s. process_sane (fst s))"
  unfolding process_wait_def Let_def
proof (rule triple_seq [OF triple_host_local [where P = "\<lambda>l. process_sane l \<and> pr_length l"]], assumption, simp,
    rule triple_bind [where R = "\<lambda>_ s. process_waiting (fst s)"])
  let ?b = "pc_binding (pb_config pb)"
  show "triple (\<lambda>s. process_sane (fst s) \<and> pr_length (fst s))
    (localE (\<lambda>l. l\<lparr>pr_started := True, pr_status := if Some r \<noteq> None then ''ambiguous'' else ''unavailable''\<rparr>))
    (\<lambda>_ s. process_waiting (fst s)) (\<lambda>_ s. process_sane (fst s))"
    by (rule triple_local) (simp add: process_waiting_def process_sane_def)
  note h = triple_seq [OF triple_host_local [where P = process_waiting]]
  show "triple (\<lambda>s. process_waiting (fst s))
     (bindE (hostE (ph_start ph)) (\<lambda>_. bindE (hostE (ph_clock ph)) (\<lambda>now'.
      bindE (hostE (ph_join ph (max 0 (now + pb_timeout pb - now')))) (\<lambda>_. bindE (hostE (ph_exitcode ph)) (\<lambda>exitcode.
      if exitcode \<noteq> Some 0 then retE ()
      else bindE (hostE (ph_clock ph)) (\<lambda>now''. if now + pb_timeout pb < now'' then retE () else process_read ph ?b (Some p)))))))
     (\<lambda>_ s. process_sane (fst s) \<and> (pr_status (fst s) = ''ambiguous'' \<or> process_reported ?b (fst s)))
     (\<lambda>_ s. process_sane (fst s))" for now
    by ((rule h, assumption, simp add: process_waiting_def)+, rule triple_if, rule triple_ret, simp add: process_waiting_def,
        rule h, assumption, simp add: process_waiting_def, rule triple_if, rule triple_ret, simp add: process_waiting_def,
        rule triple_conseq [OF process_read_any]) (auto simp: process_waiting_def)
qed

lemma process_body_any:
  "triple (\<lambda>s. process_sane (fst s) \<and> \<not> pr_started (fst s)) (process_body ph pb key (Some r))
     (\<lambda>_ s. process_sane (fst s) \<and> (pr_status (fst s) = ''ambiguous'' \<or> process_reported (pc_binding (pb_config pb)) (fst s)))
     (\<lambda>_ s. process_sane (fst s))"
  unfolding process_body_def
proof (rule triple_seq [OF triple_host_local [where P = "\<lambda>l. process_sane l \<and> \<not> pr_started l"]], assumption, simp,
    rule triple_bind [where R = "\<lambda>pe s. (process_sane (fst s) \<and> \<not> pr_started (fst s)) \<and> (\<exists>p. fst pe = Some p)"])
  show "triple (\<lambda>s. process_sane (fst s) \<and> \<not> pr_started (fst s))
    (\<lambda>(l, w). (process_request (pb_config pb) (pr_quarantined l) key (Some r), l, w))
    (\<lambda>pe s. (process_sane (fst s) \<and> \<not> pr_started (fst s)) \<and> (\<exists>p. fst pe = Some p)) (\<lambda>_ s. process_sane (fst s))"
    by (auto simp: triple_def process_request_def process_payload_def bindR_eq_Inr Let_def split: prod.splits sum.splits if_splits)
  fix pe :: "pydict option \<times> string"
  show "triple (\<lambda>s. (process_sane (fst s) \<and> \<not> pr_started (fst s)) \<and> (\<exists>p. fst pe = Some p))
    (case pe of (payload, encoded) \<Rightarrow> bindE (process_spawn ph encoded) (\<lambda>_. process_wait ph pb (Some r) payload))
    (\<lambda>_ s. process_sane (fst s) \<and> (pr_status (fst s) = ''ambiguous'' \<or> process_reported (pc_binding (pb_config pb)) (fst s)))
    (\<lambda>_ s. process_sane (fst s))"
  proof (intro triple_pure, elim exE)
    fix p assume "fst pe = Some p"
    then obtain t where pe: "pe = (Some p, t)" by (cases pe) auto
    show "triple (\<lambda>s. process_sane (fst s) \<and> \<not> pr_started (fst s))
      (case pe of (payload, encoded) \<Rightarrow> bindE (process_spawn ph encoded) (\<lambda>_. process_wait ph pb (Some r) payload))
      (\<lambda>_ s. process_sane (fst s) \<and> (pr_status (fst s) = ''ambiguous'' \<or> process_reported (pc_binding (pb_config pb)) (fst s)))
      (\<lambda>_ s. process_sane (fst s))"
      unfolding pe prod.case
      by (rule triple_seq [OF process_spawn_any], assumption, assumption) (rule triple_pre [OF process_wait_any], simp)
  qed
qed

lemma process_reap_locals:
  "fst (process_reap ph s) = (fst s)\<lparr>pr_quarantined := pr_quarantined (fst (process_reap ph s))\<rparr> \<and>
   (pr_quarantined (fst s) \<longrightarrow> pr_quarantined (fst (process_reap ph s)))"
  by (cases s) (auto simp: process_reap_def split: prod.splits sum.splits)

lemma process_started_swap:
  assumes "process_attempt ph pb key (Some r) (q, w) = (l, w')" and "pr_started l"
  shows "process_outcome l = Inl (process_error ''ambiguous'') \<or>
    (\<not> pr_quarantined l \<and> process_reported (pc_binding (pb_config pb)) l \<and>
     process_outcome l = (if pr_status l = ''ok'' then Inr (PDict (pr_result l)) else Inl (process_error (pr_status l))))"
proof -
  obtain x s where body: "process_body ph pb key (Some r) (process_start q, w) = (x, s)"
    by (cases "process_body ph pb key (Some r) (process_start q, w)")
  have st: "process_sane (fst (process_start q, w)) \<and> \<not> pr_started (fst (process_start q, w))"
    by (simp add: process_start_def process_sane_def)
  define s' where "s' = (case x of Inr _ \<Rightarrow> s | Inl e \<Rightarrow> apfst (process_handle (Some r) e) s)"
  have s': "process_sane (fst s') \<and> (pr_status (fst s') = ''ambiguous'' \<or> process_reported (pc_binding (pb_config pb)) (fst s'))"
    if "pr_started (fst s')"
  proof (cases x)
    case (Inr u)
    from tripleD_Inr [OF process_body_any st body [unfolded Inr]] show ?thesis by (simp add: s'_def Inr)
  next
    case (Inl e)
    from tripleD_Inl [OF process_body_any st body [unfolded Inl]] that show ?thesis
      by (auto simp: s'_def Inl process_handle_def process_sane_def Let_def)
  qed
  have l: "(l, w') = process_settle ph (Some r) s'"
    using assms(1) body by (auto simp: process_attempt_def s'_def split: sum.splits)
  obtain l1 w1 where reap: "process_reap ph s' = (l1, w1)" by (cases "process_reap ph s'")
  then have l1: "l1 = (fst s')\<lparr>pr_quarantined := pr_quarantined l1\<rparr>" using process_reap_locals [of ph s'] by simp
  then have same: "pr_started l1 = pr_started (fst s')" "pr_status l1 = pr_status (fst s')" "pr_result l1 = pr_result (fst s')"
    "pr_length l1 = pr_length (fst s')" "pr_interrupted l1 = pr_interrupted (fst s')"
    by (metis process_locals.ext_inject process_locals.surjective process_locals.update_convs(8))+
  show ?thesis
  proof (cases "pr_quarantined l1")
    case True
    then have "l = l1\<lparr>pr_status := if pr_started l1 then ''ambiguous'' else ''unavailable''\<rparr>"
      using l reap by (simp add: process_settle_def)
    then show ?thesis using True assms(2) by (simp add: process_outcome_def process_error_def)
  next
    case False
    then have "l = l1" using l reap by (simp add: process_settle_def)
    moreover have "process_reported b l1 = process_reported b (fst s')" for b by (simp add: process_reported_def same)
    ultimately show ?thesis
      using False assms(2) s' same by (auto simp: process_sane_def process_outcome_def process_error_def)
  qed
qed

lemma process_quarantined:
  "snd (process_operate ph pb key request (True, w)) = (True, snd (ph_safe_environment ph w)) \<and>
   isl (fst (process_operate ph pb key request (True, w)))"
proof -
  obtain x w1 where env: "ph_safe_environment ph w = (x, w1)" by (cases "ph_safe_environment ph w")
  have "\<exists>e. process_body ph pb key request (process_start True, w) = (Inl e, (process_start True, w1))"
    by (cases x) (simp_all add: process_body_def bindE_apply hostE_def env process_request_def process_payload_def process_start_def)
  then obtain e where "process_body ph pb key request (process_start True, w) = (Inl e, (process_start True, w1))" by blast
  then have "process_attempt ph pb key request (True, w) =
      ((process_handle request e (process_start True))\<lparr>pr_status := ''unavailable''\<rparr>, w1)"
    by (simp add: process_attempt_def process_settle_def process_reap_def process_handle_def process_start_def Let_def)
  then show ?thesis
    by (simp add: process_operate_def process_outcome_def env process_handle_def process_start_def Let_def split: option.split)
qed

section \<open>Properties\<close>

text \<open>C29. The durable store over \<open>PostgresSecretBackend\<close> is a versioned secret store on the committed rows,
  for every driver and database that behave as documented: a connection, the two private functions,
  commit and rollback.\<close>

theorem postgres_store_contract:
  assumes "pg_database dv pv"
  shows "secret_store (durable_ops (pg_ops dv cfg)) (durable_stored (pv_held pv))"
  by (rule postgres_secret_store [OF assms])

theorem postgres_store_contract_witness:
  "secret_store (durable_ops (pg_ops table_driver the_config)) (durable_stored td_rows)"
  using postgres_store_contract [OF table_database] by simp

text \<open>C31. A swap that returns replaced the expected version of its own row by the requested record, as the
  row reads back, and no other row. A swap that fails left every row as it was, or, never when it
  reports a conflict, did exactly that.\<close>

theorem postgres_swap_is_atomic:
  assumes "pg_database dv pv" and "pg_operate dv cfg (PStr k) (Some (PInt n, PDict (encode_record r))) w = (x, w')"
  shows "case x of
      Inr v \<Rightarrow> k = pc_key cfg \<and> pg_swapped pv (pv_held pv w) k n (pc_binding cfg) r w' \<and> v = PDict (encode_record r)
    | Inl e \<Rightarrow> pv_held pv w' = pv_held pv w \<or> (k = pc_key cfg \<and> \<not> catches DurableSecretBackendConflict e \<and>
        pg_swapped pv (pv_held pv w) k n (pc_binding cfg) r w')"
  by (rule pg_swap_ok [OF assms])

theorem postgres_swap_is_atomic_witness:
  "\<exists>w'. pg_operate table_driver the_config (PStr (binding_key the_binding)) (Some (PInt 0, PDict (encode_record next_record))) demo_db
     = (Inr (PDict (encode_record next_record)), w') \<and>
   pg_swapped table_view (td_rows demo_db) (binding_key the_binding) 0 the_binding next_record w'"
proof -
  obtain w' where eq: "pg_operate table_driver the_config (PStr (binding_key the_binding))
      (Some (PInt 0, PDict (encode_record next_record))) demo_db = (Inr (PDict (encode_record next_record)), w')"
    using demo_swap_returns by blast
  from postgres_swap_is_atomic [OF table_database eq] eq show ?thesis by (auto simp: the_config_def)
qed

text \<open>Whatever the driver does, a failing operation raises one of five fixed exceptions, so no text of
  the driver leaves the backend; a result is a strict record, on a swap the requested one.\<close>

theorem postgres_backend_is_opaque:
  "case fst (pg_operate dv cfg key request w) of
     Inl e \<Rightarrow> e \<in> {Exc DurableSecretBackendConflict ''postgres_secret_version_conflict'',
       Exc DurableSecretBackendAmbiguousWrite ''postgres_secret_write_ambiguous'',
       Exc DurableSecretBackendUnavailable ''postgres_secret_unavailable'',
       Exc KeyboardInterrupt ''postgres_secret_interrupted'', Exc SystemExit ''postgres_secret_interrupted''}
   | Inr v \<Rightarrow> \<exists>payload c. pg_validate cfg key request = Inr payload \<and> v = PDict c \<and>
       strict_record v (pc_binding cfg) = Inr c \<and> (payload = None \<or> py_eq v (PDict (the payload)))"
proof (cases "pg_operate dv cfg key request w")
  case (Pair x w')
  from pg_operate_any [OF this] Pair show ?thesis
    by (cases x) (auto simp: pg_errors_def dest: strict_record_idem)
qed

text \<open>C34. The process wrapper is transparent: on a host that runs its child at once, an operation through
  request text, child and response text has the outcome and the effect of the operation itself, with
  the fixed errors of the wrapper; an interruption of a swap counts as ambiguous.\<close>

theorem process_is_transparent:
  assumes "child_backend b lims = Inr (pb_config pb)" and "0 \<le> pb_timeout pb" and "plain_request request"
    and "pg_operate dv (pb_config pb) key request (pw_world u) = (x, w')"
    and "process_fits (pb_config pb) key request x"
  shows "\<exists>u'. process_operate (prompt_host dv b lims) pb key request (False, u) = (process_image request x, (False, u')) \<and>
    pw_world u' = w'"
  by (rule process_operate_prompt [OF assms])

text \<open>A bound of the length of a text.\<close>

fun text_bound :: "pyval \<Rightarrow> nat" where
  "text_bound PNone = 4"
| "text_bound (PBool b) = 5"
| "text_bound (PInt i) = length (int_str i)"
| "text_bound (PStr s) = 6 * length s + 2"
| "text_bound (PList xs) = 2 + sum_list (map (\<lambda>x. text_bound x + 2) xs)"
| "text_bound (PDict d) = 2 + sum_list (map (\<lambda>p. 6 * length (fst p) + 6 + text_bound (snd p)) d)"

lemma length_join: "(\<And>x. x \<in> set xs \<Longrightarrow> length (f x) + 2 \<le> g x) \<Longrightarrow> length (join '', '' (map f xs)) \<le> sum_list (map g xs)"
proof (induction xs)
  case (Cons x xs)
  have "length (f x) + 2 \<le> g x" "length (join '', '' (map f xs)) \<le> sum_list (map g xs)" using Cons by auto
  then show ?case by (cases xs) auto
qed simp

lemma length_json_text: "length (json_text v) \<le> text_bound v"
proof (induction v)
  case (PStr s)
  then show ?case using length_ascii_string [of s] by simp
next
  case (PList xs)
  then show ?case using length_join [of xs json_text "\<lambda>x. text_bound x + 2"] by simp
next
  case (PDict d)
  have "length (ascii_string (fst p) @ '': '' @ json_text (snd p)) + 2 \<le> 6 * length (fst p) + 6 + text_bound (snd p)"
    if "p \<in> set d" for p
  proof -
    have "length (json_text (snd p)) \<le> text_bound (snd p)" using PDict [of p "snd p"] that by (cases p) auto
    then show ?thesis using length_ascii_string [of "fst p"] by simp
  qed
  then show ?case
    using length_join [of d "\<lambda>p. ascii_string (fst p) @ '': '' @ json_text (snd p)" "\<lambda>p. 6 * length (fst p) + 6 + text_bound (snd p)"]
    by simp
qed simp_all

lemma demo_fits:
  "process_fits the_config (PStr (binding_key the_binding)) (Some (PInt 0, PDict (encode_record next_record)))
     (Inr (PDict (encode_record next_record)))"
proof -
  have len: "length (binding_key the_binding) = 82" by (simp add: binding_key_def json_sha256_def)
  have i: "length (int_str 0) = 1" "length (int_str 1) = 1" by (simp_all add: int_str_def nat_str.simps)
  have p: "payload = Some (encode_record next_record)"
    if "pg_validate the_config (PStr (binding_key the_binding)) (Some (PInt 0, PDict (encode_record next_record))) = Inr payload" for payload
    using pg_validate_Inr(2) [OF that] by simp
  have "text_bound (request_value (PStr (binding_key the_binding)) (Some (PInt 0, PDict (encode_record next_record)))
      (Some (encode_record next_record))) \<le> MAX_MESSAGE"
    "text_bound (ok_message (PDict (encode_record next_record))) \<le> MAX_MESSAGE"
    by (simp_all add: request_value_def ok_message_def encode_record_def next_record_def fresh_record_def the_binding_def opt_str_def
        len [unfolded the_binding_def] i MAX_MESSAGE_def)
  then show ?thesis
    unfolding process_fits_def
    by (auto simp: process_payload_validate simp del: json_text.simps dest!: p intro: order_trans [OF length_json_text] split: sum.split)
qed

theorem process_is_transparent_witness:
  "\<exists>u'. process_operate (prompt_host table_driver the_binding \<lparr>pl_connect = PInt 5, pl_statement = PInt 5000, pl_lock = PInt 1000\<rparr>)
      \<lparr>pb_config = the_config, pb_timeout = 10000\<rparr> (PStr (binding_key the_binding))
      (Some (PInt 0, PDict (encode_record next_record))) (False, \<lparr>pw_world = demo_db, pw_request = [], pw_text = None\<rparr>) =
    (Inr (PDict (encode_record next_record)), (False, u'))"
proof -
  obtain w' where eq: "pg_operate table_driver the_config (PStr (binding_key the_binding))
      (Some (PInt 0, PDict (encode_record next_record))) demo_db = (Inr (PDict (encode_record next_record)), w')"
    using demo_swap_returns by blast
  have "child_backend the_binding \<lparr>pl_connect = PInt 5, pl_statement = PInt 5000, pl_lock = PInt 1000\<rparr> = Inr the_config"
    by (simp add: child_backend_def the_config_built)
  from process_is_transparent [of the_binding _ "\<lparr>pb_config = the_config, pb_timeout = 10000\<rparr>"
      "Some (PInt 0, PDict (encode_record next_record))" table_driver "PStr (binding_key the_binding)"
      "\<lparr>pw_world = demo_db, pw_request = [], pw_text = None\<rparr>" "Inr (PDict (encode_record next_record))" w', simplified,
      OF this _ eq demo_fits]
  show ?thesis by (auto simp: plain_request_def process_image_def)
qed

text \<open>Once the child of a swap was started, only its own message, read after a clean exit in time and by
  a backend that is not quarantined, makes the outcome other than ambiguous. A quarantined backend
  refuses every operation and starts nothing.\<close>

theorem process_swap_is_cautious:
  "(case process_attempt ph pb key (Some r) (q, w) of (l, _) \<Rightarrow>
      \<not> pr_started l \<or> process_outcome l = Inl (Exc DurableSecretBackendAmbiguousWrite ''secret_process_write_ambiguous'') \<or>
      (\<not> pr_quarantined l \<and> (\<exists>p t. process_verdict (pc_binding (pb_config pb)) (Some p) t = Inr (pr_status l, pr_result l)) \<and>
       process_outcome l = (if pr_status l = ''ok'' then Inr (PDict (pr_result l)) else Inl (process_error (pr_status l))))) \<and>
   snd (process_operate ph pb key request (True, w')) = (True, snd (ph_safe_environment ph w')) \<and>
   isl (fst (process_operate ph pb key request (True, w')))"
proof (intro conjI)
  have amb: "process_error ''ambiguous'' = Exc DurableSecretBackendAmbiguousWrite ''secret_process_write_ambiguous''"
    by (simp add: process_error_def)
  obtain l u where l: "process_attempt ph pb key (Some r) (q, w) = (l, u)" by (cases "process_attempt ph pb key (Some r) (q, w)")
  show "case process_attempt ph pb key (Some r) (q, w) of (l, _) \<Rightarrow>
      \<not> pr_started l \<or> process_outcome l = Inl (Exc DurableSecretBackendAmbiguousWrite ''secret_process_write_ambiguous'') \<or>
      (\<not> pr_quarantined l \<and> (\<exists>p t. process_verdict (pc_binding (pb_config pb)) (Some p) t = Inr (pr_status l, pr_result l)) \<and>
       process_outcome l = (if pr_status l = ''ok'' then Inr (PDict (pr_result l)) else Inl (process_error (pr_status l))))"
    using process_started_swap [OF l] unfolding l prod.case process_reported_def amb by blast
qed (use process_quarantined [of ph pb key request w'] in auto)

text \<open>A host that cannot start the child: the swap is reported as ambiguous.\<close>

definition broken_host :: "table_db prompt_world process_host" where
  "broken_host = (prompt_host table_driver the_binding \<lparr>pl_connect = PInt 5, pl_statement = PInt 5000, pl_lock = PInt 1000\<rparr>)
     \<lparr>ph_start := raiseE (Exc (OtherError ''OSError'') ''fork''), ph_pid := (\<lambda>w. False)\<rparr>"

theorem process_swap_is_cautious_witness:
  "\<exists>l u. process_attempt broken_host \<lparr>pb_config = the_config, pb_timeout = 10000\<rparr> (PStr (binding_key the_binding))
      (Some (PInt 0, PDict (encode_record next_record))) (False, \<lparr>pw_world = demo_db, pw_request = [], pw_text = None\<rparr>) = (l, u) \<and>
    pr_started l \<and> process_outcome l = Inl (Exc DurableSecretBackendAmbiguousWrite ''secret_process_write_ambiguous'')"
proof -
  let ?pb = "\<lparr>pb_config = the_config, pb_timeout = 10000\<rparr>" and ?key = "PStr (binding_key the_binding)"
    and ?r = "(PInt 0, PDict (encode_record next_record))" and ?w = "\<lparr>pw_world = demo_db, pw_request = [], pw_text = None\<rparr>"
  have "dict_get (encode_record next_record) ''version'' = PInt 1" by (simp add: encode_record_def next_record_def)
  then have val: "pg_validate the_config ?key (Some ?r) = Inr (Some (encode_record next_record))"
    by (simp add: pg_validate_def pg_payload_def the_config_def strict_demo MAX_BIGINT_def)
  then have "length (json_text (request_value ?key (Some ?r) (Some (encode_record next_record)))) \<le> MAX_MESSAGE"
    using demo_fits by (simp add: process_fits_def process_payload_validate [THEN iffD2] del: json_text.simps)
  then have req: "process_request the_config False ?key (Some ?r) =
      Inr (Some (encode_record next_record), json_text (request_value ?key (Some ?r) (Some (encode_record next_record))))"
    using val by (simp add: process_request_def process_payload_validate [THEN iffD2] Let_def del: json_text.simps)
  obtain l u where l: "process_attempt broken_host ?pb ?key (Some ?r) (False, ?w) = (l, u)"
    by (cases "process_attempt broken_host ?pb ?key (Some ?r) (False, ?w)")
  have "pr_started l \<and> pr_status l = ''ambiguous''"
    using l
    by (auto simp: broken_host_def process_attempt_def process_body_def process_spawn_def process_wait_def bindE_apply hostE_def localE_def
        process_start_def req Let_def process_handle_def process_settle_def process_reap_def simp del: json_text.simps)
  with process_swap_is_cautious [where ph = broken_host and pb = ?pb and key = ?key and r = ?r and q = False and w = ?w] l show ?thesis
    by (auto simp: process_error_def)
qed

end
