(* ===== verification/Host_Results.thy ===== *)
theory Host_Results
  imports Effect_Rules Postgres_Host Postgres_Results
begin

text \<open>
  The properties of the strict connection factory: what a handed-over connection was checked for,
  that no connection is left open, and that the factory keeps the contract of the database for the
  backend on top of it.
\<close>

section \<open>A connection that is handed over\<close>

lemma hostE_Inr: "hostE m (l, w) = (Inr x, s) \<longleftrightarrow> (\<exists>w'. m w = (Inr x, w') \<and> s = (l, w'))"
  by (auto simp: hostE_def split: prod.splits)

lemma localE_Inr: "localE f (l, w) = (Inr x, s) \<longleftrightarrow> s = (f l, w)"
  by (auto simp: localE_def)

lemma liftE_Inr: "liftE r w = (Inr x, w') \<longleftrightarrow> r = Inr x \<and> w' = w"
  by auto

lemma raiseE_Inr [simp]: "raiseE e w = (Inr x, w') \<longleftrightarrow> False"
  by simp

text \<open>A lease of the profile's login and database that is not expired at a time.\<close>

definition lease_fits :: "host_profile \<Rightarrow> rat \<Rightarrow> password_lease \<Rightarrow> bool" where
  "lease_fits p now lease \<longleftrightarrow> pw_login lease = PStr (hp_login p) \<and> pw_database lease = PStr (hp_database p) \<and>
     (\<exists>n e. pw_version lease = PInt n \<and> 0 \<le> n \<and> n \<le> MAX_BIGINT \<and> pw_expires_at lease = PInt e \<and> now < of_int e) \<and>
     (\<exists>s. pw_password lease = PStr s \<and> s \<noteq> [] \<and> length s \<le> 16384 \<and> CHR 0x00 \<notin> set s)"

lemma validate_lease_Inr: "validate_lease v p now = Inr lease \<longleftrightarrow> v = Lease lease \<and> lease_fits p now lease"
  by (auto simp: validate_lease_def lease_fits_def lease_password_ok_def
      split: lease_value.splits pyval.splits if_splits)

text \<open>
  The three parts of opening a connection, each as the calls that were made from one world to the
  other: the lease that the password source gave, the session's answers, and the lease once more.
\<close>

definition lease_taken ::
  "('w, 'c, 't) factory_host \<Rightarrow> host_profile \<Rightarrow> password_lease \<Rightarrow> rat \<Rightarrow> rat \<Rightarrow> 'w \<Rightarrow> 'w \<Rightarrow> bool" where
  "lease_taken fh p lease now anchor w w' \<longleftrightarrow> (\<exists>w1 w2 w3. fh_password_source fh w = (Inr (Lease lease), w1) \<and>
     fh_clock fh w1 = (Inr (Some now), w2) \<and> fh_monotonic fh w2 = (Inr anchor, w3) \<and> lease_fits p now lease \<and>
     fh_lease_is_current fh (pw_version lease) w3 = (Inr (PBool True), w'))"

definition session_checked ::
  "('w, 'c, 'k) pg_driver \<Rightarrow> host_profile \<Rightarrow> int \<Rightarrow> int \<Rightarrow> 'c \<Rightarrow> 'w \<Rightarrow> 'w \<Rightarrow> bool" where
  "session_checked dv p statement lock c w w' \<longleftrightarrow> (\<exists>k row w1 w2 w3 w4 w5 w6.
     dv_autocommit dv c w = (Inr (PBool False), w1) \<and> dv_cursor dv c w1 = (Inr k, w2) \<and>
     dv_execute dv k PREFLIGHT_SQL [] w2 = (Inr (), w3) \<and>
     dv_fetchone dv k w3 = (Inr row, w4) \<and> session_ok p statement lock row \<and> dv_fetchone dv k w4 = (Inr NoRow, w5) \<and>
     dv_close_cursor dv k w5 = (Inr (), w6) \<and> dv_commit dv c w6 = (Inr (), w'))"

definition lease_rechecked ::
  "('w, 'c, 't) factory_host \<Rightarrow> host_profile \<Rightarrow> password_lease \<Rightarrow> rat \<Rightarrow> rat \<Rightarrow> 'w \<Rightarrow> 'w \<Rightarrow> bool" where
  "lease_rechecked fh p lease now anchor w w' \<longleftrightarrow> (\<exists>after m w1 w2. fh_clock fh w = (Inr (Some after), w1) \<and>
     now \<le> after \<and> fh_monotonic fh w1 = (Inr m, w2) \<and> m - anchor < lease_expires lease - now \<and> lease_fits p after lease \<and>
     fh_lease_is_current fh (pw_version lease) w2 = (Inr (PBool True), w'))"

lemma obtain_lease_Inr:
  assumes "obtain_lease fh p w = (Inr (lease, now, anchor), w')"
  shows "lease_taken fh p lease now anchor w w'"
  using assms unfolding lease_taken_def
  by (auto simp: obtain_lease_def assert_current_def bindE_eq_Inr liftE_Inr if_apply validate_lease_Inr
      split: option.splits if_splits)

lemma recheck_lease_Inr:
  assumes "recheck_lease fh p lease now anchor w = (Inr u, w')"
  shows "lease_rechecked fh p lease now anchor w w'"
  using assms unfolding lease_rechecked_def
  by (auto simp: recheck_lease_def assert_current_def bindE_eq_Inr liftE_Inr if_apply not_less not_le validate_lease_Inr
      split: option.splits if_splits)

lemma check_session_Inr:
  assumes "check_session dv p statement lock c (l, w) = (Inr u, (l', w'))"
  shows "session_checked dv p statement lock c w w' \<and> fl_connection l' = fl_connection l \<and> fl_trust l' = fl_trust l"
  using assms unfolding session_checked_def
  by (auto simp: check_session_def bindE_eq_Inr hostE_Inr localE_Inr if_apply split: if_splits)

text \<open>The whole opening, from the world it starts in to the one it ends in.\<close>

definition opened_checked ::
  "('w, 'c, 't) factory_host \<Rightarrow> ('w, 'c, 'k) pg_driver \<Rightarrow> connection_factory \<Rightarrow> pydict \<Rightarrow> 'c \<Rightarrow> 'w \<Rightarrow> 'w \<Rightarrow> bool" where
  "opened_checked fh dv fc limits c w w' \<longleftrightarrow> (\<exists>statement lock t lease now anchor ca_path w1 w2 w3 w4 w5 w6 w7.
     check_limits limits = Inr (statement, lock) \<and> assert_clean_environment fh w = (Inr (), w1) \<and>
     fh_snapshot_trust fh (hp_root_certificate (fc_profile fc)) (fc_trusted_ca_sha256 fc) w1 = (Inr t, w2) \<and>
     lease_taken fh (fc_profile fc) lease now anchor w2 w3 \<and> fh_trust_path fh t w3 = (Inr ca_path, w4) \<and>
     fh_connect fh (connect_parameters (fc_profile fc) ca_path limits (pw_password lease)) w4 = (Inr c, w5) \<and>
     session_checked dv (fc_profile fc) statement lock c w5 w6 \<and>
     lease_rechecked fh (fc_profile fc) lease now anchor w6 w7 \<and> fh_trust_close fh t w7 = (Inr (), w'))"

lemma factory_body_Inr:
  assumes "factory_body fh dv fc limits (factory_start, w) = (Inr u, (l, w'))"
  shows "\<exists>c. opened_checked fh dv fc limits c w w' \<and> fl_connection l = Some c \<and> fl_accepted l \<and> fl_trust l = None"
proof -
  let ?p = "fc_profile fc"
  obtain statement lock lease now anchor t ca_path c l1 w1 w2 w3 w4 w5 w6 w7 l2 where
    head: "check_limits limits = Inr (statement, lock)" "assert_clean_environment fh w = (Inr (), w1)"
      "fh_snapshot_trust fh (hp_root_certificate ?p) (fc_trusted_ca_sha256 fc) w1 = (Inr t, w2)"
    and ob: "obtain_lease fh ?p w2 = (Inr (lease, now, anchor), w3)"
    and con: "fh_trust_path fh t w3 = (Inr ca_path, w4)"
      "fh_connect fh (connect_parameters ?p ca_path limits (pw_password lease)) w4 = (Inr c, w5)"
    and ses: "check_session dv ?p statement lock c (l1, w5) = (Inr (), (l2, w6))" and l1: "fl_connection l1 = Some c"
    and re: "recheck_lease fh ?p lease now anchor w6 = (Inr (), w7)"
    and tail: "fh_trust_close fh t w7 = (Inr (), w')" "l = l2\<lparr>fl_trust := None, fl_accepted := True\<rparr>"
    using assms by (auto simp: factory_body_def Let_def bindE_eq_Inr liftE_Inr hostE_Inr localE_Inr split: prod.splits)
  have "opened_checked fh dv fc limits c w w'"
    unfolding opened_checked_def
    using head obtain_lease_Inr [OF ob] con check_session_Inr [OF ses] recheck_lease_Inr [OF re] tail(1)
    by (intro exI conjI) (assumption | erule conjunct1)+
  with check_session_Inr [OF ses] l1 tail(2) show ?thesis by auto
qed

section \<open>No connection is left open\<close>

text \<open>\<open>live w\<close> is the set of open connections: connecting opens a new one, \<open>close\<close> closes one even when it
  raises, and nothing else opens or closes any.\<close>

definition opens :: "('w \<Rightarrow> 'c set) \<Rightarrow> ('w, 'c) eff \<Rightarrow> bool" where
  "opens live m \<longleftrightarrow> (\<forall>w. case m w of (Inr c, w') \<Rightarrow> c \<notin> live w \<and> live w' = insert c (live w) | (Inl _, w') \<Rightarrow> live w' = live w)"

definition same_live :: "('w \<Rightarrow> 'c set) \<Rightarrow> ('w, 'a) eff \<Rightarrow> bool" where
  "same_live live m \<longleftrightarrow> (\<forall>w. live (snd (m w)) = live w)"

definition driver_live :: "('w \<Rightarrow> 'c set) \<Rightarrow> ('w, 'c, 'k) pg_driver \<Rightarrow> bool" where
  "driver_live live dv \<longleftrightarrow>
     (\<forall>c. same_live live (dv_autocommit dv c)) \<and> (\<forall>c. same_live live (dv_cursor dv c)) \<and>
     (\<forall>k sql ps. same_live live (dv_execute dv k sql ps)) \<and> (\<forall>k. same_live live (dv_fetchone dv k)) \<and>
     (\<forall>c. same_live live (dv_commit dv c)) \<and> (\<forall>c. same_live live (dv_rollback dv c)) \<and>
     (\<forall>k. same_live live (dv_close_cursor dv k)) \<and> (\<forall>c w. live (snd (dv_close dv c w)) = live w - {c})"

definition host_live :: "('w \<Rightarrow> 'c set) \<Rightarrow> ('w, 'c, 't) factory_host \<Rightarrow> bool" where
  "host_live live fh \<longleftrightarrow>
     same_live live (fh_environment fh) \<and> same_live live (fh_homes fh) \<and> (\<forall>p. same_live live (fh_lexists fh p)) \<and>
     (\<forall>p sha. same_live live (fh_snapshot_trust fh p sha)) \<and> (\<forall>t. same_live live (fh_trust_path fh t)) \<and>
     (\<forall>t. same_live live (fh_trust_close fh t)) \<and> same_live live (fh_password_source fh) \<and>
     (\<forall>v. same_live live (fh_lease_is_current fh v)) \<and> same_live live (fh_clock fh) \<and> same_live live (fh_monotonic fh) \<and>
     (\<forall>ps. opens live (fh_connect fh ps))"

text \<open>Whatever connection the local variables hold is the only one that was opened.\<close>

definition owns :: "'c set \<Rightarrow> 'c option \<Rightarrow> 'c set \<Rightarrow> bool" where
  "owns L held now \<longleftrightarrow> (case held of None \<Rightarrow> now = L | Some c \<Rightarrow> c \<notin> L \<and> now = insert c L)"

definition owning :: "('l \<Rightarrow> 'c option) \<Rightarrow> ('w \<Rightarrow> 'c set) \<Rightarrow> 'c set \<Rightarrow> 'l \<times> 'w \<Rightarrow> bool" where
  "owning conn live L s \<longleftrightarrow> owns L (conn (fst s)) (live (snd s))"

definition vacant :: "('l \<Rightarrow> 'c option) \<Rightarrow> ('w \<Rightarrow> 'c set) \<Rightarrow> 'c set \<Rightarrow> 'l \<times> 'w \<Rightarrow> bool" where
  "vacant conn live L s \<longleftrightarrow> conn (fst s) = None \<and> live (snd s) = L"

lemma vacant_owning: "vacant conn live L s \<Longrightarrow> owning conn live L s"
  by (simp add: vacant_def owning_def owns_def)

lemma keeps_local [keeps_rules]:
  "(\<And>l. conn (f l) = conn l) \<Longrightarrow> keeps (owning conn live L) (localE f)"
  "(\<And>l. conn (f l) = conn l) \<Longrightarrow> keeps (vacant conn live L) (localE f)"
  by (auto simp: keeps_def localE_def owning_def vacant_def)

lemma kept_host [keeps_rules]:
  "same_live live m \<Longrightarrow> keeps (owning conn live L) (hostE m)" "same_live live m \<Longrightarrow> keeps (vacant conn live L) (hostE m)"
  by (auto simp: keeps_def hostE_def owning_def vacant_def same_live_def split: prod.split) (metis snd_conv)+

lemma same_live_compose [keeps_rules]:
  "same_live live (retE x)" "same_live live (raiseE e)" "same_live live (liftE r)"
  "same_live live m \<Longrightarrow> (\<And>x. same_live live (f x)) \<Longrightarrow> same_live live (bindE m f)"
  "(c \<Longrightarrow> same_live live m) \<Longrightarrow> (\<not> c \<Longrightarrow> same_live live n) \<Longrightarrow> same_live live (if c then m else n)"
proof -
  show "same_live live m \<Longrightarrow> (\<And>x. same_live live (f x)) \<Longrightarrow> same_live live (bindE m f)"
    unfolding same_live_def by (auto simp: bindE_apply split: prod.split sum.split) (metis snd_conv)+
qed (simp_all add: same_live_def)

lemma strict_parts_live:
  assumes "host_live live fh"
  shows "same_live live (assert_clean_environment fh)" and "same_live live (obtain_lease fh p)"
    and "same_live live (recheck_lease fh p lease now anchor)"
proof -
  have e: "same_live live (fh_environment fh)" "same_live live (fh_homes fh)" "same_live live (fh_lexists fh q)"
    "same_live live (fh_password_source fh)" "same_live live (fh_lease_is_current fh v)" "same_live live (fh_clock fh)"
    "same_live live (fh_monotonic fh)" for q v
    using assms by (simp_all add: host_live_def)
  have "same_live live (assert_absent fh ps)" for ps
    by (induction ps) (unfold assert_absent.simps, (intro keeps_rules e; assumption)+)
  then show "same_live live (assert_clean_environment fh)"
    unfolding assert_clean_environment_def by (intro keeps_rules e)
  have a: "same_live live (assert_current fh l)" for l
    unfolding assert_current_def by (intro keeps_rules e)
  show "same_live live (obtain_lease fh p)"
    unfolding obtain_lease_def by (intro keeps_rules e) (auto intro!: keeps_rules e a split: option.split)
  show "same_live live (recheck_lease fh p lease now anchor)"
    unfolding recheck_lease_def by (intro keeps_rules e) (auto intro!: keeps_rules e a split: option.split)
qed

lemma check_session_live:
  assumes "driver_live live dv"
  shows "keeps (owning fl_connection live L) (check_session dv p statement lock c)"
proof -
  have d: "same_live live (dv_autocommit dv c)" "same_live live (dv_cursor dv c)" "same_live live (dv_execute dv k sql ps)"
    "same_live live (dv_fetchone dv k)" "same_live live (dv_commit dv c)" "same_live live (dv_close_cursor dv k)" for c k sql ps
    using assms by (simp_all add: driver_live_def)
  show ?thesis unfolding check_session_def by (intro keeps_rules d) simp_all
qed

text \<open>From a state without a connection: the steps before the connection is opened, and that step.\<close>

definition leads :: "('w \<Rightarrow> bool) \<Rightarrow> ('w \<Rightarrow> bool) \<Rightarrow> ('w, 'a) eff \<Rightarrow> bool" where
  "leads P I m \<longleftrightarrow> (\<forall>w. P w \<longrightarrow> I (snd (m w)))"

lemma leads_bind: "keeps P m \<Longrightarrow> (\<And>w. P w \<Longrightarrow> I w) \<Longrightarrow> (\<And>x. leads P I (f x)) \<Longrightarrow> leads P I (bindE m f)"
  unfolding keeps_def leads_def by (fastforce simp: bindE_apply split: prod.split sum.split dest: arg_cong [where f = snd])

lemma leads_then: "leads P I m \<Longrightarrow> (\<And>x. keeps I (f x)) \<Longrightarrow> leads P I (bindE m f)"
  unfolding keeps_def leads_def by (fastforce simp: bindE_apply split: prod.split sum.split dest: arg_cong [where f = snd])

lemma leads_open:
  assumes "opens live m" and "\<And>l c. conn (upd c l) = Some c" and "\<And>c. keeps (owning conn live L) (f c)"
  shows "leads (vacant conn live L) (owning conn live L) (bindE (hostE m) (\<lambda>c. bindE (localE (upd c)) (\<lambda>_. f c)))"
  unfolding leads_def
proof (intro allI impI)
  fix s assume s: "vacant conn live L s"
  obtain l w where lw: "s = (l, w)" by (cases s)
  obtain x w' where m: "m w = (x, w')" by (cases "m w")
  have o: "case m w of (Inr c, w') \<Rightarrow> c \<notin> live w \<and> live w' = insert c (live w) | (Inl _, w') \<Rightarrow> live w' = live w"
    using assms(1) by (simp add: opens_def)
  show "owning conn live L (snd (bindE (hostE m) (\<lambda>c. bindE (localE (upd c)) (\<lambda>_. f c)) s))"
  proof (cases x)
    case (Inl e)
    with o m s show ?thesis by (simp add: lw bindE_apply hostE_def owning_def owns_def vacant_def)
  next
    case (Inr c)
    with o m s have "owning conn live L (upd c l, w')" by (simp add: lw owning_def owns_def vacant_def assms(2))
    then have "owning conn live L (snd (f c (upd c l, w')))" using assms(3) [of c] unfolding keeps_def by blast
    then show ?thesis by (simp add: lw m Inr bindE_apply hostE_def localE_def)
  qed
qed

lemma keeps_row [keeps_rules]:
  "keeps I g \<Longrightarrow> (\<And>v. keeps I (f v)) \<Longrightarrow> keeps I (case row of Row [v] \<Rightarrow> f v | _ \<Rightarrow> g)"
  by (cases row) (auto split: list.split)

lemma leads_split: "(\<And>a b. leads P I (f a b)) \<Longrightarrow> leads P I (case p of (a, b) \<Rightarrow> f a b)"
  by (cases p) simp

lemma factory_body_leads:
  assumes h: "host_live live fh" and d: "driver_live live dv"
  shows "leads (vacant fl_connection live L) (owning fl_connection live L) (factory_body fh dv fc limits)"
proof -
  note e = strict_parts_live [OF h] check_session_live [OF d]
  have f: "same_live live (fh_snapshot_trust fh q sha)" "same_live live (fh_trust_path fh t)" "same_live live (fh_trust_close fh t)"
    "opens live (fh_connect fh ps)" for q sha t ps
    using h by (simp_all add: host_live_def)
  have open': "leads (vacant fl_connection live L) (owning fl_connection live L)
     (bindE (hostE (fh_connect fh ps)) (\<lambda>c. bindE (localE (\<lambda>l. l\<lparr>fl_connection := Some c\<rparr>)) (\<lambda>_.
      bindE (check_session dv (fc_profile fc) statement lock c) (\<lambda>_.
      bindE (hostE (recheck_lease fh (fc_profile fc) lease now anchor)) (\<lambda>_.
      bindE (hostE (fh_trust_close fh t)) (\<lambda>_. localE (\<lambda>l. l\<lparr>fl_trust := None, fl_accepted := True\<rparr>)))))))"
    for ps statement lock lease now anchor t
    by (intro leads_open keeps_rules e f) simp_all
  show ?thesis
    unfolding factory_body_def Let_def
    by (intro leads_bind leads_split keeps_rules e f open' vacant_owning) simp_all
qed

lemma factory_end_live:
  assumes h: "host_live live fh" and d: "driver_live live dv" and "owns L (fl_connection l) (live w)"
  shows "case factory_outcome l of Inr c \<Rightarrow> c \<notin> L \<and> live (factory_cleanup fh dv l w) = insert c L
      | Inl _ \<Rightarrow> live (factory_cleanup fh dv l w) = L"
proof -
  have dd: "live (snd (dv_rollback dv c w)) = live w" "live (snd (dv_close_cursor dv k w)) = live w"
    "live (snd (dv_close dv c w)) = live w - {c}" "live (snd (fh_trust_close fh t w)) = live w" for c k w t
    using d h by (simp_all add: driver_live_def host_live_def same_live_def)
  show ?thesis
    using assms(3)
    by (cases "fl_accepted l"; cases "fl_connection l"; cases "fl_trust l"; cases "fl_cursor l")
      (auto simp: factory_outcome_def factory_cleanup_def owns_def dd Let_def split: option.split)
qed

lemma strict_connect_opens:
  assumes h: "host_live live fh" and d: "driver_live live dv"
  shows "opens live (strict_connect fh dv fc limits)"
  unfolding opens_def
proof
  fix w
  obtain x l w' where b: "factory_body fh dv fc limits (factory_start, w) = (x, (l, w'))"
    by (cases "factory_body fh dv fc limits (factory_start, w)") auto
  have "vacant fl_connection live (live w) (factory_start, w)" by (simp add: vacant_def factory_start_def)
  then have "owning fl_connection live (live w) (l, w')"
    using factory_body_leads [OF h d, of "live w" fc limits] b unfolding leads_def by fastforce
  then have own: "owns (live w) (fl_connection l) (live w')" by (simp add: owning_def)
  moreover have "fl_connection (factory_handle e l) = fl_connection l" for e by (simp add: factory_handle_def)
  ultimately show "case strict_connect fh dv fc limits w of (Inr c, w') \<Rightarrow> c \<notin> live w \<and> live w' = insert c (live w)
      | (Inl _, w') \<Rightarrow> live w' = live w"
    using factory_end_live [OF h d, of "live w" l w'] factory_end_live [OF h d, of "live w" "factory_handle (projl x) l" w'] b
    by (cases x) (auto simp: strict_connect_def Let_def split: sum.splits)
qed

text \<open>An operation of the backend closes the connection it opened.\<close>

lemma pg_body_leads:
  assumes d: "driver_live live dv" and o: "\<And>t opts. opens live (dv_connect dv t opts)"
  shows "leads (vacant lo_connection live L) (owning lo_connection live L) (pg_body dv cfg key request)"
proof -
  have e: "same_live live (dv_autocommit dv c)" "same_live live (dv_cursor dv c)" "same_live live (dv_execute dv k sql ps)"
    "same_live live (dv_fetchone dv k)" "same_live live (dv_commit dv c)" for c k sql ps
    using d by (simp_all add: driver_live_def)
  have con: "leads (vacant lo_connection live L) (owning lo_connection live L) (pg_connect dv cfg)"
    unfolding pg_connect_def by (intro leads_open keeps_rules e o) simp_all
  have rest: "keeps (owning lo_connection live L) (case ck of (c, k) \<Rightarrow>
      bindE (pg_execute dv key request payload k) (\<lambda>_. bindE (pg_readback dv cfg payload k) (\<lambda>_. pg_commit dv c)))" for ck payload
  proof -
    have "keeps (owning lo_connection live L) (pg_readback dv cfg payload k)" for k
      unfolding pg_readback_def by (intro keeps_rules e) simp_all
    then show ?thesis
      unfolding pg_execute_def pg_commit_def by (intro keeps_rules e) simp_all
  qed
  have "leads (vacant lo_connection live L) (owning lo_connection live L) (bindE (pg_connect dv cfg) (\<lambda>(c, k).
      bindE (pg_execute dv key request payload k) (\<lambda>_. bindE (pg_readback dv cfg payload k) (\<lambda>_. pg_commit dv c))))" for payload
    by (rule leads_then [OF con rest])
  then show ?thesis
    unfolding pg_body_def by (intro leads_bind [OF keeps_basic(3)]) (simp_all add: vacant_owning)
qed

lemma pg_operate_live:
  assumes d: "driver_live live dv" and o: "\<And>t opts. opens live (dv_connect dv t opts)"
  shows "live (snd (pg_operate dv cfg key request w)) = live w"
proof -
  obtain x l w' where b: "pg_body dv cfg key request (pg_start, w) = (x, (l, w'))"
    by (cases "pg_body dv cfg key request (pg_start, w)") auto
  have "vacant lo_connection live (live w) (pg_start, w)" by (simp add: vacant_def pg_start_def)
  then have "owning lo_connection live (live w) (l, w')"
    using pg_body_leads [OF d o, of "live w" cfg key request] b unfolding leads_def by fastforce
  then have own: "owns (live w) (lo_connection l) (live w')" by (simp add: owning_def)
  have dd: "live (snd (dv_rollback dv c u)) = live u" "live (snd (dv_close_cursor dv k u)) = live u"
    "live (snd (dv_close dv c u)) = live u - {c}" for c k u
    using d by (simp_all add: driver_live_def same_live_def)
  have clean: "live (snd (pg_cleanup dv (l', w'))) = live w" if "lo_connection l' = lo_connection l" for l'
  proof (cases "lo_connection l")
    case None
    with own that show ?thesis by (simp add: pg_cleanup_def owns_def)
  next
    case (Some c)
    have "live (snd (pg_rollback dv c (l', w'))) = live w'"
      using dd(1) [of c w'] by (cases "dv_rollback dv c w'"; cases "fst (dv_rollback dv c w')") (auto simp: pg_rollback_def)
    then have "live (snd (pg_close dv c (pg_rollback dv c (l', w')))) = live w' - {c}"
      by (cases "pg_rollback dv c (l', w')") (simp add: pg_close_def dd split: option.split)
    with own that Some show ?thesis by (simp add: pg_cleanup_def owns_def)
  qed
  have "lo_connection (pg_handle dv request e l) = lo_connection l" for e by (simp add: pg_handle_def)
  then show ?thesis
    using clean b by (cases x) (simp_all add: pg_operate_def pg_attempt_def)
qed

section \<open>The contract of the database through the factory\<close>

text \<open>The calls of the host touch neither rows nor transactions; the preflight query and closing a cursor
  write nothing; a commit ends its transaction; a new connection has none.\<close>

definition still :: "('w, 'c, 'k) pg_view \<Rightarrow> ('w, 'a) eff \<Rightarrow> bool" where
  "still pv m \<longleftrightarrow> (\<forall>w. pv_held pv (snd (m w)) = pv_held pv w \<and> pv_pending pv (snd (m w)) = pv_pending pv w)"

definition factory_ok :: "('w, 'c, 't) factory_host \<Rightarrow> ('w, 'c, 'k) pg_driver \<Rightarrow> ('w, 'c, 'k) pg_view \<Rightarrow> bool" where
  "factory_ok fh dv pv \<longleftrightarrow>
     still pv (fh_environment fh) \<and> still pv (fh_homes fh) \<and> (\<forall>p. still pv (fh_lexists fh p)) \<and>
     (\<forall>p sha. still pv (fh_snapshot_trust fh p sha)) \<and> (\<forall>t. still pv (fh_trust_path fh t)) \<and>
     (\<forall>t. still pv (fh_trust_close fh t)) \<and> still pv (fh_password_source fh) \<and> (\<forall>v. still pv (fh_lease_is_current fh v)) \<and>
     still pv (fh_clock fh) \<and> still pv (fh_monotonic fh) \<and>
     (\<forall>ps w x w'. fh_connect fh ps w = (x, w') \<longrightarrow> pv_held pv w' = pv_held pv w \<and> (\<forall>c. x = Inr c \<longrightarrow> pv_pending pv w' c = None)) \<and>
     (\<forall>k. still pv (dv_execute dv k PREFLIGHT_SQL [])) \<and> (\<forall>k. still pv (dv_close_cursor dv k)) \<and>
     (\<forall>c w w'. dv_commit dv c w = (Inr (), w') \<longrightarrow> pv_pending pv w' c = None)"

definition settled :: "('w, 'c, 'k) pg_view \<Rightarrow> (string \<Rightarrow> pyval) \<Rightarrow> ('c, 'k, 't) factory_locals \<times> 'w \<Rightarrow> bool" where
  "settled pv H s \<longleftrightarrow> pv_held pv (snd s) = H \<and> (\<forall>c. fl_connection (fst s) = Some c \<longrightarrow> pv_pending pv (snd s) c = None)"

lemma still_compose [keeps_rules]:
  "still pv (retE x)" "still pv (raiseE e)" "still pv (liftE r)"
  "still pv m \<Longrightarrow> (\<And>x. still pv (f x)) \<Longrightarrow> still pv (bindE m f)"
  "(c \<Longrightarrow> still pv m) \<Longrightarrow> (\<not> c \<Longrightarrow> still pv n) \<Longrightarrow> still pv (if c then m else n)"
proof -
  show "still pv m \<Longrightarrow> (\<And>x. still pv (f x)) \<Longrightarrow> still pv (bindE m f)"
    unfolding still_def by (auto simp: bindE_apply split: prod.split sum.split) (metis snd_conv)+
qed (simp_all add: still_def)

lemma strict_parts_still:
  assumes "factory_ok fh dv pv"
  shows "still pv (assert_clean_environment fh)" and "still pv (obtain_lease fh p)"
    and "still pv (recheck_lease fh p lease now anchor)"
proof -
  have e: "still pv (fh_environment fh)" "still pv (fh_homes fh)" "still pv (fh_lexists fh q)"
    "still pv (fh_password_source fh)" "still pv (fh_lease_is_current fh v)" "still pv (fh_clock fh)"
    "still pv (fh_monotonic fh)" for q v
    using assms by (simp_all add: factory_ok_def)
  have "still pv (assert_absent fh ps)" for ps
    by (induction ps) (unfold assert_absent.simps, (intro keeps_rules e; assumption)+)
  then show "still pv (assert_clean_environment fh)"
    unfolding assert_clean_environment_def by (intro keeps_rules e)
  have a: "still pv (assert_current fh l)" for l
    unfolding assert_current_def by (intro keeps_rules e)
  show "still pv (obtain_lease fh p)"
    unfolding obtain_lease_def by (intro keeps_rules e) (auto intro!: keeps_rules e a split: option.split)
  show "still pv (recheck_lease fh p lease now anchor)"
    unfolding recheck_lease_def by (intro keeps_rules e) (auto intro!: keeps_rules e a split: option.split)
qed

lemma triple_still:
  "still pv m \<Longrightarrow> triple (settled pv H) (hostE m) (\<lambda>_. settled pv H) (\<lambda>_ s. pv_held pv (snd s) = H)"
  by (auto simp: triple_def hostE_def settled_def still_def split: prod.split sum.split) (metis snd_conv)+

lemma triple_settled_local:
  "(\<And>l. fl_connection (f l) = fl_connection l) \<Longrightarrow> triple (settled pv H) (localE f) (\<lambda>_. settled pv H) E"
  by (auto simp: triple_def localE_def settled_def)

definition settled_on :: "('w, 'c, 'k) pg_view \<Rightarrow> (string \<Rightarrow> pyval) \<Rightarrow> 'c \<Rightarrow> ('c, 'k, 't) factory_locals \<times> 'w \<Rightarrow> bool" where
  "settled_on pv H c s \<longleftrightarrow> settled pv H s \<and> fl_connection (fst s) = Some c"

lemma check_session_settled:
  assumes db: "pg_database dv pv" and ok: "factory_ok fh dv pv"
  shows "triple (settled_on pv H c) (check_session dv p statement lock c) (\<lambda>_. settled_on pv H c) (\<lambda>_ s. pv_held pv (snd s) = H)"
proof -
  have com: "pv_held pv w' = pv_held pv w \<and> (x = Inr () \<longrightarrow> pv_pending pv w' c = None)"
    if "dv_commit dv c w = (x, w')" "pv_pending pv w c = None" for w x w'
  proof -
    have "pv_held pv w' = pg_applied pv w c \<or> (isl x \<and> pv_held pv w' = pv_held pv w)"
      using pg_databaseD(6) [OF db] that(1) unfolding pg_commits_def by blast
    moreover have "x = Inr () \<Longrightarrow> pv_pending pv w' c = None" using ok that(1) unfolding factory_ok_def by blast
    ultimately show ?thesis using that(2) by (auto simp: pg_applied_def)
  qed
  have st: "still pv (dv_execute dv k PREFLIGHT_SQL [])" "still pv (dv_close_cursor dv k)" for k
    using ok by (simp_all add: factory_ok_def)
  have ex: "pv_held pv w' = pv_held pv w \<and> pv_pending pv w' = pv_pending pv w" if "dv_execute dv k PREFLIGHT_SQL [] w = (x, w')" for k w x w'
    using st(1) [of k] that unfolding still_def by (metis snd_conv)
  have cl: "pv_held pv w' = pv_held pv w \<and> pv_pending pv w' = pv_pending pv w" if "dv_close_cursor dv k w = (x, w')" for k w x w'
    using st(2) [of k] that unfolding still_def by (metis snd_conv)
  have fe: "pv_held pv w' = pv_held pv w \<and> pv_pending pv w' = pv_pending pv w" if "dv_fetchone dv k w = (x, w')" for k w x w'
    using pg_databaseD(5) [OF db] that unfolding pg_fetches_def by blast
  have au: "pv_held pv w' = pv_held pv w \<and> pv_pending pv w' = pv_pending pv w" if "dv_autocommit dv c w = (x, w')" for w x w'
    using pg_databaseD(2) [OF db] that by blast
  have cu: "pv_held pv w' = pv_held pv w \<and> pv_pending pv w' = pv_pending pv w" if "dv_cursor dv c w = (x, w')" for w x w'
    using pg_databaseD(3) [OF db] that by blast
  show ?thesis
    unfolding check_session_def triple_def settled_on_def settled_def
    by (auto simp: pg_step_simps split: prod.splits sum.splits dest!: au cu ex fe cl com)
qed

lemma factory_body_settled:
  assumes db: "pg_database dv pv" and ok: "factory_ok fh dv pv"
  shows "triple (\<lambda>s. settled pv H s \<and> fl_connection (fst s) = None) (factory_body fh dv fc limits)
    (\<lambda>_. settled pv H) (\<lambda>_ s. pv_held pv (snd s) = H)"
proof -
  note e = strict_parts_still [OF ok]
  have f: "still pv (fh_snapshot_trust fh q sha)" "still pv (fh_trust_path fh t)" "still pv (fh_trust_close fh t)" for q sha t
    using ok by (simp_all add: factory_ok_def)
  have con: "pv_held pv w' = pv_held pv w \<and> (\<forall>c. x = Inr c \<longrightarrow> pv_pending pv w' c = None)" if "fh_connect fh ps w = (x, w')" for ps w x w'
    using ok that unfolding factory_ok_def by blast
  have conn: "triple (settled pv H) (bindE (hostE (fh_connect fh ps)) (\<lambda>c. bindE (localE (\<lambda>l. l\<lparr>fl_connection := Some c\<rparr>)) (\<lambda>_. g c)))
      (\<lambda>_. settled pv H) (\<lambda>_ s. pv_held pv (snd s) = H)"
    if "\<And>c. triple (settled_on pv H c) (g c) (\<lambda>_. settled pv H) (\<lambda>_ s. pv_held pv (snd s) = H)" for ps g
  proof (rule triple_bind)
    show "triple (settled pv H) (hostE (fh_connect fh ps)) (\<lambda>c s. pv_held pv (snd s) = H \<and> pv_pending pv (snd s) c = None)
        (\<lambda>_ s. pv_held pv (snd s) = H)"
      by (auto simp: triple_def hostE_def settled_def split: prod.splits sum.splits dest!: con)
    show "triple (\<lambda>s. pv_held pv (snd s) = H \<and> pv_pending pv (snd s) c = None) (bindE (localE (\<lambda>l. l\<lparr>fl_connection := Some c\<rparr>)) (\<lambda>_. g c))
        (\<lambda>_. settled pv H) (\<lambda>_ s. pv_held pv (snd s) = H)" for c
      by (rule triple_bind [OF _ that]) (auto intro!: triple_local simp: settled_on_def settled_def)
  qed
  have rest: "triple (settled_on pv H c)
     (bindE (check_session dv p statement lock c) (\<lambda>_. bindE (hostE (recheck_lease fh p lease now anchor)) (\<lambda>_.
      bindE (hostE (fh_trust_close fh t)) (\<lambda>_. localE (\<lambda>l. l\<lparr>fl_trust := None, fl_accepted := True\<rparr>)))))
     (\<lambda>_. settled pv H) (\<lambda>_ s. pv_held pv (snd s) = H)" for c p statement lock lease now anchor t
    by (rule triple_seq [OF check_session_settled [OF db ok]], assumption, assumption, rule triple_pre [where P' = "settled pv H"],
        rule triple_bind [OF triple_still [OF e(3)]], rule triple_bind [OF triple_still [OF f(3)]], rule triple_settled_local)
      (auto simp: settled_on_def)
  have "triple (settled pv H) (factory_body fh dv fc limits) (\<lambda>_. settled pv H) (\<lambda>_ s. pv_held pv (snd s) = H)"
    unfolding factory_body_def Let_def
    by (rule triple_bind [where R = "\<lambda>_. settled pv H"], rule triple_lift, assumption, simp add: settled_def, unfold split_beta,
        rule triple_bind [OF triple_still [OF e(1)]], rule triple_bind [OF triple_still [OF f(1)]],
        rule triple_bind [OF triple_settled_local], simp, rule triple_bind [OF triple_still [OF e(2)]],
        rule triple_bind [OF triple_still [OF f(2)]], rule conn, rule rest)
  then show ?thesis by (rule triple_pre) simp
qed

definition unaccepted :: "('c, 'k, 't) factory_locals \<times> 'w \<Rightarrow> bool" where
  "unaccepted s \<longleftrightarrow> \<not> fl_accepted (fst s)"

lemma triple_unaccepted:
  "triple unaccepted (hostE m) (\<lambda>_. unaccepted) (\<lambda>_. unaccepted)"
  "(\<And>l. fl_accepted (f l) = fl_accepted l) \<Longrightarrow> triple unaccepted (localE f) (\<lambda>_. unaccepted) (\<lambda>_. unaccepted)"
  by (auto simp: triple_def hostE_def localE_def unaccepted_def split: prod.splits sum.splits)

lemma factory_body_unaccepted: "triple unaccepted (factory_body fh dv fc limits) (\<lambda>_ _. True) (\<lambda>_. unaccepted)"
proof -
  note b = triple_bind [OF triple_unaccepted(1)] and l = triple_bind [OF triple_unaccepted(2)]
  have ses: "triple unaccepted (check_session dv p statement lock c) (\<lambda>_. unaccepted) (\<lambda>_. unaccepted)" for p statement lock c
    unfolding check_session_def
    by (rule b, rule triple_if, rule triple_raise, assumption, rule b, rule l, simp, rule b, rule b, rule triple_if, rule triple_raise,
        assumption, rule b, rule triple_if, rule triple_raise, assumption, rule b, rule l, simp, rule triple_unaccepted(1))
  show ?thesis
    unfolding factory_body_def Let_def
    by (rule triple_bind [where R = "\<lambda>_. unaccepted"], rule triple_lift, assumption, assumption, unfold split_beta,
        rule b, rule b, rule l, simp, rule b, rule b, rule b, rule l, simp, rule triple_bind [OF ses], rule b, rule b, rule triple_local, simp)
qed

lemma strict_connect_settled:
  assumes db: "pg_database dv pv" and ok: "factory_ok fh dv pv" and "strict_connect fh dv fc limits w = (x, w')"
  shows "pv_held pv w' = pv_held pv w" and "x = Inr c \<Longrightarrow> pv_pending pv w' c = None"
proof -
  obtain y l v where b: "factory_body fh dv fc limits (factory_start, w) = (y, (l, v))"
    by (cases "factory_body fh dv fc limits (factory_start, w)") auto
  let ?l = "case y of Inr _ \<Rightarrow> l | Inl e \<Rightarrow> factory_handle e l"
  have x: "x = factory_outcome ?l" "w' = factory_cleanup fh dv ?l v"
    using assms(3) b by (auto simp: strict_connect_def Let_def split: sum.splits)
  have st: "settled pv (pv_held pv w) (factory_start, w) \<and> fl_connection (fst (factory_start, w)) = None"
    by (simp add: settled_def factory_start_def)
  note t = factory_body_settled [OF db ok, of "pv_held pv w" fc limits]
  have held: "pv_held pv v = pv_held pv w"
    using tripleD_Inr [OF t st] tripleD_Inl [OF t st] b by (cases y) (fastforce simp: settled_def)+
  have q: "pv_held pv (snd (dv_rollback dv c u)) = pv_held pv u" "pv_held pv (snd (dv_close_cursor dv k u)) = pv_held pv u"
    "pv_held pv (snd (dv_close dv c u)) = pv_held pv u" "pv_held pv (snd (fh_trust_close fh t' u)) = pv_held pv u"
    "pv_pending pv (snd (fh_trust_close fh t' u)) = pv_pending pv u" for c k u t'
    using pg_databaseD(7) [OF db, of c u "fst (dv_rollback dv c u)" "snd (dv_rollback dv c u)"] pg_databaseD(8,9) [OF db] ok
    by (simp_all add: factory_ok_def still_def)
  have cl: "pv_held pv (factory_cleanup fh dv l' v) = pv_held pv v" for l' :: "('b, 'c, 'd) factory_locals"
    by (simp add: factory_cleanup_def Let_def q split: option.split)
  show "pv_held pv w' = pv_held pv w" using held cl x(2) by simp
  assume xc: "x = Inr c"
  have acc: "fl_accepted l \<and> fl_connection l = Some c"
    using xc x(1) by (cases y) (auto simp: factory_outcome_def factory_handle_def split: bool.splits option.splits if_splits)
  show "pv_pending pv w' c = None"
  proof (cases y)
    case (Inr u)
    then have "pv_pending pv v c = None" using tripleD_Inr [OF t st] b acc by (auto simp: settled_def)
    with Inr acc show ?thesis by (simp add: x(2) factory_cleanup_def Let_def q split: option.split)
  next
    case (Inl e)
    have "unaccepted (factory_start, w)" by (simp add: unaccepted_def factory_start_def)
    from tripleD_Inl [OF factory_body_unaccepted this b [unfolded Inl]] acc show ?thesis by (simp add: unaccepted_def)
  qed
qed

text \<open>The driver with the factory in front of it is a driver of the same database.\<close>

lemma strict_driver_database:
  assumes db: "pg_database dv pv" and ok: "factory_ok fh dv pv"
  shows "pg_database (strict_driver fh dv fc) pv"
proof -
  have "pg_quiet pv (strict_connect fh dv fc limits)" for limits
    unfolding pg_quiet_def using strict_connect_settled(1) [OF db ok] by (metis prod.collapse)
  moreover have "strict_connect fh dv fc limits w = (Inr c, w') \<Longrightarrow> pv_pending pv w' c = None" for limits w c w'
    using strict_connect_settled(2) [OF db ok] by blast
  ultimately show ?thesis
    using db by (simp add: pg_database_def strict_driver_def pg_executes_def pg_fetches_def pg_commits_def)
qed

end
