(* ===== verification/Credential_Stack.thy ===== *)
theory Credential_Stack
  imports Credential_Adapter Refresh_Credentials Durable_Secrets
begin

text \<open>
  The composition of the credential components, \<^verbatim>\<open>src/agent_core/credential_stack.py\<close>: a durable store
  over a backend, a credential source on the store, a refreshing provider on the source, and the
  credential gate on the provider. The clocks, the factory of attempt identifiers and the exchange
  are arguments; the provider's state is the one of the world.
\<close>

record 'w stack_clocks =
  sk_clock :: "('w, pyval) eff"
  sk_monotonic :: "'w \<Rightarrow> rat \<times> 'w"
  sk_attempt_id :: "('w, pyval) eff"

type_synonym 'w refresh_exchange = "credential_binding \<Rightarrow> string \<Rightarrow> string \<Rightarrow> int \<Rightarrow> ('w, exchange_value) eff"

definition durable_source ::
  "'w stack_clocks \<Rightarrow> credential_binding \<Rightarrow> 'w backend_ops \<Rightarrow> 'w refresh_exchange \<Rightarrow> 'w secret_source" where
  "durable_source ck b bk ex =
     \<lparr>sc_binding = b, sc_store = durable_ops bk, sc_exchange = ex, sc_attempt_id = sk_attempt_id ck\<rparr>"

text \<open>A credential source as the host of the provider. \<open>assert_available\<close> returns \<open>None\<close>.\<close>

definition source_host :: "'w stack_clocks \<Rightarrow> 'w secret_source \<Rightarrow> 'w refresh_host" where
  "source_host ck s =
     \<lparr>rh_clock = sk_clock ck, rh_monotonic = sk_monotonic ck,
      rh_available = bindE (assert_available s) (\<lambda>_. retE PNone),
      rh_refresh = (\<lambda>b minimum. bindE (refresh_access s b (PInt minimum)) (\<lambda>g. retE (Grant g)))\<rparr>"

text \<open>A refreshing provider as the credential source of the gate.\<close>

definition provider_source ::
  "'x refresh_world_scheme refresh_host \<Rightarrow> 'x refresh_world_scheme credential_source" where
  "provider_source h = (\<lambda>caps ttl known.
     bindE (snapshot h (PList (map PStr caps)) (PInt ttl) (PBool known) PNone) (\<lambda>s. retE (Some s)))"

definition build_durable_credential_bound_adapter ::
  "'x refresh_world_scheme stack_clocks \<Rightarrow> 'x refresh_world_scheme bound_adapter option \<Rightarrow> credential_binding option \<Rightarrow>
   'x refresh_world_scheme backend_ops option \<Rightarrow> 'x refresh_world_scheme refresh_exchange option \<Rightarrow> requirement_value list \<Rightarrow>
   ('x refresh_world_scheme credential_adapter \<times> refresh_provider) res" where
  "build_durable_credential_bound_adapter ck adapter binding backend exchange requirements =
     (case binding of
        None \<Rightarrow> value_error ''credential_binding_required''
      | Some b \<Rightarrow>
         (case backend of
            None \<Rightarrow> value_error ''durable_secret_backend_required''
          | Some bk \<Rightarrow>
             (case exchange of
                None \<Rightarrow> value_error ''refresh_exchange_required''
              | Some ex \<Rightarrow>
                  bindR (CredentialBoundToolAdapter adapter
                           (Some (provider_source (source_host ck (durable_source ck b bk ex)))) requirements) (\<lambda>ca.
                  Inr (ca, RefreshingCredentialProvider b True)))))"

end
