(* ===== verification/Stack_Results.thy ===== *)
theory Stack_Results
  imports Host_Results Credential_Stack
begin

text \<open>
  The properties of the strict connection factory and of the credential components composed over it:
  a checked connection, no connection left open, and the claim before the exchange from the gate down
  to the committed rows.
\<close>

section \<open>A host\<close>

text \<open>One connection at a time to a table, with a session that passes the preflight.\<close>

record stack_world = refresh_world +
  sw_table :: table_db
  sw_open :: bool

definition on_table :: "(table_db, 'a) eff \<Rightarrow> (stack_world, 'a) eff" where
  "on_table m w = (case m (sw_table w) of (x, t) \<Rightarrow> (x, w\<lparr>sw_table := t\<rparr>))"

definition the_profile :: host_profile where
  "the_profile = \<lparr>hp_hostname = ''db.example.com'', hp_host_address = ''192.0.2.1'', hp_port = 5432, hp_database = ''agent'',
     hp_login = ''agent_secret'', hp_root_certificate = ''/etc/ca.pem''\<rparr>"

definition the_factory :: connection_factory where
  "the_factory = \<lparr>fc_profile = the_profile, fc_trusted_ca_sha256 = replicate 64 (CHR ''a'')\<rparr>"

definition the_lease :: password_lease where
  "the_lease = \<lparr>pw_login = PStr ''agent_secret'', pw_database = PStr ''agent'', pw_version = PInt 1, pw_expires_at = PInt 900,
     pw_password = PStr ''s3cret''\<rparr>"

definition the_session :: pg_row where
  "the_session = Row (expected_session the_profile 5000 1000 @ [PNone, PNone, PNone])"

definition stack_driver :: "(stack_world, unit, unit) pg_driver" where
  "stack_driver = \<lparr>dv_connect = (\<lambda>t opts. raiseE (Exc RuntimeError ''no factory'')), dv_autocommit = (\<lambda>c. retE (PBool False)),
     dv_cursor = (\<lambda>c. retE ()),
     dv_execute = (\<lambda>k sql ps w. if sql = PREFLIGHT_SQL \<and> ps = []
        then (Inr (), w\<lparr>sw_table := (sw_table w)\<lparr>td_fetched := [the_session]\<rparr>\<rparr>) else on_table (table_execute k sql ps) w),
     dv_fetchone = (\<lambda>k. on_table (dv_fetchone table_driver k)),
     dv_commit = (\<lambda>c. on_table (\<lambda>t. case dv_commit table_driver c t of (x, t') \<Rightarrow> (x, t'\<lparr>td_pending := None\<rparr>))),
     dv_rollback = (\<lambda>c. on_table (dv_rollback table_driver c)), dv_close_cursor = (\<lambda>k. retE ()),
     dv_close = (\<lambda>c w. (Inr (), w\<lparr>sw_open := False\<rparr>)), dv_sqlstate = dv_sqlstate table_driver, dv_primary = dv_primary table_driver\<rparr>"

definition stack_host :: "(stack_world, unit, unit) factory_host" where
  "stack_host = \<lparr>fh_environment = retE [''PATH''], fh_homes = retE [''/root''], fh_lexists = (\<lambda>p. retE False),
     fh_snapshot_trust = (\<lambda>p sha. retE ()), fh_trust_path = (\<lambda>t. retE ''/proc/self/fd/7''), fh_trust_close = (\<lambda>t. retE ()),
     fh_password_source = retE (Lease the_lease), fh_lease_is_current = (\<lambda>v. retE (PBool True)), fh_clock = retE (Some 100),
     fh_monotonic = retE 0,
     fh_connect = (\<lambda>ps w. if sw_open w then (Inl (Exc (OtherError ''TooManyConnections'') ''''), w)
       else (Inr (), w\<lparr>sw_open := True, sw_table := (sw_table w)\<lparr>td_pending := None, td_fetched := []\<rparr>\<rparr>))\<rparr>"

definition stack_view :: "(stack_world, unit, unit) pg_view" where
  "stack_view = \<lparr>pv_held = (\<lambda>w. td_rows (sw_table w)), pv_pending = (\<lambda>w c. td_pending (sw_table w)),
     pv_fetched = (\<lambda>w k. td_fetched (sw_table w)), pv_owner = id\<rparr>"

definition open_set :: "stack_world \<Rightarrow> unit set" where
  "open_set w = (if sw_open w then {()} else {})"

lemma stack_host_simps [simp]:
  "fh_environment stack_host = retE [''PATH'']" "fh_homes stack_host = retE [''/root'']" "fh_lexists stack_host p = retE False"
  "fh_snapshot_trust stack_host p sha = retE ()" "fh_trust_path stack_host t = retE ''/proc/self/fd/7''"
  "fh_trust_close stack_host t = retE ()" "fh_password_source stack_host = retE (Lease the_lease)"
  "fh_lease_is_current stack_host v = retE (PBool True)" "fh_clock stack_host = retE (Some 100)" "fh_monotonic stack_host = retE 0"
  "fh_connect stack_host ps w = (if sw_open w then (Inl (Exc (OtherError ''TooManyConnections'') ''''), w)
     else (Inr (), w\<lparr>sw_open := True, sw_table := (sw_table w)\<lparr>td_pending := None, td_fetched := []\<rparr>\<rparr>))"
  by (simp_all add: stack_host_def)

lemma stack_driver_simps [simp]:
  "dv_connect stack_driver t opts = raiseE (Exc RuntimeError ''no factory'')"
  "dv_autocommit stack_driver c = retE (PBool False)" "dv_cursor stack_driver c = retE ()"
  "dv_execute stack_driver k sql ps w = (if sql = PREFLIGHT_SQL \<and> ps = []
     then (Inr (), w\<lparr>sw_table := (sw_table w)\<lparr>td_fetched := [the_session]\<rparr>\<rparr>) else on_table (table_execute k sql ps) w)"
  "dv_fetchone stack_driver k = on_table (dv_fetchone table_driver k)"
  "dv_commit stack_driver c = on_table (\<lambda>t. case dv_commit table_driver c t of (x, t') \<Rightarrow> (x, t'\<lparr>td_pending := None\<rparr>))"
  "dv_rollback stack_driver c = on_table (dv_rollback table_driver c)" "dv_close_cursor stack_driver k = retE ()"
  "dv_close stack_driver c w = (Inr (), w\<lparr>sw_open := False\<rparr>)"
  by (simp_all add: stack_driver_def)

lemma stack_view_simps [simp]:
  "pv_held stack_view = (\<lambda>w. td_rows (sw_table w))" "pv_pending stack_view w c = td_pending (sw_table w)"
  "pv_fetched stack_view w k = td_fetched (sw_table w)" "pv_owner stack_view k = k"
  by (simp_all add: stack_view_def)

lemma on_table_simps [simp]:
  "sw_table (snd (on_table m w)) = snd (m (sw_table w))" "fst (on_table m w) = fst (m (sw_table w))"
  "sw_open (snd (on_table m w)) = sw_open w"
  by (simp_all add: on_table_def split: prod.split)

lemma on_table_eq: "on_table m w = (x, w') \<longleftrightarrow> (\<exists>t. m (sw_table w) = (x, t) \<and> w' = w\<lparr>sw_table := t\<rparr>)"
  by (auto simp: on_table_def split: prod.split)

lemma stack_pending_eq: "pv_pending stack_view w' = pv_pending stack_view w \<longleftrightarrow> td_pending (sw_table w') = td_pending (sw_table w)"
  by (simp add: fun_eq_iff)

lemma preflight_text: "PREFLIGHT_SQL \<noteq> READ_SQL" "PREFLIGHT_SQL \<noteq> CAS_SQL"
  by (simp_all add: PREFLIGHT_SQL_def READ_SQL_def CAS_SQL_def)

lemma stack_executes: "pg_executes stack_driver stack_view"
  using table_executes preflight_text
  unfolding pg_executes_def pg_quiet_def by (auto simp: on_table_eq)

lemma stack_fetches: "pg_fetches stack_driver stack_view"
  unfolding pg_fetches_def by (auto simp: stack_pending_eq on_table_eq split: list.splits)

lemma stack_commits: "pg_commits stack_driver stack_view"
  unfolding pg_commits_def by (auto simp: pg_applied_def on_table_eq split: option.splits)

lemma stack_database: "pg_database stack_driver stack_view"
  unfolding pg_database_def pg_quiet_def
  using stack_executes stack_fetches stack_commits by (auto simp: stack_pending_eq)

lemma stack_factory_ok: "factory_ok stack_host stack_driver stack_view"
  unfolding factory_ok_def still_def by (auto simp: stack_pending_eq on_table_eq split: if_splits)

lemma stack_live: "host_live open_set stack_host" "driver_live open_set stack_driver"
  unfolding host_live_def driver_live_def same_live_def opens_def by (auto simp: open_set_def)

section \<open>A run of the factory\<close>

definition the_limits :: pydict where
  "the_limits = connect_limits 5 (pc_options the_config)"

definition stack_start :: stack_world where
  "stack_start = \<lparr>rw_provider = RefreshingCredentialProvider the_binding True, sw_table = demo_db, sw_open = False\<rparr>"

lemma limit_chars:
  "is_digit CHR ''5''" "is_digit CHR ''0''" "is_digit CHR ''1''" "\<not> is_digit CHR '' ''" "\<not> is_digit CHR ''-''"
  "code CHR ''5'' = 53" "code CHR ''0'' = 48" "code CHR ''1'' = 49"
  by code_simp+

lemma the_limits_ok: "check_limits the_limits = Inr (5000, 1000)"
proof -
  have "parse_limits ''-c statement_timeout=5000 -c lock_timeout=1000 -c idle_in_transaction_session_timeout=5000'' = Some (5000, 1000, 5000)"
    by (simp add: parse_limits_def take_limit_def starts_with_def strip_prefix_def limit_chars)
  then show ?thesis
    by (simp add: check_limits_def the_limits_def connect_limits_def the_config_def insert_commute dict_get_def)
qed

lemma the_session_ok: "session_ok the_profile 5000 1000 the_session"
  by code_simp

lemma the_lease_ok: "validate_lease (Lease the_lease) the_profile 100 = Inr the_lease"
  by (simp add: validate_lease_def the_lease_def the_profile_def MAX_BIGINT_def lease_password_ok_def)

lemma stack_clean: "assert_clean_environment stack_host = retE ()"
  by (intro ext) (simp add: assert_clean_environment_def bindE_apply ambient_files_def ambient_key_def starts_with_def)

lemma the_lease_expires: "lease_expires the_lease = 900"
  by (simp add: lease_expires_def the_lease_def)

lemma lease_steps_demo:
  "obtain_lease stack_host the_profile = retE (the_lease, 100, 0)" "recheck_lease stack_host the_profile the_lease 100 0 = retE ()"
  by (intro ext, simp add: obtain_lease_def assert_current_def recheck_lease_def bindE_apply the_lease_ok the_lease_expires)+

lemma check_session_demo:
  "\<exists>l' w'. check_session stack_driver the_profile 5000 1000 () (l, w) = (Inr (), (l', w')) \<and> fl_connection l' = fl_connection l"
  using the_session_ok by (simp add: check_session_def bindE_apply hostE_def localE_def on_table_def the_session_def)

lemma strict_connect_demo: "\<exists>w'. strict_connect stack_host stack_driver the_factory the_limits stack_start = (Inr (), w')"
proof -
  let ?w = "stack_start\<lparr>sw_open := True, sw_table := (sw_table stack_start)\<lparr>td_pending := None, td_fetched := []\<rparr>\<rparr>"
  let ?l = "\<lparr>fl_connection = Some (), fl_cursor = None, fl_trust = Some (), fl_accepted = False, fl_interrupted = None\<rparr>"
  obtain l' w' where "check_session stack_driver the_profile 5000 1000 () (?l, ?w) = (Inr (), (l', w'))" "fl_connection l' = Some ()"
    using check_session_demo [of ?l ?w] by auto
  then have "factory_body stack_host stack_driver the_factory the_limits (factory_start, stack_start) =
      (Inr (), (l'\<lparr>fl_trust := None, fl_accepted := True\<rparr>, w'))"
    by (simp add: factory_body_def the_limits_ok stack_clean lease_steps_demo bindE_apply hostE_def localE_def Let_def the_factory_def
        factory_start_def) (simp add: stack_start_def)
  with \<open>fl_connection l' = Some ()\<close> show ?thesis by (simp add: strict_connect_def factory_outcome_def)
qed

section \<open>Properties\<close>

text \<open>C32. A connection that the strict factory hands over is the end of one chain of calls, without a gap
  from the world the factory was called in to the world it returns in: the limits are in range and the environment
  clean, the certificate was sealed, the password source gave a lease that fits the profile at the clock's reading
  and is current, the connection was opened with the parameters of the profile and the lease's password, and then on
  this very connection, outside autocommit, one cursor executed the preflight and answered exactly one row,
  which is the expected session; the cursor was closed and the transaction committed; and last the
  lease still fitted at a clock that had not gone back, had not run out by the monotonic clock, and was
  still current.\<close>

theorem connection_was_checked:
  assumes "strict_connect fh dv fc limits w = (Inr c, w')"
  shows "opened_checked fh dv fc limits c w w'"
proof -
  obtain x l v where b: "factory_body fh dv fc limits (factory_start, w) = (x, (l, v))"
    by (cases "factory_body fh dv fc limits (factory_start, w)") auto
  let ?l = "case x of Inr _ \<Rightarrow> l | Inl e \<Rightarrow> factory_handle e l"
  have out: "factory_outcome ?l = Inr c" "w' = factory_cleanup fh dv ?l v"
    using assms b by (auto simp: strict_connect_def Let_def split: sum.splits)
  then have acc: "fl_accepted l" "fl_connection l = Some c"
    by (cases x; auto simp: factory_outcome_def factory_handle_def split: bool.splits option.splits if_splits)+
  show ?thesis
  proof (cases x)
    case (Inl e)
    have "unaccepted (factory_start, w)" by (simp add: unaccepted_def factory_start_def)
    from tripleD_Inl [OF factory_body_unaccepted this b [unfolded Inl]] acc show ?thesis by (simp add: unaccepted_def)
  next
    case (Inr u)
    from factory_body_Inr [OF b [unfolded Inr]] acc(2)
    have opened: "opened_checked fh dv fc limits c w v" and "fl_trust l = None" by auto
    then have "w' = v" using out(2) acc Inr by (simp add: factory_cleanup_def)
    with opened show ?thesis by simp
  qed
qed

lemma the_factory_profile: "fc_profile the_factory = the_profile"
  by (simp add: the_factory_def)

theorem connection_was_checked_witness:
  "\<exists>w'. strict_connect stack_host stack_driver the_factory the_limits stack_start = (Inr (), w') \<and>
   (\<exists>w5 w6. session_checked stack_driver the_profile 5000 1000 () w5 w6) \<and> lease_fits the_profile 100 the_lease"
proof -
  obtain w' where s: "strict_connect stack_host stack_driver the_factory the_limits stack_start = (Inr (), w')"
    using strict_connect_demo by blast
  from connection_was_checked [OF this] obtain statement lock lease now anchor w2 w3 w5 w6 where
    "check_limits the_limits = Inr (statement, lock)" "lease_taken stack_host the_profile lease now anchor w2 w3"
    "session_checked stack_driver the_profile statement lock () w5 w6"
    unfolding opened_checked_def the_factory_profile by blast
  then show ?thesis using s by (auto simp: the_limits_ok lease_taken_def)
qed

text \<open>C33. No operation of the backend leaves a connection open: whatever the outcome, the connections that
  are open afterwards are those that were open before, the factory's own failures included.\<close>

theorem backend_leaves_no_connection:
  assumes "host_live live fh" and "driver_live live dv"
  shows "live (snd (pg_operate (strict_driver fh dv fc) cfg key request w)) = live w"
proof (rule pg_operate_live)
  show "driver_live live (strict_driver fh dv fc)" using assms(2) by (simp add: driver_live_def strict_driver_def)
  show "opens live (dv_connect (strict_driver fh dv fc) t opts)" for t opts
    by (simp add: strict_driver_def strict_connect_opens [OF assms])
qed

theorem backend_leaves_no_connection_witness:
  "open_set (snd (pg_operate (strict_driver stack_host stack_driver the_factory) the_config (PStr (binding_key the_binding)) None stack_start)) = {}"
  using backend_leaves_no_connection [OF stack_live] by (simp add: open_set_def stack_start_def)

text \<open>An exchange behind the test that the committed row holds the claim of this attempt with this secret;
  without it, the process would end.\<close>

definition exchange_after_claim ::
  "('w \<Rightarrow> credential_binding \<Rightarrow> secret_record option) \<Rightarrow> 'w refresh_exchange \<Rightarrow> 'w refresh_exchange" where
  "exchange_after_claim stored ex = (\<lambda>b secret attempt m w.
     if secret_store.claim_recorded stored b secret attempt w then ex b secret attempt m w
     else (Inl (Exc SystemExit ''attempt not claimed''), w))"

lemma guard_durable_source:
  assumes "secret_store (durable_ops bk) stored"
  shows "secret_store.guard_exchange stored (durable_source ck b bk ex) = durable_source ck b bk (exchange_after_claim stored ex)"
  by (simp add: secret_store.guard_exchange_def [OF assms] durable_source_def exchange_after_claim_def cong: if_cong)

lemma source_host_guarded:
  assumes "secret_store (durable_ops bk) stored"
  shows "source_host ck (durable_source ck b bk (exchange_after_claim stored ex)) = source_host ck (durable_source ck b bk ex)"
proof -
  let ?s = "durable_source ck b bk ex" and ?g = "durable_source ck b bk (exchange_after_claim stored ex)"
  have "refresh_access ?g b' m = refresh_access ?s b' m" for b' m
    using secret_store.refresh_access_guarded [OF assms, of ?s b' m] guard_durable_source [OF assms, of ck b ex]
    by (auto simp: fun_eq_iff durable_source_def)
  moreover have "assert_available ?g = assert_available ?s"
    by (simp add: assert_available_def source_read_def durable_source_def fun_eq_iff)
  ultimately show ?thesis by (simp add: source_host_def)
qed

text \<open>C30. The composed credential stack over PostgreSQL contacts the credential provider only when the
  committed row holds the claim of this attempt with the secret that is sent: an exchange that ends
  the process otherwise makes the same adapter.\<close>

theorem stack_claims_before_exchange:
  assumes "pg_database dv pv" and "factory_ok fh dv pv"
  shows "build_durable_credential_bound_adapter ck adapter binding (Some (pg_ops (strict_driver fh dv fc) cfg))
      (Some (exchange_after_claim (durable_stored (pv_held pv)) ex)) requirements =
    build_durable_credential_bound_adapter ck adapter binding (Some (pg_ops (strict_driver fh dv fc) cfg)) (Some ex) requirements"
  using source_host_guarded [OF postgres_secret_store [OF strict_driver_database [OF assms]]]
  by (simp add: build_durable_credential_bound_adapter_def split: option.split)

definition stack_inner :: "stack_world bound_adapter" where
  "stack_inner = \<lparr>ba_name = ''git'',
     ba_capabilities = [\<lparr>cap_action = ''git.read'', cap_access = ''read'', cap_required_permissions = [],
       cap_supports_dry_run = True, cap_description = []\<rparr>],
     ba_actions = [(''git.read'', (\<lambda>args lc. bindE (liftE (require_credential_snapshot lc)) (\<lambda>snap. retE (Plain AV_Other))))]\<rparr>"

definition stack_requirement :: credential_requirement where
  "stack_requirement = \<lparr>rq_action = ''git.read'', rq_capabilities = [''read''], rq_minimum_ttl_seconds = 300,
     rq_require_known_expiry = True\<rparr>"

definition stack_clocks0 :: "stack_world stack_clocks" where
  "stack_clocks0 = \<lparr>sk_clock = retE (PInt 100), sk_monotonic = (\<lambda>w. (0, w)), sk_attempt_id = retE (PStr ''a1'')\<rparr>"

definition stack_exchange :: "stack_world refresh_exchange" where
  "stack_exchange = (\<lambda>b secret attempt m. retE (Exchanged (Grant good_grant) (PStr ''new'')))"

theorem stack_claims_before_exchange_witness:
  "\<exists>ca. build_durable_credential_bound_adapter stack_clocks0 (Some stack_inner) (Some the_binding)
      (Some (pg_ops (strict_driver stack_host stack_driver the_factory) the_config))
      (Some (exchange_after_claim (durable_stored (\<lambda>w. td_rows (sw_table w))) stack_exchange)) [Requirement stack_requirement] =
        Inr (ca, RefreshingCredentialProvider the_binding True) \<and>
    build_durable_credential_bound_adapter stack_clocks0 (Some stack_inner) (Some the_binding)
      (Some (pg_ops (strict_driver stack_host stack_driver the_factory) the_config)) (Some stack_exchange) [Requirement stack_requirement] =
        Inr (ca, RefreshingCredentialProvider the_binding True)"
proof -
  let ?build = "\<lambda>ex. build_durable_credential_bound_adapter stack_clocks0 (Some stack_inner) (Some the_binding)
      (Some (pg_ops (strict_driver stack_host stack_driver the_factory) the_config)) (Some ex) [Requirement stack_requirement]"
  obtain ca where "?build stack_exchange = Inr (ca, RefreshingCredentialProvider the_binding True)"
    by (simp add: build_durable_credential_bound_adapter_def CredentialBoundToolAdapter_def stack_inner_def stack_requirement_def
        dict_update_def same_keys_def)
  with stack_claims_before_exchange [OF stack_database stack_factory_ok, of stack_clocks0 "Some stack_inner" "Some the_binding"
      the_factory the_config stack_exchange "[Requirement stack_requirement]"] show ?thesis by simp
qed

end
