(* ===== verification/Hosted_Transport.thy ===== *)
theory Hosted_Transport
  imports Complex_Main Json_Text Hosted_Queue Agent_Runner
begin

text \<open>
  The transport of the hosted clients, \<^verbatim>\<open>src/agent_core/hosted_transport.py\<close>: one POST of a JSON body to
  an edge function, with the credentials in the headers only, and the router that sends the exact
  claim to a function of its own. The requester, or for the default requester the HTTP client, is an
  argument; so is the check of a bracketed host in \<open>urlparse\<close>, which depends on the Python version.
\<close>

section \<open>The request text\<close>

text \<open>\<open>json.dumps(x, ensure_ascii=False, separators=(",", ":"))\<close>: the order of a dictionary is kept.\<close>

fun json_compact :: "pyval \<Rightarrow> string" where
  "json_compact PNone = ''null''"
| "json_compact (PBool b) = (if b then ''true'' else ''false'')"
| "json_compact (PInt i) = int_str i"
| "json_compact (PStr s) = json_string s"
| "json_compact (PList xs) = ''['' @ join '','' (map json_compact xs) @ '']''"
| "json_compact (PDict d) = ''{'' @ join '','' (map (\<lambda>p. json_string (fst p) @ '':'' @ json_compact (snd p)) d) @ ''}''"

section \<open>The project address\<close>

text \<open>\<open>urlparse\<close> of a text without control characters and blanks; \<open>params\<close> is cut off the path.\<close>

record url_parts =
  up_scheme :: string
  up_netloc :: string
  up_path :: string
  up_query :: string
  up_fragment :: string

definition cut_at :: "char \<Rightarrow> string \<Rightarrow> string \<times> string" where
  "cut_at c s = (takeWhile (\<lambda>x. x \<noteq> c) s, drop 1 (dropWhile (\<lambda>x. x \<noteq> c) s))"

definition url_scheme :: "string \<Rightarrow> string \<times> string" where
  "url_scheme url =
     (case cut_at (CHR '':'') url of (s, rest) \<Rightarrow>
        if CHR '':'' \<in> set url \<and> s \<noteq> [] \<and> (is_lower (hd s) \<or> is_upper (hd s)) \<and>
           list_all (\<lambda>c. ascii_alnum c \<or> c \<in> {CHR ''+'', CHR ''-'', CHR ''.''}) s
        then (lower s, rest) else ([], url))"

definition url_netloc :: "string \<Rightarrow> string \<times> string" where
  "url_netloc url =
     (if starts_with ''//'' url
      then (let s = drop 2 url; stop = (\<lambda>c. c \<notin> {CHR ''/'', CHR ''?'', CHR ''#''}) in (takeWhile stop s, dropWhile stop s))
      else ([], url))"

definition drop_params :: "string \<Rightarrow> string" where
  "drop_params path =
     (let tail = rev (takeWhile (\<lambda>c. c \<noteq> CHR ''/'') (rev path)) in
      take (length path - length tail) path @ takeWhile (\<lambda>c. c \<noteq> CHR '';'') tail)"

definition urlparse :: "(string \<Rightarrow> unit res) \<Rightarrow> string \<Rightarrow> url_parts res" where
  "urlparse bracket_check url =
     (case url_scheme url of (scheme, rest) \<Rightarrow>
      case url_netloc rest of (netloc, rest') \<Rightarrow>
        if (CHR ''['' \<in> set netloc) \<noteq> (CHR '']'' \<in> set netloc) then value_error ''Invalid IPv6 URL''
        else bindR (if CHR ''['' \<in> set netloc then bracket_check netloc else Inr ()) (\<lambda>_.
          case cut_at (CHR ''#'') rest' of (before, fragment) \<Rightarrow>
          case cut_at (CHR ''?'') before of (path, query) \<Rightarrow>
            Inr \<lparr>up_scheme = scheme, up_netloc = netloc, up_path = (if scheme = ''https'' then drop_params path else path),
                 up_query = query, up_fragment = fragment\<rparr>))"

text \<open>\<open>hostname\<close> of a network location without \<open>@\<close>.\<close>

definition url_hostname :: "url_parts \<Rightarrow> string" where
  "url_hostname u =
     (if CHR ''['' \<in> set (up_netloc u) then fst (cut_at (CHR '']'') (snd (cut_at (CHR ''['') (up_netloc u))))
      else fst (cut_at (CHR '':'') (up_netloc u)))"

section \<open>The edge transport\<close>

type_synonym headers = "(string \<times> string) list"
type_synonym 'w edge_requester = "string \<Rightarrow> headers \<Rightarrow> nat list \<Rightarrow> rat \<Rightarrow> ('w, pyval) eff"

record 'w edge_transport =
  et_project_url :: string
  et_publishable_key :: string
  et_bearer_token :: string
  et_function_slug :: string
  et_timeout_seconds :: rat
  et_requester :: "'w edge_requester"

text \<open>A timeout: a number that a float can hold, an infinity or not-a-number, or another object.\<close>

datatype timeout_value = Seconds rat | NotFinite | NotNumber

definition function_slug_ok :: "string \<Rightarrow> bool" where
  "function_slug_ok s = ident_match ascii_alnum (\<lambda>c. ascii_alnum c \<or> c = CHR ''_'' \<or> c = CHR ''-'') 127 s"

definition check_project_url :: "(string \<Rightarrow> unit res) \<Rightarrow> pyval \<Rightarrow> url_parts res" where
  "check_project_url bracket_check v =
     (case v of
        PStr url \<Rightarrow>
          if list_ex (\<lambda>c. code c < 33) url then value_error ''https_project_url_required''
          else bindR (urlparse bracket_check url) (\<lambda>u.
            if CHR ''@'' \<in> set (up_netloc u) \<or> url_hostname u = [] then value_error ''project_url_credentials_or_host_invalid''
            else if up_scheme u \<noteq> ''https'' \<or> up_netloc u = [] \<or> up_query u \<noteq> [] \<or> up_fragment u \<noteq> []
            then value_error ''https_project_url_required''
            else if up_path u \<notin> {[], ''/''} then value_error ''project_url_must_not_include_path''
            else Inr u)
      | _ \<Rightarrow> value_error ''https_project_url_required'')"

definition SupabaseEdgeTransport ::
  "(string \<Rightarrow> unit res) \<Rightarrow> 'w edge_requester \<Rightarrow> pyval \<Rightarrow> string \<Rightarrow> string \<Rightarrow> string \<Rightarrow> timeout_value \<Rightarrow> 'w edge_transport res" where
  "SupabaseEdgeTransport bracket_check requester project_url key token slug timeout =
     bindR (check_project_url bracket_check project_url) (\<lambda>u.
     if blank key then value_error ''publishable_key_required''
     else if blank token then value_error ''bearer_token_required''
     else if list_ex (\<lambda>c. code c < 33 \<or> 126 < code c) (key @ token) then value_error ''invalid_credential_header''
     else if \<not> function_slug_ok slug then value_error ''invalid_function_slug''
     else case timeout of
            Seconds s \<Rightarrow>
              if s \<le> 0 then value_error ''positive_timeout_required''
              else Inr \<lparr>et_project_url = up_scheme u @ ''://'' @ up_netloc u, et_publishable_key = key, et_bearer_token = token,
                        et_function_slug = slug, et_timeout_seconds = s, et_requester = requester\<rparr>
          | _ \<Rightarrow> value_error ''positive_timeout_required'')"

definition endpoint :: "'w edge_transport \<Rightarrow> string" where
  "endpoint t = et_project_url t @ ''/functions/v1/'' @ et_function_slug t"

definition edge_repr :: "'w edge_transport \<Rightarrow> string" where
  "edge_repr t = ''SupabaseEdgeTransport(project_url='' @ py_repr (PStr (et_project_url t)) @ '', function_slug='' @
     py_repr (PStr (et_function_slug t)) @ '', credentials='' @ [CHR 0x27] @ ''<redacted>'' @ [CHR 0x27] @ '')''"

section \<open>The default requester\<close>

text \<open>
  What the HTTP client gives: a body (\<open>None\<close> when it is not UTF-8), or an error status with the text of
  its body or the exception of reading it.
\<close>

datatype http_reply = HttpBody "string option" | HttpFailure int "string res"

definition OS_ERRORS :: "string list" where
  "OS_ERRORS = [''OSError'', ''URLError'', ''TimeoutError'', ''BlockingIOError'', ''ChildProcessError'', ''ConnectionError'',
     ''BrokenPipeError'', ''ConnectionAbortedError'', ''ConnectionRefusedError'', ''ConnectionResetError'', ''RemoteDisconnected'',
     ''FileExistsError'', ''FileNotFoundError'', ''InterruptedError'', ''IsADirectoryError'', ''NotADirectoryError'',
     ''PermissionError'', ''ProcessLookupError'', ''gaierror'', ''herror'', ''SSLError'', ''SSLCertVerificationError'']"

definition json_object :: "string \<Rightarrow> pyval res" where
  "json_object raw = (if raw = [] then Inr (PDict []) else json_loads raw)"

definition failure_payload :: "int \<Rightarrow> string \<Rightarrow> pydict" where
  "failure_payload status raw =
     dict_update (case json_object raw of Inr (PDict d) \<Rightarrow> d | _ \<Rightarrow> [(''error'', PStr (''HTTP '' @ int_str status))])
       [(''success'', PBool False), (''backend_status'', PInt status)]"

definition default_requester :: "(string \<Rightarrow> headers \<Rightarrow> nat list \<Rightarrow> rat \<Rightarrow> ('w, http_reply) eff) \<Rightarrow> 'w edge_requester" where
  "default_requester http url headers body timeout w =
     (case http url headers body timeout w of
        (Inl (Exc c m), w') \<Rightarrow>
          (if exc_name c \<in> set OS_ERRORS then Inl (Exc HostedTransportError (''edge_transport_failed:'' @ exc_name c)) else Inl (Exc c m), w')
      | (Inr (HttpFailure status raw), w') \<Rightarrow> (bindR raw (\<lambda>s. Inr (PDict (failure_payload status s))), w')
      | (Inr (HttpBody None), w') \<Rightarrow> (Inl (Exc HostedTransportError ''edge_response_invalid_json''), w')
      | (Inr (HttpBody (Some raw)), w') \<Rightarrow>
          (case json_object raw of
             Inl _ \<Rightarrow> (Inl (Exc HostedTransportError ''edge_response_invalid_json''), w')
           | Inr (PDict d) \<Rightarrow> (Inr (PDict d), w')
           | Inr _ \<Rightarrow> (Inl (Exc HostedTransportError ''edge_response_object_required''), w')))"

section \<open>A call\<close>

definition contains_text :: "'w edge_transport \<Rightarrow> string \<Rightarrow> bool" where
  "contains_text t s \<longleftrightarrow> substring (et_publishable_key t) s \<or> substring (et_bearer_token t) s"

fun contains_credentials :: "'w edge_transport \<Rightarrow> pyval \<Rightarrow> bool" where
  "contains_credentials t (PStr s) = contains_text t s"
| "contains_credentials t (PDict d) = list_ex (\<lambda>p. contains_text t (fst p) \<or> contains_credentials t (snd p)) d"
| "contains_credentials t (PList xs) = list_ex (contains_credentials t) xs"
| "contains_credentials t _ = False"

definition edge_headers :: "'w edge_transport \<Rightarrow> headers" where
  "edge_headers t =
     [(''Accept'', ''application/json''), (''Content-Type'', ''application/json''), (''apikey'', et_publishable_key t),
      (''Authorization'', ''Bearer '' @ et_bearer_token t), (''User-Agent'', ''keirin-ai-hosted-agent/1'')]"

definition edge_request :: "'w edge_transport \<Rightarrow> nat list \<Rightarrow> ('w, pyval) eff" where
  "edge_request t body =
     bindE (tryE (et_requester t (endpoint t) (edge_headers t) body (et_timeout_seconds t))
              (\<lambda>e. if catches Exception e then raiseE (Exc HostedTransportError ''edge_transport_failed'') else raiseE e)) (\<lambda>response.
     case response of
       PDict r \<Rightarrow>
         if contains_credentials t (PDict r) then raiseE (Exc HostedTransportError ''credentials_forbidden_in_response'')
         else retE (PDict r)
     | _ \<Rightarrow> raiseE (Exc HostedTransportError ''edge_response_object_required''))"

definition edge_call :: "'w edge_transport \<Rightarrow> pyval \<Rightarrow> pyval \<Rightarrow> ('w, pyval) eff" where
  "edge_call t mode payload =
     (case mode of
        PStr m \<Rightarrow>
          if blank m then raiseE (Exc ValueError ''hosted_mode_required'')
          else (case payload of
            PDict d \<Rightarrow>
              if ''mode'' \<in> set (map fst d) then raiseE (Exc ValueError ''payload_must_not_override_mode'')
              else let body = utf8 (json_compact (PDict ((''mode'', PStr (strip m)) # d))) in
                   if contains_credentials t (PDict ((''mode'', PStr m) # d))
                   then raiseE (Exc ValueError ''credentials_forbidden_in_payload'')
                   else edge_request t body
          | _ \<Rightarrow> raiseE (Exc ValueError ''hosted_payload_must_be_object''))
      | _ \<Rightarrow> raiseE (Exc ValueError ''hosted_mode_required''))"

text \<open>A transport as the hosted clients use it.\<close>

definition edge_client :: "'w edge_transport \<Rightarrow> 'w transport" where
  "edge_client t = (\<lambda>mode payload. edge_call t (PStr mode) (PDict payload))"

section \<open>The router of exact claims\<close>

record 'w exact_routing =
  xr_default :: "'w edge_transport"
  xr_exact :: "'w edge_transport"

definition ExactClaimRoutingTransport :: "'w edge_transport option \<Rightarrow> 'w edge_transport option \<Rightarrow> 'w exact_routing res" where
  "ExactClaimRoutingTransport default_transport exact =
     (case default_transport of
        None \<Rightarrow> Inl (Exc TypeError ''default_transport_required'')
      | Some d \<Rightarrow>
         (case exact of
            None \<Rightarrow> Inl (Exc TypeError ''exact_claim_transport_required'')
          | Some x \<Rightarrow>
              if et_function_slug d = et_function_slug x then value_error ''exact_claim_transport_must_be_separate''
              else Inr \<lparr>xr_default = d, xr_exact = x\<rparr>))"

definition route_call :: "'w exact_routing \<Rightarrow> pyval \<Rightarrow> pyval \<Rightarrow> ('w, pyval) eff" where
  "route_call r mode payload =
     (if mode = PStr ''queue_claim_task'' then edge_call (xr_exact r) mode payload else edge_call (xr_default r) mode payload)"

definition route_client :: "'w exact_routing \<Rightarrow> 'w transport" where
  "route_client r = (\<lambda>mode payload. route_call r (PStr mode) (PDict payload))"

end
