(* ===== verification/Transport_Results.thy ===== *)
theory Transport_Results
  imports Hosted_Transport Hosted_Results
begin

text \<open>
  The properties of the edge transport: the credentials stay in the headers, a failure is one of a
  fixed list and is not retried, and only the exact claim goes to the exact-claim function.
\<close>

section \<open>Text\<close>

lemma substring_iff: "substring n s \<longleftrightarrow> (\<exists>a b. s = a @ n @ b)"
proof (induction s)
  case (Cons c cs)
  have "take (length n) (c # cs) = n \<longleftrightarrow> (\<exists>b. c # cs = n @ b)" by (metis append_eq_conv_conj)
  moreover have "(\<exists>a b. c # cs = a @ n @ b) \<longleftrightarrow> (\<exists>b. c # cs = n @ b) \<or> (\<exists>a b. cs = a @ n @ b)"
    by (metis (no_types, opaque_lifting) append_Cons append_Nil list.exhaust list.inject)
  ultimately show ?case using Cons by simp
qed simp

lemma strip_inside: "\<exists>a b. s = a @ strip s @ b"
proof -
  let ?t = "dropWhile is_space s"
  have "s = takeWhile is_space s @ ?t" by simp
  moreover have "?t = rev (dropWhile is_space (rev ?t)) @ rev (takeWhile is_space (rev ?t))"
    by (metis rev_append rev_rev_ident takeWhile_dropWhile_id)
  ultimately show ?thesis unfolding strip_def by metis
qed

lemma substring_strip: "substring n (strip s) \<Longrightarrow> substring n s"
  using strip_inside [of s] by (auto simp: substring_iff) (metis append.assoc)

section \<open>Isolation\<close>

text \<open>A requester that ends the process when it is not called over https, with the fixed headers, and with a
  body whose keys and strings hold no credential.\<close>

definition isolated :: "'w edge_transport \<Rightarrow> 'w edge_transport" where
  "isolated t = t\<lparr>et_requester := (\<lambda>url headers body timeout.
     if starts_with ''https://'' url \<and> headers = edge_headers t \<and>
        (\<exists>d. body = utf8 (json_compact (PDict d)) \<and> \<not> contains_credentials t (PDict d))
     then et_requester t url headers body timeout else raiseE (Exc SystemExit ''credential outside the headers''))\<rparr>"

definition EDGE_ERRORS :: "exc list" where
  "EDGE_ERRORS =
     [Exc ValueError ''hosted_mode_required'', Exc ValueError ''hosted_payload_must_be_object'',
      Exc ValueError ''payload_must_not_override_mode'', Exc ValueError ''credentials_forbidden_in_payload'',
      Exc HostedTransportError ''edge_transport_failed'', Exc HostedTransportError ''edge_response_object_required'',
      Exc HostedTransportError ''credentials_forbidden_in_response'']"

lemma isolated_simps [simp]:
  "et_publishable_key (isolated t) = et_publishable_key t" "et_bearer_token (isolated t) = et_bearer_token t"
  "endpoint (isolated t) = endpoint t" "edge_headers (isolated t) = edge_headers t"
  "et_timeout_seconds (isolated t) = et_timeout_seconds t" "contains_text (isolated t) = contains_text t"
  by (simp_all add: isolated_def endpoint_def edge_headers_def contains_text_def fun_eq_iff)

lemma isolated_contains: "contains_credentials (isolated t) = contains_credentials t"
proof
  show "contains_credentials (isolated t) v = contains_credentials t v" for v
    by (induction t v rule: contains_credentials.induct) (simp_all cong: list_ex_cong)
qed

lemma isolated_request:
  assumes "starts_with ''https://'' (endpoint t)" and "body = utf8 (json_compact (PDict d))" and "\<not> contains_credentials t (PDict d)"
  shows "edge_request (isolated t) body = edge_request t body"
proof -
  have "et_requester (isolated t) (endpoint t) (edge_headers t) body (et_timeout_seconds t) =
      et_requester t (endpoint t) (edge_headers t) body (et_timeout_seconds t)"
    using assms by (auto simp: isolated_def)
  then show ?thesis unfolding edge_request_def isolated_contains isolated_simps by simp
qed

lemma isolated_call:
  assumes "starts_with ''https://'' (endpoint t)"
  shows "edge_call (isolated t) mode payload = edge_call t mode payload"
proof -
  have "edge_request (isolated t) (utf8 (json_compact (PDict ((''mode'', PStr (strip m)) # d)))) =
      edge_request t (utf8 (json_compact (PDict ((''mode'', PStr (strip m)) # d))))"
    if "\<not> contains_credentials t (PDict ((''mode'', PStr m) # d))" for m d
    by (rule isolated_request [OF assms refl]) (use that substring_strip in \<open>auto simp: contains_text_def\<close>)
  then show ?thesis
    unfolding edge_call_def Let_def isolated_contains by (simp del: contains_credentials.simps split: pyval.split)
qed

lemma edge_errors_caught: "e \<in> set EDGE_ERRORS \<Longrightarrow> catches Exception e"
  by (auto simp: EDGE_ERRORS_def catches_def)

lemma transport_errors_listed:
  "Exc HostedTransportError ''edge_transport_failed'' \<in> set EDGE_ERRORS"
  "Exc HostedTransportError ''edge_response_object_required'' \<in> set EDGE_ERRORS"
  "Exc HostedTransportError ''credentials_forbidden_in_response'' \<in> set EDGE_ERRORS"
  by (simp_all add: EDGE_ERRORS_def)

lemma edge_request_cases:
  assumes "edge_request t body w = (x, w')"
  shows "w' = snd (et_requester t (endpoint t) (edge_headers t) body (et_timeout_seconds t) w)"
    and "case x of Inr v \<Rightarrow> \<not> contains_credentials t v | Inl e \<Rightarrow> catches Exception e = (e \<in> set EDGE_ERRORS)"
proof -
  obtain y u where r: "et_requester t (endpoint t) (edge_headers t) body (et_timeout_seconds t) w = (y, u)"
    by (cases "et_requester t (endpoint t) (edge_headers t) body (et_timeout_seconds t) w")
  show "w' = snd (et_requester t (endpoint t) (edge_headers t) body (et_timeout_seconds t) w)"
    using assms r by (auto simp: edge_request_def bindE_apply tryE_apply split: sum.splits pyval.splits if_splits)
  show "case x of Inr v \<Rightarrow> \<not> contains_credentials t v | Inl e \<Rightarrow> catches Exception e = (e \<in> set EDGE_ERRORS)"
  proof (cases y)
    case (Inl e)
    with assms r show ?thesis
      by (auto simp: edge_request_def bindE_apply tryE_apply transport_errors_listed edge_errors_caught split: if_splits)
  next
    case (Inr v)
    with assms r show ?thesis
      by (auto simp: edge_request_def bindE_apply tryE_apply transport_errors_listed edge_errors_caught simp del: contains_credentials.simps
          split: pyval.splits if_splits)
  qed
qed

lemma edge_call_cases:
  "(\<exists>e. e \<in> set EDGE_ERRORS \<and> edge_call t mode payload w = (Inl e, w)) \<or> (\<exists>body. edge_call t mode payload w = edge_request t body w)"
  by (auto simp: edge_call_def EDGE_ERRORS_def Let_def simp del: contains_credentials.simps split: pyval.split)

lemma constructed_endpoint:
  assumes "SupabaseEdgeTransport bc req url key token slug to = Inr t"
  shows "starts_with ''https://'' (endpoint t)"
  using assms
  by (auto simp: SupabaseEdgeTransport_def check_project_url_def bindR_eq_Inr endpoint_def starts_with_def
      split: pyval.splits if_splits timeout_value.splits)

section \<open>Properties\<close>

text \<open>C35. A constructed transport keeps its credentials in the headers: it posts over https only, with a body
  whose keys and strings hold no credential, at most once per call; a result holds no credential, and
  every exception of the class \<open>Exception\<close> is one of a fixed list.\<close>

theorem edge_transport_is_isolated:
  assumes "SupabaseEdgeTransport bc req url key token slug to = Inr t"
  shows "edge_call (isolated t) mode payload = edge_call t mode payload \<and>
    (case fst (edge_call t mode payload w) of Inr v \<Rightarrow> \<not> contains_credentials t v
     | Inl e \<Rightarrow> catches Exception e = (e \<in> set EDGE_ERRORS)) \<and>
    snd (edge_call t mode payload w) \<in>
      insert w (range (\<lambda>body. snd (et_requester t (endpoint t) (edge_headers t) body (et_timeout_seconds t) w)))"
proof (intro conjI)
  show "edge_call (isolated t) mode payload = edge_call t mode payload"
    by (rule isolated_call [OF constructed_endpoint [OF assms]])
  consider e where "e \<in> set EDGE_ERRORS" "edge_call t mode payload w = (Inl e, w)"
    | body where "edge_call t mode payload w = edge_request t body w"
    using edge_call_cases [of t mode payload w] by blast
  then have "(case fst (edge_call t mode payload w) of Inr v \<Rightarrow> \<not> contains_credentials t v
     | Inl e \<Rightarrow> catches Exception e = (e \<in> set EDGE_ERRORS)) \<and>
    snd (edge_call t mode payload w) \<in>
      insert w (range (\<lambda>body. snd (et_requester t (endpoint t) (edge_headers t) body (et_timeout_seconds t) w)))"
  proof cases
    case 1
    then show ?thesis by (simp add: edge_errors_caught)
  next
    case (2 body)
    obtain x w' where r: "edge_request t body w = (x, w')" by (cases "edge_request t body w")
    have eq: "edge_call t mode payload w = (x, w')" using 2 r by simp
    show ?thesis
      unfolding eq fst_conv snd_conv
      by (intro conjI insertI2 edge_request_cases(2) [OF r]) (rule range_eqI, rule edge_request_cases(1) [OF r])
  qed
  then show "case fst (edge_call t mode payload w) of Inr v \<Rightarrow> \<not> contains_credentials t v
     | Inl e \<Rightarrow> catches Exception e = (e \<in> set EDGE_ERRORS)"
    and "snd (edge_call t mode payload w) \<in>
      insert w (range (\<lambda>body. snd (et_requester t (endpoint t) (edge_headers t) body (et_timeout_seconds t) w)))" by blast+
qed

text \<open>A requester that echoes the token.\<close>

definition echo_transport :: "unit edge_transport" where
  "echo_transport = \<lparr>et_project_url = ''https://p.example.co'', et_publishable_key = ''pk1'', et_bearer_token = ''tok1'',
     et_function_slug = ''agent-runtime-dev'', et_timeout_seconds = 20,
     et_requester = (\<lambda>url headers body timeout. retE (PDict [(''error'', PStr ''bad Bearer tok1'')]))\<rparr>"

lemma echo_built:
  "SupabaseEdgeTransport (\<lambda>_. Inr ()) (et_requester echo_transport) (PStr ''https://p.example.co/'') ''pk1'' ''tok1'' ''agent-runtime-dev''
     (Seconds 20) = Inr echo_transport"
proof -
  have u: "check_project_url (\<lambda>_. Inr ()) (PStr ''https://p.example.co/'') =
      Inr \<lparr>up_scheme = ''https'', up_netloc = ''p.example.co'', up_path = ''/'', up_query = [], up_fragment = []\<rparr>"
    by code_simp
  have c: "\<not> blank ''pk1''" "\<not> blank ''tok1''" "\<not> list_ex (\<lambda>c. code c < 33 \<or> 126 < code c) (''pk1'' @ ''tok1'')"
    "function_slug_ok ''agent-runtime-dev''"
    by code_simp+
  show ?thesis unfolding SupabaseEdgeTransport_def u bindR_def sum.case using c by (simp add: echo_transport_def)
qed

theorem edge_transport_is_isolated_witness:
  "edge_call echo_transport (PStr ''queue_inspect'') (PDict []) () = (Inl (Exc HostedTransportError ''credentials_forbidden_in_response''), ()) \<and>
   edge_call (isolated echo_transport) (PStr ''queue_inspect'') (PDict []) =
     edge_call echo_transport (PStr ''queue_inspect'') (PDict [])"
proof
  show "edge_call echo_transport (PStr ''queue_inspect'') (PDict []) () = (Inl (Exc HostedTransportError ''credentials_forbidden_in_response''), ())"
    by code_simp
  show "edge_call (isolated echo_transport) (PStr ''queue_inspect'') (PDict []) = edge_call echo_transport (PStr ''queue_inspect'') (PDict [])"
    using edge_transport_is_isolated [OF echo_built] by blast
qed

text \<open>The router sends the exact claim, and nothing else of the hosted clients, to the exact-claim
  function: on the router every client operation is the operation on one of the two transports.\<close>

theorem router_separates_exact_claims:
  "queue_claim_task (h\<lparr>qh_transport := route_client r\<rparr>) spec worker secs =
     queue_claim_task (h\<lparr>qh_transport := edge_client (xr_exact r)\<rparr>) spec worker secs \<and>
   queue_inspect (h\<lparr>qh_transport := route_client r\<rparr>) spec = queue_inspect (h\<lparr>qh_transport := edge_client (xr_default r)\<rparr>) spec \<and>
   queue_claim (h\<lparr>qh_transport := route_client r\<rparr>) worker secs = queue_claim (h\<lparr>qh_transport := edge_client (xr_default r)\<rparr>) worker secs \<and>
   queue_save (h\<lparr>qh_transport := route_client r\<rparr>) spec st revision worker generation secs =
     queue_save (h\<lparr>qh_transport := edge_client (xr_default r)\<rparr>) spec st revision worker generation secs \<and>
   queue_reconcile_expired (h\<lparr>qh_transport := route_client r\<rparr>) spec st revision generation =
     queue_reconcile_expired (h\<lparr>qh_transport := edge_client (xr_default r)\<rparr>) spec st revision generation \<and>
   activity_append (route_client r) tid ty sid payload = activity_append (edge_client (xr_default r)) tid ty sid payload \<and>
   activity_list (route_client r) tid after limit = activity_list (edge_client (xr_default r)) tid after limit"
proof -
  have r: "route_client r m = (if m = ''queue_claim_task'' then edge_client (xr_exact r) m else edge_client (xr_default r) m)" for m
    by (simp add: route_client_def edge_client_def route_call_def)
  have c: "at_clock (h\<lparr>qh_transport := t\<rparr>) = at_clock h" for t :: "'a transport" by (simp add: at_clock_def fun_eq_iff)
  show ?thesis
    by (simp add: queue_claim_task_def queue_inspect_def queue_claim_def queue_save_def queue_reconcile_expired_def
        activity_append_def activity_list_def queue_request_def activity_request_def r c cong: if_cong)
qed

end
