(* ===== verification/Github_Text.thy ===== *)
theory Github_Text
  imports Json_Text
begin

text \<open>
  The parts of the standard library that the GitHub bridges use: percent-encoding, base64 in its two
  forms, the decoding of UTF-8 to code points, SHA-1, and \<open>json.dumps\<close> with \<open>ensure_ascii=False\<close>.
\<close>

unbundle bit_operations_syntax

section \<open>Addresses\<close>

definition upper_hex :: "nat \<Rightarrow> char" where
  "upper_hex n = (if n < 10 then char_of (48 + n) else char_of (55 + n))"

text \<open>\<open>urllib.parse.quote\<close> over the UTF-8 bytes.\<close>

definition quote_byte :: "string \<Rightarrow> nat \<Rightarrow> string" where
  "quote_byte safe b =
     (let c = char_of b in
      if b < 128 \<and> (ascii_alnum c \<or> c \<in> {CHR ''_'', CHR ''.'', CHR ''-'', CHR ''~''} \<or> c \<in> set safe) then [c]
      else [CHR ''%'', upper_hex (b div 16), upper_hex (b mod 16)])"

definition url_quote :: "string \<Rightarrow> string \<Rightarrow> string" where
  "url_quote safe s = concat (map (quote_byte safe) (utf8 s))"

definition quote_plus :: "string \<Rightarrow> string" where
  "quote_plus s = map (\<lambda>c. if c = CHR '' '' then CHR ''+'' else c) (url_quote '' '' s)"

definition urlencode :: "(string \<times> string) list \<Rightarrow> string" where
  "urlencode q = join ''&'' (map (\<lambda>(k, v). quote_plus k @ ''='' @ quote_plus v) q)"

section \<open>Base64\<close>

definition sextet :: "char \<Rightarrow> nat option" where
  "sextet c =
     (if is_upper c then Some (code c - 65) else if is_lower c then Some (code c - 71)
      else if is_digit c then Some (code c + 4) else if c = CHR ''+'' then Some 62
      else if c = CHR ''/'' then Some 63 else None)"

text \<open>The bytes of two, three or four sextets; the bits that are left over are dropped.\<close>

fun sextet_bytes :: "nat list \<Rightarrow> nat list" where
  "sextet_bytes [a, b] = [4 * a + b div 16]"
| "sextet_bytes [a, b, c] = [4 * a + b div 16, 16 * (b mod 16) + c div 4]"
| "sextet_bytes [a, b, c, d] = [4 * a + b div 16, 16 * (b mod 16) + c div 4, 64 * (c mod 4) + d]"
| "sextet_bytes _ = []"

text \<open>\<open>base64.b64decode(s, validate=True)\<close>: groups of four, padding in the last one only.\<close>

fun b64_strict :: "string \<Rightarrow> nat list option" where
  "b64_strict [] = Some []"
| "b64_strict (a # b # c # d # rest) =
     (case (sextet a, sextet b) of
        (Some x, Some y) \<Rightarrow>
          if c = CHR ''='' then (if d = CHR ''='' \<and> rest = [] then Some (sextet_bytes [x, y]) else None)
          else (case sextet c of
                  None \<Rightarrow> None
                | Some z \<Rightarrow>
                    if d = CHR ''='' then (if rest = [] then Some (sextet_bytes [x, y, z]) else None)
                    else (case sextet d of
                            None \<Rightarrow> None
                          | Some u \<Rightarrow> map_option (\<lambda>bs. sextet_bytes [x, y, z, u] @ bs) (b64_strict rest)))
      | _ \<Rightarrow> None)"
| "b64_strict _ = None"

text \<open>
  \<open>base64.b64decode(s)\<close>: other characters are skipped, and a complete padding ends the text. \<open>pads\<close> counts
  the padding since the last sextet, \<open>quad\<close> holds the sextets of the current group.
\<close>

fun b64_lenient :: "nat \<Rightarrow> nat list \<Rightarrow> string \<Rightarrow> nat list option" where
  "b64_lenient pads quad [] = (if quad = [] then Some [] else None)"
| "b64_lenient pads quad (c # cs) =
     (if c = CHR ''='' then
        (if 2 \<le> length quad
         then (if 4 \<le> length quad + pads + 1 then Some (sextet_bytes quad) else b64_lenient (pads + 1) quad cs)
         else b64_lenient pads quad cs)
      else case sextet c of
             None \<Rightarrow> b64_lenient pads quad cs
           | Some x \<Rightarrow>
               if length quad = 3 then map_option (\<lambda>bs. sextet_bytes (quad @ [x]) @ bs) (b64_lenient 0 [] cs)
               else b64_lenient 0 (quad @ [x]) cs)"

section \<open>UTF-8 to code points\<close>

definition trail :: "nat \<Rightarrow> bool" where
  "trail b \<longleftrightarrow> 128 \<le> b \<and> b < 192"

text \<open>Overlong forms, surrogates and values above U+10FFFF are refused.\<close>

fun utf8_points :: "nat list \<Rightarrow> nat list option" where
  "utf8_points [] = Some []"
| "utf8_points (a # rest) =
     (if a < 128 then map_option ((#) a) (utf8_points rest)
      else case rest of
        b # rest1 \<Rightarrow>
          if 194 \<le> a \<and> a < 224 \<and> trail b then map_option ((#) (64 * (a - 192) + (b - 128))) (utf8_points rest1)
          else (case rest1 of
            c # rest2 \<Rightarrow>
              if 224 \<le> a \<and> a < 240 \<and> trail b \<and> trail c \<and> (a = 224 \<longrightarrow> 160 \<le> b) \<and> (a = 237 \<longrightarrow> b < 160)
              then map_option ((#) (4096 * (a - 224) + 64 * (b - 128) + (c - 128))) (utf8_points rest2)
              else (case rest2 of
                d # rest3 \<Rightarrow>
                  if 240 \<le> a \<and> a < 245 \<and> trail b \<and> trail c \<and> trail d \<and> (a = 240 \<longrightarrow> 144 \<le> b) \<and> (a = 244 \<longrightarrow> b < 144)
                  then map_option ((#) (262144 * (a - 240) + 4096 * (b - 128) + 64 * (c - 128) + (d - 128))) (utf8_points rest3)
                  else None
              | [] \<Rightarrow> None)
          | [] \<Rightarrow> None)
      | [] \<Rightarrow> None)"

text \<open>\<open>str.isspace\<close> of a code point.\<close>

definition point_space :: "nat \<Rightarrow> bool" where
  "point_space n \<longleftrightarrow>
     (9 \<le> n \<and> n \<le> 13) \<or> (28 \<le> n \<and> n \<le> 32) \<or> n = 133 \<or> n = 160 \<or> n = 5760 \<or> (8192 \<le> n \<and> n \<le> 8202) \<or>
     n = 8232 \<or> n = 8233 \<or> n = 8239 \<or> n = 8287 \<or> n = 12288"

section \<open>SHA-1\<close>

definition sha1_next :: "w32 list \<Rightarrow> w32" where
  "sha1_next ws = rotr 31 (ws ! 2 XOR ws ! 7 XOR ws ! 13 XOR ws ! 15)"

fun sha1_extend :: "nat \<Rightarrow> w32 list \<Rightarrow> w32 list" where
  "sha1_extend 0 ws = ws"
| "sha1_extend (Suc n) ws = sha1_extend n (sha1_next ws # ws)"

definition sha1_mix :: "nat \<Rightarrow> w32 \<Rightarrow> w32 \<Rightarrow> w32 \<Rightarrow> w32" where
  "sha1_mix i b c d =
     (if i < 20 then ((b AND c) OR (NOT b AND d)) + 1518500249
      else if i < 40 then (b XOR c XOR d) + 1859775393
      else if i < 60 then ((b AND c) OR (b AND d) OR (c AND d)) + 2400959708
      else (b XOR c XOR d) + 3395469782)"

fun sha1_round :: "nat \<times> w32 \<Rightarrow> w32 list \<Rightarrow> w32 list" where
  "sha1_round (i, w) [a, b, c, d, e] = [rotr 27 a + sha1_mix i b c d + e + w, a, rotr 2 b, c, d]"
| "sha1_round _ st = st"

definition sha1_block :: "w32 list \<Rightarrow> nat list \<Rightarrow> w32 list" where
  "sha1_block hs bs =
     (let ws = rev (sha1_extend 64 (rev (sha_block_words 16 bs)))
      in map2 (+) hs (fold sha1_round (zip [0..<80] ws) hs))"

fun sha1_blocks :: "nat \<Rightarrow> w32 list \<Rightarrow> nat list \<Rightarrow> w32 list" where
  "sha1_blocks 0 hs bs = hs"
| "sha1_blocks (Suc n) hs bs = sha1_blocks n (sha1_block hs (take 64 bs)) (drop 64 bs)"

definition sha1_h0 :: "w32 list" where
  "sha1_h0 = [1732584193, 4023233417, 2562383102, 271733878, 3285377520]"

definition sha1_hex :: "nat list \<Rightarrow> string" where
  "sha1_hex bs = (let p = sha_pad bs in concat (map hex_word (sha1_blocks (length p div 64) sha1_h0 p)))"

lemma length_sha1_round [simp]: "length (sha1_round iw hs) = length hs"
  by (induction iw hs rule: sha1_round.induct) simp_all

lemma length_sha1_rounds [simp]: "length (fold sha1_round iws hs) = length hs"
  by (induction iws arbitrary: hs) simp_all

lemma length_sha1_blocks [simp]: "length (sha1_blocks n hs bs) = length hs"
  by (induction n hs bs rule: sha1_blocks.induct) (simp_all add: sha1_block_def Let_def)

definition is_hex :: "char \<Rightarrow> bool" where
  "is_hex c \<longleftrightarrow> is_digit c \<or> (97 \<le> code c \<and> code c \<le> 102)"

text \<open>\<open>[0-9a-f]{64}\<close> and \<open>[0-9a-f]{40}\<close>.\<close>

definition hex64 :: "string \<Rightarrow> bool" where
  "hex64 s \<longleftrightarrow> length s = 64 \<and> list_all is_hex s"

definition commit_sha_ok :: "string \<Rightarrow> bool" where
  "commit_sha_ok s \<longleftrightarrow> length s = 40 \<and> list_all is_hex s"

lemma is_hex_char: "n < 16 \<Longrightarrow> is_hex (hex_char n)"
  by (simp add: is_hex_def is_digit_def hex_char_def)

lemma hex_word_ok: "list_all is_hex (hex_word x)"
proof -
  have "is_hex (hex_char (nat (uint x div 16 ^ k mod 16)))" for k
    by (rule is_hex_char) (simp add: nat_less_iff)
  then show ?thesis by (simp add: hex_word_def list_all_iff)
qed

lemma sha1_hex_ok: "commit_sha_ok (sha1_hex bs)"
proof -
  have "length (concat (map hex_word ws)) = 8 * length ws" for ws by (induction ws) simp_all
  moreover have "list_all is_hex (concat (map hex_word ws))" for ws
    by (induction ws) (use hex_word_ok in \<open>simp_all\<close>)
  ultimately show ?thesis by (simp add: commit_sha_ok_def sha1_hex_def Let_def sha1_h0_def)
qed

lemma sha256_hex64: "hex64 (sha256_hex bs)"
proof -
  have step: "length (sha_round iw hs) = length hs" for iw hs
    by (induction iw hs rule: sha_round.induct) (simp_all add: Let_def)
  have rounds: "length (fold sha_round iws hs) = length hs" for iws hs
    by (induction iws arbitrary: hs) (simp_all add: step)
  have blocks: "length (sha_blocks n hs xs) = length hs" for n hs xs
    by (induction n hs xs rule: sha_blocks.induct) (simp_all add: sha_block_def Let_def rounds)
  have "length (concat (map hex_word ws)) = 8 * length ws" for ws
    by (induction ws) (simp_all add: hex_word_def)
  moreover have "list_all is_hex (concat (map hex_word ws))" for ws
    by (induction ws) (use hex_word_ok in \<open>simp_all\<close>)
  ultimately show ?thesis
    by (simp add: hex64_def sha256_hex_def Let_def blocks sha_h0_def)
qed

section \<open>The text of a reply\<close>

text \<open>\<open>json.dumps(x, ensure_ascii=False)\<close>.\<close>

fun json_plain :: "pyval \<Rightarrow> string" where
  "json_plain PNone = ''null''"
| "json_plain (PBool b) = (if b then ''true'' else ''false'')"
| "json_plain (PInt i) = int_str i"
| "json_plain (PStr s) = json_string s"
| "json_plain (PList xs) = ''['' @ join '', '' (map json_plain xs) @ '']''"
| "json_plain (PDict d) = ''{'' @ join '', '' (map (\<lambda>p. json_string (fst p) @ '': '' @ json_plain (snd p)) d) @ ''}''"

end
