(* ===== verification/Github_Bridge.thy ===== *)
theory Github_Bridge
  imports Github_Text Tool_Runtime
begin

text \<open>
  The GitHub bridges: the read-only bridge of the smoke run
  (\<^verbatim>\<open>src/tools/agent_github_readonly_host.py\<close>) and the one that pins every read to a commit
  (\<^verbatim>\<open>src/tools/agent_github_sha_bridge.py\<close>). The GET of a path of the API, which gives the JSON value of
  the reply, is an argument (the host's override, or the HTTP client); so is the audit log.
\<close>

section \<open>The read-only bridge\<close>

type_synonym 'w api = "string \<Rightarrow> ('w, pyval) eff"

definition runtime_error :: "string \<Rightarrow> ('w, 'a) eff" where
  "runtime_error m = raiseE (Exc RuntimeError m)"

definition GitHubReadOnlyBridge :: "string \<Rightarrow> unit res" where
  "GitHubReadOnlyBridge token = (if blank token then value_error ''github_token_required'' else Inr ())"

text \<open>The text of a file, when it is base64; the text itself is not kept.\<close>

definition decoded_text :: "string \<Rightarrow> pydict \<Rightarrow> bool res" where
  "decoded_text path payload =
     (case dict_get payload ''content'' of
        PStr content \<Rightarrow>
          if dict_get payload ''encoding'' \<noteq> PStr ''base64'' then Inr False
          else if list_ex (\<lambda>c. 128 \<le> code c) content
          then value_error ''string argument should contain only ASCII characters''
          else (case b64_lenient 0 [] content of
                  None \<Rightarrow> Inl (Exc (OtherError ''Error'') ''Incorrect padding'')
                | Some raw \<Rightarrow>
                    (case utf8_points raw of
                       None \<Rightarrow> Inl (Exc (OtherError ''UnicodeDecodeError'') ''invalid utf-8'')
                     | Some points \<Rightarrow>
                         if list_all point_space points then Inl (Exc RuntimeError (''github_file_empty:'' @ path)) else Inr True))
      | _ \<Rightarrow> Inr False)"

fun bridge_files :: "'w api \<Rightarrow> string \<Rightarrow> string \<Rightarrow> string list \<Rightarrow> pydict \<Rightarrow> ('w, pydict) eff" where
  "bridge_files api repo ref [] files = retE files"
| "bridge_files api repo ref (p # ps) files =
     bindE (api (''/repos/'' @ repo @ ''/contents/'' @ url_quote ''/'' p @ ''?'' @ urlencode [(''ref'', ref)])) (\<lambda>v.
     case v of
       PDict payload \<Rightarrow>
         if dict_get payload ''type'' \<noteq> PStr ''file'' then runtime_error (''github_file_not_resolved:'' @ p)
         else bindE (liftE (decoded_text p payload)) (\<lambda>verified.
              bridge_files api repo ref ps (AList.update p (PDict
                [(''sha'', dict_get payload ''sha''), (''size'', dict_get payload ''size''),
                 (''verified_nonempty_text'', PBool verified)]) files))
     | _ \<Rightarrow> runtime_error (''github_file_not_resolved:'' @ p))"

definition bridge_read_main :: "'w api \<Rightarrow> pydict \<Rightarrow> pydict \<Rightarrow> ('w, bridge_value) eff" where
  "bridge_read_main api args ctx =
     bindE (liftE (github_repository ctx)) (\<lambda>repo.
     let ref = ref_arg args in
     bindE (liftE (py_iter (py_or (dict_get args ''required_files'') (PList [])))) (\<lambda>paths.
     if paths = [] then raiseE (Exc ValueError ''required_files_missing'')
     else bindE (bridge_files api repo ref (map py_str paths) []) (\<lambda>files.
          retE (BV_Dict
            [(''message'', PStr (''verified '' @ nat_str (length files) @ '' required files on '' @ ref)),
             (''data'', PDict [(''repository'', PStr repo), (''ref'', PStr ref), (''files'', PDict files)])] (Items [])))))"

text \<open>The first run of each required name, in the order of the reply.\<close>

definition latest_run :: "pyval list \<Rightarrow> string \<Rightarrow> pydict option" where
  "latest_run runs name =
     (case filter (\<lambda>r. case r of PDict d \<Rightarrow> py_str (py_or (dict_get d ''name'') (PStr [])) = name | _ \<Rightarrow> False) runs of
        PDict d # _ \<Rightarrow> Some d | _ \<Rightarrow> None)"

definition run_conclusion :: "pydict \<Rightarrow> string" where
  "run_conclusion d = py_str (py_or (dict_get d ''conclusion'') (PStr []))"

definition workflow_entry :: "pydict option \<Rightarrow> pydict" where
  "workflow_entry found =
     (case found of
        None \<Rightarrow> [(''found'', PBool False), (''conclusion'', PNone), (''run_id'', PNone)]
      | Some d \<Rightarrow> [(''found'', PBool True), (''conclusion'', PStr (run_conclusion d)), (''run_id'', dict_get d ''id''),
                   (''head_sha'', dict_get d ''head_sha''), (''created_at'', dict_get d ''created_at'')])"

definition bridge_verify_ci :: "'w api \<Rightarrow> string list \<Rightarrow> pydict \<Rightarrow> pydict \<Rightarrow> ('w, bridge_value) eff" where
  "bridge_verify_ci api required args ctx =
     bindE (liftE (github_repository ctx)) (\<lambda>repo.
     bindE (api (''/repos/'' @ repo @ ''/actions/runs?'' @
       urlencode [(''branch'', ''main''), (''status'', ''completed''), (''per_page'', ''50'')])) (\<lambda>v.
     case (case v of PDict d \<Rightarrow> dict_get d ''workflow_runs'' | _ \<Rightarrow> PNone) of
       PList runs \<Rightarrow>
         let verified = list_all (\<lambda>n. case latest_run runs n of None \<Rightarrow> False | Some d \<Rightarrow> run_conclusion d = ''success'') required
         in retE (BV_Dict
              [(''message'', PStr (if verified then ''existing main CI verified'' else ''required main CI is not fully successful'')),
               (''data'', PDict [(''verified'', PBool verified), (''repository'', PStr repo), (''ref'', PStr ''main''),
                  (''workflows'', PDict (dict_update [] (map (\<lambda>n. (n, PDict (workflow_entry (latest_run runs n)))) required)))])] (Items []))
     | _ \<Rightarrow> runtime_error ''github_actions_runs_missing''))"

text \<open>\<open>invoke\<close>, which both bridges share: \<open>read\<close> and \<open>verify\<close> are the methods a subclass replaces.\<close>

definition audit_entry :: "capability \<Rightarrow> pydict" where
  "audit_entry c = [(''action'', PStr (cap_action c)), (''access'', PStr (cap_access c)),
     (''required_permissions'', PList (map PStr (cap_required_permissions c)))]"

definition blocked_reason :: "string \<Rightarrow> bridge_value" where
  "blocked_reason r = BV_Dict [(''blocked_reason'', PStr r)] (Items [])"

definition bridge_invoke ::
  "(pydict \<Rightarrow> 'w \<Rightarrow> 'w) \<Rightarrow> (pydict \<Rightarrow> pydict \<Rightarrow> ('w, bridge_value) eff) \<Rightarrow> (pydict \<Rightarrow> pydict \<Rightarrow> ('w, bridge_value) eff) \<Rightarrow> 'w bridge" where
  "bridge_invoke audit reading verifying c args ctx =
     bindE (\<lambda>w. (Inr (), audit (audit_entry c) w)) (\<lambda>_.
     if cap_access c \<noteq> ''read'' then retE (blocked_reason (''read_only_worker_forbids:'' @ cap_action c))
     else if cap_action c = ''github.read_main'' then reading args ctx
     else if cap_action c = ''github.verify_ci'' then verifying args ctx
     else retE (blocked_reason (''unsupported_read_action:'' @ cap_action c)))"

definition github_bindings :: pydict where
  "github_bindings =
     [(''schema_version'', PStr ''agent-runtime-bindings-v1''),
      (''bindings'', PList
        [PDict [(''provider'', PStr ''github-actions''), (''action'', PStr ''github.read_main''), (''access'', PStr ''read''),
            (''required_permissions'', PList [PStr ''contents:read'']), (''supports_dry_run'', PBool True),
            (''description'', PStr ''Live GitHub Actions binding for repository contents read.'')],
         PDict [(''provider'', PStr ''github-actions''), (''action'', PStr ''github.verify_ci''), (''access'', PStr ''read''),
            (''required_permissions'', PList [PStr ''actions:read'']), (''supports_dry_run'', PBool True),
            (''description'', PStr ''Live GitHub Actions binding for existing workflow-run verification.'')]])]"

definition github_manifest :: "runtime_manifest res" where
  "github_manifest = RuntimeManifest_from_dict github_bindings"

section \<open>The pinned bridge\<close>

definition REPOSITORY :: string where
  "REPOSITORY = ''bzlove178100/-keirin-ai-web''"

definition WORKFLOWS :: "(string \<times> int) list" where
  "WORKFLOWS =
     [(''.github/workflows/regression.yml'', 365001481),
      (''.github/workflows/collection-progress-ui-regression.yml'', 365889130),
      (''.github/workflows/agent-checkpoint-postgres.yml'', 366817234),
      (''.github/workflows/agent-runtime-readonly.yml'', 365961402)]"

definition ShaPinnedGitHubReadOnlyBridge :: "pyval \<Rightarrow> string res" where
  "ShaPinnedGitHubReadOnlyBridge token =
     (case token of
        PStr t \<Rightarrow>
          if t = [] \<or> list_ex (\<lambda>c. code c < 33 \<or> 126 < code c) t then value_error ''github_token_invalid''
          else bindR (GitHubReadOnlyBridge t) (\<lambda>_. Inr t)
      | _ \<Rightarrow> value_error ''github_token_invalid'')"

text \<open>Every exception of the provider is replaced, and a reply that holds the token is refused.\<close>

definition sha_api_get :: "string \<Rightarrow> 'w api \<Rightarrow> 'w api" where
  "sha_api_get token get path =
     tryE (bindE (get path) (\<lambda>result.
             if substring token (json_plain result) then runtime_error ''credential_echo'' else retE result))
       (\<lambda>e. if catches Exception e then runtime_error ''github_read_failed'' else raiseE e)"

definition sha_repository :: "pydict \<Rightarrow> string res" where
  "sha_repository ctx =
     (case py_or (dict_get ctx ''task_inputs'') (PDict []) of
        PDict inputs \<Rightarrow>
          if dict_get inputs ''repository'' \<noteq> PStr REPOSITORY then value_error ''github_repository_outside_host_scope''
          else Inr REPOSITORY
      | _ \<Rightarrow> Inl (Exc AttributeError ''get''))"

definition sha_value :: "pyval \<Rightarrow> string option" where
  "sha_value v = (case v of PStr s \<Rightarrow> if commit_sha_ok s then Some s else None | _ \<Rightarrow> None)"

definition main_sha :: "'w api \<Rightarrow> string \<Rightarrow> ('w, string) eff" where
  "main_sha api repo =
     bindE (api (''/repos/'' @ repo @ ''/commits/main'')) (\<lambda>v.
     case sha_value (case v of PDict d \<Rightarrow> dict_get d ''sha'' | _ \<Rightarrow> PNone) of
       None \<Rightarrow> runtime_error ''github_main_sha_invalid''
     | Some sha \<Rightarrow> retE sha)"

definition ALLOWED_FILES :: "string list" where
  "ALLOWED_FILES = [''AGENTS.md'', ''AI_AGENT_REQUIREMENTS.md'', ''WORK_STATUS.md'']"

fun allowed_file :: "pyval \<Rightarrow> bool" where
  "allowed_file (PStr p) = (p \<in> set ALLOWED_FILES)"
| "allowed_file _ = False"

definition required_files :: "pydict \<Rightarrow> string list res" where
  "required_files args =
     (case dict_get args ''required_files'' of
        PList files \<Rightarrow>
          if dict_get_or args ''ref'' (PStr ''main'') \<noteq> PStr ''main'' \<or> files = [] \<or> \<not> list_all allowed_file files \<or>
             \<not> distinct files
          then value_error ''github_file_scope_invalid'' else Inr (map py_str files)
      | _ \<Rightarrow> value_error ''github_file_scope_invalid'')"

definition blob_sha :: "nat list \<Rightarrow> string" where
  "blob_sha raw = sha1_hex (utf8 (''blob '' @ nat_str (length raw)) @ [0] @ raw)"

text \<open>What one reply of the contents API must be: the entry of the file.\<close>

definition file_entry :: "string \<Rightarrow> pyval \<Rightarrow> pydict res" where
  "file_entry path v =
     (case v of
        PDict d \<Rightarrow>
          (case (sha_value (dict_get d ''sha''), dict_get d ''content'') of
             (Some sha, PStr content) \<Rightarrow>
               if dict_get d ''type'' \<noteq> PStr ''file'' \<or> dict_get d ''path'' \<noteq> PStr path \<or> dict_get d ''encoding'' \<noteq> PStr ''base64''
               then Inl (Exc RuntimeError ''github_file_invalid'')
               else (case b64_strict (filter (\<lambda>c. \<not> is_space c) content) of
                  None \<Rightarrow> Inl (Exc RuntimeError ''github_file_invalid_encoding'')
                | Some raw \<Rightarrow>
                    (case utf8_points raw of
                       None \<Rightarrow> Inl (Exc RuntimeError ''github_file_invalid_encoding'')
                     | Some points \<Rightarrow>
                         if list_all point_space points \<or> dict_get d ''size'' \<noteq> PInt (int (length raw))
                         then Inl (Exc RuntimeError ''github_file_empty_or_size_mismatch'')
                         else if sha \<noteq> blob_sha raw then Inl (Exc RuntimeError ''github_blob_identity_mismatch'')
                         else Inr [(''sha'', PStr sha), (''size'', PInt (int (length raw))),
                                   (''verified_nonempty_text'', PBool True)]))
           | _ \<Rightarrow> Inl (Exc RuntimeError ''github_file_invalid''))
      | _ \<Rightarrow> Inl (Exc RuntimeError ''github_file_invalid''))"

definition contents_path :: "string \<Rightarrow> string \<Rightarrow> string \<Rightarrow> string" where
  "contents_path repo sha path = ''/repos/'' @ repo @ ''/contents/'' @ url_quote [] path @ ''?'' @ urlencode [(''ref'', sha)]"

fun pinned_files :: "'w api \<Rightarrow> string \<Rightarrow> string \<Rightarrow> string list \<Rightarrow> pydict \<Rightarrow> ('w, pydict) eff" where
  "pinned_files api repo sha [] files = retE files"
| "pinned_files api repo sha (p # ps) files =
     bindE (api (contents_path repo sha p)) (\<lambda>v.
     bindE (liftE (file_entry p v)) (\<lambda>entry. pinned_files api repo sha ps (AList.update p (PDict entry) files)))"

definition sha_read_main :: "'w api \<Rightarrow> pydict \<Rightarrow> pydict \<Rightarrow> ('w, bridge_value) eff" where
  "sha_read_main api args ctx =
     bindE (liftE (sha_repository ctx)) (\<lambda>repo.
     bindE (liftE (required_files args)) (\<lambda>required.
     bindE (main_sha api repo) (\<lambda>sha.
     bindE (pinned_files api repo sha required []) (\<lambda>files.
     retE (BV_Dict [(''message'', PStr ''required files observed at one commit''),
       (''data'', PDict [(''repository'', PStr repo), (''ref'', PStr ''main''), (''observed_sha'', PStr sha),
          (''files'', PDict files)])] (Items []))))))"

section \<open>Verification at the same commit\<close>

text \<open>The evidence of the read step: its commit and its files.\<close>

definition observation_ok :: "pyval \<Rightarrow> bool" where
  "observation_ok v =
     (case v of
        PDict d \<Rightarrow> dict_get d ''verified_nonempty_text'' = PBool True \<and> sha_value (dict_get d ''sha'') \<noteq> None \<and>
          (case dict_get d ''size'' of PInt n \<Rightarrow> 0 < n | _ \<Rightarrow> False)
      | _ \<Rightarrow> False)"

definition ci_evidence :: "string \<Rightarrow> pydict \<Rightarrow> (string \<times> pydict) res" where
  "ci_evidence repo args =
     bindR (case py_or (dict_get args ''step_args'') (PDict []) of
              PDict step_args \<Rightarrow> required_files step_args | _ \<Rightarrow> Inl (Exc AttributeError ''get'')) (\<lambda>required.
     case (case dict_get args ''action_result'' of PDict r \<Rightarrow> dict_get r ''data'' | _ \<Rightarrow> PNone) of
       PDict evidence \<Rightarrow>
         (case (sha_value (dict_get evidence ''observed_sha''), dict_get evidence ''files'') of
            (Some sha, PDict files) \<Rightarrow>
              if dict_get args ''step_action'' \<noteq> PStr ''github.read_main'' \<or> dict_get evidence ''repository'' \<noteq> PStr repo \<or>
                 dict_get evidence ''ref'' \<noteq> PStr ''main'' \<or> set (map fst files) \<noteq> set required
              then Inl (Exc RuntimeError ''github_observation_required'')
              else if list_ex (\<lambda>p. \<not> observation_ok (snd p)) files then Inl (Exc RuntimeError ''github_observation_invalid'')
              else Inr (sha, files)
          | _ \<Rightarrow> Inl (Exc RuntimeError ''github_observation_required''))
     | _ \<Rightarrow> Inl (Exc RuntimeError ''github_observation_required''))"

text \<open>One page of the run list: the total count and the runs.\<close>

fun dict_elements :: "pyval list \<Rightarrow> pydict list option" where
  "dict_elements [] = Some []"
| "dict_elements (PDict d # vs) = map_option ((#) d) (dict_elements vs)"
| "dict_elements _ = None"

definition pagination_inconsistent :: exc where
  "pagination_inconsistent = Exc RuntimeError ''github_ci_pagination_inconsistent''"

definition run_batch :: "pyval \<Rightarrow> (int \<times> pydict list) res" where
  "run_batch v =
     (case v of
        PDict payload \<Rightarrow>
          (case dict_get payload ''workflow_runs'' of
             PList batch \<Rightarrow>
               (case (dict_get payload ''total_count'', dict_elements batch) of
                  (PInt count, Some runs) \<Rightarrow>
                    if count < 0 \<or> 1000 < count \<or> 100 < length batch then Inl pagination_inconsistent else Inr (count, runs)
                | _ \<Rightarrow> Inl pagination_inconsistent)
           | _ \<Rightarrow> Inl (Exc RuntimeError ''github_actions_runs_missing''))
      | _ \<Rightarrow> Inl (Exc RuntimeError ''github_actions_runs_missing''))"

definition runs_path :: "string \<Rightarrow> string \<Rightarrow> nat \<Rightarrow> string" where
  "runs_path repo sha page = ''/repos/'' @ repo @ ''/actions/runs?'' @
     urlencode [(''head_sha'', sha), (''branch'', ''main''), (''event'', ''push''), (''per_page'', ''100''), (''page'', nat_str page)]"

fun is_int :: "pyval \<Rightarrow> bool" where
  "is_int (PInt n) = True"
| "is_int _ = False"

fun fetch_runs :: "'w api \<Rightarrow> string \<Rightarrow> string \<Rightarrow> nat list \<Rightarrow> int option \<Rightarrow> pydict list \<Rightarrow> ('w, pydict list) eff" where
  "fetch_runs api repo sha [] expected runs = runtime_error ''github_ci_pagination_incomplete''"
| "fetch_runs api repo sha (page # pages) expected runs =
     bindE (api (runs_path repo sha page)) (\<lambda>v.
     bindE (liftE (run_batch v)) (\<lambda>(count, batch).
     let runs' = runs @ batch; ids = map (\<lambda>r. dict_get r ''id'') runs' in
     if expected \<notin> {None, Some count} \<or> \<not> list_all is_int ids \<or> \<not> distinct ids \<or> count < int (length runs')
     then raiseE pagination_inconsistent
     else if int (length runs') = count then retE runs'
     else if length batch < 100 then runtime_error ''github_ci_pagination_incomplete''
     else fetch_runs api repo sha pages (Some count) runs'))"

definition sha_runs :: "'w api \<Rightarrow> string \<Rightarrow> string \<Rightarrow> ('w, pydict list) eff" where
  "sha_runs api repo sha = fetch_runs api repo sha [1..<11] None []"

text \<open>The latest run of a workflow at the commit, by number, attempt and identifier.\<close>

definition run_matches :: "string \<Rightarrow> int \<Rightarrow> string \<Rightarrow> pydict \<Rightarrow> bool" where
  "run_matches path workflow sha r \<longleftrightarrow>
     dict_get r ''workflow_id'' = PInt workflow \<and> dict_get r ''path'' = PStr path \<and> dict_get r ''head_sha'' = PStr sha \<and>
     dict_get r ''head_branch'' = PStr ''main'' \<and> dict_get r ''event'' = PStr ''push''"

definition int_at :: "pydict \<Rightarrow> string \<Rightarrow> int" where
  "int_at r k = (case dict_get r k of PInt n \<Rightarrow> n | _ \<Rightarrow> 0)"

definition run_identified :: "pydict \<Rightarrow> bool" where
  "run_identified r \<longleftrightarrow> 0 < int_at r ''id'' \<and> 0 < int_at r ''run_number'' \<and> 0 < int_at r ''run_attempt''"

definition newer :: "pydict \<Rightarrow> pydict \<Rightarrow> bool" where
  "newer r s \<longleftrightarrow>
     int_at s ''run_number'' < int_at r ''run_number'' \<or>
     int_at s ''run_number'' = int_at r ''run_number'' \<and>
       (int_at s ''run_attempt'' < int_at r ''run_attempt'' \<or>
        int_at s ''run_attempt'' = int_at r ''run_attempt'' \<and> int_at s ''id'' < int_at r ''id'')"

definition newest :: "pydict list \<Rightarrow> pydict option" where
  "newest rs = (case rs of [] \<Rightarrow> None | r # rs \<Rightarrow> Some (foldl (\<lambda>best r. if newer r best then r else best) r rs))"

definition run_succeeded :: "pydict \<Rightarrow> bool" where
  "run_succeeded r \<longleftrightarrow> dict_get r ''status'' = PStr ''completed'' \<and> dict_get r ''conclusion'' = PStr ''success''"

definition workflow_state :: "string \<Rightarrow> pydict list \<Rightarrow> string \<times> int \<Rightarrow> (string \<times> pydict) res" where
  "workflow_state sha runs pw =
     (case pw of (path, workflow) \<Rightarrow>
        let candidates = filter (run_matches path workflow sha) runs in
        if list_ex (\<lambda>r. \<not> run_identified r) candidates then Inl (Exc RuntimeError ''github_run_identity_invalid'')
        else let latest = newest candidates in
          Inr (path,
            [(''workflow_id'', PInt workflow), (''found'', PBool (latest \<noteq> None)),
             (''verified'', PBool (case latest of None \<Rightarrow> False | Some r \<Rightarrow> run_succeeded r))] @
            (case latest of None \<Rightarrow> []
             | Some r \<Rightarrow> map (\<lambda>k. (k, dict_get r k)) [''id'', ''run_attempt'', ''head_sha'', ''status'', ''conclusion''])))"

definition state_verified :: "string \<times> pydict \<Rightarrow> bool" where
  "state_verified s \<longleftrightarrow> dict_get (snd s) ''verified'' = PBool True"

definition ci_report :: "string \<Rightarrow> string \<Rightarrow> string \<Rightarrow> pydict \<Rightarrow> (string \<times> pydict) list \<Rightarrow> pydict" where
  "ci_report repo sha current files states =
     (let verified = (current = sha \<and> list_all state_verified states) in
      [(''message'', PStr (if verified then ''same-commit CI verified'' else ''same-commit CI not verified'')),
       (''data'', PDict
         [(''verified'', PBool verified), (''repository'', PStr repo), (''observed_sha'', PStr sha), (''current_sha'', PStr current),
          (''reason'', PStr (if current \<noteq> sha then ''main_changed'' else if verified then ''verified'' else ''required_ci_not_successful'')),
          (''files'', PDict files), (''workflows'', PDict (map (\<lambda>s. (fst s, PDict (snd s))) states))])])"

definition sha_verify_ci :: "'w api \<Rightarrow> pydict \<Rightarrow> pydict \<Rightarrow> ('w, bridge_value) eff" where
  "sha_verify_ci api args ctx =
     bindE (liftE (sha_repository ctx)) (\<lambda>repo.
     bindE (liftE (ci_evidence repo args)) (\<lambda>(sha, files).
     bindE (sha_runs api repo sha) (\<lambda>runs.
     bindE (liftE (mapR (workflow_state sha runs) WORKFLOWS)) (\<lambda>states.
     bindE (main_sha api repo) (\<lambda>current.
     retE (BV_Dict (ci_report repo sha current files states) (Items [])))))))"

end
