(* ===== verification/Github_Results.thy ===== *)
theory Github_Results
  imports Github_Bridge
begin

text \<open>
  What the pinned bridge shows of a commit. The run list is read completely whatever its length, the
  verdict is that of the newest run of every reviewed workflow, and what a read step returns is what
  the verify step demands.
\<close>

section \<open>The newest run\<close>

definition run_key :: "pydict \<Rightarrow> int \<times> int \<times> int" where
  "run_key r = (int_at r ''run_number'', int_at r ''run_attempt'', int_at r ''id'')"

definition key_le :: "int \<times> int \<times> int \<Rightarrow> int \<times> int \<times> int \<Rightarrow> bool" where
  "key_le a b = (case (a, b) of ((x, y, z), (x', y', z')) \<Rightarrow> x < x' \<or> x = x' \<and> (y < y' \<or> y = y' \<and> z \<le> z'))"

lemma key_le_refl [simp]: "key_le a a"
  by (cases a) (simp add: key_le_def)

lemma key_le_trans: "key_le a b \<Longrightarrow> key_le b c \<Longrightarrow> key_le a c"
  by (cases a; cases b; cases c) (auto simp: key_le_def)

lemma newer_iff: "newer r s \<longleftrightarrow> \<not> key_le (run_key r) (run_key s)"
  by (auto simp: newer_def key_le_def run_key_def)

lemma key_le_linear: "key_le a b \<or> key_le b a"
  by (cases a; cases b) (auto simp: key_le_def)

lemma newest_fold:
  "foldl (\<lambda>best r. if newer r best then r else best) b rs \<in> set (b # rs) \<and>
   (\<forall>s\<in>set (b # rs). key_le (run_key s) (run_key (foldl (\<lambda>best r. if newer r best then r else best) b rs)))"
proof (induction rs arbitrary: b)
  case Nil
  then show ?case by simp
next
  case (Cons r rs)
  let ?b = "if newer r b then r else b"
  note IH = Cons.IH [of ?b]
  have "key_le (run_key r) (run_key ?b) \<and> key_le (run_key b) (run_key ?b)"
    using key_le_linear [of "run_key r" "run_key b"] by (auto simp: newer_iff)
  with IH show ?case by (auto intro: key_le_trans split: if_splits)
qed

lemma newest_None [simp]: "newest rs = None \<longleftrightarrow> rs = []"
  by (cases rs) (simp_all add: newest_def)

lemma newest_Some:
  assumes "newest rs = Some r"
  shows "r \<in> set rs \<and> (\<forall>s\<in>set rs. key_le (run_key s) (run_key r))"
  using assms newest_fold [of "hd rs" "tl rs"] by (cases rs) (auto simp: newest_def)

section \<open>The run list\<close>

text \<open>
  A list of runs as the API pages it: a hundred runs on a page, and the total on every page.
\<close>

definition run_page :: "pydict list \<Rightarrow> nat \<Rightarrow> pyval" where
  "run_page rs n = PDict [(''total_count'', PInt (int (length rs))),
     (''workflow_runs'', PList (map PDict (take 100 (drop (100 * (n - 1)) rs))))]"

definition runs_listed :: "pydict list \<Rightarrow> bool" where
  "runs_listed rs \<longleftrightarrow> length rs \<le> 1000 \<and> list_all (\<lambda>r. is_int (dict_get r ''id'')) rs \<and>
     distinct (map (\<lambda>r. dict_get r ''id'') rs)"

lemma dict_elements_map [simp]: "dict_elements (map PDict rs) = Some rs"
  by (induction rs) simp_all

lemma run_batch_page:
  "length rs \<le> 1000 \<Longrightarrow> run_batch (run_page rs n) = Inr (int (length rs), take 100 (drop (100 * (n - 1)) rs))"
  by (simp add: run_batch_def run_page_def)

lemma runs_listed_take:
  assumes "runs_listed rs"
  shows "list_all is_int (map (\<lambda>r. dict_get r ''id'') (take k rs))"
    and "distinct (map (\<lambda>r. dict_get r ''id'') (take k rs))"
proof -
  show "list_all is_int (map (\<lambda>r. dict_get r ''id'') (take k rs))"
    using assms by (auto simp: runs_listed_def list_all_iff dest: in_set_takeD)
  show "distinct (map (\<lambda>r. dict_get r ''id'') (take k rs))"
    using assms unfolding take_map [symmetric] runs_listed_def by (intro distinct_take) simp
qed

lemma fetch_runs_step:
  assumes listed: "runs_listed rs"
    and api: "api (runs_path repo sha page) w = (Inr (run_page rs page), w)"
    and page: "1 \<le> page" and expected: "expected \<in> {None, Some (int (length rs))}"
  shows "fetch_runs api repo sha (page # pages) expected (take (100 * (page - 1)) rs) w =
    (if length rs \<le> 100 * page then (Inr rs, w)
     else fetch_runs api repo sha pages (Some (int (length rs))) (take (100 * page) rs) w)"
proof -
  have "page = Suc (page - 1)" using page by simp
  then have split: "take (100 * (page - 1)) rs @ take 100 (drop (100 * (page - 1)) rs) = take (100 * page) rs"
    by (metis mult_Suc_right add.commute take_add)
  have len: "length rs \<le> 1000" using listed by (simp add: runs_listed_def)
  note ids = runs_listed_take [OF listed, of "100 * page"]
  have batch: "100 * page < length rs \<Longrightarrow> \<not> length (take 100 (drop (100 * (page - 1)) rs)) < 100"
    using page by (simp add: algebra_simps)
  let ?run = "take (100 * (page - 1)) rs @ take 100 (drop (100 * (page - 1)) rs)"
  have "fetch_runs api repo sha (page # pages) expected (take (100 * (page - 1)) rs) w =
    (let ids = map (\<lambda>r. dict_get r ''id'') ?run in
     if expected \<notin> {None, Some (int (length rs))} \<or> \<not> list_all is_int ids \<or> \<not> distinct ids \<or> int (length rs) < int (length ?run)
     then raiseE pagination_inconsistent
     else if int (length ?run) = int (length rs) then retE ?run
     else if length (take 100 (drop (100 * (page - 1)) rs)) < 100 then runtime_error ''github_ci_pagination_incomplete''
     else fetch_runs api repo sha pages (Some (int (length rs))) ?run) w"
    by (simp only: fetch_runs.simps bindE_eqs(1) [where m = "api (runs_path repo sha page)", OF api] run_batch_page [OF len]
      bindE_lift prod.case Let_def)
  then show ?thesis
    unfolding split using expected ids batch by (auto simp: Let_def)
qed

lemma fetch_runs_complete:
  assumes listed: "runs_listed rs"
    and api: "\<And>n. n \<in> {1..10} \<Longrightarrow> api (runs_path repo sha n) w = (Inr (run_page rs n), w)"
    and page: "1 \<le> page" "page \<le> 10" and expected: "expected \<in> {None, Some (int (length rs))}"
  shows "fetch_runs api repo sha [page..<11] expected (take (100 * (page - 1)) rs) w = (Inr rs, w)"
  using page expected
proof (induction "10 - page" arbitrary: page expected)
  case 0
  then have "page = 10" and pages: "[page..<11] = page # []" by (simp_all add: upt_rec)
  moreover have "length rs \<le> 1000" using listed by (simp add: runs_listed_def)
  ultimately show ?case
    unfolding pages using fetch_runs_step [of rs api repo sha page w expected "[]", OF listed api] 0 by simp
next
  case (Suc k)
  then have pages: "[page..<11] = page # [Suc page..<11]" by (simp add: upt_rec)
  have IH: "fetch_runs api repo sha [Suc page..<11] (Some (int (length rs))) (take (100 * page) rs) w = (Inr rs, w)"
    using Suc.hyps(1) [of "Suc page" "Some (int (length rs))"] Suc.hyps(2) Suc.prems by simp
  show ?case
    unfolding pages using fetch_runs_step [of rs api repo sha page w expected "[Suc page..<11]", OF listed api] Suc.prems IH by simp
qed

lemma sha_runs_complete:
  assumes "runs_listed rs"
    and "\<And>n. n \<in> {1..10} \<Longrightarrow> api (runs_path repo sha n) w = (Inr (run_page rs n), w)"
  shows "sha_runs api repo sha w = (Inr rs, w)"
  using fetch_runs_complete [of rs api repo sha w 1 None, OF assms] by (simp add: sha_runs_def)

section \<open>The verdict\<close>

text \<open>A workflow passed at a commit: its newest run on the commit is completed and successful.\<close>

definition workflow_passed :: "string \<Rightarrow> pydict list \<Rightarrow> string \<times> int \<Rightarrow> bool" where
  "workflow_passed sha rs pw \<longleftrightarrow>
     (\<exists>r\<in>set rs. run_matches (fst pw) (snd pw) sha r \<and> run_succeeded r \<and>
       (\<forall>s\<in>set rs. run_matches (fst pw) (snd pw) sha s \<longrightarrow> key_le (run_key s) (run_key r)))"

lemma key_le_antisym: "key_le a b \<Longrightarrow> key_le b a \<Longrightarrow> a = b"
  by (cases a; cases b) (auto simp: key_le_def)

lemma run_key_inj:
  assumes "runs_listed rs" "r \<in> set rs" "s \<in> set rs" "run_key r = run_key s"
  shows "r = s"
proof -
  have "int_at r ''id'' = int_at s ''id''" using assms(4) by (simp add: run_key_def)
  moreover have "is_int (dict_get r ''id'')" "is_int (dict_get s ''id'')"
    using assms(1-3) by (auto simp: runs_listed_def list_all_iff)
  ultimately have "dict_get r ''id'' = dict_get s ''id''"
    by (cases "dict_get r ''id''"; cases "dict_get s ''id''") (simp_all add: int_at_def)
  with assms(1-3) show ?thesis by (auto simp: runs_listed_def distinct_map inj_on_def)
qed

lemma newest_verified:
  assumes listed: "runs_listed rs"
  shows "(case newest (filter (run_matches path wid sha) rs) of None \<Rightarrow> False | Some r \<Rightarrow> run_succeeded r) =
    workflow_passed sha rs (path, wid)"
proof (cases "newest (filter (run_matches path wid sha) rs)")
  case None
  then have "filter (run_matches path wid sha) rs = []" by simp
  then have "\<not> workflow_passed sha rs (path, wid)" by (auto simp: workflow_passed_def filter_empty_conv)
  then show ?thesis by (simp add: None)
next
  case (Some r)
  note max = newest_Some [OF Some]
  have "run_succeeded r" if s: "s \<in> set rs" "run_matches path wid sha s" "run_succeeded s"
    and top: "\<forall>u\<in>set rs. run_matches path wid sha u \<longrightarrow> key_le (run_key u) (run_key s)" for s
  proof -
    have "run_key r = run_key s"
      using max top s by (intro key_le_antisym) auto
    then have "r = s" using run_key_inj [OF listed] max s(1) by simp
    with s(3) show ?thesis by simp
  qed
  with max Some show ?thesis by (auto simp: workflow_passed_def)
qed

definition state_of :: "string \<Rightarrow> pydict list \<Rightarrow> string \<times> int \<Rightarrow> string \<times> pydict" where
  "state_of sha rs pw = (case workflow_state sha rs pw of Inr s \<Rightarrow> s | Inl _ \<Rightarrow> ([], []))"

lemma workflow_state_ok:
  assumes "runs_listed rs" and "list_all run_identified rs"
  shows "workflow_state sha rs pw = Inr (state_of sha rs pw) \<and>
    state_verified (state_of sha rs pw) = workflow_passed sha rs pw"
proof -
  obtain path wid where pw: "pw = (path, wid)" by (cases pw)
  have "\<not> list_ex (\<lambda>r. \<not> run_identified r) (filter (run_matches path wid sha) rs)"
    using assms(2) by (auto simp: list_ex_iff list_all_iff)
  then show ?thesis
    using newest_verified [OF assms(1), of path wid sha]
    by (auto simp: workflow_state_def state_of_def pw Let_def state_verified_def)
qed

lemma workflow_states_ok:
  assumes "runs_listed rs" and "list_all run_identified rs"
  shows "mapR (workflow_state sha rs) pws = Inr (map (state_of sha rs) pws)"
    and "list_all state_verified (map (state_of sha rs) pws) = list_all (workflow_passed sha rs) pws"
  using workflow_state_ok [OF assms] by (auto intro!: mapR_total simp: list_all_iff)

text \<open>A GitHub that does not change while it is read: its runs at a commit, and where \<^verbatim>\<open>main\<close> is.\<close>

definition github_shows :: "'w api \<Rightarrow> string \<Rightarrow> pydict list \<Rightarrow> string \<Rightarrow> 'w \<Rightarrow> bool" where
  "github_shows api sha rs head w \<longleftrightarrow>
     (\<forall>n\<in>{1..10}. api (runs_path REPOSITORY sha n) w = (Inr (run_page rs n), w)) \<and>
     (\<exists>reply. api (''/repos/'' @ REPOSITORY @ ''/commits/main'') w = (Inr (PDict reply), w) \<and> dict_get reply ''sha'' = PStr head)"

lemma main_sha_shown:
  assumes "github_shows api sha rs head w" and "commit_sha_ok head"
  shows "main_sha api REPOSITORY w = (Inr head, w)"
  using assms by (auto simp: github_shows_def main_sha_def bindE_apply sha_value_def)

lemma sha_verify_ci_shown:
  assumes repo: "sha_repository ctx = Inr REPOSITORY" and ev: "ci_evidence REPOSITORY args = Inr (sha, files)"
    and listed: "runs_listed rs" and ids: "list_all run_identified rs" and head: "commit_sha_ok head"
    and api: "github_shows api sha rs head w"
  shows "sha_verify_ci api args ctx w =
    (Inr (BV_Dict (ci_report REPOSITORY sha head files (map (state_of sha rs) WORKFLOWS)) (Items [])), w)"
proof -
  have runs: "sha_runs api REPOSITORY sha w = (Inr rs, w)"
    by (rule sha_runs_complete [OF listed]) (use api in \<open>simp add: github_shows_def\<close>)
  note states = workflow_states_ok(1) [OF listed ids, where sha = sha and pws = WORKFLOWS]
  show ?thesis
    unfolding sha_verify_ci_def repo bindE_lift ev prod.case
    by (simp add: bindE_apply runs states main_sha_shown [OF api head])
qed

definition report_data :: "bridge_value \<Rightarrow> string \<Rightarrow> pyval" where
  "report_data v k = (case v of BV_Dict d _ \<Rightarrow> (case dict_get d ''data'' of PDict e \<Rightarrow> dict_get e k | _ \<Rightarrow> PNone) | _ \<Rightarrow> PNone)"

text \<open>C20. The verdict of the pinned bridge is exact. Whenever the API shows a run list of up to 1000 runs, in
  pages of 100, and a head of main, \<open>_verify_ci\<close> reads every page and returns a report whose \<open>verified\<close> is true
  exactly when main still stands at the observed commit and the newest run of each of the four reviewed
  workflows, among the push runs of that commit on main, completed with success. The report names both
  commits and hands on the files of the evidence, and nothing else changes.\<close>

theorem ci_verdict_is_exact:
  assumes "sha_repository ctx = Inr REPOSITORY" and "ci_evidence REPOSITORY args = Inr (sha, files)"
    and "runs_listed rs" and "list_all run_identified rs" and "commit_sha_ok head"
    and "github_shows api sha rs head w"
  shows "\<exists>v. sha_verify_ci api args ctx w = (Inr v, w) \<and>
    report_data v ''verified'' = PBool (head = sha \<and> list_all (workflow_passed sha rs) WORKFLOWS) \<and>
    report_data v ''observed_sha'' = PStr sha \<and> report_data v ''current_sha'' = PStr head \<and>
    report_data v ''files'' = PDict files"
  unfolding sha_verify_ci_shown [OF assms]
  by (simp add: report_data_def ci_report_def Let_def workflow_states_ok(2) [OF assms(3,4)])

section \<open>The evidence of a read\<close>

lemma file_entry_observed:
  assumes "file_entry path v = Inr entry"
  shows "observation_ok (PDict entry)"
proof -
  obtain d sha content raw points where v: "v = PDict d" and sha: "sha_value (dict_get d ''sha'') = Some sha"
    and raw: "utf8_points raw = Some points" "\<not> list_all point_space points"
    and entry: "entry = [(''sha'', PStr sha), (''size'', PInt (int (length raw))), (''verified_nonempty_text'', PBool True)]"
    using assms by (auto simp: file_entry_def split: pyval.splits option.splits if_splits prod.splits)
  have "raw \<noteq> []" using raw by auto
  moreover have "sha_value (PStr sha) \<noteq> None"
    using sha by (auto simp: sha_value_def split: pyval.splits if_splits)
  ultimately show ?thesis by (simp add: entry observation_ok_def)
qed

lemma in_set_update: "x \<in> set (AList.update k v al) \<Longrightarrow> x = (k, v) \<or> x \<in> set al"
  by (induction al) (auto split: if_splits)

lemma pinned_files_observed:
  assumes "pinned_files api repo sha ps files w = (Inr files', w')"
    and "\<forall>x\<in>set files. observation_ok (snd x)"
  shows "set (map fst files') = set (map fst files) \<union> set ps \<and> (\<forall>x\<in>set files'. observation_ok (snd x))"
  using assms
proof (induction ps arbitrary: files w)
  case Nil
  then show ?case by simp
next
  case (Cons p ps)
  obtain v w1 entry where entry: "file_entry p v = Inr entry"
    and rest: "pinned_files api repo sha ps (AList.update p (PDict entry) files) w1 = (Inr files', w')"
    using Cons.prems(1) by (auto simp: bindE_eq_Inr)
  have "\<forall>x\<in>set (AList.update p (PDict entry) files). observation_ok (snd x)"
    using Cons.prems(2) file_entry_observed [OF entry] by (auto dest!: in_set_update)
  from Cons.IH [OF rest this] show ?case
    using dom_update [of p "PDict entry" files] by auto
qed

lemma sha_value_Some: "sha_value v = Some s \<longleftrightarrow> v = PStr s \<and> commit_sha_ok s"
  by (cases v) (auto simp: sha_value_def)

lemma main_sha_Inr: "main_sha api repo w = (Inr sha, w') \<Longrightarrow> commit_sha_ok sha"
  by (auto simp: main_sha_def bindE_eq_Inr runtime_error_def sha_value_Some split: option.splits)

lemma sha_read_main_Inr:
  assumes "sha_read_main api args ctx w = (Inr v, w')"
  shows "\<exists>required sha files m. v = BV_Dict [(''message'', m), (''data'', PDict
        [(''repository'', PStr REPOSITORY), (''ref'', PStr ''main''), (''observed_sha'', PStr sha), (''files'', PDict files)])] (Items []) \<and>
      required_files args = Inr required \<and> commit_sha_ok sha \<and> set (map fst files) = set required \<and>
      (\<forall>x\<in>set files. observation_ok (snd x))"
proof -
  obtain repo required w1 sha w2 files where repo: "sha_repository ctx = Inr repo" and req: "required_files args = Inr required"
    and sha: "main_sha api repo w1 = (Inr sha, w2)" and files: "pinned_files api repo sha required [] w2 = (Inr files, w')"
    and v: "v = BV_Dict [(''message'', PStr ''required files observed at one commit''), (''data'', PDict
        [(''repository'', PStr repo), (''ref'', PStr ''main''), (''observed_sha'', PStr sha), (''files'', PDict files)])] (Items [])"
    using assms by (auto simp: sha_read_main_def bindE_eq_Inr)
  have "repo = REPOSITORY" using repo by (auto simp: sha_repository_def split: pyval.splits if_splits)
  moreover have "commit_sha_ok sha"
    by (rule main_sha_Inr [OF sha])
  ultimately show ?thesis
    using pinned_files_observed [OF files] req v by simp
qed

text \<open>C40. The evidence of the read step is the evidence that the verify step demands. What the runner hands
  to \<open>_verify_ci\<close> after a \<open>github.read_main\<close> step of the pinned bridge, its arguments and its result, always passes
  the checks of the observation, and yields the commit and the files that were read.\<close>

theorem read_evidence_is_accepted:
  assumes "bridge_action (bridge_invoke audit (sha_read_main api) verifying) cap (ss_args step) ctx w = (Inr (AV_Result r), w')"
    and "cap_action cap = ''github.read_main''" and "ss_action step = ''github.read_main''"
  shows "\<exists>sha files. ci_evidence REPOSITORY (verify_args step r) = Inr (sha, files) \<and>
    rs_data r = [(''repository'', PStr REPOSITORY), (''ref'', PStr ''main''), (''observed_sha'', PStr sha), (''files'', PDict files)]"
proof -
  obtain w1 v where v: "sha_read_main api (ss_args step) ctx w1 = (Inr v, w')" and r: "normalise_response v = Inr r"
    using assms(1,2) by (auto simp: bridge_action_def bridge_invoke_def blocked_reason_def bindE_eq_Inr split: if_splits)
  obtain required sha files m where v': "v = BV_Dict [(''message'', m), (''data'', PDict
        [(''repository'', PStr REPOSITORY), (''ref'', PStr ''main''), (''observed_sha'', PStr sha), (''files'', PDict files)])] (Items [])"
    and req: "required_files (ss_args step) = Inr required" and sha: "commit_sha_ok sha"
    and files: "set (map fst files) = set required" "\<forall>x\<in>set files. observation_ok (snd x)"
    using sha_read_main_Inr [OF v] by blast
  have data: "rs_data r = [(''repository'', PStr REPOSITORY), (''ref'', PStr ''main''), (''observed_sha'', PStr sha), (''files'', PDict files)]"
    using r by (auto simp: v' py_or_def)
  have args: "ss_args step \<noteq> []"
    using req by (auto simp: required_files_def)
  have "ci_evidence REPOSITORY (verify_args step r) = Inr (sha, files)"
    using files args assms(3)
    by (simp add: ci_evidence_def verify_args_def py_or_def req data sha_value_def sha list_ex_iff)
  with data show ?thesis by blast
qed

section \<open>A repository\<close>

definition gh_sha :: string where
  "gh_sha = replicate 40 CHR ''a''"

definition gh_run :: "int \<Rightarrow> string \<times> int \<Rightarrow> pydict" where
  "gh_run i pw = [(''id'', PInt i), (''workflow_id'', PInt (snd pw)), (''path'', PStr (fst pw)), (''head_sha'', PStr gh_sha),
     (''head_branch'', PStr ''main''), (''event'', PStr ''push''), (''run_number'', PInt i), (''run_attempt'', PInt 1),
     (''status'', PStr ''completed''), (''conclusion'', PStr ''success'')]"

definition gh_runs :: "pydict list" where
  "gh_runs = map2 gh_run [11, 12, 13, 14] WORKFLOWS"

definition gh_api :: "unit api" where
  "gh_api p w =
     (Inr (if last p = CHR ''n'' then PDict [(''sha'', PStr gh_sha)] else run_page gh_runs (if last p = CHR ''1'' then 1 else 2)), w)"

definition gh_step_args :: pydict where
  "gh_step_args = [(''ref'', PStr ''main''), (''required_files'', PList [PStr ''AGENTS.md''])]"

definition gh_files :: pydict where
  "gh_files = [(''AGENTS.md'', PDict [(''sha'', PStr gh_sha), (''size'', PInt 3), (''verified_nonempty_text'', PBool True)])]"

definition gh_args :: pydict where
  "gh_args = [(''step_action'', PStr ''github.read_main''), (''step_args'', PDict gh_step_args),
     (''action_result'', PDict [(''data'', PDict [(''repository'', PStr REPOSITORY), (''ref'', PStr ''main''),
        (''observed_sha'', PStr gh_sha), (''files'', PDict gh_files)])])]"

definition gh_ctx :: pydict where
  "gh_ctx = [(''task_inputs'', PDict [(''repository'', PStr REPOSITORY)])]"

lemma gh_facts:
  "sha_repository gh_ctx = Inr REPOSITORY" "ci_evidence REPOSITORY gh_args = Inr (gh_sha, gh_files)"
  "runs_listed gh_runs" "list_all run_identified gh_runs" "commit_sha_ok gh_sha"
  "list_all (workflow_passed gh_sha gh_runs) WORKFLOWS"
  by code_simp+

lemma gh_pages: "\<forall>n\<in>set [1..<11]. gh_api (runs_path REPOSITORY gh_sha n) () = (Inr (run_page gh_runs n), ())"
  by code_simp

lemma gh_shows: "github_shows gh_api gh_sha gh_runs gh_sha ()"
proof -
  have "gh_api (''/repos/'' @ REPOSITORY @ ''/commits/main'') () = (Inr (PDict [(''sha'', PStr gh_sha)]), ())"
    by (simp add: gh_api_def)
  moreover have "{1..10::nat} = set [1..<11]" by auto
  ultimately show ?thesis using gh_pages unfolding github_shows_def by auto
qed

theorem ci_verdict_is_exact_witness:
  "\<exists>v. sha_verify_ci gh_api gh_args gh_ctx () = (Inr v, ()) \<and> report_data v ''verified'' = PBool True"
  using ci_verdict_is_exact [OF gh_facts(1-5) gh_shows] gh_facts(6) by auto

definition gh_file :: pydict where
  "gh_file = [(''type'', PStr ''file''), (''path'', PStr ''AGENTS.md''), (''encoding'', PStr ''base64''),
     (''sha'', PStr (blob_sha [97, 98, 99])), (''size'', PInt 3), (''content'', PStr ''YWJj'')]"

definition gh_read_api :: "unit api" where
  "gh_read_api p w = (Inr (PDict (if last p = CHR ''n'' then [(''sha'', PStr gh_sha)] else gh_file)), w)"

definition gh_step :: step_spec where
  "gh_step = \<lparr>ss_step_id = ''read'', ss_action = ''github.read_main'', ss_args = gh_step_args, ss_verify_action = None,
     ss_retry_safe = False, ss_max_attempts = 1\<rparr>"

definition gh_capability :: capability where
  "gh_capability = \<lparr>cap_action = ''github.read_main'', cap_access = ''read'', cap_required_permissions = [], 
     cap_supports_dry_run = True, cap_description = []\<rparr>"

definition gh_result :: action_result where
  "gh_result = \<lparr>rs_message = ''required files observed at one commit'', rs_artifacts = [],
     rs_data = [(''repository'', PStr REPOSITORY), (''ref'', PStr ''main''), (''observed_sha'', PStr gh_sha),
       (''files'', PDict [(''AGENTS.md'', PDict [(''sha'', PStr (blob_sha [97, 98, 99])), (''size'', PInt 3),
          (''verified_nonempty_text'', PBool True)])])]\<rparr>"

lemma gh_content: "b64_strict (filter (\<lambda>c. \<not> is_space c) ''YWJj'') = Some [97, 98, 99]"
    "utf8_points [97, 98, 99] = Some [97, 98, 99]" "\<not> list_all point_space [97, 98, 99]"
  by code_simp+

lemma gh_entry: "file_entry ''AGENTS.md'' (PDict gh_file) =
    Inr [(''sha'', PStr (blob_sha [97, 98, 99])), (''size'', PInt 3), (''verified_nonempty_text'', PBool True)]"
  using gh_content by (simp add: file_entry_def gh_file_def sha_value_def blob_sha_def sha1_hex_ok)

lemma gh_paths: "last (''/repos/'' @ REPOSITORY @ ''/commits/main'') = CHR ''n''"
    "last (contents_path REPOSITORY gh_sha ''AGENTS.md'') \<noteq> CHR ''n''" "required_files gh_step_args = Inr [''AGENTS.md'']"
  by code_simp+

lemma gh_read: "bridge_action (bridge_invoke (\<lambda>_ w. w) (sha_read_main gh_read_api) verifying) gh_capability (ss_args gh_step) gh_ctx () =
    (Inr (AV_Result gh_result), ())"
proof -
  have main: "main_sha gh_read_api REPOSITORY () = (Inr gh_sha, ())"
    using gh_paths(1) gh_facts(5) by (simp add: main_sha_def gh_read_api_def bindE_apply sha_value_def)
  have one: "gh_read_api (contents_path REPOSITORY gh_sha ''AGENTS.md'') () = (Inr (PDict gh_file), ())"
    using gh_paths(2) by (simp add: gh_read_api_def)
  have files: "pinned_files gh_read_api REPOSITORY gh_sha [''AGENTS.md''] [] () = (Inr [(''AGENTS.md'', PDict
      [(''sha'', PStr (blob_sha [97, 98, 99])), (''size'', PInt 3), (''verified_nonempty_text'', PBool True)])], ())"
    by (simp add: bindE_apply one gh_entry)
  show ?thesis
    by (simp add: bridge_action_def bridge_invoke_def bindE_apply sha_read_main_def gh_facts(1) gh_paths(3) main files
      gh_capability_def gh_step_def gh_result_def py_or_def del: pinned_files.simps)
qed

theorem read_evidence_is_accepted_witness:
  "\<exists>sha files. ci_evidence REPOSITORY (verify_args gh_step gh_result) = Inr (sha, files)"
proof -
  have "cap_action gh_capability = ''github.read_main''" "ss_action gh_step = ''github.read_main''"
    by (simp_all add: gh_capability_def gh_step_def)
  from read_evidence_is_accepted [OF gh_read this] show ?thesis by blast
qed

end
