(* ===== verification/Repository_Worker.thy ===== *)
theory Repository_Worker
  imports Github_Bridge Hosted_Transport Trusted_Run Py_Datetime
begin

text \<open>
  The hosted repository worker, \<^verbatim>\<open>src/tools/agent_hosted_repository_worker.py\<close>: a read-only worker for one
  trusted task, whose every request to GitHub stands between two fenced saves of the lease, whose
  evidence is acknowledged by the activity ledger, and whose failures end the run instead of being
  retried. The world of a run is the lease beside the outside world, which holds the worker's busy
  flag and the observation of the run. The alarm of the interval timer may strike anywhere; in the
  model it is an exception of the calls to the host. The clock, the wall clock (an instant in
  microseconds), the timer, the GET of the API and the trusted template file are arguments.
\<close>

section \<open>The hard deadline\<close>

definition interrupted :: "string \<Rightarrow> ('w, 'a) eff" where
  "interrupted m = raiseE (Exc HostedRunInterrupted m)"

record 'w timer_host =
  th_main_thread :: "('w, bool) eff"
  th_available :: "('w, bool) eff"
  th_getitimer :: "('w, rat \<times> rat) eff"
  th_getsignal :: "('w, unit) eff"
  th_install :: "('w, unit) eff"
  th_restore :: "('w, unit) eff"
  th_setitimer :: "rat \<Rightarrow> ('w, unit) eff"

text \<open>\<open>finally\<close>: the timer is disarmed and the handler restored, whatever the outcome.\<close>

definition disarmed :: "'w timer_host \<Rightarrow> ('w, 'a) eff \<Rightarrow> ('w, 'a) eff" where
  "disarmed th body w =
     (case body w of (x, w1) \<Rightarrow>
        case bindE (th_setitimer th 0) (\<lambda>_. th_restore th) w1 of
          (Inl e, w2) \<Rightarrow> (Inl e, w2)
        | (Inr _, w2) \<Rightarrow> (x, w2))"

definition hard_run_deadline :: "'w timer_host \<Rightarrow> rat \<Rightarrow> ('w, 'a) eff \<Rightarrow> ('w, 'a) eff" where
  "hard_run_deadline th seconds body =
     (if seconds \<le> 0 then raiseE (Exc ValueError ''positive_hard_deadline_required'')
      else
        bindE (th_main_thread th) (\<lambda>main.
        if \<not> main then interrupted ''hosted_hard_deadline_unavailable_off_main_thread''
        else bindE (th_available th) (\<lambda>available.
        if \<not> available then interrupted ''hosted_hard_deadline_unavailable''
        else bindE (th_getitimer th) (\<lambda>(remaining, interval).
        if 0 < remaining \<or> 0 < interval then interrupted ''hosted_hard_deadline_timer_already_in_use''
        else bindE (th_getsignal th) (\<lambda>_.
             bindE (th_install th) (\<lambda>_.
             bindE (th_setitimer th seconds) (\<lambda>_. disarmed th body)))))))"

section \<open>The fence\<close>

record fence_world =
  fw_observation :: "pydict option"
  fw_running :: bool

record 'w worker_host =
  wh_clock :: "('w, rat) eff"
  wh_utcnow :: "('w, int) eff"

text \<open>A call to the outside, in the world of a run.\<close>

definition outside :: "('w, 'a) eff \<Rightarrow> (queue_lease \<times> 'w, 'a) eff" where
  "outside m lw = (case m (snd lw) of (x, w) \<Rightarrow> (x, (fst lw, w)))"

text \<open>\<open>except HostedRunInterrupted: raise\<close>, and every other \<open>Exception\<close> becomes one.\<close>

definition or_interrupted :: "string \<Rightarrow> ('w, 'a) eff \<Rightarrow> ('w, 'a) eff" where
  "or_interrupted m body =
     tryE body (\<lambda>e. if catches HostedRunInterrupted e then raiseE e
                   else if catches Exception e then interrupted m else raiseE e)"

definition check_expiry :: "'w worker_host \<Rightarrow> string option \<Rightarrow> ('w, unit) eff" where
  "check_expiry wh expires =
     (case expires of
        None \<Rightarrow> raiseE (Exc AttributeError ''replace'')
      | Some s \<Rightarrow>
          (case fromisoformat (replace_Z s) of
             None \<Rightarrow> raiseE (Exc ValueError ''Invalid isoformat string'')
           | Some d \<Rightarrow>
               bindE (wh_utcnow wh) (\<lambda>now.
               if \<not> aware d then raiseE (Exc TypeError (''can'' @ [CHR 0x27] @ ''t subtract offset-naive and offset-aware datetimes''))
               else if instant d - now \<le> 30000000 then interrupted ''hosted_lease_budget_insufficient''
               else retE ())))"

definition check_time :: "'w worker_host \<Rightarrow> rat \<Rightarrow> (queue_lease \<times> 'w, unit) eff" where
  "check_time wh deadline =
     bindE (outside (wh_clock wh)) (\<lambda>now.
     if deadline \<le> now then interrupted ''hosted_run_deadline_exceeded''
     else (\<lambda>lw. outside (check_expiry wh (ql_lease_expires_at (fst lw))) lw))"

text \<open>\<open>store.save_state(store.load_state(store.lease.task_id))\<close>.\<close>

definition resave :: "'w lease_store \<Rightarrow> (queue_lease \<times> 'w, unit) eff" where
  "resave ls = bindE (\<lambda>lw. (hs_load ls (ql_task_id (fst lw)) lw, lw)) (\<lambda>st. bindE (hs_save ls st) (\<lambda>_. retE ()))"

definition fence :: "'w worker_host \<Rightarrow> 'w lease_store \<Rightarrow> rat \<Rightarrow> (queue_lease \<times> 'w, unit) eff" where
  "fence wh ls deadline =
     or_interrupted ''hosted_fence_uncertain_requires_reconciliation''
       (bindE (check_time wh deadline) (\<lambda>_. bindE (resave ls) (\<lambda>_. check_time wh deadline)))"

text \<open>\<open>_FencedBridge._api_get\<close>: without a guard no request is made.\<close>

definition fenced_api :: "('w, unit) eff option \<Rightarrow> 'w api \<Rightarrow> 'w api" where
  "fenced_api guard api path =
     (case guard of
        None \<Rightarrow> interrupted ''hosted_request_guard_missing''
      | Some g \<Rightarrow> bindE g (\<lambda>_. bindE (api path) (\<lambda>result. bindE g (\<lambda>_. retE result))))"

section \<open>Evidence\<close>

definition evidence_payload :: "string \<Rightarrow> queue_lease \<Rightarrow> pydict \<Rightarrow> pydict" where
  "evidence_payload fp l data =
     [(''spec_fingerprint'', PStr fp), (''lease_generation'', PInt (ql_lease_generation l)), (''revision'', PInt (ql_revision l)),
      (''evidence'', PDict data)]"

definition acknowledged :: "activity_event \<Rightarrow> string \<Rightarrow> pyval \<Rightarrow> pydict \<Rightarrow> bool" where
  "acknowledged ack kind step payload \<longleftrightarrow>
     ev_event_type ack = kind \<and> py_eq (opt_str (ev_step_id ack)) step \<and> py_eq (PDict (ev_payload ack)) (PDict payload)"

definition append_evidence ::
  "'w lease_store \<Rightarrow> string \<Rightarrow> string \<Rightarrow> pydict \<Rightarrow> pydict \<Rightarrow> (queue_lease \<times> 'w, unit) eff" where
  "append_evidence ls fp kind data ctx lw =
     (let l = fst lw; payload = evidence_payload fp l data in
      bindE (liftE (dict_item ctx ''step_id'')) (\<lambda>step.
      bindE (outside (activity_append (ls_activity ls) (ql_task_id l) (PStr kind) step (PDict payload))) (\<lambda>ack.
      if acknowledged ack kind step payload then retE () else interrupted ''hosted_evidence_ack_mismatch'')) lw)"

definition record_evidence ::
  "'w worker_host \<Rightarrow> 'w lease_store \<Rightarrow> rat \<Rightarrow> string \<Rightarrow> string \<Rightarrow> pydict \<Rightarrow> pydict \<Rightarrow> (queue_lease \<times> 'w, unit) eff" where
  "record_evidence wh ls deadline fp kind data ctx =
     bindE (fence wh ls deadline) (\<lambda>_. bindE (append_evidence ls fp kind data ctx) (\<lambda>_. fence wh ls deadline))"

section \<open>The actions\<close>

fun result_data :: "action_value \<Rightarrow> pydict res" where
  "result_data (AV_Result r) = Inr (rs_data r)"
| "result_data _ = Inl (Exc AttributeError ''data'')"

definition observe :: "pydict option \<Rightarrow> (queue_lease \<times> 'x fence_world_scheme, unit) eff" where
  "observe obs lw = (Inr (), (fst lw, (snd lw)\<lparr>fw_observation := obs\<rparr>))"

definition observation :: "(queue_lease \<times> 'x fence_world_scheme, pydict option) eff" where
  "observation lw = (Inr (fw_observation (snd lw)), lw)"

definition named_action :: "(string \<times> 'w action) list \<Rightarrow> string \<Rightarrow> 'w action" where
  "named_action actions name args ctx =
     (case map_of actions name of None \<Rightarrow> raiseE (Exc KeyError name) | Some act \<Rightarrow> act args ctx)"

text \<open>\<open>rec\<close> is the closure \<open>record\<close> of the run, and \<open>actions\<close> those of the superclass.\<close>

definition repository_read ::
  "(string \<Rightarrow> pydict \<Rightarrow> pydict \<Rightarrow> (queue_lease \<times> 'x fence_world_scheme, unit) eff) \<Rightarrow>
   (string \<times> (queue_lease \<times> 'x fence_world_scheme) action) list \<Rightarrow> (queue_lease \<times> 'x fence_world_scheme) action" where
  "repository_read rec actions args ctx =
     or_interrupted ''hosted_observation_uncertain_requires_reconciliation''
       (bindE (named_action actions ''github.read_main'' args ctx) (\<lambda>result.
        bindE (liftE (result_data result)) (\<lambda>data.
        bindE (rec ''github_observation'' data ctx) (\<lambda>_.
        bindE (observe (Some data)) (\<lambda>_. retE result)))))"

definition observed_in :: "pydict \<Rightarrow> pyval res" where
  "observed_in args =
     (case dict_get_or args ''action_result'' (PDict []) of
        PDict r \<Rightarrow> Inr (dict_get r ''data'') | _ \<Rightarrow> Inl (Exc AttributeError ''get''))"

definition repository_verify ::
  "(string \<Rightarrow> pydict \<Rightarrow> pydict \<Rightarrow> (queue_lease \<times> 'x fence_world_scheme, unit) eff) \<Rightarrow>
   (string \<times> (queue_lease \<times> 'x fence_world_scheme) action) list \<Rightarrow> (queue_lease \<times> 'x fence_world_scheme) action" where
  "repository_verify rec actions args ctx =
     or_interrupted ''hosted_verification_uncertain_requires_reconciliation''
       (bindE observation (\<lambda>obs.
        case obs of
          None \<Rightarrow> interrupted ''hosted_observation_mismatch''
        | Some data \<Rightarrow>
            bindE (liftE (observed_in args)) (\<lambda>claimed.
            if \<not> py_eq claimed (PDict data) then interrupted ''hosted_observation_mismatch''
            else bindE (named_action actions ''github.verify_ci'' args ctx) (\<lambda>result.
                 bindE (liftE (result_data result)) (\<lambda>verdict.
                 bindE (rec ''github_verification'' verdict ctx) (\<lambda>_. retE result))))))"

section \<open>The worker\<close>

definition bridge_registry :: "(pydict \<Rightarrow> 'w \<Rightarrow> 'w) \<Rightarrow> 'w api \<Rightarrow> 'w registry res" where
  "bridge_registry audit api =
     bindR github_manifest (\<lambda>m.
     bindR (BridgeToolAdapter ''hosted-github-readonly'' (bridge_invoke audit (sha_read_main api) (sha_verify_ci api))
              (map binding_capability (rm_bindings m))) (\<lambda>adapter.
     register adapter ToolRegistry))"

record 'w repository_worker =
  pw_worker :: "'w readonly_worker"
  pw_claim_mode :: string
  pw_task_id :: string
  pw_fingerprint :: string
  pw_host :: "'w worker_host"
  pw_deadline_seconds :: rat
  pw_token :: string
  pw_get :: "'w api"
  pw_audit :: "pydict \<Rightarrow> 'w \<Rightarrow> 'w"

text \<open>What the worker is scoped to: the trusted template, or a validated run instance of it.\<close>

definition scoped_task ::
  "string \<Rightarrow> pydict res \<Rightarrow> 'w queue_host \<Rightarrow> task_spec option \<Rightarrow> (task_spec \<times> 'w queue_client \<times> string) res" where
  "scoped_task fp template_file h target =
     (case target of
        None \<Rightarrow>
          bindR (bindR template_file TaskSpec_from_dict) (\<lambda>spec. Inr (spec, HostedQueueClient h, ''legacy_fifo_template''))
      | Some target_spec \<Rightarrow>
          bindR (TaskSpec_from_dict (TaskSpec_to_dict target_spec)) (\<lambda>spec.
          bindR (validate_trusted_status_run_spec fp template_file spec) (\<lambda>_.
          bindR (BoundExactTaskQueueClient h spec) (\<lambda>client. Inr (spec, client, ''exact_trusted_run_instance'')))))"

definition HostedRepositoryStatusWorker ::
  "string \<Rightarrow> pydict res \<Rightarrow> 'w queue_host \<Rightarrow> 'w worker_host \<Rightarrow> 'w api \<Rightarrow> (pydict \<Rightarrow> 'w \<Rightarrow> 'w) \<Rightarrow> pyval \<Rightarrow> pyval \<Rightarrow> rat \<Rightarrow>
   task_spec option \<Rightarrow> 'w repository_worker res" where
  "HostedRepositoryStatusWorker fp template_file h wh get audit token authorized seconds target =
     bindR (scoped_task fp template_file h target) (\<lambda>(spec, client, mode).
     if seconds \<le> 0 then value_error ''positive_hard_deadline_required''
     else
       bindR (ShaPinnedGitHubReadOnlyBridge token) (\<lambda>t.
       bindR (bridge_registry audit (fenced_api None (sha_api_get t get))) (\<lambda>registry.
       Inr \<lparr>pw_worker = \<lparr>rw_queue = client, rw_activity = qh_transport h, rw_registry = registry,
                         rw_execution_authorized = authorized\<rparr>,
            pw_claim_mode = mode, pw_task_id = sp_task_id spec, pw_fingerprint = fingerprint spec, pw_host = wh,
            pw_deadline_seconds = seconds, pw_token = t, pw_get = get, pw_audit = audit\<rparr>)))"

text \<open>\<open>_scope_failure\<close>.\<close>

definition repository_scope_failure :: "'w repository_worker \<Rightarrow> queue_lease \<Rightarrow> string option" where
  "repository_scope_failure pw l =
     (if ql_task_id l \<noteq> pw_task_id pw \<or> fingerprint (ql_spec l) \<noteq> pw_fingerprint pw
      then Some ''hosted_task_outside_trusted_scope''
      else if ql_attempt_count l \<noteq> 1 \<or> st_attempts (ql_state l) \<noteq> [] \<or> st_completed_steps (ql_state l) \<noteq> []
      then Some ''hosted_prior_attempt_requires_reconciliation''
      else None)"

text \<open>The actions of the superclass, on the bridge whose guard is the fence of the run.\<close>

definition fenced_actions ::
  "'w repository_worker \<Rightarrow> 'w lease_store \<Rightarrow> rat \<Rightarrow> (string \<times> (queue_lease \<times> 'w) action) list" where
  "fenced_actions pw ls deadline =
     (let api = fenced_api (Some (fence (pw_host pw) ls deadline)) (\<lambda>path. outside (sha_api_get (pw_token pw) (pw_get pw) path));
          audit = (\<lambda>entry lw. (fst lw, pw_audit pw entry (snd lw)))
      in case bridge_registry audit api of Inl _ \<Rightarrow> [] | Inr registry \<Rightarrow> guarded_actions registry)"

definition repository_actions ::
  "'x fence_world_scheme repository_worker \<Rightarrow> 'x fence_world_scheme lease_store \<Rightarrow> rat \<Rightarrow>
   (string \<times> (queue_lease \<times> 'x fence_world_scheme) action) list" where
  "repository_actions pw ls deadline =
     (let rec = record_evidence (pw_host pw) ls deadline (pw_fingerprint pw); actions = fenced_actions pw ls deadline in
      [(''github.read_main'', repository_read rec actions), (''github.verify_ci'', repository_verify rec actions)])"

definition repository_store :: "'w repository_worker \<Rightarrow> string \<Rightarrow> pyval \<Rightarrow> 'w lease_store" where
  "repository_store pw worker secs =
     \<lparr>ls_host = qc_host (rw_queue (pw_worker pw)), ls_activity = rw_activity (pw_worker pw), ls_worker_id = worker,
      ls_lease_seconds = secs\<rparr>"

definition repository_runner ::
  "'x fence_world_scheme repository_worker \<Rightarrow> string \<Rightarrow> pyval \<Rightarrow> rat \<Rightarrow> (queue_lease \<times> 'x fence_world_scheme) runner" where
  "repository_runner pw worker secs deadline =
     (let ls = repository_store pw worker secs in
      \<lparr>rn_store = hs_ops ls, rn_actions = repository_actions pw ls deadline, rn_sink = None\<rparr>)"

text \<open>The run of a leased task: the deadline starts and the observation is empty.\<close>

definition run_repository ::
  "'x fence_world_scheme repository_worker \<Rightarrow> string \<Rightarrow> pyval \<Rightarrow> queue_lease \<Rightarrow> ('x fence_world_scheme, run_outcome) eff" where
  "run_repository pw worker secs l =
     bindE (wh_clock (pw_host pw)) (\<lambda>now w.
     case run (repository_runner pw worker secs (now + pw_deadline_seconds pw)) (ql_spec l) []
            (l, w\<lparr>fw_observation := None\<rparr>) of (r, (_, w')) \<Rightarrow> (r, w'))"

definition repository_run_next ::
  "'x fence_world_scheme timer_host \<Rightarrow> 'x fence_world_scheme repository_worker \<Rightarrow> string \<Rightarrow> pyval \<Rightarrow>
   ('x fence_world_scheme, readonly_result) eff" where
  "repository_run_next th pw worker secs =
     (let next_run = run_next_with (pw_worker pw) (repository_scope_failure pw) (run_repository pw worker secs) worker secs in
      if rw_execution_authorized (pw_worker pw) \<noteq> PBool True then next_run
      else (\<lambda>w.
        if fw_running w then (Inl (Exc HostedRunInterrupted ''hosted_worker_already_running''), w)
        else case hard_run_deadline th (pw_deadline_seconds pw) next_run (w\<lparr>fw_running := True\<rparr>) of
               (x, w') \<Rightarrow> (x, w'\<lparr>fw_running := False\<rparr>)))"

definition prepare_repository_worker ::
  "string \<Rightarrow> pydict res \<Rightarrow> (string \<Rightarrow> unit res) \<Rightarrow> 'w edge_requester \<Rightarrow> ('w \<Rightarrow> string) \<Rightarrow> 'w worker_host \<Rightarrow> 'w api \<Rightarrow>
   (pydict \<Rightarrow> 'w \<Rightarrow> 'w) \<Rightarrow> pyval \<Rightarrow> string \<Rightarrow> string \<Rightarrow> pyval \<Rightarrow> pyval \<Rightarrow> rat \<Rightarrow> task_spec option \<Rightarrow> 'w repository_worker res" where
  "prepare_repository_worker fp template_file bracket_check requester now wh get audit project_url key owner_token github_token
     authorized seconds target =
     bindR (SupabaseEdgeTransport bracket_check requester project_url key owner_token ''agent-runtime-dev'' (Seconds 20)) (\<lambda>t.
     HostedRepositoryStatusWorker fp template_file \<lparr>qh_transport = edge_client t, qh_clock = now\<rparr> wh get audit github_token
       authorized seconds target)"

end
