(* ===== verification/Repository_Results.thy ===== *)
theory Repository_Results
  imports Effect_Rules Repository_Worker Worker_Results
begin

text \<open>
  What the hosted repository worker keeps: its actions and fences leave the lease in the hands of the
  runner's contract, its failures are never retried, and no request leaves it without a fence.
\<close>

section \<open>The actions of the worker\<close>

definition read_cap :: capability where
  "read_cap = \<lparr>cap_action = ''github.read_main'', cap_access = ''read'', cap_required_permissions = [''contents:read''],
     cap_supports_dry_run = True, cap_description = ''Live GitHub Actions binding for repository contents read.''\<rparr>"

definition verify_cap :: capability where
  "verify_cap = \<lparr>cap_action = ''github.verify_ci'', cap_access = ''read'', cap_required_permissions = [''actions:read''],
     cap_supports_dry_run = True, cap_description = ''Live GitHub Actions binding for existing workflow-run verification.''\<rparr>"

lemma github_manifest_caps:
  "(case github_manifest of Inl e \<Rightarrow> Inl e | Inr m \<Rightarrow> Inr (map binding_capability (rm_bindings m))) = Inr [read_cap, verify_cap]"
  by code_simp

lemma github_manifest_Inr: "\<exists>m. github_manifest = Inr m \<and> map binding_capability (rm_bindings m) = [read_cap, verify_cap]"
  using github_manifest_caps by (auto split: sum.splits)

definition status_registry :: "'w bridge \<Rightarrow> 'w registry" where
  "status_registry invoke =
     \<lparr>rg_actions = [(''github.read_main'', bridge_action invoke read_cap), (''github.verify_ci'', bridge_action invoke verify_cap)],
      rg_capabilities = [(''github.read_main'', read_cap), (''github.verify_ci'', verify_cap)],
      rg_adapter_for_action = [(''github.read_main'', ''hosted-github-readonly''), (''github.verify_ci'', ''hosted-github-readonly'')]\<rparr>"

lemma bridge_registry_eq:
  "bridge_registry audit api = Inr (status_registry (bridge_invoke audit (sha_read_main api) (sha_verify_ci api)))"
proof -
  obtain m where "github_manifest = Inr m \<and> map binding_capability (rm_bindings m) = [read_cap, verify_cap]"
    using github_manifest_Inr ..
  then have m: "github_manifest = Inr m" "map binding_capability (rm_bindings m) = [read_cap, verify_cap]"
    by (rule conjunct1, rule conjunct2)
  have name: "\<not> blank ''hosted-github-readonly''" by code_simp
  have order: "sort_key cap_action [read_cap, verify_cap] = [read_cap, verify_cap]" by code_simp
  show ?thesis
    unfolding bridge_registry_def m bindR_simps BridgeToolAdapter_def
    using name order
    by (simp add: read_cap_def verify_cap_def register_def capabilities_dict_def dict_update_def same_keys_def ToolRegistry_def
        sorted_set_def status_registry_def)
qed

lemma fenced_actions_eq:
  "fenced_actions pw ls deadline =
     (let api = fenced_api (Some (fence (pw_host pw) ls deadline)) (\<lambda>path. outside (sha_api_get (pw_token pw) (pw_get pw) path));
          invoke = bridge_invoke (\<lambda>entry lw. (fst lw, pw_audit pw entry (snd lw))) (sha_read_main api) (sha_verify_ci api)
      in [(''github.read_main'', guarded_action (bridge_action invoke read_cap)),
          (''github.verify_ci'', guarded_action (bridge_action invoke verify_cap))])"
  by (simp add: fenced_actions_def bridge_registry_eq guarded_actions_def status_registry_def registry_capability_def
      Let_def read_cap_def verify_cap_def)

section \<open>The lease under the worker\<close>

lemma keeps_outside [keeps_rules]: "keeps (hs_inv g) (outside m)"
  by (simp add: keeps_def outside_def hs_inv_def split: prod.split)

lemma keeps_save [keeps_rules]:
  assumes "queue_backend_ok (ls_host ls)"
  shows "keeps (hs_inv g) (hs_save ls st)"
  unfolding keeps_def
proof (intro allI impI)
  fix lw :: "queue_lease \<times> 'a"
  assume inv: "hs_inv g lw"
  obtain l w where lw: "lw = (l, w)" by (cases lw)
  show "hs_inv g (snd (hs_save ls st lw))"
  proof -
    obtain r l' w' where r: "hs_save ls st (l, w) = (r, (l', w'))" by (metis surj_pair)
    show ?thesis
    proof (cases r)
      case (Inl e)
      then have "l' = l" using r by (auto simp: hs_save_def Let_def split: if_splits prod.splits sum.splits)
      with inv r show ?thesis by (simp add: lw hs_inv_def)
    next
      case (Inr now)
      then have eq: "hs_save ls st (l, w) = (Inr now, (l', w'))" using r by simp
      with hs_save_Inr [OF assms hs_save_schema [OF eq] eq] inv show ?thesis
        by (auto simp: lw hs_inv_def touch_def)
    qed
  qed
qed

lemma keeps_check [keeps_rules]: "keeps (hs_inv g) (check_time wh deadline)"
proof -
  have "keeps (hs_inv g) (\<lambda>lw. outside (check_expiry wh (ql_lease_expires_at (fst lw))) lw)"
    using keeps_outside unfolding keeps_def by blast
  then show ?thesis
    unfolding check_time_def interrupted_def by (intro keeps_rules)
qed

lemma keeps_or_interrupted [keeps_rules]: "keeps I m \<Longrightarrow> keeps I (or_interrupted text m)"
  unfolding or_interrupted_def interrupted_def by (intro keeps_rules)

lemma keeps_pure_read: "keeps I (\<lambda>lw. (f lw, lw))"
  by (simp add: keeps_def)

lemma keeps_fence [keeps_rules]: "queue_backend_ok (ls_host ls) \<Longrightarrow> keeps (hs_inv g) (fence wh ls deadline)"
  unfolding fence_def resave_def by (intro keeps_rules keeps_pure_read)

lemma keeps_api:
  assumes "queue_backend_ok (ls_host ls)"
  shows "keeps (hs_inv g) (fenced_api (Some (fence wh ls deadline)) (\<lambda>path. outside (get path)) path)"
  unfolding fenced_api_def option.case by (intro keeps_rules assms)

lemma keeps_pinned_files [keeps_rules]: "(\<And>p. keeps I (api p)) \<Longrightarrow> keeps I (pinned_files api repo sha ps files)"
  by (induction ps arbitrary: files) (auto intro!: keeps_rules)

lemma keeps_fetch_runs [keeps_rules]: "(\<And>p. keeps I (api p)) \<Longrightarrow> keeps I (fetch_runs api repo sha pages expected runs)"
proof (induction pages arbitrary: expected runs)
  case Nil
  show ?case unfolding fetch_runs.simps runtime_error_def by (intro keeps_rules)
next
  case (Cons p ps)
  then show ?case
    unfolding fetch_runs.simps Let_def runtime_error_def by (intro keeps_rules) simp_all
qed

lemma keeps_main_sha [keeps_rules]: "(\<And>p. keeps I (api p)) \<Longrightarrow> keeps I (main_sha api repo)"
  unfolding main_sha_def runtime_error_def by (intro keeps_rules) simp_all

lemma keeps_sha_bridge [keeps_rules]:
  assumes "\<And>p. keeps I (api p)"
  shows "keeps I (sha_read_main api args ctx)" "keeps I (sha_verify_ci api args ctx)"
  unfolding sha_read_main_def sha_verify_ci_def sha_runs_def by (intro keeps_rules assms)+

lemma keeps_bridge_action [keeps_rules]:
  assumes "\<And>entry. keeps I (\<lambda>w. (Inr (), audit entry w))" and "\<And>args ctx. keeps I (reading args ctx)"
    and "\<And>args ctx. keeps I (verifying args ctx)"
  shows "keeps I (guarded_action (bridge_action (bridge_invoke audit reading verifying) cap) args ctx)"
  unfolding guarded_action_def bridge_action_def bridge_invoke_def by (intro keeps_rules assms)

lemma keeps_named: "(\<And>n act. (n, act) \<in> set actions \<Longrightarrow> keeps I (act args ctx)) \<Longrightarrow> keeps I (named_action actions name args ctx)"
  unfolding named_action_def by (cases "map_of actions name") (auto intro: keeps_rules dest: map_of_SomeD)

lemma keeps_fenced_action:
  assumes "queue_backend_ok (ls_host ls)"
  shows "keeps (hs_inv g) (named_action (fenced_actions pw ls deadline) name args ctx)"
proof (rule keeps_named)
  fix n act
  assume "(n, act) \<in> set (fenced_actions pw ls deadline)"
  moreover have "keeps (hs_inv g) (\<lambda>lw. (Inr (), (fst lw, pw_audit pw entry (snd lw))))" for entry
    by (simp add: keeps_def hs_inv_def)
  ultimately show "keeps (hs_inv g) (act args ctx)"
    by (auto simp: fenced_actions_eq Let_def intro!: keeps_bridge_action keeps_sha_bridge keeps_api [OF assms])
qed

lemma keeps_record:
  assumes "queue_backend_ok (ls_host ls)"
  shows "keeps (hs_inv g) (record_evidence wh ls deadline fp kind data ctx)"
proof -
  have "keeps (hs_inv g) (append_evidence ls fp kind data ctx)"
    unfolding append_evidence_def Let_def keeps_def interrupted_def
    by (intro allI impI, rule keepsD [OF _ _ prod.collapse [symmetric]]) (intro keeps_rules, assumption)
  then show ?thesis unfolding record_evidence_def by (intro keeps_rules assms)
qed

lemma keeps_observe [keeps_rules]: "keeps (hs_inv g) (observe obs)"
  by (simp add: keeps_def observe_def hs_inv_def)

lemma keeps_observation [keeps_rules]: "keeps I observation"
  by (simp add: keeps_def observation_def)

lemma repository_actions_keep:
  assumes ok: "queue_backend_ok (ls_host ls)" and act: "(n, act) \<in> set (repository_actions pw ls deadline)"
  shows "keeps (hs_inv g) (act args ctx)"
proof -
  let ?rec = "record_evidence (pw_host pw) ls deadline (pw_fingerprint pw)" and ?acts = "fenced_actions pw ls deadline"
  have "keeps (hs_inv g) (repository_read ?rec ?acts args ctx)"
    unfolding repository_read_def by (intro keeps_rules keeps_record [OF ok] keeps_fenced_action [OF ok])
  moreover have "keeps (hs_inv g) (repository_verify ?rec ?acts args ctx)"
    unfolding repository_verify_def interrupted_def
    by (intro keeps_rules keeps_record [OF ok] keeps_fenced_action [OF ok])
  ultimately show ?thesis using act by (auto simp: repository_actions_def Let_def)
qed

section \<open>Runs\<close>

lemma repository_runner_keeps:
  assumes "queue_backend_ok (qc_host (rw_queue (pw_worker pw)))"
  shows "runner_keeps (hs_inv g) (repository_runner pw worker secs deadline)"
proof -
  have ok: "queue_backend_ok (ls_host (repository_store pw worker secs))"
    using assms by (simp add: repository_store_def)
  have "hs_inv g (snd (act args ctx w))"
    if "map_of (rn_actions (repository_runner pw worker secs deadline)) n = Some act" and "hs_inv g w" for n act args ctx w
  proof -
    from that(1) have "(n, act) \<in> set (repository_actions pw (repository_store pw worker secs) deadline)"
      by (simp add: repository_runner_def Let_def map_of_SomeD)
    from repository_actions_keep [OF ok this, of g args ctx] that(2) show ?thesis unfolding keeps_def by blast
  qed
  then show ?thesis by (simp add: runner_keeps_def repository_runner_def Let_def)
qed

text \<open>A run that returns, of the repository worker on a leased task in its scope, with every request fenced by a save
  and every piece of evidence recorded in the ledger, ends with the lease released in a sound terminal state of
  the claimed generation, which the outcome reports.\<close>

theorem repository_run_ends_released:
  assumes "queue_backend_ok (qc_host (rw_queue (pw_worker pw)))" and "lease_ok l" and "ql_status l = ''running''"
    and "st_updated_at (ql_state l) \<noteq> []" and "repository_scope_failure pw l = None"
    and "run (repository_runner pw worker secs deadline) (ql_spec l) [] (l, w) = (Inr out, (l', w'))"
  shows "lease_ok l' \<and> ql_status l' \<in> {''completed'', ''blocked'', ''failed''} \<and> ql_lease_owner l' = None \<and>
    ql_lease_generation l' = ql_lease_generation l \<and> ql_task_id l' = pw_task_id pw \<and>
    sound (ql_spec l) (ql_state l') \<and> ro_status out = PStr (ql_status l')"
proof -
  let ?ls = "repository_store pw worker secs"
  have scope: "ql_task_id l = pw_task_id pw" "st_attempts (ql_state l) = []"
    using assms(5) by (auto simp: repository_scope_failure_def split: if_splits)
  have "bounded (ql_spec l) (ql_state l)"
    using assms(2) by (auto simp: lease_ok_def TaskSpec_validate_ok list_all_iff step_valid_def bounded_def attempt_count_def scope(2))
  from lease_store_run_released [of ?ls, OF _ assms(2-4) this _ repository_runner_keeps [OF assms(1)] assms(6)]
  show ?thesis using assms(1) by (simp add: repository_store_def repository_runner_def Let_def scope(1))
qed

section \<open>No retry\<close>

lemma interrupted_no_exception: "catches HostedRunInterrupted e \<Longrightarrow> \<not> catches Exception e"
  by (cases "exc_cls e") (simp_all add: catches_def)

lemma blocked_is_exception: "catches BlockedAction e \<Longrightarrow> catches Exception e"
  by (cases "exc_cls e") (simp_all add: catches_def)

lemma or_interrupted_Inl: "or_interrupted m body w = (Inl e, w') \<Longrightarrow> \<not> catches Exception e"
  using interrupted_no_exception [of "Exc HostedRunInterrupted m"]
  by (auto simp: or_interrupted_def tryE_apply interrupted_def catches_def [of HostedRunInterrupted "Exc _ _"]
      dest: interrupted_no_exception split: prod.splits sum.splits if_splits)

lemma repository_action_Inl:
  assumes "(n, act) \<in> set (repository_actions pw ls deadline)" and "act args ctx lw = (Inl e, lw')"
  shows "\<not> catches Exception e"
  using assms by (auto simp: repository_actions_def Let_def repository_read_def repository_verify_def dest: or_interrupted_Inl)

lemma or_interrupted_Inr: "or_interrupted m body w = (Inr x, w') \<Longrightarrow> body w = (Inr x, w')"
  by (auto simp: or_interrupted_def tryE_apply interrupted_def split: prod.splits sum.splits if_splits)

lemma result_data_Inr: "result_data v = Inr d \<Longrightarrow> \<exists>r. v = AV_Result r \<and> rs_data r = d"
  by (cases v) auto

lemma repository_action_Inr:
  assumes "(n, act) \<in> set (repository_actions pw ls deadline)" and "act args ctx lw = (Inr v, lw')"
  shows "\<exists>r. v = AV_Result r"
  using assms
  by (auto simp: repository_actions_def Let_def repository_read_def repository_verify_def bindE_eq_Inr interrupted_def
      dest!: or_interrupted_Inr result_data_Inr split: option.splits if_splits)

text \<open>C39. The runner never retries an action of the repository worker, whatever the step allows. Its loop over
  attempts is a single attempt: the attempt is saved and announced, the action runs once, and a failure ends the
  run at once with the attempt still open in the durable state.\<close>

theorem repository_action_runs_once:
  assumes "(n, act) \<in> set (repository_actions pw ls deadline)"
  shows "attempt_loop rn spec step act ctx st =
    bindE (so_save (rn_store rn) (begin_attempt st (ss_step_id step))) (\<lambda>now.
    bindE (so_event (rn_store rn) (sp_task_id spec) (Some (ss_step_id step)) ''step_started'' (ss_action step)
             [(''attempt'', PInt (attempt_count st (ss_step_id step) + 1)), (''retry_safe'', PBool (ss_retry_safe step))]) (\<lambda>_.
    bindE (act (ss_args step) ctx) (\<lambda>v.
    bindE (liftE (normalise_action_result v)) (\<lambda>r.
    retE (Got r (touch now (begin_attempt st (ss_step_id step))))))))"
proof -
  have no_block: "\<not> catches Exception e \<Longrightarrow> \<not> catches BlockedAction e" for e using blocked_is_exception by blast
  have "(case invoke_action act (ss_args step) ctx w of (Inr r, w') \<Rightarrow> (Inr (Got r st1), w')
     | (Inl e, w') \<Rightarrow> if catches BlockedAction e then F e w' else if catches Exception e then G e w' else (Inl e, w')) =
    bindE (act (ss_args step) ctx) (\<lambda>v. bindE (liftE (normalise_action_result v)) (\<lambda>r. retE (Got r st1))) w" for w st1 F G
  proof -
    obtain x w' where Pair: "act (ss_args step) ctx w = (x, w')" by (metis surj_pair)
    show ?thesis
    proof (cases x)
      case (Inl e)
      then show ?thesis
        using repository_action_Inl [OF assms, of "ss_args step" ctx w e w'] no_block [of e] Pair
        by (simp add: invoke_action_def bindE_apply)
    next
      case (Inr v)
      then obtain r where "v = AV_Result r" using repository_action_Inr [OF assms] Pair by blast
      with Inr Pair show ?thesis by (simp add: invoke_action_def bindE_apply)
    qed
  qed
  then show ?thesis
    unfolding attempt_loop.simps [of rn spec step act ctx st] Let_def by simp
qed

section \<open>No request without a fence\<close>

definition fails :: "('w, 'a) eff \<Rightarrow> bool" where
  "fails m \<longleftrightarrow> (\<forall>w. \<exists>e w'. m w = (Inl e, w'))"

lemma fails_cut: "fails m \<Longrightarrow> bindE m f = bindE m g"
  unfolding fails_def by (rule ext) (metis bindE_eqs(2))

lemma fails_basic: "fails (raiseE e)" "fails m \<Longrightarrow> fails (bindE m f)" "(\<And>x. fails (f x)) \<Longrightarrow> fails (bindE m f)"
proof -
  show "fails (raiseE e)" by (simp add: fails_def)
  show "fails (bindE m f)" if "fails m" using that unfolding fails_def by (metis bindE_eqs(2))
  show "fails (bindE m f)" if f: "\<And>x. fails (f x)"
    unfolding fails_def
  proof
    fix w
    obtain r w' where r: "m w = (r, w')" by fastforce
    with f show "\<exists>e w'. bindE m f w = (Inl e, w')"
      by (cases r) (simp_all add: bindE_apply fails_def)
  qed
qed

lemma fails_if: "(c \<Longrightarrow> fails m) \<Longrightarrow> (\<not> c \<Longrightarrow> fails n) \<Longrightarrow> fails (if c then m else n)"
  by simp

lemma tryE_fails: "m w = (Inl e, w') \<Longrightarrow> tryE m h w = h e w'"
  by (simp add: tryE_apply)

lemma fails_or_interrupted: "fails m \<Longrightarrow> fails (or_interrupted text m)"
  unfolding fails_def
proof
  fix w
  assume "\<forall>w. \<exists>e w'. m w = (Inl e, w')"
  then obtain e w' where "m w = (Inl e, w')" by blast
  then show "\<exists>e w'. or_interrupted text m w = (Inl e, w')"
    by (simp add: or_interrupted_def interrupted_def tryE_fails)
qed

lemma fails_sha_bridge:
  assumes "\<And>p. fails (api p)"
  shows "fails (sha_read_main api args ctx)" "fails (sha_verify_ci api args ctx)"
proof -
  have main: "fails (main_sha api repo)" for repo unfolding main_sha_def by (intro fails_basic(2) assms)
  show "fails (sha_read_main api args ctx)"
    unfolding sha_read_main_def by (rule fails_basic(3), rule fails_basic(3), rule fails_basic(2), rule main)
  have runs: "fails (sha_runs api repo sha)" for repo sha
    unfolding sha_runs_def by (simp add: upt_rec) (rule fails_basic(2), rule assms)
  show "fails (sha_verify_ci api args ctx)"
    unfolding sha_verify_ci_def by (rule fails_basic(3), rule fails_basic(3)) (simp only: split_def fails_basic(2) [OF runs])
qed

lemma fails_bridge_action:
  assumes "fails (reading args ctx)" and "fails (verifying args ctx)" and "cap_access cap = ''read''"
    and "cap_action cap \<in> {''github.read_main'', ''github.verify_ci''}"
  shows "fails (guarded_action (bridge_action (bridge_invoke audit reading verifying) cap) args ctx)"
  unfolding guarded_action_def bridge_action_def bridge_invoke_def
  by (rule fails_basic(2), rule fails_basic(2), rule fails_basic(3)) (use assms in auto)

lemma fails_fenced_actions:
  assumes "\<And>lw. \<exists>e lw'. fence (pw_host pw) ls deadline lw = (Inl e, lw')"
  shows "list_all (\<lambda>(n, act). \<forall>args ctx. fails (act args ctx)) (fenced_actions pw ls deadline)"
proof -
  have "fails (fenced_api (Some (fence (pw_host pw) ls deadline)) api p)" for api p
    unfolding fenced_api_def option.case by (rule fails_basic(2)) (unfold fails_def, intro allI assms)
  note bridge = fails_sha_bridge [OF this]
  have "cap_access read_cap = ''read''" "cap_action read_cap = ''github.read_main''"
    "cap_access verify_cap = ''read''" "cap_action verify_cap = ''github.verify_ci''"
    by (simp_all add: read_cap_def verify_cap_def)
  then show ?thesis
    by (simp add: fenced_actions_eq Let_def fails_bridge_action bridge)
qed

lemma fails_named:
  assumes "list_all (\<lambda>(n, act). \<forall>args ctx. fails (act args ctx)) actions"
  shows "fails (named_action actions name args ctx)"
  using assms unfolding named_action_def
  by (cases "map_of actions name") (auto simp: fails_basic(1) list_all_iff dest!: map_of_SomeD)

text \<open>C18. No request to GitHub leaves the worker without a fence. When the fence fails in every state, because
  the deadline has passed, the lease is short or its save is refused, the actions do not depend on the client of
  the GitHub API at all and each of them fails.\<close>

theorem repository_requests_are_fenced:
  assumes "\<And>lw. \<exists>e lw'. fence (pw_host pw) ls deadline lw = (Inl e, lw')"
  shows "repository_actions (pw\<lparr>pw_get := get'\<rparr>) ls deadline = repository_actions pw ls deadline \<and>
    list_all (\<lambda>(n, act). \<forall>args ctx. fails (act args ctx)) (repository_actions pw ls deadline)"
proof -
  have "fenced_api (Some (fence (pw_host pw) ls deadline)) (\<lambda>path. outside (sha_api_get (pw_token pw) get' path)) =
    fenced_api (Some (fence (pw_host pw) ls deadline)) (\<lambda>path. outside (sha_api_get (pw_token pw) (pw_get pw) path))"
    unfolding fenced_api_def option.case
    by (rule ext, rule fails_cut) (unfold fails_def, intro allI assms)
  then have "fenced_actions (pw\<lparr>pw_get := get'\<rparr>) ls deadline = fenced_actions pw ls deadline"
    by (simp add: fenced_actions_eq)
  then have same: "repository_actions (pw\<lparr>pw_get := get'\<rparr>) ls deadline = repository_actions pw ls deadline"
    by (simp add: repository_actions_def)
  note named = fails_named [OF fails_fenced_actions [OF assms]]
  let ?rec = "record_evidence (pw_host pw) ls deadline (pw_fingerprint pw)" and ?acts = "fenced_actions pw ls deadline"
  have "fails (repository_read ?rec ?acts args ctx)" for args ctx
    unfolding repository_read_def by (intro fails_or_interrupted fails_basic(2) named)
  moreover have "fails (repository_verify ?rec ?acts args ctx)" for args ctx
    unfolding repository_verify_def interrupted_def
  proof (intro fails_or_interrupted fails_basic(3))
    fix obs
    show "fails (case obs of None \<Rightarrow> raiseE (Exc HostedRunInterrupted ''hosted_observation_mismatch'')
      | Some data \<Rightarrow> bindE (liftE (observed_in args)) (\<lambda>claimed.
          if \<not> py_eq claimed (PDict data) then raiseE (Exc HostedRunInterrupted ''hosted_observation_mismatch'')
          else bindE (named_action ?acts ''github.verify_ci'' args ctx) (\<lambda>result.
               bindE (liftE (result_data result)) (\<lambda>verdict.
               bindE (?rec ''github_verification'' verdict ctx) (\<lambda>_. retE result)))))"
    proof (cases obs)
      case (Some data)
      then show ?thesis
        by simp (rule fails_basic(3), rule fails_if, rule fails_basic(1), rule fails_basic(2), rule named)
    qed (simp add: fails_basic(1))
  qed
  ultimately show ?thesis using same by (simp add: repository_actions_def Let_def)
qed

section \<open>A worker\<close>

definition rp_worker :: "fence_world repository_worker" where
  "rp_worker = \<lparr>pw_worker = \<lparr>rw_queue = HostedQueueClient demo_queue, rw_activity = demo_transport, rw_registry = ToolRegistry,
       rw_execution_authorized = PBool True\<rparr>,
     pw_claim_mode = ''exact_trusted_run_instance'', pw_task_id = ''t1'', pw_fingerprint = fingerprint demo_spec,
     pw_host = \<lparr>wh_clock = retE 10, wh_utcnow = retE 0\<rparr>, pw_deadline_seconds = 180, pw_token = ''tok'',
     pw_get = (\<lambda>_. retE PNone), pw_audit = (\<lambda>_ w. w)\<rparr>"

abbreviation rp_store :: "fence_world lease_store" where
  "rp_store \<equiv> repository_store rp_worker ''w1'' (PInt 60)"

lemma rp_fence: "\<exists>e lw'. fence (pw_host rp_worker) ls 5 lw = (Inl e, lw')"
  by (simp add: fence_def or_interrupted_def tryE_apply bindE_apply check_time_def outside_def rp_worker_def interrupted_def
      catches_def)

theorem repository_requests_are_fenced_witness:
  "repository_actions (rp_worker\<lparr>pw_get := \<lambda>_. raiseE (Exc SystemExit ''requested'')\<rparr>) rp_store 5 = repository_actions rp_worker rp_store 5"
  using repository_requests_are_fenced [of rp_worker rp_store 5 "\<lambda>_. raiseE (Exc SystemExit ''requested'')", OF rp_fence] by simp

lemma rp_actions: "(''github.read_main'', repository_read (record_evidence (pw_host rp_worker) rp_store 5 (pw_fingerprint rp_worker))
    (fenced_actions rp_worker rp_store 5)) \<in> set (repository_actions rp_worker rp_store 5)"
  by (simp add: repository_actions_def Let_def)

lemma rp_read_fails: "fails (repository_read (record_evidence (pw_host rp_worker) rp_store 5 (pw_fingerprint rp_worker))
    (fenced_actions rp_worker rp_store 5) args ctx)"
  unfolding repository_read_def
  by (intro fails_or_interrupted fails_basic(2) fails_named fails_fenced_actions rp_fence)

theorem repository_action_runs_once_witness:
  "fails (attempt_loop (repository_runner rp_worker ''w1'' (PInt 60) 5) demo_spec demo_step
     (repository_read (record_evidence (pw_host rp_worker) rp_store 5 (pw_fingerprint rp_worker))
        (fenced_actions rp_worker rp_store 5)) [] demo_crashed)"
  unfolding repository_action_runs_once [OF rp_actions]
  by (rule fails_basic(3), rule fails_basic(3), rule fails_basic(2), rule rp_read_fails)

definition rp_fresh :: task_state where
  "rp_fresh = demo_crashed\<lparr>st_attempts := []\<rparr>"

abbreviation rp_running :: task_state where
  "rp_running \<equiv> touch ''now'' (rp_fresh\<lparr>st_status := PStr ''running'', st_blocked_reason := PNone, st_last_error := PNone\<rparr>)"

abbreviation rp_blocked :: task_state where
  "rp_blocked \<equiv> touch ''now'' (rp_running\<lparr>st_status := PStr ''blocked'', st_blocked_reason := PStr ''action_unavailable:fetch'',
     st_last_error := PNone\<rparr>)"

lemma rp_clean: "clean_val (PDict (TaskState_to_dict rp_fresh))"
  by (simp add: TaskState_to_dict_def rp_fresh_def demo_crashed_def keys_allowed)

lemma rp_save_clean: "clean_val (PDict (TaskState_to_dict rp_running))" "clean_val (PDict (TaskState_to_dict rp_blocked))"
  using rp_clean by (simp_all add: TaskState_to_dict_def touch_def)

lemma rp_saves:
  "queue_save demo_queue demo_spec rp_running (PInt 4) ''w1'' (PInt 1) (PInt 60) w = (Inr (demo_lease rp_running ''running'' 5), w)"
  "queue_save demo_queue demo_spec rp_blocked (PInt 5) ''w1'' (PInt 1) (PInt 60) w = (Inr (demo_lease rp_blocked ''blocked'' 6), w)"
  using demo_save [of rp_running "''running''" 4 w] demo_save [of rp_blocked "''blocked''" 5 w] rp_save_clean
  by (simp_all add: touch_def rp_fresh_def demo_crashed_def)

lemma rp_store_ops:
  "so_save (hs_ops rp_store) (rp_fresh\<lparr>st_status := PStr ''running'', st_blocked_reason := PNone, st_last_error := PNone\<rparr>)
     (demo_lease rp_fresh ''running'' 4, w) = (Inr ''now'', (demo_lease rp_running ''running'' 5, w))"
  "so_save (hs_ops rp_store) (rp_running\<lparr>st_status := PStr ''blocked'', st_blocked_reason := PStr ''action_unavailable:fetch'',
     st_last_error := PNone\<rparr>) (demo_lease rp_running ''running'' 5, w) = (Inr ''now'', (demo_lease rp_blocked ''blocked'' 6, w))"
  "so_event (hs_ops rp_store) ''t1'' None ''task_started'' ''Demo'' [] (demo_lease rp_running ''running'' 5, w) =
     (Inr (), (demo_lease rp_running ''running'' 5, w))"
  "so_event (hs_ops rp_store) ''t1'' (Some ''s1'') ''task_blocked'' ''action_unavailable:fetch'' []
     (demo_lease rp_blocked ''blocked'' 6, w) = (Inr (), (demo_lease rp_blocked ''blocked'' 6, w))"
proof -
  have store: "ls_host rp_store = demo_queue" "ls_activity rp_store = demo_transport" "ls_worker_id rp_store = ''w1''"
    "ls_lease_seconds rp_store = PInt 60"
    by (simp_all add: repository_store_def rp_worker_def)
  have tid: "st_task_id rp_fresh = ''t1''" by (simp add: rp_fresh_def demo_crashed_def)
  show "so_save (hs_ops rp_store) (rp_fresh\<lparr>st_status := PStr ''running'', st_blocked_reason := PNone, st_last_error := PNone\<rparr>)
     (demo_lease rp_fresh ''running'' 4, w) = (Inr ''now'', (demo_lease rp_running ''running'' 5, w))"
    by (simp add: hs_ops_def hs_save_def store tid rp_saves(1) Let_def)
  show "so_save (hs_ops rp_store) (rp_running\<lparr>st_status := PStr ''blocked'', st_blocked_reason := PStr ''action_unavailable:fetch'',
     st_last_error := PNone\<rparr>) (demo_lease rp_running ''running'' 5, w) = (Inr ''now'', (demo_lease rp_blocked ''blocked'' 6, w))"
    by (simp add: hs_ops_def hs_save_def store tid rp_saves(2) Let_def)
  have strip: "strip ''task_started'' = ''task_started''" by code_simp
  obtain e where "activity_append demo_transport ''t1'' (PStr ''task_started'') PNone
      (PDict [(''message'', PStr ''Demo''), (''data'', PDict [])]) w = (Inr e, w)"
    using demo_append [OF strip, of "[(''message'', PStr ''Demo''), (''data'', PDict [])]" w] by (auto simp: keys_allowed)
  then show "so_event (hs_ops rp_store) ''t1'' None ''task_started'' ''Demo'' [] (demo_lease rp_running ''running'' 5, w) =
     (Inr (), (demo_lease rp_running ''running'' 5, w))"
    by (simp add: hs_ops_def hs_append_event_def store opt_str_def)
  obtain e' where "activity_append demo_transport ''t1'' (PStr ''task_blocked'') (PStr ''s1'')
      (PDict [(''message'', PStr ''action_unavailable:fetch''), (''data'', PDict [])]) w = (Inr e', w)"
    using demo_append_step [of "PStr ''s1''" "''task_blocked''" "[(''message'', PStr ''action_unavailable:fetch''), (''data'', PDict [])]" w]
    by (auto simp: keys_allowed demo_event_types)
  then show "so_event (hs_ops rp_store) ''t1'' (Some ''s1'') ''task_blocked'' ''action_unavailable:fetch'' []
     (demo_lease rp_blocked ''blocked'' 6, w) = (Inr (), (demo_lease rp_blocked ''blocked'' 6, w))"
    by (simp add: hs_ops_def hs_append_event_def store opt_str_def)
qed

lemma rp_run:
  "\<exists>out. run (repository_runner rp_worker ''w1'' (PInt 60) 200) demo_spec [] (demo_lease rp_fresh ''running'' 4, w) =
     (Inr out, (demo_lease rp_blocked ''blocked'' 6, w))"
proof -
  let ?rn = "repository_runner rp_worker ''w1'' (PInt 60) 200"
  have off: "map_of (rn_actions ?rn) ''fetch'' = None"
    by (simp add: repository_runner_def repository_actions_def Let_def)
  have rn: "rn_store ?rn = hs_ops rp_store"
    by (simp add: repository_runner_def Let_def)
  have fresh: "st_task_id rp_fresh = ''t1''" "st_status rp_fresh = PStr ''running''" "st_attempts rp_fresh = []"
    "st_completed_steps rp_fresh = []" "st_spec_fingerprint rp_fresh = PStr (fingerprint demo_spec)"
    "st_schema_version rp_fresh = STATE_SCHEMA_VERSION" "st_updated_at rp_fresh \<noteq> []"
    by (simp_all add: rp_fresh_def demo_crashed_def)
  have store: "so_lock (hs_ops rp_store) ''t1'' (demo_lease rp_fresh ''running'' 4, w) = (Inr (), (demo_lease rp_fresh ''running'' 4, w))"
    "so_exists (hs_ops rp_store) ''t1'' (demo_lease rp_fresh ''running'' 4, w) = Inr True"
    "so_load (hs_ops rp_store) ''t1'' (demo_lease rp_fresh ''running'' 4, w) = Inr rp_fresh"
    "so_unlock (hs_ops rp_store) tid lw = lw" for tid lw
    using fresh(6,7) by (simp_all add: hs_ops_def hs_lock_def hs_exists_def hs_load_def TaskState_roundtrip)
  have spec: "sp_task_id demo_spec = ''t1''" "sp_title demo_spec = ''Demo''" "sp_steps demo_spec = [demo_step]"
    "ss_step_id demo_step = ''s1''" "ss_action demo_step = ''fetch''"
    by (simp_all add: demo_spec_def demo_step_def)
  have saves: "save_state ?rn (rp_fresh\<lparr>st_status := PStr ''running'', st_blocked_reason := PNone, st_last_error := PNone\<rparr>)
       (demo_lease rp_fresh ''running'' 4, w) = (Inr rp_running, (demo_lease rp_running ''running'' 5, w))"
    "save_state ?rn (rp_running\<lparr>st_status := PStr ''blocked'', st_blocked_reason := PStr ''action_unavailable:fetch'',
       st_last_error := opt_str None\<rparr>) (demo_lease rp_running ''running'' 5, w) = (Inr rp_blocked, (demo_lease rp_blocked ''blocked'' 6, w))"
    unfolding save_state_def rn by (simp_all only: bindE_apply rp_store_ops opt_str_def option.case prod.case sum.case eff_apply)
  have after: "st_completed_steps rp_running = []" "st_task_id rp_blocked = ''t1''"
    by (simp_all add: touch_def fresh)
  have step: "run_step ?rn demo_spec base demo_step rp_running (demo_lease rp_running ''running'' 5, w) =
      (Inr (Inl rp_blocked), (demo_lease rp_blocked ''blocked'' 6, w))" for base
    unfolding run_step_def spec off option.case block_def append_Cons append_Nil
    by (simp only: bindE_apply saves prod.case sum.case rn after option.map spec option.case rp_store_ops eff_apply)
  have bound: "run_bound ?rn demo_spec [] rp_fresh (demo_lease rp_fresh ''running'' 4, w) =
      (Inr (outcome rp_blocked [] []), (demo_lease rp_blocked ''blocked'' 6, w))"
    unfolding run_bound_def
    by (simp add: fresh TERMINAL_def unresolved_steps_def bindE_apply saves(1) rn rp_store_ops(3) spec after(1) step
        del: touch_simps)
  show ?thesis
    by (simp add: run_def TaskSpec_roundtrip bindE_apply spec rn store run_locked_def fresh bound)
qed

lemma rp_lease_ok: "lease_ok (demo_lease rp_fresh ''running'' 4)"
proof -
  have "valid_worker_id ''w1''" by (rule demo_worker_id)
  moreover have "sp_task_id demo_spec = ''t1''" by (simp add: demo_spec_def)
  ultimately show ?thesis
    using rp_clean by (simp add: lease_ok_def demo_lease_def rp_fresh_def demo_crashed_def ROW_STATUSES_def)
qed

theorem repository_run_ends_released_witness:
  "\<exists>out l'. run (repository_runner rp_worker ''w1'' (PInt 60) 200) demo_spec []
       (demo_lease rp_fresh ''running'' 4, \<lparr>fw_observation = None, fw_running = True\<rparr>) =
     (Inr out, (l', \<lparr>fw_observation = None, fw_running = True\<rparr>)) \<and>
     ql_status l' = ''blocked'' \<and> ql_lease_owner l' = None \<and> lease_ok l' \<and> ro_status out = PStr ''blocked''"
proof -
  let ?l = "demo_lease rp_fresh ''running'' 4" and ?w = "\<lparr>fw_observation = None, fw_running = True\<rparr>"
  obtain out where run: "run (repository_runner rp_worker ''w1'' (PInt 60) 200) (ql_spec ?l) [] (?l, ?w) =
      (Inr out, (demo_lease rp_blocked ''blocked'' 6, ?w))"
    using rp_run [of ?w] by auto
  have ok: "queue_backend_ok (qc_host (rw_queue (pw_worker rp_worker)))"
    by (simp add: rp_worker_def demo_backend_ok)
  have "st_updated_at rp_fresh \<noteq> []" "repository_scope_failure rp_worker ?l = None"
    by (simp_all add: repository_scope_failure_def rp_worker_def rp_fresh_def demo_crashed_def demo_lease_def)
  then have "lease_ok (demo_lease rp_blocked ''blocked'' 6) \<and> ro_status out = PStr ''blocked''"
    using repository_run_ends_released [OF ok rp_lease_ok _ _ _ run] by simp
  with run show ?thesis by auto
qed

end
