(* ===== verification/Note_Drafts.thy ===== *)
theory Note_Drafts
  imports Github_Text Hosted_Transport Tool_Registry
begin

text \<open>
  The note draft adapter, \<^verbatim>\<open>src/agent_core/note_drafts.py\<close>: two actions on an existing private draft, on a
  browser host that the adapter is given. A save is never trusted: the host reopens the draft, and the
  digest of what was persisted decides. The host's two operations are arguments.
\<close>

section \<open>The content and the address of a draft\<close>

definition content_digest :: "string \<Rightarrow> string \<Rightarrow> string" where
  "content_digest title body = sha256_hex (utf8 (json_compact (PList [PStr title, PStr body])))"

text \<open>\<open>urlsplit\<close>: leading blanks and controls are dropped, tabs and line ends are removed.\<close>

definition strip_url :: "string \<Rightarrow> string" where
  "strip_url s = filter (\<lambda>c. code c \<notin> {9, 10, 13}) (dropWhile (\<lambda>c. code c \<le> 32) s)"

definition urlsplit :: "(string \<Rightarrow> unit res) \<Rightarrow> string \<Rightarrow> url_parts res" where
  "urlsplit bracket_check url =
     (case url_scheme (strip_url url) of (scheme, rest) \<Rightarrow>
      case url_netloc rest of (netloc, rest') \<Rightarrow>
        if (CHR ''['' \<in> set netloc) \<noteq> (CHR '']'' \<in> set netloc) then value_error ''Invalid IPv6 URL''
        else bindR (if CHR ''['' \<in> set netloc then bracket_check netloc else Inr ()) (\<lambda>_.
          case cut_at (CHR ''#'') rest' of (before, fragment) \<Rightarrow>
          case cut_at (CHR ''?'') before of (path, query) \<Rightarrow>
            Inr \<lparr>up_scheme = scheme, up_netloc = netloc, up_path = path, up_query = query, up_fragment = fragment\<rparr>))"

definition blocked :: "string \<Rightarrow> exc" where
  "blocked m = Exc BlockedAction m"

fun draft_path_ok :: "string \<Rightarrow> bool" where
  "draft_path_ok [] = False"
| "draft_path_ok (c # cs) =
     (c = CHR ''/'' \<and> cs \<noteq> [] \<and> list_all (\<lambda>x. ascii_alnum x \<or> x \<in> {CHR ''/'', CHR ''_'', CHR ''-''}) cs)"

definition draft_url :: "(string \<Rightarrow> unit res) \<Rightarrow> pyval \<Rightarrow> string res" where
  "draft_url bracket_check v =
     (case v of
        PStr s \<Rightarrow>
          bindR (urlsplit bracket_check s) (\<lambda>u.
          if up_scheme u \<noteq> ''https'' \<or> up_netloc u \<noteq> ''editor.note.com'' \<or> up_query u \<noteq> [] \<or> up_fragment u \<noteq> [] \<or>
             up_path u \<in> {''/'', ''/new'', ''/new/''} \<or> \<not> draft_path_ok (up_path u)
          then Inl (blocked ''note_existing_draft_url_required'') else Inr s)
      | _ \<Rightarrow> Inl (blocked ''note_existing_draft_url_required''))"

section \<open>The adapter\<close>

record 'w note_backend =
  nb_read :: "string \<Rightarrow> ('w, pyval) eff"
  nb_update :: "string \<Rightarrow> string \<Rightarrow> string \<Rightarrow> string \<Rightarrow> ('w, unit) eff"

record 'w note_adapter =
  na_account_id :: string
  na_backend :: "'w note_backend option"

definition NoteDraftAdapter :: "pyval \<Rightarrow> 'w note_backend option \<Rightarrow> 'w note_adapter res" where
  "NoteDraftAdapter account backend =
     (case account of
        PStr s \<Rightarrow> if blank s then value_error ''note_account_id_required''
                  else Inr \<lparr>na_account_id = s, na_backend = backend\<rparr>
      | _ \<Rightarrow> value_error ''note_account_id_required'')"

definition note_capabilities :: "capability list" where
  "note_capabilities =
     [\<lparr>cap_action = ''note.read_draft'', cap_access = ''read'', cap_required_permissions = [''note:drafts:read''],
       cap_supports_dry_run = True, cap_description = []\<rparr>,
      \<lparr>cap_action = ''note.update_draft'', cap_access = ''write'',
       cap_required_permissions = [''note:drafts:read'', ''note:drafts:write''], cap_supports_dry_run = False,
       cap_description = []\<rparr>]"

text \<open>\<open>except Exception: raise BlockedAction(...) from None\<close>.\<close>

definition or_blocked :: "string \<Rightarrow> ('w, 'a) eff \<Rightarrow> ('w, 'a) eff" where
  "or_blocked m body = tryE body (\<lambda>e. if catches Exception e then raiseE (blocked m) else raiseE e)"

text \<open>What a reading must say before its content counts.\<close>

definition persisted_draft :: "string \<Rightarrow> string \<Rightarrow> pyval \<Rightarrow> string res" where
  "persisted_draft account url v =
     (case v of
        PDict d \<Rightarrow>
          if dict_get d ''account_id'' \<noteq> PStr account then Inl (blocked ''note_account_unverified'')
          else if dict_get d ''url'' \<noteq> PStr url \<or> dict_get d ''status'' \<noteq> PStr ''draft'' \<or> dict_get d ''persisted'' \<noteq> PBool True
          then Inl (blocked ''note_persisted_private_draft_unverified'')
          else (case (dict_get d ''title'', dict_get d ''body'') of
                  (PStr title, PStr body) \<Rightarrow> Inr (content_digest title body)
                | _ \<Rightarrow> Inl (blocked ''note_persisted_private_draft_unverified''))
      | _ \<Rightarrow> Inl (blocked ''note_account_unverified''))"

definition snapshot_draft :: "'w note_adapter \<Rightarrow> string \<Rightarrow> ('w, string) eff" where
  "snapshot_draft na url =
     (case na_backend na of
        None \<Rightarrow> raiseE (blocked ''note_browser_backend_unbound'')
      | Some b \<Rightarrow>
          bindE (or_blocked ''note_readback_unavailable'' (nb_read b url)) (\<lambda>v.
          liftE (persisted_draft (na_account_id na) url v)))"

definition read_draft :: "(string \<Rightarrow> unit res) \<Rightarrow> 'w note_adapter \<Rightarrow> 'w action" where
  "read_draft bracket_check na args ctx =
     (if set (map fst args) \<noteq> {''draft_url''} then raiseE (blocked ''note_read_arguments_invalid'')
      else
        bindE (liftE (draft_url bracket_check (dict_get args ''draft_url''))) (\<lambda>url.
        bindE (snapshot_draft na url) (\<lambda>digest.
        retE (AV_Result \<lparr>rs_message = [], rs_artifacts = [],
          rs_data = [(''draft_url'', PStr url), (''status'', PStr ''draft''), (''content_sha256'', PStr digest)]\<rparr>))))"

text \<open>The arguments of an update: the title, the body and the digest that the caller saw.\<close>

definition update_arguments :: "pydict \<Rightarrow> (string \<times> string \<times> pyval) res" where
  "update_arguments args =
     (let expected = dict_get_or args ''expected_content_sha256'' (PStr []) in
      case (dict_get args ''title'', dict_get args ''body'') of
        (PStr title, PStr body) \<Rightarrow>
          if set (map fst args) \<noteq> {''draft_url'', ''title'', ''body'', ''expected_content_sha256''} \<or> \<not> hex64 (py_str expected)
          then Inl (blocked ''note_update_arguments_invalid'') else Inr (title, body, expected)
      | _ \<Rightarrow> Inl (blocked ''note_update_arguments_invalid''))"

definition save_draft :: "'w note_adapter \<Rightarrow> string \<Rightarrow> string \<Rightarrow> string \<Rightarrow> string \<Rightarrow> ('w, unit) eff" where
  "save_draft na url title body before =
     (case na_backend na of
        None \<Rightarrow> raiseE (blocked ''note_save_outcome_unknown'')
      | Some b \<Rightarrow> or_blocked ''note_save_outcome_unknown'' (nb_update b url title body before))"

definition draft_artifact :: "string \<Rightarrow> string \<Rightarrow> artifact_update" where
  "draft_artifact url digest =
     \<lparr>au_artifact_id = PStr (''note-draft:'' @ url), au_kind = PStr ''note-draft'', au_locator = PStr url, au_created = PNone,
      au_verified = PBool True, au_persistent_saved = PBool True, au_device_saved = PNone, au_ui_loaded = PNone,
      au_metadata = PDict [(''content_sha256'', PStr digest)]\<rparr>"

definition draft_verified :: "string \<Rightarrow> string \<Rightarrow> bool \<Rightarrow> action_value" where
  "draft_verified url digest written =
     AV_Result \<lparr>rs_message = ''private note draft content verified'', rs_artifacts = [draft_artifact url digest],
       rs_data = [(''verified'', PBool True), (''write_performed'', PBool written)]\<rparr>"

definition update_draft :: "(string \<Rightarrow> unit res) \<Rightarrow> 'w note_adapter \<Rightarrow> 'w action" where
  "update_draft bracket_check na args ctx =
     (if dict_get ctx ''dry_run'' = PBool True then raiseE (blocked ''note_write_not_available_in_dry_run'')
      else
        bindE (liftE (update_arguments args)) (\<lambda>(title, body, expected).
        bindE (liftE (draft_url bracket_check (dict_get args ''draft_url''))) (\<lambda>url.
        let desired = content_digest title body in
        bindE (snapshot_draft na url) (\<lambda>before.
        if before = desired then retE (draft_verified url desired False)
        else if PStr before \<noteq> expected then raiseE (blocked ''note_draft_changed_since_read'')
        else bindE (save_draft na url title body before) (\<lambda>_.
             bindE (snapshot_draft na url) (\<lambda>after.
             if after \<noteq> desired then raiseE (blocked ''note_saved_content_not_verified'')
             else retE (draft_verified url desired True)))))))"

definition note_draft_adapter :: "(string \<Rightarrow> unit res) \<Rightarrow> 'w note_adapter \<Rightarrow> 'w adapter" where
  "note_draft_adapter bracket_check na =
     \<lparr>ad_name = ''note-existing-drafts'', ad_capabilities = note_capabilities,
      ad_actions = [(''note.read_draft'', read_draft bracket_check na), (''note.update_draft'', update_draft bracket_check na)]\<rparr>"

end
