(* ===== verification/Note_Results.thy ===== *)
theory Note_Results
  imports Note_Drafts
begin

text \<open>
  Properties of the note draft adapter: what is reported as saved was read back from the host, and a save
  is made only on top of the content that the caller saw.
\<close>

lemma persisted_draft_Inr:
  "persisted_draft account url v = Inr digest \<longleftrightarrow>
     (\<exists>d title body. v = PDict d \<and> dict_get d ''account_id'' = PStr account \<and> dict_get d ''url'' = PStr url \<and>
        dict_get d ''status'' = PStr ''draft'' \<and> dict_get d ''persisted'' = PBool True \<and>
        dict_get d ''title'' = PStr title \<and> dict_get d ''body'' = PStr body \<and> digest = content_digest title body)"
  by (auto simp: persisted_draft_def split: pyval.splits if_splits)

lemma update_arguments_Inr:
  assumes "update_arguments args = Inr (title, body, expected)"
  shows "dict_get args ''title'' = PStr title \<and> dict_get args ''body'' = PStr body \<and>
    expected = dict_get args ''expected_content_sha256''"
proof -
  have keys: "set (map fst args) = {''draft_url'', ''title'', ''body'', ''expected_content_sha256''}"
    and eq: "dict_get args ''title'' = PStr title" "dict_get args ''body'' = PStr body"
      "expected = dict_get_or args ''expected_content_sha256'' (PStr [])"
    using assms by (auto simp: update_arguments_def Let_def split: pyval.splits if_splits)
  have "map_of args ''expected_content_sha256'' \<noteq> None"
    using keys by (simp add: map_of_eq_None_iff)
  with eq show ?thesis by (auto simp: dict_get_or_def dict_get_def)
qed

lemma or_blocked_Inr: "or_blocked m body w = (Inr x, w') \<longleftrightarrow> body w = (Inr x, w')"
  by (auto simp: or_blocked_def tryE_apply split: prod.splits sum.splits if_splits)

text \<open>The address of an existing draft: a page of the editor, without query or fragment, but the new one.\<close>

definition draft_address :: "(string \<Rightarrow> unit res) \<Rightarrow> string \<Rightarrow> bool" where
  "draft_address bracket_check url \<longleftrightarrow> (\<exists>u cs. urlsplit bracket_check url = Inr u \<and> up_scheme u = ''https'' \<and>
     up_netloc u = ''editor.note.com'' \<and> up_query u = [] \<and> up_fragment u = [] \<and> up_path u = CHR ''/'' # cs \<and>
     cs \<notin> {[], ''new'', ''new/''} \<and> list_all (\<lambda>x. ascii_alnum x \<or> x \<in> {CHR ''/'', CHR ''_'', CHR ''-''}) cs)"

lemma draft_path_ok_iff:
  "draft_path_ok p \<longleftrightarrow> (\<exists>cs. p = CHR ''/'' # cs \<and> cs \<noteq> [] \<and>
     list_all (\<lambda>x. ascii_alnum x \<or> x \<in> {CHR ''/'', CHR ''_'', CHR ''-''}) cs)"
  by (cases p) auto

lemma draft_url_Inr:
  "draft_url bracket_check v = Inr url \<longleftrightarrow> v = PStr url \<and> draft_address bracket_check url"
proof (cases v)
  case (PStr s)
  show ?thesis
    by (cases "urlsplit bracket_check s")
      (auto simp: PStr draft_url_def draft_address_def draft_path_ok_iff simp del: draft_path_ok.simps)
qed (simp_all add: draft_url_def)

text \<open>
  A reading that counts: the host answers for the account of the adapter and this address, and the
  page is a persisted private draft with a title and a body.
\<close>

definition reads_draft :: "'w note_adapter \<Rightarrow> 'w note_backend \<Rightarrow> string \<Rightarrow> string \<Rightarrow> 'w \<Rightarrow> 'w \<Rightarrow> bool" where
  "reads_draft na b url digest w w' \<longleftrightarrow> (\<exists>d title body. nb_read b url w = (Inr (PDict d), w') \<and>
     dict_get d ''account_id'' = PStr (na_account_id na) \<and> dict_get d ''url'' = PStr url \<and>
     dict_get d ''status'' = PStr ''draft'' \<and> dict_get d ''persisted'' = PBool True \<and>
     dict_get d ''title'' = PStr title \<and> dict_get d ''body'' = PStr body \<and> digest = content_digest title body)"

lemma snapshot_draft_reads:
  assumes "na_backend na = Some b"
  shows "snapshot_draft na url w = (Inr digest, w') \<longleftrightarrow> reads_draft na b url digest w w'"
  by (fastforce simp: snapshot_draft_def assms bindE_eq_Inr or_blocked_Inr persisted_draft_Inr reads_draft_def)

lemma save_draft_updates:
  assumes "na_backend na = Some b"
  shows "save_draft na url title body before w = (Inr x, w') \<longleftrightarrow> nb_update b url title body before w = (Inr x, w')"
  by (simp add: save_draft_def assms or_blocked_Inr)

text \<open>C21. An update of a note draft that reports success was read back from the browser host. The draft is
  addressed by an accepted URL outside a dry run, and the last thing the host did was to answer a reading for the
  adapter's account and that address with a persisted private draft of the requested content. Either that was the
  only call, and nothing was written; or an earlier reading showed the content that the caller had seen, and
  between the two the host was called once, to update the draft to the requested title and body from exactly that
  content, and this call returned. Content is compared by its digest.\<close>

theorem note_update_is_read_back:
  assumes "update_draft bracket_check na args ctx w = (Inr v, w')"
  shows "\<exists>b url title body.
    na_backend na = Some b \<and> dict_get args ''draft_url'' = PStr url \<and> draft_address bracket_check url \<and>
    dict_get ctx ''dry_run'' \<noteq> PBool True \<and> dict_get args ''title'' = PStr title \<and> dict_get args ''body'' = PStr body \<and>
    (reads_draft na b url (content_digest title body) w w' \<and> v = draft_verified url (content_digest title body) False \<or>
     (\<exists>before w1 w2. reads_draft na b url before w w1 \<and> before \<noteq> content_digest title body \<and>
        dict_get args ''expected_content_sha256'' = PStr before \<and>
        nb_update b url title body before w1 = (Inr (), w2) \<and>
        reads_draft na b url (content_digest title body) w2 w' \<and>
        v = draft_verified url (content_digest title body) True))"
proof -
  obtain title body expected url where args: "update_arguments args = Inr (title, body, expected)"
    and url: "draft_url bracket_check (dict_get args ''draft_url'') = Inr url" and ctx: "dict_get ctx ''dry_run'' \<noteq> PBool True"
    and rest: "bindE (snapshot_draft na url) (\<lambda>before.
        if before = content_digest title body then retE (draft_verified url (content_digest title body) False)
        else if PStr before \<noteq> expected then raiseE (blocked ''note_draft_changed_since_read'')
        else bindE (save_draft na url title body before) (\<lambda>_.
             bindE (snapshot_draft na url) (\<lambda>after.
             if after \<noteq> content_digest title body then raiseE (blocked ''note_saved_content_not_verified'')
             else retE (draft_verified url (content_digest title body) True)))) w = (Inr v, w')"
    using assms by (auto simp: update_draft_def bindE_eq_Inr Let_def split: if_splits)
  note a = update_arguments_Inr [OF args]
  from rest obtain before w1 where before: "snapshot_draft na url w = (Inr before, w1)"
    and cases: "before = content_digest title body \<and> v = draft_verified url (content_digest title body) False \<and> w' = w1 \<or>
      before \<noteq> content_digest title body \<and> PStr before = expected \<and>
      (\<exists>w2. save_draft na url title body before w1 = (Inr (), w2) \<and>
        snapshot_draft na url w2 = (Inr (content_digest title body), w') \<and> v = draft_verified url (content_digest title body) True)"
    by (auto simp: bindE_eq_Inr split: if_splits)
  from before obtain b where b: "na_backend na = Some b"
    by (auto simp: snapshot_draft_def split: option.splits)
  note host = snapshot_draft_reads [OF b] save_draft_updates [OF b]
  from cases show ?thesis
  proof (elim disjE conjE exE)
    assume "before = content_digest title body" and "v = draft_verified url (content_digest title body) False" and "w' = w1"
    then show ?thesis
      using before b a url ctx
      by (intro exI [of _ b] exI [of _ url] exI [of _ title] exI [of _ body]) (simp add: host draft_url_Inr)
  next
    fix w2
    assume "before \<noteq> content_digest title body" and "PStr before = expected" and "save_draft na url title body before w1 = (Inr (), w2)"
      and "snapshot_draft na url w2 = (Inr (content_digest title body), w')"
      and "v = draft_verified url (content_digest title body) True"
    then have "reads_draft na b url before w w1 \<and> before \<noteq> content_digest title body \<and>
        dict_get args ''expected_content_sha256'' = PStr before \<and> nb_update b url title body before w1 = (Inr (), w2) \<and>
        reads_draft na b url (content_digest title body) w2 w' \<and> v = draft_verified url (content_digest title body) True"
      using before a by (simp add: host)
    then show ?thesis
      using b a url ctx
      by (intro exI [of _ b] exI [of _ url] exI [of _ title] exI [of _ body]) (auto simp: draft_url_Inr)
  qed
qed

section \<open>A host\<close>

definition nd_backend :: "(string \<times> string) note_backend" where
  "nd_backend = \<lparr>nb_read = (\<lambda>url w. (Inr (PDict [(''account_id'', PStr ''me''), (''url'', PStr url), (''status'', PStr ''draft''),
       (''persisted'', PBool True), (''title'', PStr (fst w)), (''body'', PStr (snd w))]), w)),
     nb_update = (\<lambda>url title body before w. (Inr (), (title, body)))\<rparr>"

definition nd_adapter :: "(string \<times> string) note_adapter" where
  "nd_adapter = \<lparr>na_account_id = ''me'', na_backend = Some nd_backend\<rparr>"

definition nd_args :: pydict where
  "nd_args = [(''draft_url'', PStr ''https://editor.note.com/notes/n1/edit''), (''title'', PStr ''T''), (''body'', PStr ''B''),
     (''expected_content_sha256'', PStr (content_digest ''old'' ''text''))]"

lemma nd_url: "draft_url (\<lambda>_. Inr ()) (PStr ''https://editor.note.com/notes/n1/edit'') = Inr ''https://editor.note.com/notes/n1/edit''"
  by code_simp

lemma nd_snapshot: "snapshot_draft nd_adapter url w = (Inr (content_digest (fst w) (snd w)), w)"
  by (simp add: snapshot_draft_def nd_adapter_def nd_backend_def or_blocked_def bindE_apply tryE_apply persisted_draft_def)

lemma nd_update: "\<exists>v w'. update_draft (\<lambda>_. Inr ()) nd_adapter nd_args [] (''old'', ''text'') = (Inr v, w')"
proof -
  have args: "update_arguments nd_args = Inr (''T'', ''B'', PStr (content_digest ''old'' ''text''))"
    by (auto simp: update_arguments_def nd_args_def dict_get_or_def content_digest_def sha256_hex64)
  show ?thesis
    by (simp add: update_draft_def args nd_args_def [THEN arg_cong [where f = "\<lambda>a. dict_get a ''draft_url''"]] nd_url bindE_apply
        nd_snapshot save_draft_def or_blocked_def tryE_apply Let_def)
      (simp add: nd_adapter_def nd_backend_def or_blocked_def tryE_apply bindE_apply nd_snapshot [unfolded nd_adapter_def nd_backend_def])
qed

text \<open>The draft held the old content, so it was written, and the host ends with the requested content.\<close>

theorem note_update_is_read_back_witness:
  "\<exists>v w'. update_draft (\<lambda>_. Inr ()) nd_adapter nd_args [] (''old'', ''text'') = (Inr v, w') \<and>
     content_digest (fst w') (snd w') = content_digest ''T'' ''B'' \<and>
     draft_address (\<lambda>_. Inr ()) ''https://editor.note.com/notes/n1/edit''"
proof -
  obtain v w' where u: "update_draft (\<lambda>_. Inr ()) nd_adapter nd_args [] (''old'', ''text'') = (Inr v, w')"
    using nd_update by blast
  have "dict_get nd_args ''draft_url'' = PStr ''https://editor.note.com/notes/n1/edit''" "dict_get nd_args ''title'' = PStr ''T''"
    "dict_get nd_args ''body'' = PStr ''B''" "na_backend nd_adapter = Some nd_backend"
    by (simp_all add: nd_args_def nd_adapter_def)
  moreover have "content_digest (fst w2) (snd w2) = digest" if "reads_draft nd_adapter nd_backend url digest w1 w2"
    for url digest w1 w2
    using that by (auto simp: reads_draft_def nd_backend_def)
  ultimately show ?thesis using note_update_is_read_back [OF u] u by fastforce
qed

end
