(* ===== verification/Unicode_Json.thy ===== *)
theory Unicode_Json
  imports Json_Digest "HOL-Library.List_Lexorder"
begin

text \<open>
  Texts over the whole of Unicode, for the parts of the program that handle Japanese: a text is the list
  of its code points. JSON values over such texts, their canonical text (\<open>json.dumps\<close> with
  \<open>sort_keys=True\<close>, \<open>ensure_ascii=False\<close> and the short separators) and the digest of it.
\<close>

type_synonym utext = "nat list"

definition ut :: "string \<Rightarrow> utext" where
  "ut s = map code s"

datatype ujson =
    UNull
  | UBool bool
  | UNat nat
  | UText utext
  | UList "ujson list"
  | UDict "(utext \<times> ujson) list"

type_synonym udict = "(utext \<times> ujson) list"

section \<open>The canonical text\<close>

definition ut_nat :: "nat \<Rightarrow> utext" where
  "ut_nat n = ut (nat_str n)"

definition ujson_point :: "nat \<Rightarrow> utext" where
  "ujson_point n = (if n < 128 then ut (json_char (char_of n)) else [n])"

definition ujson_text :: "utext \<Rightarrow> utext" where
  "ujson_text s = [34] @ concat (map ujson_point s) @ [34]"

fun ujoin :: "utext list \<Rightarrow> utext" where
  "ujoin [] = []"
| "ujoin [x] = x"
| "ujoin (x # y # ys) = x @ [44] @ ujoin (y # ys)"

fun ujson_dumps :: "ujson \<Rightarrow> utext" where
  "ujson_dumps UNull = ut ''null''"
| "ujson_dumps (UBool b) = ut (if b then ''true'' else ''false'')"
| "ujson_dumps (UNat n) = ut_nat n"
| "ujson_dumps (UText s) = ujson_text s"
| "ujson_dumps (UList xs) = [91] @ ujoin (map ujson_dumps xs) @ [93]"
| "ujson_dumps (UDict d) =
     [123] @ ujoin (map (\<lambda>(k, t). ujson_text k @ [58] @ t) (sort_key fst (map (\<lambda>p. (fst p, ujson_dumps (snd p))) d))) @ [125]"

section \<open>Its bytes and its digest\<close>

definition utf8_point :: "nat \<Rightarrow> nat list" where
  "utf8_point n =
     (if n < 128 then [n]
      else if n < 2048 then [192 + n div 64, 128 + n mod 64]
      else if n < 65536 then [224 + n div 4096, 128 + n div 64 mod 64, 128 + n mod 64]
      else [240 + n div 262144, 128 + n div 4096 mod 64, 128 + n div 64 mod 64, 128 + n mod 64])"

definition utf8_text :: "utext \<Rightarrow> nat list" where
  "utf8_text s = concat (map utf8_point s)"

text \<open>\<open>digest\<close> of \<^verbatim>\<open>src/ml/historical_training.py\<close>.\<close>

definition ujson_digest :: "ujson \<Rightarrow> string" where
  "ujson_digest v = sha256_hex (utf8_text (ujson_dumps v))"

end
