(* ===== verification/Race_Payouts.thy ===== *)
theory Race_Payouts
  imports Unicode_Json Github_Text
begin

text \<open>
  The offline normalisation of payouts, \<^verbatim>\<open>src/ml/historical_payouts.py\<close>: from the rows of three tables
  (races, results, payoffs) one record per race, either an internally consistent candidate or
  quarantined with the reason. A row maps column names to texts, as the reader of the CSV files makes
  it; the reader itself is not modelled.
\<close>

type_synonym row = "(utext \<times> utext) list"

definition row_item :: "row \<Rightarrow> string \<Rightarrow> utext res" where
  "row_item row k = (case map_of row (ut k) of None \<Rightarrow> Inl (Exc KeyError k) | Some v \<Rightarrow> Inr v)"

definition row_json :: "row \<Rightarrow> ujson" where
  "row_json row = UDict (map (\<lambda>(k, v). (k, UText v)) row)"

definition row_digest :: "row \<Rightarrow> string" where
  "row_digest row = ujson_digest (row_json row)"

text \<open>\<^verbatim>\<open>WIDTHS\<close>: the exacta and the trifecta. \<^verbatim>\<open>NONFINISH\<close>: did not start, fell, broke down, disqualified.\<close>

definition EXACTA :: utext where
  "EXACTA = [50, 36554, 21336]"

definition TRIFECTA :: utext where
  "TRIFECTA = [51, 36899, 21336]"

definition WIDTHS :: "(utext \<times> nat) list" where
  "WIDTHS = [(EXACTA, 2), (TRIFECTA, 3)]"

definition NONFINISH :: "(utext \<times> string) list" where
  "NONFINISH = [([27424, 22580], ''DNS''), ([33853, 36554], ''DNF''), ([25925, 38556], ''DNF''), ([22833, 26684], ''DSQ'')]"

definition FAULT_RANK :: utext where
  "FAULT_RANK = [25925]"

definition FULL_REFUND :: utext where
  "FULL_REFUND = [20840, 36820, 36996]"

section \<open>Digits\<close>

definition digit19 :: "nat \<Rightarrow> bool" where
  "digit19 n \<longleftrightarrow> 49 \<le> n \<and> n \<le> 57"

definition digit09 :: "nat \<Rightarrow> bool" where
  "digit09 n \<longleftrightarrow> 48 \<le> n \<and> n \<le> 57"

definition digits_nat :: "utext \<Rightarrow> nat" where
  "digits_nat s = foldl (\<lambda>a d. 10 * a + (d - 48)) 0 s"

definition car_number :: "utext \<Rightarrow> nat res" where
  "car_number v = (case v of [d] \<Rightarrow> if digit19 d then Inr (d - 48) else value_error ''invalid_car_or_rank''
                   | _ \<Rightarrow> value_error ''invalid_car_or_rank'')"

section \<open>The finish order\<close>

record participant =
  pa_car :: nat
  pa_rider :: utext
  pa_rank :: "nat option"
  pa_status :: string

record result_scan =
  rs_cars :: "nat list"
  rs_ids :: "utext list"
  rs_ranks :: "(nat \<times> nat list) list"
  rs_participants :: "participant list"
  rs_changes :: "ujson list"

definition fault_change :: "nat \<Rightarrow> row \<Rightarrow> ujson" where
  "fault_change car row = UDict
     [(ut ''field'', UText (ut ''Rank/Status'')), (ut ''original'', UList [UText FAULT_RANK, UText []]),
      (ut ''normalized'', UList [UNull, UText (ut ''DNF'')]), (ut ''car_number'', UNat car),
      (ut ''rule'', UText (ut ''explicit_fault_abbreviation'')), (ut ''source_row_sha256'', UText (ut (row_digest row)))]"

definition add_rank :: "nat \<Rightarrow> nat \<Rightarrow> (nat \<times> nat list) list \<Rightarrow> (nat \<times> nat list) list" where
  "add_rank rank car ranks = AList.update rank ((case map_of ranks rank of None \<Rightarrow> [] | Some cs \<Rightarrow> cs) @ [car]) ranks"

text \<open>The rank and the state of a row: a text without a status is a rank, otherwise the status is known.\<close>

definition finish_of :: "nat \<Rightarrow> utext \<Rightarrow> utext \<Rightarrow> (nat option \<times> string) res" where
  "finish_of roster rank status =
     (if status = [] then
        bindR (car_number rank) (\<lambda>r. if roster < r then value_error ''rank_outside_roster'' else Inr (Some r, ''FINISHED''))
      else case map_of NONFINISH status of
             Some state \<Rightarrow> if rank = [] then Inr (None, state) else value_error ''unknown_or_conflicting_finish_status''
           | None \<Rightarrow> value_error ''unknown_or_conflicting_finish_status'')"

definition scan_result :: "nat \<Rightarrow> row \<Rightarrow> result_scan \<Rightarrow> result_scan res" where
  "scan_result roster row s =
     bindR (bindR (row_item row ''Car'') car_number) (\<lambda>car.
     bindR (row_item row ''Player_ID'') (\<lambda>identity.
     if identity = [] \<or> \<not> list_all digit09 identity then value_error ''player_identity_missing''
     else if car \<in> set (rs_cars s) \<or> identity \<in> set (rs_ids s) then value_error ''duplicate_car_or_player_result''
     else
       bindR (row_item row ''Rank'') (\<lambda>rank.
       bindR (row_item row ''Status'') (\<lambda>status.
       let fault = (rank = FAULT_RANK \<and> status = []) in
       bindR (if fault then finish_of roster [] [25925, 38556] else finish_of roster rank status) (\<lambda>(r, state).
       Inr \<lparr>rs_cars = car # rs_cars s, rs_ids = identity # rs_ids s,
            rs_ranks = (case r of None \<Rightarrow> rs_ranks s | Some k \<Rightarrow> add_rank k car (rs_ranks s)),
            rs_participants = rs_participants s @
              [\<lparr>pa_car = car, pa_rider = ut ''keirindb:'' @ identity, pa_rank = r, pa_status = state\<rparr>],
            rs_changes = rs_changes s @ (if fault then [fault_change car row] else [])\<rparr>)))))"

fun scan_results :: "nat \<Rightarrow> row list \<Rightarrow> result_scan \<Rightarrow> result_scan res" where
  "scan_results roster [] s = Inr s"
| "scan_results roster (row # rows) s = bindR (scan_result roster row s) (\<lambda>s'. scan_results roster rows s')"

text \<open>Competition ranks: the next rank after a group is one more than the cars placed so far.\<close>

fun rank_groups :: "nat \<Rightarrow> (nat \<times> nat list) list \<Rightarrow> nat list list res" where
  "rank_groups expected [] = Inr []"
| "rank_groups expected ((rank, cars) # rest) =
     (if rank \<noteq> expected then value_error ''incomplete_or_invalid_competition_ranks''
      else bindR (rank_groups (expected + length cars) rest) (\<lambda>groups. Inr (sort cars # groups)))"

definition result_groups :: "row list \<Rightarrow> (nat list list \<times> participant list \<times> ujson list) res" where
  "result_groups rows =
     (if \<not> (3 \<le> length rows \<and> length rows \<le> 9) then value_error ''result_roster_size_invalid''
      else
        bindR (scan_results (length rows) rows
                 \<lparr>rs_cars = [], rs_ids = [], rs_ranks = [], rs_participants = [], rs_changes = []\<rparr>) (\<lambda>s.
        bindR (rank_groups 1 (sort_key fst (rs_ranks s))) (\<lambda>groups.
        Inr (groups, sort_key pa_car (rs_participants s), rs_changes s))))"

section \<open>The outcomes that must be paid\<close>

text \<open>\<open>itertools.permutations(xs, k)\<close>: the ways to pick \<open>k\<close> positions in order.\<close>

fun picks :: "'a list \<Rightarrow> ('a \<times> 'a list) list" where
  "picks [] = []"
| "picks (x # xs) = (x, xs) # map (\<lambda>(y, ys). (y, x # ys)) (picks xs)"

fun permutations :: "nat \<Rightarrow> 'a list \<Rightarrow> 'a list list" where
  "permutations 0 xs = [[]]"
| "permutations (Suc k) xs = concat (map (\<lambda>(y, ys). map ((#) y) (permutations k ys)) (picks xs))"

text \<open>The choices group by group, until the requested positions are filled.\<close>

fun group_choices :: "nat list list \<Rightarrow> nat \<Rightarrow> nat list list list" where
  "group_choices [] remaining = []"
| "group_choices (g # gs) remaining =
     (if remaining = 0 then []
      else let picked = min remaining (length g) in permutations picked g # group_choices gs (remaining - picked))"

definition payout_outcomes :: "nat list list \<Rightarrow> nat \<Rightarrow> nat list list" where
  "payout_outcomes groups width =
     (if sum_list (map length groups) < width then [] else map concat (product_lists (group_choices groups width)))"

section \<open>Settlement\<close>

fun dashed_cars :: "nat \<Rightarrow> utext \<Rightarrow> nat list option" where
  "dashed_cars 0 s = None"
| "dashed_cars (Suc 0) [d] = (if digit19 d then Some [d - 48] else None)"
| "dashed_cars (Suc (Suc n)) (d # c # s) =
     (if digit19 d \<and> c = 45 then map_option ((#) (d - 48)) (dashed_cars (Suc n) s) else None)"
| "dashed_cars _ _ = None"

text \<open>The texts a spreadsheet makes of a combination: a month and a day, or a date of the years 2001 to 2009.\<close>

definition date_like_exacta :: "utext \<Rightarrow> nat list option" where
  "date_like_exacta s =
     (case s of [a, m, b, d] \<Rightarrow> if digit19 a \<and> m = 26376 \<and> digit19 b \<and> d = 26085 then Some [a - 48, b - 48] else None
      | _ \<Rightarrow> None)"

definition date_like_trifecta :: "utext \<Rightarrow> nat list option" where
  "date_like_trifecta s =
     (case s of [y1, y2, y3, a, s1, b, s2, c] \<Rightarrow>
        if [y1, y2, y3] = ut ''200'' \<and> digit19 a \<and> s1 = 47 \<and> digit19 b \<and> s2 = 47 \<and> digit19 c
        then Some [a - 48, b - 48, c - 48] else None
      | _ \<Rightarrow> None)"

definition parse_ordered :: "utext \<Rightarrow> nat \<Rightarrow> (nat list \<times> string) res" where
  "parse_ordered raw width =
     bindR (case dashed_cars width raw of
              Some cars \<Rightarrow> Inr (cars, ''literal_ordered_combination'')
            | None \<Rightarrow>
                (case (if width = 2 then date_like_exacta raw else None) of
                   Some cars \<Rightarrow> Inr (cars, ''date_like_exacta_candidate'')
                 | None \<Rightarrow>
                     (case (if width = 3 then date_like_trifecta raw else None) of
                        Some cars \<Rightarrow> Inr (cars, ''date_like_trifecta_candidate'')
                      | None \<Rightarrow> value_error ''unsupported_ordered_outcome_format''))) (\<lambda>(cars, rule).
     if \<not> distinct cars then value_error ''duplicate_car_in_outcome'' else Inr (cars, rule))"

text \<open>An amount: digits without a leading zero, plain or in groups of three. \<open>int\<close> refuses more than 4300 digits.\<close>

fun comma_groups :: "utext \<Rightarrow> bool" where
  "comma_groups [] = True"
| "comma_groups (c # a # b # d # s) = (c = 44 \<and> digit09 a \<and> digit09 b \<and> digit09 d \<and> comma_groups s)"
| "comma_groups _ = False"

definition money_ok :: "utext \<Rightarrow> bool" where
  "money_ok s \<longleftrightarrow>
     (case s of [] \<Rightarrow> False
      | d # rest \<Rightarrow> digit19 d \<and>
          (list_all digit09 rest \<or>
           (let lead = takeWhile digit09 rest; tail = drop (length lead) rest in
            length lead \<le> 2 \<and> tail \<noteq> [] \<and> comma_groups tail)))"

definition money :: "utext \<Rightarrow> nat res" where
  "money s =
     (if \<not> money_ok s then value_error ''invalid_payout_amount''
      else let digits = filter (\<lambda>c. c \<noteq> 44) s in
        if 4300 < length digits
        then value_error (''Exceeds the limit (4300 digits) for integer string conversion: value has '' @
               nat_str (length digits) @ '' digits; use sys.set_int_max_str_digits() to increase the limit'')
        else Inr (digits_nat digits))"

record settlement =
  se_status :: string
  se_outcomes :: "(nat list \<times> nat) list"
  se_changes :: "ujson list"

fun dashed_text :: "nat list \<Rightarrow> utext" where
  "dashed_text [] = []"
| "dashed_text [c] = ut_nat c"
| "dashed_text (c # d # cs) = ut_nat c @ [45] @ dashed_text (d # cs)"

definition outcome_change :: "row \<Rightarrow> utext \<Rightarrow> nat list \<Rightarrow> string \<Rightarrow> ujson" where
  "outcome_change row raw cars rule = UDict
     [(ut ''field'', UText (ut ''Outcome'')), (ut ''original'', UText raw), (ut ''normalized'', UText (dashed_text cars)),
      (ut ''rule'', UText (ut rule)), (ut ''source_row_sha256'', UText (ut (row_digest row)))]"

text \<open>The loop over the payoff rows; \<open>found\<close> are the combinations of \<open>outs\<close>.\<close>

fun settle_rows ::
  "nat list list \<Rightarrow> nat \<Rightarrow> row list \<Rightarrow> (nat list \<times> nat) list \<Rightarrow> ujson list \<Rightarrow> ((nat list \<times> nat) list \<times> ujson list) res" where
  "settle_rows expected width [] outs changes = Inr (outs, changes)"
| "settle_rows expected width (row # rows) outs changes =
     bindR (row_item row ''Outcome'') (\<lambda>raw.
     bindR (parse_ordered raw width) (\<lambda>(cars, rule).
     if cars \<notin> set expected then value_error ''payout_disagrees_with_finish_order''
     else if cars \<in> set (map fst outs) then value_error ''duplicate_payout_outcome''
     else
       bindR (bindR (row_item row ''Payout'') money) (\<lambda>amount.
       settle_rows expected width rows (outs @ [(cars, amount)])
         (changes @ (if rule \<noteq> ''literal_ordered_combination'' then [outcome_change row raw cars rule] else [])))))"

definition full_refund :: "row list \<Rightarrow> settlement res" where
  "full_refund rows =
     (case rows of
        [row] \<Rightarrow>
          bindR (row_item row ''Outcome'') (\<lambda>a. bindR (row_item row ''Payout'') (\<lambda>b.
          if a = b \<and> b = FULL_REFUND then Inr \<lparr>se_status = ''full_refund'', se_outcomes = [], se_changes = []\<rparr>
          else value_error ''insufficient_finishers_without_explicit_full_refund''))
      | _ \<Rightarrow> value_error ''insufficient_finishers_without_explicit_full_refund'')"

definition settle :: "row list \<Rightarrow> nat list list \<Rightarrow> nat \<Rightarrow> settlement res" where
  "settle rows groups width =
     (let expected = payout_outcomes groups width in
      if rows = [] then value_error ''ordered_payout_missing''
      else if expected = [] then full_refund rows
      else
        bindR (settle_rows expected width rows [] []) (\<lambda>(outs, changes).
        if set (map fst outs) \<noteq> set expected then value_error ''missing_tied_payout_outcome''
        else Inr \<lparr>se_status = (if 1 < card (set expected) then ''dead_heat'' else ''ordinary''),
                  se_outcomes = sort_key fst outs, se_changes = changes\<rparr>))"

section \<open>Race dates\<close>

text \<open>
  \<open>datetime.strptime(text, "%Y%m%d")\<close> of eight digits: the first match of the patterns of the month and the
  day, in the order of their alternatives; what is left over is refused, then the calendar decides.
\<close>

fun strptime_day :: "utext \<Rightarrow> (nat \<times> utext) option" where
  "strptime_day (a # b # s) =
     (if (a = 51 \<and> (b = 48 \<or> b = 49)) \<or> ((a = 49 \<or> a = 50) \<and> digit09 b) \<or> (a = 48 \<and> digit19 b) then Some (digits_nat [a, b], s)
      else if digit19 a then Some (digits_nat [a], b # s) else None)"
| "strptime_day [a] = (if digit19 a then Some (digits_nat [a], []) else None)"
| "strptime_day [] = None"

fun strptime_month :: "utext \<Rightarrow> (nat \<times> nat \<times> utext) option" where
  "strptime_month (a # b # s) =
     (let two = (if a = 49 \<and> 48 \<le> b \<and> b \<le> 50 \<or> a = 48 \<and> digit19 b
                 then map_option (\<lambda>(d, r). (digits_nat [a, b], d, r)) (strptime_day s) else None)
      in case two of
           Some m \<Rightarrow> Some m
         | None \<Rightarrow> if digit19 a then map_option (\<lambda>(d, r). (digits_nat [a], d, r)) (strptime_day (b # s)) else None)"
| "strptime_month _ = None"

definition days_in_month :: "nat \<Rightarrow> nat \<Rightarrow> nat" where
  "days_in_month y m =
     (if m = 2 then (if y mod 4 = 0 \<and> (y mod 100 \<noteq> 0 \<or> y mod 400 = 0) then 29 else 28)
      else if m \<in> {4, 6, 9, 11} then 30 else 31)"

definition two_digits :: "nat \<Rightarrow> utext" where
  "two_digits n = [48 + n div 10, 48 + n mod 10]"

definition race_date :: "utext \<Rightarrow> utext res" where
  "race_date s =
     (case strptime_month (drop 4 s) of
        None \<Rightarrow> value_error (''time data '' @ [CHR 0x27] @ map char_of s @ [CHR 0x27] @ '' does not match format '' @
                  [CHR 0x27] @ ''%Y%m%d'' @ [CHR 0x27])
      | Some (m, d, rest) \<Rightarrow>
          let y = digits_nat (take 4 s) in
          if rest \<noteq> [] then value_error (''unconverted data remains: '' @ map char_of rest)
          else if y = 0 then value_error ''year 0 is out of range''
          else if days_in_month y m < d then value_error ''day is out of range for month''
          else Inr (take 4 s @ [45] @ two_digits m @ [45] @ two_digits d))"

section \<open>One race\<close>

definition participant_json :: "participant \<Rightarrow> ujson" where
  "participant_json p = UDict [(ut ''car_number'', UNat (pa_car p)), (ut ''rider_id'', UText (pa_rider p)),
     (ut ''finish_rank'', (case pa_rank p of None \<Rightarrow> UNull | Some r \<Rightarrow> UNat r)), (ut ''status'', UText (ut (pa_status p)))]"

definition settlement_json :: "settlement \<Rightarrow> ujson" where
  "settlement_json s = UDict [(ut ''status'', UText (ut (se_status s))),
     (ut ''outcomes'', UList (map (\<lambda>(cars, yen). UDict [(ut ''combination'', UList (map UNat cars)), (ut ''payout_yen'', UNat yen)])
        (se_outcomes s))),
     (ut ''changes'', UList (se_changes s))]"

record race_reading =
  rf_date :: utext
  rf_venue :: utext
  rf_number :: nat
  rf_participants :: "participant list"
  rf_groups :: "nat list list"
  rf_settlements :: "(utext \<times> settlement) list"
  rf_changes :: "ujson list"

text \<open>The identity of a race: its single row, held, with a date, a number and the key they spell.\<close>

definition race_number :: "utext \<Rightarrow> nat res" where
  "race_number s =
     (if (\<exists>d\<in>set s. s = [d] \<and> digit19 d) \<or> s \<in> {ut ''10'', ut ''11'', ut ''12''} then Inr (digits_nat s)
      else value_error ''invalid_race_number'')"

definition race_identity :: "utext \<Rightarrow> row list \<Rightarrow> nat \<Rightarrow> (utext \<times> utext \<times> nat) res" where
  "race_identity key info results =
     (case info of
        [metadata] \<Rightarrow>
          bindR (row_item metadata ''Race_Status'') (\<lambda>status.
          if status \<noteq> ut ''held'' then value_error ''held_race_required''
          else
            bindR (row_item metadata ''Date'') (\<lambda>date.
            if length date \<noteq> 8 \<or> \<not> list_all digit09 date then value_error ''invalid_race_date''
            else
              bindR (race_date date) (\<lambda>iso.
              bindR (row_item metadata ''Race_Number'') (\<lambda>number.
              bindR (race_number number) (\<lambda>n.
              bindR (row_item metadata ''Venue'') (\<lambda>venue.
              if key \<noteq> date @ ut ''_'' @ venue @ number then value_error ''race_identity_disagrees_with_metadata''
              else
                bindR (bindR (row_item metadata ''Unit'') car_number) (\<lambda>unit.
                if unit \<noteq> results then value_error ''result_roster_incomplete'' else Inr (iso, venue, n))))))))
      | _ \<Rightarrow> value_error ''missing_or_conflicting_race_info'')"

fun rows_of_bet :: "utext \<Rightarrow> row list \<Rightarrow> row list res" where
  "rows_of_bet bet [] = Inr []"
| "rows_of_bet bet (row # rows) =
     bindR (row_item row ''Bet_Type'') (\<lambda>b. bindR (rows_of_bet bet rows) (\<lambda>rs. Inr (if b = bet then row # rs else rs)))"

definition race_facts :: "utext \<Rightarrow> row list \<Rightarrow> row list \<Rightarrow> row list \<Rightarrow> race_reading res" where
  "race_facts key info results payoffs =
     bindR (race_identity key info (length results)) (\<lambda>(iso, venue, n).
     bindR (result_groups results) (\<lambda>(groups, participants, changes).
     bindR (mapR (\<lambda>(bet, width). bindR (rows_of_bet bet payoffs) (\<lambda>rows.
              bindR (settle rows groups width) (\<lambda>s. Inr (bet, s)))) WIDTHS) (\<lambda>settlements.
     Inr \<lparr>rf_date = iso, rf_venue = venue, rf_number = n, rf_participants = participants, rf_groups = groups,
          rf_settlements = settlements, rf_changes = changes\<rparr>)))"

definition facts_json :: "race_reading \<Rightarrow> udict" where
  "facts_json f =
     [(ut ''normalization_status'', UText (ut ''internally_consistent_candidate'')), (ut ''race_date'', UText (rf_date f)),
      (ut ''venue'', UText (rf_venue f)), (ut ''race_number'', UNat (rf_number f)),
      (ut ''participants'', UList (map participant_json (rf_participants f))),
      (ut ''finish_order_groups'', UList (map (\<lambda>g. UList (map UNat g)) (rf_groups f))),
      (ut ''listed_result_roster_count'', UNat (length (rf_participants f))),
      (ut ''actual_starters'', UNat (length (filter (\<lambda>p. pa_status p \<noteq> ''DNS'') (rf_participants f)))),
      (ut ''settlements'', UDict (map (\<lambda>(bet, s). (bet, settlement_json s)) (rf_settlements f))),
      (ut ''result_status_changes'', UList (rf_changes f))]"

definition raw_rows :: "row list \<Rightarrow> row list \<Rightarrow> row list \<Rightarrow> ujson" where
  "raw_rows info results payoffs = UDict [(ut ''info'', UList (map row_json info)),
     (ut ''results'', UList (map row_json results)), (ut ''payoffs'', UList (map row_json payoffs))]"

definition quarantined_item :: "utext \<Rightarrow> ujson \<Rightarrow> string list \<Rightarrow> udict" where
  "quarantined_item key raw reasons =
     [(ut ''race_id'', UText key), (ut ''raw'', raw), (ut ''raw_sha256'', UText (ut (ujson_digest raw))),
      (ut ''normalization_status'', UText (ut ''quarantined'')), (ut ''reasons'', UList (map (\<lambda>r. UText (ut r)) reasons)),
      (ut ''external_source_verified'', UBool False), (ut ''training_approved'', UBool False), (ut ''feature_as_of'', UNull),
      (ut ''result_available_at'', UNull), (ut ''pre_race_state_verified'', UBool False), (ut ''pre_race_features'', UList []),
      (ut ''prospective'', UBool False)]"

definition exc_text :: "exc \<Rightarrow> string" where
  "exc_text e = (if exc_cls e = KeyError then repr_str (exc_msg e) else exc_msg e)"

definition race_item :: "utext \<Rightarrow> row list \<Rightarrow> row list \<Rightarrow> row list \<Rightarrow> udict" where
  "race_item key info results payoffs =
     (let raw = raw_rows info results payoffs;
          item = (case race_facts key info results payoffs of
                    Inl e \<Rightarrow> quarantined_item key raw [exc_text e]
                  | Inr f \<Rightarrow> dict_update (quarantined_item key raw []) (facts_json f))
      in item @ [(ut ''candidate_sha256'', UText (ut (ujson_digest (UDict item))))])"

section \<open>All races\<close>

definition race_id_of :: "row \<Rightarrow> utext res" where
  "race_id_of row =
     (case map_of row (ut ''Race_ID'') of
        None \<Rightarrow> value_error ''race_id_missing''
      | Some key \<Rightarrow> if list_all point_space key then value_error ''race_id_missing'' else Inr key)"

type_synonym row_groups = "(utext \<times> row list) list"

definition grouped :: "row_groups \<Rightarrow> utext \<Rightarrow> row list" where
  "grouped g key = (case map_of g key of None \<Rightarrow> [] | Some rows \<Rightarrow> rows)"

text \<open>Rows by race, without exact repetitions of a row; the repetitions are counted.\<close>

fun group_rows :: "string list \<Rightarrow> nat \<Rightarrow> row_groups \<Rightarrow> row list \<Rightarrow> (nat \<times> row_groups) res" where
  "group_rows seen repeated g [] = Inr (repeated, g)"
| "group_rows seen repeated g (row # rows) =
     bindR (race_id_of row) (\<lambda>key.
     if row_digest row \<in> set seen then group_rows seen (repeated + 1) g rows
     else group_rows (row_digest row # seen) repeated (AList.update key (grouped g key @ [row]) g) rows)"

text \<open>\<open>dict(Counter(xs))\<close>.\<close>

definition tally :: "'a list \<Rightarrow> ('a \<times> nat) list" where
  "tally xs = fold (\<lambda>x c. AList.update x ((case map_of c x of None \<Rightarrow> 0 | Some n \<Rightarrow> n) + 1) c) xs []"

definition text_tally :: "utext list \<Rightarrow> ujson" where
  "text_tally xs = UDict (map (\<lambda>(x, n). (x, UNat n)) (tally xs))"

definition item_text :: "udict \<Rightarrow> string \<Rightarrow> utext" where
  "item_text item k = (case map_of item (ut k) of Some (UText s) \<Rightarrow> s | _ \<Rightarrow> [])"

definition trifecta_status :: "udict \<Rightarrow> utext list" where
  "trifecta_status item =
     (case map_of item (ut ''settlements'') of
        Some (UDict d) \<Rightarrow> (case map_of d TRIFECTA of Some (UDict s) \<Rightarrow> [item_text s ''status''] | _ \<Rightarrow> [])
      | _ \<Rightarrow> [])"

record payout_report =
  pr_schema :: string
  pr_records :: "udict list"
  pr_summary :: udict
  pr_production_enabled :: bool
  pr_collection_enabled :: bool

definition payout_summary :: "udict list \<Rightarrow> (string \<times> nat) list \<Rightarrow> udict" where
  "payout_summary items repeated =
     [(ut ''unique_races'', UNat (length items)),
      (ut ''normalization_status_counts'', text_tally (map (\<lambda>i. item_text i ''normalization_status'') items)),
      (ut ''identical_duplicate_rows_ignored'', UDict (map (\<lambda>(k, n). (ut k, UNat n)) (filter (\<lambda>(k, n). 0 < n) repeated))),
      (ut ''trifecta_settlement_counts'', text_tally (concat (map trifecta_status items))),
      (ut ''external_source_verified_races'', UNat 0), (ut ''training_eligible_races'', UNat 0), (ut ''training_runs'', UNat 0)]"

definition normalize :: "row list \<Rightarrow> row list \<Rightarrow> row list \<Rightarrow> payout_report res" where
  "normalize info results payoffs =
     bindR (group_rows [] 0 [] info) (\<lambda>(ri, gi).
     bindR (group_rows [] 0 [] results) (\<lambda>(rr, gr).
     bindR (group_rows [] 0 [] payoffs) (\<lambda>(rp, gp).
     let keys = sort (remdups (map fst gi @ map fst gr @ map fst gp));
         items = map (\<lambda>key. race_item key (grouped gi key) (grouped gr key) (grouped gp key)) keys
     in Inr \<lparr>pr_schema = ''historical-payout-candidates-v1'', pr_records = items,
             pr_summary = payout_summary items [(''info'', ri), (''results'', rr), (''payoffs'', rp)],
             pr_production_enabled = False, pr_collection_enabled = False\<rparr>)))"

end
