(* ===== verification/Payout_Results.thy ===== *)
theory Payout_Results
  imports Race_Payouts "HOL-Library.Multiset"
begin

text \<open>
  Properties of the payout normalisation: what is paid is exactly the set of finish orders that the ranks
  allow, each of them once, and no race is lost or approved.
\<close>

section \<open>The outcomes of a finish\<close>

lemma set_picks: "(y, ys) \<in> set (picks xs) \<Longrightarrow> distinct xs \<Longrightarrow> y \<in> set xs \<and> set ys = set xs - {y} \<and> distinct ys \<and> length xs = Suc (length ys)"
  by (induction xs arbitrary: y ys) auto

lemma picks_all: "y \<in> set xs \<Longrightarrow> \<exists>ys. (y, ys) \<in> set (picks xs)"
  by (induction xs) force+

lemma set_permutations:
  "distinct xs \<Longrightarrow> set (permutations k xs) = {p. length p = k \<and> distinct p \<and> set p \<subseteq> set xs}"
proof (induction k arbitrary: xs)
  case 0
  then show ?case by auto
next
  case (Suc k)
  show ?case
  proof (intro set_eqI iffI)
    fix p assume "p \<in> set (permutations (Suc k) xs)"
    then obtain y ys q where y: "(y, ys) \<in> set (picks xs)" and q: "q \<in> set (permutations k ys)" and p: "p = y # q" by auto
    from set_picks [OF y Suc.prems] q Suc.IH [of ys] p show "p \<in> {p. length p = Suc k \<and> distinct p \<and> set p \<subseteq> set xs}" by auto
  next
    fix p assume p: "p \<in> {p. length p = Suc k \<and> distinct p \<and> set p \<subseteq> set xs}"
    then obtain y q where q: "p = y # q" "y \<in> set xs" by (cases p) auto
    then obtain ys where y: "(y, ys) \<in> set (picks xs)" using picks_all by metis
    have "q \<in> set (permutations k ys)"
      using set_picks [OF y Suc.prems] Suc.IH [of ys] p q by auto
    with y q show "p \<in> set (permutations (Suc k) xs)" by force
  qed
qed

fun place :: "'a list list \<Rightarrow> 'a \<Rightarrow> nat" where
  "place [] x = 0"
| "place (g # gs) x = (if x \<in> set g then 0 else Suc (place gs x))"

definition allowed_order :: "nat list list \<Rightarrow> nat \<Rightarrow> nat list \<Rightarrow> bool" where
  "allowed_order groups width c \<longleftrightarrow> length c = width \<and> distinct c \<and> set c \<subseteq> set (concat groups) \<and>
     sorted (map (place groups) c) \<and>
     (\<forall>x\<in>set (concat groups). \<forall>y\<in>set c. place groups x < place groups y \<longrightarrow> x \<in> set c)"

definition orders :: "nat list list \<Rightarrow> nat \<Rightarrow> nat list set" where
  "orders groups width = set (map concat (product_lists (group_choices groups width)))"

lemma orders_0 [simp]: "orders gs 0 = {[]}"
  by (cases gs) (simp_all add: orders_def)

lemma concat_products:
  "concat ` set (product_lists (A # B)) = {p @ c | p c. p \<in> set A \<and> c \<in> concat ` set (product_lists B)}"
proof -
  have "concat ` set (product_lists (A # B)) = (\<Union>x\<in>set A. (\<lambda>y. x @ concat y) ` set (product_lists B))"
    by (simp add: image_UN image_image)
  then show ?thesis by blast
qed

lemma orders_Cons:
  "0 < n \<Longrightarrow> orders (g # gs) n = {p @ c | p c. p \<in> set (permutations (min n (length g)) g) \<and> c \<in> orders gs (n - min n (length g))}"
  by (simp add: orders_def Let_def concat_products del: product_lists.simps)

lemma sorted_split:
  assumes "sorted (map f c)" and "\<And>x. x \<in> set c \<Longrightarrow> f x = (0::nat) \<longleftrightarrow> P x"
  shows "c = filter P c @ filter (\<lambda>x. \<not> P x) c"
  using assms
proof (induction c)
  case Nil
  then show ?case by simp
next
  case (Cons a c)
  show ?case
  proof (cases "P a")
    case True
    with Cons show ?thesis by simp
  next
    case False
    with Cons.prems have "0 < f a" by (metis gr0I list.set_intros(1))
    then have "0 < f x" if "x \<in> set c" for x using Cons.prems(1) that by fastforce
    then have "\<forall>x\<in>set c. \<not> P x" using Cons.prems(2) by fastforce
    with False show ?thesis by (simp add: filter_id_conv)
  qed
qed

lemma sorted_map_Suc: "sorted (map (Suc \<circ> f) xs) = sorted (map f xs)"
  by (induction xs) auto

lemma place_0: "place (g # gs) x = 0 \<longleftrightarrow> x \<in> set g"
  by simp

lemma allowed_first:
  assumes g: "distinct (concat (g # gs))" and n: "n \<le> length g"
  shows "allowed_order (g # gs) n c \<longleftrightarrow> length c = n \<and> distinct c \<and> set c \<subseteq> set g"
proof
  assume c: "allowed_order (g # gs) n c"
  have "set c \<subseteq> set g"
  proof (rule ccontr)
    assume "\<not> set c \<subseteq> set g"
    then obtain y where y: "y \<in> set c" "y \<notin> set g" by blast
    have "set g \<subseteq> set c"
    proof
      fix x assume "x \<in> set g"
      then have "x \<in> set (concat (g # gs))" "place (g # gs) x < place (g # gs) y" using y(2) by auto
      with c y(1) show "x \<in> set c" unfolding allowed_order_def by blast
    qed
    with y have "card (insert y (set g)) \<le> card (set c)" by (intro card_mono) auto
    moreover have "card (set g) = length g" using g by (simp add: distinct_card)
    moreover have "card (set c) = length c" using c by (simp add: allowed_order_def distinct_card)
    ultimately show False using y(2) n c by (simp add: allowed_order_def)
  qed
  with c show "length c = n \<and> distinct c \<and> set c \<subseteq> set g" by (simp add: allowed_order_def)
next
  assume c: "length c = n \<and> distinct c \<and> set c \<subseteq> set g"
  then have "map (place (g # gs)) c = replicate n 0"
    by (simp add: list_eq_iff_nth_eq) (metis nth_mem place_0 subsetD)
  with c show "allowed_order (g # gs) n c"
    by (auto simp: allowed_order_def)
qed

lemma allowed_next:
  assumes g: "distinct (concat (g # gs))" and n: "length g < n"
  shows "allowed_order (g # gs) n c \<longleftrightarrow>
    (\<exists>p c'. c = p @ c' \<and> length p = length g \<and> distinct p \<and> set p \<subseteq> set g \<and> allowed_order gs (n - length g) c')"
proof
  assume c: "allowed_order (g # gs) n c"
  let ?p = "filter (\<lambda>x. x \<in> set g) c" and ?c = "filter (\<lambda>x. x \<notin> set g) c"
  have sortd: "sorted (map (place (g # gs)) c)" and dist: "distinct c" and len: "length c = n"
    using c by (simp_all add: allowed_order_def)
  have split: "c = ?p @ ?c" by (rule sorted_split [OF sortd]) simp
  have cg: "card (set g) = length g" using g by (simp add: distinct_card)
  have "\<not> set c \<subseteq> set g"
    using n len dist cg card_mono [of "set g" "set c"] distinct_card [OF dist] by fastforce
  then obtain y where y: "y \<in> set c" "y \<notin> set g" by blast
  have "set g \<subseteq> set c"
  proof
    fix x assume "x \<in> set g"
    then have "x \<in> set (concat (g # gs))" "place (g # gs) x < place (g # gs) y" using y(2) by auto
    with c y(1) show "x \<in> set c" unfolding allowed_order_def by blast
  qed
  then have "set ?p = set g" by auto
  then have lp: "length ?p = length g" using dist cg distinct_card [of ?p] by simp
  have "map (place (g # gs)) ?c = map (Suc \<circ> place gs) ?c" by (rule map_cong) auto
  moreover have "sorted (map (place (g # gs)) ?c)" using sortd by (rule sorted_filter)
  ultimately have s1: "sorted (map (place gs) ?c)" by (simp only: sorted_map_Suc)
  have s2: "x \<in> set ?c" if x: "x \<in> set (concat gs)" "v \<in> set ?c" "place gs x < place gs v" for x v
  proof -
    have "x \<notin> set g" using g x(1) by auto
    with x have "place (g # gs) x < place (g # gs) v" by simp
    moreover have "x \<in> set (concat (g # gs))" "v \<in> set c" using x by auto
    ultimately have "x \<in> set c" using c unfolding allowed_order_def by blast
    with \<open>x \<notin> set g\<close> show ?thesis by simp
  qed
  have s3: "set ?c \<subseteq> set (concat gs)" using c by (auto simp: allowed_order_def)
  have s4: "length ?c = n - length g" using lp len split by (metis diff_add_inverse length_append)
  have s5: "distinct ?c" using dist by simp
  have rest: "allowed_order gs (n - length g) ?c"
    unfolding allowed_order_def using s2 by (intro conjI ballI impI s1 s3 s4 s5)
  have p: "distinct ?p" "set ?p \<subseteq> set g" using dist by auto
  show "\<exists>p c'. c = p @ c' \<and> length p = length g \<and> distinct p \<and> set p \<subseteq> set g \<and> allowed_order gs (n - length g) c'"
  proof (intro exI conjI)
    show "c = ?p @ ?c" by (rule split)
  qed (fact lp p rest)+
next
  assume "\<exists>p c'. c = p @ c' \<and> length p = length g \<and> distinct p \<and> set p \<subseteq> set g \<and> allowed_order gs (n - length g) c'"
  then obtain p c' where c: "c = p @ c'" and p: "length p = length g" "distinct p" "set p \<subseteq> set g"
    and c': "allowed_order gs (n - length g) c'" by blast
  have pg: "set p = set g"
    using p g by (intro card_subset_eq) (simp_all add: distinct_card)
  have off: "set c' \<inter> set g = {}" using c' g by (auto simp: allowed_order_def)
  have "map (place (g # gs)) p = replicate (length g) 0"
    using p by (simp add: list_eq_iff_nth_eq) (metis nth_mem subsetD)
  moreover have "map (place (g # gs)) c' = map (Suc \<circ> place gs) c'" using off by (intro map_cong) auto
  then have "sorted (map (place (g # gs)) c')"
    using c' by (simp only: sorted_map_Suc allowed_order_def)
  ultimately have "sorted (map (place (g # gs)) c)" unfolding c map_append sorted_append by (simp del: place.simps)
  moreover have "x \<in> set c" if x: "x \<in> set (concat (g # gs))" "y \<in> set c" "place (g # gs) x < place (g # gs) y" for x y
  proof (cases "x \<in> set g")
    case True
    with pg c show ?thesis by simp
  next
    case False
    then have "y \<notin> set g" using x(3) by auto
    then have "y \<in> set c'" using x(2) c pg by auto
    moreover have "x \<in> set (concat gs)" "place gs x < place gs y" using x False \<open>y \<notin> set g\<close> by auto
    ultimately have "x \<in> set c'" using c' unfolding allowed_order_def by blast
    then show ?thesis by (simp add: c)
  qed
  moreover have "distinct c" "set c \<subseteq> set (concat (g # gs))" "length c = n"
    using p pg off c' n by (auto simp: c allowed_order_def)
  ultimately show "allowed_order (g # gs) n c" by (simp add: allowed_order_def)
qed

lemma orders_allowed:
  assumes "distinct (concat gs)" and "n \<le> length (concat gs)"
  shows "orders gs n = {c. allowed_order gs n c}"
  using assms
proof (induction gs arbitrary: n)
  case Nil
  then show ?case by (auto simp: allowed_order_def)
next
  case (Cons g gs)
  have g: "distinct g" using Cons.prems(1) by simp
  consider "n = 0" | "0 < n" "n \<le> length g" | "length g < n" by linarith
  then show ?case
  proof cases
    case 1
    then show ?thesis by (auto simp: allowed_order_def)
  next
    case 2
    then have "orders (g # gs) n = set (permutations n g)" by (auto simp: orders_Cons)
    with allowed_first [OF Cons.prems(1) 2(2)] show ?thesis by (auto simp: set_permutations [OF g])
  next
    case 3
    have IH: "orders gs (n - length g) = {c. allowed_order gs (n - length g) c}"
      using Cons.IH [of "n - length g"] Cons.prems by simp
    from 3 have "orders (g # gs) n = {p @ c | p c. p \<in> set (permutations (length g) g) \<and> c \<in> orders gs (n - length g)}"
      by (subst orders_Cons) (auto simp: min_def)
    with allowed_next [OF Cons.prems(1) 3] show ?thesis by (auto simp: set_permutations [OF g] IH)
  qed
qed

lemma payout_outcomes_set:
  assumes "distinct (concat gs)"
  shows "set (payout_outcomes gs width) = {c. length (concat gs) \<ge> width \<and> allowed_order gs width c}"
  using orders_allowed [OF assms, of width]
  by (auto simp: payout_outcomes_def orders_def length_concat)

section \<open>The ranks of a result\<close>

definition ranked_at :: "(nat \<times> nat list) list \<Rightarrow> nat \<Rightarrow> nat \<Rightarrow> bool" where
  "ranked_at ranks x k \<longleftrightarrow> (\<exists>cs. (k, cs) \<in> set ranks \<and> x \<in> set cs)"

lemma add_rank_keys: "distinct (map fst ranks) \<Longrightarrow> distinct (map fst (add_rank k x ranks))"
  by (simp add: add_rank_def distinct_update)

lemma add_rank_Cons:
  "k' \<noteq> k \<Longrightarrow> add_rank k x ((k', cs) # ranks) = (k', cs) # add_rank k x ranks"
  "add_rank k x ((k, cs) # ranks) = (k, cs @ [x]) # ranks"
  by (simp_all add: add_rank_def)

lemma add_rank_mset: "mset (concat (map snd (add_rank k x ranks))) = add_mset x (mset (concat (map snd ranks)))"
proof (induction ranks)
  case Nil
  then show ?case by (simp add: add_rank_def)
next
  case (Cons p ranks)
  then show ?case by (cases p; cases "fst p = k") (simp_all add: add_rank_Cons)
qed

lemma add_rank_at:
  assumes "distinct (map fst ranks)"
  shows "ranked_at (add_rank k x ranks) v j \<longleftrightarrow> v = x \<and> j = k \<or> ranked_at ranks v j"
  using assms
proof (induction ranks)
  case Nil
  then show ?case by (auto simp: add_rank_def ranked_at_def)
next
  case (Cons p ranks)
  obtain k' cs where p: "p = (k', cs)" by (cases p)
  show ?case
  proof (cases "k' = k")
    case True
    then show ?thesis by (auto simp: p add_rank_Cons ranked_at_def)
  next
    case False
    have "ranked_at (q # qs) v j \<longleftrightarrow> (fst q = j \<and> v \<in> set (snd q)) \<or> ranked_at qs v j" for q qs
      by (cases q) (auto simp: ranked_at_def)
    with False Cons show ?thesis by (auto simp: p add_rank_Cons(1))
  qed
qed

definition scan_ok :: "result_scan \<Rightarrow> bool" where
  "scan_ok s \<longleftrightarrow> distinct (map fst (rs_ranks s)) \<and> distinct (concat (map snd (rs_ranks s))) \<and>
     distinct (map pa_car (rs_participants s)) \<and> set (map pa_car (rs_participants s)) = set (rs_cars s) \<and>
     (\<forall>x k. ranked_at (rs_ranks s) x k \<longleftrightarrow> (\<exists>p\<in>set (rs_participants s). pa_car p = x \<and> pa_rank p = Some k))"

lemma scan_ok_cars: "scan_ok s \<Longrightarrow> set (concat (map snd (rs_ranks s))) \<subseteq> set (rs_cars s)"
proof
  fix x assume ok: "scan_ok s" and "x \<in> set (concat (map snd (rs_ranks s)))"
  then obtain k where "ranked_at (rs_ranks s) x k" by (fastforce simp: ranked_at_def)
  with ok show "x \<in> set (rs_cars s)" by (fastforce simp: scan_ok_def)
qed

lemma scan_result_ok:
  assumes "scan_result n row s = Inr s'" and ok: "scan_ok s"
  shows "scan_ok s'"
proof -
  obtain car identity r state change where car: "car \<notin> set (rs_cars s)"
    and s': "s' = \<lparr>rs_cars = car # rs_cars s, rs_ids = identity # rs_ids s,
            rs_ranks = (case r of None \<Rightarrow> rs_ranks s | Some k \<Rightarrow> add_rank k car (rs_ranks s)),
            rs_participants = rs_participants s @
              [\<lparr>pa_car = car, pa_rider = ut ''keirindb:'' @ identity, pa_rank = r, pa_status = state\<rparr>],
            rs_changes = rs_changes s @ change\<rparr>"
    using assms(1) by (auto simp: scan_result_def bindR_eq_Inr Let_def split: if_splits)
  have new: "car \<notin> set (concat (map snd (rs_ranks s)))" using scan_ok_cars [OF ok] car by blast
  have keys: "distinct (map fst (rs_ranks s))" using ok by (simp add: scan_ok_def)
  show ?thesis
  proof (cases r)
    case None
    with ok car show ?thesis by (auto simp: scan_ok_def s')
  next
    case (Some k)
    have "distinct (concat (map snd (add_rank k car (rs_ranks s)))) = distinct (car # concat (map snd (rs_ranks s)))"
      by (rule mset_eq_imp_distinct_iff) (simp add: add_rank_mset)
    with ok car new show ?thesis
      using add_rank_at [OF keys] add_rank_keys [OF keys] by (auto simp: scan_ok_def s' Some)
  qed
qed

lemma scan_results_ok: "scan_results n rows s = Inr s' \<Longrightarrow> scan_ok s \<Longrightarrow> scan_ok s'"
  by (induction rows arbitrary: s) (auto simp: bindR_eq_Inr dest: scan_result_ok)

lemma rank_groups_Inr:
  "rank_groups e L = Inr gs \<Longrightarrow> gs = map (\<lambda>p. sort (snd p)) L"
  by (induction L arbitrary: e gs) (auto simp: bindR_eq_Inr split: if_splits)

lemma place_ranked:
  assumes "sorted_wrt (<) (map fst L)" and "distinct (concat (map snd L))"
    and "ranked_at L x k" and "ranked_at L y l"
  shows "place (map (\<lambda>p. sort (snd p)) L) x \<le> place (map (\<lambda>p. sort (snd p)) L) y \<longleftrightarrow> k \<le> l"
  using assms
proof (induction L)
  case Nil
  then show ?case by (simp add: ranked_at_def)
next
  case (Cons p L)
  obtain j cs where p: "p = (j, cs)" by (cases p)
  have at: "ranked_at (p # L) v i \<longleftrightarrow> (i = j \<and> v \<in> set cs) \<or> ranked_at L v i" for v i
    by (auto simp: ranked_at_def p)
  have off: "v \<notin> set cs \<and> j < i" if "ranked_at L v i" for v i
    using that Cons.prems(1,2) by (fastforce simp: ranked_at_def p)
  have "ranked_at L x k \<Longrightarrow> ranked_at L y l \<Longrightarrow>
      place (map (\<lambda>p. sort (snd p)) L) x \<le> place (map (\<lambda>p. sort (snd p)) L) y \<longleftrightarrow> k \<le> l"
    using Cons.IH Cons.prems(1,2) by (simp add: p)
  with Cons.prems(3,4) [unfolded at] off [of x k] off [of y l] show ?case
    by (auto simp: p)
qed

text \<open>The rank of a car among the participants of a race.\<close>

definition rank_of :: "participant list \<Rightarrow> nat \<Rightarrow> nat option" where
  "rank_of ps x = (case find (\<lambda>p. pa_car p = x) ps of None \<Rightarrow> None | Some p \<Rightarrow> pa_rank p)"

text \<open>
  The orders that the ranks allow for the first \<open>width\<close> places: ranked cars, each once, no worse before a
  better one, and no better-ranked car left out.
\<close>

definition possible_finish :: "participant list \<Rightarrow> nat \<Rightarrow> nat list \<Rightarrow> bool" where
  "possible_finish ps width c \<longleftrightarrow> length c = width \<and> distinct c \<and> list_all (\<lambda>x. rank_of ps x \<noteq> None) c \<and>
     sorted (map (the \<circ> rank_of ps) c) \<and>
     (\<forall>x\<in>set (map pa_car ps). \<forall>y\<in>set c.
        rank_of ps x \<noteq> None \<longrightarrow> the (rank_of ps x) < the (rank_of ps y) \<longrightarrow> x \<in> set c)"

lemma rank_of_Some:
  assumes "distinct (map pa_car ps)"
  shows "rank_of ps x = Some k \<longleftrightarrow> (\<exists>p\<in>set ps. pa_car p = x \<and> pa_rank p = Some k)"
  using assms
proof (induction ps)
  case Nil
  then show ?case by (simp add: rank_of_def)
next
  case (Cons p ps)
  have r: "rank_of (p # ps) x = (if pa_car p = x then pa_rank p else rank_of ps x)" by (simp add: rank_of_def)
  show ?case
  proof (cases "pa_car p = x")
    case True
    then have "\<forall>q\<in>set ps. pa_car q \<noteq> x" using Cons.prems by (metis distinct.simps(2) image_eqI list.simps(9) set_map)
    with True show ?thesis unfolding r by auto
  next
    case False
    with Cons.IH Cons.prems show ?thesis unfolding r by simp
  qed
qed

lemma sorted_cong:
  assumes "\<And>x y. x \<in> set c \<Longrightarrow> y \<in> set c \<Longrightarrow> f x \<le> (f y :: nat) \<longleftrightarrow> g x \<le> (g y :: nat)"
  shows "sorted (map f c) = sorted (map g c)"
  using assms by (induction c) auto

lemma mset_concat_map: "mset (concat (map f L)) = (\<Sum>p\<in>#mset L. mset (f p))"
  by (induction L) simp_all

lemma rank_groups_sorted: "sorted (map fst L) \<Longrightarrow> distinct (map fst L) \<Longrightarrow> sorted_wrt (<) (map fst L)"
  by (simp add: sorted_wrt_iff_nth_less sorted_iff_nth_mono_less distinct_conv_nth order.strict_iff_order)

lemma result_groups_places:
  assumes "result_groups rows = Inr (groups, ps, changes)"
  shows "distinct (concat groups) \<and> distinct (map pa_car ps) \<and>
    (\<forall>x. x \<in> set (concat groups) \<longleftrightarrow> rank_of ps x \<noteq> None) \<and>
    (\<forall>x\<in>set (concat groups). \<forall>y\<in>set (concat groups). place groups x \<le> place groups y \<longleftrightarrow> the (rank_of ps x) \<le> the (rank_of ps y))"
proof -
  let ?s0 = "\<lparr>rs_cars = [], rs_ids = [], rs_ranks = [], rs_participants = [], rs_changes = []\<rparr>"
  obtain s where s: "scan_results (length rows) rows ?s0 = Inr s"
    and gs: "rank_groups 1 (sort_key fst (rs_ranks s)) = Inr groups" and ps: "ps = sort_key pa_car (rs_participants s)"
    using assms by (auto simp: result_groups_def bindR_eq_Inr split: if_splits)
  have "scan_ok ?s0" by (simp add: scan_ok_def ranked_at_def)
  from scan_results_ok [OF s this] have ok: "scan_ok s" .
  let ?L = "sort_key fst (rs_ranks s)"
  note g = rank_groups_Inr [OF gs]
  have at: "ranked_at ?L x k = ranked_at (rs_ranks s) x k" for x k by (simp add: ranked_at_def)
  have "mset (concat (map snd ?L)) = mset (concat (map snd (rs_ranks s)))" by (simp add: mset_concat_map)
  then have dL: "distinct (concat (map snd ?L))" using ok mset_eq_imp_distinct_iff by (auto simp: scan_ok_def)
  have "mset (concat groups) = mset (concat (map snd ?L))" by (simp add: g mset_concat_map)
  then have dist: "distinct (concat groups)" using dL mset_eq_imp_distinct_iff by blast
  have dp: "distinct (map pa_car ps)"
    using ok by (auto simp: ps scan_ok_def distinct_map)
  have rank: "rank_of ps x = Some k \<longleftrightarrow> ranked_at ?L x k" for x k
    using ok unfolding rank_of_Some [OF dp] at by (simp add: ps scan_ok_def)
  have mem: "x \<in> set (concat groups) \<longleftrightarrow> (\<exists>k. ranked_at ?L x k)" for x
    by (auto simp: g ranked_at_def) (metis prod.collapse, metis snd_conv)
  have keys: "sorted_wrt (<) (map fst ?L)"
    using ok by (intro rank_groups_sorted) (auto simp: scan_ok_def distinct_map)
  have "place groups x \<le> place groups y \<longleftrightarrow> the (rank_of ps x) \<le> the (rank_of ps y)"
    if "x \<in> set (concat groups)" "y \<in> set (concat groups)" for x y
  proof -
    obtain k l where kl: "ranked_at ?L x k" "ranked_at ?L y l" using \<open>x \<in> _\<close> \<open>y \<in> _\<close> mem by blast
    then have "rank_of ps x = Some k" "rank_of ps y = Some l" using rank by blast+
    with place_ranked [OF keys dL kl] show ?thesis by (simp add: g)
  qed
  with dist dp mem rank show ?thesis by (metis not_None_eq)
qed

lemma allowed_possible:
  assumes "result_groups rows = Inr (groups, ps, changes)"
  shows "allowed_order groups width c = possible_finish ps width c"
proof -
  note r = result_groups_places [OF assms]
  have mem: "x \<in> set (concat groups) \<longleftrightarrow> rank_of ps x \<noteq> None" for x using r by blast
  have le: "place groups x \<le> place groups y \<longleftrightarrow> the (rank_of ps x) \<le> the (rank_of ps y)"
    if "x \<in> set (concat groups)" "y \<in> set (concat groups)" for x y using r that by blast
  have car: "rank_of ps x \<noteq> None \<Longrightarrow> x \<in> set (map pa_car ps)" for x
    using r rank_of_Some by fastforce
  show ?thesis
  proof (cases "set c \<subseteq> set (concat groups)")
    case True
    have "sorted (map (place groups) c) = sorted (map (the \<circ> rank_of ps) c)"
      using le [OF subsetD [OF True] subsetD [OF True]] by (intro sorted_cong) (simp del: set_concat)
    moreover have "(\<forall>x\<in>set (concat groups). \<forall>y\<in>set c. place groups x < place groups y \<longrightarrow> x \<in> set c) \<longleftrightarrow>
      (\<forall>x\<in>set (map pa_car ps). \<forall>y\<in>set c. rank_of ps x \<noteq> None \<longrightarrow> the (rank_of ps x) < the (rank_of ps y) \<longrightarrow> x \<in> set c)"
      using True le mem car by (smt (verit) not_le subsetD)
    moreover have "list_all (\<lambda>x. rank_of ps x \<noteq> None) c" using True mem by (auto simp: list_all_iff)
    ultimately show ?thesis using True by (simp only: allowed_order_def possible_finish_def simp_thms)
  next
    case False
    then have "\<not> list_all (\<lambda>x. rank_of ps x \<noteq> None) c" using mem by (auto simp: list_all_iff)
    with False show ?thesis unfolding allowed_order_def possible_finish_def by blast
  qed
qed

section \<open>What is paid\<close>

text \<open>
  A settlement of a race pays a list of combinations, each once and in order; or the whole stake is
  refunded, which takes fewer finishers than places.
\<close>

definition settles :: "participant list \<Rightarrow> nat \<Rightarrow> settlement \<Rightarrow> bool" where
  "settles ps width s \<longleftrightarrow>
     (if se_status s = ''full_refund''
      then se_outcomes s = [] \<and> length (filter (\<lambda>p. pa_rank p \<noteq> None) ps) < width
      else set (map fst (se_outcomes s)) = {c. possible_finish ps width c} \<and> sorted (map fst (se_outcomes s)) \<and>
           distinct (map fst (se_outcomes s)) \<and> se_outcomes s \<noteq> [] \<and>
           se_status s = (if length (se_outcomes s) = 1 then ''ordinary'' else ''dead_heat''))"

lemma settle_rows_Inr:
  assumes "settle_rows expected width rows outs changes = Inr (outs', changes')" and "distinct (map fst outs)"
  shows "distinct (map fst outs') \<and> set (map fst outs') \<subseteq> set (map fst outs) \<union> set expected"
  using assms
proof (induction rows arbitrary: outs changes)
  case Nil
  then show ?case by auto
next
  case (Cons row rows)
  obtain cars amount ch where new: "cars \<in> set expected" "cars \<notin> set (map fst outs)"
    and rest: "settle_rows expected width rows (outs @ [(cars, amount)]) ch = Inr (outs', changes')"
    using Cons.prems(1) by (auto simp: bindR_eq_Inr split: if_splits)
  have "distinct (map fst (outs @ [(cars, amount)]))" using Cons.prems(2) new(2) by simp
  from Cons.IH [OF rest this] new(1) show ?case by auto
qed

lemma orders_nonempty: "distinct (concat gs) \<Longrightarrow> n \<le> length (concat gs) \<Longrightarrow> orders gs n \<noteq> {}"
proof (induction gs arbitrary: n)
  case Nil
  then show ?case by simp
next
  case (Cons g gs)
  show ?case
  proof (cases "n = 0")
    case False
    let ?k = "min n (length g)"
    have "take ?k g \<in> set (permutations ?k g)"
      using Cons.prems(1) by (simp add: set_permutations set_take_subset)
    moreover obtain c where "c \<in> orders gs (n - ?k)"
      using Cons.IH [of "n - ?k"] Cons.prems by fastforce
    ultimately show ?thesis using False by (auto simp: orders_Cons)
  qed simp
qed

lemma payout_outcomes_Nil:
  assumes "distinct (concat gs)"
  shows "payout_outcomes gs width = [] \<longleftrightarrow> length (concat gs) < width"
proof (cases "length (concat gs) < width")
  case True
  then show ?thesis by (simp add: payout_outcomes_def length_concat)
next
  case False
  then have "orders gs width \<noteq> {}" using orders_nonempty [OF assms] by simp
  with False show ?thesis by (auto simp: payout_outcomes_def orders_def length_concat)
qed

lemma ranked_cars:
  assumes "result_groups rows = Inr (groups, ps, changes)"
  shows "length (concat groups) = length (filter (\<lambda>p. pa_rank p \<noteq> None) ps)"
proof -
  note r = result_groups_places [OF assms]
  let ?R = "map pa_car (filter (\<lambda>p. pa_rank p \<noteq> None) ps)"
  have d: "distinct ?R" using r by (auto simp: distinct_map inj_on_def)
  have "x \<in> set ?R \<longleftrightarrow> rank_of ps x \<noteq> None" for x
    using r rank_of_Some [of ps x] by force
  then have "set ?R = set (concat groups)" using r by blast
  then have "card (set ?R) = card (set (concat groups))" by (rule arg_cong)
  moreover have "card (set ?R) = length ?R" by (rule distinct_card [OF d])
  moreover have "card (set (concat groups)) = length (concat groups)" using r by (intro distinct_card) blast
  ultimately show ?thesis by simp
qed

lemma settle_settles:
  assumes groups: "result_groups rows = Inr (groups, ps, changes)" and s: "settle payoffs groups width = Inr s"
  shows "settles ps width s"
proof -
  have dist: "distinct (concat groups)" using result_groups_places [OF groups] by blast
  let ?e = "payout_outcomes groups width"
  show ?thesis
  proof (cases "?e = []")
    case True
    with s have "se_status s = ''full_refund''" "se_outcomes s = []"
      by (auto simp: settle_def full_refund_def bindR_eq_Inr split: list.splits if_splits)
    with True show ?thesis
      using payout_outcomes_Nil [OF dist, of width] ranked_cars [OF groups] by (simp add: settles_def)
  next
    case False
    then obtain outs ch where rows: "settle_rows ?e width payoffs [] [] = Inr (outs, ch)" and all: "set (map fst outs) = set ?e"
      and s': "s = \<lparr>se_status = (if 1 < card (set ?e) then ''dead_heat'' else ''ordinary''), se_outcomes = sort_key fst outs, se_changes = ch\<rparr>"
      using s by (auto simp: settle_def bindR_eq_Inr Let_def simp del: set_map split: if_splits)
    have d: "distinct (map fst outs)" using settle_rows_Inr [OF rows] by simp
    have "card (set ?e) = length outs" using all distinct_card [OF d] by simp
    moreover have "outs \<noteq> []" using all False by auto
    moreover have "set ?e = {c. possible_finish ps width c}"
      using payout_outcomes_set [OF dist, of width] allowed_possible [OF groups] False payout_outcomes_Nil [OF dist, of width] by auto
    moreover have "distinct (map fst (sort_key fst outs))" using d by (auto simp: distinct_map)
    ultimately show ?thesis
      using all by (auto simp: settles_def s' Suc_lessI length_greater_0_conv [symmetric] simp del: length_greater_0_conv)
  qed
qed

text \<open>C19. The settlement of a race is exactly what its ranks allow. For both bets, in order, the settled
  combinations are pairwise different, and a combination is settled exactly when it is a finish order of that
  width that the ranks of the participants allow, dead heats in every order; too few finishers are
  settled only as a full refund, and the status says whether one order or several were possible.\<close>

theorem payouts_are_the_possible_finishes:
  assumes "race_facts key info results payoffs = Inr f"
  shows "list_all2 (\<lambda>(bet, width) (bet', s). bet' = bet \<and> settles (rf_participants f) width s) WIDTHS (rf_settlements f)"
proof -
  obtain groups ps ch where groups: "result_groups results = Inr (groups, ps, ch)" and ps: "rf_participants f = ps"
    and settled: "mapR (\<lambda>(bet, width). bindR (rows_of_bet bet payoffs) (\<lambda>rows.
              bindR (settle rows groups width) (\<lambda>s. Inr (bet, s)))) WIDTHS = Inr (rf_settlements f)"
    using assms by (auto simp: race_facts_def bindR_eq_Inr)
  show ?thesis
    using settled unfolding mapR_eq_Inr ps
    by (rule list_all2_mono) (auto simp: bindR_eq_Inr dest: settle_settles [OF groups])
qed

section \<open>A race with a dead heat\<close>

definition dh_row :: "(string \<times> string) list \<Rightarrow> row" where
  "dh_row = map (\<lambda>(k, v). (ut k, ut v))"

definition dh_info :: "row list" where
  "dh_info = [dh_row [(''Race_ID'', ''20240229_Tachikawa5''), (''Date'', ''20240229''), (''Venue'', ''Tachikawa''), (''Race_Number'', ''5''),
     (''Unit'', ''3''), (''Race_Status'', ''held'')]]"

definition dh_results :: "row list" where
  "dh_results = map (\<lambda>(car, p, rank). dh_row [(''Car'', car), (''Player_ID'', p), (''Rank'', rank), (''Status'', [])])
     [(''3'', ''30'', ''2''), (''1'', ''10'', ''1''), (''2'', ''20'', ''2'')]"

definition dh_pay :: "utext \<Rightarrow> string \<Rightarrow> string \<Rightarrow> row" where
  "dh_pay bet c yen = (ut ''Bet_Type'', bet) # dh_row [(''Outcome'', c), (''Payout'', yen)]"

definition dh_payoffs :: "row list" where
  "dh_payoffs = [dh_pay EXACTA ''1-2'' ''230'', dh_pay TRIFECTA ''1-3-2'' ''1,250'', dh_pay EXACTA ''1-3'' ''310'',
     dh_pay TRIFECTA ''1-2-3'' ''980'']"

lemma dh_identity: "race_identity (ut ''20240229_Tachikawa5'') dh_info 3 = Inr (ut ''2024-02-29'', ut ''Tachikawa'', 5)"
  by code_simp

definition dh_participants :: "participant list" where
  "dh_participants = map (\<lambda>(car, p, r). \<lparr>pa_car = car, pa_rider = ut ''keirindb:'' @ ut p, pa_rank = Some r, pa_status = ''FINISHED''\<rparr>)
     [(1, ''10'', 1), (2, ''20'', 2), (3, ''30'', 2)]"

lemma inj_ut: "ut a = ut b \<longleftrightarrow> a = b"
  by (simp add: ut_def code_def inj_map_eq_map inj_def)

lemma dh_row_item: "row_item (dh_row l) k = (case map_of l k of None \<Rightarrow> Inl (Exc KeyError k) | Some v \<Rightarrow> Inr (ut v))"
  by (induction l) (auto simp: row_item_def dh_row_def inj_ut split: option.splits)

lemma dh_cars: "car_number (ut ''1'') = Inr 1" "car_number (ut ''2'') = Inr 2" "car_number (ut ''3'') = Inr 3"
  "list_all digit09 (ut ''10'')" "list_all digit09 (ut ''20'')" "list_all digit09 (ut ''30'')" "ut [] = []" "ut (c # cs) \<noteq> []"
  "ut ''1'' \<noteq> FAULT_RANK" "ut ''2'' \<noteq> FAULT_RANK"
  by code_simp+

lemma dh_groups: "result_groups dh_results = Inr ([[1], [2, 3]], dh_participants, [])"
  by (simp add: result_groups_def dh_results_def scan_result_def dh_row_item dh_cars finish_of_def inj_ut Let_def add_rank_def
      dh_participants_def)

definition dh_exacta :: settlement where
  "dh_exacta = \<lparr>se_status = ''dead_heat'', se_outcomes = [([1, 2], 230), ([1, 3], 310)], se_changes = []\<rparr>"

definition dh_trifecta :: settlement where
  "dh_trifecta = \<lparr>se_status = ''dead_heat'', se_outcomes = [([1, 2, 3], 980), ([1, 3, 2], 1250)], se_changes = []\<rparr>"

lemma dh_pay_item:
  "row_item (dh_pay bet c yen) ''Bet_Type'' = Inr bet" "row_item (dh_pay bet c yen) ''Outcome'' = Inr (ut c)"
  "row_item (dh_pay bet c yen) ''Payout'' = Inr (ut yen)"
  by (simp_all add: dh_pay_def row_item_def dh_row_def inj_ut)

lemma dh_texts:
  "parse_ordered (ut ''1-2'') 2 = Inr ([1, 2], ''literal_ordered_combination'')"
  "parse_ordered (ut ''1-3'') 2 = Inr ([1, 3], ''literal_ordered_combination'')"
  "parse_ordered (ut ''1-2-3'') 3 = Inr ([1, 2, 3], ''literal_ordered_combination'')"
  "parse_ordered (ut ''1-3-2'') 3 = Inr ([1, 3, 2], ''literal_ordered_combination'')"
proof -
  have "ut ''1-2'' = [49, 45, 50]" "ut ''1-3'' = [49, 45, 51]" "ut ''1-2-3'' = [49, 45, 50, 45, 51]" "ut ''1-3-2'' = [49, 45, 51, 45, 50]"
    by code_simp+
  then show "parse_ordered (ut ''1-2'') 2 = Inr ([1, 2], ''literal_ordered_combination'')"
    "parse_ordered (ut ''1-3'') 2 = Inr ([1, 3], ''literal_ordered_combination'')"
    "parse_ordered (ut ''1-2-3'') 3 = Inr ([1, 2, 3], ''literal_ordered_combination'')"
    "parse_ordered (ut ''1-3-2'') 3 = Inr ([1, 3, 2], ''literal_ordered_combination'')"
    by (simp_all add: parse_ordered_def digit19_def numeral_2_eq_2 numeral_3_eq_3)
qed

lemma dh_money: "money (ut ''230'') = Inr 230" "money (ut ''310'') = Inr 310" "money (ut ''980'') = Inr 980" "money (ut ''1,250'') = Inr 1250"
proof -
  have "money_ok (ut ''230'')" "money_ok (ut ''310'')" "money_ok (ut ''980'')" "money_ok (ut ''1,250'')" by code_simp+
  moreover have "filter (\<lambda>c. c \<noteq> 44) (ut ''230'') = [50, 51, 48]" "filter (\<lambda>c. c \<noteq> 44) (ut ''310'') = [51, 49, 48]"
    "filter (\<lambda>c. c \<noteq> 44) (ut ''980'') = [57, 56, 48]" "filter (\<lambda>c. c \<noteq> 44) (ut ''1,250'') = [49, 50, 53, 48]"
    by code_simp+
  ultimately show "money (ut ''230'') = Inr 230" "money (ut ''310'') = Inr 310" "money (ut ''980'') = Inr 980" "money (ut ''1,250'') = Inr 1250"
    by (simp_all add: money_def digits_nat_def)
qed

lemma dh_outcomes: "payout_outcomes [[1], [2, 3]] 2 = [[1, 2], [1, 3]]" "payout_outcomes [[1], [2, 3]] 3 = [[1, 2, 3], [1, 3, 2]]"
  by (simp_all add: payout_outcomes_def numeral_2_eq_2 numeral_3_eq_3)

lemma dh_settled:
  "mapR (\<lambda>(bet, width). bindR (rows_of_bet bet dh_payoffs) (\<lambda>rows.
     bindR (settle rows [[1], [2, 3]] width) (\<lambda>s. Inr (bet, s)))) WIDTHS = Inr [(EXACTA, dh_exacta), (TRIFECTA, dh_trifecta)]"
proof -
  have rows: "rows_of_bet EXACTA dh_payoffs = Inr [dh_pay EXACTA ''1-2'' ''230'', dh_pay EXACTA ''1-3'' ''310'']"
    "rows_of_bet TRIFECTA dh_payoffs = Inr [dh_pay TRIFECTA ''1-3-2'' ''1,250'', dh_pay TRIFECTA ''1-2-3'' ''980'']"
    by (simp_all add: dh_payoffs_def dh_pay_item EXACTA_def TRIFECTA_def)
  have "settle [dh_pay EXACTA ''1-2'' ''230'', dh_pay EXACTA ''1-3'' ''310''] [[1], [2, 3]] 2 = Inr dh_exacta"
    by (simp add: settle_def dh_outcomes [simplified] dh_pay_item dh_texts [simplified] dh_money dh_exacta_def Let_def)
  moreover have "settle [dh_pay TRIFECTA ''1-3-2'' ''1,250'', dh_pay TRIFECTA ''1-2-3'' ''980''] [[1], [2, 3]] 3 = Inr dh_trifecta"
    by (simp add: settle_def dh_outcomes [simplified] dh_pay_item dh_texts [simplified] dh_money dh_trifecta_def Let_def insert_commute)
  ultimately show ?thesis by (simp add: WIDTHS_def rows)
qed

theorem payouts_are_the_possible_finishes_witness:
  "\<exists>f. race_facts (ut ''20240229_Tachikawa5'') dh_info dh_results dh_payoffs = Inr f \<and>
     settles (rf_participants f) 2 dh_exacta \<and> settles (rf_participants f) 3 dh_trifecta"
proof -
  have "length dh_results = 3" by (simp add: dh_results_def)
  then obtain f where f: "race_facts (ut ''20240229_Tachikawa5'') dh_info dh_results dh_payoffs = Inr f"
    and s: "rf_settlements f = [(EXACTA, dh_exacta), (TRIFECTA, dh_trifecta)]"
    by (simp add: race_facts_def dh_identity dh_groups dh_settled del: One_nat_def)
  from payouts_are_the_possible_finishes [OF f] s f show ?thesis by (auto simp: WIDTHS_def)
qed

section \<open>Every race, none approved\<close>

definition row_race :: "row \<Rightarrow> utext" where
  "row_race row = (case race_id_of row of Inr key \<Rightarrow> key | Inl _ \<Rightarrow> [])"

lemma group_rows_keys:
  assumes "group_rows seen n g rows = Inr (n', g')" and "inj_on row_digest (set rows \<union> A)"
    and "set seen = row_digest ` A" and "fst ` set g = row_race ` A"
  shows "fst ` set g' = row_race ` (set rows \<union> A)"
  using assms
proof (induction rows arbitrary: seen n g A)
  case Nil
  then show ?case by simp
next
  case (Cons row rows)
  obtain key where key: "race_id_of row = Inr key" using Cons.prems(1) by (auto simp: bindR_eq_Inr)
  have inj: "inj_on row_digest (set rows \<union> insert row A)" using Cons.prems(2) by simp
  show ?case
  proof (cases "row_digest row \<in> set seen")
    case True
    then obtain a where a: "a \<in> A" "row_digest row = row_digest a" using Cons.prems(3) by auto
    then have "row = a" using Cons.prems(2) by (auto dest: inj_onD)
    with a have "insert row A = A" by blast
    then have all: "set (row # rows) \<union> A = set rows \<union> A" by auto
    have "group_rows seen (n + 1) g rows = Inr (n', g')" using Cons.prems(1) key True by simp
    from Cons.IH [OF this _ Cons.prems(3,4)] Cons.prems(2) show ?thesis unfolding all by simp
  next
    case False
    have rest: "group_rows (row_digest row # seen) n (AList.update key (grouped g key @ [row]) g) rows = Inr (n', g')"
      using Cons.prems(1) key False by simp
    have "row_race row = key" by (simp add: row_race_def key)
    then have "fst ` set (AList.update key (grouped g key @ [row]) g) = row_race ` insert row A"
      using Cons.prems(4) by (simp add: dom_update)
    from Cons.IH [OF rest inj _ this] Cons.prems(3) show ?thesis by simp
  qed
qed

text \<open>The fields that no race changes.\<close>

definition unapproved :: "udict \<Rightarrow> bool" where
  "unapproved item \<longleftrightarrow> list_all (\<lambda>k. map_of item (ut k) = Some (UBool False))
     [''training_approved'', ''external_source_verified'', ''prospective'', ''pre_race_state_verified'']"

lemma map_of_append_Some: "map_of xs k = Some v \<Longrightarrow> map_of (xs @ ys) k = Some v"
  by simp

lemma map_of_ut: "map_of (map (\<lambda>(k, v). (ut k, v)) l) (ut k) = map_of l k"
  by (induction l) (auto simp: inj_ut)

abbreviation fixed_keys :: "string list" where
  "fixed_keys \<equiv> [''training_approved'', ''external_source_verified'', ''prospective'', ''pre_race_state_verified'']"

lemma quarantined_item_fixed:
  "map_of (quarantined_item key raw reasons) (ut ''race_id'') = Some (UText key)"
  "list_all (\<lambda>k. map_of (quarantined_item key raw reasons) (ut k) = Some (UBool False)) fixed_keys"
proof -
  have q: "quarantined_item key raw reasons = map (\<lambda>(k, v). (ut k, v))
     [(''race_id'', UText key), (''raw'', raw), (''raw_sha256'', UText (ut (ujson_digest raw))),
      (''normalization_status'', UText (ut ''quarantined'')), (''reasons'', UList (map (\<lambda>r. UText (ut r)) reasons)),
      (''external_source_verified'', UBool False), (''training_approved'', UBool False), (''feature_as_of'', UNull),
      (''result_available_at'', UNull), (''pre_race_state_verified'', UBool False), (''pre_race_features'', UList []),
      (''prospective'', UBool False)]"
    by (simp add: quarantined_item_def)
  show "map_of (quarantined_item key raw reasons) (ut ''race_id'') = Some (UText key)"
    "list_all (\<lambda>k. map_of (quarantined_item key raw reasons) (ut k) = Some (UBool False)) fixed_keys"
    unfolding q map_of_ut by simp_all
qed

abbreviation facts_keys :: "string list" where
  "facts_keys \<equiv> [''normalization_status'', ''race_date'', ''venue'', ''race_number'', ''participants'',
     ''finish_order_groups'', ''listed_result_roster_count'', ''actual_starters'', ''settlements'', ''result_status_changes'']"

lemma facts_json_keys: "map fst (facts_json f) = map ut facts_keys"
  by (simp add: facts_json_def)

lemma facts_json_fixed:
  assumes "k \<notin> set facts_keys"
  shows "map_of (dict_update d (facts_json f)) (ut k) = map_of d (ut k)"
proof -
  have "ut k \<notin> set (map ut names) \<longleftrightarrow> k \<notin> set names" for names by (induction names) (simp_all add: inj_ut)
  then have "ut k \<notin> set (map fst (facts_json f))" unfolding facts_json_keys using assms by blast
  then have "ut k \<notin> fst ` set (rev (facts_json f))" by simp
  then have "map_of (rev (facts_json f)) (ut k) = None" by (simp only: map_of_eq_None_iff simp_thms)
  then show ?thesis by (simp only: dict_update_map_of map_add_def option.case)
qed

lemma fixed_disjoint:
  "''race_id'' \<notin> set facts_keys" "list_all (\<lambda>k. k \<notin> set facts_keys) fixed_keys"
  by code_simp+

lemma race_item_fixed:
  "unapproved (race_item key info results payoffs)" "item_text (race_item key info results payoffs) ''race_id'' = key"
proof -
  let ?raw = "raw_rows info results payoffs"
  define item where "item = (case race_facts key info results payoffs of
     Inl e \<Rightarrow> quarantined_item key ?raw [exc_text e] | Inr f \<Rightarrow> dict_update (quarantined_item key ?raw []) (facts_json f))"
  have f1: "map_of item (ut ''race_id'') = Some (UText key)"
    unfolding item_def
    by (cases "race_facts key info results payoffs")
      (simp_all only: sum.case quarantined_item_fixed(1) facts_json_fixed [OF fixed_disjoint(1)])
  have f2: "map_of item (ut k) = Some (UBool False)" if k: "k \<in> set fixed_keys" for k
  proof -
    have q: "map_of (quarantined_item key raw reasons) (ut k) = Some (UBool False)" for raw reasons
      using quarantined_item_fixed(2) k unfolding list_all_iff by (rule bspec)
    have d: "k \<notin> set facts_keys" using fixed_disjoint(2) k unfolding list_all_iff by (rule bspec)
    show ?thesis unfolding item_def
      by (cases "race_facts key info results payoffs") (simp_all only: sum.case q facts_json_fixed [OF d])
  qed
  have whole: "race_item key info results payoffs = item @ [(ut ''candidate_sha256'', UText (ut (ujson_digest (UDict item))))]"
    by (simp only: race_item_def Let_def item_def)
  show "item_text (race_item key info results payoffs) ''race_id'' = key"
    unfolding item_text_def whole map_of_append_Some [OF f1] by simp
  have "map_of (race_item key info results payoffs) (ut k) = Some (UBool False)" if "k \<in> set fixed_keys" for k
    unfolding whole by (rule map_of_append_Some [OF f2 [OF that]])
  then show "unapproved (race_item key info results payoffs)"
    unfolding unapproved_def list_all_iff by (rule ballI)
qed

text \<open>C24. No race is lost and none is approved. When distinct rows have distinct digests, the normalised records
  are those of exactly the races named by any row of the three inputs, once each and in order of their identifiers,
  and every record, quarantined or not, keeps its approval and verification flags false.\<close>

theorem normalize_keeps_every_race:
  assumes "normalize info results payoffs = Inr report"
    and "inj_on row_digest (set info)" and "inj_on row_digest (set results)" and "inj_on row_digest (set payoffs)"
  shows "map (\<lambda>i. item_text i ''race_id'') (pr_records report) = sort (remdups (map row_race (info @ results @ payoffs))) \<and>
    list_all unapproved (pr_records report)"
proof -
  obtain ri gi rr gr rp gp where g: "group_rows [] 0 [] info = Inr (ri, gi)" "group_rows [] 0 [] results = Inr (rr, gr)"
      "group_rows [] 0 [] payoffs = Inr (rp, gp)"
    and r: "pr_records report = map (\<lambda>key. race_item key (grouped gi key) (grouped gr key) (grouped gp key))
      (sort (remdups (map fst gi @ map fst gr @ map fst gp)))"
    using assms(1) by (auto simp: normalize_def bindR_eq_Inr Let_def)
  have "set (map fst gi @ map fst gr @ map fst gp) = set (map row_race (info @ results @ payoffs))"
    using group_rows_keys [OF g(1), of "{}"] group_rows_keys [OF g(2), of "{}"] group_rows_keys [OF g(3), of "{}"] assms(2-4)
    by auto
  then have "sort (remdups (map fst gi @ map fst gr @ map fst gp)) = sort (remdups (map row_race (info @ results @ payoffs)))"
    by (intro sorted_distinct_set_unique) (simp_all add: distinct_remdups)
  then show ?thesis by (simp add: r comp_def race_item_fixed list_all_iff del: remdups_append2)
qed

definition lone_row :: "string \<Rightarrow> row" where
  "lone_row key = dh_row [(''Race_ID'', key)]"

lemma lone_row_race: "race_id_of (lone_row ''r1'') = Inr (ut ''r1'')" "race_id_of (lone_row ''r2'') = Inr (ut ''r2'')"
  by code_simp+

lemma lone_groups: "group_rows [] 0 [] [lone_row ''r1''] = Inr (0, [(ut ''r1'', [lone_row ''r1''])])"
  "group_rows [] 0 [] [lone_row ''r2''] = Inr (0, [(ut ''r2'', [lone_row ''r2''])])"
  by (simp_all add: lone_row_race grouped_def)

lemma lone_keys: "sort (remdups [ut ''r2'', ut ''r1'', ut ''r2'']) = [ut ''r1'', ut ''r2'']"
  by code_simp

lemma lone_row_ids: "row_race (lone_row ''r1'') = ut ''r1''" "row_race (lone_row ''r2'') = ut ''r2''"
  by (simp_all add: row_race_def lone_row_race)

theorem normalize_keeps_every_race_witness:
  "\<exists>report. normalize [lone_row ''r2''] [lone_row ''r1''] [lone_row ''r2''] = Inr report \<and>
     map (\<lambda>i. item_text i ''race_id'') (pr_records report) = [ut ''r1'', ut ''r2''] \<and> list_all unapproved (pr_records report)"
proof -
  have "\<exists>report. normalize [lone_row ''r2''] [lone_row ''r1''] [lone_row ''r2''] = Inr report"
    unfolding normalize_def lone_groups bindR_simps prod.case Let_def by (rule exI, rule refl)
  then obtain report where r: "normalize [lone_row ''r2''] [lone_row ''r1''] [lone_row ''r2''] = Inr report" ..
  have keys: "map row_race ([lone_row ''r2''] @ [lone_row ''r1''] @ [lone_row ''r2'']) = [ut ''r2'', ut ''r1'', ut ''r2'']"
    by (simp only: list.map append.simps lone_row_ids)
  have inj: "inj_on row_digest (set [row])" for row by (simp add: inj_on_def)
  from normalize_keeps_every_race [OF r inj inj inj] show ?thesis
    unfolding keys lone_keys by (intro exI [of _ report] conjI r; elim conjE)
qed

end
