(* ===== verification/Host_Trust.thy ===== *)
theory Host_Trust
  imports Postgres_Host Github_Text Hosted_Transport
begin

text \<open>
  The pinned certificate snapshot, \<^verbatim>\<open>src/agent_core/host_trust.py\<close>: a path is walked directory by directory on
  file descriptors, the file is checked, read within a bound, compared with its pinned digest and copied
  into a sealed memory file, and every other descriptor is closed. The system calls are the argument \<open>os\<close>;
  a read returns at most the bytes it was asked for, and a mode is a number of 16 bits. The local variables
  of the function, its descriptors and the memory file, stand beside the world.
\<close>

section \<open>The system\<close>

datatype open_flag = O_RDONLY | O_DIRECTORY | O_NOFOLLOW | O_NONBLOCK | O_CLOEXEC

text \<open>The fields of \<open>fstat\<close> that are looked at.\<close>

record file_info =
  fi_dev :: int
  fi_ino :: int
  fi_size :: int
  fi_mtime_ns :: int
  fi_ctime_ns :: int
  fi_uid :: nat
  fi_mode :: nat
  fi_nlink :: int

record 'w trust_os =
  to_linux :: bool
  to_geteuid :: "'w \<Rightarrow> nat"
  to_open :: "open_flag list \<Rightarrow> string \<Rightarrow> nat option \<Rightarrow> ('w, nat) eff"
  to_fstat :: "nat \<Rightarrow> ('w, file_info) eff"
  to_read :: "nat \<Rightarrow> nat \<Rightarrow> ('w, nat list) eff"
  to_close :: "nat \<Rightarrow> ('w, unit) eff"
  to_memfd_create :: "string \<Rightarrow> ('w, nat) eff"
  to_write :: "nat \<Rightarrow> nat list \<Rightarrow> ('w, int) eff"
  to_rewind :: "nat \<Rightarrow> ('w, unit) eff"
  to_add_seals :: "nat \<Rightarrow> nat \<Rightarrow> ('w, unit) eff"
  to_get_seals :: "nat \<Rightarrow> ('w, nat) eff"

record trust_locals =
  tr_descriptors :: "nat list"
  tr_sealed :: "nat option"

definition readE :: "('w \<Rightarrow> 'a) \<Rightarrow> ('w, 'a) eff" where
  "readE f w = (Inr (f w), w)"

definition trust_invalid :: "('w, 'a) eff" where
  "trust_invalid = raiseE (Exc ValueError [])"

definition HostTrustError :: "string \<Rightarrow> exc" where
  "HostTrustError m = Exc (OtherError ''HostTrustError'') m"

section \<open>The checks\<close>

definition MAX_CA_BYTES :: nat where
  "MAX_CA_BYTES = 131072"

definition SEALS :: nat where
  "SEALS = 8 + 4 + 2 + 1"

text \<open>The directories, the name of the file and the pin.\<close>

definition trust_request :: "pyval \<Rightarrow> pyval \<Rightarrow> (string list \<times> string \<times> string) res" where
  "trust_request path expected =
     (case (path, expected) of
        (PStr p, PStr pin) \<Rightarrow>
          let parts = filter (\<lambda>x. x \<noteq> [] \<and> x \<noteq> ''.'') (split_on (CHR ''/'') p) in
          if \<not> starts_with ''/'' p \<or> 2048 < length p \<or> posix_path p \<noteq> p \<or> ''..'' \<in> set (split_on (CHR ''/'') p) \<or>
             \<not> hex64 pin \<or> parts = []
          then value_error [] else Inr (butlast parts, last parts, pin)
      | _ \<Rightarrow> value_error [])"

text \<open>Written by the group or by others, \<open>mode & 0o022\<close>; the sticky bit, \<open>mode & S_ISVTX\<close>; \<open>S_ISREG(mode)\<close>.\<close>

definition shared_write :: "nat \<Rightarrow> bool" where
  "shared_write mode \<longleftrightarrow> bit mode 1 \<or> bit mode 4"

definition sticky :: "nat \<Rightarrow> bool" where
  "sticky mode \<longleftrightarrow> bit mode 9"

definition regular_file :: "nat \<Rightarrow> bool" where
  "regular_file mode \<longleftrightarrow> (mode div 4096) mod 16 = 8"

definition directory_ok :: "bool \<Rightarrow> nat \<Rightarrow> file_info \<Rightarrow> bool" where
  "directory_ok ancestor euid info \<longleftrightarrow>
     fi_uid info \<in> {0, euid} \<and> (\<not> shared_write (fi_mode info) \<or> ancestor \<and> fi_uid info = 0 \<and> sticky (fi_mode info))"

definition trust_file_ok :: "nat \<Rightarrow> file_info \<Rightarrow> bool" where
  "trust_file_ok euid info \<longleftrightarrow>
     regular_file (fi_mode info) \<and> fi_uid info \<in> {0, euid} \<and> \<not> shared_write (fi_mode info) \<and> fi_nlink info = 1 \<and>
     0 < fi_size info \<and> fi_size info \<le> int MAX_CA_BYTES"

section \<open>The snapshot\<close>

definition open_kept :: "'w trust_os \<Rightarrow> open_flag list \<Rightarrow> string \<Rightarrow> nat option \<Rightarrow> (trust_locals \<times> 'w, nat) eff" where
  "open_kept os flags name dir =
     bindE (hostE (to_open os flags name dir)) (\<lambda>fd.
     bindE (localE (\<lambda>l. l\<lparr>tr_descriptors := tr_descriptors l @ [fd]\<rparr>)) (\<lambda>_. retE fd))"

fun open_directories :: "'w trust_os \<Rightarrow> nat \<Rightarrow> string list \<Rightarrow> (trust_locals \<times> 'w, nat) eff" where
  "open_directories os directory [] = retE directory"
| "open_directories os directory (part # rest) =
     bindE (open_kept os [O_RDONLY, O_DIRECTORY, O_NOFOLLOW, O_CLOEXEC] part (Some directory)) (\<lambda>fd.
     bindE (hostE (to_fstat os fd)) (\<lambda>info.
     bindE (hostE (readE (to_geteuid os))) (\<lambda>euid.
     if \<not> directory_ok (rest \<noteq> []) euid info then trust_invalid else open_directories os fd rest)))"

text \<open>The loops of reading and writing end: a read that returns nothing stops, a write that writes nothing fails.\<close>

function read_content :: "'w trust_os \<Rightarrow> nat \<Rightarrow> nat \<Rightarrow> nat list \<Rightarrow> ('w, nat list) eff" where
  "read_content os fd remaining chunks w =
     (if remaining = 0 then (Inr chunks, w)
      else case to_read os fd (min 16384 remaining) w of
        (Inl e, w') \<Rightarrow> (Inl e, w')
      | (Inr chunk, w') \<Rightarrow>
          if chunk = [] then (Inr chunks, w') else read_content os fd (remaining - length chunk) (chunks @ chunk) w')"
  by pat_completeness auto
termination by (relation "measure (\<lambda>(os, fd, remaining, chunks, w). remaining)") (auto simp: diff_less)

function write_content :: "'w trust_os \<Rightarrow> nat \<Rightarrow> nat list \<Rightarrow> ('w, unit) eff" where
  "write_content os fd content w =
     (if content = [] then (Inr (), w)
      else case to_write os fd content w of
        (Inl e, w') \<Rightarrow> (Inl e, w')
      | (Inr written, w') \<Rightarrow>
          if written \<le> 0 then trust_invalid w' else write_content os fd (drop (nat written) content) w')"
  by pat_completeness auto
termination by (relation "measure (\<lambda>(os, fd, content, w). length content)") auto

declare read_content.simps [simp del] write_content.simps [simp del]

definition seal_content :: "'w trust_os \<Rightarrow> nat list \<Rightarrow> (trust_locals \<times> 'w, unit) eff" where
  "seal_content os content =
     bindE (hostE (to_memfd_create os ''agent-host-trust'')) (\<lambda>fd.
     bindE (localE (\<lambda>l. l\<lparr>tr_sealed := Some fd\<rparr>)) (\<lambda>_.
     bindE (hostE (write_content os fd content)) (\<lambda>_.
     bindE (hostE (to_rewind os fd)) (\<lambda>_.
     bindE (hostE (to_add_seals os fd SEALS)) (\<lambda>_.
     bindE (hostE (to_get_seals os fd)) (\<lambda>seals.
     if seals mod 16 \<noteq> SEALS then trust_invalid else retE ()))))))"

definition pinned_content :: "'w trust_os \<Rightarrow> nat \<Rightarrow> string \<Rightarrow> (trust_locals \<times> 'w, nat list) eff" where
  "pinned_content os fd pin =
     bindE (hostE (to_fstat os fd)) (\<lambda>before.
     bindE (hostE (readE (to_geteuid os))) (\<lambda>euid.
     if \<not> trust_file_ok euid before then trust_invalid
     else
       bindE (hostE (read_content os fd (MAX_CA_BYTES + 1) [])) (\<lambda>content.
       bindE (hostE (to_fstat os fd)) (\<lambda>after.
       if int (length content) \<noteq> fi_size before \<or> after \<noteq> before \<or> sha256_hex content \<noteq> pin then trust_invalid
       else retE content))))"

definition trust_body :: "'w trust_os \<Rightarrow> pyval \<Rightarrow> pyval \<Rightarrow> (trust_locals \<times> 'w, unit) eff" where
  "trust_body os path expected =
     (if \<not> to_linux os then trust_invalid
      else
        bindE (liftE (trust_request path expected)) (\<lambda>(directories, name, pin).
        bindE (open_kept os [O_RDONLY, O_DIRECTORY, O_CLOEXEC] ''/'' None) (\<lambda>root.
        bindE (open_directories os root directories) (\<lambda>directory.
        bindE (open_kept os [O_RDONLY, O_NOFOLLOW, O_NONBLOCK, O_CLOEXEC] name (Some directory)) (\<lambda>fd.
        bindE (pinned_content os fd pin) (seal_content os))))))"

text \<open>The \<open>finally\<close> block: every descriptor is closed, and a failure to close one is remembered.\<close>

definition os_error :: "exc \<Rightarrow> bool" where
  "os_error e \<longleftrightarrow> (case exc_cls e of OtherError n \<Rightarrow> n \<in> set OS_ERRORS | _ \<Rightarrow> False)"

fun close_descriptors :: "'w trust_os \<Rightarrow> nat list \<Rightarrow> bool \<Rightarrow> ('w, bool) eff" where
  "close_descriptors os [] failed w = (Inr failed, w)"
| "close_descriptors os (fd # fds) failed w =
     (case to_close os fd w of
        (Inr _, w') \<Rightarrow> close_descriptors os fds failed w'
      | (Inl e, w') \<Rightarrow> if os_error e then close_descriptors os fds True w' else (Inl e, w'))"

definition trust_failure :: "unit res \<Rightarrow> exc" where
  "trust_failure x =
     (case x of
        Inl e \<Rightarrow>
          if catches KeyboardInterrupt e then Exc KeyboardInterrupt ''host_trust_interrupted''
          else if catches SystemExit e then Exc SystemExit ''host_trust_interrupted'' else HostTrustError ''host_trust_invalid''
      | Inr _ \<Rightarrow> HostTrustError ''host_trust_invalid'')"

record trust_snapshot =
  ts_fd :: "nat option"

definition snapshot_trust :: "'w trust_os \<Rightarrow> pyval \<Rightarrow> pyval \<Rightarrow> ('w, trust_snapshot) eff" where
  "snapshot_trust os path expected w =
     (case trust_body os path expected (\<lparr>tr_descriptors = [], tr_sealed = None\<rparr>, w) of
        (x, (l, w1)) \<Rightarrow>
          bindE (close_descriptors os (rev (tr_descriptors l)) False) (\<lambda>failed.
          if isl x \<or> failed
          then bindE (case tr_sealed l of None \<Rightarrow> retE () | Some fd \<Rightarrow> to_close os fd) (\<lambda>_. raiseE (trust_failure x))
          else retE \<lparr>ts_fd = tr_sealed l\<rparr>) w1)"

definition trust_path :: "trust_snapshot \<Rightarrow> string res" where
  "trust_path s =
     (case ts_fd s of
        None \<Rightarrow> Inl (HostTrustError ''host_trust_closed'')
      | Some fd \<Rightarrow> Inr (''/proc/self/fd/'' @ nat_str fd))"

text \<open>\<open>close\<close> forgets the descriptor before it closes it, so that it is closed once.\<close>

definition trust_close :: "'w trust_os \<Rightarrow> (trust_snapshot \<times> 'w, unit) eff" where
  "trust_close os s =
     (case ts_fd (fst s) of
        None \<Rightarrow> (Inr (), s)
      | Some fd \<Rightarrow> (case to_close os fd (snd s) of (x, w) \<Rightarrow> (x, (\<lparr>ts_fd = None\<rparr>, w))))"

definition trust_repr :: "trust_snapshot \<Rightarrow> string" where
  "trust_repr s = ''SealedTrustSnapshot(<redacted>)''"

end
