(* ===== verification/Trust_Results.thy ===== *)
theory Trust_Results
  imports Host_Trust Host_Results
begin

text \<open>
  Properties of the certificate snapshot: the memory file that is handed over holds the pinned content,
  and no other descriptor stays open, whatever fails.
\<close>

section \<open>The descriptors of the system\<close>

text \<open>
  What the system's calls do to the open descriptors and to what the memory files hold: opening gives a new
  descriptor, a write appends a part of its bytes, and closing closes, even when it fails as Linux documents.
\<close>

record 'w os_view =
  ov_live :: "'w \<Rightarrow> nat set"
  ov_held :: "'w \<Rightarrow> nat \<Rightarrow> nat list"

definition quiet :: "'w os_view \<Rightarrow> ('w, 'a) eff \<Rightarrow> bool" where
  "quiet v m \<longleftrightarrow> (\<forall>w. ov_live v (snd (m w)) = ov_live v w \<and> ov_held v (snd (m w)) = ov_held v w)"

definition gives :: "'w os_view \<Rightarrow> ('w, nat) eff \<Rightarrow> bool" where
  "gives v m \<longleftrightarrow>
     (\<forall>w. case m w of
        (Inr fd, w') \<Rightarrow> fd \<notin> ov_live v w \<and> ov_live v w' = insert fd (ov_live v w)
      | (Inl _, w') \<Rightarrow> ov_live v w' = ov_live v w)"

definition appends :: "'w os_view \<Rightarrow> 'w trust_os \<Rightarrow> bool" where
  "appends v os \<longleftrightarrow>
     (\<forall>fd bs w. case to_write os fd bs w of
        (x, w') \<Rightarrow> ov_live v w' = ov_live v w \<and>
          (\<forall>n. x = Inr n \<longrightarrow> n \<le> int (length bs) \<and> ov_held v w' fd = ov_held v w fd @ take (nat n) bs))"

definition closes :: "'w os_view \<Rightarrow> 'w trust_os \<Rightarrow> bool" where
  "closes v os \<longleftrightarrow>
     (\<forall>fd w. case to_close os fd w of
        (x, w') \<Rightarrow> ov_live v w' = ov_live v w - {fd} \<and> (\<forall>g\<in>ov_live v w'. ov_held v w' g = ov_held v w g) \<and>
          (\<forall>e. x = Inl e \<longrightarrow> os_error e))"

definition trust_os_ok :: "'w os_view \<Rightarrow> 'w trust_os \<Rightarrow> bool" where
  "trust_os_ok v os \<longleftrightarrow>
     (\<forall>flags name dir. gives v (to_open os flags name dir)) \<and> (\<forall>name. gives v (to_memfd_create os name)) \<and>
     (\<forall>name w fd w'. to_memfd_create os name w = (Inr fd, w') \<longrightarrow> ov_held v w' fd = []) \<and>
     (\<forall>fd. quiet v (to_fstat os fd)) \<and> (\<forall>fd n. quiet v (to_read os fd n)) \<and> (\<forall>fd. quiet v (to_rewind os fd)) \<and>
     (\<forall>fd n. quiet v (to_add_seals os fd n)) \<and> (\<forall>fd. quiet v (to_get_seals os fd)) \<and> appends v os \<and> closes v os"

section \<open>The loops\<close>

lemma quiet_read_content:
  assumes "trust_os_ok v os"
  shows "quiet v (read_content os fd remaining chunks)"
proof -
  have q: "ov_live v (snd (to_read os fd n w)) = ov_live v w \<and> ov_held v (snd (to_read os fd n w)) = ov_held v w" for n w
    using assms by (simp add: trust_os_ok_def quiet_def)
  have "ov_live v (snd (read_content os fd remaining chunks w)) = ov_live v w \<and>
      ov_held v (snd (read_content os fd remaining chunks w)) = ov_held v w" for w
  proof (induction remaining arbitrary: chunks w rule: less_induct)
    case (less remaining)
    obtain r w1 where rd: "to_read os fd (min 16384 remaining) w = (r, w1)" by (cases "to_read os fd (min 16384 remaining) w")
    then have w1: "ov_live v w1 = ov_live v w \<and> ov_held v w1 = ov_held v w" using q by (metis snd_conv)
    show ?case
    proof (cases r)
      case (Inl e)
      then show ?thesis using w1 by (simp add: read_content.simps [of os fd remaining] rd)
    next
      case (Inr chunk)
      have "remaining - length chunk < remaining" if "remaining \<noteq> 0" "chunk \<noteq> []" using that by (cases chunk) auto
      then show ?thesis using w1 less.IH [of "remaining - length chunk" "chunks @ chunk" w1]
        by (auto simp: read_content.simps [of os fd remaining] rd Inr)
    qed
  qed
  then show ?thesis by (simp add: quiet_def)
qed

lemma write_content_held:
  assumes "appends v os" and "write_content os fd content w = (x, w')"
  shows "ov_live v w' = ov_live v w \<and> (\<forall>y. x = Inr y \<longrightarrow> ov_held v w' fd = ov_held v w fd @ content)"
  using assms(2)
proof (induction "length content" arbitrary: content w rule: less_induct)
  case less
  obtain r w1 where wr: "to_write os fd content w = (r, w1)" by (cases "to_write os fd content w")
  have a: "ov_live v w1 = ov_live v w" "\<And>n. r = Inr n \<Longrightarrow> n \<le> int (length content) \<and> ov_held v w1 fd = ov_held v w fd @ take (nat n) content"
    using assms(1) wr unfolding appends_def by (metis (mono_tags, lifting) case_prod_conv)+
  show ?case
  proof (cases "content = []")
    case True
    then show ?thesis using less.prems by (simp add: write_content.simps)
  next
    case False
    show ?thesis
    proof (cases r)
      case (Inl e)
      then show ?thesis using less.prems False a(1) by (auto simp: write_content.simps [of os fd content] wr)
    next
      case (Inr n)
      show ?thesis
      proof (cases "n \<le> 0")
        case True
        then show ?thesis using less.prems False a(1) Inr
          by (auto simp: write_content.simps [of os fd content] wr trust_invalid_def raiseE_def)
      next
        case n: False
        have "write_content os fd (drop (nat n) content) w1 = (x, w')"
          using less.prems False Inr n by (simp add: write_content.simps [of os fd content] wr)
        moreover have "length (drop (nat n) content) < length content" using n False by (cases content) auto
        ultimately have "ov_live v w' = ov_live v w1 \<and> (\<forall>y. x = Inr y \<longrightarrow> ov_held v w' fd = ov_held v w1 fd @ drop (nat n) content)"
          using less.hyps by blast
        then show ?thesis using a Inr by auto
      qed
    qed
  qed
qed

lemma close_descriptors_closed:
  assumes "closes v os" and "close_descriptors os fds failed w = (x, w')"
  shows "(\<exists>b. x = Inr b) \<and> ov_live v w' = ov_live v w - set fds \<and> (\<forall>g\<in>ov_live v w'. ov_held v w' g = ov_held v w g)"
  using assms(2)
proof (induction fds arbitrary: failed w)
  case Nil
  then show ?case by auto
next
  case (Cons fd fds)
  obtain r w1 where c: "to_close os fd w = (r, w1)" by (cases "to_close os fd w")
  have a: "ov_live v w1 = ov_live v w - {fd}" "\<And>g. g \<in> ov_live v w1 \<Longrightarrow> ov_held v w1 g = ov_held v w g"
    "\<And>e. r = Inl e \<Longrightarrow> os_error e"
    using assms(1) c unfolding closes_def by (metis (mono_tags, lifting) case_prod_conv)+
  obtain f where "close_descriptors os fds f w1 = (x, w')"
    using Cons.prems a(3) by (cases r) (auto simp: c)
  from Cons.IH [OF this] a show ?case by auto
qed

section \<open>The descriptors of the snapshot\<close>

definition held_fds :: "trust_locals \<Rightarrow> nat list" where
  "held_fds l = tr_descriptors l @ (case tr_sealed l of None \<Rightarrow> [] | Some fd \<Rightarrow> [fd])"

definition holding :: "'w os_view \<Rightarrow> nat set \<Rightarrow> trust_locals \<times> 'w \<Rightarrow> bool" where
  "holding v L s \<longleftrightarrow> distinct (held_fds (fst s)) \<and> set (held_fds (fst s)) \<inter> L = {} \<and>
     ov_live v (snd s) = L \<union> set (held_fds (fst s))"

definition unsealed :: "'w os_view \<Rightarrow> nat set \<Rightarrow> trust_locals \<times> 'w \<Rightarrow> bool" where
  "unsealed v L s \<longleftrightarrow> holding v L s \<and> tr_sealed (fst s) = None"

lemma snd_hostE: "snd (hostE m s) = (fst s, snd (m (snd s)))"
  by (simp add: hostE_def split: prod.split)

lemma hostE_eq: "hostE m s = (x, s') \<longleftrightarrow> fst s' = fst s \<and> m (snd s) = (x, snd s')"
  by (cases "m (snd s)") (auto simp: hostE_def split: prod.splits)

lemma localE_eq: "localE f s = (x, s') \<longleftrightarrow> x = Inr () \<and> s' = (f (fst s), snd s)"
  by (auto simp: localE_def split: prod.splits)

lemma kept_quiet [keeps_rules]:
  "quiet v m \<Longrightarrow> keeps (holding v L) (hostE m)" "quiet v m \<Longrightarrow> keeps (unsealed v L) (hostE m)"
  by (simp_all add: keeps_def snd_hostE holding_def unsealed_def quiet_def)

lemma quiet_read: "quiet v (readE f)"
  by (simp add: quiet_def readE_def)

lemma kept_invalid [keeps_rules]: "keeps I trust_invalid"
  by (simp add: trust_invalid_def keeps_def)

lemma open_kept_unsealed [keeps_rules]:
  assumes "gives v (to_open os flags name dir)"
  shows "keeps (unsealed v L) (open_kept os flags name dir)"
  unfolding keeps_def
proof (intro allI impI)
  fix s assume s: "unsealed v L s"
  obtain l w where lw: "s = (l, w)" by (cases s)
  obtain x w' where o: "to_open os flags name dir w = (x, w')" by (cases "to_open os flags name dir w")
  have g: "case x of Inr fd \<Rightarrow> fd \<notin> ov_live v w \<and> ov_live v w' = insert fd (ov_live v w) | Inl _ \<Rightarrow> ov_live v w' = ov_live v w"
    using assms o unfolding gives_def by (cases x) (auto dest: spec [where x = w])
  show "unsealed v L (snd (open_kept os flags name dir s))"
    using s g
    by (cases x) (auto simp: lw open_kept_def bindE_apply hostE_def localE_def o unsealed_def holding_def held_fds_def)
qed

lemma open_directories_unsealed:
  assumes "trust_os_ok v os"
  shows "keeps (unsealed v L) (open_directories os directory parts)"
proof (induction parts arbitrary: directory)
  case Nil
  show ?case by (simp only: open_directories.simps keeps_basic)
next
  case (Cons part rest)
  have "gives v (to_open os flags name dir)" "quiet v (to_fstat os fd)" for flags name dir fd
    using assms by (simp_all add: trust_os_ok_def)
  then show ?case unfolding open_directories.simps by (intro keeps_rules quiet_read Cons.IH)
qed

lemma pinned_content_unsealed:
  assumes "trust_os_ok v os"
  shows "keeps (unsealed v L) (pinned_content os fd pin)"
proof -
  have "quiet v (to_fstat os fd)" for fd using assms by (simp add: trust_os_ok_def)
  then show ?thesis unfolding pinned_content_def by (intro keeps_rules quiet_read quiet_read_content assms)
qed

lemma write_content_live:
  assumes "trust_os_ok v os"
  shows "keeps (holding v L) (hostE (write_content os fd content))"
proof -
  have "ov_live v (snd (write_content os fd content w)) = ov_live v w" for w
    using write_content_held [of v os fd content w] assms
    by (cases "write_content os fd content w") (auto simp: trust_os_ok_def)
  then show ?thesis by (simp add: keeps_def snd_hostE holding_def)
qed

lemma seal_content_leads:
  assumes "trust_os_ok v os"
  shows "leads (unsealed v L) (holding v L) (seal_content os content)"
  unfolding leads_def
proof (intro allI impI)
  fix s assume s: "unsealed v L s"
  obtain l w where lw: "s = (l, w)" by (cases s)
  obtain x w' where o: "to_memfd_create os ''agent-host-trust'' w = (x, w')" by (cases "to_memfd_create os ''agent-host-trust'' w")
  have m: "gives v (to_memfd_create os name)" "quiet v (to_rewind os fd)" "quiet v (to_add_seals os fd n)" "quiet v (to_get_seals os fd)"
    for name fd n using assms by (simp_all add: trust_os_ok_def)
  have g: "case x of Inr fd \<Rightarrow> fd \<notin> ov_live v w \<and> ov_live v w' = insert fd (ov_live v w) | Inl _ \<Rightarrow> ov_live v w' = ov_live v w"
    using m(1) [of "''agent-host-trust''"] o unfolding gives_def by (cases x) (auto dest: spec [where x = w])
  have rest: "keeps (holding v L) (bindE (hostE (write_content os fd content)) (\<lambda>_.
     bindE (hostE (to_rewind os fd)) (\<lambda>_. bindE (hostE (to_add_seals os fd SEALS)) (\<lambda>_.
     bindE (hostE (to_get_seals os fd)) (\<lambda>seals. if seals mod 16 \<noteq> SEALS then trust_invalid else retE ())))))" for fd
    by (intro keeps_rules m write_content_live assms)
  show "holding v L (snd (seal_content os content s))"
  proof (cases x)
    case (Inl e)
    then show ?thesis using s g by (simp add: lw seal_content_def bindE_apply hostE_def o unsealed_def holding_def)
  next
    case (Inr fd)
    have "holding v L (l\<lparr>tr_sealed := Some fd\<rparr>, w')"
      using s g Inr by (auto simp: lw unsealed_def holding_def held_fds_def)
    from rest [of fd, unfolded keeps_def, rule_format, OF this] show ?thesis
      by (simp add: lw seal_content_def bindE_apply hostE_def localE_def o Inr)
  qed
qed

lemma trust_body_leads:
  assumes ok: "trust_os_ok v os"
  shows "leads (unsealed v L) (holding v L) (trust_body os path expected)"
proof -
  have o: "gives v (to_open os flags name dir)" for flags name dir using ok by (simp add: trust_os_ok_def)
  have i: "leads (unsealed v L) (holding v L) trust_invalid" by (simp add: leads_def trust_invalid_def unsealed_def)
  have w: "unsealed v L s \<Longrightarrow> holding v L s" for s by (simp add: unsealed_def)
  have if': "leads P I m \<Longrightarrow> leads P I n \<Longrightarrow> leads P I (if c then m else n)" for P I c and m n :: "(trust_locals \<times> 'a, unit) eff" by simp
  show ?thesis
    unfolding trust_body_def
    by (intro if' i leads_bind leads_split keeps_rules o open_directories_unsealed pinned_content_unsealed seal_content_leads ok w)
qed

section \<open>The content\<close>

lemma seal_content_held:
  assumes ok: "trust_os_ok v os" and s: "seal_content os content (l, w) = (Inr u, (l', w'))"
  shows "\<exists>fd. tr_sealed l' = Some fd \<and> ov_held v w' fd = content"
proof -
  obtain fd w1 w2 w3 w4 where m: "to_memfd_create os ''agent-host-trust'' w = (Inr fd, w1)"
    and wr: "write_content os fd content w1 = (Inr (), w2)" and r: "to_rewind os fd w2 = (Inr (), w3)"
    and a: "to_add_seals os fd SEALS w3 = (Inr (), w4)" and n: "snd (to_get_seals os fd w4) = w'" and l': "tr_sealed l' = Some fd"
    using s by (auto simp: seal_content_def bindE_eq_Inr hostE_eq localE_eq trust_invalid_def split: if_splits)
  have q: "ov_held v (snd (to_rewind os fd w)) = ov_held v w" "ov_held v (snd (to_add_seals os fd k w)) = ov_held v w"
    "ov_held v (snd (to_get_seals os fd w)) = ov_held v w" for k w
    using ok by (simp_all add: trust_os_ok_def quiet_def)
  have "ov_held v w1 fd = []" using ok m by (auto simp: trust_os_ok_def)
  with wr write_content_held [of v os fd content w1 "Inr ()" w2] ok have "ov_held v w2 fd = content" by (simp add: trust_os_ok_def)
  moreover have "ov_held v w' = ov_held v w2" using q(1) [of w2] q(2) [of SEALS w3] q(3) [of w4] r a n by simp
  ultimately show ?thesis using l' by simp
qed

lemma trust_body_held:
  assumes ok: "trust_os_ok v os" and b: "trust_body os path expected (l, w) = (Inr u, (l', w'))"
  shows "\<exists>fd. tr_sealed l' = Some fd \<and> expected = PStr (sha256_hex (ov_held v w' fd))"
proof -
  obtain pin content where e: "expected = PStr pin" and c: "sha256_hex content = pin"
    and k: "\<exists>s1. seal_content os content s1 = (Inr u, (l', w'))"
    using b
    by (auto simp: trust_body_def trust_request_def pinned_content_def bindE_eq_Inr trust_invalid_def Let_def
        split: if_splits pyval.splits prod.splits)
  from k obtain l1 w1 where "seal_content os content (l1, w1) = (Inr u, (l', w'))" by auto
  from seal_content_held [OF ok this] e c show ?thesis by auto
qed

section \<open>The snapshot\<close>

text \<open>The exceptions of the module.\<close>

definition trust_errors :: "exc set" where
  "trust_errors = {Exc (OtherError ''HostTrustError'') ''host_trust_invalid'',
     Exc KeyboardInterrupt ''host_trust_interrupted'', Exc SystemExit ''host_trust_interrupted''}"

lemma trust_failure_fixed: "trust_failure x \<in> trust_errors"
  by (cases x) (simp_all add: trust_errors_def trust_failure_def HostTrustError_def)

text \<open>C22. Only the pinned content is handed over, and no descriptor is left behind. On a system whose calls open, write
  and close as documented, a returned snapshot is one new descriptor, of a memory file that holds exactly the
  bytes with the expected digest, and every other descriptor the walk opened is closed again. When the
  snapshot fails, for whatever reason and at whatever step, no descriptor stays open, and the exception is one
  of three fixed ones, whatever the system raised. The one exception to this is an error of the very last step, the
  closing of the memory file when every other descriptor is closed already: it is passed on as it is.\<close>

theorem trust_snapshot_is_pinned:
  assumes ok: "trust_os_ok v os"
  shows "case snapshot_trust os path expected w of
     (Inr s, w') \<Rightarrow> \<exists>fd. ts_fd s = Some fd \<and> fd \<notin> ov_live v w \<and> ov_live v w' = insert fd (ov_live v w) \<and>
        expected = PStr (sha256_hex (ov_held v w' fd))
   | (Inl e, w') \<Rightarrow> ov_live v w' = ov_live v w \<and>
        (e \<in> trust_errors \<or> (\<exists>fd w1. fd \<notin> ov_live v w \<and> ov_live v w1 = insert fd (ov_live v w) \<and>
           to_close os fd w1 = (Inl e, w')))"
proof -
  let ?start = "\<lparr>tr_descriptors = [], tr_sealed = None\<rparr>"
  obtain x l w1 where b: "trust_body os path expected (?start, w) = (x, (l, w1))" by (metis surj_pair)
  have start: "unsealed v (ov_live v w) (?start, w)" by (simp add: unsealed_def holding_def held_fds_def)
  have h: "holding v (ov_live v w) (l, w1)"
    using trust_body_leads [OF ok, of "ov_live v w" path expected, unfolded leads_def, rule_format, OF start] by (simp add: b)
  obtain y w2 where c: "close_descriptors os (rev (tr_descriptors l)) False w1 = (y, w2)" by (metis surj_pair)
  have cl: "closes v os" using ok by (simp add: trust_os_ok_def)
  from close_descriptors_closed [OF cl c] obtain failed where y: "y = Inr failed"
    and live: "ov_live v w2 = ov_live v w1 - set (tr_descriptors l)" and same: "\<forall>g\<in>ov_live v w2. ov_held v w2 g = ov_held v w1 g" by auto
  show ?thesis
  proof (cases "tr_sealed l")
    case None
    then have "isl x" using trust_body_held [OF ok] b by (cases x) fastforce+
    then have "snapshot_trust os path expected w = (Inl (trust_failure x), w2)"
      by (simp add: snapshot_trust_def b c y bindE_apply None)
    moreover have "ov_live v w2 = ov_live v w" using h live None by (auto simp: holding_def held_fds_def)
    ultimately show ?thesis by (simp add: trust_failure_fixed)
  next
    case (Some fd)
    have fd: "fd \<notin> ov_live v w" and now: "ov_live v w2 = insert fd (ov_live v w)"
      using h live Some by (auto simp: holding_def held_fds_def)
    show ?thesis
    proof (cases "isl x \<or> failed")
      case True
      obtain r w3 where k: "to_close os fd w2 = (r, w3)" by (metis surj_pair)
      have w3: "ov_live v w3 = ov_live v w2 - {fd}" "\<And>e. r = Inl e \<Longrightarrow> os_error e"
        using cl k unfolding closes_def by (metis (mono_tags, lifting) case_prod_conv)+
      have "snapshot_trust os path expected w = (case r of Inl e \<Rightarrow> (Inl e, w3) | Inr _ \<Rightarrow> (Inl (trust_failure x), w3))"
        using True by (simp add: snapshot_trust_def b c y bindE_apply Some k split: sum.split)
      then show ?thesis using w3 fd now k trust_failure_fixed [of x] by (cases r) auto
    next
      case False
      then obtain u where x: "x = Inr u" by (cases x) simp_all
      from trust_body_held [OF ok b [unfolded x]] Some have "expected = PStr (sha256_hex (ov_held v w1 fd))" by auto
      moreover have "ov_held v w2 fd = ov_held v w1 fd" using same now by simp
      moreover have "snapshot_trust os path expected w = (Inr \<lparr>ts_fd = Some fd\<rparr>, w2)"
        using False by (simp add: snapshot_trust_def b c y bindE_apply Some)
      ultimately show ?thesis using fd now by simp
    qed
  qed
qed

text \<open>A system with one certificate of one byte.\<close>

record tiny_world =
  tn_next :: nat
  tn_live :: "nat set"
  tn_held :: "nat \<Rightarrow> nat list"
  tn_read :: bool

definition tiny_open :: "(tiny_world, nat) eff" where
  "tiny_open w = (Inr (tn_next w), w\<lparr>tn_next := tn_next w + 1, tn_live := insert (tn_next w) (tn_live w), tn_held := (tn_held w)(tn_next w := [])\<rparr>)"

definition tiny_os :: "tiny_world trust_os" where
  "tiny_os =
     \<lparr>to_linux = True, to_geteuid = (\<lambda>w. 0), to_open = (\<lambda>_ _ _ w. if tn_next w \<in> tn_live w then (Inl (Exc (OtherError ''OSError'') []), w) else tiny_open w),
      to_fstat = (\<lambda>_. retE \<lparr>fi_dev = 1, fi_ino = 2, fi_size = 1, fi_mtime_ns = 0, fi_ctime_ns = 0, fi_uid = 0, fi_mode = 33152, fi_nlink = 1\<rparr>),
      to_read = (\<lambda>_ _ w. (Inr (if tn_read w then [] else [65]), w\<lparr>tn_read := True\<rparr>)),
      to_close = (\<lambda>fd w. (Inr (), w\<lparr>tn_live := tn_live w - {fd}\<rparr>)),
      to_memfd_create = (\<lambda>_ w. if tn_next w \<in> tn_live w then (Inl (Exc (OtherError ''OSError'') []), w) else tiny_open w),
      to_write = (\<lambda>fd bs w. (Inr (int (length bs)), w\<lparr>tn_held := (tn_held w)(fd := tn_held w fd @ bs)\<rparr>)),
      to_rewind = (\<lambda>_. retE ()), to_add_seals = (\<lambda>_ _. retE ()), to_get_seals = (\<lambda>_. retE 15)\<rparr>"

definition tiny_view :: "tiny_world os_view" where
  "tiny_view = \<lparr>ov_live = tn_live, ov_held = tn_held\<rparr>"

definition tiny_start :: tiny_world where
  "tiny_start = \<lparr>tn_next = 3, tn_live = {0, 1, 2}, tn_held = (\<lambda>_. []), tn_read = False\<rparr>"

lemma tiny_os_ok: "trust_os_ok tiny_view tiny_os"
  by (auto simp: trust_os_ok_def gives_def quiet_def appends_def closes_def tiny_os_def tiny_view_def tiny_open_def split: if_splits)

lemma tiny_request: "trust_request (PStr ''/ca.pem'') (PStr (sha256_hex bs)) = Inr ([], ''ca.pem'', sha256_hex bs)"
proof -
  have "starts_with ''/'' ''/ca.pem'' \<and> posix_path ''/ca.pem'' = ''/ca.pem'' \<and> split_on (CHR ''/'') ''/ca.pem'' = [[], ''ca.pem'']"
    by code_simp
  then show ?thesis by (simp add: trust_request_def sha256_hex64)
qed

theorem trust_snapshot_is_pinned_witness:
  "\<exists>s w'. snapshot_trust tiny_os (PStr ''/ca.pem'') (PStr (sha256_hex [65])) tiny_start = (Inr s, w') \<and>
     (\<exists>fd. ts_fd s = Some fd \<and> tn_live w' = insert fd {0, 1, 2} \<and> sha256_hex [65] = sha256_hex (tn_held w' fd))"
proof -
  have info: "trust_file_ok 0 \<lparr>fi_dev = 1, fi_ino = 2, fi_size = 1, fi_mtime_ns = 0, fi_ctime_ns = 0, fi_uid = 0, fi_mode = 33152, fi_nlink = 1\<rparr>"
    by (simp add: trust_file_ok_def regular_file_def shared_write_def MAX_CA_BYTES_def bit_iff_odd)
  have "isl (fst (snapshot_trust tiny_os (PStr ''/ca.pem'') (PStr (sha256_hex [65])) tiny_start)) = False"
    by (simp add: snapshot_trust_def trust_body_def tiny_request open_kept_def pinned_content_def seal_content_def bindE_apply
        hostE_def localE_def readE_def tiny_os_def tiny_open_def tiny_start_def info read_content.simps write_content.simps
        MAX_CA_BYTES_def SEALS_def)
  then obtain s w' where s: "snapshot_trust tiny_os (PStr ''/ca.pem'') (PStr (sha256_hex [65])) tiny_start = (Inr s, w')"
    by (metis sum.collapse(2) surjective_pairing)
  from trust_snapshot_is_pinned [OF tiny_os_ok, where path = "PStr ''/ca.pem''" and expected = "PStr (sha256_hex [65])" and w = tiny_start] s
  show ?thesis by (auto simp: tiny_view_def tiny_start_def)
qed

end
