(* ===== verification/Refresh_Liveness.thy ===== *)
theory Refresh_Liveness
  imports Secret_Results
begin

text \<open>
  Progress of the refreshing source: as long as the provider answers and the store serves the record, every one
  of any number of successive refreshes returns its grant, and none of them leaves the record blocked. The
  progress is proved once for any versioned store that serves a binding, and holds on the in-memory store and
  on the durable store over a backend that serves the row.
\<close>

section \<open>A provider that answers, a store that serves\<close>

text \<open>The attempt has a fresh identifier and the exchange a valid result, and neither touches the record.\<close>

definition answers :: "('w \<Rightarrow> credential_binding \<Rightarrow> secret_record option) \<Rightarrow> 'w secret_source \<Rightarrow> int \<Rightarrow> bool" where
  "answers stored s ttl \<longleftrightarrow>
     (\<forall>w. \<exists>a w'. sc_attempt_id s w = (Inr (PStr a), w') \<and> attempt_id_ok a \<and>
        stored w' (sc_binding s) = stored w (sc_binding s)) \<and>
     (\<forall>secret a w. \<exists>x w' g rotated. sc_exchange s (sc_binding s) secret a ttl w = (Inr x, w') \<and>
        stored w' (sc_binding s) = stored w (sc_binding s) \<and> validate_exchange_result (sc_binding s) x ttl = Inr (g, rotated))"

fun refreshes :: "'w secret_source \<Rightarrow> int \<Rightarrow> nat \<Rightarrow> ('w, access_grant list) eff" where
  "refreshes s ttl 0 = retE []"
| "refreshes s ttl (Suc n) =
     bindE (refresh_access s (sc_binding s) (PInt ttl)) (\<lambda>g. bindE (refreshes s ttl n) (\<lambda>gs. retE (g # gs)))"

lemma claimed_record_ok:
  assumes "rec_ok b r" and "sr_state r = ''ready''" and "attempt_id_ok a"
  shows "RefreshSecretRecord (claimed_record r a) = Inr (claimed_record r a)"
  using assms by (auto simp: rec_ok_def RefreshSecretRecord_Inr claimed_record_def RECORD_STATES_def)

lemma committed_record_ok:
  assumes "rec_ok b r" and "sr_state r = ''refreshing''" and "attempt_id_ok a" and "\<not> blank secret"
  shows "RefreshSecretRecord (committed_record r a secret) = Inr (committed_record r a secret)"
  using assms by (auto simp: rec_ok_def RefreshSecretRecord_Inr committed_record_def RECORD_STATES_def)

lemma rotated_nonblank: "validate_exchange_result b x ttl = Inr (g, rotated) \<Longrightarrow> \<not> blank rotated"
proof -
  have "nonblank_str v \<Longrightarrow> \<not> blank (py_str v)" for v by (cases v) simp_all
  then show "validate_exchange_result b x ttl = Inr (g, rotated) \<Longrightarrow> \<not> blank rotated"
    by (auto simp: validate_exchange_result_def bindR_eq_Inr split: exchange_value.splits grant_value.splits if_splits)
qed

text \<open>A versioned store whose operations on a binding return: reading, and a swap of the stored version.\<close>

locale serving_store = secret_store ops stored
  for ops :: "'w secret_ops" and stored :: "'w \<Rightarrow> credential_binding \<Rightarrow> secret_record option" +
  fixes b :: credential_binding
  assumes read_serves: "stored w b = Some r \<Longrightarrow> \<exists>x w'. se_read ops b w = (Inr x, w')"
    and cas_serves: "stored w b = Some c \<Longrightarrow> rec_ok b c \<Longrightarrow> rec_ok b r \<Longrightarrow> sr_version r = sr_version c + 1 \<Longrightarrow>
      \<exists>x w'. se_cas ops b (sr_version c) r w = (Inr x, w')"

context serving_store
begin

lemma swap_served:
  assumes "stored w b = Some c" and "rec_ok b c" and "rec_ok b r" and "sr_version r = sr_version c + 1"
  shows "\<exists>w'. se_cas ops b (sr_version c) r w = (Inr r, w') \<and> stored w' b = Some r"
  using cas_serves [OF assms] by (auto dest: cas_Inr)

lemma refresh_progress:
  assumes live: "answers stored s ttl" and store: "sc_store s = ops" and bind: "sc_binding s = b" and ttl: "0 \<le> ttl"
    and ok: "rec_ok b cur" and ready: "sr_state cur = ''ready''" and st: "stored w b = Some cur"
  shows "\<exists>g x rotated r w'. refresh_access s b (PInt ttl) w = (Inr g, w') \<and> validate_exchange_result b x ttl = Inr (g, rotated) \<and>
     stored w' b = Some r \<and> rec_ok b r \<and> sr_state r = ''ready'' \<and> sr_refresh_generation r = sr_refresh_generation cur + 1"
proof -
  have v: "0 \<le> sr_version cur" "sr_binding cur = b" using ok by (auto simp: rec_ok_def RefreshSecretRecord_Inr)
  obtain x0 w0 where rd: "se_read ops b w = (Inr x0, w0)" using read_serves [OF st] by blast
  then have w0: "x0 = cur" "stored w0 b = Some cur" using read_Inr [OF rd] st by simp_all
  obtain a w1 where a: "sc_attempt_id s w0 = (Inr (PStr a), w1)" "attempt_id_ok a" "stored w1 b = stored w0 b"
    using live unfolding answers_def bind by blast
  let ?c = "claimed_record cur a"
  have c: "RefreshSecretRecord ?c = Inr ?c" "sr_binding ?c = b" "sr_version ?c = sr_version cur + 1"
    "sr_state ?c = ''refreshing''"
    using claimed_record_ok [OF ok ready a(2)] v by (simp_all add: claimed_record_def)
  then have cok: "rec_ok b ?c" by (simp add: rec_ok_def)
  have "stored w1 b = Some cur" using w0 a(3) by simp
  from swap_served [OF this ok cok c(3)] obtain w2 where
    w2: "se_cas ops b (sr_version cur) ?c w1 = (Inr ?c, w2)" "stored w2 b = Some ?c" by blast
  obtain secret where sec: "sr_refresh_secret ?c = Some secret"
    using c(1,4) by (auto simp: RefreshSecretRecord_Inr)
  obtain x w3 g rotated where e: "sc_exchange s b secret a ttl w2 = (Inr x, w3)" "stored w3 b = stored w2 b"
    and val: "validate_exchange_result b x ttl = Inr (g, rotated)"
    using live unfolding answers_def bind by metis
  let ?r = "committed_record ?c a rotated"
  have r: "RefreshSecretRecord ?r = Inr ?r" by (rule committed_record_ok [OF cok c(4) a(2) rotated_nonblank [OF val]])
  have rb: "sr_binding ?r = b" "sr_version ?r = sr_version ?c + 1" "sr_state ?r = ''ready''"
    "sr_refresh_generation ?r = sr_refresh_generation cur + 1"
    using c(2) by (simp_all add: committed_record_def claimed_record_def)
  have rok: "rec_ok b ?r" using r rb(1) by (simp add: rec_ok_def)
  have "stored w3 b = Some ?c" using w2(2) e(2) by simp
  from swap_served [OF this cok rok rb(2)] obtain w4 where
    w4: "se_cas ops b (sr_version ?c) ?r w3 = (Inr ?r, w4)" "stored w4 b = Some ?r" by auto
  have "source_read s w = (Inr cur, w0)"
    using v(2) rd w0(1) by (simp add: source_read_def store bind bindE_apply tryE_apply)
  moreover have "claim s cur a w1 = (Inr ?c, w2)"
    by (simp add: claim_def c(1) source_cas_def tryE_apply store bind w2(1) bindE_apply)
  moreover have "commit_success s ?c a rotated w3 = (Inr ?r, w4)"
    by (simp add: commit_success_def r source_cas_def tryE_apply store bind w4(1) bindE_apply)
  then have "refresh_claimed s ?c a ttl w2 = (Inr g, w4)"
    by (simp add: refresh_claimed_def bind sec e(1) val bindE_apply)
  ultimately have "refresh_access s b (PInt ttl) w = (Inr g, w4)"
    using ttl ready by (simp add: refresh_access_def bind bindE_apply state_available_def a fixed_attempt_def safe_attempt_id_def)
  with val w4(2) rok rb(3,4) show ?thesis by blast
qed

lemma refreshes_progress:
  assumes "answers stored s ttl" and "sc_store s = ops" and bind: "sc_binding s = b" and "0 \<le> ttl"
    and "rec_ok b cur" and "sr_state cur = ''ready''" and "stored w b = Some cur"
  shows "\<exists>gs w' r. refreshes s ttl n w = (Inr gs, w') \<and> length gs = n \<and>
    list_all (\<lambda>g. \<exists>x rotated. validate_exchange_result b x ttl = Inr (g, rotated)) gs \<and> stored w' b = Some r \<and>
    rec_ok b r \<and> sr_state r = ''ready'' \<and> sr_refresh_generation r = sr_refresh_generation cur + int n"
  using assms(5-)
proof (induction n arbitrary: cur w)
  case 0
  then show ?case by auto
next
  case (Suc n)
  obtain g x rotated r w1 where one: "refresh_access s b (PInt ttl) w = (Inr g, w1)" "stored w1 b = Some r"
    "rec_ok b r" "sr_state r = ''ready''" "sr_refresh_generation r = sr_refresh_generation cur + 1"
    "validate_exchange_result b x ttl = Inr (g, rotated)"
    using refresh_progress [OF assms(1-4) Suc.prems] by blast
  obtain gs w' r' where rest: "refreshes s ttl n w1 = (Inr gs, w')" "length gs = n"
    "list_all (\<lambda>g. \<exists>x rotated. validate_exchange_result b x ttl = Inr (g, rotated)) gs" "stored w' b = Some r'"
    "rec_ok b r'" "sr_state r' = ''ready''" "sr_refresh_generation r' = sr_refresh_generation r + int n"
    using Suc.IH [OF one(3,4,2)] by blast
  have "refreshes s ttl (Suc n) w = (Inr (g # gs), w')" by (simp add: bind bindE_apply one(1) rest(1))
  then show ?case using rest one(5,6) by auto
qed

end

section \<open>The two stores\<close>

text \<open>The in-memory store serves every binding.\<close>

interpretation live_ms: serving_store ms_ops ms_stored b for b
  by unfold_locales
    (auto simp: ms_ops_def ms_stored_def ms_read_def ms_compare_and_swap_def rec_ok_def RefreshSecretRecord_Inr)

text \<open>A backend that is up for a row: reading it returns, and so does a swap of the version it holds.\<close>

definition backend_serves :: "'w backend_ops \<Rightarrow> ('w \<Rightarrow> string \<Rightarrow> pyval) \<Rightarrow> string \<Rightarrow> bool" where
  "backend_serves bk held k \<longleftrightarrow> (\<forall>w. isl (fst (bk_read bk k w)) = False) \<and>
     (\<forall>n r w. held_version (held w k) = PInt n \<longrightarrow> isl (fst (bk_cas bk k n (encode_record r) w)) = False)"

lemma durable_serving_store:
  assumes ok: "backend_ok bk held" and up: "backend_serves bk held (binding_key b)"
  shows "serving_store (durable_ops bk) (durable_stored held) b"
proof (intro serving_store.intro serving_store_axioms.intro durable_secret_store [OF ok])
  fix w r
  assume st: "durable_stored held w b = Some r"
  obtain v w' where rd: "bk_read bk (binding_key b) w = (Inr v, w')"
    using up unfolding backend_serves_def by (metis eq_fst_iff sum.collapse(2))
  with backend_readD(2) [OF ok rd refl] st show "\<exists>x w'. se_read (durable_ops bk) b w = (Inr x, w')"
    by (auto simp: durable_ops_def durable_read_def bindE_apply tryE_apply decode_or_def durable_stored_def
        decode_record_def split: sum.splits)
next
  fix w c r
  assume st: "durable_stored held w b = Some c" and c: "rec_ok b c" and r: "rec_ok b r"
    and next_version: "sr_version r = sr_version c + 1"
  from st have dec: "decode_record (held w (binding_key b)) b = Inr c" by (auto simp: durable_stored_def split: sum.splits)
  then have b: "binding_ok b" and "held_version (held w (binding_key b)) = PInt (sr_version c)"
    using decode_record_ok decode_version by blast+
  with up obtain v w' where sw: "bk_cas bk (binding_key b) (sr_version c) (encode_record r) w = (Inr v, w')"
    unfolding backend_serves_def by (metis eq_fst_iff sum.collapse(2))
  have "v = PDict (encode_record r)" using backend_casD(1) [OF ok sw refl] by simp
  moreover have "0 \<le> sr_version c" "sr_binding r = b" using c r by (auto simp: rec_ok_def RefreshSecretRecord_Inr)
  ultimately show "\<exists>x w'. se_cas (durable_ops bk) b (sr_version c) r w = (Inr x, w')"
    using sw next_version decode_encode [OF r b]
    by (auto simp: durable_ops_def durable_compare_and_swap_def bindE_apply tryE_apply decode_or_def)
qed

text \<open>The table of rows, with the lemma above.\<close>

interpretation live_table: serving_store "durable_ops table_backend" "durable_stored tw_rows" b for b
  by (rule durable_serving_store [OF table_backend_ok]) (simp add: backend_serves_def table_backend_def)

text \<open>C23. Refreshing never gets stuck while the provider answers, on the durable store over a backend that keeps its
  contract and is up for the row. From a valid ready record, with no other worker on it, any number of
  successive refreshes all return: each returns a grant that an exchange result was accepted for, and the
  record is ready again at the end, as many generations on as there were refreshes.\<close>

theorem refreshes_never_get_stuck:
  assumes "backend_ok bk held" and "backend_serves bk held (binding_key (sc_binding s))" and "sc_store s = durable_ops bk"
    and "answers (durable_stored held) s ttl" and "0 \<le> ttl"
    and "durable_stored held w (sc_binding s) = Some cur" and "sr_state cur = ''ready''"
  shows "\<exists>gs w' r. refreshes s ttl n w = (Inr gs, w') \<and> length gs = n \<and>
    list_all (\<lambda>g. \<exists>x rotated. validate_exchange_result (sc_binding s) x ttl = Inr (g, rotated)) gs \<and>
    durable_stored held w' (sc_binding s) = Some r \<and> rec_ok (sc_binding s) r \<and> sr_state r = ''ready'' \<and>
    sr_refresh_generation r = sr_refresh_generation cur + int n"
proof -
  have "rec_ok (sc_binding s) cur"
    using assms(6) decode_record_ok by (auto simp: durable_stored_def split: sum.splits)
  then show ?thesis
    using serving_store.refreshes_progress [OF durable_serving_store [OF assms(1,2)] assms(4,3) refl assms(5) _ assms(7,6)]
    by simp
qed

theorem refreshes_never_get_stuck_witness:
  "\<exists>gs w' r. refreshes (demo_source (durable_ops table_backend) (Inr (Exchanged (Grant good_grant) (PStr ''new'')))) 60 3 demo_table =
     (Inr gs, w') \<and> length gs = 3 \<and> durable_stored tw_rows w' the_binding = Some r \<and> sr_state r = ''ready'' \<and>
     sr_refresh_generation r = 3"
proof -
  let ?s = "demo_source (durable_ops table_backend) (Inr (Exchanged (Grant good_grant) (PStr ''new'')))"
  have "validate_exchange_result the_binding (Exchanged (Grant good_grant) (PStr ''new'')) 60 = Inr (good_grant, ''new'')"
    by (simp add: demo_refresh_simps)
  then have "answers (durable_stored tw_rows) ?s 60" by (auto simp: answers_def)
  moreover have "backend_serves table_backend tw_rows k" for k by (simp add: backend_serves_def table_backend_def)
  ultimately show ?thesis
    using refreshes_never_get_stuck [OF table_backend_ok, of ?s 60 demo_table fresh_record 3] demo_table_stored
    by (auto simp: fresh_record_def)
qed

text \<open>The same on the in-memory store.\<close>

theorem memory_refreshes_never_get_stuck:
  assumes "answers ms_stored s ttl" and "sc_store s = ms_ops" and "0 \<le> ttl"
    and "rec_ok (sc_binding s) cur" and "sr_state cur = ''ready''" and "ms_stored w (sc_binding s) = Some cur"
  shows "\<exists>gs w' r. refreshes s ttl n w = (Inr gs, w') \<and> length gs = n \<and>
    list_all (\<lambda>g. \<exists>x rotated. validate_exchange_result (sc_binding s) x ttl = Inr (g, rotated)) gs \<and>
    ms_stored w' (sc_binding s) = Some r \<and> rec_ok (sc_binding s) r \<and> sr_state r = ''ready'' \<and>
    sr_refresh_generation r = sr_refresh_generation cur + int n"
  by (rule live_ms.refreshes_progress [OF assms(1,2) refl assms(3-6)])

end
