(* ===== verification/Evidence_Results.thy ===== *)
theory Evidence_Results
  imports Repository_Results Github_Results
begin

text \<open>
  The evidence of the hosted repository worker: what the ledger has acknowledged, between which two
  fences of the lease, when one of its actions returns.
\<close>

section \<open>Fences\<close>

text \<open>The deadline is ahead and the lease has more than 30 seconds left, by two readings of the clocks.\<close>

definition time_left :: "'w worker_host \<Rightarrow> rat \<Rightarrow> queue_lease \<Rightarrow> 'w \<Rightarrow> 'w \<Rightarrow> bool" where
  "time_left wh deadline l w w' \<longleftrightarrow> (\<exists>t s d u w1. wh_clock wh w = (Inr t, w1) \<and> t < deadline \<and>
     ql_lease_expires_at l = Some s \<and> fromisoformat (replace_Z s) = Some d \<and> aware d \<and>
     wh_utcnow wh w1 = (Inr u, w') \<and> 30000000 < instant d - u)"

lemma outside_Inr: "outside m (l, w) = (Inr x, lw') \<longleftrightarrow> fst lw' = l \<and> m w = (Inr x, snd lw')"
  by (cases lw') (auto simp: outside_def split: prod.splits)

lemma check_time_Inr:
  assumes "check_time wh deadline (l, w) = (Inr x, (l', w'))"
  shows "l' = l \<and> time_left wh deadline l w w'"
proof -
  obtain t w1 where t: "wh_clock wh w = (Inr t, w1)" "t < deadline"
    and e: "check_expiry wh (ql_lease_expires_at l) w1 = (Inr x, w')" and l: "l' = l"
    using assms by (auto simp: check_time_def bindE_eq_Inr outside_Inr interrupted_def split: if_splits)
  from e show ?thesis
    using t l
    by (auto simp: check_expiry_def bindE_eq_Inr time_left_def interrupted_def not_le split: option.splits if_splits)
qed

text \<open>
  A fence: the queue saved the state of the lease once more, under its revision and generation, and
  there was time left before and after.
\<close>

definition fence_held :: "'w worker_host \<Rightarrow> 'w lease_store \<Rightarrow> rat \<Rightarrow> queue_lease \<Rightarrow> 'w \<Rightarrow> queue_lease \<Rightarrow> 'w \<Rightarrow> bool" where
  "fence_held wh ls deadline l w l' w' \<longleftrightarrow> (\<exists>w1 w2. time_left wh deadline l w w1 \<and>
     queue_save (ls_host ls) (ql_spec l) (touch (qh_clock (ls_host ls) w1) (ql_state l)) (PInt (ql_revision l))
       (ls_worker_id ls) (PInt (ql_lease_generation l)) (ls_lease_seconds ls) w1 = (Inr l', w2) \<and>
     ql_revision l' = ql_revision l + 1 \<and> ql_lease_generation l' = ql_lease_generation l \<and>
     time_left wh deadline l' w2 w')"

lemma fence_Inr:
  assumes ok: "queue_backend_ok (ls_host ls)" and inv: "hs_inv g (l, w)" and f: "fence wh ls deadline (l, w) = (Inr u, (l', w'))"
  shows "fence_held wh ls deadline l w l' w' \<and> hs_inv g (l', w')"
proof -
  obtain w1 st now w2 where before: "time_left wh deadline l w w1" and ld: "hs_load ls (ql_task_id l) (l, w1) = Inr st"
    and sv: "hs_save ls st (l, w1) = (Inr now, (l', w2))" and after: "time_left wh deadline l' w2 w'"
    using f
    by (auto simp: fence_def bindE_eq_Inr resave_def dest!: or_interrupted_Inr check_time_Inr)
  have "st_schema_version (ql_state l) = STATE_SCHEMA_VERSION" "st_updated_at (ql_state l) \<noteq> []"
    using inv by (simp_all add: hs_inv_def lease_ok_def)
  then have st: "st = ql_state l" using ld by (simp add: hs_load_def TaskState_roundtrip)
  have save: "queue_save (ls_host ls) (ql_spec l) (touch (qh_clock (ls_host ls) w1) (ql_state l)) (PInt (ql_revision l))
       (ls_worker_id ls) (PInt (ql_lease_generation l)) (ls_lease_seconds ls) w1 = (Inr l', w2)"
    using sv st by (auto simp: hs_save_def Let_def split: if_splits prod.splits sum.splits)
  note facts = hs_save_Inr [OF ok hs_save_schema [OF sv] sv]
  then have "hs_inv g (l', w')" using inv by (auto simp: hs_inv_def touch_def)
  with facts before after save show ?thesis unfolding fence_held_def by blast
qed

section \<open>Evidence\<close>

text \<open>
  The ledger acknowledged a piece of evidence under a lease: an event of the kind and of the step of the
  context, whose payload is the data under the fingerprint of the specification and the lease's
  generation and revision.
\<close>

definition evidence_acknowledged ::
  "'w lease_store \<Rightarrow> string \<Rightarrow> string \<Rightarrow> pydict \<Rightarrow> pydict \<Rightarrow> queue_lease \<Rightarrow> 'w \<Rightarrow> 'w \<Rightarrow> bool" where
  "evidence_acknowledged ls fp kind data ctx l w w' \<longleftrightarrow> (\<exists>step ack payload.
     map_of ctx ''step_id'' = Some step \<and>
     payload = PDict [(''spec_fingerprint'', PStr fp), (''lease_generation'', PInt (ql_lease_generation l)),
       (''revision'', PInt (ql_revision l)), (''evidence'', PDict data)] \<and>
     activity_append (ls_activity ls) (ql_task_id l) (PStr kind) step payload w = (Inr ack, w') \<and>
     ev_event_type ack = kind \<and> py_eq (opt_str (ev_step_id ack)) step \<and> py_eq (PDict (ev_payload ack)) payload)"

lemma append_evidence_Inr:
  assumes "append_evidence ls fp kind data ctx (l, w) = (Inr u, (l', w'))"
  shows "l' = l \<and> evidence_acknowledged ls fp kind data ctx l w w'"
proof -
  let ?payload = "evidence_payload fp l data"
  obtain step ack where s: "map_of ctx ''step_id'' = Some step"
    and a: "activity_append (ls_activity ls) (ql_task_id l) (PStr kind) step (PDict ?payload) w = (Inr ack, w')"
    and ok: "acknowledged ack kind step ?payload" and l: "l' = l"
    using assms
    by (auto simp: append_evidence_def Let_def bindE_eq_Inr outside_Inr interrupted_def dict_item_def simp del: py_eq.simps
        split: option.splits if_splits)
  from ok have "ev_event_type ack = kind \<and> py_eq (opt_str (ev_step_id ack)) step \<and> py_eq (PDict (ev_payload ack)) (PDict ?payload)"
    by (simp only: acknowledged_def)
  with s a l show ?thesis unfolding evidence_acknowledged_def evidence_payload_def by blast
qed

text \<open>The whole record: a fence, the acknowledgement under the lease it left, and a fence again.\<close>

definition evidence_recorded ::
  "'w worker_host \<Rightarrow> 'w lease_store \<Rightarrow> rat \<Rightarrow> string \<Rightarrow> string \<Rightarrow> pydict \<Rightarrow> pydict \<Rightarrow> queue_lease \<times> 'w \<Rightarrow> queue_lease \<times> 'w \<Rightarrow> bool" where
  "evidence_recorded wh ls deadline fp kind data ctx lw lw' \<longleftrightarrow> (\<exists>l1 w1 w2.
     fence_held wh ls deadline (fst lw) (snd lw) l1 w1 \<and> evidence_acknowledged ls fp kind data ctx l1 w1 w2 \<and>
     fence_held wh ls deadline l1 w2 (fst lw') (snd lw'))"

lemma record_evidence_Inr:
  assumes ok: "queue_backend_ok (ls_host ls)" and inv: "hs_inv g lw"
    and r: "record_evidence wh ls deadline fp kind data ctx lw = (Inr u, lw')"
  shows "evidence_recorded wh ls deadline fp kind data ctx lw lw'"
proof -
  obtain l w where lw: "lw = (l, w)" by (cases lw)
  obtain l' w' where lw': "lw' = (l', w')" by (cases lw')
  obtain l1 w1 l2 w2 where f1: "fence wh ls deadline (l, w) = (Inr (), (l1, w1))"
    and a: "append_evidence ls fp kind data ctx (l1, w1) = (Inr (), (l2, w2))"
    and f2: "fence wh ls deadline (l2, w2) = (Inr u, (l', w'))"
    using r by (auto simp: record_evidence_def bindE_eq_Inr lw lw')
  note one = fence_Inr [OF ok inv [unfolded lw] f1]
  note ack = append_evidence_Inr [OF a]
  have "hs_inv g (l2, w2)" using one ack by (simp add: hs_inv_def)
  from fence_Inr [OF ok this f2] one ack show ?thesis
    unfolding evidence_recorded_def lw lw' by auto
qed

section \<open>The actions\<close>

text \<open>The name of the evidence of each action.\<close>

definition evidence_kind :: "string \<Rightarrow> string" where
  "evidence_kind n = (if n = ''github.read_main'' then ''github_observation'' else ''github_verification'')"

lemma result_data_AV: "result_data v = Inr d \<longleftrightarrow> (\<exists>r. v = AV_Result r \<and> rs_data r = d)"
  by (cases v) auto

text \<open>C17. No result of the repository worker goes to the runner before its evidence is in the ledger. When one of
  its two actions returns a result, the fenced action on GitHub returned this very result, and right
  after it the lease was saved once more with time left, the ledger acknowledged an event of the action's kind
  and of the step, whose payload is the result's data under the fingerprint of the worker's task and
  the generation and revision that the lease had then, and the lease was saved once more with time left.
  A verification returns only for the data that the read action of this run had recorded, and the read
  action remembers what it recorded. The queue answers a save with the state it was sent.\<close>

theorem repository_evidence_is_recorded:
  assumes "queue_backend_ok (ls_host ls)" and "lease_ok (fst lw)" and "st_updated_at (ql_state (fst lw)) \<noteq> []"
    and "(n, act) \<in> set (repository_actions pw ls deadline)" and "act args ctx lw = (Inr v, (l', w'))"
  shows "\<exists>r l1 w1 w2. v = AV_Result r \<and>
    named_action (fenced_actions pw ls deadline) n args ctx lw = (Inr v, (l1, w1)) \<and>
    evidence_recorded (pw_host pw) ls deadline (pw_fingerprint pw) (evidence_kind n) (rs_data r) ctx (l1, w1) (l', w2) \<and>
    (if n = ''github.read_main'' then w' = w2\<lparr>fw_observation := Some (rs_data r)\<rparr>
     else w' = w2 \<and> (\<exists>data claimed. fw_observation (snd lw) = Some data \<and> observed_in args = Inr claimed \<and>
            py_eq claimed (PDict data)))"
proof -
  let ?rec = "record_evidence (pw_host pw) ls deadline (pw_fingerprint pw)" and ?acts = "fenced_actions pw ls deadline"
  have inv: "hs_inv (ql_lease_generation (fst lw)) lw" using assms(2,3) by (simp add: hs_inv_def)
  have inv1: "hs_inv (ql_lease_generation (fst lw)) lw1" if "named_action ?acts n args ctx lw = (x, lw1)" for x lw1
    using keepsD [OF keeps_fenced_action [OF assms(1)] inv that] .
  from assms(4) consider (r) "n = ''github.read_main''" "act = repository_read ?rec ?acts"
    | (v) "n = ''github.verify_ci''" "act = repository_verify ?rec ?acts"
    by (auto simp: repository_actions_def Let_def)
  then show ?thesis
  proof cases
    case r
    obtain x l1 w1 w2 where a: "named_action ?acts ''github.read_main'' args ctx lw = (Inr (AV_Result x), (l1, w1))"
      and rc: "?rec ''github_observation'' (rs_data x) ctx (l1, w1) = (Inr (), (l', w2))"
      and out: "v = AV_Result x" "w' = w2\<lparr>fw_observation := Some (rs_data x)\<rparr>"
      using assms(5)
      by (auto simp: r(2) repository_read_def bindE_eq_Inr result_data_AV observe_def dest!: or_interrupted_Inr)
    have i1: "hs_inv (ql_lease_generation (fst lw)) (l1, w1)" using inv1 a by (simp add: r(1))
    show ?thesis
      using a out record_evidence_Inr [OF assms(1) i1 rc] by (auto simp: r(1) evidence_kind_def)
  next
    case v
    obtain data claimed x l1 w1 where obs: "fw_observation (snd lw) = Some data" "observed_in args = Inr claimed"
        "py_eq claimed (PDict data)"
      and a: "named_action ?acts ''github.verify_ci'' args ctx lw = (Inr (AV_Result x), (l1, w1))"
      and rc: "?rec ''github_verification'' (rs_data x) ctx (l1, w1) = (Inr (), (l', w'))" and out: "v = AV_Result x"
      using assms(5)
      by (auto simp: v(2) repository_verify_def bindE_eq_Inr result_data_AV observation_def interrupted_def
          dest!: or_interrupted_Inr split: option.splits if_splits)
    have i1: "hs_inv (ql_lease_generation (fst lw)) (l1, w1)" using inv1 a by (simp add: v(1))
    show ?thesis
      using a out obs record_evidence_Inr [OF assms(1) i1 rc] by (auto simp: v(1) evidence_kind_def)
  qed
qed

section \<open>A run of the read action\<close>

text \<open>The worker of \<open>Repository_Results\<close> on a repository with one file; its token occurs in no answer.\<close>

definition ev_get :: "fence_world api" where
  "ev_get p w = (Inr (PDict (if last p = CHR ''n'' then [(''sha'', PStr gh_sha)] else gh_file)), w)"

definition ev_worker :: "fence_world repository_worker" where
  "ev_worker = rp_worker\<lparr>pw_get := ev_get, pw_token := ''Z''\<rparr>"

definition ev_ctx :: pydict where
  "ev_ctx = (''step_id'', PStr ''s1'') # gh_ctx"

abbreviation ev_lease :: "int \<Rightarrow> queue_lease" where
  "ev_lease n \<equiv> demo_lease rp_running ''running'' n"

lemma ev_store: "ls_host rp_store = demo_queue" "ls_activity rp_store = demo_transport" "ls_worker_id rp_store = ''w1''"
  "ls_lease_seconds rp_store = PInt 60"
  by (simp_all add: repository_store_def rp_worker_def)

lemma ev_host: "wh_clock (pw_host ev_worker) = retE 10" "wh_utcnow (pw_host ev_worker) = retE 0"
  "pw_fingerprint ev_worker = fingerprint demo_spec" "pw_token ev_worker = ''Z''" "pw_get ev_worker = ev_get"
  "pw_audit ev_worker = (\<lambda>_ w. w)"
  by (simp_all add: ev_worker_def rp_worker_def)

lemma ev_expiry: "fromisoformat (replace_Z ''2024-01-01T00:00:00Z'') = Some \<lparr>dt_local = 1704067200000000, dt_offset = Some 0\<rparr>"
  by code_simp

lemma ev_running: "st_schema_version rp_running = STATE_SCHEMA_VERSION" "st_updated_at rp_running = ''now''"
  "st_task_id rp_running = ''t1''" "st_spec_fingerprint rp_running = PStr (fingerprint demo_spec)"
  "st_status rp_running = PStr ''running''" "touch ''now'' rp_running = rp_running"
  by (simp_all add: touch_def rp_fresh_def)

lemma ev_lease_simps: "ql_task_id (ev_lease n) = ''t1''" "ql_revision (ev_lease n) = n" "ql_lease_generation (ev_lease n) = 1"
  "ql_spec (ev_lease n) = demo_spec" "ql_state (ev_lease n) = rp_running"
  "ql_lease_expires_at (ev_lease n) = Some ''2024-01-01T00:00:00Z''"
  by (simp_all add: demo_lease_def)

lemma ev_time: "check_time (pw_host ev_worker) 200 (ev_lease n, w) = (Inr (), (ev_lease n, w))"
  by (simp add: check_time_def outside_def bindE_apply ev_host check_expiry_def ev_lease_simps ev_expiry aware_def instant_def)

lemma ev_fence:
  assumes "0 \<le> n"
  shows "fence (pw_host ev_worker) rp_store 200 (ev_lease n, w) = (Inr (), (ev_lease (n + 1), w))"
proof -
  have load: "hs_load rp_store ''t1'' (ev_lease n, w) = Inr rp_running"
    using ev_running(1,2) by (simp add: hs_load_def ev_lease_simps TaskState_roundtrip del: touch_simps)
  have "queue_save demo_queue demo_spec rp_running (PInt n) ''w1'' (PInt 1) (PInt 60) w = (Inr (ev_lease (n + 1)), w)"
    using demo_save [of rp_running "''running''" n w] ev_running rp_save_clean(1) assms by simp
  then have "hs_save rp_store rp_running (ev_lease n, w) = (Inr ''now'', (ev_lease (n + 1), w))"
    by (simp only: hs_save_def Let_def ev_store ev_lease_simps fst_conv snd_conv demo_queue_simps ev_running(3,6)
        prod.case sum.case not_True_eq_False if_False simp_thms)
  then show ?thesis
    by (simp add: fence_def or_interrupted_def tryE_apply bindE_apply ev_time resave_def ev_lease_simps load)
qed

text \<open>The answers of the repository pass the test for an echo of the token.\<close>

lemma substring_set: "substring n s \<Longrightarrow> set n \<subseteq> set s"
proof (induction s)
  case (Cons c cs)
  from Cons.prems consider "take (length n) (c # cs) = n" | "substring n cs" by auto
  then show ?case
  proof cases
    case 1
    then show ?thesis using set_take_subset [of "length n" "c # cs"] by simp
  next
    case 2
    then show ?thesis using Cons.IH by auto
  qed
qed simp

lemma json_string_hex: "list_all is_hex s \<Longrightarrow> set (json_string s) = insert (CHR 0x22) (set s)"
proof -
  have "is_hex c \<Longrightarrow> json_char c = [c]" for c by (auto simp: json_char_def Let_def is_hex_def is_digit_def)
  then have "list_all is_hex s \<Longrightarrow> concat (map json_char s) = s" by (induction s) simp_all
  then show "list_all is_hex s \<Longrightarrow> set (json_string s) = insert (CHR 0x22) (set s)" by (simp add: json_string_def)
qed

lemma blob_sha_Z: "CHR ''Z'' \<notin> set (json_string (blob_sha bs))"
proof -
  have no: "\<not> is_hex CHR ''Z''" by code_simp
  have hex: "list_all is_hex (blob_sha bs)" using sha1_hex_ok unfolding blob_sha_def commit_sha_ok_def by blast
  with no have "CHR ''Z'' \<notin> set (blob_sha bs)" by (metis list_all_iff)
  then show ?thesis unfolding json_string_hex [OF hex] by simp
qed

lemma ev_no_echo: "\<not> substring ''Z'' (json_plain (PDict [(''sha'', PStr gh_sha)]))" "\<not> substring ''Z'' (json_plain (PDict gh_file))"
proof -
  show "\<not> substring ''Z'' (json_plain (PDict [(''sha'', PStr gh_sha)]))" by code_simp
  have keys: "CHR ''Z'' \<notin> set (json_string ''type'')" "CHR ''Z'' \<notin> set (json_string ''path'')" "CHR ''Z'' \<notin> set (json_string ''encoding'')"
    "CHR ''Z'' \<notin> set (json_string ''sha'')" "CHR ''Z'' \<notin> set (json_string ''size'')" "CHR ''Z'' \<notin> set (json_string ''content'')"
    "CHR ''Z'' \<notin> set (json_string ''file'')" "CHR ''Z'' \<notin> set (json_string ''AGENTS.md'')" "CHR ''Z'' \<notin> set (json_string ''base64'')"
    "CHR ''Z'' \<notin> set (json_string ''YWJj'')" "CHR ''Z'' \<notin> set (int_str 3)"
    by code_simp+
  have "CHR ''Z'' \<notin> set (json_plain (PDict gh_file))"
    using keys blob_sha_Z [of "[97, 98, 99]"] by (simp add: gh_file_def)
  then show "\<not> substring ''Z'' (json_plain (PDict gh_file))"
    using substring_set [of "''Z''" "json_plain (PDict gh_file)"] by (metis list.set_intros(1) subsetD)
qed

abbreviation ev_api :: "(queue_lease \<times> fence_world) api" where
  "ev_api \<equiv> fenced_api (Some (fence (pw_host ev_worker) rp_store 200)) (\<lambda>path. outside (sha_api_get (pw_token ev_worker) (pw_get ev_worker) path))"

lemma ev_request:
  assumes "0 \<le> n"
  shows "ev_api p (ev_lease n, w) =
    (Inr (PDict (if last p = CHR ''n'' then [(''sha'', PStr gh_sha)] else gh_file)), (ev_lease (n + 2), w))"
proof -
  have "sha_api_get ''Z'' ev_get p w = (Inr (PDict (if last p = CHR ''n'' then [(''sha'', PStr gh_sha)] else gh_file)), w)"
    using ev_no_echo by (simp add: sha_api_get_def ev_get_def tryE_apply bindE_apply del: json_plain.simps substring.simps)
  moreover have "fence (pw_host ev_worker) rp_store 200 (ev_lease (n + 1), w) = (Inr (), (ev_lease (n + 2), w))"
    using ev_fence [of "n + 1" w] assms by (simp add: add.commute)
  ultimately show ?thesis
    using ev_fence [OF assms, of w] by (simp add: fenced_api_def bindE_apply outside_def ev_host)
qed

lemma ev_read:
  "named_action (fenced_actions ev_worker rp_store 200) ''github.read_main'' gh_step_args ev_ctx (ev_lease 5, w) =
     (Inr (AV_Result gh_result), (ev_lease 9, w))"
proof -
  have repo: "sha_repository ev_ctx = Inr REPOSITORY" by code_simp
  have main: "main_sha ev_api REPOSITORY (ev_lease 5, w) = (Inr gh_sha, (ev_lease 7, w))"
    using gh_paths(1) gh_facts(5) by (simp add: main_sha_def ev_request bindE_apply sha_value_def)
  have one: "ev_api (contents_path REPOSITORY gh_sha ''AGENTS.md'') (ev_lease 7, w) = (Inr (PDict gh_file), (ev_lease 9, w))"
    using gh_paths(2) by (simp add: ev_request)
  have files: "pinned_files ev_api REPOSITORY gh_sha [''AGENTS.md''] [] (ev_lease 7, w) = (Inr [(''AGENTS.md'', PDict
      [(''sha'', PStr (blob_sha [97, 98, 99])), (''size'', PInt 3), (''verified_nonempty_text'', PBool True)])], (ev_lease 9, w))"
    by (simp add: bindE_apply one gh_entry)
  have reading: "sha_read_main ev_api gh_step_args ev_ctx (ev_lease 5, w) =
      (Inr (BV_Dict [(''message'', PStr (rs_message gh_result)), (''data'', PDict (rs_data gh_result))] (Items [])), (ev_lease 9, w))"
    by (simp add: sha_read_main_def bindE_apply repo gh_paths(3) main files gh_result_def del: pinned_files.simps)
  have audit: "pw_audit ev_worker entry v = v" for entry v by (simp add: ev_host)
  have "bridge_action (bridge_invoke (\<lambda>entry lw. (fst lw, pw_audit ev_worker entry (snd lw))) (sha_read_main ev_api) (sha_verify_ci ev_api))
      read_cap gh_step_args ev_ctx (ev_lease 5, w) = (Inr (AV_Result gh_result), (ev_lease 9, w))"
    by (simp add: bridge_action_def bridge_invoke_def bindE_apply audit reading read_cap_def)
      (simp add: gh_result_def py_or_def)
  then show ?thesis
    by (simp add: named_action_def fenced_actions_eq Let_def guarded_action_def bindE_apply assert_read_only_result_def)
      (simp add: gh_result_def)
qed

definition ev_payload_at :: "int \<Rightarrow> pydict" where
  "ev_payload_at n = evidence_payload (fingerprint demo_spec) (ev_lease n) (rs_data gh_result)"

lemma ev_keys: "\<not> forbidden_key ''evidence''" "\<not> forbidden_key ''repository''" "\<not> forbidden_key ''ref''"
  "\<not> forbidden_key ''observed_sha''" "\<not> forbidden_key ''files''" "\<not> forbidden_key ''AGENTS.md''" "\<not> forbidden_key ''sha''"
  "\<not> forbidden_key ''size''" "\<not> forbidden_key ''verified_nonempty_text''"
  by code_simp+

lemma ev_clean: "clean_val (PDict (ev_payload_at n))"
  by (simp add: ev_payload_at_def evidence_payload_def gh_result_def keys_allowed ev_keys)

definition ev_ack :: "int \<Rightarrow> activity_event" where
  "ev_ack n = \<lparr>ev_event_id = 7, ev_task_id = ''t1'', ev_event_type = ''github_observation'', ev_step_id = Some ''s1'',
     ev_payload = ev_payload_at n, ev_created_at = ''now''\<rparr>"

lemma ev_append: "activity_append demo_transport ''t1'' (PStr ''github_observation'') (PStr ''s1'') (PDict (ev_payload_at n)) w =
    (Inr (ev_ack n), w)"
proof -
  have texts: "strip ''s1'' = ''s1''" "strip ''github_observation'' = ''github_observation''" by code_simp+
  have ne: "ev_payload_at n \<noteq> []" by (simp add: ev_payload_at_def evidence_payload_def)
  show ?thesis
    using ev_clean [of n] ne texts
    by (simp add: activity_append_def demo_task_id validate_event_type_ok validate_step_id_def validate_payload_def
        py_or_def forbidden_secret_path_None [THEN iffD2] activity_request_def bindE_apply demo_transport_def
        demo_event_def parse_event_def row_text_def opt_str_def ev_ack_def del: forbidden_secret_path.simps)
qed

lemma ev_acknowledged: "acknowledged (ev_ack n) ''github_observation'' (PStr ''s1'') (ev_payload_at n)"
  by (simp add: acknowledged_def ev_ack_def ev_payload_at_def evidence_payload_def gh_result_def opt_str_def)

lemma ev_record:
  "record_evidence (pw_host ev_worker) rp_store 200 (pw_fingerprint ev_worker) ''github_observation'' (rs_data gh_result) ev_ctx
     (ev_lease 9, w) = (Inr (), (ev_lease 11, w))"
proof -
  have "fence (pw_host ev_worker) rp_store 200 (ev_lease 9, w) = (Inr (), (ev_lease 10, w))"
    "fence (pw_host ev_worker) rp_store 200 (ev_lease 10, w) = (Inr (), (ev_lease 11, w))"
    using ev_fence [of 9 w] ev_fence [of 10 w] by simp_all
  moreover have "append_evidence rp_store (fingerprint demo_spec) ''github_observation'' (rs_data gh_result) ev_ctx (ev_lease 10, w) =
      (Inr (), (ev_lease 10, w))"
    unfolding append_evidence_def Let_def fst_conv ev_payload_at_def [symmetric]
    using ev_acknowledged by (simp add: bindE_apply dict_item_def ev_ctx_def outside_def ev_store ev_lease_simps ev_append)
  ultimately show ?thesis by (simp only: record_evidence_def bindE_apply ev_host prod.case sum.case)
qed

lemma ev_actions: "(''github.read_main'', repository_read (record_evidence (pw_host ev_worker) rp_store 200 (pw_fingerprint ev_worker))
    (fenced_actions ev_worker rp_store 200)) \<in> set (repository_actions ev_worker rp_store 200)"
  by (simp add: repository_actions_def Let_def)

lemma ev_action:
  "repository_read (record_evidence (pw_host ev_worker) rp_store 200 (pw_fingerprint ev_worker))
     (fenced_actions ev_worker rp_store 200) gh_step_args ev_ctx (ev_lease 5, w) =
   (Inr (AV_Result gh_result), (ev_lease 11, w\<lparr>fw_observation := Some (rs_data gh_result)\<rparr>))"
  by (simp only: repository_read_def or_interrupted_def tryE_apply bindE_apply ev_read ev_record result_data.simps liftE_def
      observe_def retE_def prod.case sum.case fst_conv snd_conv)

text \<open>The read action of a worker on this repository returns after six fences, and its evidence is acknowledged.\<close>

theorem repository_evidence_is_recorded_witness:
  "\<exists>act. (''github.read_main'', act) \<in> set (repository_actions ev_worker rp_store 200) \<and>
     (\<forall>w. act gh_step_args ev_ctx (ev_lease 5, w) =
        (Inr (AV_Result gh_result), (ev_lease 11, w\<lparr>fw_observation := Some (rs_data gh_result)\<rparr>))) \<and>
     (\<exists>l1 w1 l2 w2. evidence_recorded (pw_host ev_worker) rp_store 200 (fingerprint demo_spec) ''github_observation''
        (rs_data gh_result) ev_ctx (l1, w1) (l2, w2))"
proof -
  let ?act = "repository_read (record_evidence (pw_host ev_worker) rp_store 200 (pw_fingerprint ev_worker))
     (fenced_actions ev_worker rp_store 200)"
  have ok: "queue_backend_ok (ls_host rp_store)" using demo_backend_ok by (simp only: ev_store)
  have worker: "valid_worker_id ''w1''" by (rule demo_worker_id)
  have "lease_ok (ev_lease 5)"
    using rp_save_clean(1) worker ev_running by (simp add: lease_ok_def demo_lease_def ROW_STATUSES_def)
  then have inv: "lease_ok (fst (ev_lease 5, w :: fence_world))" "st_updated_at (ql_state (fst (ev_lease 5, w :: fence_world))) \<noteq> []" for w
    by (simp_all add: ev_lease_simps ev_running(2))
  have "\<exists>l1 w1 l2 w2. evidence_recorded (pw_host ev_worker) rp_store 200 (fingerprint demo_spec) ''github_observation''
        (rs_data gh_result) ev_ctx (l1, w1) (l2, w2)"
    using repository_evidence_is_recorded [OF ok inv ev_actions ev_action [of undefined]]
    by (auto simp: evidence_kind_def ev_host)
  with ev_actions ev_action show ?thesis by blast
qed

end
