(* ===== verification/Hosted_Tools.thy ===== *)
theory Hosted_Tools
  imports Repository_Worker Transport_Results
begin

text \<open>
  The tools that put the hosted components together: the worker of one run instance, whose exact claim
  has its own edge function (\<^verbatim>\<open>src/tools/prepare_exact_run_instance_worker.py\<close>), the recovery inspector
  (\<^verbatim>\<open>src/tools/prepare_hosted_recovery.py\<close>) and the enqueueing of one run instance
  (\<^verbatim>\<open>src/tools/enqueue_trusted_run_instance.py\<close>, after its command line is parsed).
\<close>

section \<open>Preparation\<close>

definition prepare_exact_run_instance_worker ::
  "string \<Rightarrow> pydict res \<Rightarrow> (string \<Rightarrow> unit res) \<Rightarrow> 'w edge_requester \<Rightarrow> ('w \<Rightarrow> string) \<Rightarrow> 'w worker_host \<Rightarrow> 'w api \<Rightarrow>
   (pydict \<Rightarrow> 'w \<Rightarrow> 'w) \<Rightarrow> pyval \<Rightarrow> string \<Rightarrow> string \<Rightarrow> pyval \<Rightarrow> pyval \<Rightarrow> rat \<Rightarrow> task_spec \<Rightarrow> 'w repository_worker res" where
  "prepare_exact_run_instance_worker fp template_file bracket_check requester now wh get audit project_url key owner_token
     github_token authorized seconds target =
     bindR (SupabaseEdgeTransport bracket_check requester project_url key owner_token ''agent-runtime-dev'' (Seconds 20)) (\<lambda>d.
     bindR (SupabaseEdgeTransport bracket_check requester project_url key owner_token ''agent-exact-claim-dev'' (Seconds 20)) (\<lambda>x.
     bindR (ExactClaimRoutingTransport (Some d) (Some x)) (\<lambda>r.
     HostedRepositoryStatusWorker fp template_file \<lparr>qh_transport = route_client r, qh_clock = now\<rparr> wh get audit github_token
       authorized seconds (Some target))))"

definition prepare_hosted_recovery ::
  "(string \<Rightarrow> unit res) \<Rightarrow> 'w edge_requester \<Rightarrow> ('w \<Rightarrow> string) \<Rightarrow> ('w \<Rightarrow> datetime) \<Rightarrow> pyval \<Rightarrow> string \<Rightarrow> string \<Rightarrow> 'w inspector res" where
  "prepare_hosted_recovery bracket_check requester now utcnow project_url key owner_token =
     bindR (SupabaseEdgeTransport bracket_check requester project_url key owner_token ''agent-runtime-dev'' (Seconds 20)) (\<lambda>t.
     Inr \<lparr>ri_queue = \<lparr>qh_transport = edge_client t, qh_clock = now\<rparr>, ri_activity = edge_client t, ri_utcnow = utcnow\<rparr>)"

section \<open>Enqueueing one run instance\<close>

text \<open>What is printed, in the order of its keys.\<close>

definition enqueue_report :: "enqueue_result \<Rightarrow> pydict" where
  "enqueue_report r =
     [(''claimed'', PBool False), (''created'', PBool (eq_created r)), (''executed'', PBool False),
      (''revision'', PInt (cr_revision (eq_record r))), (''status'', PStr (cr_status (eq_record r))),
      (''task_id'', PStr (cr_task_id (eq_record r)))]"

definition enqueue_run_instance ::
  "string \<Rightarrow> pydict res \<Rightarrow> (string \<Rightarrow> unit res) \<Rightarrow> 'w edge_requester \<Rightarrow> ('w \<Rightarrow> string) \<Rightarrow> env \<Rightarrow> string \<Rightarrow> ('w, pydict) eff" where
  "enqueue_run_instance fp template_file bracket_check requester now env token =
     bindE (liftE (build_trusted_status_run_spec fp template_file token)) (\<lambda>spec.
     bindE (liftE (required_env env ''SUPABASE_PROJECT_URL'')) (\<lambda>project_url.
     bindE (liftE (required_env env ''SUPABASE_PUBLISHABLE_KEY'')) (\<lambda>key.
     bindE (liftE (required_env env ''SUPABASE_OWNER_BEARER_TOKEN'')) (\<lambda>owner_token.
     bindE (liftE (SupabaseEdgeTransport bracket_check requester (PStr project_url) key owner_token ''agent-runtime-dev'' (Seconds 20))) (\<lambda>t.
     bindE (ensure_queued fp template_file \<lparr>qh_transport = edge_client t, qh_clock = now\<rparr> spec) (\<lambda>r.
     retE (enqueue_report r)))))))"

section \<open>The prepared worker\<close>

text \<open>The claim of the prepared worker goes to the exact-claim function, every other request of it to the
  general one, and it runs nothing but the instance it was prepared for.\<close>

theorem exact_worker_routes_claims:
  assumes "prepare_exact_run_instance_worker fp template_file bracket_check requester now wh get audit project_url key owner_token
     github_token authorized seconds target = Inr pw"
  shows "\<exists>d x spec. et_function_slug d = ''agent-runtime-dev'' \<and> et_function_slug x = ''agent-exact-claim-dev'' \<and>
    TaskSpec_from_dict (TaskSpec_to_dict target) = Inr spec \<and> pw_task_id pw = sp_task_id spec \<and> pw_fingerprint pw = fingerprint spec \<and>
    rw_activity (pw_worker pw) = route_client \<lparr>xr_default = d, xr_exact = x\<rparr> \<and>
    (\<exists>claimed. client_claim (rw_queue (pw_worker pw)) worker secs =
       queue_claim_task \<lparr>qh_transport = edge_client x, qh_clock = now\<rparr> claimed worker secs)"
proof -
  let ?slug = "\<lambda>slug. SupabaseEdgeTransport bracket_check requester project_url key owner_token slug (Seconds 20)"
  obtain d x r where t: "?slug ''agent-runtime-dev'' = Inr d" "?slug ''agent-exact-claim-dev'' = Inr x"
    and r: "ExactClaimRoutingTransport (Some d) (Some x) = Inr r"
    and w: "HostedRepositoryStatusWorker fp template_file \<lparr>qh_transport = route_client r, qh_clock = now\<rparr> wh get audit github_token
       authorized seconds (Some target) = Inr pw"
    using assms by (auto simp: prepare_exact_run_instance_worker_def bindR_eq_Inr)
  have slug: "?slug s = Inr e \<Longrightarrow> et_function_slug e = s" for s e
    by (auto simp: SupabaseEdgeTransport_def bindR_eq_Inr split: if_splits)
  have r': "r = \<lparr>xr_default = d, xr_exact = x\<rparr>" using r by (auto simp: ExactClaimRoutingTransport_def split: if_splits)
  obtain spec client where spec: "TaskSpec_from_dict (TaskSpec_to_dict target) = Inr spec"
    and client: "BoundExactTaskQueueClient \<lparr>qh_transport = route_client r, qh_clock = now\<rparr> spec = Inr client"
    and pw: "rw_queue (pw_worker pw) = client" "rw_activity (pw_worker pw) = route_client r" "pw_task_id pw = sp_task_id spec"
      "pw_fingerprint pw = fingerprint spec"
    using w by (auto simp: HostedRepositoryStatusWorker_def scoped_task_def bindR_eq_Inr split: if_splits)
  obtain bound where b: "client = \<lparr>qc_host = \<lparr>qh_transport = route_client r, qh_clock = now\<rparr>, qc_target = Some bound\<rparr>"
    using client by (auto simp: BoundExactTaskQueueClient_def bindR_eq_Inr)
  have "queue_claim_task (\<lparr>qh_transport = route_client r, qh_clock = now\<rparr>\<lparr>qh_transport := route_client r\<rparr>) bound worker secs =
      queue_claim_task (\<lparr>qh_transport = route_client r, qh_clock = now\<rparr>\<lparr>qh_transport := edge_client (xr_exact r)\<rparr>) bound worker secs"
    using router_separates_exact_claims by blast
  then have "client_claim client worker secs = queue_claim_task \<lparr>qh_transport = edge_client x, qh_clock = now\<rparr> bound worker secs"
    by (simp add: client_claim_def b r')
  with slug [OF t(1)] slug [OF t(2)] spec pw r' show ?thesis by blast
qed

end
