(* ===== verification/Spec2Isabelle.thy ===== *)
theory Spec2Isabelle
  imports Runner_Results Refresh_Safety Secret_Results Worker_Results Recovery_Results Queue_Planner
    Gate_Results Trusted_Results Agent_Services Stack_Results Transport_Results Github_Results
    Repository_Results Note_Results Payout_Results Trust_Results Refresh_Liveness Evidence_Results Hosted_Tools
begin

text \<open>
  The agent core of the repository, \<^verbatim>\<open>src/agent_core/\<close>: a task runner with durable state, the
  credentials its actions use, the clients of a hosted queue, checkpoint store and activity ledger,
  the workers on them, recovery, planning, and the host of one authorised run; beside it the worker that
  observes the repository (\<^verbatim>\<open>src/tools/\<close>) and the normalisation of historical payouts (\<^verbatim>\<open>src/ml/\<close>).

  \<^bold>\<open>The program and its parts.\<close>

  A task specification is a list of steps, each an action with an optional verification. A runner
  (\<^verbatim>\<open>runner.py\<close>) executes the steps of one specification on a store: it loads the task's state,
  records every attempt durably before it calls an action, records artifacts, verifies, and ends in
  a terminal state; a step whose outcome is unknown blocks the task until an operator reconciles it.
  The store is a directory of JSON files (\<^verbatim>\<open>store.py\<close>) or one fenced lease of the hosted queue
  (\<^verbatim>\<open>hosted_readonly_worker.py\<close>). The actions come from adapters in a registry (\<^verbatim>\<open>adapters.py\<close>): a
  GitHub reader, the host's bridge (\<^verbatim>\<open>runtime_bridge.py\<close>, \<^verbatim>\<open>provider_adapters.py\<close>), or an adapter behind
  the credential gate (\<^verbatim>\<open>credential_adapter.py\<close>), which takes snapshots from a credential provider
  (\<^verbatim>\<open>credential_provider.py\<close>, \<^verbatim>\<open>refresh_credentials.py\<close>); refreshing uses a source of refresh secrets on
  a versioned store (\<^verbatim>\<open>versioned_secret_store.py\<close>), in memory or durable (\<^verbatim>\<open>durable_secret_store.py\<close>),
  whose rows live in PostgreSQL (\<^verbatim>\<open>postgres_secret_backend.py\<close>, \<^verbatim>\<open>postgres_host_factory.py\<close>), read and swapped
  by a child process with a deadline (\<^verbatim>\<open>postgres_secret_process.py\<close>) under a pinned certificate
  (\<^verbatim>\<open>host_trust.py\<close>).
  An orchestrator (\<^verbatim>\<open>orchestrator.py\<close>, \<^verbatim>\<open>runtime.py\<close>) checks a task against the registry before it
  runs it locally. The hosted clients (\<^verbatim>\<open>hosted_queue.py\<close>, \<^verbatim>\<open>exact_task_queue.py\<close>,
  \<^verbatim>\<open>hosted_checkpoint.py\<close>, \<^verbatim>\<open>hosted_activity.py\<close>) send requests over a transport
  (\<^verbatim>\<open>hosted_transport.py\<close>) and check what comes back; on them stand a coordinator (\<^verbatim>\<open>hosted_worker.py\<close>), the read-only worker, the recovery
  inspector (\<^verbatim>\<open>hosted_recovery.py\<close>) and the enqueuer and host of a single trusted run
  (\<^verbatim>\<open>trusted_run_instance.py\<close>, \<^verbatim>\<open>trusted_run_enqueue.py\<close>, \<^verbatim>\<open>activation.py\<close>, \<^verbatim>\<open>single_run_host.py\<close>).
  The repository worker (\<^verbatim>\<open>agent_hosted_repository_worker.py\<close>) is the read-only worker with the actions of a
  bridge to GitHub that is pinned to one commit (\<^verbatim>\<open>agent_github_sha_bridge.py\<close>); a save of the lease fences
  each of its requests. The note adapter (\<^verbatim>\<open>note_drafts.py\<close>) edits private drafts on a browser host.

  \<^bold>\<open>The theories.\<close>

  \<^item> \<open>Py_Prelude\<close>, \<open>Effect_Rules\<close>, \<open>Py_Values\<close>, \<open>Py_Datetime\<close>, \<open>Json_Digest\<close>, \<open>Json_Text\<close>, \<open>Github_Text\<close>,
    \<open>Unicode_Json\<close>: the fragment of Python the code is written in, with its library's texts: JSON written and
    read, base64, percent encoding, UTF-8, SHA-1 and SHA-256.
    A fallible function returns \<open>exc + 'a\<close>, an effectful one also maps a world to a world; \<open>triple\<close> is the
    pre- and postcondition of an effect, \<open>keeps\<close> an invariant of it. JSON-borne values are \<open>pyval\<close>.
  \<^item> \<open>Task_Model\<close> (\<^verbatim>\<open>model.py\<close>), \<open>Task_Store\<close> (the interface of a runner's store and its contract, the
    locale \<open>task_store\<close>), \<open>State_Store\<close> (\<^verbatim>\<open>store.py\<close>, which meets it), \<open>Agent_Runner\<close> (\<^verbatim>\<open>runner.py\<close> and
    \<^verbatim>\<open>diagnostics.py\<close>). \<open>Runner_Safety\<close> and \<open>Runner_Guard\<close> prove what holds on every such store;
    \<open>Runner_Results\<close> states it on the files.
  \<^item> \<open>Credential_Provider\<close>, \<open>Refresh_Credentials\<close>, \<open>Secret_Store\<close> and \<open>Durable_Secrets\<close> model the files of
    these names; \<open>Refresh_Safety\<close>, \<open>Secret_Safety\<close> and \<open>Secret_Results\<close> hold their properties. The
    contract of a versioned store is the locale \<open>secret_store\<close>, met by both stores.
  \<^item> \<open>Postgres_Secrets\<close> (the backend and the bootstrap lease of its host), \<open>Postgres_Host\<close> (the connection
    factory), \<open>Secret_Process\<close> (parent and child), \<open>Credential_Stack\<close> (their composition under a refreshing
    provider); \<open>Postgres_Safety\<close>, \<open>Postgres_Results\<close>, \<open>Host_Results\<close> and \<open>Stack_Results\<close> hold their properties.
    \<open>Host_Trust\<close> with \<open>Trust_Results\<close>: the certificate snapshot on file descriptors. \<open>Refresh_Liveness\<close>: progress
    of the refreshing source, on any store that serves the record (the locale \<open>serving_store\<close>).
  \<^item> \<open>Tool_Registry\<close> (\<^verbatim>\<open>adapters.py\<close>), \<open>Tool_Runtime\<close> (bridge, orchestrator, manifests), \<open>Credential_Adapter\<close>
    (the gate), \<open>Agent_Services\<close> (\<^verbatim>\<open>capability_catalog.py\<close>, \<^verbatim>\<open>delivery.py\<close>); properties in
    \<open>Runtime_Results\<close> and \<open>Gate_Results\<close>.
  \<^item> \<open>Hosted_Transport\<close> with \<open>Transport_Results\<close>: the edge transport and the router of exact claims.
    \<open>Hosted_Activity\<close>, \<open>Hosted_Queue\<close>, \<open>Hosted_Checkpoint\<close>: the clients; \<open>Queue_Safety\<close> the contract of a lease.
    \<open>Hosted_Worker\<close>: the coordinator, the lease as a store, the read-only worker; \<open>Worker_Safety\<close> shows
    that a lease meets \<open>task_store\<close>. Properties in \<open>Hosted_Results\<close> and \<open>Worker_Results\<close>.
  \<^item> \<open>Hosted_Recovery\<close> with \<open>Recovery_Results\<close>, \<open>Queue_Planner\<close> (\<^verbatim>\<open>queue_planner.py\<close>), \<open>Trusted_Run\<close> with
    \<open>Trusted_Results\<close>.
  \<^item> \<open>Github_Bridge\<close> with \<open>Github_Results\<close>: both bridges to GitHub. \<open>Repository_Worker\<close> with \<open>Repository_Results\<close> and
    \<open>Evidence_Results\<close>: the fenced worker on the pinned one. \<open>Hosted_Tools\<close>: the preparation of workers and inspectors. \<open>Note_Drafts\<close> with \<open>Note_Results\<close>.
  \<^item> \<open>Race_Payouts\<close> with \<open>Payout_Results\<close>: \<^verbatim>\<open>src/ml/historical_payouts.py\<close>, over texts of Unicode code points.

  Definitions keep the names of the source where they can; a prefix names the record a field belongs
  to, and a definition that is only a part of a source function says which part.

  \<^bold>\<open>What is shown.\<close>

  \<^item> Runner: a run that returns leaves a durable terminal state that is sound for the specification,
    completed only with every step done; no action is invoked before its attempt is durable; an
    interrupted attempt blocks a task durably, whatever its status was, unless it is terminal already; nothing
    runs at rest; reconciliation takes effect exactly on the
    blocked step; the text of an untrusted exception influences nothing. The same holds of a run on
    a lease, which also ends released.
  \<^item> Credentials: a snapshot is issued only for a checked grant and only when nobody, another thread
    included, revoked the provider during the call; the refresh secret is claimed
    in the store before it is exchanged and the successor is committed before the grant is
    returned; the durable store refines the in-memory one; a record survives its encoding. On
    PostgreSQL a swap replaces the expected row or nothing, an operation through the child process means the
    same, an unclear outcome is never reported as a result, no connection is left open, and one that is handed over
    was checked in an unbroken chain of calls. A certificate snapshot
    holds the pinned bytes and leaves no other descriptor; while the provider answers and the backend is up,
    refreshing on the durable store never gets stuck; a revocation there is final. The gate
    lets no exception text through, and no secret and no snapshot that its search looks at, and covers every
    action.
  \<^item> Hosted clients: leases keep their contract, saves are fenced by revision and generation, claims
    are one's own, no request of the queue and activity clients carries a forbidden key, a checkpoint belongs to its specification.
    Workers: the read-only worker calls read actions only, inspection releases what it claims.
    The transport keeps its credentials in the headers of one https request per call. Recovery: it only reads, it ends on a bounded ledger and reads all of it, and a proposal
    follows from the row that was read and the clock, and authorises nothing.
  \<^item> Planning and hosts: the planner claims the oldest rows within capacity, and over rounds no claimable row starves; the
    orchestrator calls
    only permitted actions; a manifest's registry is exactly its bindings; the single run does
    nothing without every authorisation, accepts only a pristine checkpoint, and a run instance is
    the template under its token.
  \<^item> Repository worker: a run that returns ends released and sound like any run on a lease, no result
    leaves an action before the ledger has acknowledged its evidence between two fences, none of its actions is
    retried, and without a fence it does not depend on GitHub at all; the verdict on a commit is exactly that of
    the newest run of every reviewed workflow. Notes: a reported save was read back from the browser host. Payouts: what is settled
    is exactly what the ranks allow, and every race has one record, never approved.

  \<^bold>\<open>Bounds and fuel.\<close>

  The retry loop of a step is a total function: its measure is the number of attempts left. The
  paging loop of the recovery inspector is a partial function, so that it may fail to return; that it
  returns is a theorem, under the hypothesis that the ledger's identifiers are bounded. The JSON reader has
  fuel, twice the length of its text and one, which \<open>json_loads_dumps\<close> shows to be enough for every text that is
  written. The run list of a commit is read over ten pages, the bound of the source, and \<open>fetch_runs_complete\<close>
  shows that they hold the 1000 runs it accepts. Words are 32 bits wide in SHA-1 and SHA-256 only;
  integers are Python's unbounded ones. Strings are those over U+0000..U+00FF, except in the payouts, whose
  texts are lists of code points. Floats do not
  occur; monotonic clocks and timeouts are rational numbers, process times milliseconds. \<open>fromisoformat\<close> is modelled on the texts that
  \<open>isoformat\<close> prints. Dictionaries keep their insertion order and compare without it. A clock is a
  function of the world.

  \<^bold>\<open>Arguments and hypotheses.\<close>

  Code outside the repository's agent core is an argument: transports, clocks, secret backends, refresh
  exchanges, bridges, the functions that actions call, the PostgreSQL driver, the HTTP client, the check of
  bracketed hosts in \<open>urlparse\<close>, the GET of the GitHub API, interval timers, the browser host. What the code relies on is a named hypothesis:
  \<open>backend_ok\<close> (a row store with compare-and-swap on the payload's version), \<open>queue_backend_ok\<close> (the answer
  to a save carries the state that was stored), \<open>serves_ledger\<close> (the host serves an ordered ledger in
  pages), \<open>github_shows\<close> (the API shows one run list and one head), \<open>pg_database\<close> (committed rows change by the
  statements of the backend only), \<open>factory_ok\<close>, \<open>host_live\<close> and \<open>driver_live\<close> (what opening and closing a connection
  does), \<open>trust_os_ok\<close> (what opening, writing and closing a file does), \<open>answers\<close> and \<open>backend_serves\<close> (a provider
  that answers, a backend that is up), \<open>host_ok\<close> and \<open>watched\<close> (other threads only revoke a credential provider, and
  an observer notes it), \<open>runner_keeps\<close> (actions do not write the task's own state). Each is shown to hold of a concrete
  instance by the witness of a property that uses it. The fingerprint that pins the trusted task is
  an argument of \<open>Trusted_Run\<close>.

  \<^bold>\<open>What the model showed.\<close>

  \<open>guard_misses_truthy_flag\<close>, \<open>eligible_despite_evidence\<close> and \<open>gate_misses_generators\<close> are behaviours of the
  code that its comments do not intend: the read-only guard rejects a flag only when it is the object
  \<open>True\<close>, a queued row is proposed for a first execution despite evidence of one, and the search for
  secrets does not look into generators, which the runner reads.

  \<^bold>\<open>Not modelled.\<close>

  The HTTP client, the PostgreSQL server and its driver, process creation and POSIX timers themselves, which
  are arguments; process controls through ctypes (\<^verbatim>\<open>host_process_safety.py\<close>) and the
  credential report over JSON with floats (\<^verbatim>\<open>runtime_credentials.py\<close>); time zones, decimal numbers and Japanese reports
  (\<^verbatim>\<open>scheduling.py\<close>, \<^verbatim>\<open>reporting.py\<close>); \<^verbatim>\<open>historical_preparation.py\<close>; command lines, and the reading of CSV
  files. The rest of \<^verbatim>\<open>src/ml/\<close>, \<^verbatim>\<open>src/review/\<close> and the web pages are other programs.

  In the order of a run: state files and their text layout are JSON values; the append-only ledger is a
  list; a lock is exclusive on one host; a state write is atomic, as the source writes a temporary file
  and renames it; a crash is a world in which a run stopped after any durable write.
\<close>

end
